(* ===== verification/JsPrelude.thy ===== *)
theory JsPrelude
  imports Main "HOL-Library.List_Lexorder" "HOL-Library.Product_Lexorder" "HOL-Library.Sublist"
    "HOL-Library.Code_Target_Nat"
begin

text \<open>
  The part of the JavaScript language and of its standard library that the components use.

  A JavaScript string is a sequence of UTF-16 code units: \<open>length\<close>, \<open>slice\<close> and
  \<open>indexOf\<close> count code units and \<open><\<close> compares them, so the type \<open>jsstr\<close> is a list of
  natural numbers and a literal of the source is written \<open>js ''...''\<close>. No theorem needs
  that the numbers are below 65536. A value that may be \<open>undefined\<close> or \<open>null\<close> is an option.
\<close>

type_synonym jsstr = "nat list"

text \<open>What is thrown: by the language, by \<open>JSON.parse\<close>, by a schema. A call that may throw returns a sum.\<close>

datatype js_error = TypeError | SyntaxError | SchemaError

definition js :: "string \<Rightarrow> jsstr" where
  "js s = map of_char s"

named_theorems js_eval \<open>equations that evaluate the library on concrete input\<close>

lemma js_Nil [simp]: "js [] = []"
  by (simp add: js_def)

lemma js_append: "js (s @ t) = js s @ js t"
  by (simp add: js_def)

lemma js_length [simp]: "length (js s) = length s"
  by (simp add: js_def)

lemma js_eq_Nil [simp]: "js s = [] \<longleftrightarrow> s = []"
  by (simp add: js_def)

lemma js_inject: "js s = js t \<longleftrightarrow> s = t"
  unfolding js_def by (rule inj_map_eq_map) (simp add: inj_def)

declare js_def [js_eval]

section \<open>White space, trim and case\<close>

text \<open>
  \<open>is_ws\<close> is the set that both \<open>String.prototype.trim\<close> and the class \<open>\\s\<close> of a regular
  expression use: WhiteSpace and LineTerminator of the language specification.
\<close>

definition is_ws :: "nat \<Rightarrow> bool" where
  "is_ws c \<longleftrightarrow> 9 \<le> c \<and> c \<le> 13 \<or> c = 32 \<or> c = 160 \<or> c = 5760 \<or> 8192 \<le> c \<and> c \<le> 8202
     \<or> c = 8232 \<or> c = 8233 \<or> c = 8239 \<or> c = 8287 \<or> c = 12288 \<or> c = 65279"

definition trim_start :: "jsstr \<Rightarrow> jsstr" where
  "trim_start s = dropWhile is_ws s"

definition trim_end :: "jsstr \<Rightarrow> jsstr" where
  "trim_end s = rev (dropWhile is_ws (rev s))"

definition trim :: "jsstr \<Rightarrow> jsstr" where
  "trim s = trim_end (trim_start s)"

definition trimmed :: "jsstr \<Rightarrow> bool" where
  "trimmed s \<longleftrightarrow> s = [] \<or> \<not> is_ws (hd s) \<and> \<not> is_ws (last s)"

text \<open>\<open>toLowerCase\<close> on the code units the source compares against: A to Z.\<close>

definition lower_unit :: "nat \<Rightarrow> nat" where
  "lower_unit c = (if 65 \<le> c \<and> c \<le> 90 then c + 32 else c)"

definition to_lower :: "jsstr \<Rightarrow> jsstr" where
  "to_lower s = map lower_unit s"

lemmas ws_defs = is_ws_def trim_start_def trim_end_def trim_def

declare ws_defs [js_eval] lower_unit_def [js_eval] to_lower_def [js_eval]

lemma printable_not_ws: "32 < c \<Longrightarrow> c < 127 \<Longrightarrow> \<not> is_ws c"
  by (simp add: is_ws_def)

lemma trim_Nil [simp]: "trim [] = []"
  by (simp add: ws_defs)

lemma dropWhile_hd: "dropWhile P xs \<noteq> [] \<Longrightarrow> \<not> P (hd (dropWhile P xs))"
  by (induction xs) auto

lemma last_dropWhile: "dropWhile P xs \<noteq> [] \<Longrightarrow> last (dropWhile P xs) = last xs"
  by (induction xs) auto

lemma trim_end_Nil [simp]: "trim_end [] = []"
  by (simp add: trim_end_def)

lemma hd_trim_end: "trim_end s \<noteq> [] \<Longrightarrow> hd (trim_end s) = hd s"
  unfolding trim_end_def
  by (metis hd_rev last_dropWhile rev_is_Nil_conv rev_rev_ident)

lemma last_trim_end: "trim_end s \<noteq> [] \<Longrightarrow> \<not> is_ws (last (trim_end s))"
  unfolding trim_end_def by (metis dropWhile_hd last_rev rev_is_Nil_conv)

lemma trimmed_trim [simp]: "trimmed (trim s)"
proof (cases "trim s = []")
  case True
  then show ?thesis by (simp add: trimmed_def)
next
  case False
  then have "trim_start s \<noteq> []" by (auto simp: trim_def)
  with False show ?thesis
    using hd_trim_end [of "trim_start s"] last_trim_end [of "trim_start s"]
    by (simp add: trimmed_def trim_def trim_start_def dropWhile_hd)
qed

lemma trim_trimmed: "trimmed s \<Longrightarrow> trim s = s"
proof (cases "s = []")
  case False
  assume "trimmed s"
  with False have "\<not> is_ws (hd s)" and "\<not> is_ws (hd (rev s))"
    by (simp_all add: trimmed_def hd_rev)
  then have "dropWhile is_ws s = s" and "dropWhile is_ws (rev s) = rev s"
    using False by (metis dropWhile.simps(2) list.collapse rev_is_Nil_conv)+
  then show ?thesis by (simp add: trim_def trim_start_def trim_end_def)
qed simp

lemma trim_idem [simp]: "trim (trim s) = trim s"
  by (simp add: trim_trimmed)

lemma trim_length [simp]: "length (trim s) \<le> length s"
proof -
  have "length (trim s) \<le> length (rev (dropWhile is_ws s))"
    unfolding trim_def trim_end_def trim_start_def length_rev by (rule length_dropWhile_le [THEN order_trans]) simp
  also have "\<dots> \<le> length s" by (simp add: length_dropWhile_le)
  finally show ?thesis .
qed

lemma set_trim: "set (trim s) \<subseteq> set s"
  unfolding trim_def trim_end_def trim_start_def
  by (metis set_dropWhileD set_rev subsetI)

lemma trim_id: "\<forall>c \<in> set s. \<not> is_ws c \<Longrightarrow> trim s = s"
  by (rule trim_trimmed) (auto simp: trimmed_def)

lemma trim_eq_Nil_iff: "trim s = [] \<longleftrightarrow> (\<forall>c \<in> set s. is_ws c)"
  by (auto simp: trim_def trim_start_def trim_end_def dropWhile_eq_Nil_conv
      dest: set_dropWhileD) (metis dropWhile_eq_Nil_conv dropWhile_hd hd_in_set)

section \<open>Substrings\<close>

text \<open>\<open>slice a b s\<close> is \<open>s.slice(a, b)\<close> for non-negative positions.\<close>

definition slice :: "nat \<Rightarrow> nat \<Rightarrow> 'a list \<Rightarrow> 'a list" where
  "slice a b s = drop a (take b s)"

fun starts_with :: "'a list \<Rightarrow> 'a list \<Rightarrow> bool" where
  "starts_with [] s = True"
| "starts_with (p # ps) [] = False"
| "starts_with (p # ps) (c # cs) = (p = c \<and> starts_with ps cs)"

definition ends_with :: "'a list \<Rightarrow> 'a list \<Rightarrow> bool" where
  "ends_with p s = starts_with (rev p) (rev s)"

text \<open>
  \<open>find_sub p s\<close> is the position of the first occurrence of \<open>p\<close> in \<open>s\<close>, and
  \<open>index_of p s i\<close> is \<open>s.indexOf(p, i)\<close>, with \<open>None\<close> for the result -1.
\<close>

fun find_sub :: "'a list \<Rightarrow> 'a list \<Rightarrow> nat option" where
  "find_sub p [] = (if p = [] then Some 0 else None)"
| "find_sub p (c # cs) =
     (if starts_with p (c # cs) then Some 0 else map_option Suc (find_sub p cs))"

definition index_of :: "'a list \<Rightarrow> 'a list \<Rightarrow> nat \<Rightarrow> nat option" where
  "index_of p s i = map_option (\<lambda>k. i + k) (find_sub p (drop i s))"

definition has_sub :: "'a list \<Rightarrow> 'a list \<Rightarrow> bool" where
  "has_sub p s = (find_sub p s \<noteq> None)"

declare slice_def [js_eval] index_of_def [js_eval] has_sub_def [js_eval] ends_with_def [js_eval]

lemma starts_with_iff: "starts_with p s \<longleftrightarrow> (\<exists>t. s = p @ t)"
  by (induction p s rule: starts_with.induct) auto

lemma starts_with_append [simp]: "starts_with p (p @ s)"
  by (auto simp: starts_with_iff)

lemma starts_with_prefix: "starts_with p s \<longleftrightarrow> prefix p s"
  by (simp add: starts_with_iff prefix_def)

lemma find_sub_Some:
  "find_sub p s = Some k \<Longrightarrow> starts_with p (drop k s) \<and> k + length p \<le> length s
     \<and> (\<forall>j<k. \<not> starts_with p (drop j s))"
proof (induction s arbitrary: k)
  case Nil
  then show ?case by (simp split: if_splits)
next
  case (Cons c cs)
  show ?case
  proof (cases "starts_with p (c # cs)")
    case True
    with Cons.prems show ?thesis
      by (auto simp: starts_with_iff) (metis length_Cons length_append le_add1)
  next
    case False
    with Cons.prems obtain k' where k': "find_sub p cs = Some k'" "k = Suc k'" by auto
    have "\<forall>j<k. \<not> starts_with p (drop j (c # cs))"
    proof (intro allI impI)
      fix j assume "j < k"
      with k' False Cons.IH [OF k'(1)] show "\<not> starts_with p (drop j (c # cs))"
        by (cases j) auto
    qed
    with k' Cons.IH [OF k'(1)] show ?thesis by simp
  qed
qed

lemma find_sub_None:
  "find_sub p s = None \<Longrightarrow> \<not> starts_with p (drop j s)"
proof (induction s arbitrary: j)
  case Nil
  then show ?case by (cases p) (auto split: if_splits)
next
  case (Cons c cs)
  then show ?case by (cases j) (auto split: if_splits)
qed

lemma find_sub_None_iff: "find_sub p s = None \<longleftrightarrow> (\<forall>a b. s \<noteq> a @ p @ b)"
proof
  assume n: "find_sub p s = None"
  show "\<forall>a b. s \<noteq> a @ p @ b"
  proof (intro allI notI)
    fix a b assume "s = a @ p @ b"
    then have "starts_with p (drop (length a) s)" by simp
    with find_sub_None [OF n] show False by blast
  qed
next
  assume "\<forall>a b. s \<noteq> a @ p @ b"
  then show "find_sub p s = None"
    using find_sub_Some [of p s] by (metis append_take_drop_id not_None_eq starts_with_iff)
qed

lemma has_sub_iff: "has_sub p s \<longleftrightarrow> (\<exists>a b. s = a @ p @ b)"
  using find_sub_None_iff [of p s] by (auto simp: has_sub_def)

lemma find_sub_length: "find_sub p s = Some k \<Longrightarrow> k + length p \<le> length s"
  using find_sub_Some by blast

lemma find_sub_first:
  assumes "s = a @ p @ b" and "\<forall>j < length a. \<not> starts_with p (drop j s)"
  shows "find_sub p s = Some (length a)"
proof (cases "find_sub p s")
  case None
  then show ?thesis using assms(1) by (auto simp: find_sub_None_iff)
next
  case (Some k)
  have "starts_with p (drop (length a) s)" using assms(1) by simp
  moreover from find_sub_Some [OF Some]
  have "starts_with p (drop k s)" "\<forall>j<k. \<not> starts_with p (drop j s)" by auto
  ultimately have "k = length a" using assms(2) by (metis linorder_neqE_nat)
  with Some show ?thesis by simp
qed

section \<open>split and join\<close>

text \<open>\<open>split_char d s\<close> is \<open>s.split(d)\<close> for a separator of one code unit.\<close>

fun split_char :: "nat \<Rightarrow> jsstr \<Rightarrow> jsstr list" where
  "split_char d [] = [[]]"
| "split_char d (c # cs) =
     (if c = d then [] # split_char d cs
      else case split_char d cs of [] \<Rightarrow> [[c]] | w # ws \<Rightarrow> (c # w) # ws)"

fun join :: "'a list \<Rightarrow> 'a list list \<Rightarrow> 'a list" where
  "join sep [] = []"
| "join sep [w] = w"
| "join sep (w # ws) = w @ sep @ join sep ws"

lemma split_char_not_Nil [simp]: "split_char d s \<noteq> []"
  by (induction s) (auto split: list.splits)

lemma split_char_no_sep: "w \<in> set (split_char d s) \<Longrightarrow> d \<notin> set w"
  by (induction s arbitrary: w) (auto split: list.splits if_splits)

lemma split_char_set: "w \<in> set (split_char d s) \<Longrightarrow> set w \<subseteq> set s"
  by (induction s arbitrary: w) (fastforce split: list.splits if_splits)+

lemma split_char_free: "d \<notin> set w \<Longrightarrow> split_char d w = [w]"
  by (induction w) auto

lemma split_char_append: "d \<notin> set w \<Longrightarrow> split_char d (w @ d # s) = w # split_char d s"
  by (induction w) auto

lemma join_Cons: "ws \<noteq> [] \<Longrightarrow> join sep (w # ws) = w @ sep @ join sep ws"
  by (cases ws) auto

lemma join_split: "join [d] (split_char d s) = s"
proof (induction s)
  case (Cons c cs)
  then show ?case
    by (cases "split_char d cs"; cases "tl (split_char d cs)") (auto simp: join_Cons)
qed simp

lemma split_join:
  "ws \<noteq> [] \<Longrightarrow> \<forall>w \<in> set ws. d \<notin> set w \<Longrightarrow> split_char d (join [d] ws) = ws"
  by (induction "[d]" ws rule: join.induct)
    (auto simp: split_char_free split_char_append)

lemma set_join: "set (join sep ws) \<subseteq> set sep \<union> (\<Union>w\<in>set ws. set w)"
  by (induction sep ws rule: join.induct) auto

section \<open>Insertion-ordered sets and maps\<close>

text \<open>
  \<open>[...new Set(xs)]\<close> keeps the first occurrence of every element. \<open>dedup\<close> is that list.
\<close>

fun dedup_acc :: "'a list \<Rightarrow> 'a list \<Rightarrow> 'a list" where
  "dedup_acc seen [] = []"
| "dedup_acc seen (x # xs) =
     (if x \<in> set seen then dedup_acc seen xs else x # dedup_acc (x # seen) xs)"

definition dedup :: "'a list \<Rightarrow> 'a list" where
  "dedup xs = dedup_acc [] xs"

lemma set_dedup_acc: "set (dedup_acc seen xs) = set xs - set seen"
  by (induction seen xs rule: dedup_acc.induct) auto

lemma distinct_dedup_acc: "distinct (dedup_acc seen xs)"
  by (induction seen xs rule: dedup_acc.induct) (auto simp: set_dedup_acc)

lemma dedup_acc_id:
  "distinct xs \<Longrightarrow> set xs \<inter> set seen = {} \<Longrightarrow> dedup_acc seen xs = xs"
  by (induction seen xs rule: dedup_acc.induct) auto

lemma set_dedup [simp]: "set (dedup xs) = set xs"
  by (simp add: dedup_def set_dedup_acc)

lemma distinct_dedup [simp]: "distinct (dedup xs)"
  by (simp add: dedup_def distinct_dedup_acc)

lemma dedup_id: "distinct xs \<Longrightarrow> dedup xs = xs"
  by (simp add: dedup_def dedup_acc_id)

lemma dedup_Nil [simp]: "dedup [] = []"
  by (simp add: dedup_def)

lemma dedup_eq_Nil [simp]: "dedup xs = [] \<longleftrightarrow> xs = []"
  by (metis set_dedup set_empty)

declare dedup_def [js_eval]

section \<open>Numbers as text\<close>

definition is_digit :: "nat \<Rightarrow> bool" where
  "is_digit c \<longleftrightarrow> 48 \<le> c \<and> c \<le> 57"

text \<open>\<open>String(n)\<close> of a non-negative integer, and \<open>parseInt(s, 10)\<close> of a string of digits.\<close>

fun nat_str :: "nat \<Rightarrow> jsstr" where
  "nat_str n = (if n < 10 then [48 + n] else nat_str (n div 10) @ [48 + n mod 10])"

declare nat_str.simps [simp del]

definition digits_val :: "jsstr \<Rightarrow> nat" where
  "digits_val s = foldl (\<lambda>a c. 10 * a + (c - 48)) 0 s"

text \<open>The regular expression \<open>/^\\d+$/\<close>.\<close>

definition is_number :: "jsstr \<Rightarrow> bool" where
  "is_number s \<longleftrightarrow> s \<noteq> [] \<and> list_all is_digit s"

declare is_digit_def [js_eval] digits_val_def [js_eval] is_number_def [js_eval]

lemma digits_val_snoc [simp]: "digits_val (s @ [c]) = 10 * digits_val s + (c - 48)"
  by (simp add: digits_val_def)

lemma nat_str_digits: "list_all is_digit (nat_str n) \<and> nat_str n \<noteq> []"
proof (induction n rule: nat_str.induct)
  case (1 n)
  then show ?case by (auto simp: nat_str.simps [of n] is_digit_def)
qed

lemma is_number_nat_str [simp]: "is_number (nat_str n)"
  by (simp add: is_number_def nat_str_digits)

lemma digits_val_nat_str [simp]: "digits_val (nat_str n) = n"
proof (induction n rule: nat_str.induct)
  case (1 n)
  then show ?case
    by (cases "n < 10") (auto simp: nat_str.simps [of n], simp add: digits_val_def)
qed

lemma nat_str_inject [simp]: "nat_str m = nat_str n \<longleftrightarrow> m = n"
  by (metis digits_val_nat_str)

lemma nat_str_no_ws: "c \<in> set (nat_str n) \<Longrightarrow> \<not> is_ws c \<and> is_digit c"
  using nat_str_digits [of n] by (auto simp: list_all_iff is_digit_def is_ws_def)

lemma trim_nat_str [simp]: "trim (nat_str n) = nat_str n"
  by (rule trim_id) (simp add: nat_str_no_ws)

text \<open>\<open>a || b\<close> on texts.\<close>

definition str_or :: "jsstr option \<Rightarrow> jsstr \<Rightarrow> jsstr" where
  "str_or a b = (case a of Some s \<Rightarrow> if s = [] then b else s | None \<Rightarrow> b)"

text \<open>Digits in bases up to 16.\<close>

definition radix_digit :: "nat \<Rightarrow> nat option" where
  "radix_digit c = (if 48 \<le> c \<and> c \<le> 57 then Some (c - 48) else if 97 \<le> c \<and> c \<le> 102 then Some (c - 87)
     else if 65 \<le> c \<and> c \<le> 70 then Some (c - 55) else None)"

fun radix_value :: "nat \<Rightarrow> nat \<Rightarrow> jsstr \<Rightarrow> nat option" where
  "radix_value r acc [] = Some acc"
| "radix_value r acc (c # cs) =
     (case radix_digit c of Some d \<Rightarrow> if d < r then radix_value r (acc * r + d) cs else None | None \<Rightarrow> None)"

definition int_str :: "int \<Rightarrow> jsstr" where
  "int_str i = (if i < 0 then 45 # nat_str (nat (- i)) else nat_str (nat i))"

section \<open>Association lists in property order\<close>

text \<open>
  A plain object used as a dictionary: looking a key up, replacing or appending an entry,
  and \<open>delete\<close>. The keys the components store this way are not array indices, so new
  entries go to the end.
\<close>

fun al_put :: "'k \<Rightarrow> 'v \<Rightarrow> ('k \<times> 'v) list \<Rightarrow> ('k \<times> 'v) list" where
  "al_put k v [] = [(k, v)]"
| "al_put k v ((k', v') # xs) = (if k = k' then (k, v) # xs else (k', v') # al_put k v xs)"

definition al_delete :: "'k \<Rightarrow> ('k \<times> 'v) list \<Rightarrow> ('k \<times> 'v) list" where
  "al_delete k xs = filter (\<lambda>(k', v). k' \<noteq> k) xs"

lemma map_of_al_put: "map_of (al_put k v xs) k' = (if k' = k then Some v else map_of xs k')"
  by (induction k v xs rule: al_put.induct) auto

lemma map_of_al_delete: "map_of (al_delete k xs) k' = (if k' = k then None else map_of xs k')"
  by (induction xs) (auto simp: al_delete_def)

lemma keys_al_put: "fst ` set (al_put k v xs) = insert k (fst ` set xs)"
  by (induction k v xs rule: al_put.induct) auto

lemma al_put_entries: "set (al_put k v xs) \<subseteq> insert (k, v) (set xs)"
  by (induction k v xs rule: al_put.induct) auto

lemma distinct_al_put: "distinct (map fst xs) \<Longrightarrow> distinct (map fst (al_put k v xs))"
  by (induction k v xs rule: al_put.induct)
    (auto simp: keys_al_put [unfolded image_set] simp flip: image_set, (metis fst_conv image_eqI keys_al_put insertE)+)

lemma distinct_al_delete: "distinct (map fst xs) \<Longrightarrow> distinct (map fst (al_delete k xs))"
  by (induction xs) (auto simp: al_delete_def)

declare al_delete_def [js_eval]

text \<open>
  The dictionary contract the components rely on: what a lookup returns after a store and
  after a removal, and that keys stay distinct.
\<close>

locale dictionary =
  fixes get :: "'d \<Rightarrow> 'k \<Rightarrow> 'v option"
    and put :: "'k \<Rightarrow> 'v \<Rightarrow> 'd \<Rightarrow> 'd"
    and del :: "'k \<Rightarrow> 'd \<Rightarrow> 'd"
    and empty :: 'd
    and wf :: "'d \<Rightarrow> bool"
  assumes get_empty: "get empty k = None"
    and get_put: "get (put k v d) k' = (if k' = k then Some v else get d k')"
    and get_del: "get (del k d) k' = (if k' = k then None else get d k')"
    and wf_empty: "wf empty"
    and wf_put: "wf d \<Longrightarrow> wf (put k v d)"
    and wf_del: "wf d \<Longrightarrow> wf (del k d)"
begin

lemma get_put_same: "get (put k v d) k = Some v"
  by (simp add: get_put)

lemma get_del_same: "get (del k d) k = None"
  by (simp add: get_del)

lemma get_foldr_put:
  "get (foldr (\<lambda>k d. put k (f k) d) ks d) k = (if k \<in> set ks then Some (f k) else get d k)"
  by (induction ks) (auto simp: get_put)

lemma get_fold_del:
  "get (fold del ks d) k = (if k \<in> set ks then None else get d k)"
  by (induction ks arbitrary: d) (auto simp: get_del)

lemma wf_fold_del: "wf d \<Longrightarrow> wf (fold del ks d)"
  by (induction ks arbitrary: d) (auto simp: wf_del)

end

interpretation al: dictionary map_of al_put al_delete "[]" "\<lambda>d. distinct (map fst d)"
  by unfold_locales
    (auto simp: map_of_al_put map_of_al_delete distinct_al_put distinct_al_delete)

text \<open>
  The contract of a component that is driven by events: every step of its relation keeps the
  invariant. The stateful components of the console instantiate it with their own step relations.
\<close>

locale invariant_system =
  fixes step :: "'s \<Rightarrow> 's \<Rightarrow> bool"
    and inv :: "'s \<Rightarrow> bool"
  assumes inv_step: "step s s' \<Longrightarrow> inv s \<Longrightarrow> inv s'"
begin

lemma inv_steps: "step\<^sup>*\<^sup>* s s' \<Longrightarrow> inv s \<Longrightarrow> inv s'"
  by (induction rule: rtranclp_induct) (auto intro: inv_step)

lemma inv_between: "step\<^sup>*\<^sup>* s s' \<Longrightarrow> step\<^sup>*\<^sup>* s' s'' \<Longrightarrow> inv s \<Longrightarrow> inv s' \<and> inv s''"
  using inv_steps by blast

end

end
