(* ===== verification/StatusCodeRules.thy ===== *)
theory StatusCodeRules
  imports JsPrelude
begin

text \<open>
  Component: \<open>web/default/src/lib/http-status-code-rules.ts\<close>, the rule language for HTTP
  status codes (\<open>401,429,500-599\<close>). Codes are natural numbers: the source only ever builds
  them with \<open>parseInt\<close> from strings of digits, and a value too long for a double fails the
  range check in both. The input is \<open>None\<close> for \<open>null\<close> and \<open>undefined\<close>.
\<close>

section \<open>Data\<close>

record StatusCodeRange =
  sc_start :: nat
  sc_end :: nat

record ParsedHttpStatusCodeRules =
  ok :: bool
  ranges :: "StatusCodeRange list"
  tokens :: "jsstr list"
  normalized :: jsstr
  invalidTokens :: "jsstr list"

section \<open>Operations\<close>

definition isValidCode :: "nat \<Rightarrow> bool" where
  "isValidCode code \<longleftrightarrow> 100 \<le> code \<and> code \<le> 599"

text \<open>
  \<open>const [a, b] = cleaned.split('-')\<close> reads the first two parts and ignores the others.
\<close>

definition parseToken :: "jsstr \<Rightarrow> StatusCodeRange option" where
  "parseToken token =
     (let cleaned = filter (\<lambda>c. \<not> is_ws c) (trim token)
      in if cleaned = [] then None
         else if 45 \<in> set cleaned then
           (case split_char 45 cleaned of
              a # b # _ \<Rightarrow>
                if \<not> is_number a \<or> \<not> is_number b then None
                else let start = digits_val a; stop = digits_val b
                     in if \<not> isValidCode start \<or> \<not> isValidCode stop \<or> stop < start then None
                        else Some \<lparr>sc_start = start, sc_end = stop\<rparr>
            | _ \<Rightarrow> None)
         else if \<not> is_number cleaned then None
         else let code = digits_val cleaned
              in if \<not> isValidCode code then None
                 else Some \<lparr>sc_start = code, sc_end = code\<rparr>)"

text \<open>The callback of \<open>reduce\<close>: it pushes a copy, or widens the last element of its own list.\<close>

definition mergeStep :: "StatusCodeRange list \<Rightarrow> StatusCodeRange \<Rightarrow> StatusCodeRange list" where
  "mergeStep merged current =
     (if merged = [] \<or> sc_end (last merged) + 1 < sc_start current then merged @ [current]
      else butlast merged @
        [(last merged)\<lparr>sc_end := max (sc_end (last merged)) (sc_end current)\<rparr>])"

definition mergeRanges :: "StatusCodeRange list \<Rightarrow> StatusCodeRange list" where
  "mergeRanges rs =
     (if rs = [] then []
      else foldl mergeStep [] (sort_key (\<lambda>r. (sc_start r, sc_end r)) rs))"

fun classifySegments ::
  "StatusCodeRange list \<Rightarrow> jsstr list \<Rightarrow> jsstr list \<Rightarrow> StatusCodeRange list \<times> jsstr list" where
  "classifySegments rs bad [] = (rs, bad)"
| "classifySegments rs bad (segment # segments) =
     (case parseToken segment of
        None \<Rightarrow> classifySegments rs (bad @ [segment]) segments
      | Some parsed \<Rightarrow> classifySegments (rs @ [parsed]) bad segments)"

definition rangeToken :: "StatusCodeRange \<Rightarrow> jsstr" where
  "rangeToken r =
     (if sc_start r = sc_end r then nat_str (sc_start r)
      else nat_str (sc_start r) @ [45] @ nat_str (sc_end r))"

text \<open>65292 is the full-width comma.\<close>

definition ruleSegments :: "jsstr \<Rightarrow> jsstr list" where
  "ruleSegments raw =
     filter (\<lambda>s. s \<noteq> [])
       (map trim (split_char 44 (map (\<lambda>c. if c = 65292 then 44 else c) raw)))"

definition parseHttpStatusCodeRules :: "jsstr option \<Rightarrow> ParsedHttpStatusCodeRules" where
  "parseHttpStatusCodeRules input =
     (let raw = trim (case input of None \<Rightarrow> [] | Some s \<Rightarrow> s)
      in if raw = [] then
           \<lparr>ok = True, ranges = [], tokens = [], normalized = [], invalidTokens = []\<rparr>
         else
           (case classifySegments [] [] (ruleSegments raw) of
              (rs, bad) \<Rightarrow>
                if bad \<noteq> [] then
                  \<lparr>ok = False, ranges = [], tokens = [], normalized = raw, invalidTokens = bad\<rparr>
                else
                  let merged = mergeRanges rs; toks = map rangeToken merged
                  in \<lparr>ok = True, ranges = merged, tokens = toks,
                      normalized = join [44] toks, invalidTokens = []\<rparr>))"

section \<open>What a list of ranges means\<close>

definition covers :: "StatusCodeRange list \<Rightarrow> nat \<Rightarrow> bool" where
  "covers rs code \<longleftrightarrow> (\<exists>r \<in> set rs. sc_start r \<le> code \<and> code \<le> sc_end r)"

definition valid_range :: "StatusCodeRange \<Rightarrow> bool" where
  "valid_range r \<longleftrightarrow> 100 \<le> sc_start r \<and> sc_start r \<le> sc_end r \<and> sc_end r \<le> 599"

text \<open>Ascending, disjoint and not even adjacent: the canonical form.\<close>

definition separated :: "StatusCodeRange list \<Rightarrow> bool" where
  "separated rs \<longleftrightarrow> sorted_wrt (\<lambda>a b. sc_end a + 1 < sc_start b) rs
     \<and> (\<forall>r \<in> set rs. sc_start r \<le> sc_end r)"

lemma covers_simps [simp]:
  "covers [] code = False"
  "covers (r # rs) code \<longleftrightarrow> (sc_start r \<le> code \<and> code \<le> sc_end r) \<or> covers rs code"
  "covers (rs @ rs') code \<longleftrightarrow> covers rs code \<or> covers rs' code"
  by (auto simp: covers_def)

section \<open>Lemmas\<close>

lemma parseToken_valid: "parseToken t = Some r \<Longrightarrow> valid_range r"
  by (auto simp: parseToken_def Let_def valid_range_def isValidCode_def
      split: if_splits list.splits)

lemma classifySegments_eq:
  "classifySegments rs bad segs =
     (rs @ List.map_filter parseToken segs, bad @ filter (\<lambda>s. parseToken s = None) segs)"
  by (induction segs arbitrary: rs bad) (auto simp: List.map_filter_def split: option.splits)

lemma separated_snoc:
  "separated (rs @ [r]) \<longleftrightarrow> separated rs \<and> sc_start r \<le> sc_end r
     \<and> (\<forall>a \<in> set rs. sc_end a + 1 < sc_start r)"
  by (auto simp: separated_def sorted_wrt_append)

text \<open>
  One merge step from a canonical prefix: the invariant of the loop is that the accumulator is
  canonical and the next range starts no earlier than the accumulator's last one.
\<close>

lemma mergeStep_separated:
  assumes "separated m" and "sc_start c \<le> sc_end c"
    and "m \<noteq> [] \<Longrightarrow> sc_start (last m) \<le> sc_start c"
  shows "separated (mergeStep m c)"
proof (cases m rule: rev_cases)
  case Nil
  then show ?thesis using assms by (simp add: mergeStep_def separated_def)
next
  case (snoc ms l)
  have l: "separated ms" "sc_start l \<le> sc_end l" "\<forall>a \<in> set ms. sc_end a + 1 < sc_start l"
    using assms(1) by (simp_all add: snoc separated_snoc)
  show ?thesis
  proof (cases "sc_end l + 1 < sc_start c")
    case True
    have "\<forall>a \<in> set m. sc_end a + 1 < sc_start c"
    proof
      fix a assume "a \<in> set m"
      then have "a = l \<or> sc_end a + 1 < sc_start l" using l(3) snoc by auto
      then show "sc_end a + 1 < sc_start c" using True l(2) by auto
    qed
    moreover have "mergeStep m c = m @ [c]" using True by (simp add: mergeStep_def snoc)
    ultimately show ?thesis using assms(1,2) by (simp add: separated_snoc)
  next
    case False
    then show ?thesis
      using assms l by (simp add: mergeStep_def snoc separated_snoc le_max_iff_disj)
  qed
qed

lemma mergeStep_covers:
  assumes "sc_start c \<le> sc_end c" and "m \<noteq> [] \<Longrightarrow> sc_start (last m) \<le> sc_start c"
  shows "covers (mergeStep m c) code \<longleftrightarrow> covers (m @ [c]) code"
proof (cases m rule: rev_cases)
  case (snoc ms l)
  with assms show ?thesis by (auto simp: mergeStep_def)
qed (simp add: mergeStep_def)

lemma mergeStep_last_start:
  "sc_start (last (mergeStep m c)) \<le> max (sc_start c) (if m = [] then 0 else sc_start (last m))
   \<and> mergeStep m c \<noteq> []"
  by (auto simp: mergeStep_def)

lemma mergeStep_bounds:
  "\<forall>r \<in> set m. valid_range r \<Longrightarrow> valid_range c \<Longrightarrow>
    \<forall>r \<in> set (mergeStep m c). valid_range r"
  by (cases m rule: rev_cases) (auto simp: mergeStep_def valid_range_def)

lemma foldl_mergeStep:
  assumes "separated m"
    and "sorted (map sc_start cs)" and "\<forall>c \<in> set cs. sc_start c \<le> sc_end c"
    and "m \<noteq> [] \<Longrightarrow> \<forall>c \<in> set cs. sc_start (last m) \<le> sc_start c"
  shows "separated (foldl mergeStep m cs)
    \<and> (\<forall>code. covers (foldl mergeStep m cs) code \<longleftrightarrow> covers (m @ cs) code)"
  using assms
proof (induction cs arbitrary: m)
  case (Cons c cs)
  let ?m = "mergeStep m c"
  have c: "sc_start c \<le> sc_end c" "m \<noteq> [] \<Longrightarrow> sc_start (last m) \<le> sc_start c"
    using Cons.prems(3,4) by auto
  have m: "separated ?m" "\<And>code. covers ?m code \<longleftrightarrow> covers (m @ [c]) code"
    by (rule mergeStep_separated [OF Cons.prems(1) c], simp)
      (rule mergeStep_covers [OF c], simp)
  have "sc_start (last ?m) \<le> sc_start c"
    using mergeStep_last_start [of m c] Cons.prems(4) by (auto split: if_splits)
  then have "\<forall>d \<in> set cs. sc_start (last ?m) \<le> sc_start d"
    using Cons.prems(2) by fastforce
  then have "separated (foldl mergeStep ?m cs)
    \<and> (\<forall>code. covers (foldl mergeStep ?m cs) code \<longleftrightarrow> covers (?m @ cs) code)"
    using Cons.prems m(1) by (intro Cons.IH) auto
  then show ?case by (auto simp: m(2))
qed simp

lemma sorted_starts:
  "sorted (map (\<lambda>r. (sc_start r, sc_end r)) rs) \<Longrightarrow> sorted (map sc_start rs)"
  by (induction rs) (auto simp: less_eq_prod_def)

lemma mergeRanges_separated_covers:
  assumes "\<forall>r \<in> set rs. sc_start r \<le> sc_end r"
  shows "separated (mergeRanges rs) \<and> (\<forall>code. covers (mergeRanges rs) code \<longleftrightarrow> covers rs code)"
proof (cases "rs = []")
  case True
  then show ?thesis by (simp add: mergeRanges_def separated_def)
next
  case False
  let ?s = "sort_key (\<lambda>r. (sc_start r, sc_end r)) rs"
  have "separated (foldl mergeStep [] ?s)
    \<and> (\<forall>code. covers (foldl mergeStep [] ?s) code \<longleftrightarrow> covers ([] @ ?s) code)"
    using assms by (intro foldl_mergeStep) (auto simp: separated_def intro!: sorted_starts)
  then show ?thesis using False by (simp add: mergeRanges_def covers_def)
qed

lemma foldl_mergeStep_valid:
  "\<forall>r \<in> set m. valid_range r \<Longrightarrow> \<forall>c \<in> set cs. valid_range c \<Longrightarrow>
    \<forall>r \<in> set (foldl mergeStep m cs). valid_range r"
proof (induction cs arbitrary: m)
  case (Cons c cs)
  have "\<forall>r \<in> set (mergeStep m c). valid_range r"
    by (rule mergeStep_bounds [OF Cons.prems(1)]) (use Cons.prems(2) in simp)
  then show ?case using Cons.IH Cons.prems(2) by simp
qed simp

lemma mergeRanges_valid:
  "\<forall>r \<in> set rs. valid_range r \<Longrightarrow> \<forall>r \<in> set (mergeRanges rs). valid_range r"
  using foldl_mergeStep_valid [of "[]" "sort_key (\<lambda>r. (sc_start r, sc_end r)) rs"]
  by (auto simp: mergeRanges_def)

text \<open>A canonical list is a fixed point of the merge.\<close>

lemma foldl_mergeStep_separated:
  "separated (m @ cs) \<Longrightarrow> foldl mergeStep m cs = m @ cs"
proof (induction cs arbitrary: m)
  case (Cons c cs)
  have "m \<noteq> [] \<Longrightarrow> sc_end (last m) + 1 < sc_start c"
    using Cons.prems by (auto simp: separated_def sorted_wrt_append)
  then have "mergeStep m c = m @ [c]" by (auto simp: mergeStep_def)
  then show ?case using Cons.IH [of "m @ [c]"] Cons.prems by simp
qed simp

lemma separated_sorted:
  "separated rs \<Longrightarrow> sorted (map (\<lambda>r. (sc_start r, sc_end r)) rs)"
proof (induction rs)
  case (Cons r rs)
  then have "\<forall>b \<in> set rs. sc_start r < sc_start b" by (auto simp: separated_def)
  moreover have "separated rs" using Cons.prems by (simp add: separated_def)
  ultimately show ?case using Cons.IH by (auto simp: less_eq_prod_def)
qed simp

lemma mergeRanges_fixed: "separated rs \<Longrightarrow> mergeRanges rs = rs"
  using foldl_mergeStep_separated [of "[]" rs] separated_sorted [of rs]
  by (simp add: mergeRanges_def sort_key_id_if_sorted)

text \<open>A canonical list is determined by the codes it covers.\<close>

lemma separated_Cons:
  "separated (r # rs) \<longleftrightarrow> separated rs \<and> sc_start r \<le> sc_end r
     \<and> (\<forall>b \<in> set rs. sc_end r + 1 < sc_start b)"
  by (auto simp: separated_def)

lemma separated_Cons_covers:
  assumes "separated (r # rs)"
  shows "\<forall>code. covers (r # rs) code \<longrightarrow> sc_start r \<le> code"
    and "\<not> covers (r # rs) (Suc (sc_end r))"
    and "covers rs code \<longleftrightarrow> covers (r # rs) code \<and> sc_end r < code"
  using assms by (fastforce simp: separated_Cons covers_def)+

lemma separated_unique:
  assumes "separated rs" and "separated rs'" and "\<And>code. covers rs code \<longleftrightarrow> covers rs' code"
  shows "rs = rs'"
  using assms
proof (induction rs arbitrary: rs')
  case Nil
  show ?case
  proof (cases rs')
    case (Cons r' rs2)
    with Nil(2) have "covers rs' (sc_start r')" by (simp add: separated_Cons)
    with Nil(3) show ?thesis by simp
  qed simp
next
  case (Cons r rs)
  have "covers (r # rs) (sc_start r)" using Cons.prems(1) by (simp add: separated_Cons)
  then have "rs' \<noteq> []" using Cons.prems(3) by auto
  then obtain r' rs2 where rs': "rs' = r' # rs2" by (cases rs') auto
  note l = separated_Cons_covers [OF Cons.prems(1)]
  note l' = separated_Cons_covers [OF Cons.prems(2) [unfolded rs']]
  have st: "sc_start r \<le> sc_end r" "sc_start r' \<le> sc_end r'"
    using Cons.prems(1,2) by (simp_all add: rs' separated_Cons)
  have start: "sc_start r = sc_start r'"
    using l(1) l'(1) st Cons.prems(3) [unfolded rs'] by (auto intro!: antisym)
  have iv: "\<And>k. sc_start r \<le> k \<Longrightarrow> k \<le> sc_end r \<Longrightarrow> covers rs' k"
    "\<And>k. sc_start r' \<le> k \<Longrightarrow> k \<le> sc_end r' \<Longrightarrow> covers (r # rs) k"
    using Cons.prems(3) rs' by auto
  have "sc_end r = sc_end r'"
  proof (rule antisym; rule ccontr)
    assume "\<not> sc_end r \<le> sc_end r'"
    then show False using iv(1) [of "Suc (sc_end r')"] l'(2) start st rs' by simp
  next
    assume "\<not> sc_end r' \<le> sc_end r"
    then show False using iv(2) [of "Suc (sc_end r)"] l(2) start st by simp
  qed
  moreover have "rs = rs2"
  proof (rule Cons.IH)
    show "separated rs" "separated rs2"
      using Cons.prems(1,2) by (simp_all add: rs' separated_Cons)
    show "covers rs code \<longleftrightarrow> covers rs2 code" for code
      using l(3) l'(3) Cons.prems(3) rs' \<open>sc_end r = sc_end r'\<close> by metis
  qed
  ultimately show ?case using start rs' by simp
qed

text \<open>Printing a range and reading it back.\<close>

lemma digit_not_dash: "c \<in> set (nat_str n) \<Longrightarrow> c \<noteq> 45 \<and> c \<noteq> 44 \<and> c \<noteq> 65292 \<and> \<not> is_ws c"
  using nat_str_no_ws [of c n] by (auto simp: is_digit_def)

lemma rangeToken_chars:
  "c \<in> set (rangeToken r) \<Longrightarrow> c \<noteq> 44 \<and> c \<noteq> 65292 \<and> \<not> is_ws c"
  using digit_not_dash by (auto simp: rangeToken_def printable_not_ws split: if_splits)

lemma rangeToken_not_Nil [simp]: "rangeToken r \<noteq> []"
  using nat_str_digits by (auto simp: rangeToken_def)

lemma trim_rangeToken [simp]: "trim (rangeToken r) = rangeToken r"
  by (rule trim_id) (simp add: rangeToken_chars)

lemma filter_rangeToken: "filter (\<lambda>c. \<not> is_ws c) (rangeToken r) = rangeToken r"
  by (simp add: rangeToken_chars)

lemma no_dash_nat_str [simp]: "45 \<notin> set (nat_str n)"
  using digit_not_dash by blast

lemma nat_str_not_Nil [simp]: "nat_str n \<noteq> []"
  using nat_str_digits by blast

lemma parseToken_single:
  "isValidCode n \<Longrightarrow> parseToken (nat_str n) = Some \<lparr>sc_start = n, sc_end = n\<rparr>"
  using nat_str_no_ws by (simp add: parseToken_def Let_def)

lemma parseToken_span:
  assumes "isValidCode a" and "isValidCode b" and "a \<le> b"
  shows "parseToken (nat_str a @ 45 # nat_str b) = Some \<lparr>sc_start = a, sc_end = b\<rparr>"
proof -
  let ?t = "nat_str a @ 45 # nat_str b"
  have ws: "\<forall>c \<in> set ?t. \<not> is_ws c"
    using nat_str_no_ws by (auto simp: printable_not_ws)
  have "filter (\<lambda>c. \<not> is_ws c) (trim ?t) = ?t"
    unfolding trim_id [OF ws] using ws by simp
  moreover have "split_char 45 ?t = [nat_str a, nat_str b]"
    by (simp add: split_char_append split_char_free)
  ultimately show ?thesis using assms by (simp add: parseToken_def Let_def)
qed

lemma parseToken_rangeToken: "valid_range r \<Longrightarrow> parseToken (rangeToken r) = Some r"
  by (auto simp: rangeToken_def valid_range_def isValidCode_def
      parseToken_single parseToken_span)

lemma map_id_no_wide: "65292 \<notin> set s \<Longrightarrow> map (\<lambda>c. if c = 65292 then 44 else c) s = s"
  by (induction s) auto

lemma join_tokens_chars:
  "c \<in> set (join [44] (map rangeToken rs)) \<Longrightarrow> c \<noteq> 65292 \<and> \<not> is_ws c"
  using set_join [of "[44]" "map rangeToken rs"] rangeToken_chars
  by (fastforce simp: printable_not_ws)

lemma ruleSegments_join:
  assumes "rs \<noteq> []"
  shows "ruleSegments (join [44] (map rangeToken rs)) = map rangeToken rs"
proof -
  have "split_char 44 (join [44] (map rangeToken rs)) = map rangeToken rs"
    using assms rangeToken_chars by (intro split_join) auto
  moreover have "65292 \<notin> set (join [44] (map rangeToken rs))"
    using join_tokens_chars by blast
  ultimately show ?thesis
    by (simp add: ruleSegments_def map_id_no_wide comp_def)
qed

lemma join_tokens_not_Nil: "rs \<noteq> [] \<Longrightarrow> join [44] (map rangeToken rs) \<noteq> []"
  by (cases rs; cases "tl rs") auto

lemma map_filter_rangeToken:
  "\<forall>r \<in> set rs. valid_range r \<Longrightarrow>
     List.map_filter parseToken (map rangeToken rs) = rs
     \<and> filter (\<lambda>s. parseToken s = None) (map rangeToken rs) = []"
  by (induction rs) (auto simp: List.map_filter_def parseToken_rangeToken)

lemma parse_canonical:
  assumes "separated rs" and "\<forall>r \<in> set rs. valid_range r"
  shows "parseHttpStatusCodeRules (Some (join [44] (map rangeToken rs))) =
    \<lparr>ok = True, ranges = rs, tokens = map rangeToken rs,
     normalized = join [44] (map rangeToken rs), invalidTokens = []\<rparr>"
proof (cases "rs = []")
  case True
  then show ?thesis by (simp add: parseHttpStatusCodeRules_def)
next
  case False
  have "trim (join [44] (map rangeToken rs)) = join [44] (map rangeToken rs)"
    using join_tokens_chars by (intro trim_id) blast
  then show ?thesis
    using False assms join_tokens_not_Nil [OF False] map_filter_rangeToken [OF assms(2)]
    by (simp add: parseHttpStatusCodeRules_def Let_def ruleSegments_join classifySegments_eq
        mergeRanges_fixed)
qed

lemma map_filter_set: "r \<in> set (List.map_filter f xs) \<longleftrightarrow> (\<exists>x \<in> set xs. f x = Some r)"
  by (force simp: List.map_filter_def)

lemma parse_ok_form:
  assumes "ok (parseHttpStatusCodeRules input)"
  defines "rs \<equiv> ranges (parseHttpStatusCodeRules input)"
  shows "separated rs" and "\<forall>r \<in> set rs. valid_range r"
    and "normalized (parseHttpStatusCodeRules input) = join [44] (map rangeToken rs)"
    and "tokens (parseHttpStatusCodeRules input) = map rangeToken rs"
    and "invalidTokens (parseHttpStatusCodeRules input) = []"
proof -
  let ?segs = "ruleSegments (trim (case input of None \<Rightarrow> [] | Some s \<Rightarrow> s))"
  let ?ps = "List.map_filter parseToken ?segs"
  have v: "\<forall>r \<in> set ?ps. valid_range r"
    using parseToken_valid by (auto simp: map_filter_set)
  then have "\<forall>r \<in> set ?ps. sc_start r \<le> sc_end r" by (simp add: valid_range_def)
  then have "separated (mergeRanges ?ps)" by (simp add: mergeRanges_separated_covers)
  moreover have "\<forall>r \<in> set (mergeRanges ?ps). valid_range r" using v by (rule mergeRanges_valid)
  moreover have "parseHttpStatusCodeRules input = \<lparr>ok = True, ranges = [], tokens = [],
       normalized = [], invalidTokens = []\<rparr>
     \<or> parseHttpStatusCodeRules input = \<lparr>ok = True, ranges = mergeRanges ?ps,
       tokens = map rangeToken (mergeRanges ?ps),
       normalized = join [44] (map rangeToken (mergeRanges ?ps)), invalidTokens = []\<rparr>"
    using assms(1)
    by (simp add: parseHttpStatusCodeRules_def Let_def classifySegments_eq split: if_splits)
  ultimately show "separated rs" "\<forall>r \<in> set rs. valid_range r"
    "normalized (parseHttpStatusCodeRules input) = join [44] (map rangeToken rs)"
    "tokens (parseHttpStatusCodeRules input) = map rangeToken rs"
    "invalidTokens (parseHttpStatusCodeRules input) = []"
    unfolding rs_def by (elim disjE; simp add: separated_def)+
qed

lemma parse_ok_covers:
  assumes "ok (parseHttpStatusCodeRules input)"
  shows "covers (ranges (parseHttpStatusCodeRules input)) code \<longleftrightarrow>
    (\<exists>seg \<in> set (ruleSegments (trim (case input of None \<Rightarrow> [] | Some s \<Rightarrow> s))).
       \<exists>r. parseToken seg = Some r \<and> sc_start r \<le> code \<and> code \<le> sc_end r)"
proof -
  let ?raw = "trim (case input of None \<Rightarrow> [] | Some s \<Rightarrow> s)"
  let ?ps = "List.map_filter parseToken (ruleSegments ?raw)"
  have "\<forall>r \<in> set ?ps. sc_start r \<le> sc_end r"
    using parseToken_valid by (auto simp: map_filter_set valid_range_def)
  then have "covers (mergeRanges ?ps) code \<longleftrightarrow> covers ?ps code"
    using mergeRanges_separated_covers by blast
  moreover have "ranges (parseHttpStatusCodeRules input) = mergeRanges ?ps"
    using assms
    by (auto simp: parseHttpStatusCodeRules_def Let_def classifySegments_eq ruleSegments_def
        List.map_filter_def mergeRanges_def split: if_splits)
  moreover have "covers ?ps code \<longleftrightarrow> (\<exists>seg \<in> set (ruleSegments ?raw).
      \<exists>r. parseToken seg = Some r \<and> sc_start r \<le> code \<and> code \<le> sc_end r)"
    unfolding covers_def Bex_def map_filter_set by blast
  ultimately show ?thesis by simp
qed

section \<open>Properties\<close>

text \<open>
  C4. Accepted rules mean exactly what their segments say: a code is covered by the merged
  ranges if and only if some segment of the input parses to a range that contains it.
\<close>

theorem status_rules_exact:
  assumes "ok (parseHttpStatusCodeRules input)"
  shows "covers (ranges (parseHttpStatusCodeRules input)) code \<longleftrightarrow>
    (\<exists>seg \<in> set (ruleSegments (trim (case input of None \<Rightarrow> [] | Some s \<Rightarrow> s))).
       \<exists>r. parseToken seg = Some r \<and> sc_start r \<le> code \<and> code \<le> sc_end r)"
  using assms by (rule parse_ok_covers)

theorem status_rules_exact_witness:
  "ok (parseHttpStatusCodeRules (Some (js ''500-502, 501-510''))) \<and>
   covers (ranges (parseHttpStatusCodeRules (Some (js ''500-502, 501-510'')))) 505"
proof -
  have h: "ok (parseHttpStatusCodeRules (Some (js ''500-502, 501-510'')))" by code_simp
  have "\<exists>seg \<in> set (ruleSegments (trim (js ''500-502, 501-510''))).
      \<exists>r. parseToken seg = Some r \<and> sc_start r \<le> 505 \<and> 505 \<le> sc_end r"
    by (rule bexI [of _ "js ''501-510''"], rule exI [of _ "\<lparr>sc_start = 501, sc_end = 510\<rparr>"])
      code_simp+
  with h status_rules_exact [OF h, of 505] show ?thesis by simp
qed

text \<open>
  C30. Two inputs that are both accepted and cover the same codes are normalised to the same
  string, so the normal form is canonical.
\<close>

theorem status_rules_canonical:
  assumes "ok (parseHttpStatusCodeRules a)" and "ok (parseHttpStatusCodeRules b)"
    and "\<forall>code. covers (ranges (parseHttpStatusCodeRules a)) code
           \<longleftrightarrow> covers (ranges (parseHttpStatusCodeRules b)) code"
  shows "normalized (parseHttpStatusCodeRules a) = normalized (parseHttpStatusCodeRules b)"
  using assms separated_unique parse_ok_form(1,3) by metis

theorem status_rules_canonical_witness:
  "normalized (parseHttpStatusCodeRules (Some (js ''500,501''))) =
   normalized (parseHttpStatusCodeRules (Some (js ''500-501'')))"
proof (rule status_rules_canonical)
  have "ranges (parseHttpStatusCodeRules (Some (js ''500,501''))) =
        ranges (parseHttpStatusCodeRules (Some (js ''500-501'')))" by code_simp
  then show "\<forall>code. covers (ranges (parseHttpStatusCodeRules (Some (js ''500,501'')))) code
    \<longleftrightarrow> covers (ranges (parseHttpStatusCodeRules (Some (js ''500-501'')))) code" by simp
qed code_simp+

text \<open>
  Round trip: parsing the normalised text of an accepted input gives back the very same
  result, ranges, tokens and normalised text included.
\<close>

theorem status_rules_roundtrip:
  assumes "ok (parseHttpStatusCodeRules input)"
  shows "parseHttpStatusCodeRules (Some (normalized (parseHttpStatusCodeRules input))) =
         parseHttpStatusCodeRules input"
  using parse_canonical [OF parse_ok_form(1,2) [OF assms]] parse_ok_form(3,4,5) [OF assms] assms
  by (intro ParsedHttpStatusCodeRules.equality) simp_all

theorem status_rules_roundtrip_witness:
  "parseHttpStatusCodeRules (Some (js ''401,500-599'')) =
   parseHttpStatusCodeRules (Some (js '' 550-599 ,401, 500 - 560''))"
proof -
  have h: "ok (parseHttpStatusCodeRules (Some (js '' 550-599 ,401, 500 - 560'')))" by code_simp
  have "normalized (parseHttpStatusCodeRules (Some (js '' 550-599 ,401, 500 - 560''))) =
    js ''401,500-599''" by code_simp
  with status_rules_roundtrip [OF h] show ?thesis by simp
qed

text \<open>
  The ranges returned are always canonical (ascending, disjoint, not adjacent) and within
  100 to 599; an input with a segment that does not parse is rejected with exactly the
  offending segments, in order, and no ranges.
\<close>

theorem status_rules_wellformed:
  "separated (ranges (parseHttpStatusCodeRules input))
   \<and> list_all valid_range (ranges (parseHttpStatusCodeRules input))
   \<and> invalidTokens (parseHttpStatusCodeRules input) =
       filter (\<lambda>s. parseToken s = None)
         (ruleSegments (trim (case input of None \<Rightarrow> [] | Some s \<Rightarrow> s)))
   \<and> ok (parseHttpStatusCodeRules input) = (invalidTokens (parseHttpStatusCodeRules input) = [])"
proof (cases "ok (parseHttpStatusCodeRules input)")
  case True
  have "filter (\<lambda>s. parseToken s = None)
      (ruleSegments (trim (case input of None \<Rightarrow> [] | Some s \<Rightarrow> s))) = []"
    using True
    by (simp add: parseHttpStatusCodeRules_def Let_def classifySegments_eq ruleSegments_def
        split: if_splits)
  with True parse_ok_form(1,2,5) [OF True] show ?thesis by (simp add: list_all_iff)
next
  case False
  then show ?thesis
    by (simp add: parseHttpStatusCodeRules_def Let_def classifySegments_eq separated_def
        split: if_splits)
qed

text \<open>Only the first two parts between dashes are looked at, so a malformed range is accepted.\<close>

lemma third_part_ignored: "parseToken (js ''400-410-xyz'') = Some \<lparr>sc_start = 400, sc_end = 410\<rparr>"
  by code_simp

end
