(* ===== verification/JsJson.thy ===== *)
theory JsJson
  imports JsPrelude Complex_Main
begin

text \<open>
  \<open>JSON.parse\<close> and \<open>JSON.stringify\<close>, which the components use to read and write settings and
  \<open>localStorage\<close>. A number is the exact rational its text denotes; the source never computes
  with the ones that come out of JSON texts, so the rounding of doubles is left out. An object
  is the list of its own properties in property order: array indices first, ascending, then the
  other keys in the order of their creation, as \<open>Object.keys\<close> and \<open>Object.entries\<close> list them.
\<close>

datatype json =
    JNull
  | JBool bool
  | JNum rat
  | JStr jsstr
  | JArr "json list"
  | JObj "(jsstr \<times> json) list"

text \<open>\<open>Number.isInteger\<close>\<close>

definition is_integer :: "rat \<Rightarrow> bool" where
  "is_integer r \<longleftrightarrow> of_int \<lfloor>r\<rfloor> = r"

section \<open>Property order\<close>

text \<open>Array indices are the canonical decimal numerals below \<open>2 ^ 32 - 1\<close>.\<close>

definition array_index :: "jsstr \<Rightarrow> nat option" where
  "array_index k =
     (if is_number k \<and> length k \<le> 10 \<and> nat_str (digits_val k) = k
         \<and> digits_val k < 4294967295
      then Some (digits_val k) else None)"

fun insert_index :: "nat \<Rightarrow> jsstr \<Rightarrow> 'v \<Rightarrow> (jsstr \<times> 'v) list \<Rightarrow> (jsstr \<times> 'v) list" where
  "insert_index i k v [] = [(k, v)]"
| "insert_index i k v ((k', v') # ps) =
     (case array_index k' of
        Some j \<Rightarrow> if j < i then (k', v') # insert_index i k v ps else (k, v) # (k', v') # ps
      | None \<Rightarrow> (k, v) # (k', v') # ps)"

definition obj_set :: "jsstr \<Rightarrow> 'v \<Rightarrow> (jsstr \<times> 'v) list \<Rightarrow> (jsstr \<times> 'v) list" where
  "obj_set k v ps =
     (case array_index k of
        Some i \<Rightarrow> if k \<in> fst ` set ps then al_put k v ps else insert_index i k v ps
      | None \<Rightarrow> al_put k v ps)"

definition obj_of :: "(jsstr \<times> 'v) list \<Rightarrow> (jsstr \<times> 'v) list" where
  "obj_of ms = foldl (\<lambda>ps (k, v). obj_set k v ps) [] ms"

definition json_get :: "json \<Rightarrow> jsstr \<Rightarrow> json option" where
  "json_get j k = (case j of JObj ps \<Rightarrow> map_of ps k | _ \<Rightarrow> None)"

lemma map_of_insert_index:
  "k \<notin> fst ` set ps \<Longrightarrow> map_of (insert_index i k v ps) k' = (if k' = k then Some v else map_of ps k')"
  by (induction i k v ps rule: insert_index.induct) (auto split: option.splits)

lemma keys_insert_index: "fst ` set (insert_index i k v ps) = insert k (fst ` set ps)"
  by (induction i k v ps rule: insert_index.induct) (auto split: option.splits)

lemma distinct_insert_index:
  "k \<notin> fst ` set ps \<Longrightarrow> distinct (map fst ps) \<Longrightarrow> distinct (map fst (insert_index i k v ps))"
proof (induction i k v ps rule: insert_index.induct)
  case (2 i k v k' v' ps)
  then show ?case
    using keys_insert_index [of i k v ps] by (auto split: option.splits simp flip: set_map)
qed simp

lemma map_of_obj_set: "map_of (obj_set k v ps) k' = (if k' = k then Some v else map_of ps k')"
  by (simp add: obj_set_def map_of_al_put map_of_insert_index split: option.splits)

lemma distinct_obj_set: "distinct (map fst ps) \<Longrightarrow> distinct (map fst (obj_set k v ps))"
  by (simp add: obj_set_def distinct_al_put distinct_insert_index split: option.splits)

interpretation objd: dictionary map_of obj_set al_delete "[]" "\<lambda>d. distinct (map fst d)"
  by unfold_locales
    (auto simp: map_of_obj_set map_of_al_delete distinct_obj_set distinct_al_delete)

text \<open>A loop that stores \<open>g x\<close> under \<open>f x\<close>: the last store of a key wins.\<close>

lemma find_append:
  "List.find P (xs @ ys) = (case List.find P xs of None \<Rightarrow> List.find P ys | Some x \<Rightarrow> Some x)"
  by (induction xs) auto

lemma map_of_foldl_obj_set:
  "map_of (foldl (\<lambda>d x. obj_set (f x) (g x) d) d xs) k =
     (case List.find (\<lambda>x. f x = k) (rev xs) of Some x \<Rightarrow> Some (g x) | None \<Rightarrow> map_of d k)"
proof (induction xs arbitrary: d)
  case (Cons x xs)
  have "map_of (foldl (\<lambda>d x. obj_set (f x) (g x) d) d (x # xs)) k =
      map_of (foldl (\<lambda>d x. obj_set (f x) (g x) d) (obj_set (f x) (g x) d) xs) k" by simp
  also note Cons.IH
  finally show ?case by (auto simp: find_append objd.get_put split: option.split)
qed simp

lemma keys_obj_set: "fst ` set (obj_set k v d) = insert k (fst ` set d)"
  by (auto simp: obj_set_def keys_al_put keys_insert_index split: option.splits)

lemma keys_foldl_obj_set:
  "fst ` set (foldl (\<lambda>d x. obj_set (f x) (g x) d) d xs) = fst ` set d \<union> f ` set xs"
  by (induction xs arbitrary: d) (simp_all add: keys_obj_set)

lemma distinct_foldl_obj_set:
  "distinct (map fst d) \<Longrightarrow> distinct (map fst (foldl (\<lambda>d x. obj_set (f x) (g x) d) d xs))"
  by (induction xs arbitrary: d) (simp_all add: objd.wf_put)

text \<open>\<open>{...a, ...b}\<close> for two objects, and the own enumerable properties a spread copies.\<close>

definition obj_merge :: "(jsstr \<times> 'v) list \<Rightarrow> (jsstr \<times> 'v) list \<Rightarrow> (jsstr \<times> 'v) list" where
  "obj_merge a b = foldl (\<lambda>d x. obj_set (fst x) (snd x) d) a b"

fun index_entries :: "nat \<Rightarrow> json list \<Rightarrow> (jsstr \<times> json) list" where
  "index_entries i [] = []"
| "index_entries i (v # vs) = (nat_str i, v) # index_entries (Suc i) vs"

fun spread :: "json \<Rightarrow> (jsstr \<times> json) list" where
  "spread (JObj ps) = ps"
| "spread (JArr vs) = index_entries 0 vs"
| "spread (JStr s) = index_entries 0 (map (\<lambda>c. JStr [c]) s)"
| "spread _ = []"

lemma find_map_of:
  "List.find (\<lambda>x. fst x = k) b = map_option (Pair k) (map_of b k)"
  by (induction b) auto

lemma map_of_obj_merge:
  assumes "distinct (map fst b)"
  shows "map_of (obj_merge a b) k = (case map_of b k of Some v \<Rightarrow> Some v | None \<Rightarrow> map_of a k)"
proof -
  have "map_of (rev b) = map_of b"
    using assms by (metis distinct_rev map_of_inject_set rev_map set_rev)
  then show ?thesis
    by (simp add: obj_merge_def map_of_foldl_obj_set find_map_of split: option.split)
qed

lemma distinct_obj_merge: "distinct (map fst a) \<Longrightarrow> distinct (map fst (obj_merge a b))"
  by (simp add: obj_merge_def distinct_foldl_obj_set)

lemma obj_of_distinct: "distinct (map fst (obj_of ms))"
  using distinct_foldl_obj_set [of "[]" fst snd ms] by (simp add: obj_of_def case_prod_unfold)

lemma al_put_new: "k \<notin> fst ` set ps \<Longrightarrow> al_put k v ps = ps @ [(k, v)]"
  by (induction k v ps rule: al_put.induct) auto

lemma obj_of_plain:
  "distinct (map fst ps) \<Longrightarrow> \<forall>p \<in> set ps. array_index (fst p) = None \<Longrightarrow> obj_of ps = ps"
proof (induction ps rule: rev_induct)
  case (snoc p ps)
  then have "obj_of ps = ps" "fst p \<notin> fst ` set ps" "array_index (fst p) = None" by auto
  then show ?case by (cases p) (simp add: obj_of_def obj_set_def al_put_new)
qed (simp add: obj_of_def)

section \<open>JSON.stringify\<close>

definition hex_digit :: "nat \<Rightarrow> nat" where
  "hex_digit d = (if d < 10 then 48 + d else 87 + d)"

definition unicode_escape :: "nat \<Rightarrow> jsstr" where
  "unicode_escape c =
     [92, 117, hex_digit (c div 4096 mod 16), hex_digit (c div 256 mod 16),
      hex_digit (c div 16 mod 16), hex_digit (c mod 16)]"

definition is_high :: "nat \<Rightarrow> bool" where
  "is_high c \<longleftrightarrow> 55296 \<le> c \<and> c \<le> 56319"

definition is_low :: "nat \<Rightarrow> bool" where
  "is_low c \<longleftrightarrow> 56320 \<le> c \<and> c \<le> 57343"

text \<open>One code unit that is not part of a surrogate pair.\<close>

definition quote_unit :: "nat \<Rightarrow> jsstr" where
  "quote_unit c =
     (if c = 34 then [92, 34] else if c = 92 then [92, 92]
      else if c = 8 then [92, 98] else if c = 12 then [92, 102]
      else if c = 10 then [92, 110] else if c = 13 then [92, 114]
      else if c = 9 then [92, 116]
      else if c < 32 \<or> is_high c \<or> is_low c then unicode_escape c
      else [c])"

fun quote_units :: "jsstr \<Rightarrow> jsstr" where
  "quote_units [] = []"
| "quote_units [c] = quote_unit c"
| "quote_units (c # d # cs) =
     (if is_high c \<and> is_low d then c # d # quote_units cs
      else quote_unit c @ quote_units (d # cs))"

definition quote :: "jsstr \<Rightarrow> jsstr" where
  "quote s = 34 # quote_units s @ [34]"

text \<open>
  \<open>String(x)\<close> of a number: its sign, integer part and the shortest decimal fraction, which is
  what the language prints for magnitudes from \<open>10 ^ -6\<close> up to \<open>10 ^ 21\<close>. Fractions are
  printed exactly, up to \<open>max_frac\<close> digits (a double never needs more than 17 significant
  digits, plus the zeros after the point).
\<close>

definition max_frac :: nat where
  "max_frac = 22"

fun frac_str :: "nat \<Rightarrow> rat \<Rightarrow> jsstr" where
  "frac_str 0 f = []"
| "frac_str (Suc n) f =
     (if f = 0 then []
      else let d = nat \<lfloor>10 * f\<rfloor> in (48 + d) # frac_str n (10 * f - of_nat d))"

definition pos_num_str :: "rat \<Rightarrow> jsstr" where
  "pos_num_str r =
     (let n = nat \<lfloor>r\<rfloor>; f = r - of_nat n
      in if f = 0 then nat_str n else nat_str n @ 46 # frac_str max_frac f)"

definition num_str :: "rat \<Rightarrow> jsstr" where
  "num_str r = (if r < 0 then 45 # pos_num_str (- r) else pos_num_str r)"

fun stringify :: "json \<Rightarrow> jsstr"
  and stringify_elems :: "json list \<Rightarrow> jsstr"
  and stringify_members :: "(jsstr \<times> json) list \<Rightarrow> jsstr" where
  "stringify JNull = js ''null''"
| "stringify (JBool b) = (if b then js ''true'' else js ''false'')"
| "stringify (JNum r) = num_str r"
| "stringify (JStr s) = quote s"
| "stringify (JArr xs) = 91 # stringify_elems xs @ [93]"
| "stringify (JObj ps) = 123 # stringify_members ps @ [125]"
| "stringify_elems [] = []"
| "stringify_elems [x] = stringify x"
| "stringify_elems (x # y # ys) = stringify x @ 44 # stringify_elems (y # ys)"
| "stringify_members [] = []"
| "stringify_members [(k, v)] = quote k @ 58 # stringify v"
| "stringify_members ((k, v) # p # ps) = quote k @ 58 # stringify v @ 44 # stringify_members (p # ps)"

text \<open>
  \<open>String(x)\<close>, which template literals apply to the values they embed: an array joins the
  texts of its elements with commas, where \<open>null\<close> is the empty text.
\<close>

fun json_to_string :: "json \<Rightarrow> jsstr" where
  "json_to_string JNull = js ''null''"
| "json_to_string (JBool b) = (if b then js ''true'' else js ''false'')"
| "json_to_string (JNum r) = num_str r"
| "json_to_string (JStr s) = s"
| "json_to_string (JArr xs) =
     join [44] (map (\<lambda>x. if x = JNull then [] else json_to_string x) xs)"
| "json_to_string (JObj ps) = js ''[object Object]''"

text \<open>A value of \<open>unknown\<close> type that is truthy.\<close>

fun json_truthy :: "json \<Rightarrow> bool" where
  "json_truthy JNull = False"
| "json_truthy (JBool b) = b"
| "json_truthy (JNum r) = (r \<noteq> 0)"
| "json_truthy (JStr s) = (s \<noteq> [])"
| "json_truthy (JArr xs) = True"
| "json_truthy (JObj ps) = True"

text \<open>\<open>a || b\<close> for values that may be undefined.\<close>

definition json_or :: "json option \<Rightarrow> json \<Rightarrow> json" where
  "json_or a b = (case a of Some v \<Rightarrow> if json_truthy v then v else b | None \<Rightarrow> b)"

section \<open>JSON.parse\<close>

definition is_json_ws :: "nat \<Rightarrow> bool" where
  "is_json_ws c \<longleftrightarrow> c = 32 \<or> c = 9 \<or> c = 10 \<or> c = 13"

definition skip :: "jsstr \<Rightarrow> jsstr" where
  "skip s = dropWhile is_json_ws s"

fun expect :: "nat \<Rightarrow> jsstr \<Rightarrow> jsstr option" where
  "expect c [] = None"
| "expect c (x # xs) = (if x = c then Some xs else None)"

definition hex_val :: "nat \<Rightarrow> nat option" where
  "hex_val c =
     (if is_digit c then Some (c - 48)
      else if 97 \<le> c \<and> c \<le> 102 then Some (c - 87)
      else if 65 \<le> c \<and> c \<le> 70 then Some (c - 55) else None)"

definition hex4 :: "nat \<Rightarrow> nat \<Rightarrow> nat \<Rightarrow> nat \<Rightarrow> nat option" where
  "hex4 a b c d =
     (case (hex_val a, hex_val b, hex_val c, hex_val d) of
        (Some w, Some x, Some y, Some z) \<Rightarrow> Some (4096 * w + 256 * x + 16 * y + z)
      | _ \<Rightarrow> None)"

definition simple_escape :: "nat \<Rightarrow> nat option" where
  "simple_escape c =
     (if c = 34 \<or> c = 92 \<or> c = 47 then Some c
      else if c = 98 then Some 8 else if c = 102 then Some 12 else if c = 110 then Some 10
      else if c = 114 then Some 13 else if c = 116 then Some 9 else None)"

text \<open>The characters after the opening quote, up to the closing one.\<close>

fun parse_str :: "jsstr \<Rightarrow> (jsstr \<times> jsstr) option" where
  "parse_str [] = None"
| "parse_str (c # cs) =
     (if c = 34 then Some ([], cs)
      else if c < 32 then None
      else if c = 92 then
        (case cs of
           [] \<Rightarrow> None
         | e # es \<Rightarrow>
             if e = 117 then
               (case es of
                  w # x # y # z # rest \<Rightarrow>
                    (case hex4 w x y z of
                       None \<Rightarrow> None
                     | Some u \<Rightarrow> map_option (\<lambda>(s, r). (u # s, r)) (parse_str rest))
                | _ \<Rightarrow> None)
             else (case simple_escape e of
                     None \<Rightarrow> None
                   | Some u \<Rightarrow> map_option (\<lambda>(s, r). (u # s, r)) (parse_str es)))
      else map_option (\<lambda>(s, r). (c # s, r)) (parse_str cs))"

definition frac_val :: "jsstr \<Rightarrow> rat" where
  "frac_val ds = foldr (\<lambda>c a. (of_nat (c - 48) + a) / 10) ds 0"

text \<open>\<open>-?(0|[1-9]\\d*)(\\.\\d+)?([eE][+-]?\\d+)?\<close>\<close>

definition parse_frac :: "jsstr \<Rightarrow> (rat \<times> jsstr) option" where
  "parse_frac s =
     (case s of
        c # cs \<Rightarrow>
          if c = 46 then
            (let ds = takeWhile is_digit cs
             in if ds = [] then None else Some (frac_val ds, dropWhile is_digit cs))
          else Some (0, s)
      | [] \<Rightarrow> Some (0, s))"

definition parse_exp :: "jsstr \<Rightarrow> (rat \<times> jsstr) option" where
  "parse_exp s =
     (case s of
        c # cs \<Rightarrow>
          if c = 101 \<or> c = 69 then
            (let neg = starts_with [45] cs;
                 body = (if starts_with [45] cs \<or> starts_with [43] cs then tl cs else cs);
                 ds = takeWhile is_digit body
             in if ds = [] then None
                else Some (if neg then 1 / 10 ^ digits_val ds else 10 ^ digits_val ds,
                           dropWhile is_digit body))
          else Some (1, s)
      | [] \<Rightarrow> Some (1, s))"

definition parse_unsigned :: "jsstr \<Rightarrow> (rat \<times> jsstr) option" where
  "parse_unsigned s =
     (let ds = takeWhile is_digit s; rest = dropWhile is_digit s
      in if ds = [] \<or> (hd ds = 48 \<and> length ds > 1) then None
         else case parse_frac rest of
                None \<Rightarrow> None
              | Some (f, rest') \<Rightarrow>
                  (case parse_exp rest' of
                     None \<Rightarrow> None
                   | Some (e, rest'') \<Rightarrow> Some ((of_nat (digits_val ds) + f) * e, rest'')))"

definition parse_number :: "jsstr \<Rightarrow> (json \<times> jsstr) option" where
  "parse_number s =
     (if starts_with [45] s
      then map_option (\<lambda>(r, rest). (JNum (- r), rest)) (parse_unsigned (tl s))
      else map_option (\<lambda>(r, rest). (JNum r, rest)) (parse_unsigned s))"

text \<open>
  Recursive descent with fuel: every call spends one unit and at least every second call has
  consumed a code unit, so \<open>2 * length + 2\<close> units are enough (lemma \<open>parse_fuel_enough\<close>).
\<close>

fun parse_value :: "nat \<Rightarrow> jsstr \<Rightarrow> (json \<times> jsstr) option"
  and parse_elems :: "nat \<Rightarrow> jsstr \<Rightarrow> (json list \<times> jsstr) option"
  and parse_members :: "nat \<Rightarrow> jsstr \<Rightarrow> ((jsstr \<times> json) list \<times> jsstr) option" where
  "parse_value 0 s = None"
| "parse_value (Suc n) s =
     (case skip s of
        [] \<Rightarrow> None
      | c # cs \<Rightarrow>
          if c = 123 then
            (case expect 125 (skip cs) of
               Some r \<Rightarrow> Some (JObj [], r)
             | None \<Rightarrow> map_option (\<lambda>(ms, r). (JObj (obj_of ms), r)) (parse_members n cs))
          else if c = 91 then
            (case expect 93 (skip cs) of
               Some r \<Rightarrow> Some (JArr [], r)
             | None \<Rightarrow> map_option (\<lambda>(xs, r). (JArr xs, r)) (parse_elems n cs))
          else if c = 34 then map_option (\<lambda>(t, r). (JStr t, r)) (parse_str cs)
          else if starts_with (js ''true'') (c # cs) then Some (JBool True, drop 3 cs)
          else if starts_with (js ''false'') (c # cs) then Some (JBool False, drop 4 cs)
          else if starts_with (js ''null'') (c # cs) then Some (JNull, drop 3 cs)
          else parse_number (c # cs))"
| "parse_elems 0 s = None"
| "parse_elems (Suc n) s =
     (case parse_value n s of
        None \<Rightarrow> None
      | Some (v, r) \<Rightarrow>
          (case expect 44 (skip r) of
             Some r' \<Rightarrow> map_option (\<lambda>(vs, r''). (v # vs, r'')) (parse_elems n r')
           | None \<Rightarrow> map_option (\<lambda>r'. ([v], r')) (expect 93 (skip r))))"
| "parse_members 0 s = None"
| "parse_members (Suc n) s =
     (case expect 34 (skip s) of
        None \<Rightarrow> None
      | Some s1 \<Rightarrow>
          (case parse_str s1 of
             None \<Rightarrow> None
           | Some (k, s2) \<Rightarrow>
               (case expect 58 (skip s2) of
                  None \<Rightarrow> None
                | Some s3 \<Rightarrow>
                    (case parse_value n s3 of
                       None \<Rightarrow> None
                     | Some (v, r) \<Rightarrow>
                         (case expect 44 (skip r) of
                            Some r' \<Rightarrow> map_option (\<lambda>(ms, r''). ((k, v) # ms, r'')) (parse_members n r')
                          | None \<Rightarrow> map_option (\<lambda>r'. ([(k, v)], r')) (expect 125 (skip r)))))))"

text \<open>\<open>None\<close> is the \<open>SyntaxError\<close> that \<open>JSON.parse\<close> throws.\<close>

definition json_parse :: "jsstr \<Rightarrow> json option" where
  "json_parse s =
     (case parse_value (2 * length s + 2) s of
        Some (v, r) \<Rightarrow> if skip r = [] then Some v else None
      | None \<Rightarrow> None)"

text \<open>
  The guard \<open>!parsed || typeof parsed !== 'object' || Array.isArray(parsed)\<close> after a
  \<open>JSON.parse\<close> inside a \<open>try\<close>: the entries of a plain object, \<open>None\<close> otherwise.
\<close>

definition parse_plain_object :: "jsstr \<Rightarrow> (jsstr \<times> json) list option" where
  "parse_plain_object s =
     (case json_parse s of Some (JObj ps) \<Rightarrow> Some ps | _ \<Rightarrow> None)"

section \<open>Strings\<close>

lemma hex_val_digit: "d < 16 \<Longrightarrow> hex_val (hex_digit d) = Some d"
  by (simp add: hex_val_def hex_digit_def is_digit_def)

lemma hex_expand:
  fixes c :: nat
  assumes "c < 65536"
  shows "4096 * (c div 4096) + 256 * (c div 256 mod 16) + 16 * (c div 16 mod 16) + c mod 16 = c"
proof -
  have "c div 256 = 16 * (c div 4096) + c div 256 mod 16"
    using div_mult_mod_eq [of "c div 256" 16] by (simp add: div_mult2_eq [symmetric])
  moreover have "c div 16 = 16 * (c div 256) + c div 16 mod 16"
    using div_mult_mod_eq [of "c div 16" 16] by (simp add: div_mult2_eq [symmetric])
  moreover have "c = 16 * (c div 16) + c mod 16" by simp
  ultimately show ?thesis by linarith
qed

lemma parse_str_escape:
  "c < 65536 \<Longrightarrow>
    parse_str (unicode_escape c @ t) = map_option (\<lambda>(s, r). (c # s, r)) (parse_str t)"
  by (simp add: unicode_escape_def hex4_def hex_val_digit hex_expand)

lemma parse_str_unit:
  "parse_str (quote_unit c @ t) = map_option (\<lambda>(s, r). (c # s, r)) (parse_str t)"
proof (cases "c < 32 \<or> is_high c \<or> is_low c")
  case True
  then have "c < 65536" by (auto simp: is_high_def is_low_def)
  with True show ?thesis
    by (simp add: quote_unit_def parse_str_escape)
      (auto simp: simple_escape_def)
next
  case False
  then show ?thesis by (auto simp: quote_unit_def simple_escape_def)
qed

lemma parse_str_plain:
  "32 \<le> c \<Longrightarrow> c \<noteq> 34 \<Longrightarrow> c \<noteq> 92 \<Longrightarrow>
    parse_str (c # t) = map_option (\<lambda>(s, r). (c # s, r)) (parse_str t)"
  by simp

lemma parse_str_quote_units: "parse_str (quote_units s @ 34 # t) = Some (s, t)"
proof (induction s rule: quote_units.induct)
  case (2 c)
  show ?case using parse_str_unit [of c "34 # t"] by simp
next
  case (3 c d cs)
  show ?case
  proof (cases "is_high c \<and> is_low d")
    case True
    then have "32 \<le> c" "c \<noteq> 34" "c \<noteq> 92" "32 \<le> d" "d \<noteq> 34" "d \<noteq> 92"
      by (auto simp: is_high_def is_low_def)
    with 3(1) True show ?thesis by (simp del: parse_str.simps add: parse_str_plain)
  next
    case False
    with 3(2) show ?thesis by (auto simp del: parse_str.simps simp add: parse_str_unit)
  qed
qed simp

section \<open>Numbers\<close>

text \<open>A number whose fraction has at most \<open>max_frac\<close> decimal digits.\<close>

definition decimal :: "rat \<Rightarrow> bool" where
  "decimal r \<longleftrightarrow> r * 10 ^ max_frac \<in> \<int>"

definition closes :: "jsstr \<Rightarrow> bool" where
  "closes t \<longleftrightarrow> t = [] \<or> hd t = 44 \<or> hd t = 93 \<or> hd t = 125 \<or> hd t = 10"

lemma frac_step:
  assumes "0 \<le> (f::rat)" and "f < 1"
  shows "nat \<lfloor>10 * f\<rfloor> < 10" and "0 \<le> 10 * f - of_nat (nat \<lfloor>10 * f\<rfloor>)"
    and "10 * f - of_nat (nat \<lfloor>10 * f\<rfloor>) < 1"
proof -
  have f: "0 \<le> \<lfloor>10 * f\<rfloor>" "\<lfloor>10 * f\<rfloor> < 10" using assms by (auto simp: floor_less_iff)
  then show "nat \<lfloor>10 * f\<rfloor> < 10" by linarith
  have "(of_nat (nat \<lfloor>10 * f\<rfloor>) :: rat) = of_int \<lfloor>10 * f\<rfloor>" using f(1) by simp
  then show "0 \<le> 10 * f - of_nat (nat \<lfloor>10 * f\<rfloor>)" "10 * f - of_nat (nat \<lfloor>10 * f\<rfloor>) < 1"
    by linarith+
qed

lemma frac_str_digits:
  "0 \<le> f \<Longrightarrow> f < 1 \<Longrightarrow> list_all is_digit (frac_str n f)"
proof (induction n arbitrary: f)
  case (Suc n)
  then show ?case using frac_step [OF Suc.prems]
    by (auto simp: Let_def is_digit_def)
qed simp

lemma frac_val_frac_str:
  "0 \<le> f \<Longrightarrow> f < 1 \<Longrightarrow> f * 10 ^ n \<in> \<int> \<Longrightarrow> frac_val (frac_str n f) = f"
proof (induction n arbitrary: f)
  case 0
  then obtain k where "f = of_int k" by (auto elim: Ints_cases)
  with 0 have "k = 0" by simp
  with \<open>f = of_int k\<close> show ?case by (simp add: frac_val_def)
next
  case (Suc n)
  show ?case
  proof (cases "f = 0")
    case True
    then show ?thesis by (simp add: frac_val_def)
  next
    case False
    let ?d = "nat \<lfloor>10 * f\<rfloor>"
    let ?g = "10 * f - of_nat ?d"
    have "?g * 10 ^ n = f * 10 ^ Suc n - of_int (int ?d * 10 ^ n)"
      by (simp add: algebra_simps)
    then have "?g * 10 ^ n \<in> \<int>" using Suc.prems(3) by (metis Ints_diff Ints_of_int)
    then have "frac_val (frac_str n ?g) = ?g"
      using frac_step [OF Suc.prems(1,2)] by (intro Suc.IH) auto
    with False show ?thesis by (simp add: frac_val_def Let_def)
  qed
qed

lemma takeWhile_digits:
  "list_all is_digit ds \<Longrightarrow> t = [] \<or> \<not> is_digit (hd t) \<Longrightarrow>
     takeWhile is_digit (ds @ t) = ds \<and> dropWhile is_digit (ds @ t) = t"
  by (induction ds) (cases t; auto)+

lemma nat_str_no_zero: "length (nat_str n) > 1 \<Longrightarrow> hd (nat_str n) \<noteq> 48"
proof (induction n rule: nat_str.induct)
  case (1 n)
  show ?case
  proof (cases "n < 10")
    case True
    with "1.prems" show ?thesis by (simp add: nat_str.simps [of n])
  next
    case False
    have ne: "nat_str (n div 10) \<noteq> []" using nat_str_digits by blast
    have eq: "nat_str n = nat_str (n div 10) @ [48 + n mod 10]"
      using False by (simp add: nat_str.simps [of n])
    show ?thesis
    proof (cases "length (nat_str (n div 10)) > 1")
      case True
      then show ?thesis using "1.IH" False eq ne by simp
    next
      case len: False
      have "n div 10 < 10"
      proof (rule ccontr)
        assume "\<not> n div 10 < 10"
        then have "nat_str (n div 10) = nat_str (n div 10 div 10) @ [48 + n div 10 mod 10]"
          by (subst nat_str.simps) simp
        with len nat_str_digits [of "n div 10 div 10"] show False by auto
      qed
      moreover have "n div 10 \<noteq> 0" using False by simp
      ultimately show ?thesis using eq by (simp add: nat_str.simps [of "n div 10"])
    qed
  qed
qed

lemma closes_number:
  assumes "closes t"
  shows "t = [] \<or> \<not> is_digit (hd t)" and "parse_frac t = Some (0, t)" and "parse_exp t = Some (1, t)"
  using assms by (cases t; auto simp: closes_def is_digit_def parse_frac_def parse_exp_def)+

lemma parse_unsigned_pos:
  assumes "0 \<le> r" and "decimal r" and "closes t"
  shows "parse_unsigned (pos_num_str r @ t) = Some (r, t)"
proof -
  let ?n = "nat \<lfloor>r\<rfloor>"
  let ?f = "r - of_nat ?n"
  have n: "(of_nat ?n :: rat) = of_int \<lfloor>r\<rfloor>" using assms(1) by simp
  then have f: "0 \<le> ?f" "?f < 1" by linarith+
  note ds = nat_str_digits [of ?n]
  have nz: "\<not> (hd (nat_str ?n) = 48 \<and> length (nat_str ?n) > 1)" using nat_str_no_zero by blast
  show ?thesis
  proof (cases "?f = 0")
    case True
    then have "pos_num_str r = nat_str ?n" by (simp add: pos_num_str_def Let_def)
    with True ds nz assms(3) show ?thesis
      using takeWhile_digits [of "nat_str ?n" t] closes_number [OF assms(3)]
      by (simp add: parse_unsigned_def Let_def)
  next
    case False
    let ?fs = "frac_str max_frac ?f"
    have eq: "pos_num_str r = nat_str ?n @ 46 # ?fs" using False by (simp add: pos_num_str_def Let_def)
    have "?f * 10 ^ max_frac = r * 10 ^ max_frac - of_int (int ?n * 10 ^ max_frac)"
      by (simp add: algebra_simps)
    then have "?f * 10 ^ max_frac \<in> \<int>" using assms(2) by (metis Ints_diff Ints_of_int decimal_def)
    then have fv: "frac_val ?fs = ?f" using f by (intro frac_val_frac_str) auto
    have fne: "?fs \<noteq> []" using False by (auto simp: max_frac_def Let_def numeral_eq_Suc)
    have td: "takeWhile is_digit (?fs @ t) = ?fs \<and> dropWhile is_digit (?fs @ t) = t"
      using frac_str_digits [OF f] closes_number(1) [OF assms(3)] by (intro takeWhile_digits)
    have "parse_frac (46 # ?fs @ t) = Some (?f, t)"
      using td fv fne by (simp add: parse_frac_def Let_def)
    moreover have "takeWhile is_digit (nat_str ?n @ 46 # ?fs @ t) = nat_str ?n
        \<and> dropWhile is_digit (nat_str ?n @ 46 # ?fs @ t) = 46 # ?fs @ t"
      using ds by (intro takeWhile_digits) (auto simp: is_digit_def)
    ultimately show ?thesis
      using ds nz closes_number(3) [OF assms(3)] eq by (simp add: parse_unsigned_def Let_def)
  qed
qed

lemma pos_num_str_hd: "\<exists>c cs. pos_num_str r = c # cs \<and> is_digit c"
  using nat_str_digits [of "nat \<lfloor>r\<rfloor>"]
  by (cases "nat_str (nat \<lfloor>r\<rfloor>)") (auto simp: pos_num_str_def Let_def)

lemma parse_number_num_str:
  assumes "decimal r" and "closes t"
  shows "parse_number (num_str r @ t) = Some (JNum r, t)"
proof (cases "r < 0")
  case True
  have "decimal (- r)" using assms(1) by (simp add: decimal_def)
  with True assms(2) show ?thesis by (simp add: parse_number_def num_str_def parse_unsigned_pos)
next
  case False
  moreover obtain c cs where "pos_num_str r = c # cs" "is_digit c" using pos_num_str_hd by blast
  ultimately show ?thesis using parse_unsigned_pos [of r t] assms
    by (auto simp: parse_number_def num_str_def is_digit_def)
qed

section \<open>Fuel\<close>

lemma skip_length [simp]: "length (skip s) \<le> length s"
  by (simp add: skip_def length_dropWhile_le)

lemma expect_length: "expect c s = Some r \<Longrightarrow> length s = Suc (length r)"
  by (cases s) (auto split: if_splits)

lemma parse_str_length: "parse_str s = Some (t, r) \<Longrightarrow> length r < length s"
proof (induction s arbitrary: t r rule: parse_str.induct)
  case (2 c cs)
  then show ?case
    by (fastforce split: if_splits list.splits option.splits simp: less_Suc_eq)
qed simp

lemma dropWhile_length: "length (dropWhile P s) \<le> length s"
  by (simp add: length_dropWhile_le)

lemma takeWhile_nonempty_length: "takeWhile P s \<noteq> [] \<Longrightarrow> length (dropWhile P s) < length s"
  by (cases s) (auto simp: le_imp_less_Suc dropWhile_length split: if_splits)

lemma parse_frac_length: "parse_frac s = Some (f, r) \<Longrightarrow> length r \<le> length s"
  by (auto simp: parse_frac_def Let_def dropWhile_length le_SucI split: list.splits if_splits)

lemma parse_exp_length: "parse_exp s = Some (f, r) \<Longrightarrow> length r \<le> length s"
  by (auto simp: parse_exp_def Let_def split: list.splits if_splits)
    (metis dropWhile_length le_SucI length_tl diff_le_self le_trans)+

lemma parse_unsigned_length: "parse_unsigned s = Some (f, r) \<Longrightarrow> length r < length s"
  using takeWhile_nonempty_length [of is_digit s]
  by (auto simp: parse_unsigned_def Let_def split: if_splits option.splits
      dest!: parse_frac_length parse_exp_length)

lemma parse_number_length: "parse_number s = Some (v, r) \<Longrightarrow> length r < length s"
  by (cases s) (auto simp: parse_number_def split: if_splits dest!: parse_unsigned_length)

lemma expect_skip_length: "expect c (skip s) = Some r \<Longrightarrow> length r < length s"
  using expect_length [of c "skip s" r] skip_length [of s] by linarith

lemma skip_Cons_length: "skip s = c # cs \<Longrightarrow> length cs < length s"
  using skip_length [of s] by simp

lemmas consume_dests = expect_skip_length parse_str_length skip_Cons_length

lemma parse_consumes:
  shows "parse_value n s = Some (v, r) \<Longrightarrow> length r < length s"
    and "parse_elems n s = Some (xs, r) \<Longrightarrow> length r < length s"
    and "parse_members n s = Some (ms, r) \<Longrightarrow> length r < length s"
proof (induction n s and n s and n s arbitrary: v r and xs r and ms r
    rule: parse_value_parse_elems_parse_members.induct)
  case (2 n s)
  show ?case
  proof (cases "skip s")
    case (Cons c cs)
    have len: "length cs < length s" using Cons by (rule skip_Cons_length)
    consider "length r < length cs" | "r = drop 3 cs" | "r = drop 4 cs"
      | "parse_number (c # cs) = Some (v, r)"
      using "2.prems" "2.IH" Cons
      by (auto split: if_splits option.splits dest!: consume_dests)
    then show ?thesis
    proof cases
      case 4
      then have "length r < Suc (length cs)" using parse_number_length [OF 4] by simp
      then show ?thesis using len by simp
    qed (use len in simp_all)
  qed (use "2.prems" in simp)
next
  case (4 n s)
  then obtain w q where w: "parse_value n s = Some (w, q)" "length q < length s"
    by (auto split: option.splits)
  show ?case
  proof (cases "expect 44 (skip q)")
    case None
    with 4(3) w show ?thesis by (auto dest!: expect_skip_length)
  next
    case (Some q')
    then have "length q' < length q" by (rule expect_skip_length)
    moreover obtain ys where "parse_elems n q' = Some (ys, r)" using 4(3) w Some by auto
    then have "length r < length q'" using 4(2) w Some by blast
    ultimately show ?thesis using w by simp
  qed
next
  case (6 n s)
  then obtain s1 k s2 s3 w q where p: "expect 34 (skip s) = Some s1" "parse_str s1 = Some (k, s2)"
    "expect 58 (skip s2) = Some s3" "parse_value n s3 = Some (w, q)"
    by (auto split: option.splits)
  then have "length q < length s3" using 6(1) by blast
  then have q: "length q < length s" using p(1-3) by (auto dest!: consume_dests)
  show ?case
  proof (cases "expect 44 (skip q)")
    case None
    with 6(3) p q show ?thesis by (auto dest!: expect_skip_length)
  next
    case (Some q')
    then have "length q' < length q" by (rule expect_skip_length)
    moreover obtain ys where "parse_members n q' = Some (ys, r)" using 6(3) p Some by auto
    then have "length r < length q'" using 6(2) p Some by blast
    ultimately show ?thesis using q by simp
  qed
qed simp_all

declare parse_value.simps(2) [simp del] parse_elems.simps(2) [simp del] parse_members.simps(2) [simp del]

text \<open>More fuel than \<open>json_parse\<close> gives never changes a result.\<close>

lemma parse_fuel_step:
  shows "2 * length s < n \<Longrightarrow> parse_value (Suc n) s = parse_value n s"
    and "2 * length s + 1 < n \<Longrightarrow> parse_elems (Suc n) s = parse_elems n s"
    and "2 * length s + 1 < n \<Longrightarrow> parse_members (Suc n) s = parse_members n s"
proof (induction n s and n s and n s rule: parse_value_parse_elems_parse_members.induct)
  case (2 n s)
  show ?case
  proof (cases "skip s")
    case (Cons c cs)
    have "2 * length cs + 1 < n" using 2(3) skip_Cons_length [OF Cons] by simp
    then have "expect 125 (skip cs) = None \<Longrightarrow> c = 123 \<Longrightarrow> parse_members (Suc n) cs = parse_members n cs"
      "expect 93 (skip cs) = None \<Longrightarrow> c = 91 \<Longrightarrow> parse_elems (Suc n) cs = parse_elems n cs"
      using 2(1,2) Cons by auto
    then show ?thesis using Cons
      by (simp add: parse_value.simps(2) split: option.split)
  qed (simp add: parse_value.simps(2))
next
  case (4 n s)
  have v: "parse_value (Suc n) s = parse_value n s" using 4(1,3) by simp
  have e: "parse_elems (Suc n) r' = parse_elems n r'"
    if "parse_value n s = Some (w, r)" "expect 44 (skip r) = Some r'" for w r r'
    using 4(2,3) that parse_consumes(1) [OF that(1)] expect_skip_length [OF that(2)] by auto
  show ?case
    by (subst (1 2) parse_elems.simps(2)) (auto simp: v e split: option.split)
next
  case (6 n s)
  have v: "parse_value (Suc n) s3 = parse_value n s3"
    if "expect 34 (skip s) = Some s1" "parse_str s1 = Some (k, s2)" "expect 58 (skip s2) = Some s3"
    for s1 k s2 s3
  proof -
    have "2 * length s3 < n" using 6(3) that by (auto dest!: consume_dests)
    then show ?thesis using 6(1) that by blast
  qed
  have e: "parse_members (Suc n) r' = parse_members n r'"
    if "expect 34 (skip s) = Some s1" "parse_str s1 = Some (k, s2)" "expect 58 (skip s2) = Some s3"
      "parse_value n s3 = Some (w, r)" "expect 44 (skip r) = Some r'" for s1 k s2 s3 w r r'
  proof -
    have "2 * length r' + 1 < n"
      using 6(3) that(1,2,3,5) parse_consumes(1) [OF that(4)] by (auto dest!: consume_dests)
    then show ?thesis using 6(2) that by blast
  qed
  show ?case
    by (subst (1 2) parse_members.simps(2)) (auto simp: v e split: option.split)
qed simp_all

lemma parse_fuel_enough:
  "parse_value (2 * length s + 2 + k) s = parse_value (2 * length s + 2) s"
  by (induction k) (simp_all add: parse_fuel_step(1))

lemma json_parse_blank: "\<forall>c \<in> set s. is_ws c \<Longrightarrow> json_parse s = None"
proof (cases "skip s")
  case (Cons c cs)
  assume "\<forall>c \<in> set s. is_ws c"
  moreover have "c \<in> set s" using Cons set_dropWhileD [of c is_json_ws s] by (simp add: skip_def)
  ultimately have "is_ws c" by blast
  then have "c \<noteq> 123" "c \<noteq> 91" "c \<noteq> 34" "c \<noteq> 45" "\<not> is_digit c" "c \<noteq> 116" "c \<noteq> 102" "c \<noteq> 110"
    by (auto simp: is_ws_def is_digit_def)
  with Cons show ?thesis
    by (simp add: json_parse_def parse_value.simps(2) js_def parse_number_def parse_unsigned_def)
qed (simp add: json_parse_def parse_value.simps(2))

section \<open>Round trip\<close>

fun wf_json :: "json \<Rightarrow> bool" where
  "wf_json (JNum r) = decimal r"
| "wf_json (JArr xs) = (\<forall>x \<in> set xs. wf_json x)"
| "wf_json (JObj ps) = (obj_of ps = ps \<and> (\<forall>p \<in> set ps. wf_json (snd p)))"
| "wf_json j = True"

lemma num_str_hd: "\<exists>c cs. num_str r = c # cs \<and> (is_digit c \<or> c = 45)"
  using pos_num_str_hd [of r] by (auto simp: num_str_def)

definition value_head :: "nat \<Rightarrow> bool" where
  "value_head c \<longleftrightarrow> \<not> is_json_ws c \<and> c \<noteq> 93 \<and> c \<noteq> 125"

lemma stringify_hd: "\<exists>c cs. stringify v = c # cs \<and> value_head c"
proof (cases v)
  case (JNum r)
  then show ?thesis using num_str_hd [of r]
    by (auto simp: value_head_def is_json_ws_def is_digit_def)
qed (auto simp: value_head_def is_json_ws_def quote_def js_def)

lemma skip_head: "value_head c \<Longrightarrow> skip (c # cs) = c # cs"
  by (simp add: skip_def value_head_def)

lemma skip_stringify: "skip (stringify v @ t) = stringify v @ t"
  using stringify_hd [of v] by (auto simp: skip_head)

lemma parse_value_num:
  assumes "decimal r" and "closes t"
  shows "parse_value (Suc n) (num_str r @ t) = Some (JNum r, t)"
proof -
  obtain c cs where c: "num_str r = c # cs" "is_digit c \<or> c = 45" using num_str_hd by blast
  then have "skip (num_str r @ t) = c # (cs @ t)"
    by (auto simp: skip_def is_json_ws_def is_digit_def)
  moreover have "\<not> starts_with (js ''true'') (c # cs @ t)" "\<not> starts_with (js ''false'') (c # cs @ t)"
    "\<not> starts_with (js ''null'') (c # cs @ t)" "c \<noteq> 123" "c \<noteq> 91" "c \<noteq> 34"
    using c(2) by (auto simp: js_def is_digit_def)
  ultimately show ?thesis
    using parse_number_num_str [OF assms] c(1) by (simp add: parse_value.simps(2))
qed

lemma expect_other: "value_head c \<Longrightarrow> expect 93 (skip (c # cs)) = None \<and> expect 125 (skip (c # cs)) = None"
  by (simp add: skip_head value_head_def)

lemma quote_skip: "skip (quote k @ t) = 34 # quote_units k @ 34 # t"
  by (simp add: quote_def skip_def is_json_ws_def)

lemma stringify_elems_hd: "\<exists>c cs. stringify_elems (x # xs) = c # cs \<and> value_head c"
  using stringify_hd [of x] by (cases xs) auto

lemma stringify_members_hd: "\<exists>c cs. stringify_members (p # ps) = c # cs \<and> value_head c"
  by (cases p; cases ps) (auto simp: quote_def value_head_def is_json_ws_def)

lemma parse_member_step:
  assumes "parse_value n (w @ t) = Some (v, t)"
  shows "parse_members (Suc n) (quote k @ 58 # w @ t) =
    (case expect 44 (skip t) of
       Some r' \<Rightarrow> map_option (\<lambda>(ms, r''). ((k, v) # ms, r'')) (parse_members n r')
     | None \<Rightarrow> map_option (\<lambda>r'. ([(k, v)], r')) (expect 125 (skip t)))"
  using assms
  by (simp add: parse_members.simps(2) quote_skip parse_str_quote_units)
    (simp add: skip_def is_json_ws_def)

lemma parse_stringify:
  shows "wf_json v \<Longrightarrow> closes t \<Longrightarrow> 2 * length (stringify v) < n \<Longrightarrow>
      parse_value n (stringify v @ t) = Some (v, t)"
    and "xs \<noteq> [] \<Longrightarrow> \<forall>x \<in> set xs. wf_json x \<Longrightarrow> 2 * length (stringify_elems xs) + 1 < n \<Longrightarrow>
      parse_elems n (stringify_elems xs @ 93 # t) = Some (xs, t)"
    and "ps \<noteq> [] \<Longrightarrow> \<forall>p \<in> set ps. wf_json (snd p) \<Longrightarrow> 2 * length (stringify_members ps) + 1 < n \<Longrightarrow>
      parse_members n (stringify_members ps @ 125 # t) = Some (ps, t)"
proof (induction v and xs and ps arbitrary: n t and n t and n t
    rule: stringify_stringify_elems_stringify_members.induct)
  case 1
  then show ?case by (cases n) (auto simp: parse_value.simps(2) js_def skip_def is_json_ws_def)
next
  case (2 b)
  then show ?case by (cases n; cases b) (auto simp: parse_value.simps(2) js_def skip_def is_json_ws_def)
next
  case (3 r)
  then show ?case by (cases n) (auto simp: parse_value_num)
next
  case (4 s)
  then show ?case
    by (cases n) (auto simp: parse_value.simps(2) quote_skip parse_str_quote_units)
next
  case (5 xs)
  obtain m where n: "n = Suc m" using 5 by (cases n) auto
  show ?case
  proof (cases xs)
    case Nil
    then show ?thesis using n by (simp add: parse_value.simps(2) skip_def is_json_ws_def)
  next
    case (Cons y ys)
    obtain c cs where c: "stringify_elems xs = c # cs" "value_head c"
      using stringify_elems_hd Cons by blast
    have "parse_elems m (stringify_elems xs @ 93 # t) = Some (xs, t)"
      using 5 n Cons by auto
    then show ?thesis using n c expect_other [OF c(2)]
      by (simp add: parse_value.simps(2)) (simp add: skip_def is_json_ws_def)
  qed
next
  case (6 ps)
  obtain m where n: "n = Suc m" using 6 by (cases n) auto
  show ?case
  proof (cases ps)
    case Nil
    then show ?thesis using n by (simp add: parse_value.simps(2) skip_def is_json_ws_def)
  next
    case (Cons y ys)
    obtain c cs where c: "stringify_members ps = c # cs" "value_head c"
      using stringify_members_hd Cons by blast
    have "parse_members m (stringify_members ps @ 125 # t) = Some (ps, t)"
      using 6 n Cons by auto
    then show ?thesis using n c expect_other [OF c(2)] 6(2)
      by (simp add: parse_value.simps(2)) (simp add: skip_def is_json_ws_def)
  qed
next
  case (8 x)
  obtain m where n: "n = Suc m" using 8 by (cases n) auto
  have "parse_value m (stringify x @ 93 # t) = Some (x, 93 # t)"
    using 8 n by (intro "8.IH") (auto simp: closes_def)
  then show ?case using n by (simp add: parse_elems.simps(2) skip_def is_json_ws_def)
next
  case (9 x y ys)
  obtain m where n: "n = Suc m" using 9 by (cases n) auto
  have "parse_value m (stringify x @ 44 # stringify_elems (y # ys) @ 93 # t) =
      Some (x, 44 # stringify_elems (y # ys) @ 93 # t)"
    using 9 n by (intro "9.IH"(1)) (auto simp: closes_def)
  moreover have "parse_elems m (stringify_elems (y # ys) @ 93 # t) = Some (y # ys, t)"
    using 9 n by (intro "9.IH"(2)) auto
  ultimately show ?case using n by (simp add: parse_elems.simps(2) skip_def is_json_ws_def)
next
  case (11 k v)
  obtain m where n: "n = Suc m" using 11 by (cases n) auto
  have "parse_value m (stringify v @ 125 # t) = Some (v, 125 # t)"
    using 11 n by (intro "11.IH") (auto simp: closes_def)
  then show ?case using n by (simp add: parse_member_step skip_def is_json_ws_def)
next
  case (12 k v p ps)
  obtain m where n: "n = Suc m" using 12 by (cases n) auto
  let ?t = "44 # stringify_members (p # ps) @ 125 # t"
  have "parse_value m (stringify v @ ?t) = Some (v, ?t)"
    using 12 n by (intro "12.IH"(1)) (auto simp: closes_def)
  moreover have "parse_members m (stringify_members (p # ps) @ 125 # t) = Some (p # ps, t)"
    using 12 n by (intro "12.IH"(2)) auto
  ultimately show ?case using n parse_member_step [of m "stringify v" ?t v k]
    by (simp add: skip_def is_json_ws_def)
qed simp_all

lemma json_roundtrip: "wf_json v \<Longrightarrow> json_parse (stringify v) = Some v"
  using parse_stringify(1) [of v "[]" "2 * length (stringify v) + 2"]
  by (simp add: json_parse_def closes_def skip_def)

text \<open>
  The contract of a text codec, for the stores built on \<open>localStorage\<close>: what was written by
  \<open>encode\<close> is read back unchanged.
\<close>

locale codec =
  fixes encode :: "'a \<Rightarrow> 'b" and decode :: "'b \<Rightarrow> 'a option" and wf :: "'a \<Rightarrow> bool"
  assumes decode_encode: "wf x \<Longrightarrow> decode (encode x) = Some x"
begin

lemma encode_inj: "wf x \<Longrightarrow> wf y \<Longrightarrow> encode x = encode y \<Longrightarrow> x = y"
  using decode_encode by (metis option.inject)

end

interpretation json_text: codec stringify json_parse wf_json
  by unfold_locales (rule json_roundtrip)

end
