(* ===== verification/StatusCodeGuard.thy ===== *)
theory StatusCodeGuard
  imports JsJson
begin

text \<open>
  Component: \<open>features/channels/lib/status-code-risk-guard.ts\<close>. A channel may rewrite upstream
  status codes; rewriting 504 and 524 is risky because the gateway's retry logic keys on them.
  The mapping is a JSON object; the argument is \<open>None\<close> for \<open>undefined\<close>.
\<close>

section \<open>Operations\<close>

definition NON_REDIRECTABLE_STATUS_CODES :: "nat set" where
  "NON_REDIRECTABLE_STATUS_CODES = {504, 524}"

text \<open>The regular expression \<open>/^[1-5]\\d{2}$/\<close>.\<close>

definition is_status_text :: "jsstr \<Rightarrow> bool" where
  "is_status_text s \<longleftrightarrow> length s = 3 \<and> 49 \<le> hd s \<and> hd s \<le> 53 \<and> list_all is_digit (tl s)"

definition parseStatusCodeKey :: "jsstr \<Rightarrow> nat option" where
  "parseStatusCodeKey rawKey =
     (let normalized = trim rawKey
      in if \<not> is_status_text normalized then None else Some (digits_val normalized))"

fun parseStatusCodeMappingTarget :: "json \<Rightarrow> nat option" where
  "parseStatusCodeMappingTarget (JNum r) =
     (if is_integer r \<and> 100 \<le> r \<and> r \<le> 599 then Some (nat \<lfloor>r\<rfloor>) else None)"
| "parseStatusCodeMappingTarget (JStr s) =
     (let normalized = trim s
      in if \<not> is_status_text normalized then None
         else let code = digits_val normalized
              in if 100 \<le> code \<and> code \<le> 599 then Some code else None)"
| "parseStatusCodeMappingTarget _ = None"

text \<open>The entries of the mapping, empty for a blank text, a syntax error or a non-object.\<close>

definition mappingEntries :: "jsstr option \<Rightarrow> (jsstr \<times> json) list" where
  "mappingEntries str =
     (case str of
        None \<Rightarrow> []
      | Some s \<Rightarrow>
          if trim s = [] then []
          else case parse_plain_object s of None \<Rightarrow> [] | Some ps \<Rightarrow> ps)"

text \<open>8594 is the arrow between key and value.\<close>

fun invalidLoop :: "(jsstr \<times> json) list \<Rightarrow> jsstr list" where
  "invalidLoop [] = []"
| "invalidLoop ((rawKey, rawValue) # es) =
     (if parseStatusCodeKey rawKey = None \<or> parseStatusCodeMappingTarget rawValue = None
      then (rawKey @ [32, 8594, 32] @ json_to_string rawValue) # invalidLoop es
      else invalidLoop es)"

definition collectInvalidStatusCodeEntries :: "jsstr option \<Rightarrow> jsstr list" where
  "collectInvalidStatusCodeEntries str = invalidLoop (mappingEntries str)"

definition redirectText :: "nat \<Rightarrow> nat \<Rightarrow> jsstr" where
  "redirectText f t = nat_str f @ js '' -> '' @ nat_str t"

fun riskyLoop :: "(jsstr \<times> json) list \<Rightarrow> jsstr list" where
  "riskyLoop [] = []"
| "riskyLoop ((rawFrom, rawTo) # es) =
     (case (parseStatusCodeKey rawFrom, parseStatusCodeMappingTarget rawTo) of
        (Some fromCode, Some toCode) \<Rightarrow>
          if fromCode \<notin> NON_REDIRECTABLE_STATUS_CODES then riskyLoop es
          else if fromCode = toCode then riskyLoop es
          else redirectText fromCode toCode # riskyLoop es
      | _ \<Rightarrow> riskyLoop es)"

definition collectDisallowedStatusCodeRedirects :: "jsstr option \<Rightarrow> jsstr list" where
  "collectDisallowedStatusCodeRedirects str = sort (dedup (riskyLoop (mappingEntries str)))"

definition collectNewDisallowedStatusCodeRedirects ::
  "jsstr option \<Rightarrow> jsstr option \<Rightarrow> jsstr list" where
  "collectNewDisallowedStatusCodeRedirects originalStr currentStr =
     (let currentRisky = collectDisallowedStatusCodeRedirects currentStr
      in if currentRisky = [] then []
         else let originalRiskySet = set (collectDisallowedStatusCodeRedirects originalStr)
              in filter (\<lambda>mapping. mapping \<notin> originalRiskySet) currentRisky)"

section \<open>Lemmas\<close>

text \<open>One entry that redirects a protected code to another valid code.\<close>

definition risky_entry :: "jsstr \<Rightarrow> json \<Rightarrow> nat \<Rightarrow> nat \<Rightarrow> bool" where
  "risky_entry k v f t \<longleftrightarrow> parseStatusCodeKey k = Some f
     \<and> parseStatusCodeMappingTarget v = Some t
     \<and> f \<in> NON_REDIRECTABLE_STATUS_CODES \<and> f \<noteq> t"

lemma set_riskyLoop:
  "set (riskyLoop es) = {redirectText f t |k v f t. (k, v) \<in> set es \<and> risky_entry k v f t}"
proof (induction es)
  case (Cons e es)
  obtain k v where e: "e = (k, v)" by (cases e)
  show ?case using Cons
    by (auto simp: e risky_entry_def split: option.splits)
qed simp

lemma redirectText_inject [simp]: "redirectText f t = redirectText f' t' \<longleftrightarrow> f = f' \<and> t = t'"
proof
  assume eq: "redirectText f t = redirectText f' t'"
  have d: "takeWhile is_digit (nat_str n @ js '' -> '' @ u) = nat_str n
      \<and> dropWhile is_digit (nat_str n @ js '' -> '' @ u) = js '' -> '' @ u" for n u
    using nat_str_digits by (intro takeWhile_digits) (auto simp: js_def is_digit_def)
  from eq show "f = f' \<and> t = t'"
    using d [of f "nat_str t"] d [of f' "nat_str t'"] unfolding redirectText_def
    by (metis nat_str_inject same_append_eq)
qed simp

section \<open>Properties\<close>

text \<open>
  The disallowed redirects reported for a mapping are exactly those of its entries that
  send 504 or 524 to a different valid code; the report is sorted and free of duplicates.
\<close>

theorem disallowed_redirects_exact:
  "set (collectDisallowedStatusCodeRedirects str) =
     {redirectText f t |k v f t. (k, v) \<in> set (mappingEntries str) \<and> risky_entry k v f t}
   \<and> sorted (collectDisallowedStatusCodeRedirects str)
   \<and> distinct (collectDisallowedStatusCodeRedirects str)"
  by (simp add: collectDisallowedStatusCodeRedirects_def set_riskyLoop)

text \<open>
  C39. The check before saving: when no new disallowed redirect is reported, every entry of the
  new mapping that redirects a protected code was already an entry of the original mapping.
\<close>

theorem no_new_disallowed_redirects:
  assumes "collectNewDisallowedStatusCodeRedirects originalStr currentStr = []"
    and "(k, v) \<in> set (mappingEntries currentStr)" and "risky_entry k v f t"
  shows "\<exists>k' v'. (k', v') \<in> set (mappingEntries originalStr) \<and> risky_entry k' v' f t"
proof -
  have "redirectText f t \<in> set (collectDisallowedStatusCodeRedirects currentStr)"
    using assms(2,3)
    by (auto simp: collectDisallowedStatusCodeRedirects_def set_riskyLoop)
  with assms(1) have "redirectText f t \<in> set (collectDisallowedStatusCodeRedirects originalStr)"
    by (auto simp: collectNewDisallowedStatusCodeRedirects_def Let_def filter_empty_conv
        split: if_splits)
  then show ?thesis
    by (auto simp: collectDisallowedStatusCodeRedirects_def set_riskyLoop)
qed

theorem no_new_disallowed_redirects_witness:
  \<open>\<exists>k' v'. (k', v') \<in> set (mappingEntries (Some (js ''{"504":"500"}'')))
     \<and> risky_entry k' v' 504 500\<close>
proof (rule no_new_disallowed_redirects)
  show \<open>collectNewDisallowedStatusCodeRedirects (Some (js ''{"504":"500"}''))
      (Some (js ''{"504":500,"400":404}'')) = []\<close>
    by code_simp
  show \<open>(js ''504'', JNum 500) \<in> set (mappingEntries (Some (js ''{"504":500,"400":404}'')))\<close>
    by code_simp
  show "risky_entry (js ''504'') (JNum 500) 504 500"
    unfolding risky_entry_def by (intro conjI) code_simp+
qed

end
