(* ===== verification/ModelMapping.thy ===== *)
theory ModelMapping
  imports JsJson
begin

text \<open>
  Component: \<open>features/channels/lib/model-mapping-validation.ts\<close>. A channel has a list of
  models, kept as a comma-separated text, and a mapping from requested to upstream models, a
  JSON object whose values are a string or an object with a string \<open>target\<close>. A JavaScript
  \<open>Set\<close> that is spread or returned is the duplicate-free list in insertion order.
\<close>

section \<open>Operations\<close>

definition parseModelsString :: "jsstr \<Rightarrow> jsstr list" where
  "parseModelsString modelsStr =
     (if modelsStr = [] then []
      else filter (\<lambda>m. m \<noteq> []) (map trim (split_char 44 modelsStr)))"

definition formatModelsArray :: "jsstr list \<Rightarrow> jsstr" where
  "formatModelsArray models = join [44] (dedup models)"

definition normalizeModelName :: "jsstr \<Rightarrow> jsstr" where
  "normalizeModelName model = trim model"

definition extractMappingSourceModels :: "jsstr \<Rightarrow> jsstr list" where
  "extractMappingSourceModels modelMapping =
     (let trimmed = trim modelMapping
      in if trimmed = [] then []
         else case parse_plain_object trimmed of
                None \<Rightarrow> []
              | Some ps \<Rightarrow> dedup (filter (\<lambda>k. k \<noteq> []) (map (\<lambda>p. trim (fst p)) ps)))"

fun extractTargetFromValue :: "json \<Rightarrow> jsstr option" where
  "extractTargetFromValue (JStr s) = Some (trim s)"
| "extractTargetFromValue (JObj ps) =
     (case map_of ps (js ''target'') of Some (JStr s) \<Rightarrow> Some (trim s) | _ \<Rightarrow> None)"
| "extractTargetFromValue _ = None"

text \<open>\<open>.filter(Boolean)\<close> drops both \<open>undefined\<close> and the empty string.\<close>

definition extractRedirectModels :: "jsstr \<Rightarrow> jsstr list" where
  "extractRedirectModels modelMapping =
     (let trimmed = trim modelMapping
      in if trimmed = [] then []
         else case parse_plain_object trimmed of
                None \<Rightarrow> []
              | Some ps \<Rightarrow>
                  dedup (filter (\<lambda>v. v \<noteq> [])
                    (List.map_filter (\<lambda>p. extractTargetFromValue (snd p)) ps)))"

definition hasModelConfigChanged ::
  "jsstr list \<Rightarrow> jsstr \<Rightarrow> jsstr list \<Rightarrow> jsstr \<Rightarrow> bool" where
  "hasModelConfigChanged currentModels currentModelMapping initialModels initialModelMapping =
     (if initialModels = [] \<and> initialModelMapping = [] then True
      else if length currentModels \<noteq> length initialModels then True
      else if list_ex (\<lambda>i. currentModels ! i \<noteq> initialModels ! i) [0..<length currentModels]
      then True
      else trim currentModelMapping \<noteq> trim initialModelMapping)"

definition findMissingModelsInMapping :: "jsstr \<Rightarrow> jsstr list \<Rightarrow> jsstr list" where
  "findMissingModelsInMapping modelMapping currentModels =
     (if modelMapping = [] \<or> trim modelMapping = [] then []
      else case parse_plain_object modelMapping of
             None \<Rightarrow> []
           | Some ps \<Rightarrow>
               let modelSet = set (map normalizeModelName currentModels)
               in dedup (filter (\<lambda>key. key \<noteq> [] \<and> key \<notin> modelSet)
                    (map (\<lambda>p. normalizeModelName (fst p)) ps)))"

record ValidationResult =
  valid :: bool
  error :: "jsstr option"

fun invalidMappingValue :: "json \<Rightarrow> bool" where
  "invalidMappingValue (JStr s) = False"
| "invalidMappingValue (JObj ps) =
     (case map_of ps (js ''target'') of Some (JStr s) \<Rightarrow> False | _ \<Rightarrow> True)"
| "invalidMappingValue _ = True"

definition validateModelMappingJson :: "jsstr \<Rightarrow> ValidationResult" where
  "validateModelMappingJson modelMapping =
     (if modelMapping = [] \<or> trim modelMapping = [] then \<lparr>valid = True, error = None\<rparr>
      else case json_parse modelMapping of
             None \<Rightarrow> \<lparr>valid = False, error = Some (js ''Model mapping must be valid JSON format'')\<rparr>
           | Some parsed \<Rightarrow>
               (case parsed of
                  JObj ps \<Rightarrow>
                    if list_ex (\<lambda>p. invalidMappingValue (snd p)) ps
                    then \<lparr>valid = False, error =
                      Some (js ''Model mapping values must be strings or {target, visible} objects'')\<rparr>
                    else \<lparr>valid = True, error = None\<rparr>
                | _ \<Rightarrow> \<lparr>valid = False,
                        error = Some (js ''Model mapping must be a valid JSON object'')\<rparr>))"

definition findExposedTargetModels :: "jsstr \<Rightarrow> jsstr list \<Rightarrow> jsstr list" where
  "findExposedTargetModels modelMapping currentModels =
     (let redirectModels = extractRedirectModels modelMapping
      in if redirectModels = [] then []
         else let modelSet = set (map normalizeModelName currentModels)
              in filter (\<lambda>model. normalizeModelName model \<in> modelSet) redirectModels)"

record ModelCategories =
  normalizedCurrentModels :: "jsstr list"
  normalizedRedirectModels :: "jsstr list"
  classificationSet :: "jsstr list"
  redirectOnlySet :: "jsstr list"

definition categorizeModelsWithRedirect :: "jsstr list \<Rightarrow> jsstr list \<Rightarrow> ModelCategories" where
  "categorizeModelsWithRedirect currentModels redirectModels =
     (let cur = dedup (filter (\<lambda>m. m \<noteq> []) (map normalizeModelName currentModels));
          red = dedup (filter (\<lambda>m. m \<noteq> []) (map normalizeModelName redirectModels))
      in \<lparr>normalizedCurrentModels = cur, normalizedRedirectModels = red,
          classificationSet = dedup (cur @ red),
          redirectOnlySet = dedup (filter (\<lambda>m. m \<notin> set cur) red)\<rparr>)"

section \<open>Lemmas\<close>

definition model_name :: "jsstr \<Rightarrow> bool" where
  "model_name m \<longleftrightarrow> m \<noteq> [] \<and> trimmed m \<and> 44 \<notin> set m"

lemma parseModelsString_names: "m \<in> set (parseModelsString s) \<Longrightarrow> model_name m"
proof -
  assume "m \<in> set (parseModelsString s)"
  then obtain w where w: "w \<in> set (split_char 44 s)" "m = trim w" "m \<noteq> []"
    by (auto simp: parseModelsString_def split: if_splits)
  then have "44 \<notin> set m" using set_trim [of w] split_char_no_sep by blast
  with w show ?thesis by (simp add: model_name_def)
qed

lemma map_trim_names: "\<forall>m \<in> set ms. model_name m \<Longrightarrow> map trim ms = ms"
  by (induction ms) (auto simp: model_name_def trim_trimmed)

lemma join_not_Nil: "ws \<noteq> [] \<Longrightarrow> \<forall>w \<in> set ws. w \<noteq> [] \<Longrightarrow> join sep ws \<noteq> []"
  by (induction sep ws rule: join.induct) auto

lemma parse_format_names:
  assumes "\<forall>m \<in> set ms. model_name m"
  shows "parseModelsString (formatModelsArray ms) = dedup ms"
proof (cases "ms = []")
  case True
  then show ?thesis by (simp add: parseModelsString_def formatModelsArray_def)
next
  case False
  have names: "\<forall>m \<in> set (dedup ms). model_name m" using assms by simp
  then have "split_char 44 (join [44] (dedup ms)) = dedup ms"
    using False by (intro split_join) (auto simp: model_name_def)
  moreover have "join [44] (dedup ms) \<noteq> []"
    using False names by (intro join_not_Nil) (auto simp: model_name_def)
  moreover have "filter (\<lambda>m. m \<noteq> []) (dedup ms) = dedup ms"
    using names by (intro filter_True) (auto simp: model_name_def)
  ultimately show ?thesis
    using map_trim_names [OF names] by (simp add: parseModelsString_def formatModelsArray_def)
qed

lemma list_differs_iff:
  "length xs = length ys \<Longrightarrow> list_ex (\<lambda>i. xs ! i \<noteq> ys ! i) [0..<length xs] \<longleftrightarrow> xs \<noteq> ys"
  using nth_equalityI [of xs ys] by (metis (full_types) atLeast_upt in_set_conv_nth length_upt
      lessThan_iff list_ex_iff)

lemma extractTarget_defined: "extractTargetFromValue v \<noteq> None \<longleftrightarrow> \<not> invalidMappingValue v"
  by (cases v) (auto split: option.splits json.splits)

lemma extractTarget_trimmed: "extractTargetFromValue v = Some t \<Longrightarrow> trim t = t"
  by (cases v) (auto split: option.splits json.splits)

lemma redirects_trimmed: "r \<in> set (extractRedirectModels mp) \<Longrightarrow> trim r = r \<and> r \<noteq> []"
proof -
  assume "r \<in> set (extractRedirectModels mp)"
  then have "r \<noteq> [] \<and> (\<exists>v. extractTargetFromValue v = Some r)"
    by (auto simp: extractRedirectModels_def Let_def List.map_filter_def
        split: if_splits option.splits)
  then show ?thesis using extractTarget_trimmed by blast
qed

section \<open>Properties\<close>

text \<open>
  The comma-separated text of a list of model names reads back as that list without its
  duplicates; in particular formatting what was parsed only removes duplicates.
\<close>

theorem models_text_roundtrip:
  "parseModelsString (formatModelsArray (parseModelsString s)) = dedup (parseModelsString s)
   \<and> distinct (parseModelsString (formatModelsArray (parseModelsString s)))"
  using parse_format_names [of "parseModelsString s"] parseModelsString_names by simp

text \<open>
  The models reported as missing are exactly the non-blank source models of the mapping
  that the channel does not list, and adding them leaves nothing missing.
\<close>

theorem missing_models_complete:
  "set (findMissingModelsInMapping mp models) =
     (case parse_plain_object mp of
        None \<Rightarrow> {}
      | Some ps \<Rightarrow> {trim k |k v. (k, v) \<in> set ps \<and> trim k \<noteq> []} - trim ` set models)
   \<and> findMissingModelsInMapping mp (models @ findMissingModelsInMapping mp models) = []"
proof (cases "parse_plain_object mp")
  case None
  then show ?thesis by (simp add: findMissingModelsInMapping_def)
next
  case (Some ps)
  have blank: "trim mp \<noteq> [] \<and> mp \<noteq> []"
  proof -
    have "parse_plain_object mp = None" if "trim mp = []"
      using that json_parse_blank by (simp add: trim_eq_Nil_iff parse_plain_object_def)
    with Some show ?thesis by force
  qed
  let ?keys = "map (\<lambda>p. trim (fst p)) ps"
  have m: "findMissingModelsInMapping mp ms =
      dedup (filter (\<lambda>key. key \<noteq> [] \<and> key \<notin> trim ` set ms) ?keys)" for ms
    using Some blank by (simp add: findMissingModelsInMapping_def normalizeModelName_def [abs_def])
  have "findMissingModelsInMapping mp (models @ findMissingModelsInMapping mp models) = []"
  proof -
    have "key = [] \<or> key \<in> trim ` set models \<or> key \<in> trim ` {k \<in> set ?keys. k \<noteq> [] \<and> k \<notin> trim ` set models}"
      if "key \<in> set ?keys" for key
      using that trim_idem by (auto simp: image_iff)
    then show ?thesis unfolding m by (simp add: filter_empty_conv image_Un)
  qed
  moreover have "set (findMissingModelsInMapping mp models) =
      {trim k |k v. (k, v) \<in> set ps \<and> trim k \<noteq> []} - trim ` set models"
    by (force simp: m)
  ultimately show ?thesis using Some by simp
qed


text \<open>
  The exposed targets are redirect targets that the channel also lists, and removing them
  from the list leaves no redirect target exposed.
\<close>

theorem exposed_targets_removable:
  "set (findExposedTargetModels mp models) = set (extractRedirectModels mp) \<inter> trim ` set models
   \<and> findExposedTargetModels mp
       (filter (\<lambda>m. normalizeModelName m \<notin> set (findExposedTargetModels mp models)) models) = []"
proof -
  have e: "findExposedTargetModels mp ms =
      filter (\<lambda>r. r \<in> trim ` set ms) (extractRedirectModels mp)" for ms
  proof -
    have "filter (\<lambda>r. trim r \<in> trim ` set ms) (extractRedirectModels mp) =
        filter (\<lambda>r. r \<in> trim ` set ms) (extractRedirectModels mp)"
      using redirects_trimmed by (intro filter_cong) auto
    then show ?thesis
      by (simp add: findExposedTargetModels_def Let_def normalizeModelName_def [abs_def])
  qed
  show ?thesis
    unfolding e by (auto simp: normalizeModelName_def filter_empty_conv)
qed

text \<open>
  The categories shown for a channel: the classification set is the union of the current
  and the redirect models, and it is split into the current models and the redirect-only ones.
\<close>

theorem categories_partition:
  "let c = categorizeModelsWithRedirect cur red in
     set (classificationSet c) = set (normalizedCurrentModels c) \<union> set (normalizedRedirectModels c)
     \<and> set (classificationSet c) = set (normalizedCurrentModels c) \<union> set (redirectOnlySet c)
     \<and> set (normalizedCurrentModels c) \<inter> set (redirectOnlySet c) = {}
     \<and> [] \<notin> set (classificationSet c) \<and> distinct (classificationSet c)"
  by (auto simp: categorizeModelsWithRedirect_def Let_def)

text \<open>
  While editing an existing channel, a change is reported exactly when the model list or
  the trimmed mapping text differs from the initial one.
\<close>

theorem config_changed_iff:
  assumes "initialModels \<noteq> [] \<or> initialMapping \<noteq> []"
  shows "hasModelConfigChanged curModels curMapping initialModels initialMapping \<longleftrightarrow>
    curModels \<noteq> initialModels \<or> trim curMapping \<noteq> trim initialMapping"
  using assms list_differs_iff [of curModels initialModels]
  by (auto simp: hasModelConfigChanged_def)

theorem config_changed_iff_witness:
  "\<not> hasModelConfigChanged [js ''gpt-4o''] (js '' {} '') [js ''gpt-4o''] (js ''{}'')"
proof -
  have "[js ''gpt-4o''] \<noteq> [] \<or> js ''{}'' \<noteq> []" by simp
  from config_changed_iff [OF this, of "[js ''gpt-4o'']" "js '' {} ''"]
  show ?thesis by (simp add: js_eval)
qed

end
