(* ===== verification/AuthStore.thy ===== *)
theory AuthStore
  imports JsJson
begin

text \<open>
  Component: \<open>stores/auth-store.ts\<close>, the signed-in user and its copy in \<open>localStorage\<close>, and
  the browser storage that the other stores share. The storage is a map from keys to texts.
  What \<open>JSON.parse\<close> restores is not checked against \<open>AuthUser\<close>, so the store holds a JSON
  value; \<open>None\<close> is \<open>null\<close>. The record \<open>AuthUser\<close> gives the documented shape for the
  components that read it.
\<close>

type_synonym local_storage = "jsstr \<rightharpoonup> jsstr"

record UserPermissions =
  sidebar_settings :: "bool option"
  sidebar_modules_perm :: "(jsstr \<times> json) list option"
  admin_permissions :: "(jsstr \<times> (jsstr \<times> bool) list) list option"

record AuthUser =
  user_id :: int
  username :: jsstr
  display_name :: "jsstr option"
  email :: "jsstr option"
  role :: int
  user_status :: "int option"
  user_group :: "jsstr option"
  quota :: "int option"
  used_quota :: "int option"
  request_count :: "int option"
  aff_code :: "jsstr option"
  aff_count :: "int option"
  aff_quota :: "int option"
  aff_history_quota :: "int option"
  inviter_id :: "int option"
  github_id :: "jsstr option"
  oidc_id :: "jsstr option"
  wechat_id :: "jsstr option"
  telegram_id :: "jsstr option"
  linux_do_id :: "jsstr option"
  avatar_url :: "jsstr option"
  user_setting :: "json option"
  stripe_customer :: "jsstr option"
  sidebar_modules :: "jsstr option"
  permissions :: "UserPermissions option"

section \<open>Operations\<close>

record AuthState =
  auth_user :: "json option"
  auth_storage :: local_storage

definition USER_KEY :: jsstr where
  "USER_KEY = js ''user''"

text \<open>
  Creating the store: a saved text is parsed; when it does not parse it is removed. The JSON
  text \<open>null\<close> restores \<open>null\<close>.
\<close>

definition createAuthStore :: "local_storage \<Rightarrow> AuthState" where
  "createAuthStore st =
     (case st USER_KEY of
        None \<Rightarrow> \<lparr>auth_user = None, auth_storage = st\<rparr>
      | Some saved \<Rightarrow>
          if saved = [] then \<lparr>auth_user = None, auth_storage = st\<rparr>
          else case json_parse saved of
                 Some JNull \<Rightarrow> \<lparr>auth_user = None, auth_storage = st\<rparr>
               | Some u \<Rightarrow> \<lparr>auth_user = Some u, auth_storage = st\<rparr>
               | None \<Rightarrow> \<lparr>auth_user = None, auth_storage = st(USER_KEY := None)\<rparr>)"

definition setUser :: "json option \<Rightarrow> AuthState \<Rightarrow> AuthState" where
  "setUser user state =
     (let st = (case user of
                  Some u \<Rightarrow> if json_truthy u then (auth_storage state)(USER_KEY \<mapsto> stringify u)
                           else (auth_storage state)(USER_KEY := None)
                | None \<Rightarrow> (auth_storage state)(USER_KEY := None))
      in state\<lparr>auth_user := user, auth_storage := st\<rparr>)"

definition reset :: "AuthState \<Rightarrow> AuthState" where
  "reset state = state\<lparr>auth_user := None, auth_storage := (auth_storage state)(USER_KEY := None)\<rparr>"

section \<open>Lemmas\<close>

lemma stringify_not_Nil [simp]: "stringify v \<noteq> []"
  using stringify_hd [of v] by auto

section \<open>Properties\<close>

text \<open>
  Signing in survives a reload: after \<open>setUser\<close> with a user object the store created
  from the same browser storage holds that user, and no other storage key has changed; after
  \<open>reset\<close> a reload finds nobody signed in.
\<close>

theorem auth_survives_reload:
  assumes "wf_json (JObj u)"
  shows "auth_user (createAuthStore (auth_storage (setUser (Some (JObj u)) state))) = Some (JObj u)
    \<and> auth_user (createAuthStore (auth_storage (reset (setUser (Some (JObj u)) state)))) = None
    \<and> (\<forall>k. k \<noteq> USER_KEY \<longrightarrow>
        auth_storage (setUser (Some (JObj u)) state) k = auth_storage state k)"
  using json_text.decode_encode [OF assms] stringify_not_Nil [of "JObj u"]
  by (simp add: createAuthStore_def setUser_def reset_def)

theorem auth_survives_reload_witness:
  "auth_user (createAuthStore (auth_storage
     (setUser (Some (JObj [(js ''id'', JNum 7), (js ''role'', JNum 10)]))
        \<lparr>auth_user = None, auth_storage = Map.empty\<rparr>))) =
   Some (JObj [(js ''id'', JNum 7), (js ''role'', JNum 10)])"
proof -
  have "obj_of [(js ''id'', JNum 7), (js ''role'', JNum 10)] =
      [(js ''id'', JNum 7), (js ''role'', JNum 10)]" by code_simp
  moreover have "decimal 7" "decimal 10" by (simp_all add: decimal_def)
  ultimately have "wf_json (JObj [(js ''id'', JNum 7), (js ''role'', JNum 10)])" by simp
  from auth_survives_reload [OF this, of "\<lparr>auth_user = None, auth_storage = Map.empty\<rparr>"]
  show ?thesis by blast
qed

text \<open>
  A stored text that is not JSON is removed when the store is created, so the next start
  finds no entry, and nobody is signed in.
\<close>

theorem auth_corrupt_cleared:
  assumes "st USER_KEY = Some saved" and "saved \<noteq> []" and "json_parse saved = None"
  shows "auth_user (createAuthStore st) = None
    \<and> auth_storage (createAuthStore st) = st(USER_KEY := None)
    \<and> createAuthStore (auth_storage (createAuthStore st)) = createAuthStore st"
  using assms by (simp add: createAuthStore_def)

theorem auth_corrupt_cleared_witness:
  "auth_storage (createAuthStore [USER_KEY \<mapsto> js ''{bad'']) = Map.empty"
proof -
  have "json_parse (js ''{bad'') = None" by code_simp
  with auth_corrupt_cleared [of "[USER_KEY \<mapsto> js ''{bad'']" "js ''{bad''"]
  show ?thesis by (simp add: fun_eq_iff)
qed

end
