(* ===== verification/AdminPermissions.thy ===== *)
theory AdminPermissions
  imports AuthStore
begin

text \<open>
  Component: \<open>lib/admin-permissions.ts\<close> and the role numbers of \<open>lib/roles.ts\<close>. The permission
  catalog comes from the backend. A matrix is a dictionary of dictionaries in property order.
\<close>

type_synonym AdminPermissionMatrix = "(jsstr \<times> (jsstr \<times> bool) list) list"

definition GUEST :: int where "GUEST = 0"
definition USER :: int where "USER = 1"
definition ADMIN :: int where "ADMIN = 10"
definition SUPER_ADMIN :: int where "SUPER_ADMIN = 100"

definition ADMIN_ROLE_KEY :: jsstr where
  "ADMIN_ROLE_KEY = js ''admin''"

record PermissionActionDef =
  act_action :: jsstr
  act_label_key :: jsstr
  act_description_key :: jsstr

record PermissionResourceDef =
  res_resource :: jsstr
  res_label_key :: jsstr
  res_actions :: "PermissionActionDef list"

record PermissionRoleDef =
  role_key :: jsstr
  role_name :: jsstr
  built_in :: bool
  superuser :: bool
  grants :: AdminPermissionMatrix

record PermissionCatalog =
  resources :: "PermissionResourceDef list"
  roles :: "PermissionRoleDef list"

definition EMPTY_PERMISSION_CATALOG :: PermissionCatalog where
  "EMPTY_PERMISSION_CATALOG = \<lparr>resources = [], roles = []\<rparr>"

section \<open>Operations\<close>

text \<open>\<open>m?.[resource]?.[action]\<close>\<close>

definition matrix_get :: "AdminPermissionMatrix \<Rightarrow> jsstr \<Rightarrow> jsstr \<Rightarrow> bool option" where
  "matrix_get m resource action =
     (case map_of m resource of None \<Rightarrow> None | Some actions \<Rightarrow> map_of actions action)"

definition hasPermission :: "AuthUser option \<Rightarrow> jsstr \<Rightarrow> jsstr \<Rightarrow> bool" where
  "hasPermission user resource action =
     (case user of
        None \<Rightarrow> False
      | Some u \<Rightarrow>
          if role u = SUPER_ADMIN then True
          else case permissions u of
                 None \<Rightarrow> False
               | Some p \<Rightarrow>
                   (case admin_permissions p of
                      None \<Rightarrow> False
                    | Some m \<Rightarrow> matrix_get m resource action = Some True))"

definition roleGrants :: "PermissionCatalog \<Rightarrow> jsstr \<Rightarrow> AdminPermissionMatrix" where
  "roleGrants catalog roleKey =
     (case List.find (\<lambda>r. role_key r = roleKey) (roles catalog) of
        Some r \<Rightarrow> grants r
      | None \<Rightarrow> [])"

text \<open>\<open>value?.[r]?.[a] ?? baseline[r]?.[a] ?? false\<close>\<close>

definition effectiveGrant ::
  "AdminPermissionMatrix option \<Rightarrow> AdminPermissionMatrix \<Rightarrow> jsstr \<Rightarrow> jsstr \<Rightarrow> bool" where
  "effectiveGrant val baseline resource action =
     (case Option.bind val (\<lambda>m. matrix_get m resource action) of
        Some b \<Rightarrow> b
      | None \<Rightarrow>
          (case matrix_get baseline resource action of Some b \<Rightarrow> b | None \<Rightarrow> False))"

definition resourceActions ::
  "AdminPermissionMatrix option \<Rightarrow> AdminPermissionMatrix \<Rightarrow> PermissionResourceDef
     \<Rightarrow> (jsstr \<times> bool) list" where
  "resourceActions val baseline resource =
     foldl (\<lambda>actions action.
         obj_set (act_action action)
           (effectiveGrant val baseline (res_resource resource) (act_action action)) actions)
       [] (res_actions resource)"

definition normalizeAdminPermissions ::
  "AdminPermissionMatrix option \<Rightarrow> PermissionCatalog \<Rightarrow> AdminPermissionMatrix" where
  "normalizeAdminPermissions val catalog =
     (let baseline = roleGrants catalog ADMIN_ROLE_KEY
      in foldl (\<lambda>normalized resource.
             obj_set (res_resource resource) (resourceActions val baseline resource) normalized)
           [] (resources catalog))"

section \<open>Lemmas\<close>

lemma find_rev_key: "(\<exists>x. List.find (\<lambda>x. f x = k) (rev xs) = Some x) \<longleftrightarrow> k \<in> f ` set xs"
proof -
  have "List.find (\<lambda>x. f x = k) (rev xs) = None \<longleftrightarrow> k \<notin> f ` set xs"
    by (auto simp: find_None_iff)
  then show ?thesis by (cases "List.find (\<lambda>x. f x = k) (rev xs)") simp_all
qed

lemma find_key: "List.find (\<lambda>x. f x = k) xs = Some x \<Longrightarrow> f x = k \<and> x \<in> set xs"
  by (auto simp: find_Some_iff)

lemma map_of_resourceActions:
  "map_of (resourceActions val baseline r) a =
     (if a \<in> act_action ` set (res_actions r)
      then Some (effectiveGrant val baseline (res_resource r) a) else None)"
proof -
  have "map_of (resourceActions val baseline r) a =
      (case List.find (\<lambda>x. act_action x = a) (rev (res_actions r)) of
         Some x \<Rightarrow> Some (effectiveGrant val baseline (res_resource r) (act_action x))
       | None \<Rightarrow> None)"
    by (simp add: resourceActions_def map_of_foldl_obj_set split: option.split)
  then show ?thesis
    using find_rev_key [of act_action a "res_actions r"]
    by (auto split: option.splits dest: find_key)
qed

lemma matrix_get_normalize:
  assumes "distinct (map res_resource (resources catalog))" and "r \<in> set (resources catalog)"
  shows "matrix_get (normalizeAdminPermissions val catalog) (res_resource r) a =
    (if a \<in> act_action ` set (res_actions r)
     then Some (effectiveGrant val (roleGrants catalog ADMIN_ROLE_KEY) (res_resource r) a) else None)"
proof -
  obtain x where x: "List.find (\<lambda>x. res_resource x = res_resource r) (rev (resources catalog)) = Some x"
    using assms(2) find_rev_key [of res_resource "res_resource r" "resources catalog"] by auto
  then have "x = r" using find_key [OF x] assms by (auto simp: distinct_map inj_on_def)
  with x have "map_of (normalizeAdminPermissions val catalog) (res_resource r) =
      Some (resourceActions val (roleGrants catalog ADMIN_ROLE_KEY) r)"
    by (simp add: normalizeAdminPermissions_def map_of_foldl_obj_set)
  then show ?thesis by (simp add: matrix_get_def map_of_resourceActions)
qed

section \<open>Properties\<close>

text \<open>
  The normalised matrix is total on the catalog and only on it: each resource and action
  of the catalog has a grant, the explicit value where there is one, otherwise the admin
  role's baseline, otherwise denied; nothing outside the catalog is granted.
\<close>

theorem normalized_matrix_total:
  assumes "distinct (map res_resource (resources catalog))" and "r \<in> set (resources catalog)"
  shows "matrix_get (normalizeAdminPermissions val catalog) (res_resource r) a =
    (if a \<in> act_action ` set (res_actions r)
     then Some (case Option.bind val (\<lambda>m. matrix_get m (res_resource r) a) of
                  Some b \<Rightarrow> b
                | None \<Rightarrow> matrix_get (roleGrants catalog ADMIN_ROLE_KEY) (res_resource r) a = Some True)
     else None)
    \<and> fst ` set (normalizeAdminPermissions val catalog) = res_resource ` set (resources catalog)"
proof -
  have "fst ` set (normalizeAdminPermissions val catalog) = res_resource ` set (resources catalog)"
    by (simp add: normalizeAdminPermissions_def keys_foldl_obj_set)
  then show ?thesis
    by (auto simp: matrix_get_normalize [OF assms] effectiveGrant_def split: option.splits)
qed

definition sample_catalog :: PermissionCatalog where
  "sample_catalog = \<lparr>resources = [\<lparr>res_resource = js ''channel'', res_label_key = [],
       res_actions = [\<lparr>act_action = js ''read'', act_label_key = [], act_description_key = []\<rparr>]\<rparr>],
     roles = [\<lparr>role_key = js ''admin'', role_name = js ''Admin'', built_in = True,
       superuser = False, grants = [(js ''channel'', [(js ''read'', True)])]\<rparr>]\<rparr>"

theorem normalized_matrix_total_witness:
  "matrix_get (normalizeAdminPermissions None sample_catalog) (js ''channel'') (js ''read'') = Some True"
proof -
  let ?r = "hd (resources sample_catalog)"
  have "distinct (map res_resource (resources sample_catalog))" "?r \<in> set (resources sample_catalog)"
    by (simp_all add: sample_catalog_def)
  from normalized_matrix_total [OF this, of None "js ''read''"] show ?thesis
    by (simp add: sample_catalog_def roleGrants_def ADMIN_ROLE_KEY_def matrix_get_def js_eval)
qed

text \<open>
  Nobody without an account has a permission, a super administrator has every one, and
  anybody else exactly those whose entry in the matrix sent by the backend is true.
\<close>

theorem permission_check:
  "\<not> hasPermission None resource action
   \<and> hasPermission (Some (u\<lparr>role := SUPER_ADMIN\<rparr>)) resource action
   \<and> (role u \<noteq> SUPER_ADMIN \<longrightarrow>
       hasPermission (Some u) resource action =
         (\<exists>p m. permissions u = Some p \<and> admin_permissions p = Some m
            \<and> matrix_get m resource action = Some True))"
  by (auto simp: hasPermission_def split: option.splits)

definition sample_user :: AuthUser where
  "sample_user = \<lparr>user_id = 3, username = js ''ann'', display_name = None, email = None,
     role = ADMIN, user_status = None, user_group = None, quota = None, used_quota = None,
     request_count = None, aff_code = None, aff_count = None, aff_quota = None,
     aff_history_quota = None, inviter_id = None, github_id = None, oidc_id = None,
     wechat_id = None, telegram_id = None, linux_do_id = None, avatar_url = None,
     user_setting = None, stripe_customer = None, sidebar_modules = None,
     permissions = Some \<lparr>sidebar_settings = None, sidebar_modules_perm = None,
       admin_permissions = Some [(js ''channel'', [(js ''read'', True), (js ''write'', False)])]\<rparr>\<rparr>"

theorem permission_check_witness:
  "hasPermission (Some sample_user) (js ''channel'') (js ''read'')
   \<and> \<not> hasPermission (Some sample_user) (js ''channel'') (js ''write'')"
proof -
  have r: "role sample_user \<noteq> SUPER_ADMIN" by (simp add: sample_user_def SUPER_ADMIN_def ADMIN_def)
  note p = permission_check [of "js ''channel''" _ sample_user]
  have "hasPermission (Some sample_user) (js ''channel'') (js ''read'')"
    using p [of "js ''read''"] r by (simp add: sample_user_def matrix_get_def js_eval)
  moreover have "\<not> hasPermission (Some sample_user) (js ''channel'') (js ''write'')"
    using p [of "js ''write''"] r by (simp add: sample_user_def matrix_get_def js_eval)
  ultimately show ?thesis by simp
qed

end
