(* ===== verification/SidebarConfig.thy ===== *)
theory SidebarConfig
  imports AuthStore
begin

text \<open>
  Component: \<open>hooks/use-sidebar-config.ts\<close> with the navigation types of
  \<open>components/layout/types.ts\<close>. The administrator's and the user's configuration are JSON texts;
  after \<open>JSON.parse\<close> nothing checks their shape, so a parsed configuration is a JSON value. The
  texts and the signed-in user, which the hooks read from their stores, are arguments here.
  The icon of an item, a React component that nothing here reads, is left out.
\<close>

section \<open>Data\<close>

text \<open>An administrator configuration after merging: a dictionary of sections.\<close>

type_synonym SidebarModulesAdminConfig = "(jsstr \<times> json) list"

text \<open>The user layer; \<open>None\<close> means that nothing is narrowed.\<close>

type_synonym SidebarModulesUserConfig = "json option"

record BaseNavItem =
  nav_title :: jsstr
  badge :: "jsstr option"
  activeUrls :: "jsstr list option"
  configUrls :: "jsstr list option"
  exact :: "bool option"
  requiredRole :: "int option"

datatype NavItem =
  NavCollapsible BaseNavItem (sub_items: "(BaseNavItem \<times> jsstr) list")
| NavLink BaseNavItem jsstr
| NavChatPresets BaseNavItem

record NavGroup =
  group_id :: "jsstr option"
  group_title :: jsstr
  group_items :: "NavItem list"

definition DEFAULT_SIDEBAR_MODULES :: "(jsstr \<times> (jsstr \<times> json) list) list" where
  "DEFAULT_SIDEBAR_MODULES =
    [(js ''chat'',
       [(js ''enabled'', JBool True), (js ''playground'', JBool True), (js ''chat'', JBool True)]),
     (js ''console'',
       [(js ''enabled'', JBool True), (js ''detail'', JBool True), (js ''token'', JBool True),
        (js ''log'', JBool True), (js ''midjourney'', JBool True), (js ''task'', JBool True)]),
     (js ''personal'',
       [(js ''enabled'', JBool True), (js ''topup'', JBool True), (js ''personal'', JBool True)]),
     (js ''admin'',
       [(js ''enabled'', JBool True), (js ''channel'', JBool True), (js ''models'', JBool True),
        (js ''redemption'', JBool True), (js ''user'', JBool True), (js ''setting'', JBool True),
        (js ''subscription'', JBool True)])]"

definition URL_TO_CONFIG_MAP :: "(jsstr \<times> jsstr \<times> jsstr) list" where
  "URL_TO_CONFIG_MAP =
    [(js ''/playground'', js ''chat'', js ''playground''),
     (js ''/dashboard'', js ''console'', js ''detail''),
     (js ''/dashboard/overview'', js ''console'', js ''detail''),
     (js ''/dashboard/models'', js ''console'', js ''detail''),
     (js ''/dashboard/users'', js ''console'', js ''detail''),
     (js ''/keys'', js ''console'', js ''token''),
     (js ''/usage-logs'', js ''console'', js ''log''),
     (js ''/usage-logs/common'', js ''console'', js ''log''),
     (js ''/usage-logs/drawing'', js ''console'', js ''midjourney''),
     (js ''/usage-logs/task'', js ''console'', js ''task''),
     (js ''/wallet'', js ''personal'', js ''topup''),
     (js ''/billing-history'', js ''personal'', js ''topup''),
     (js ''/subscriptions/purchase'', js ''personal'', js ''topup''),
     (js ''/profile'', js ''personal'', js ''personal''),
     (js ''/channels'', js ''admin'', js ''channel''),
     (js ''/models'', js ''admin'', js ''models''),
     (js ''/models/metadata'', js ''admin'', js ''models''),
     (js ''/models/deployments'', js ''admin'', js ''models''),
     (js ''/users'', js ''admin'', js ''user''),
     (js ''/redemption-codes'', js ''admin'', js ''redemption''),
     (js ''/subscriptions'', js ''admin'', js ''subscription''),
     (js ''/system-settings'', js ''admin'', js ''setting''),
     (js ''/system-settings/site'', js ''admin'', js ''setting'')]"

section \<open>Operations\<close>

text \<open>The inner loop of the merge: a module that is \<open>undefined\<close> gets its default.\<close>

definition fillModules :: "(jsstr \<times> json) list \<Rightarrow> (jsstr \<times> json) list \<Rightarrow> (jsstr \<times> json) list" where
  "fillModules defaultSection sec =
     foldl (\<lambda>s d. if map_of s (fst d) = None then obj_set (fst d) (snd d) s else s) sec defaultSection"

definition mergeSection :: "(jsstr \<times> json) list \<Rightarrow> jsstr \<times> (jsstr \<times> json) list
    \<Rightarrow> (jsstr \<times> json) list" where
  "mergeSection merged d =
     (case map_of merged (fst d) of
        Some existing \<Rightarrow>
          if json_truthy existing
          then obj_set (fst d) (JObj (fillModules (snd d) (obj_merge (snd d) (spread existing)))) merged
          else obj_set (fst d) (JObj (snd d)) merged
      | None \<Rightarrow> obj_set (fst d) (JObj (snd d)) merged)"

definition mergeWithDefaultSidebarModules :: "json \<Rightarrow> SidebarModulesAdminConfig" where
  "mergeWithDefaultSidebarModules config = foldl mergeSection (spread config) DEFAULT_SIDEBAR_MODULES"

definition defaultConfig :: SidebarModulesAdminConfig where
  "defaultConfig = map (\<lambda>d. (fst d, JObj (snd d))) DEFAULT_SIDEBAR_MODULES"

definition parseSidebarConfig :: "jsstr option \<Rightarrow> SidebarModulesAdminConfig" where
  "parseSidebarConfig val =
     (case val of
        None \<Rightarrow> defaultConfig
      | Some text \<Rightarrow>
          if trim text = [] then defaultConfig
          else case json_parse text of
                 Some parsed \<Rightarrow> mergeWithDefaultSidebarModules parsed
               | None \<Rightarrow> defaultConfig)"

definition is_object :: "json \<Rightarrow> bool" where
  "is_object j = (case j of JObj _ \<Rightarrow> True | JArr _ \<Rightarrow> True | _ \<Rightarrow> False)"

definition parseUserSidebarConfig :: "jsstr option \<Rightarrow> SidebarModulesUserConfig" where
  "parseUserSidebarConfig val =
     (case val of
        None \<Rightarrow> None
      | Some text \<Rightarrow>
          if trim text = [] then None
          else case json_parse text of
                 Some parsed \<Rightarrow> if is_object parsed then Some parsed else None
               | None \<Rightarrow> None)"

text \<open>
  The two layers for one section and module. \<open>isModuleEnabled\<close> and the chat presets branch of
  \<open>isNavItemVisible\<close> write the same tests out, the second with \<open>chat\<close> for both names.
\<close>

definition adminAllowed :: "SidebarModulesAdminConfig \<Rightarrow> jsstr \<Rightarrow> jsstr \<Rightarrow> bool" where
  "adminAllowed adminConfig sec modul =
     (case map_of adminConfig sec of
        None \<Rightarrow> False
      | Some s \<Rightarrow>
          json_truthy s
          \<and> (case json_get s (js ''enabled'') of Some e \<Rightarrow> json_truthy e | None \<Rightarrow> False)
          \<and> json_get s modul = Some (JBool True))"

definition userAllowed :: "SidebarModulesUserConfig \<Rightarrow> jsstr \<Rightarrow> jsstr \<Rightarrow> bool" where
  "userAllowed userConfig sec modul =
     (case userConfig of
        None \<Rightarrow> True
      | Some c \<Rightarrow>
          (case json_get c sec of
             None \<Rightarrow> True
           | Some s \<Rightarrow>
               if \<not> json_truthy s then True
               else if json_get s (js ''enabled'') = Some (JBool False) then False
               else json_get s modul \<noteq> Some (JBool False)))"

definition isModuleEnabled ::
  "jsstr \<Rightarrow> SidebarModulesAdminConfig \<Rightarrow> SidebarModulesUserConfig \<Rightarrow> bool" where
  "isModuleEnabled url adminConfig userConfig =
     (case map_of URL_TO_CONFIG_MAP url of
        None \<Rightarrow> True
      | Some (sec, modul) \<Rightarrow>
          if \<not> adminAllowed adminConfig sec modul then False
          else userAllowed userConfig sec modul)"

fun isNavItemVisible ::
  "NavItem \<Rightarrow> SidebarModulesAdminConfig \<Rightarrow> SidebarModulesUserConfig \<Rightarrow> bool" where
  "isNavItemVisible (NavChatPresets base) adminConfig userConfig =
     (if \<not> adminAllowed adminConfig (js ''chat'') (js ''chat'') then False
      else userAllowed userConfig (js ''chat'') (js ''chat''))"
| "isNavItemVisible (NavLink base url) adminConfig userConfig =
     (if url = [] then True
      else list_ex (\<lambda>u. isModuleEnabled u adminConfig userConfig)
             (case configUrls base of Some us \<Rightarrow> us | None \<Rightarrow> [url]))"
| "isNavItemVisible (NavCollapsible base its) adminConfig userConfig =
     list_ex (\<lambda>sub. isModuleEnabled (snd sub) adminConfig userConfig) its"

fun filterSubItems ::
  "SidebarModulesAdminConfig \<Rightarrow> SidebarModulesUserConfig \<Rightarrow> NavItem \<Rightarrow> NavItem" where
  "filterSubItems adminConfig userConfig (NavCollapsible base its) =
     NavCollapsible base (filter (\<lambda>sub. isModuleEnabled (snd sub) adminConfig userConfig) its)"
| "filterSubItems adminConfig userConfig item = item"

definition filterNavItems ::
  "NavItem list \<Rightarrow> SidebarModulesAdminConfig \<Rightarrow> SidebarModulesUserConfig \<Rightarrow> NavItem list" where
  "filterNavItems its adminConfig userConfig =
     filter (\<lambda>item. isNavItemVisible item adminConfig userConfig)
       (map (filterSubItems adminConfig userConfig) its)"

definition userLayer :: "AuthUser option \<Rightarrow> SidebarModulesUserConfig" where
  "userLayer user =
     (case user of
        None \<Rightarrow> parseUserSidebarConfig None
      | Some u \<Rightarrow>
          if Option.bind (permissions u) sidebar_settings = Some False then None
          else parseUserSidebarConfig (sidebar_modules u))"

definition useSidebarConfig ::
  "jsstr option \<Rightarrow> AuthUser option \<Rightarrow> NavGroup list \<Rightarrow> NavGroup list" where
  "useSidebarConfig adminText user navGroups =
     (let adminConfig = parseSidebarConfig adminText;
          userConfig = userLayer user
      in filter (\<lambda>group. length (group_items group) > 0)
           (map (\<lambda>group. group\<lparr>group_items :=
                  filterNavItems (group_items group) adminConfig userConfig\<rparr>) navGroups))"

definition useIsSidebarModuleVisible :: "jsstr option \<Rightarrow> AuthUser option \<Rightarrow> jsstr \<Rightarrow> bool" where
  "useIsSidebarModuleVisible adminText user url =
     isModuleEnabled url (parseSidebarConfig adminText) (userLayer user)"

section \<open>Lemmas\<close>

lemma module_narrow: "isModuleEnabled url a u \<Longrightarrow> isModuleEnabled url a None"
  by (auto simp: isModuleEnabled_def userAllowed_def split: option.splits if_splits)

lemma visible_narrow: "isNavItemVisible item a u \<Longrightarrow> isNavItemVisible item a None"
  by (cases item) (auto simp: list_ex_iff userAllowed_def split: if_splits intro: module_narrow)

lemma filterSubItems_idem [simp]:
  "filterSubItems a u (filterSubItems a u item) = filterSubItems a u item"
  by (cases item) simp_all

lemma filterNavItems_idem: "filterNavItems (filterNavItems its a u) a u = filterNavItems its a u"
  by (induction its) (simp_all add: filterNavItems_def)

text \<open>The order in which the two layers are applied does not matter: the user layer after the
  administrator layer gives what both at once give.\<close>

lemma filterSubItems_layers [simp]:
  "filterSubItems a u (filterSubItems a None item) = filterSubItems a u item"
proof (cases item)
  case (NavCollapsible base its)
  have "(\<lambda>x. isModuleEnabled (snd x) a None \<and> isModuleEnabled (snd x) a u) =
      (\<lambda>x :: BaseNavItem \<times> jsstr. isModuleEnabled (snd x) a u)"
    using module_narrow by (intro ext) blast
  then show ?thesis using NavCollapsible by (simp add: conj_commute)
qed simp_all

lemma visible_subItems:
  "isNavItemVisible (filterSubItems a u item) a u = isNavItemVisible item a u"
proof (cases item)
  case (NavCollapsible base its)
  then show ?thesis by (induction its arbitrary: item) auto
qed simp_all

lemma filterNavItems_layers:
  "filterNavItems (filterNavItems its a None) a u = filterNavItems its a u"
proof (induction its)
  case (Cons item its)
  have "isNavItemVisible (filterSubItems a u item) a u
      \<Longrightarrow> isNavItemVisible (filterSubItems a None item) a None"
    by (simp add: visible_subItems visible_narrow)
  with Cons show ?case by (auto simp: filterNavItems_def)
qed (simp add: filterNavItems_def)

text \<open>Merging with the defaults, section by section.\<close>

definition mergedSection :: "(jsstr \<times> json) list \<Rightarrow> json option \<Rightarrow> json" where
  "mergedSection d e =
     (case e of
        Some existing \<Rightarrow>
          if json_truthy existing then JObj (fillModules d (obj_merge d (spread existing))) else JObj d
      | None \<Rightarrow> JObj d)"

lemma map_of_mergeSection:
  "map_of (mergeSection merged d) k =
     (if k = fst d then Some (mergedSection (snd d) (map_of merged k)) else map_of merged k)"
  by (auto simp: mergeSection_def mergedSection_def objd.get_put split: option.split)

lemma map_of_foldl_mergeSection:
  "distinct (map fst ds) \<Longrightarrow> map_of (foldl mergeSection merged ds) k =
     (case map_of ds k of
        Some d \<Rightarrow> Some (mergedSection d (map_of merged k))
      | None \<Rightarrow> map_of merged k)"
proof (induction ds arbitrary: merged)
  case (Cons d ds)
  then have "k = fst d \<Longrightarrow> map_of ds k = None" by (simp add: map_of_eq_None_iff)
  with Cons show ?case by (auto simp: map_of_mergeSection split: option.split)
qed simp

lemma fillModules_id: "fst ` set d \<subseteq> fst ` set sec \<Longrightarrow> fillModules d sec = sec"
proof (induction d arbitrary: sec)
  case (Cons x d)
  then obtain y where "map_of sec (fst x) = Some y"
    by (cases "map_of sec (fst x)") (auto simp: map_of_eq_None_iff)
  with Cons show ?case by (simp add: fillModules_def)
qed (simp add: fillModules_def)

lemma keys_obj_merge: "fst ` set (obj_merge a b) = fst ` set a \<union> fst ` set b"
  by (simp add: obj_merge_def keys_foldl_obj_set)

lemma fill_merge: "fillModules d (obj_merge d e) = obj_merge d e"
  by (rule fillModules_id) (simp add: keys_obj_merge)

lemma index_entries_keys: "k \<in> fst ` set (index_entries i vs) \<Longrightarrow> is_number k"
  by (induction i vs rule: index_entries.induct) auto

lemma distinct_index_entries: "distinct (map fst (index_entries i vs))"
proof -
  have "k \<in> fst ` set (index_entries i vs) \<Longrightarrow> i \<le> digits_val k" for k i vs
    by (induction i vs rule: index_entries.induct) force+
  then have "nat_str i \<notin> fst ` set (index_entries (Suc i) vs)" for i vs
    by (metis digits_val_nat_str not_less_eq_eq order_refl)
  then show ?thesis by (induction i vs rule: index_entries.induct) auto
qed

text \<open>Reading a named field of a spread value is reading it of the value.\<close>

lemma map_of_spread:
  assumes "\<not> is_number k"
  shows "map_of (spread e) k = json_get e k"
proof -
  have "map_of (index_entries 0 vs) k = None" for vs
    using assms index_entries_keys by (auto simp: map_of_eq_None_iff)
  then show ?thesis by (cases e) (simp_all add: json_get_def)
qed

lemma distinct_spread: "wf_json e \<Longrightarrow> distinct (map fst (spread e))"
  by (cases e) (simp_all add: distinct_index_entries, metis obj_of_distinct)

lemma default_modules:
  "list_all (\<lambda>(url, sec, modul). \<not> is_number modul \<and>
     (case map_of DEFAULT_SIDEBAR_MODULES sec of
        None \<Rightarrow> False
      | Some d \<Rightarrow> map_of d modul = Some (JBool True)
          \<and> map_of d (js ''enabled'') = Some (JBool True))) URL_TO_CONFIG_MAP
   \<and> distinct (map fst DEFAULT_SIDEBAR_MODULES) \<and> \<not> is_number (js ''enabled'')
   \<and> \<not> is_number (js ''chat'')"
  by code_simp

lemma default_module:
  assumes "map_of URL_TO_CONFIG_MAP url = Some (sec, modul)"
  obtains d where "map_of DEFAULT_SIDEBAR_MODULES sec = Some d" "map_of d modul = Some (JBool True)"
    "map_of d (js ''enabled'') = Some (JBool True)" "\<not> is_number modul"
  using default_modules map_of_SomeD [OF assms]
  by (fastforce simp: list_all_iff split: option.splits)

text \<open>What a section of a configuration says about a module, absent entries meaning yes.\<close>

definition section_allows :: "json option \<Rightarrow> jsstr \<Rightarrow> bool" where
  "section_allows sec modul =
     (case sec of
        None \<Rightarrow> True
      | Some s \<Rightarrow> json_truthy s \<longrightarrow>
          (\<forall>e. json_get s (js ''enabled'') = Some e \<longrightarrow> json_truthy e)
          \<and> (\<forall>v. json_get s modul = Some v \<longrightarrow> v = JBool True))"

lemma adminAllowed_merged:
  assumes "map_of URL_TO_CONFIG_MAP url = Some (sec, modul)"
    and "\<And>e. map_of (spread config) sec = Some e \<Longrightarrow> wf_json e"
  shows "adminAllowed (mergeWithDefaultSidebarModules config) sec modul =
    section_allows (map_of (spread config) sec) modul"
proof -
  from default_module [OF assms(1)] obtain d where d:
    "map_of DEFAULT_SIDEBAR_MODULES sec = Some d" "map_of d modul = Some (JBool True)"
    "map_of d (js ''enabled'') = Some (JBool True)" "\<not> is_number modul" .
  have m: "map_of (mergeWithDefaultSidebarModules config) sec =
      Some (mergedSection d (map_of (spread config) sec))"
    using default_modules d(1) by (simp add: mergeWithDefaultSidebarModules_def map_of_foldl_mergeSection)
  show ?thesis
  proof (cases "\<exists>e. map_of (spread config) sec = Some e \<and> json_truthy e")
    case True
    then obtain e where e: "map_of (spread config) sec = Some e" "json_truthy e" by blast
    have g: "map_of (obj_merge d (spread e)) k = (case json_get e k of Some v \<Rightarrow> Some v | None \<Rightarrow> map_of d k)"
      if "\<not> is_number k" for k
      using distinct_spread [OF assms(2) [OF e(1)]] that by (simp add: map_of_obj_merge map_of_spread)
    show ?thesis
      using e d g [of modul] g [of "js ''enabled''"] default_modules
      by (auto simp: adminAllowed_def m mergedSection_def fill_merge section_allows_def json_get_def
          split: option.splits)
  next
    case False
    then show ?thesis
      using d by (auto simp: adminAllowed_def m mergedSection_def section_allows_def json_get_def
          split: option.splits)
  qed
qed

lemma defaultConfig_allows:
  assumes "map_of URL_TO_CONFIG_MAP url = Some (sec, modul)"
  shows "adminAllowed defaultConfig sec modul"
proof -
  from default_module [OF assms] obtain d where d:
    "map_of DEFAULT_SIDEBAR_MODULES sec = Some d" "map_of d modul = Some (JBool True)"
    "map_of d (js ''enabled'') = Some (JBool True)" .
  have "map_of defaultConfig sec = Some (JObj d)"
    using d(1) by (simp add: defaultConfig_def map_of_map [unfolded case_prod_unfold] case_prod_unfold)
  with d show ?thesis by (simp add: adminAllowed_def json_get_def)
qed

section \<open>Properties\<close>

text \<open>
  The administrator's layer is exact: for a saved configuration object, a mapped route is
  open to everybody just when its section is missing, or is neither disabled nor lists
  the module with anything but true. A text that is blank or not JSON opens every route.
\<close>

theorem sidebar_admin_exact:
  assumes "map_of URL_TO_CONFIG_MAP url = Some (sec, modul)" and "wf_json (JObj config)"
    and "json_parse bad = None"
  shows "isModuleEnabled url (parseSidebarConfig (Some (stringify (JObj config)))) None =
      section_allows (map_of config sec) modul
    \<and> isModuleEnabled url (parseSidebarConfig (Some bad)) None
    \<and> isModuleEnabled url (parseSidebarConfig None) None"
proof -
  have p: "json_parse (stringify (JObj config)) = Some (JObj config)"
    using assms(2) by (rule json_text.decode_encode)
  have t: "trim (stringify (JObj config)) \<noteq> []"
    using p json_parse_blank [of "stringify (JObj config)"] by (auto simp: trim_eq_Nil_iff)
  have w: "wf_json e" if "map_of (spread (JObj config)) sec = Some e" for e
    using that assms(2) map_of_SomeD by fastforce
  show ?thesis
    using p t assms(1,3) adminAllowed_merged [of url sec modul "JObj config", OF assms(1) w] defaultConfig_allows [OF assms(1)]
    by (simp add: isModuleEnabled_def parseSidebarConfig_def userAllowed_def)
qed

theorem sidebar_admin_exact_witness:
  "\<not> isModuleEnabled (js ''/keys'') (parseSidebarConfig (Some (stringify (JObj
      [(js ''console'', JObj [(js ''token'', JBool False)])])))) None"
proof -
  let ?c = "[(js ''console'', JObj [(js ''token'', JBool False)])]"
  have "map_of URL_TO_CONFIG_MAP (js ''/keys'') = Some (js ''console'', js ''token'')" by code_simp
  moreover have "wf_json (JObj ?c)" by code_simp
  moreover have "json_parse (js ''{'') = None" by code_simp
  moreover have "\<not> section_allows (map_of ?c (js ''console'')) (js ''token'')"
    by (simp add: section_allows_def json_get_def)
  ultimately show ?thesis
    using sidebar_admin_exact [of "js ''/keys''" "js ''console''" "js ''token''" ?c "js ''{''"] by blast
qed

text \<open>
  C36. The user's layer only narrows: filtering with both layers at once is filtering with the
  administrator's layer first and with both afterwards, so no user setting shows an item, a
  sub-item or a route that the administrator hid; filtering twice changes nothing; and no
  group is shown without items.
\<close>

theorem sidebar_user_only_narrows:
  "filterNavItems (filterNavItems its a None) a u = filterNavItems its a u
   \<and> filterNavItems (filterNavItems its a u) a u = filterNavItems its a u
   \<and> (isModuleEnabled url a u \<longrightarrow> isModuleEnabled url a None)
   \<and> useSidebarConfig adminText user (useSidebarConfig adminText user groups)
       = useSidebarConfig adminText user groups
   \<and> (\<forall>g \<in> set (useSidebarConfig adminText user groups). group_items g \<noteq> [])"
proof -
  have "useSidebarConfig adminText user (useSidebarConfig adminText user groups)
      = useSidebarConfig adminText user groups"
    by (induction groups) (simp_all add: useSidebarConfig_def Let_def filterNavItems_idem)
  then show ?thesis
    using module_narrow [of url a u]
    by (auto simp: filterNavItems_layers filterNavItems_idem useSidebarConfig_def Let_def)
qed

theorem sidebar_user_only_narrows_witness:
  "isModuleEnabled (js ''/keys'') defaultConfig None
   \<and> filterNavItems [NavLink \<lparr>nav_title = js ''Keys'', badge = None, activeUrls = None,
        configUrls = None, exact = None, requiredRole = None\<rparr> (js ''/keys'')] [] None = []"
proof -
  have "isModuleEnabled (js ''/keys'') defaultConfig (Some (JObj []))" by code_simp
  then have "isModuleEnabled (js ''/keys'') defaultConfig None"
    using sidebar_user_only_narrows [of "[]" defaultConfig "Some (JObj [])" "js ''/keys''" None None "[]"]
    by blast
  then show ?thesis by code_simp
qed

end
