(* ===== verification/NavModules.thy ===== *)
theory NavModules
  imports SidebarConfig
begin

text \<open>
  Component: \<open>lib/nav-modules.ts\<close>, which modules the header shows and which of them need a
  signed-in user. The setting is a JSON object or a JSON text of one, of any shape. The status
  request of \<open>getFreshModuleAccess\<close> is an argument: \<open>None\<close> when it throws.
\<close>

record ModuleAccess =
  acc_enabled :: bool
  acc_requireAuth :: bool

datatype HeaderNavModule = Rankings | Pricing

fun moduleKey :: "HeaderNavModule \<Rightarrow> jsstr" where
  "moduleKey Rankings = js ''rankings''"
| "moduleKey Pricing = js ''pricing''"

datatype NavValue = NavBool bool | NavAccess ModuleAccess

type_synonym HeaderNavModules = "(jsstr \<times> NavValue) list"

definition DEFAULT_ACCESS :: ModuleAccess where
  "DEFAULT_ACCESS = \<lparr>acc_enabled = True, acc_requireAuth = False\<rparr>"

definition DEFAULT_HEADER_NAV_MODULES :: HeaderNavModules where
  "DEFAULT_HEADER_NAV_MODULES =
    [(js ''home'', NavBool True), (js ''console'', NavBool True),
     (js ''pricing'', NavAccess DEFAULT_ACCESS), (js ''rankings'', NavAccess DEFAULT_ACCESS),
     (js ''docs'', NavBool True), (js ''about'', NavBool True)]"

definition DEFAULTS :: "HeaderNavModule \<Rightarrow> ModuleAccess" where
  "DEFAULTS modul = DEFAULT_ACCESS"

definition cloneHeaderNavDefaults :: HeaderNavModules where
  "cloneHeaderNavDefaults = DEFAULT_HEADER_NAV_MODULES"

section \<open>Operations\<close>

definition parseHeaderNavBoolean :: "json option \<Rightarrow> bool \<Rightarrow> bool" where
  "parseHeaderNavBoolean raw fallback =
     (case raw of
        Some (JBool b) \<Rightarrow> b
      | Some (JNum n) \<Rightarrow> if n = 1 then True else if n = 0 then False else fallback
      | Some (JStr s) \<Rightarrow>
          (let normalized = to_lower (trim s)
           in if normalized = js ''true'' \<or> normalized = js ''1'' then True
              else if normalized = js ''false'' \<or> normalized = js ''0'' then False
              else fallback)
      | _ \<Rightarrow> fallback)"

definition is_primitive :: "json \<Rightarrow> bool" where
  "is_primitive j = (case j of JBool _ \<Rightarrow> True | JNum _ \<Rightarrow> True | JStr _ \<Rightarrow> True | _ \<Rightarrow> False)"

definition parseAccess :: "json \<Rightarrow> ModuleAccess \<Rightarrow> ModuleAccess" where
  "parseAccess raw fallback =
     (if is_primitive raw
      then \<lparr>acc_enabled = parseHeaderNavBoolean (Some raw) (acc_enabled fallback),
            acc_requireAuth = acc_requireAuth fallback\<rparr>
      else if is_object raw
      then \<lparr>acc_enabled = parseHeaderNavBoolean (json_get raw (js ''enabled'')) (acc_enabled fallback),
            acc_requireAuth =
              parseHeaderNavBoolean (json_get raw (js ''requireAuth'')) (acc_requireAuth fallback)\<rparr>
      else fallback)"

definition parseHeaderNavRecord :: "json option \<Rightarrow> json option" where
  "parseHeaderNavRecord raw =
     (case raw of
        None \<Rightarrow> None
      | Some r \<Rightarrow>
          if \<not> json_truthy r \<or> trim (json_to_string r) = [] then None
          else if is_object r then Some r
          else json_parse (json_to_string r))"

text \<open>\<open>result.pricing\<close> and \<open>result.rankings\<close>, which the type declares to be access records.\<close>

definition nav_access :: "HeaderNavModules \<Rightarrow> jsstr \<Rightarrow> ModuleAccess option" where
  "nav_access nav k = (case map_of nav k of Some (NavAccess a) \<Rightarrow> Some a | _ \<Rightarrow> None)"

definition navEntry :: "HeaderNavModules \<Rightarrow> jsstr \<times> json \<Rightarrow> HeaderNavModules" where
  "navEntry nav kv =
     (case kv of (k, val) \<Rightarrow>
        if k = js ''pricing'' \<or> k = js ''rankings''
        then (case nav_access nav k of
                Some a \<Rightarrow> obj_set k (NavAccess (parseAccess val a)) nav
              | None \<Rightarrow> nav)
        else (case map_of nav k of
                Some (NavBool fallback) \<Rightarrow>
                  obj_set k (NavBool (parseHeaderNavBoolean (Some val) fallback)) nav
              | _ \<Rightarrow>
                  if is_primitive val
                  then obj_set k (NavBool (parseHeaderNavBoolean (Some val) True)) nav
                  else nav))"

definition parseHeaderNavModules :: "json option \<Rightarrow> HeaderNavModules" where
  "parseHeaderNavModules raw =
     (case parseHeaderNavRecord raw of
        None \<Rightarrow> cloneHeaderNavDefaults
      | Some parsed \<Rightarrow>
          if \<not> json_truthy parsed then cloneHeaderNavDefaults
          else foldl navEntry cloneHeaderNavDefaults (spread parsed))"

definition parseHeaderNavModulesFromStatus :: "json option \<Rightarrow> HeaderNavModules" where
  "parseHeaderNavModulesFromStatus status =
     parseHeaderNavModules (Option.bind status (\<lambda>s. json_get s (js ''HeaderNavModules'')))"

definition STATUS_KEY :: jsstr where
  "STATUS_KEY = js ''status''"

definition getCachedStatus :: "local_storage \<Rightarrow> json option" where
  "getCachedStatus st =
     (case st STATUS_KEY of
        None \<Rightarrow> None
      | Some raw \<Rightarrow> if raw = [] then None else json_parse raw)"

definition cacheStatus :: "json \<Rightarrow> local_storage \<Rightarrow> local_storage" where
  "cacheStatus status st =
     (if json_truthy status then st(STATUS_KEY \<mapsto> stringify status) else st)"

definition getModuleAccessFromStatus :: "json option \<Rightarrow> HeaderNavModule \<Rightarrow> ModuleAccess" where
  "getModuleAccessFromStatus status modul =
     (case nav_access (parseHeaderNavModulesFromStatus status) (moduleKey modul) of
        Some a \<Rightarrow> a
      | None \<Rightarrow> DEFAULTS modul)"

definition getModuleAccess :: "local_storage \<Rightarrow> HeaderNavModule \<Rightarrow> ModuleAccess" where
  "getModuleAccess st modul = getModuleAccessFromStatus (getCachedStatus st) modul"

definition getFreshModuleAccess ::
  "json option \<Rightarrow> HeaderNavModule \<Rightarrow> local_storage \<Rightarrow> ModuleAccess \<times> local_storage" where
  "getFreshModuleAccess getStatus modul st =
     (case getStatus of
        Some status \<Rightarrow> (getModuleAccessFromStatus (Some status) modul, cacheStatus status st)
      | None \<Rightarrow> (\<lparr>acc_enabled = False, acc_requireAuth = True\<rparr>, st))"

definition isSidebarModuleEnabled :: "local_storage \<Rightarrow> jsstr \<Rightarrow> jsstr \<Rightarrow> bool" where
  "isSidebarModuleEnabled st sec modul =
     (case getCachedStatus st of
        None \<Rightarrow> True
      | Some status \<Rightarrow>
          if \<not> json_truthy status then True
          else case json_get status (js ''SidebarModulesAdmin'') of
                 None \<Rightarrow> True
               | Some raw \<Rightarrow>
                   if \<not> json_truthy raw \<or> trim (json_to_string raw) = [] then True
                   else case json_parse (json_to_string raw) of
                          None \<Rightarrow> True
                        | Some parsed \<Rightarrow>
                            (case map_of (spread parsed) sec of
                               None \<Rightarrow> True
                             | Some sectionConfig \<Rightarrow>
                                 if \<not> json_truthy sectionConfig then True
                                 else if json_get sectionConfig (js ''enabled'') = Some (JBool False)
                                 then False
                                 else map_of (spread sectionConfig) modul \<noteq> Some (JBool False)))"

section \<open>Lemmas\<close>

text \<open>The value one entry stores: only its own key changes.\<close>

definition navStore :: "jsstr \<Rightarrow> json \<Rightarrow> NavValue option \<Rightarrow> NavValue option" where
  "navStore k val old =
     (if k = js ''pricing'' \<or> k = js ''rankings''
      then (case old of Some (NavAccess a) \<Rightarrow> Some (NavAccess (parseAccess val a)) | _ \<Rightarrow> old)
      else (case old of
              Some (NavBool fallback) \<Rightarrow> Some (NavBool (parseHeaderNavBoolean (Some val) fallback))
            | _ \<Rightarrow> if is_primitive val then Some (NavBool (parseHeaderNavBoolean (Some val) True))
                   else old))"

lemma map_of_navEntry:
  "map_of (navEntry nav (k, val)) k' =
     (if k' = k then navStore k val (map_of nav k) else map_of nav k')"
  by (auto simp: navEntry_def navStore_def nav_access_def objd.get_put
      split: option.splits NavValue.splits)

lemma map_of_foldl_navEntry:
  "distinct (map fst es) \<Longrightarrow> map_of (foldl navEntry nav es) k =
     (case map_of es k of Some v \<Rightarrow> navStore k v (map_of nav k) | None \<Rightarrow> map_of nav k)"
proof (induction es arbitrary: nav)
  case (Cons e es)
  obtain k' v where e: "e = (k', v)" by fastforce
  with Cons.prems have "k = k' \<Longrightarrow> map_of es k = None" by (auto simp: map_of_eq_None_iff)
  then show ?case using Cons e by (auto simp: map_of_navEntry split: option.split)
qed simp

text \<open>
  The shape \<open>HeaderNavModules\<close> declares: two access records, four switches, and anything
  else a switch.
\<close>

definition nav_shape :: "HeaderNavModules \<Rightarrow> bool" where
  "nav_shape nav \<longleftrightarrow>
     (\<forall>k \<in> {js ''pricing'', js ''rankings''}. \<exists>a. map_of nav k = Some (NavAccess a))
   \<and> (\<forall>k \<in> {js ''home'', js ''console'', js ''docs'', js ''about''}. \<exists>b. map_of nav k = Some (NavBool b))
   \<and> (\<forall>k v. k \<notin> {js ''pricing'', js ''rankings''} \<longrightarrow> map_of nav k = Some v \<longrightarrow> (\<exists>b. v = NavBool b))"

lemma nav_shape_defaults: "nav_shape cloneHeaderNavDefaults"
  by (simp add: nav_shape_def cloneHeaderNavDefaults_def DEFAULT_HEADER_NAV_MODULES_def js_eval) blast

lemma nav_names_differ:
  "js ''pricing'' \<noteq> js ''home''" "js ''pricing'' \<noteq> js ''console''" "js ''pricing'' \<noteq> js ''docs''"
  "js ''pricing'' \<noteq> js ''about''" "js ''rankings'' \<noteq> js ''home''" "js ''rankings'' \<noteq> js ''console''"
  "js ''rankings'' \<noteq> js ''docs''" "js ''rankings'' \<noteq> js ''about''" "js ''pricing'' \<noteq> js ''rankings''"
  by (simp_all add: js_eval)

lemma nav_shape_navEntry:
  assumes "nav_shape nav"
  shows "nav_shape (navEntry nav (k, val))"
proof -
  have a: "\<exists>a. map_of (navEntry nav (k, val)) k' = Some (NavAccess a)"
    if "k' \<in> {js ''pricing'', js ''rankings''}" for k'
  proof -
    from assms that obtain a where "map_of nav k' = Some (NavAccess a)" unfolding nav_shape_def by blast
    with that show ?thesis by (auto simp: map_of_navEntry navStore_def)
  qed
  have b: "\<exists>b. map_of (navEntry nav (k, val)) k' = Some (NavBool b)"
    if k': "k' \<in> {js ''home'', js ''console'', js ''docs'', js ''about''}" for k'
  proof -
    from assms k' obtain b where "map_of nav k' = Some (NavBool b)" unfolding nav_shape_def by blast
    moreover from k' have "k' \<noteq> js ''pricing''" "k' \<noteq> js ''rankings''" using nav_names_differ by auto
    ultimately show ?thesis by (auto simp: map_of_navEntry navStore_def)
  qed
  have c: "\<exists>b. v = NavBool b"
    if "k' \<notin> {js ''pricing'', js ''rankings''}" "map_of (navEntry nav (k, val)) k' = Some v" for k' v
  proof (cases "k' = k")
    case True
    with that assms show ?thesis
      by (auto simp: map_of_navEntry navStore_def nav_shape_def split: option.splits NavValue.splits if_splits)
  next
    case False
    with that assms show ?thesis by (auto simp: map_of_navEntry nav_shape_def)
  qed
  show ?thesis using a b c unfolding nav_shape_def by blast
qed

lemma nav_shape_parse: "nav_shape (parseHeaderNavModules raw)"
proof -
  have "nav_shape (foldl navEntry nav es)" if "nav_shape nav" for nav es
    using that
  proof (induction es arbitrary: nav)
    case (Cons e es)
    then show ?case using nav_shape_navEntry [of nav "fst e" "snd e"] by simp
  qed simp
  then show ?thesis
    by (simp add: parseHeaderNavModules_def nav_shape_defaults split: option.split)
qed

lemma default_access:
  "map_of cloneHeaderNavDefaults (moduleKey modul) = Some (NavAccess DEFAULT_ACCESS)"
  by (cases modul)
    (simp_all add: cloneHeaderNavDefaults_def DEFAULT_HEADER_NAV_MODULES_def js_eval)

lemma moduleKey_cases: "moduleKey modul = js ''pricing'' \<or> moduleKey modul = js ''rankings''"
  by (cases modul) simp_all

lemma trim_object: "trim (json_to_string (JObj ps)) \<noteq> []"
  by (simp add: js_eval)

lemma trim_stringify: "wf_json v \<Longrightarrow> trim (stringify v) \<noteq> []"
  using json_parse_blank [of "stringify v"] json_text.decode_encode [of v]
  by (auto simp: trim_eq_Nil_iff)

section \<open>Properties\<close>

text \<open>
  C37. Whatever the setting holds, the parsed header has its declared shape: \<open>pricing\<close> and
  \<open>rankings\<close> are access records, \<open>home\<close>, \<open>console\<close>, \<open>docs\<close> and \<open>about\<close> are present as
  switches, and every further key is a switch.
\<close>

theorem header_nav_shape: "nav_shape (parseHeaderNavModulesFromStatus status)"
  by (simp add: parseHeaderNavModulesFromStatus_def nav_shape_parse)

text \<open>
  The access rule of \<open>pricing\<close> and \<open>rankings\<close> is exact, and it is the same whether the
  setting is sent as an object or as its JSON text: the default when the object has no such
  entry, otherwise the entry read over the default.
\<close>

theorem header_nav_access_exact:
  assumes "wf_json (JObj nav)"
    and "raw = JObj nav \<or> raw = JStr (stringify (JObj nav))"
  shows "getModuleAccessFromStatus (Some (JObj [(js ''HeaderNavModules'', raw)])) modul =
    (case map_of nav (moduleKey modul) of
       None \<Rightarrow> DEFAULT_ACCESS
     | Some v \<Rightarrow> parseAccess v DEFAULT_ACCESS)"
proof -
  have "parseHeaderNavRecord (Some raw) = Some (JObj nav)"
    using assms(2) trim_object [of nav] trim_stringify [OF assms(1)] json_text.decode_encode [OF assms(1)]
    by (auto simp: parseHeaderNavRecord_def is_object_def)
  then have "map_of (parseHeaderNavModules (Some raw)) (moduleKey modul) =
      (case map_of nav (moduleKey modul) of
         Some v \<Rightarrow> Some (NavAccess (parseAccess v DEFAULT_ACCESS))
       | None \<Rightarrow> Some (NavAccess DEFAULT_ACCESS))"
    using distinct_spread [OF assms(1)] moduleKey_cases [of modul]
    by (auto simp: parseHeaderNavModules_def map_of_foldl_navEntry default_access navStore_def
        split: option.split)
  then show ?thesis
    by (auto simp: getModuleAccessFromStatus_def parseHeaderNavModulesFromStatus_def json_get_def
        nav_access_def split: option.splits)
qed

theorem header_nav_access_exact_witness:
  "acc_enabled (getModuleAccessFromStatus (Some (JObj [(js ''HeaderNavModules'',
      JStr (stringify (JObj [(js ''pricing'', JStr (js '' False''))])))])) Pricing) = False"
proof -
  let ?nav = "[(js ''pricing'', JStr (js '' False''))]"
  have "wf_json (JObj ?nav)" by code_simp
  from header_nav_access_exact [OF this, of "JStr (stringify (JObj ?nav))" Pricing]
  show ?thesis
    by (simp add: parseAccess_def is_primitive_def parseHeaderNavBoolean_def js_eval)
qed

text \<open>
  A route guard that cannot reach the backend fails closed and leaves the cache alone;
  one that can decides by the fresh status, and the next decision from the cache is the same.
\<close>

theorem fresh_access_cached:
  assumes "wf_json (JObj status)"
  shows "getFreshModuleAccess None modul st = (\<lparr>acc_enabled = False, acc_requireAuth = True\<rparr>, st)
    \<and> getModuleAccess (snd (getFreshModuleAccess (Some (JObj status)) modul st)) modul =
        fst (getFreshModuleAccess (Some (JObj status)) modul st)"
  using json_text.decode_encode [OF assms]
  by (simp add: getFreshModuleAccess_def getModuleAccess_def getCachedStatus_def cacheStatus_def)

theorem fresh_access_cached_witness:
  "getModuleAccess (snd (getFreshModuleAccess (Some (JObj [])) Pricing Map.empty)) Pricing =
     DEFAULT_ACCESS"
proof -
  have "wf_json (JObj [])" by code_simp
  moreover have "getModuleAccessFromStatus (Some (JObj [])) Pricing = DEFAULT_ACCESS" by code_simp
  ultimately show ?thesis
    using fresh_access_cached [of "[]" Pricing Map.empty]
    by (simp add: getFreshModuleAccess_def)
qed

end
