(* ===== verification/PgMessage.thy ===== *)
theory PgMessage
  imports JsJson
begin

text \<open>
  The playground's messages: the types of \<open>features/playground/types.ts\<close>, the constants of
  \<open>constants.ts\<close>, and \<open>lib/message/message-utils.ts\<close>, \<open>message-timing-utils.ts\<close>,
  \<open>message-update-utils.ts\<close> and \<open>conversation-message-utils.ts\<close>.

  \<open>Date.now()\<close> and \<open>nanoid()\<close> are read through arguments: a \<open>clock\<close> gives the readings of one
  call in order and \<open>idgen\<close> the identifiers in order; nothing is assumed of either. Numbers that
  come back from the browser storage may be fractional, so a time is a rational number.
\<close>

type_synonym clock = "nat \<Rightarrow> rat"
type_synonym idgen = "nat \<Rightarrow> jsstr"

section \<open>Data\<close>

datatype MessageRole = RoleUser | RoleAssistant | RoleSystem

datatype MessageStatus = Loading | Streaming | Complete | StatusError

datatype PlaygroundMessageLayoutMode = Alternating | LeftMode

record MessageVersion =
  version_id :: jsstr
  version_content :: jsstr

record Reasoning =
  rs_content :: jsstr
  rs_duration :: rat
  rs_startedAt :: "rat option"
  rs_completedAt :: "rat option"
  rs_durationMs :: "rat option"

record MessageSource =
  href :: jsstr
  source_title :: jsstr

text \<open>
  An absent property is \<open>None\<close>; \<open>errorCode\<close> is \<open>Some None\<close> when it is \<open>null\<close>.
\<close>

record Message =
  msg_key :: jsstr
  msg_from :: MessageRole
  versions :: "MessageVersion list"
  createdAt :: "rat option"
  startedAt :: "rat option"
  completedAt :: "rat option"
  durationMs :: "rat option"
  sources :: "MessageSource list option"
  reasoning :: "Reasoning option"
  isReasoningStreaming :: "bool option"
  isReasoningComplete :: "bool option"
  isContentComplete :: "bool option"
  msg_status :: "MessageStatus option"
  errorCode :: "jsstr option option"

definition API_REQUEST_ERROR :: jsstr where "API_REQUEST_ERROR = js ''Request error occurred''"
definition NETWORK_ERROR :: jsstr where
  "NETWORK_ERROR = js ''Network connection failed or server not responding''"
definition PARSE_ERROR :: jsstr where "PARSE_ERROR = js ''Error parsing response data''"
definition STREAM_START_ERROR :: jsstr where
  "STREAM_START_ERROR = js ''Error establishing connection''"
definition CONNECTION_CLOSED :: jsstr where "CONNECTION_CLOSED = js ''Connection closed''"
definition INTERRUPTED :: jsstr where "INTERRUPTED = js ''Generation was interrupted''"

definition ERROR_MESSAGES :: "jsstr list" where
  "ERROR_MESSAGES = [API_REQUEST_ERROR, NETWORK_ERROR, PARSE_ERROR, STREAM_START_ERROR,
     CONNECTION_CLOSED, INTERRUPTED]"

section \<open>message-utils.ts\<close>

definition createMessageVersion :: "jsstr \<Rightarrow> jsstr \<Rightarrow> MessageVersion" where
  "createMessageVersion nanoid content = \<lparr>version_id = nanoid, version_content = content\<rparr>"

definition getCurrentVersion :: "Message \<Rightarrow> MessageVersion" where
  "getCurrentVersion message =
     (case versions message of
        v # _ \<Rightarrow> v
      | [] \<Rightarrow> \<lparr>version_id = js ''default'', version_content = []\<rparr>)"

definition getMessageContent :: "Message \<Rightarrow> jsstr" where
  "getMessageContent message = version_content (getCurrentVersion message)"

definition hasMessageContent :: "Message \<Rightarrow> bool" where
  "hasMessageContent message = (trim (getMessageContent message) \<noteq> [])"

definition updateCurrentVersionContent :: "Message \<Rightarrow> jsstr \<Rightarrow> Message" where
  "updateCurrentVersionContent message content =
     message\<lparr>versions := [(getCurrentVersion message)\<lparr>version_content := content\<rparr>]\<rparr>"

text \<open>The first identifier is the key, the second the version's.\<close>

definition createUserMessage :: "idgen \<Rightarrow> jsstr \<Rightarrow> rat \<Rightarrow> Message" where
  "createUserMessage nanoid content created =
     \<lparr>msg_key = nanoid 0, msg_from = RoleUser, versions = [createMessageVersion (nanoid 1) content],
      createdAt = Some created, startedAt = None, completedAt = None, durationMs = None,
      sources = None, reasoning = None, isReasoningStreaming = None, isReasoningComplete = None,
      isContentComplete = None, msg_status = None, errorCode = None\<rparr>"

definition createLoadingAssistantMessage :: "idgen \<Rightarrow> rat \<Rightarrow> Message" where
  "createLoadingAssistantMessage nanoid started =
     \<lparr>msg_key = nanoid 0, msg_from = RoleAssistant, versions = [createMessageVersion (nanoid 1) []],
      createdAt = Some started, startedAt = Some started, completedAt = None, durationMs = None,
      sources = None, reasoning = None, isReasoningStreaming = Some False,
      isReasoningComplete = Some False, isContentComplete = Some False,
      msg_status = Some Loading, errorCode = None\<rparr>"

text \<open>The optional field of each kind of part: \<open>text\<close>, or the \<open>url\<close> of \<open>image_url\<close>.\<close>

datatype ContentPart = TextPart "jsstr option" | ImagePart "jsstr option"

datatype MessageContent = PlainContent jsstr | PartsContent "ContentPart list"

definition buildMessageContent :: "jsstr \<Rightarrow> jsstr list \<Rightarrow> MessageContent" where
  "buildMessageContent text imageUrls =
     (let validImages = filter (\<lambda>url. trim url \<noteq> []) imageUrls
      in if length validImages = 0 then PlainContent text
         else PartsContent (TextPart (Some text) # map (\<lambda>url. ImagePart (Some (trim url))) validImages))"

definition getTextContent :: "MessageContent \<Rightarrow> jsstr" where
  "getTextContent content =
     (case content of
        PlainContent s \<Rightarrow> s
      | PartsContent parts \<Rightarrow>
          (case List.find (\<lambda>p. case p of TextPart _ \<Rightarrow> True | ImagePart _ \<Rightarrow> False) parts of
             Some (TextPart (Some s)) \<Rightarrow> s
           | _ \<Rightarrow> []))"

record ChatCompletionMessage =
  chat_role :: MessageRole
  chat_content :: MessageContent

definition formatMessageForAPI :: "Message \<Rightarrow> ChatCompletionMessage" where
  "formatMessageForAPI message =
     \<lparr>chat_role = msg_from message,
      chat_content = PlainContent (version_content (getCurrentVersion message))\<rparr>"

definition isValidMessage :: "Message \<Rightarrow> bool" where
  "isValidMessage message =
     (if length (versions message) = 0 then False
      else if msg_from message = RoleAssistant \<and> \<not> hasMessageContent message then False
      else True)"

section \<open>message-timing-utils.ts\<close>

definition or_else :: "'a option \<Rightarrow> 'a option \<Rightarrow> 'a option" where
  "or_else a b = (case a of Some x \<Rightarrow> Some x | None \<Rightarrow> b)"

definition get_or :: "'a option \<Rightarrow> 'a \<Rightarrow> 'a" where
  "get_or a d = (case a of Some x \<Rightarrow> x | None \<Rightarrow> d)"

definition completeAssistantTiming :: "Message \<Rightarrow> rat \<Rightarrow> Message" where
  "completeAssistantTiming message completed =
     (if msg_from message \<noteq> RoleAssistant then message
      else let started = get_or (or_else (startedAt message) (createdAt message)) completed
           in message\<lparr>startedAt := Some started, completedAt := Some completed,
                durationMs := Some (max 0 (completed - started))\<rparr>)"

definition startReasoningTiming :: "Message \<Rightarrow> rat \<Rightarrow> Reasoning" where
  "startReasoningTiming message started =
     (case reasoning message of
        None \<Rightarrow> \<lparr>rs_content = [], rs_duration = 0, rs_startedAt = Some started,
                 rs_completedAt = None, rs_durationMs = None\<rparr>
      | Some r \<Rightarrow> \<lparr>rs_content = rs_content r, rs_duration = rs_duration r,
                   rs_startedAt = Some (get_or (rs_startedAt r) started),
                   rs_completedAt = rs_completedAt r, rs_durationMs = rs_durationMs r\<rparr>)"

definition completeReasoningTiming :: "Message \<Rightarrow> rat \<Rightarrow> Message" where
  "completeReasoningTiming message completed =
     (case reasoning message of
        None \<Rightarrow> message
      | Some r \<Rightarrow>
          if rs_durationMs r \<noteq> None then message
          else let started = get_or (or_else (rs_startedAt r) (startedAt message)) completed;
                   ms = max 0 (completed - started)
               in message\<lparr>reasoning := Some (r\<lparr>rs_startedAt := Some started,
                    rs_completedAt := Some completed, rs_durationMs := Some ms,
                    rs_duration := of_int \<lceil>ms / 1000\<rceil>\<rparr>)\<rparr>)"

section \<open>message-update-utils.ts\<close>

definition updateLastAssistantMessage :: "Message list \<Rightarrow> (Message \<Rightarrow> Message) \<Rightarrow> Message list" where
  "updateLastAssistantMessage messages updater =
     (if length messages = 0 then messages
      else if msg_from (last messages) \<noteq> RoleAssistant then messages
      else messages[length messages - 1 := updater (last messages)])"

definition errorUpdate :: "jsstr \<Rightarrow> jsstr option \<Rightarrow> jsstr \<Rightarrow> rat \<Rightarrow> Message \<Rightarrow> Message" where
  "errorUpdate errorMessage code title now message =
     (let updatedMessage = updateCurrentVersionContent message (title @ js '': '' @ errorMessage)
      in completeAssistantTiming
           (updatedMessage\<lparr>msg_status := Some StatusError, isReasoningStreaming := Some False,
              errorCode := Some (case code of Some c \<Rightarrow> if c = [] then None else Some c | None \<Rightarrow> None)\<rparr>)
           now)"

definition updateAssistantMessageWithError ::
  "Message list \<Rightarrow> jsstr \<Rightarrow> jsstr option \<Rightarrow> jsstr \<Rightarrow> rat \<Rightarrow> Message list" where
  "updateAssistantMessageWithError messages errorMessage code title now =
     updateLastAssistantMessage messages (errorUpdate errorMessage code title now)"

section \<open>conversation-message-utils.ts\<close>

text \<open>\<open>findIndex\<close> by key, \<open>None\<close> for -1.\<close>

fun find_index :: "('a \<Rightarrow> bool) \<Rightarrow> 'a list \<Rightarrow> nat option" where
  "find_index P [] = None"
| "find_index P (x # xs) = (if P x then Some 0 else map_option Suc (find_index P xs))"

definition appendUserMessagePair :: "idgen \<Rightarrow> rat \<Rightarrow> Message list \<Rightarrow> jsstr \<Rightarrow> Message list" where
  "appendUserMessagePair nanoid submittedAt messages content =
     messages @ [createUserMessage nanoid content submittedAt,
                 createLoadingAssistantMessage (\<lambda>n. nanoid (n + 2)) submittedAt]"

definition createRegeneratedMessages ::
  "idgen \<Rightarrow> rat \<Rightarrow> Message list \<Rightarrow> jsstr \<Rightarrow> Message list option" where
  "createRegeneratedMessages nanoid now messages messageKey =
     (case find_index (\<lambda>message. msg_key message = messageKey) messages of
        None \<Rightarrow> None
      | Some i \<Rightarrow>
          if msg_from (messages ! i) = RoleUser
          then Some (take (i + 1) messages @ [createLoadingAssistantMessage nanoid now])
          else Some (take i messages @ [createLoadingAssistantMessage nanoid now]))"

definition removeMessageByKey :: "Message list \<Rightarrow> jsstr \<Rightarrow> Message list" where
  "removeMessageByKey messages messageKey = filter (\<lambda>message. msg_key message \<noteq> messageKey) messages"

text \<open>The loop runs down from \<open>beforeIndex - 1\<close>; reading past the end of the array throws.\<close>

fun getPreviousUserMessage :: "Message list \<Rightarrow> nat \<Rightarrow> js_error + Message option" where
  "getPreviousUserMessage messages 0 = Inr None"
| "getPreviousUserMessage messages (Suc i) =
     (if length messages \<le> i then Inl TypeError
      else if msg_from (messages ! i) = RoleUser then Inr (Some (messages ! i))
      else getPreviousUserMessage messages i)"

record ApplyMessageEditResult =
  edit_messages :: "Message list"
  shouldSend :: bool

definition applyMessageEdit ::
  "idgen \<Rightarrow> rat \<Rightarrow> Message list \<Rightarrow> jsstr \<Rightarrow> jsstr \<Rightarrow> bool \<Rightarrow> ApplyMessageEditResult option" where
  "applyMessageEdit nanoid submittedAt messages messageKey content shouldSubmit =
     (case find_index (\<lambda>message. msg_key message = messageKey) messages of
        None \<Rightarrow> None
      | Some i \<Rightarrow>
          let updatedMessages = map (\<lambda>message.
                if msg_key message = messageKey
                then (updateCurrentVersionContent message content)
                       \<lparr>createdAt := (if shouldSubmit then Some submittedAt else createdAt message)\<rparr>
                else message) messages
          in if \<not> shouldSubmit \<or> msg_from (updatedMessages ! i) \<noteq> RoleUser
             then Some \<lparr>edit_messages = updatedMessages, shouldSend = False\<rparr>
             else Some \<lparr>edit_messages = take (i + 1) updatedMessages
                          @ [createLoadingAssistantMessage nanoid submittedAt],
                        shouldSend = True\<rparr>)"

definition getEditingMessageContent :: "Message list \<Rightarrow> jsstr option \<Rightarrow> jsstr" where
  "getEditingMessageContent messages editingKey =
     (case editingKey of
        None \<Rightarrow> []
      | Some k \<Rightarrow>
          if k = [] then []
          else case List.find (\<lambda>item. msg_key item = k) messages of
                 Some message \<Rightarrow> getMessageContent message
               | None \<Rightarrow> [])"

record ChatMessageRenderState =
  alwaysShowActions :: bool
  render_content :: jsstr
  isEditing :: bool

definition getChatMessageRenderState ::
  "Message list \<Rightarrow> Message \<Rightarrow> nat \<Rightarrow> jsstr option \<Rightarrow> ChatMessageRenderState" where
  "getChatMessageRenderState messages message messageIndex editingKey =
     \<lparr>alwaysShowActions = (messageIndex + 1 = length messages \<and> msg_from message = RoleAssistant),
      render_content = getMessageContent message,
      isEditing = (editingKey = Some (msg_key message))\<rparr>"

section \<open>Lemmas\<close>

named_theorems msg_simps \<open>what the message helpers do to each field\<close>

lemma getCurrentVersion_update [msg_simps, simp]:
  "getCurrentVersion (updateCurrentVersionContent m c) = (getCurrentVersion m)\<lparr>version_content := c\<rparr>"
  by (simp add: getCurrentVersion_def updateCurrentVersionContent_def)

lemma getMessageContent_update [simp]: "getMessageContent (updateCurrentVersionContent m c) = c"
  by (simp add: getMessageContent_def)

lemma update_version_fields [simp]:
  "msg_key (updateCurrentVersionContent m c) = msg_key m"
  "msg_from (updateCurrentVersionContent m c) = msg_from m"
  "msg_status (updateCurrentVersionContent m c) = msg_status m"
  "reasoning (updateCurrentVersionContent m c) = reasoning m"
  "startedAt (updateCurrentVersionContent m c) = startedAt m"
  "createdAt (updateCurrentVersionContent m c) = createdAt m"
  "isReasoningStreaming (updateCurrentVersionContent m c) = isReasoningStreaming m"
  "length (versions (updateCurrentVersionContent m c)) = Suc 0"
  by (simp_all add: updateCurrentVersionContent_def)

lemma getCurrentVersion_cong: "versions m = versions m' \<Longrightarrow> getCurrentVersion m = getCurrentVersion m'"
  by (simp add: getCurrentVersion_def)

lemma assistant_timing_fields [simp]:
  "msg_key (completeAssistantTiming m t) = msg_key m"
  "msg_from (completeAssistantTiming m t) = msg_from m"
  "msg_status (completeAssistantTiming m t) = msg_status m"
  "versions (completeAssistantTiming m t) = versions m"
  "reasoning (completeAssistantTiming m t) = reasoning m"
  "errorCode (completeAssistantTiming m t) = errorCode m"
  "isReasoningStreaming (completeAssistantTiming m t) = isReasoningStreaming m"
  by (simp_all add: completeAssistantTiming_def Let_def)

lemma reasoning_timing_fields [simp]:
  "msg_key (completeReasoningTiming m t) = msg_key m"
  "msg_from (completeReasoningTiming m t) = msg_from m"
  "msg_status (completeReasoningTiming m t) = msg_status m"
  "versions (completeReasoningTiming m t) = versions m"
  "startedAt (completeReasoningTiming m t) = startedAt m"
  "createdAt (completeReasoningTiming m t) = createdAt m"
  "isReasoningStreaming (completeReasoningTiming m t) = isReasoningStreaming m"
  by (simp_all add: completeReasoningTiming_def Let_def split: option.split)

lemma timing_content [simp]:
  "getCurrentVersion (completeAssistantTiming m t) = getCurrentVersion m"
  "getMessageContent (completeAssistantTiming m t) = getMessageContent m"
  "getCurrentVersion (completeReasoningTiming m t) = getCurrentVersion m"
  "getMessageContent (completeReasoningTiming m t) = getMessageContent m"
  by (simp_all add: getCurrentVersion_def getMessageContent_def)

lemma content_other_fields [simp]:
  "getMessageContent (m\<lparr>msg_status := s\<rparr>) = getMessageContent m"
  "getMessageContent (m\<lparr>reasoning := r\<rparr>) = getMessageContent m"
  "getMessageContent (m\<lparr>isReasoningStreaming := b\<rparr>) = getMessageContent m"
  "getMessageContent (m\<lparr>errorCode := e\<rparr>) = getMessageContent m"
  by (simp_all add: getMessageContent_def getCurrentVersion_def)

lemma errorUpdate_fields [simp]:
  "msg_key (errorUpdate e c t now m) = msg_key m"
  "msg_from (errorUpdate e c t now m) = msg_from m"
  "msg_status (errorUpdate e c t now m) = Some StatusError"
  "length (versions (errorUpdate e c t now m)) = Suc 0"
  "isReasoningStreaming (errorUpdate e c t now m) = Some False"
  by (simp_all add: errorUpdate_def Let_def)

lemma updateLast_butlast: "butlast (updateLastAssistantMessage ms f) = butlast ms"
  by (simp add: updateLastAssistantMessage_def butlast_list_update)

lemma updateLast_last:
  "ms \<noteq> [] \<Longrightarrow> last (updateLastAssistantMessage ms f) =
     (if msg_from (last ms) = RoleAssistant then f (last ms) else last ms)"
  by (simp add: updateLastAssistantMessage_def last_list_update)

lemma updateLast_snoc:
  "updateLastAssistantMessage (ms @ [m]) f = ms @ [if msg_from m = RoleAssistant then f m else m]"
  by (simp add: updateLastAssistantMessage_def list_update_append)

lemma updateLast_Nil [simp]: "updateLastAssistantMessage [] f = []"
  by (simp add: updateLastAssistantMessage_def)

lemma updateLast_length [simp]: "length (updateLastAssistantMessage ms f) = length ms"
  by (simp add: updateLastAssistantMessage_def)

lemma updateLast_map:
  "(\<And>m. g (f m) = g m) \<Longrightarrow> map g (updateLastAssistantMessage ms f) = map g ms"
  by (cases ms rule: rev_cases) (simp_all add: updateLast_snoc)

lemma find_index_None: "find_index P xs = None \<longleftrightarrow> (\<forall>x \<in> set xs. \<not> P x)"
  by (induction xs) auto

lemma find_index_Some:
  "find_index P xs = Some i \<longleftrightarrow> i < length xs \<and> P (xs ! i) \<and> (\<forall>j < i. \<not> P (xs ! j))"
proof (induction xs arbitrary: i)
  case (Cons x xs)
  show ?case by (cases i) (auto simp: Cons.IH nth_Cons split: nat.splits)
qed simp

text \<open>The key of the message at a position finds that position when the keys are distinct.\<close>

lemma find_index_key:
  assumes "distinct (map msg_key ms)" and "i < length ms"
  shows "find_index (\<lambda>m. msg_key m = msg_key (ms ! i)) ms = Some i"
  using assms by (auto simp: find_index_Some distinct_conv_nth)

section \<open>The conversation invariant\<close>

definition pending :: "Message \<Rightarrow> bool" where
  "pending m \<longleftrightarrow> msg_status m = Some Loading \<or> msg_status m = Some Streaming"

text \<open>
  Keys are distinct, every message has exactly one version, and only an assistant message in
  the last place can be pending.
\<close>

definition conv_ok :: "Message list \<Rightarrow> bool" where
  "conv_ok ms \<longleftrightarrow> distinct (map msg_key ms) \<and> (\<forall>m \<in> set ms. length (versions m) = 1)
     \<and> (\<forall>m \<in> set (butlast ms). \<not> pending m)
     \<and> (ms \<noteq> [] \<longrightarrow> pending (last ms) \<longrightarrow> msg_from (last ms) = RoleAssistant)"

lemma loading_fields [simp]:
  "msg_key (createLoadingAssistantMessage ids t) = ids 0"
  "msg_from (createLoadingAssistantMessage ids t) = RoleAssistant"
  "msg_status (createLoadingAssistantMessage ids t) = Some Loading"
  "length (versions (createLoadingAssistantMessage ids t)) = Suc 0"
  "getMessageContent (createLoadingAssistantMessage ids t) = []"
  "reasoning (createLoadingAssistantMessage ids t) = None"
  by (simp_all add: createLoadingAssistantMessage_def createMessageVersion_def
      getMessageContent_def getCurrentVersion_def)

lemma user_fields [simp]:
  "msg_key (createUserMessage ids c t) = ids 0"
  "msg_from (createUserMessage ids c t) = RoleUser"
  "msg_status (createUserMessage ids c t) = None"
  "length (versions (createUserMessage ids c t)) = Suc 0"
  "getMessageContent (createUserMessage ids c t) = c"
  by (simp_all add: createUserMessage_def createMessageVersion_def
      getMessageContent_def getCurrentVersion_def)

lemma conv_ok_snoc:
  "conv_ok (ms @ [m]) \<longleftrightarrow> distinct (map msg_key ms) \<and> msg_key m \<notin> msg_key ` set ms
     \<and> (\<forall>m \<in> set ms. length (versions m) = 1 \<and> \<not> pending m) \<and> length (versions m) = 1
     \<and> (pending m \<longrightarrow> msg_from m = RoleAssistant)"
  by (auto simp: conv_ok_def)

lemma conv_ok_settled:
  "conv_ok ms \<Longrightarrow> ms = [] \<or> \<not> pending (last ms) \<Longrightarrow> m \<in> set ms \<Longrightarrow> \<not> pending m"
  by (cases ms rule: rev_cases) (auto simp: conv_ok_def)

lemma conv_ok_take_nonpending:
  assumes "conv_ok ms" and "i < length ms" and "m \<in> set (take i ms)"
  shows "\<not> pending m"
proof -
  have "m \<in> set (butlast ms)"
    using assms(2,3) by (metis butlast_conv_take in_set_takeD less_eq_Suc_le min_def
        set_take_subset_set_take subsetD Suc_pred length_greater_0_conv less_nat_zero_code list.size(3) not_less_eq_eq diff_Suc_1)
  then show ?thesis using assms(1) by (simp add: conv_ok_def)
qed

lemma conv_ok_append:
  assumes "conv_ok ms" and "ms = [] \<or> \<not> pending (last ms)"
    and "distinct [ids 0, ids 2]" and "set [ids 0, ids 2] \<inter> msg_key ` set ms = {}"
  shows "conv_ok (appendUserMessagePair ids now ms content)"
proof -
  let ?u = "createUserMessage ids content now" and ?a = "createLoadingAssistantMessage (\<lambda>n. ids (n + 2)) now"
  have "\<not> pending ?u" by (simp add: pending_def)
  moreover have "\<forall>m \<in> set ms. \<not> pending m" using conv_ok_settled [OF assms(1,2)] by blast
  moreover have "ids 2 = ids (Suc (Suc 0))" by (simp add: numeral_2_eq_2)
  ultimately have "conv_ok ((ms @ [?u]) @ [?a])"
    using assms unfolding conv_ok_snoc by (auto simp: conv_ok_def)
  then show ?thesis by (simp add: appendUserMessagePair_def)
qed

lemma conv_ok_take_loading:
  assumes ok: "conv_ok ms" and fresh: "ids 0 \<notin> msg_key ` set ms"
    and n: "\<forall>m \<in> set (take n ms). \<not> pending m"
  shows "conv_ok (take n ms @ [createLoadingAssistantMessage ids now])"
proof -
  have "set (take n ms) \<subseteq> set ms" by (rule set_take_subset)
  then show ?thesis
    using assms unfolding conv_ok_snoc by (auto simp: conv_ok_def take_map [symmetric])
qed

lemma take_Suc_nonpending:
  assumes "conv_ok ms" and "i < length ms" and "msg_from (ms ! i) = RoleUser"
  shows "\<forall>m \<in> set (take (i + 1) ms). \<not> pending m"
proof
  fix m assume m: "m \<in> set (take (i + 1) ms)"
  show "\<not> pending m"
  proof (cases "i + 1 < length ms")
    case True
    then show ?thesis using conv_ok_take_nonpending [OF assms(1) _ m] by simp
  next
    case False
    with assms(2) have i: "length ms = Suc i" by simp
    then have "ms \<noteq> []" by auto
    with i have "last ms = ms ! i" by (simp add: last_conv_nth)
    with \<open>ms \<noteq> []\<close> have "\<not> pending (last ms)" using assms(1,3) by (auto simp: conv_ok_def)
    then show ?thesis using conv_ok_settled [OF assms(1)] m by (meson in_set_takeD)
  qed
qed

text \<open>The list an edit produces changes one position.\<close>

definition edited :: "jsstr \<Rightarrow> bool \<Rightarrow> rat \<Rightarrow> Message \<Rightarrow> Message" where
  "edited content submit now m = (updateCurrentVersionContent m content)
     \<lparr>createdAt := (if submit then Some now else createdAt m)\<rparr>"

lemma edited_fields [simp]:
  "msg_key (edited c b t m) = msg_key m" "msg_from (edited c b t m) = msg_from m"
  "msg_status (edited c b t m) = msg_status m" "length (versions (edited c b t m)) = Suc 0"
  by (simp_all add: edited_def)

lemma map_edit:
  assumes "distinct (map msg_key ms)" and "i < length ms"
  shows "map (\<lambda>m. if msg_key m = msg_key (ms ! i) then f m else m) ms = ms[i := f (ms ! i)]"
  using assms by (intro nth_equalityI) (auto simp: nth_list_update distinct_conv_nth)

lemma conv_ok_list_update:
  assumes "conv_ok ms" and "i < length ms"
    and "msg_key m = msg_key (ms ! i)" "msg_from m = msg_from (ms ! i)"
    and "length (versions m) = 1" and "pending m \<longrightarrow> pending (ms ! i)"
  shows "conv_ok (ms[i := m])"
proof -
  have "map msg_key (ms[i := m]) = map msg_key ms"
    using assms(2,3) by (metis list_update_id map_update nth_map)
  moreover have "\<forall>x \<in> set (ms[i := m]). length (versions x) = 1"
    using assms(1,5) set_update_subset_insert [of ms i m] by (auto simp: conv_ok_def)
  moreover have "\<forall>x \<in> set (butlast (ms[i := m])). \<not> pending x"
  proof (cases "i < length ms - 1")
    case True
    then have "\<not> pending (ms ! i)"
      using assms(1) by (metis conv_ok_def length_butlast nth_butlast nth_mem)
    with True assms(1,6) show ?thesis
      using set_update_subset_insert [of "butlast ms" i m] by (auto simp: conv_ok_def butlast_list_update)
  next
    case False
    with assms(1,2) show ?thesis by (auto simp: conv_ok_def butlast_list_update)
  qed
  moreover have "pending (last (ms[i := m])) \<longrightarrow> msg_from (last (ms[i := m])) = RoleAssistant"
  proof (cases "i = length ms - 1")
    case True
    moreover have ne: "ms \<noteq> []" using assms(2) by auto
    ultimately have l: "last (ms[i := m]) = m" "last ms = ms ! i"
      by (simp_all add: last_list_update last_conv_nth)
    from assms(1) ne have "pending (last ms) \<longrightarrow> msg_from (last ms) = RoleAssistant"
      by (simp add: conv_ok_def)
    with assms(4,6) show ?thesis unfolding l by simp
  next
    case False
    moreover have ne: "ms \<noteq> []" using assms(2) by auto
    ultimately have "last (ms[i := m]) = last ms" by (simp add: last_list_update)
    with assms(1) ne show ?thesis by (simp add: conv_ok_def)
  qed
  ultimately show ?thesis using assms(1) by (simp add: conv_ok_def)
qed

lemma conv_ok_remove: "conv_ok ms \<Longrightarrow> conv_ok (removeMessageByKey ms k)"
proof (induction ms rule: rev_induct)
  case (snoc m ms)
  then have d: "distinct (map msg_key (removeMessageByKey ms k))"
    and p: "\<forall>x \<in> set ms. length (versions x) = 1 \<and> \<not> pending x"
    unfolding conv_ok_snoc removeMessageByKey_def by (auto intro: distinct_map_filter)
  have "set (removeMessageByKey ms k) \<subseteq> set ms" by (auto simp: removeMessageByKey_def)
  moreover from this d p have "conv_ok (removeMessageByKey ms k)"
    by (auto simp: conv_ok_def dest: in_set_butlastD) (meson last_in_set subsetD)
  moreover have "removeMessageByKey (ms @ [m]) k =
      removeMessageByKey ms k @ (if msg_key m \<noteq> k then [m] else [])"
    by (simp add: removeMessageByKey_def)
  ultimately show ?case using snoc.prems d p by (auto simp: conv_ok_snoc)
qed (simp add: removeMessageByKey_def)

lemma regenerate_eq:
  assumes "conv_ok ms" and "i < length ms"
  shows "createRegeneratedMessages ids now ms (msg_key (ms ! i)) =
    Some (take (if msg_from (ms ! i) = RoleUser then i + 1 else i) ms @ [createLoadingAssistantMessage ids now])"
proof -
  have "distinct (map msg_key ms)" using assms(1) by (simp add: conv_ok_def)
  from find_index_key [OF this assms(2)] show ?thesis by (simp add: createRegeneratedMessages_def)
qed

lemma key_absent: "k \<notin> msg_key ` set ms \<Longrightarrow> find_index (\<lambda>m. msg_key m = k) ms = None"
  unfolding find_index_None by (auto simp: image_iff)

lemma key_present:
  assumes "find_index (\<lambda>m. msg_key m = k) ms \<noteq> None"
  obtains i where "i < length ms" "k = msg_key (ms ! i)"
  using assms by (auto simp: find_index_Some)

lemma regenerate_ok:
  assumes "conv_ok ms" and "ids 0 \<notin> msg_key ` set ms"
    and "createRegeneratedMessages ids now ms k = Some ms'"
  shows "conv_ok ms'"
proof -
  have "find_index (\<lambda>m. msg_key m = k) ms \<noteq> None"
    using assms(3) by (auto simp: createRegeneratedMessages_def split: option.splits)
  then obtain i where i: "i < length ms" "k = msg_key (ms ! i)" by (rule key_present)
  let ?n = "if msg_from (ms ! i) = RoleUser then i + 1 else i"
  have "\<forall>m \<in> set (take ?n ms). \<not> pending m"
    using take_Suc_nonpending [OF assms(1) i(1)] conv_ok_take_nonpending [OF assms(1) i(1)] by auto
  then have "conv_ok (take ?n ms @ [createLoadingAssistantMessage ids now])"
    by (rule conv_ok_take_loading [of ms ids, OF assms(1,2)])
  then show ?thesis using assms(3) regenerate_eq [OF assms(1) i(1), of ids now] i(2) by simp
qed

lemma edit_eq:
  assumes "conv_ok ms" and "i < length ms"
  shows "applyMessageEdit ids now ms (msg_key (ms ! i)) content submit =
      (if submit \<and> msg_from (ms ! i) = RoleUser
       then Some \<lparr>edit_messages = take i ms @ [edited content submit now (ms ! i),
                    createLoadingAssistantMessage ids now], shouldSend = True\<rparr>
       else Some \<lparr>edit_messages = ms[i := edited content submit now (ms ! i)], shouldSend = False\<rparr>)"
proof -
  let ?new = "edited content submit now (ms ! i)"
  have d: "distinct (map msg_key ms)" using assms(1) by (simp add: conv_ok_def)
  have e: "applyMessageEdit ids now ms (msg_key (ms ! i)) content submit =
      (if \<not> submit \<or> msg_from (ms ! i) \<noteq> RoleUser
       then Some \<lparr>edit_messages = ms[i := ?new], shouldSend = False\<rparr>
       else Some \<lparr>edit_messages = take (i + 1) (ms[i := ?new]) @ [createLoadingAssistantMessage ids now],
          shouldSend = True\<rparr>)"
    using assms(2) unfolding applyMessageEdit_def edited_def [symmetric] map_edit [OF d assms(2)]
    by (simp add: find_index_key [OF d assms(2)] Let_def)
  have t: "take (i + 1) (ms[i := ?new]) = take i ms @ [?new]"
    using assms(2) by (simp add: take_Suc_conv_app_nth)
  show ?thesis unfolding e t by (cases submit) simp_all
qed

lemma edited_ok:
  assumes "conv_ok ms" and "i < length ms"
  shows "conv_ok (ms[i := edited content submit now (ms ! i)])"
  by (rule conv_ok_list_update [OF assms]) (simp_all add: pending_def)

lemma edit_ok:
  assumes "conv_ok ms" and "ids 0 \<notin> msg_key ` set ms"
    and "applyMessageEdit ids now ms k content submit = Some r"
  shows "conv_ok (edit_messages r) \<and> (\<not> shouldSend r \<longrightarrow> (ms = [] \<or> \<not> pending (last ms)) \<longrightarrow>
    edit_messages r = [] \<or> \<not> pending (last (edit_messages r)))"
proof -
  have "find_index (\<lambda>m. msg_key m = k) ms \<noteq> None"
    using assms(3) by (auto simp: applyMessageEdit_def split: option.splits)
  then obtain i where i: "i < length ms" "k = msg_key (ms ! i)" by (rule key_present)
  let ?new = "edited content submit now (ms ! i)"
  note ok = edited_ok [OF assms(1) i(1), of content submit now]
  have ne: "ms \<noteq> []" using i(1) by auto
  have keys: "msg_key ` set (ms[i := ?new]) = msg_key ` set ms"
    using i(1) by (metis edited_fields(1) list_update_id map_update nth_map length_map list.set_map)
  have t: "take (i + 1) (ms[i := ?new]) @ [createLoadingAssistantMessage ids now] =
      take i ms @ [?new, createLoadingAssistantMessage ids now]"
    using i(1) by (simp add: take_Suc_conv_app_nth)
  have "conv_ok (take (i + 1) (ms[i := ?new]) @ [createLoadingAssistantMessage ids now])"
    if "msg_from (ms ! i) = RoleUser"
    by (rule conv_ok_take_loading [OF ok])
      (use assms i that keys take_Suc_nonpending [OF ok, of i] in simp_all)
  then have s: "msg_from (ms ! i) = RoleUser \<Longrightarrow> conv_ok (take i ms @ [?new, createLoadingAssistantMessage ids now])"
    unfolding t .
  have "pending (last (ms[i := ?new])) = pending (last ms)"
    using ne i(1) by (simp add: last_conv_nth nth_list_update pending_def)
  with s ok ne assms(3) show ?thesis
    unfolding i(2) edit_eq [OF assms(1) i(1)] by (auto split: if_splits)
qed

section \<open>Properties\<close>

text \<open>
  Regenerating keeps the conversation up to the chosen message, including it when it is
  the user's, drops everything after it and puts one loading reply at the end; the
  invariant survives. A key that no message has gives no result.
\<close>

theorem conversation_regenerate:
  assumes "conv_ok ms" and "i < length ms" and "ids 0 \<notin> msg_key ` set ms"
  shows "createRegeneratedMessages ids now ms (msg_key (ms ! i)) =
      Some (take (if msg_from (ms ! i) = RoleUser then i + 1 else i) ms
              @ [createLoadingAssistantMessage ids now])
    \<and> conv_ok (the (createRegeneratedMessages ids now ms (msg_key (ms ! i))))
    \<and> createRegeneratedMessages ids now ms (ids 0) = None"
proof -
  have "createRegeneratedMessages ids now ms (ids 0) = None"
    using key_absent [OF assms(3)] by (simp add: createRegeneratedMessages_def)
  then show ?thesis
    using regenerate_ok [of ms ids, OF assms(1,3) regenerate_eq [OF assms(1,2)]] by (simp add: regenerate_eq [OF assms(1,2)])
qed

definition sample_ids :: idgen where
  "sample_ids n = nat_str n"

definition sample_conv :: "Message list" where
  "sample_conv = [createUserMessage sample_ids (js ''hi'') 0]"

lemma sample_conv_ok: "conv_ok sample_conv"
  by (simp add: sample_conv_def conv_ok_def pending_def)

theorem conversation_regenerate_witness:
  "createRegeneratedMessages (\<lambda>n. js ''new'') 5 sample_conv (nat_str 0) =
     Some (sample_conv @ [createLoadingAssistantMessage (\<lambda>n. js ''new'') 5])"
proof -
  have k: "msg_key (sample_conv ! 0) = nat_str 0" "0 < length sample_conv"
    "msg_from (sample_conv ! 0) = RoleUser" "length sample_conv = 1"
    by (simp_all add: sample_conv_def sample_ids_def)
  have "js ''new'' \<notin> msg_key ` set sample_conv"
    by (simp add: sample_conv_def sample_ids_def js_eval nat_str.simps)
  from conversation_regenerate [OF sample_conv_ok k(2), of "\<lambda>n. js ''new''" 5, OF this] k
  show ?thesis by simp
qed

text \<open>
  Editing changes the content of the one message and nothing else; submitting the edit of
  a user message also drops what follows it and puts a loading reply there, to be sent;
  either way the invariant survives.
\<close>

theorem conversation_edit:
  assumes "conv_ok ms" and "i < length ms" and "ids 0 \<notin> msg_key ` set ms"
  shows "applyMessageEdit ids now ms (msg_key (ms ! i)) content submit =
      (let new = edited content submit now (ms ! i)
       in if submit \<and> msg_from (ms ! i) = RoleUser
          then Some \<lparr>edit_messages = take i ms @ [new, createLoadingAssistantMessage ids now],
                     shouldSend = True\<rparr>
          else Some \<lparr>edit_messages = ms[i := new], shouldSend = False\<rparr>)
    \<and> getMessageContent (edited content submit now (ms ! i)) = content
    \<and> conv_ok (edit_messages (the (applyMessageEdit ids now ms (msg_key (ms ! i)) content submit)))"
proof -
  have "getMessageContent (edited content submit now (ms ! i)) = content"
    by (simp add: edited_def getMessageContent_def getCurrentVersion_def updateCurrentVersionContent_def)
  moreover obtain r where r: "applyMessageEdit ids now ms (msg_key (ms ! i)) content submit = Some r"
    unfolding edit_eq [OF assms(1,2)] by (cases "submit \<and> msg_from (ms ! i) = RoleUser") auto
  ultimately show ?thesis
    using edit_ok [of ms ids, OF assms(1,3) r] edit_eq [OF assms(1,2), of ids now content submit] by (simp add: Let_def)
qed

theorem conversation_edit_witness:
  "shouldSend (the (applyMessageEdit (\<lambda>n. js ''new'') 5 sample_conv (nat_str 0) (js ''bye'') True))"
proof -
  have k: "msg_key (sample_conv ! 0) = nat_str 0" "0 < length sample_conv"
    "msg_from (sample_conv ! 0) = RoleUser"
    by (simp_all add: sample_conv_def sample_ids_def)
  have "js ''new'' \<notin> msg_key ` set sample_conv"
    by (simp add: sample_conv_def sample_ids_def js_eval nat_str.simps)
  from conversation_edit [OF sample_conv_ok k(2), of "\<lambda>n. js ''new''" 5 "js ''bye''" True, OF this] k
  show ?thesis by simp
qed

end
