(* ===== verification/PgThink.thy ===== *)
theory PgThink
  imports PgMessage
begin

text \<open>
  \<open>lib/message/message-reasoning-utils.ts\<close>: separating the text inside \<open>think\<close> tags from the
  visible text of a reply, while the reply may still be growing.
\<close>

definition OPEN_TAG :: jsstr where "OPEN_TAG = js ''<think>''"
definition CLOSE_TAG :: jsstr where "CLOSE_TAG = js ''</think>''"

record ParsedThinkTags =
  visibleContent :: jsstr
  think_reasoning :: jsstr
  hasUnclosedTag :: bool

lemma tag_lengths [simp]: "length OPEN_TAG = 7" "length CLOSE_TAG = 8"
  by (simp_all add: OPEN_TAG_def CLOSE_TAG_def)

lemma index_of_bounds:
  "index_of p s i = Some k \<Longrightarrow> p \<noteq> [] \<Longrightarrow> i \<le> k \<and> k + length p \<le> length s"
proof -
  assume "index_of p s i = Some k" "p \<noteq> []"
  then obtain j where "find_sub p (drop i s) = Some j" "k = i + j" by (auto simp: index_of_def)
  with find_sub_length [of p "drop i s" j] \<open>p \<noteq> []\<close> show ?thesis
    by (cases "i \<le> length s") auto
qed

lemma tags_not_Nil [simp]: "OPEN_TAG \<noteq> []" "CLOSE_TAG \<noteq> []"
  by (simp_all add: OPEN_TAG_def CLOSE_TAG_def)

text \<open>The loop, with the two arrays and the position it advances.\<close>

function thinkLoop :: "jsstr \<Rightarrow> nat \<Rightarrow> jsstr list \<Rightarrow> jsstr list \<Rightarrow> jsstr list \<times> jsstr list \<times> bool" where
  "thinkLoop content currentPos visibleParts reasoningParts =
     (case index_of OPEN_TAG content currentPos of
        None \<Rightarrow>
          (if currentPos < length content then visibleParts @ [drop currentPos content]
           else visibleParts, reasoningParts, False)
      | Some openPos \<Rightarrow>
          let visibleParts' =
                (if openPos > currentPos then visibleParts @ [slice currentPos openPos content]
                 else visibleParts)
          in case index_of CLOSE_TAG content (openPos + 7) of
               None \<Rightarrow> (visibleParts', reasoningParts @ [drop (openPos + 7) content], True)
             | Some closePos \<Rightarrow>
                 thinkLoop content (closePos + 8) visibleParts'
                   (reasoningParts @ [slice (openPos + 7) closePos content]))"
  by pat_completeness auto
termination
proof (relation "measure (\<lambda>(content, pos, _, _). length content - pos)", goal_cases)
  case (2 content pos vis rs openPos vis' closePos)
  with index_of_bounds [of OPEN_TAG content pos openPos]
    index_of_bounds [of CLOSE_TAG content "openPos + 7" closePos]
  show ?case by auto
qed simp

declare thinkLoop.simps [simp del]

definition parseThinkTags :: "jsstr \<Rightarrow> ParsedThinkTags" where
  "parseThinkTags content =
     (if \<not> has_sub OPEN_TAG content
      then \<lparr>visibleContent = content, think_reasoning = [], hasUnclosedTag = False\<rparr>
      else case thinkLoop content 0 [] [] of
             (visibleParts, reasoningParts, unclosed) \<Rightarrow>
               \<lparr>visibleContent = trim (join [] visibleParts),
                think_reasoning = trim (join [10, 10] reasoningParts),
                hasUnclosedTag = unclosed\<rparr>)"

section \<open>Reference: replies as text with tagged passages\<close>

text \<open>
  A reply is read as passages, each a visible text, a complete tagged text, and then a tail that
  is either visible to the end or opens a tag that is never closed.
\<close>

datatype reply_tail = VisibleTail jsstr | OpenTail jsstr jsstr

fun render_tail :: "reply_tail \<Rightarrow> jsstr" where
  "render_tail (VisibleTail v) = v"
| "render_tail (OpenTail v r) = v @ OPEN_TAG @ r"

definition render :: "(jsstr \<times> jsstr) list \<Rightarrow> reply_tail \<Rightarrow> jsstr" where
  "render ps tail = concat (map (\<lambda>(v, r). v @ OPEN_TAG @ r @ CLOSE_TAG) ps) @ render_tail tail"

fun tail_ok :: "reply_tail \<Rightarrow> bool" where
  "tail_ok (VisibleTail v) \<longleftrightarrow> \<not> has_sub OPEN_TAG v"
| "tail_ok (OpenTail v r) \<longleftrightarrow> \<not> has_sub OPEN_TAG v \<and> \<not> has_sub CLOSE_TAG r"

definition passages_ok :: "(jsstr \<times> jsstr) list \<Rightarrow> reply_tail \<Rightarrow> bool" where
  "passages_ok ps tail \<longleftrightarrow>
     (\<forall>(v, r) \<in> set ps. \<not> has_sub OPEN_TAG v \<and> \<not> has_sub CLOSE_TAG r) \<and> tail_ok tail"

fun tail_visible :: "reply_tail \<Rightarrow> jsstr" where
  "tail_visible (VisibleTail v) = v"
| "tail_visible (OpenTail v r) = v"

fun tail_reasoning :: "reply_tail \<Rightarrow> jsstr list" where
  "tail_reasoning (VisibleTail v) = []"
| "tail_reasoning (OpenTail v r) = [r]"

fun is_open :: "reply_tail \<Rightarrow> bool" where
  "is_open (VisibleTail v) = False"
| "is_open (OpenTail v r) = True"

section \<open>Lemmas\<close>

text \<open>A tag does not overlap itself: its first code unit occurs only in front.\<close>

lemma find_sub_tag:
  assumes "p = c # p'" and "c \<notin> set p'" and "\<not> has_sub p v"
  shows "find_sub p (v @ p @ s) = Some (length v)"
proof (rule find_sub_first)
  show "\<forall>j < length v. \<not> starts_with p (drop j (v @ p @ s))"
  proof (intro allI impI notI)
    fix j assume j: "j < length v" and st: "starts_with p (drop j (v @ p @ s))"
    then obtain t where t: "drop j (v @ p @ s) = p @ t" by (auto simp: starts_with_iff)
    show False
    proof (cases "j + length p \<le> length v")
      case True
      have "take (length p) (drop j v @ p @ s) = p" using t j by simp
      moreover have "take (length p) (drop j v @ p @ s) = take (length p) (drop j v)"
        using True by simp
      ultimately have "v = take j v @ p @ drop (length p) (drop j v)"
        by (metis append_take_drop_id)
      then show False using assms(3) has_sub_iff by blast
    next
      case False
      have "(p @ t) ! (length v - j) = (v @ p @ s) ! length v"
        unfolding t [symmetric] using j by (simp add: nth_append)
      then have c: "(p @ t) ! (length v - j) = c" using assms(1) by simp
      have lt: "0 < length v - j" "length v - j < length p" using j False by simp_all
      from c have "p ! (length v - j) = c" unfolding nth_append using lt(2) by simp
      note this lt
      then have "c \<in> set p'" using assms(1)
        by (metis Suc_less_eq Suc_pred length_Cons nth_Cons_Suc nth_mem)
      with assms(2) show False by simp
    qed
  qed
qed simp

lemma find_open_tag: "\<not> has_sub OPEN_TAG v \<Longrightarrow> find_sub OPEN_TAG (v @ OPEN_TAG @ s) = Some (length v)"
  by (rule find_sub_tag [of _ 60 "tl OPEN_TAG"]) (simp_all add: OPEN_TAG_def js_def)

lemma find_close_tag: "\<not> has_sub CLOSE_TAG v \<Longrightarrow> find_sub CLOSE_TAG (v @ CLOSE_TAG @ s) = Some (length v)"
  by (rule find_sub_tag [of _ 60 "tl CLOSE_TAG"]) (simp_all add: CLOSE_TAG_def js_def)

lemma find_sub_free: "\<not> has_sub p v \<Longrightarrow> find_sub p v = None"
  by (simp add: has_sub_def)

text \<open>The visible parts skip empty pieces, which the join does not see.\<close>

lemma join_Nil_append: "join [] (xs @ ys) = join [] xs @ join [] ys"
proof -
  have "join [] zs = concat zs" for zs :: "'a list list"
    by (induction "[] :: 'a list" zs rule: join.induct) auto
  then show ?thesis by simp
qed

lemma thinkLoop_tail:
  assumes "tail_ok tail"
  shows "\<exists>vs. thinkLoop (pre @ render_tail tail) (length pre) vis rs =
    (vis @ vs, rs @ tail_reasoning tail, is_open tail) \<and> join [] vs = tail_visible tail"
proof (cases tail)
  case (VisibleTail v)
  with assms show ?thesis
    by (cases "v = []")
      (auto simp: thinkLoop.simps [of _ "length pre"] index_of_def find_sub_free
        intro: exI [of _ "[]"] exI [of _ "[v]"])
next
  case (OpenTail v r)
  with assms have o: "index_of OPEN_TAG (pre @ v @ OPEN_TAG @ r) (length pre) = Some (length pre + length v)"
    and c: "index_of CLOSE_TAG (pre @ v @ OPEN_TAG @ r) (length pre + length v + 7) = None"
    by (simp_all add: index_of_def find_open_tag find_sub_free)
  have "thinkLoop (pre @ v @ OPEN_TAG @ r) (length pre) vis rs =
      (vis @ (if v = [] then [] else [v]), rs @ [r], True)"
    by (subst thinkLoop.simps) (simp add: o c Let_def slice_def)
  then show ?thesis using OpenTail by (intro exI [of _ "if v = [] then [] else [v]"]) simp
qed

lemma thinkLoop_render:
  "passages_ok ps tail \<Longrightarrow> \<exists>vs. thinkLoop (pre @ render ps tail) (length pre) vis rs =
     (vis @ vs, rs @ map snd ps @ tail_reasoning tail, is_open tail)
     \<and> join [] vs = concat (map fst ps) @ tail_visible tail"
proof (induction ps arbitrary: pre vis rs)
  case Nil
  then show ?case using thinkLoop_tail [of tail pre vis rs] by (simp add: render_def passages_ok_def)
next
  case (Cons p ps)
  obtain v r where p: "p = (v, r)" by fastforce
  from Cons.prems p have vr: "\<not> has_sub OPEN_TAG v" "\<not> has_sub CLOSE_TAG r" and ok: "passages_ok ps tail"
    by (auto simp: passages_ok_def)
  let ?pre = "pre @ v @ OPEN_TAG @ r @ CLOSE_TAG"
  let ?vis = "if v = [] then vis else vis @ [v]"
  have e: "pre @ render (p # ps) tail = pre @ v @ OPEN_TAG @ r @ CLOSE_TAG @ render ps tail"
    by (simp add: render_def p)
  have o: "index_of OPEN_TAG (pre @ v @ OPEN_TAG @ r @ CLOSE_TAG @ render ps tail) (length pre) =
      Some (length pre + length v)"
    and c: "index_of CLOSE_TAG (pre @ v @ OPEN_TAG @ r @ CLOSE_TAG @ render ps tail)
      (length pre + length v + 7) = Some (length pre + length v + 7 + length r)"
    using vr by (simp_all add: index_of_def find_open_tag find_close_tag)
  have s: "slice (length pre) (length pre + length v) (pre @ v @ OPEN_TAG @ r @ CLOSE_TAG @ render ps tail) = v"
    "slice (length pre + length v + 7) (length pre + length v + 7 + length r)
       (pre @ v @ OPEN_TAG @ r @ CLOSE_TAG @ render ps tail) = r"
    by (simp_all add: slice_def)
  have l: "length ?pre = length pre + length v + 7 + length r + 8" by simp
  have "thinkLoop (pre @ render (p # ps) tail) (length pre) vis rs =
      thinkLoop (?pre @ render ps tail) (length ?pre) ?vis (rs @ [r])"
    unfolding e l
    by (subst thinkLoop.simps, unfold o option.case Let_def c s) (simp del: add_Suc_right)
  moreover obtain vs where
    "thinkLoop (?pre @ render ps tail) (length ?pre) ?vis (rs @ [r]) =
       (?vis @ vs, (rs @ [r]) @ map snd ps @ tail_reasoning tail, is_open tail)"
    "join [] vs = concat (map fst ps) @ tail_visible tail"
    using Cons.IH [OF ok, of ?pre ?vis "rs @ [r]"] by blast
  ultimately show ?case
    by (intro exI [of _ "(if v = [] then [] else [v]) @ vs"]) (simp add: p join_Nil_append)
qed

text \<open>Every text is such a reply.\<close>

lemma render_exists: "\<exists>ps tail. content = render ps tail \<and> passages_ok ps tail"
proof (induction content rule: length_induct)
  case (1 content)
  show ?case
  proof (cases "find_sub OPEN_TAG content")
    case None
    then have "content = render [] (VisibleTail content) \<and> passages_ok [] (VisibleTail content)"
      by (simp add: render_def passages_ok_def has_sub_def)
    then show ?thesis by blast
  next
    case (Some k)
    define v where "v = take k content"
    from find_sub_Some [OF Some] obtain s where s: "content = v @ OPEN_TAG @ s"
      by (metis append_take_drop_id starts_with_iff v_def)
    have lv: "length v = k" using find_sub_length [OF Some] by (simp add: v_def)
    have v: "\<not> has_sub OPEN_TAG v"
    proof
      assume "has_sub OPEN_TAG v"
      then obtain a b where ab: "v = a @ OPEN_TAG @ b" by (auto simp: has_sub_iff)
      then have "starts_with OPEN_TAG (drop (length a) content)" using s by simp
      moreover have "length a < k" using ab lv by auto
      ultimately show False using find_sub_Some [OF Some] by blast
    qed
    show ?thesis
    proof (cases "find_sub CLOSE_TAG s")
      case None
      then have "content = render [] (OpenTail v s) \<and> passages_ok [] (OpenTail v s)"
        using s v by (simp add: render_def passages_ok_def has_sub_def)
      then show ?thesis by blast
    next
      case (Some j)
      define r where "r = take j s"
      from find_sub_Some [OF Some] obtain w where w: "s = r @ CLOSE_TAG @ w"
        by (metis append_take_drop_id starts_with_iff r_def)
      have lr: "length r = j" using find_sub_length [OF Some] by (simp add: r_def)
      have r: "\<not> has_sub CLOSE_TAG r"
      proof
        assume "has_sub CLOSE_TAG r"
        then obtain a b where ab: "r = a @ CLOSE_TAG @ b" by (auto simp: has_sub_iff)
        then have "starts_with CLOSE_TAG (drop (length a) s)" using w by simp
        moreover have "length a < j" using ab lr by auto
        ultimately show False using find_sub_Some [OF Some] by blast
      qed
      have "length w < length content" using s w by simp
      with 1 obtain ps tail where "w = render ps tail" "passages_ok ps tail" by blast
      then have "content = render ((v, r) # ps) tail \<and> passages_ok ((v, r) # ps) tail"
        using s w v r by (simp add: render_def passages_ok_def)
      then show ?thesis by blast
    qed
  qed
qed

lemma render_plain:
  assumes "passages_ok ps tail" and "\<not> has_sub OPEN_TAG (render ps tail)"
  shows "ps = [] \<and> tail = VisibleTail (render ps tail)"
proof -
  have "ps = []"
  proof (rule ccontr)
    assume "ps \<noteq> []"
    then obtain v r qs where "ps = (v, r) # qs" by (metis list.exhaust prod.exhaust)
    then have "render ps tail = v @ OPEN_TAG @ (r @ CLOSE_TAG @ render qs tail)" by (simp add: render_def)
    with assms(2) show False by (metis has_sub_iff)
  qed
  moreover from this assms(2) have "\<not> is_open tail"
    by (cases tail) (auto simp: render_def has_sub_iff)
  ultimately show ?thesis by (cases tail) (simp_all add: render_def)
qed

section \<open>Properties\<close>

text \<open>
  C5. \<open>parseThinkTags\<close> is exact. Every text is a sequence of visible and tagged passages with
  a tail (the loop always ends); for every such reading the visible content is the visible
  passages put together, the reasoning is the tagged ones separated by a blank line, both
  trimmed, and the flag says that the last tag is not closed. A text without a tag is
  returned as it is.
\<close>

theorem parse_think_exact:
  "(\<exists>ps tail. content = render ps tail \<and> passages_ok ps tail)
   \<and> (\<forall>ps tail. passages_ok ps tail \<longrightarrow>
        parseThinkTags (render ps tail) =
          (if has_sub OPEN_TAG (render ps tail)
           then \<lparr>visibleContent = trim (concat (map fst ps) @ tail_visible tail),
                 think_reasoning = trim (join [10, 10] (map snd ps @ tail_reasoning tail)),
                 hasUnclosedTag = is_open tail\<rparr>
           else \<lparr>visibleContent = render ps tail, think_reasoning = [], hasUnclosedTag = False\<rparr>))"
proof (intro conjI allI impI)
  fix ps tail assume ok: "passages_ok ps tail"
  then obtain vs where "thinkLoop (render ps tail) 0 [] [] = (vs, map snd ps @ tail_reasoning tail, is_open tail)"
    "join [] vs = concat (map fst ps) @ tail_visible tail"
    using thinkLoop_render [of ps tail "[]" "[]" "[]"] by auto
  then show "parseThinkTags (render ps tail) =
          (if has_sub OPEN_TAG (render ps tail)
           then \<lparr>visibleContent = trim (concat (map fst ps) @ tail_visible tail),
                 think_reasoning = trim (join [10, 10] (map snd ps @ tail_reasoning tail)),
                 hasUnclosedTag = is_open tail\<rparr>
           else \<lparr>visibleContent = render ps tail, think_reasoning = [], hasUnclosedTag = False\<rparr>)"
    by (simp add: parseThinkTags_def)
qed (rule render_exists)

theorem parse_think_exact_witness:
  "parseThinkTags (js ''<think>a</think> b <think>c'') =
     \<lparr>visibleContent = js ''b'', think_reasoning = js ''a'' @ [10, 10] @ js ''c'', hasUnclosedTag = True\<rparr>"
proof -
  let ?ps = "[([], js ''a'')]" and ?tail = "OpenTail (js '' b '') (js ''c'')"
  have r: "render ?ps ?tail = js ''<think>a</think> b <think>c''" by code_simp
  have "passages_ok ?ps ?tail" by code_simp
  moreover have "has_sub OPEN_TAG (render ?ps ?tail)" by code_simp
  moreover have "trim (concat (map fst ?ps) @ tail_visible ?tail) = js ''b''" by code_simp
  moreover have "trim (join [10, 10] (map snd ?ps @ tail_reasoning ?tail)) = js ''a'' @ [10, 10] @ js ''c''"
    by code_simp
  ultimately show ?thesis using parse_think_exact [of "[]"] unfolding r [symmetric] by simp
qed

end
