(* ===== verification/PgStreaming.thy ===== *)
theory PgStreaming
  imports PgThink
begin

text \<open>
  \<open>lib/message/message-streaming-utils.ts\<close>: how the chunks of a reply change the message that
  receives them, how a reply is completed, and how messages left pending by an interrupted
  session are settled. The clock is indexed by the place that reads it; \<open>t\<close> is the translation
  function of i18next.
\<close>

section \<open>Operations\<close>

definition processStreamingContent :: "clock \<Rightarrow> Message \<Rightarrow> jsstr option \<Rightarrow> Message" where
  "processStreamingContent clk message contentChunk =
     (let currentVersion = getCurrentVersion message;
          fullContent = (case contentChunk of
                           Some chunk \<Rightarrow> version_content currentVersion @ chunk
                         | None \<Rightarrow> version_content currentVersion)
      in if reasoning message = None \<and> \<not> has_sub OPEN_TAG fullContent
         then (updateCurrentVersionContent message fullContent)\<lparr>isReasoningStreaming := Some False\<rparr>
         else let parsed = parseThinkTags fullContent;
                  finalReasoning =
                    (if think_reasoning parsed \<noteq> []
                     then Some ((startReasoningTiming message (clk 0))\<lparr>rs_content := think_reasoning parsed\<rparr>)
                     else reasoning message)
              in (updateCurrentVersionContent message fullContent)
                   \<lparr>reasoning := finalReasoning, isReasoningStreaming := Some (hasUnclosedTag parsed)\<rparr>)"

datatype StreamChunkType = ReasoningChunk | ContentChunk

definition getAppendableChunk :: "jsstr \<Rightarrow> jsstr \<Rightarrow> jsstr" where
  "getAppendableChunk currentContent chunk =
     (if currentContent = [] \<or> \<not> starts_with currentContent chunk then chunk
      else drop (length currentContent) chunk)"

definition applyStreamingChunk :: "clock \<Rightarrow> Message \<Rightarrow> StreamChunkType \<Rightarrow> jsstr \<Rightarrow> Message" where
  "applyStreamingChunk clk message ctype chunk =
     (if msg_status message = Some StatusError then message
      else case ctype of
        ReasoningChunk \<Rightarrow>
          (let rs = startReasoningTiming message (clk 0);
               appendableChunk = getAppendableChunk (rs_content rs) chunk
           in message\<lparr>reasoning := Some (rs\<lparr>rs_content := rs_content rs @ appendableChunk\<rparr>),
                isReasoningStreaming := Some True, msg_status := Some Streaming\<rparr>)
      | ContentChunk \<Rightarrow>
          (let currentVersion = getCurrentVersion message;
               appendableChunk = getAppendableChunk (version_content currentVersion) chunk;
               contentMessage = processStreamingContent clk message (Some appendableChunk)
           in (if isReasoningStreaming contentMessage = Some True then contentMessage
               else completeReasoningTiming contentMessage (clk 1))
              \<lparr>msg_status := Some Streaming\<rparr>))"

definition finalizeMessage :: "clock \<Rightarrow> Message \<Rightarrow> jsstr option \<Rightarrow> Message" where
  "finalizeMessage clk message apiReasoningContent =
     (let content = version_content (getCurrentVersion message);
          parsedThinkTags = (if has_sub OPEN_TAG content then Some (parseThinkTags content) else None);
          visible = (case parsedThinkTags of Some p \<Rightarrow> visibleContent p | None \<Rightarrow> content);
          finalReasoning =
            str_or apiReasoningContent
              (str_or (map_option rs_content (reasoning message))
                (str_or (map_option think_reasoning parsedThinkTags) []));
          finalized = (updateCurrentVersionContent message visible)
            \<lparr>reasoning :=
               (if finalReasoning \<noteq> []
                then Some ((startReasoningTiming message (clk 0))\<lparr>rs_content := finalReasoning\<rparr>)
                else None),
             isReasoningStreaming := Some False\<rparr>
      in completeReasoningTiming finalized (clk 1))"

definition completeAssistantMessage :: "clock \<Rightarrow> Message \<Rightarrow> Message" where
  "completeAssistantMessage clk message =
     completeAssistantTiming ((finalizeMessage clk message None)\<lparr>msg_status := Some Complete\<rparr>) (clk 2)"

definition isAssistantMessageFinal :: "Message \<Rightarrow> bool" where
  "isAssistantMessageFinal message =
     (msg_status message = Some Complete \<or> msg_status message = Some StatusError)"

definition isAssistantMessagePending :: "Message \<Rightarrow> bool" where
  "isAssistantMessagePending message =
     (msg_status message = Some Loading \<or> msg_status message = Some Streaming)"

definition isPendingAssistantMessage :: "Message option \<Rightarrow> bool" where
  "isPendingAssistantMessage message =
     (case message of
        None \<Rightarrow> False
      | Some m \<Rightarrow> msg_from m = RoleAssistant \<and> isAssistantMessagePending m)"

record ChoiceMessage =
  cm_role :: MessageRole
  cm_content :: "jsstr option"
  cm_reasoning_content :: "jsstr option"

record ChatCompletionChoice =
  choice_index :: int
  choice_message :: "ChoiceMessage option"
  choice_finish_reason :: jsstr

record ChatCompletionResponse =
  response_id :: jsstr
  response_model :: jsstr
  choices :: "ChatCompletionChoice list option"

definition firstChoice :: "ChatCompletionResponse \<Rightarrow> ChatCompletionChoice option" where
  "firstChoice response = (case choices response of Some (c # _) \<Rightarrow> Some c | _ \<Rightarrow> None)"

definition hasChatCompletionChoice :: "ChatCompletionResponse \<Rightarrow> bool" where
  "hasChatCompletionChoice response = (firstChoice response \<noteq> None)"

definition applyChatCompletionChoice :: "clock \<Rightarrow> Message \<Rightarrow> ChatCompletionChoice \<Rightarrow> Message" where
  "applyChatCompletionChoice clk message choice =
     completeAssistantTiming
       ((finalizeMessage clk
           (updateCurrentVersionContent message
              (str_or (Option.bind (choice_message choice) cm_content) []))
           (Option.bind (choice_message choice) cm_reasoning_content))
         \<lparr>msg_status := Some Complete\<rparr>)
       (clk 2)"

definition applyChatCompletionResponse ::
  "clock \<Rightarrow> Message \<Rightarrow> ChatCompletionResponse \<Rightarrow> Message option" where
  "applyChatCompletionResponse clk message response =
     map_option (applyChatCompletionChoice clk message) (firstChoice response)"

text \<open>The search runs down from the end of the array.\<close>

fun lastPendingIndex :: "Message list \<Rightarrow> nat \<Rightarrow> nat option" where
  "lastPendingIndex messages 0 = None"
| "lastPendingIndex messages (Suc i) =
     (if isPendingAssistantMessage (Some (messages ! i)) then Some i else lastPendingIndex messages i)"

definition sanitizeMessage :: "(jsstr \<Rightarrow> jsstr) \<Rightarrow> clock \<Rightarrow> Message \<Rightarrow> Message" where
  "sanitizeMessage t clk message =
     (let finalized = finalizeMessage clk message None;
          hasContent = hasMessageContent finalized;
          hasReasoning = (case reasoning finalized of
                            Some r \<Rightarrow> trim (rs_content r) \<noteq> []
                          | None \<Rightarrow> False)
      in if hasContent \<or> hasReasoning
         then completeAssistantTiming
                (finalized\<lparr>msg_status := Some Complete, isReasoningStreaming := Some False\<rparr>) (clk 2)
         else completeAssistantTiming
                ((updateCurrentVersionContent finalized
                    (t API_REQUEST_ERROR @ js '': '' @ t INTERRUPTED))
                  \<lparr>msg_status := Some StatusError, isReasoningStreaming := Some False\<rparr>) (clk 2))"

definition sanitizeMessagesOnLoad :: "(jsstr \<Rightarrow> jsstr) \<Rightarrow> clock \<Rightarrow> Message list \<Rightarrow> Message list" where
  "sanitizeMessagesOnLoad t clk messages =
     (case lastPendingIndex messages (length messages) of
        None \<Rightarrow> messages
      | Some i \<Rightarrow> messages[i := sanitizeMessage t clk (messages ! i)])"

section \<open>Lemmas\<close>

lemma pending_iff: "isAssistantMessagePending m = pending m"
  by (simp add: isAssistantMessagePending_def pending_def)

lemma startReasoning_content [simp]:
  "rs_content (startReasoningTiming m t) = (case reasoning m of Some r \<Rightarrow> rs_content r | None \<Rightarrow> [])"
  by (simp add: startReasoningTiming_def split: option.split)

lemma process_fields [simp]:
  "msg_key (processStreamingContent clk m c) = msg_key m"
  "msg_from (processStreamingContent clk m c) = msg_from m"
  "msg_status (processStreamingContent clk m c) = msg_status m"
  "length (versions (processStreamingContent clk m c)) = Suc 0"
  "getMessageContent (processStreamingContent clk m c) = getMessageContent m @ (case c of Some s \<Rightarrow> s | None \<Rightarrow> [])"
  by (simp_all add: processStreamingContent_def Let_def getMessageContent_def getCurrentVersion_def
      updateCurrentVersionContent_def split: option.split)

lemma chunk_fields [simp]:
  "msg_key (applyStreamingChunk clk m ct c) = msg_key m"
  "msg_from (applyStreamingChunk clk m ct c) = msg_from m"
  "length (versions m) = Suc 0 \<Longrightarrow> length (versions (applyStreamingChunk clk m ct c)) = Suc 0"
  "msg_status (applyStreamingChunk clk m ct c) =
     (if msg_status m = Some StatusError then Some StatusError else Some Streaming)"
  by (simp_all add: applyStreamingChunk_def Let_def split: StreamChunkType.split)

lemma finalize_fields [simp]:
  "msg_key (finalizeMessage clk m a) = msg_key m"
  "msg_from (finalizeMessage clk m a) = msg_from m"
  "length (versions (finalizeMessage clk m a)) = Suc 0"
  "isReasoningStreaming (finalizeMessage clk m a) = Some False"
  by (simp_all add: finalizeMessage_def Let_def)

lemma complete_fields [simp]:
  "msg_key (completeAssistantMessage clk m) = msg_key m"
  "msg_from (completeAssistantMessage clk m) = msg_from m"
  "msg_status (completeAssistantMessage clk m) = Some Complete"
  "length (versions (completeAssistantMessage clk m)) = Suc 0"
  "isReasoningStreaming (completeAssistantMessage clk m) = Some False"
  by (simp_all add: completeAssistantMessage_def)

lemma choice_fields [simp]:
  "msg_key (applyChatCompletionChoice clk m c) = msg_key m"
  "msg_from (applyChatCompletionChoice clk m c) = msg_from m"
  "msg_status (applyChatCompletionChoice clk m c) = Some Complete"
  "length (versions (applyChatCompletionChoice clk m c)) = Suc 0"
  by (simp_all add: applyChatCompletionChoice_def)

lemma sanitize_fields [simp]:
  "msg_key (sanitizeMessage t clk m) = msg_key m"
  "msg_from (sanitizeMessage t clk m) = msg_from m"
  "\<not> pending (sanitizeMessage t clk m)"
  "length (versions (sanitizeMessage t clk m)) = Suc 0"
  by (simp_all add: sanitizeMessage_def Let_def pending_def)

lemma lastPendingIndex_None:
  "n \<le> length ms \<Longrightarrow> lastPendingIndex ms n = None \<longleftrightarrow>
     (\<forall>m \<in> set (take n ms). \<not> (msg_from m = RoleAssistant \<and> pending m))"
  by (induction ms n rule: lastPendingIndex.induct)
    (auto simp: isPendingAssistantMessage_def pending_iff take_Suc_conv_app_nth)

lemma lastPendingIndex_Some:
  "lastPendingIndex ms n = Some i \<Longrightarrow>
     i < n \<and> msg_from (ms ! i) = RoleAssistant \<and> pending (ms ! i)
     \<and> (\<forall>j. i < j \<longrightarrow> j < n \<longrightarrow> \<not> (msg_from (ms ! j) = RoleAssistant \<and> pending (ms ! j)))"
  by (induction ms n rule: lastPendingIndex.induct)
    (auto simp: isPendingAssistantMessage_def pending_iff less_Suc_eq split: if_splits)

text \<open>What appending the appendable part of a chunk amounts to.\<close>

definition merge_text :: "jsstr \<Rightarrow> jsstr \<Rightarrow> jsstr" where
  "merge_text acc chunk = (if acc \<noteq> [] \<and> prefix acc chunk then chunk else acc @ chunk)"

lemma append_appendable: "acc @ getAppendableChunk acc chunk = merge_text acc chunk"
  by (auto simp: getAppendableChunk_def merge_text_def starts_with_prefix prefix_def)

lemma chunk_content:
  "msg_status m \<noteq> Some StatusError \<Longrightarrow>
     getMessageContent (applyStreamingChunk clk m ContentChunk c) = merge_text (getMessageContent m) c"
  by (simp add: applyStreamingChunk_def Let_def getMessageContent_def [symmetric] append_appendable)

definition reasoning_text :: "Message \<Rightarrow> jsstr" where
  "reasoning_text m = (case reasoning m of Some r \<Rightarrow> rs_content r | None \<Rightarrow> [])"

lemma chunk_reasoning:
  "msg_status m \<noteq> Some StatusError \<Longrightarrow>
     reasoning_text (applyStreamingChunk clk m ReasoningChunk c) = merge_text (reasoning_text m) c"
  by (simp add: applyStreamingChunk_def Let_def reasoning_text_def append_appendable)

lemma errors_absorb:
  "msg_status m = Some StatusError \<Longrightarrow> applyStreamingChunk clk m ct c = m"
  by (simp add: applyStreamingChunk_def)

lemma foldl_content:
  "msg_status m \<noteq> Some StatusError \<Longrightarrow>
     getMessageContent (foldl (\<lambda>m c. applyStreamingChunk (clk c) m ContentChunk c) m cs) =
       foldl merge_text (getMessageContent m) cs"
  by (induction cs arbitrary: m) (simp_all add: chunk_content)

text \<open>A stream of growing snapshots, each a proper prefix of the next.\<close>

fun snapshots :: "jsstr \<Rightarrow> jsstr list \<Rightarrow> bool" where
  "snapshots acc [] = True"
| "snapshots acc (c # cs) = (prefix acc c \<and> snapshots c cs)"

text \<open>A stream of pieces in which no piece starts with all the text before it.\<close>

fun pieces :: "jsstr \<Rightarrow> jsstr list \<Rightarrow> bool" where
  "pieces acc [] = True"
| "pieces acc (c # cs) = ((acc = [] \<or> \<not> prefix acc c) \<and> pieces (acc @ c) cs)"

lemma foldl_snapshots: "snapshots acc cs \<Longrightarrow> foldl merge_text acc cs = last (acc # cs)"
  by (induction cs arbitrary: acc) (auto simp: merge_text_def)

lemma foldl_pieces: "pieces acc cs \<Longrightarrow> foldl merge_text acc cs = acc @ concat cs"
  by (induction cs arbitrary: acc) (auto simp: merge_text_def)

lemma finalize_content:
  "getMessageContent (finalizeMessage clk m a) =
     (if has_sub OPEN_TAG (getMessageContent m)
      then visibleContent (parseThinkTags (getMessageContent m)) else getMessageContent m)"
  by (simp add: finalizeMessage_def Let_def getMessageContent_def [symmetric])

lemma complete_content:
  "getMessageContent (completeAssistantMessage clk m) = getMessageContent (finalizeMessage clk m None)"
  by (simp add: completeAssistantMessage_def)

lemma finalize_reasoning:
  "reasoning_text (finalizeMessage clk m a) =
     str_or a (str_or (map_option rs_content (reasoning m))
       (if has_sub OPEN_TAG (getMessageContent m)
        then think_reasoning (parseThinkTags (getMessageContent m)) else []))"
  by (simp add: finalizeMessage_def Let_def getMessageContent_def [symmetric] reasoning_text_def
      completeReasoningTiming_def str_or_def split: option.split)

lemma finalize_reasoning_timed:
  "reasoning (finalizeMessage clk m a) = Some r \<Longrightarrow>
     rs_content r \<noteq> [] \<and> rs_startedAt r \<noteq> None \<and> rs_durationMs r \<noteq> None"
  by (auto simp: finalizeMessage_def Let_def completeReasoningTiming_def startReasoningTiming_def
      split: option.splits if_splits)

section \<open>Properties\<close>

text \<open>
  The content of a streamed reply is right in both ways in which providers send it: when
  every chunk repeats the whole text so far, the content is the last chunk; when the chunks
  are pieces, none of which starts with all the text before it, it is their concatenation. No
  chunk changes a message that has failed.
\<close>

theorem streamed_content:
  assumes "msg_status m \<noteq> Some StatusError"
  shows "(snapshots (getMessageContent m) cs \<longrightarrow>
      getMessageContent (foldl (\<lambda>m c. applyStreamingChunk (clk c) m ContentChunk c) m cs) =
        last (getMessageContent m # cs))
    \<and> (pieces (getMessageContent m) cs \<longrightarrow>
      getMessageContent (foldl (\<lambda>m c. applyStreamingChunk (clk c) m ContentChunk c) m cs) =
        getMessageContent m @ concat cs)
    \<and> foldl (\<lambda>m c. applyStreamingChunk (clk c) m ct c) (m\<lparr>msg_status := Some StatusError\<rparr>) cs =
        m\<lparr>msg_status := Some StatusError\<rparr>"
proof -
  have "foldl (\<lambda>m c. applyStreamingChunk (clk c) m ct c) m' cs = m'"
    if "msg_status m' = Some StatusError" for m'
    using that by (induction cs) (simp_all add: errors_absorb)
  then show ?thesis
    using foldl_content [OF assms] foldl_snapshots foldl_pieces by simp
qed

theorem streamed_content_witness:
  "getMessageContent (foldl (\<lambda>m c. applyStreamingChunk (\<lambda>_. 0) m ContentChunk c)
     (createLoadingAssistantMessage sample_ids 0) [js ''Hel'', js ''lo'', js ''!'']) = js ''Hello!''"
proof -
  have p: "pieces [] [js ''Hel'', js ''lo'', js ''!'']" by code_simp
  have c: "concat [js ''Hel'', js ''lo'', js ''!''] = js ''Hello!''" by code_simp
  have "msg_status (createLoadingAssistantMessage sample_ids 0) \<noteq> Some StatusError" by simp
  from streamed_content [OF this, of "[js ''Hel'', js ''lo'', js ''!'']" "\<lambda>_ _. 0" ContentChunk] p c
  show ?thesis by simp
qed

text \<open>
  Completing a reply settles it: the status is complete, nothing is shown as still
  streaming, the content is the visible part of the text, the reasoning is what the stream
  delivered or else what the tags held, with its duration filled in, and the total duration is
  the time since the request and never negative.
\<close>

theorem completed_reply:
  assumes "msg_from m = RoleAssistant" and "startedAt m = Some s"
  shows "msg_status (completeAssistantMessage clk m) = Some Complete
    \<and> isReasoningStreaming (completeAssistantMessage clk m) = Some False
    \<and> getMessageContent (completeAssistantMessage clk m) =
        visibleContent (parseThinkTags (getMessageContent m))
    \<and> reasoning_text (completeAssistantMessage clk m) =
        (if reasoning_text m \<noteq> [] then reasoning_text m
         else think_reasoning (parseThinkTags (getMessageContent m)))
    \<and> (\<forall>r. reasoning (completeAssistantMessage clk m) = Some r \<longrightarrow> rs_durationMs r \<noteq> None)
    \<and> durationMs (completeAssistantMessage clk m) = Some (max 0 (clk 2 - s))"
proof -
  have s: "startedAt (finalizeMessage clk m None) = Some s"
    using assms(2) by (simp add: finalizeMessage_def Let_def)
  have p: "\<not> has_sub OPEN_TAG c \<Longrightarrow> visibleContent (parseThinkTags c) = c \<and> think_reasoning (parseThinkTags c) = []"
    for c by (simp add: parseThinkTags_def)
  have r: "reasoning (completeAssistantMessage clk m) = reasoning (finalizeMessage clk m None)"
    by (simp add: completeAssistantMessage_def)
  have "str_or (map_option rs_content (reasoning m)) x =
      (if reasoning_text m \<noteq> [] then reasoning_text m else x)" for x
    by (simp add: str_or_def reasoning_text_def split: option.split)
  then have "reasoning_text (completeAssistantMessage clk m) =
      (if reasoning_text m \<noteq> [] then reasoning_text m
       else think_reasoning (parseThinkTags (getMessageContent m)))"
    using r finalize_reasoning [of clk m None] p [of "getMessageContent m"]
    by (simp add: reasoning_text_def [of "completeAssistantMessage clk m"]
        reasoning_text_def [of "finalizeMessage clk m None"] str_or_def [of None])
  moreover have "durationMs (completeAssistantMessage clk m) = Some (max 0 (clk 2 - s))"
    using assms(1) s
    by (simp add: completeAssistantMessage_def completeAssistantTiming_def or_else_def get_or_def Let_def)
  ultimately show ?thesis
    using finalize_reasoning_timed [of clk m None]
    by (auto simp: complete_content finalize_content p r)
qed

theorem completed_reply_witness:
  "getMessageContent (completeAssistantMessage (\<lambda>_. 9)
     (updateCurrentVersionContent (createLoadingAssistantMessage sample_ids 4) (js ''<think>a</think> b''))) =
   js ''b''"
proof -
  let ?m = "updateCurrentVersionContent (createLoadingAssistantMessage sample_ids 4) (js ''<think>a</think> b'')"
  have "msg_from ?m = RoleAssistant" "startedAt ?m = Some 4"
    by (simp_all add: createLoadingAssistantMessage_def)
  from completed_reply [OF this, of "\<lambda>_. 9"]
  have "getMessageContent (completeAssistantMessage (\<lambda>_. 9) ?m) =
      visibleContent (parseThinkTags (js ''<think>a</think> b''))" by simp
  also have "\<dots> = js ''b''" by code_simp
  finally show ?thesis .
qed

text \<open>
  Loading a saved conversation leaves no reply pending: if the invariant held when it was
  saved, afterwards it holds without any pending message; at most the last message changed,
  and it kept its key and its role.
\<close>

theorem sanitize_settles:
  assumes "conv_ok ms"
  shows "conv_ok (sanitizeMessagesOnLoad t clk ms)
    \<and> (\<forall>m \<in> set (sanitizeMessagesOnLoad t clk ms). \<not> pending m)
    \<and> butlast (sanitizeMessagesOnLoad t clk ms) = butlast ms
    \<and> map msg_key (sanitizeMessagesOnLoad t clk ms) = map msg_key ms"
proof (cases "lastPendingIndex ms (length ms)")
  case None
  have n: "\<not> pending m" if "m \<in> set ms" for m
  proof (rule conv_ok_settled [OF assms _ that])
    show "ms = [] \<or> \<not> pending (last ms)"
      using None assms lastPendingIndex_None [of "length ms" ms] by (auto simp: conv_ok_def)
  qed
  then show ?thesis using None assms by (simp add: sanitizeMessagesOnLoad_def)
next
  case (Some i)
  let ?s = "sanitizeMessage t clk (ms ! i)"
  from lastPendingIndex_Some [OF Some] have i: "i < length ms" "pending (ms ! i)" by simp_all
  have ne: "ms \<noteq> []" using i(1) by auto
  have l: "i = length ms - 1"
  proof (rule ccontr)
    assume "i \<noteq> length ms - 1"
    with i(1) have "ms ! i \<in> set (butlast ms)" by (metis Suc_pred length_butlast less_SucE
          length_greater_0_conv ne nth_butlast nth_mem One_nat_def diff_Suc_1)
    with assms i(2) show False by (simp add: conv_ok_def)
  qed
  have ok: "conv_ok (ms[i := ?s])"
    by (rule conv_ok_list_update [OF assms i(1)]) simp_all
  have "\<forall>m \<in> set (ms[i := ?s]). \<not> pending m"
    using conv_ok_settled [OF ok] l ne by (simp add: last_list_update)
  moreover have "map msg_key (ms[i := ?s]) = map msg_key ms"
    using i(1) by (metis list_update_id map_update nth_map sanitize_fields(1))
  ultimately show ?thesis
    using ok Some l by (simp add: sanitizeMessagesOnLoad_def butlast_list_update)
qed

theorem sanitize_settles_witness:
  "list_all (\<lambda>m. \<not> pending m) (sanitizeMessagesOnLoad id (\<lambda>_. 3) [createLoadingAssistantMessage sample_ids 0])"
proof -
  have "conv_ok [createLoadingAssistantMessage sample_ids 0]" by (simp add: conv_ok_def)
  from sanitize_settles [OF this] show ?thesis unfolding list_all_iff by blast
qed

end
