(* ===== verification/PgPayload.thy ===== *)
theory PgPayload
  imports PgStreaming
begin

text \<open>
  What the playground sends and receives: the configuration types and defaults,
  \<open>lib/streaming/payload-builder.ts\<close>, \<open>lib/streaming/request-error-utils.ts\<close> and
  \<open>lib/streaming/stream-utils.ts\<close>. Values that come out of \<open>JSON.parse\<close> are JSON values; a
  thrown exception is \<open>Inl\<close>.
\<close>

section \<open>Data\<close>

record PlaygroundConfig =
  cfg_model :: jsstr
  cfg_group :: jsstr
  cfg_temperature :: rat
  cfg_top_p :: rat
  cfg_max_tokens :: rat
  cfg_frequency_penalty :: rat
  cfg_presence_penalty :: rat
  cfg_seed :: "rat option"
  cfg_stream :: bool

record ParameterEnabled =
  on_temperature :: bool
  on_top_p :: bool
  on_max_tokens :: bool
  on_frequency_penalty :: bool
  on_presence_penalty :: bool
  on_seed :: bool

record ChatCompletionRequest =
  req_model :: jsstr
  req_group :: "jsstr option"
  req_messages :: "ChatCompletionMessage list"
  req_stream :: bool
  req_temperature :: "rat option"
  req_top_p :: "rat option"
  req_max_tokens :: "rat option"
  req_frequency_penalty :: "rat option"
  req_presence_penalty :: "rat option"
  req_seed :: "rat option"

definition DEFAULT_GROUP :: jsstr where "DEFAULT_GROUP = js ''default''"

definition DEFAULT_CONFIG :: PlaygroundConfig where
  "DEFAULT_CONFIG = \<lparr>cfg_model = js ''gpt-4o'', cfg_group = DEFAULT_GROUP, cfg_temperature = 7 / 10,
     cfg_top_p = 1, cfg_max_tokens = 4096, cfg_frequency_penalty = 0, cfg_presence_penalty = 0,
     cfg_seed = None, cfg_stream = True\<rparr>"

definition DEFAULT_PARAMETER_ENABLED :: ParameterEnabled where
  "DEFAULT_PARAMETER_ENABLED = \<lparr>on_temperature = True, on_top_p = True, on_max_tokens = False,
     on_frequency_penalty = True, on_presence_penalty = True, on_seed = False\<rparr>"

section \<open>Building a request\<close>

definition buildChatCompletionPayload ::
  "Message list \<Rightarrow> PlaygroundConfig \<Rightarrow> ParameterEnabled \<Rightarrow> ChatCompletionRequest" where
  "buildChatCompletionPayload messages config enabled =
     (let processedMessages = map formatMessageForAPI (filter isValidMessage messages);
          p0 = \<lparr>req_model = cfg_model config, req_group = Some (cfg_group config),
                req_messages = processedMessages, req_stream = cfg_stream config,
                req_temperature = None, req_top_p = None, req_max_tokens = None,
                req_frequency_penalty = None, req_presence_penalty = None, req_seed = None\<rparr>;
          p1 = (if on_temperature enabled then p0\<lparr>req_temperature := Some (cfg_temperature config)\<rparr> else p0);
          p2 = (if on_top_p enabled then p1\<lparr>req_top_p := Some (cfg_top_p config)\<rparr> else p1);
          p3 = (if on_max_tokens enabled then p2\<lparr>req_max_tokens := Some (cfg_max_tokens config)\<rparr> else p2);
          p4 = (if on_frequency_penalty enabled
                then p3\<lparr>req_frequency_penalty := Some (cfg_frequency_penalty config)\<rparr> else p3);
          p5 = (if on_presence_penalty enabled
                then p4\<lparr>req_presence_penalty := Some (cfg_presence_penalty config)\<rparr> else p4)
      in if on_seed enabled \<and> cfg_seed config \<noteq> None then p5\<lparr>req_seed := cfg_seed config\<rparr> else p5)"

section \<open>Errors of a request\<close>

definition truthy_or_undefined :: "json option \<Rightarrow> json option" where
  "truthy_or_undefined a = (case a of Some v \<Rightarrow> if json_truthy v then Some v else None | None \<Rightarrow> None)"

definition get_path :: "json option \<Rightarrow> jsstr list \<Rightarrow> json option" where
  "get_path j ks = foldl (\<lambda>o' k. Option.bind o' (\<lambda>v. json_get v k)) j ks"

record ErrorDetails =
  err_code :: "json option"
  err_message :: json

definition parseRequestErrorDetails :: "json option \<Rightarrow> ErrorDetails" where
  "parseRequestErrorDetails requestError =
     \<lparr>err_code = truthy_or_undefined
        (get_path requestError [js ''response'', js ''data'', js ''error'', js ''code'']),
      err_message = json_or (get_path requestError [js ''response'', js ''data'', js ''message''])
        (json_or (get_path requestError [js ''message'']) (JStr API_REQUEST_ERROR))\<rparr>"

section \<open>Events of a stream\<close>

definition STREAM_DONE_MESSAGE :: jsstr where "STREAM_DONE_MESSAGE = js ''[DONE]''"
definition STREAM_CLOSED_READY_STATE :: int where "STREAM_CLOSED_READY_STATE = 2"

record StreamMessageUpdate =
  upd_type :: StreamChunkType
  upd_chunk :: json

definition parseStreamErrorDetails :: "jsstr option \<Rightarrow> ErrorDetails" where
  "parseStreamErrorDetails data =
     (let fallbackMessage = JStr (str_or data API_REQUEST_ERROR)
      in if str_or data [] = [] then \<lparr>err_code = None, err_message = fallbackMessage\<rparr>
         else case json_parse (the data) of
                None \<Rightarrow> \<lparr>err_code = None, err_message = fallbackMessage\<rparr>
              | Some parsed \<Rightarrow>
                  (case truthy_or_undefined (json_get parsed (js ''error'')) of
                     None \<Rightarrow> \<lparr>err_code = None, err_message = fallbackMessage\<rparr>
                   | Some e \<Rightarrow>
                       \<lparr>err_code = truthy_or_undefined (json_get e (js ''code'')),
                        err_message = json_or (json_get e (js ''message'')) fallbackMessage\<rparr>))"

text \<open>
  \<open>chunk.choices?.[0]?.delta\<close>: reading a property of \<open>null\<close> throws, \<open>[0]\<close> reads the property
  named 0 of an array, a string or an object.
\<close>

definition chunkDelta :: "json \<Rightarrow> js_error + json option" where
  "chunkDelta chunk =
     (if chunk = JNull then Inl TypeError
      else Inr (Option.bind (Option.bind (json_get chunk (js ''choices''))
                  (\<lambda>cs. map_of (spread cs) (nat_str 0)))
                (\<lambda>c. json_get c (js ''delta''))))"

definition deltaUpdates :: "json \<Rightarrow> StreamMessageUpdate list" where
  "deltaUpdates delta =
     (case truthy_or_undefined (json_get delta (js ''reasoning_content'')) of
        Some c \<Rightarrow> [\<lparr>upd_type = ReasoningChunk, upd_chunk = c\<rparr>] | None \<Rightarrow> [])
   @ (case truthy_or_undefined (json_get delta (js ''content'')) of
        Some c \<Rightarrow> [\<lparr>upd_type = ContentChunk, upd_chunk = c\<rparr>] | None \<Rightarrow> [])"

definition parseStreamMessageUpdates :: "jsstr \<Rightarrow> js_error + StreamMessageUpdate list" where
  "parseStreamMessageUpdates data =
     (case json_parse data of
        None \<Rightarrow> Inl SyntaxError
      | Some chunk \<Rightarrow>
          (case chunkDelta chunk of
             Inl e \<Rightarrow> Inl e
           | Inr delta \<Rightarrow>
               (case truthy_or_undefined delta of
                  None \<Rightarrow> Inr []
                | Some d \<Rightarrow> Inr (deltaUpdates d))))"

definition isStreamDoneMessage :: "jsstr \<Rightarrow> bool" where
  "isStreamDoneMessage data = (data = STREAM_DONE_MESSAGE)"

definition isStreamClosedReadyState :: "int option \<Rightarrow> bool" where
  "isStreamClosedReadyState readyState = (readyState = Some STREAM_CLOSED_READY_STATE)"

definition getStreamReadyStateError :: "int option \<Rightarrow> int option \<Rightarrow> jsstr option" where
  "getStreamReadyStateError eventReadyState status =
     (case (eventReadyState, status) of
        (Some r, Some s) \<Rightarrow>
          if r \<ge> STREAM_CLOSED_READY_STATE \<and> s \<noteq> 200
          then Some (js ''HTTP '' @ int_str s @ js '': '' @ CONNECTION_CLOSED) else None
      | _ \<Rightarrow> None)"

section \<open>Lemmas\<close>

lemma API_REQUEST_ERROR_not_Nil [simp]: "API_REQUEST_ERROR \<noteq> []"
  by (simp add: API_REQUEST_ERROR_def)

lemma json_or_truthy: "json_truthy b \<Longrightarrow> json_truthy (json_or a b)"
  by (simp add: json_or_def split: option.split)

lemma loading_invalid [simp]: "\<not> isValidMessage (createLoadingAssistantMessage ids now)"
  by (simp add: isValidMessage_def hasMessageContent_def)

lemma user_valid [simp]: "isValidMessage (createUserMessage ids content now)"
  by (simp add: isValidMessage_def createUserMessage_def)

lemma payload_messages:
  "req_messages (buildChatCompletionPayload ms config enabled) = map formatMessageForAPI (filter isValidMessage ms)"
  by (simp add: buildChatCompletionPayload_def Let_def)

section \<open>Properties\<close>

text \<open>
  A request carries exactly the parameters that are switched on (the seed only when it is
  set), and the conversation in order without the assistant messages that have no text; the
  reply that is being waited for is never sent: after the user submits a text the request
  ends with that text.
\<close>

theorem payload_exact:
  "req_messages (buildChatCompletionPayload (appendUserMessagePair ids now ms content) config enabled) =
     map formatMessageForAPI (filter isValidMessage ms)
       @ [\<lparr>chat_role = RoleUser, chat_content = PlainContent content\<rparr>]
   \<and> (\<forall>m \<in> set (req_messages (buildChatCompletionPayload ms config enabled)).
        \<exists>text. chat_content m = PlainContent text \<and> (chat_role m = RoleAssistant \<longrightarrow> trim text \<noteq> []))
   \<and> req_temperature (buildChatCompletionPayload ms config enabled) =
       (if on_temperature enabled then Some (cfg_temperature config) else None)
   \<and> req_top_p (buildChatCompletionPayload ms config enabled) =
       (if on_top_p enabled then Some (cfg_top_p config) else None)
   \<and> req_max_tokens (buildChatCompletionPayload ms config enabled) =
       (if on_max_tokens enabled then Some (cfg_max_tokens config) else None)
   \<and> req_frequency_penalty (buildChatCompletionPayload ms config enabled) =
       (if on_frequency_penalty enabled then Some (cfg_frequency_penalty config) else None)
   \<and> req_presence_penalty (buildChatCompletionPayload ms config enabled) =
       (if on_presence_penalty enabled then Some (cfg_presence_penalty config) else None)
   \<and> req_seed (buildChatCompletionPayload ms config enabled) =
       (if on_seed enabled then cfg_seed config else None)"
proof -
  have "req_messages (buildChatCompletionPayload (appendUserMessagePair ids now ms content) config enabled) =
     map formatMessageForAPI (filter isValidMessage ms)
       @ [\<lparr>chat_role = RoleUser, chat_content = PlainContent content\<rparr>]"
    by (simp add: payload_messages appendUserMessagePair_def formatMessageForAPI_def
        getMessageContent_def [symmetric])
  moreover have "\<forall>m \<in> set (req_messages (buildChatCompletionPayload ms config enabled)).
      \<exists>text. chat_content m = PlainContent text \<and> (chat_role m = RoleAssistant \<longrightarrow> trim text \<noteq> [])"
    by (auto simp: payload_messages formatMessageForAPI_def isValidMessage_def hasMessageContent_def
        getMessageContent_def split: if_splits)
  ultimately show ?thesis by (simp add: buildChatCompletionPayload_def Let_def)
qed

theorem payload_exact_witness:
  "req_messages (buildChatCompletionPayload (appendUserMessagePair sample_ids 0 [] (js ''hi''))
     DEFAULT_CONFIG DEFAULT_PARAMETER_ENABLED) =
   [\<lparr>chat_role = RoleUser, chat_content = PlainContent (js ''hi'')\<rparr>]"
  using payload_exact [of sample_ids 0 "[]" "js ''hi''" DEFAULT_CONFIG DEFAULT_PARAMETER_ENABLED]
  by simp

text \<open>
  A data event in the format of the backend is understood: from the text of a chunk whose
  first choice has a delta, the reasoning piece and then the content piece are extracted,
  missing and empty ones skipped; a text that is not JSON is reported as an exception.
\<close>

theorem stream_event_understood:
  assumes "wf_json (JObj ((js ''choices'', JArr (JObj [(js ''delta'', JObj delta)] # rest)) # others))"
    and "json_parse bad = None"
  shows "parseStreamMessageUpdates
      (stringify (JObj ((js ''choices'', JArr (JObj [(js ''delta'', JObj delta)] # rest)) # others))) =
      Inr (deltaUpdates (JObj delta))
    \<and> (map_of delta (js ''content'') = Some (JStr s) \<longrightarrow> s \<noteq> [] \<longrightarrow>
         map_of delta (js ''reasoning_content'') = None \<longrightarrow>
         deltaUpdates (JObj delta) = [\<lparr>upd_type = ContentChunk, upd_chunk = JStr s\<rparr>])
    \<and> parseStreamMessageUpdates bad = Inl SyntaxError"
  using json_text.decode_encode [OF assms(1)] assms(2)
  by (simp add: parseStreamMessageUpdates_def chunkDelta_def json_get_def truthy_or_undefined_def
      deltaUpdates_def)

theorem stream_event_understood_witness:
  "parseStreamMessageUpdates (stringify (JObj [(js ''choices'',
     JArr [JObj [(js ''delta'', JObj [(js ''content'', JStr (js ''Hi''))])]])])) =
   Inr [\<lparr>upd_type = ContentChunk, upd_chunk = JStr (js ''Hi'')\<rparr>]"
proof -
  let ?d = "[(js ''content'', JStr (js ''Hi''))]"
  have "wf_json (JObj [(js ''choices'', JArr [JObj [(js ''delta'', JObj ?d)]])])" by code_simp
  moreover have "json_parse (js ''{'') = None" by code_simp
  moreover have "map_of ?d (js ''reasoning_content'') = None" by (simp add: js_eval)
  ultimately show ?thesis
    using stream_event_understood [of ?d "[]" "[]" "js ''{''" "js ''Hi''"] by simp
qed

text \<open>
  No error is shown blank: whatever the failed request or the error event carried, the
  message extracted from it is not empty, and a structured error keeps its own message.
\<close>

theorem error_message_nonblank:
  "json_truthy (err_message (parseRequestErrorDetails e))
   \<and> json_truthy (err_message (parseStreamErrorDetails data))
   \<and> (\<forall>c. err_code (parseStreamErrorDetails data) = Some c \<longrightarrow> json_truthy c)
   \<and> (\<forall>m. wf_json (JObj [(js ''error'', JObj [(js ''message'', JStr m)])]) \<longrightarrow> m \<noteq> [] \<longrightarrow>
        parseStreamErrorDetails (Some (stringify (JObj [(js ''error'', JObj [(js ''message'', JStr m)])]))) =
          \<lparr>err_code = None, err_message = JStr m\<rparr>)"
proof (intro conjI allI impI)
  show "json_truthy (err_message (parseRequestErrorDetails e))"
    by (simp add: parseRequestErrorDetails_def json_or_truthy)
  have "json_truthy (JStr (str_or data API_REQUEST_ERROR))"
    by (simp add: str_or_def split: option.split)
  then show "json_truthy (err_message (parseStreamErrorDetails data))"
    by (simp add: parseStreamErrorDetails_def Let_def json_or_truthy split: option.split)
next
  fix c assume "err_code (parseStreamErrorDetails data) = Some c"
  then show "json_truthy c"
    by (auto simp: parseStreamErrorDetails_def Let_def truthy_or_undefined_def
        split: option.splits if_splits)
next
  fix m assume w: "wf_json (JObj [(js ''error'', JObj [(js ''message'', JStr m)])])" and "m \<noteq> []"
  moreover obtain c cs where "stringify (JObj [(js ''error'', JObj [(js ''message'', JStr m)])]) = c # cs"
    using stringify_hd by blast
  moreover have "js ''code'' \<noteq> js ''message''" by (simp add: js_eval)
  ultimately show "parseStreamErrorDetails (Some (stringify (JObj [(js ''error'', JObj [(js ''message'', JStr m)])]))) =
      \<lparr>err_code = None, err_message = JStr m\<rparr>"
    using json_text.decode_encode [OF w]
    by (simp add: parseStreamErrorDetails_def Let_def str_or_def truthy_or_undefined_def json_get_def json_or_def)
qed

theorem error_message_nonblank_witness:
  "parseStreamErrorDetails (Some (stringify (JObj [(js ''error'', JObj [(js ''message'', JStr (js ''quota''))])]))) =
     \<lparr>err_code = None, err_message = JStr (js ''quota'')\<rparr>"
proof -
  have "wf_json (JObj [(js ''error'', JObj [(js ''message'', JStr (js ''quota''))])])" by code_simp
  then show ?thesis using error_message_nonblank [of None None] by simp
qed

end
