(* ===== verification/PgChat.thy ===== *)
theory PgChat
  imports PgPayload
begin

text \<open>
  The running playground: \<open>hooks/use-chat-handler.ts\<close>, \<open>hooks/use-stream-request.ts\<close>,
  \<open>hooks/use-playground-conversation.ts\<close> and \<open>hooks/use-message-action-guard.ts\<close>. The React state
  and the refs of the three hooks are one record, each callback is a function on it, and the
  interleaving of user actions, timer, stream events and responses is a step relation.

  The SSE object and the HTTP client are outside the source: a stream is a number, its events
  are arguments, and the log of the requests is part of the state. That a closed stream
  delivers no events and that \<open>nanoid\<close> makes new identifiers are guards of the step relation.
\<close>

section \<open>State\<close>

record ChatState =
  messages :: "Message list"
  isRequesting :: bool
  isStreaming :: bool
  pendingContent :: jsstr
  pendingReasoning :: jsstr
  flushTimer :: bool
  requestId :: nat
  abortController :: "nat option"
  aborted :: "nat list"
  inFlight :: "nat list"
  sseSource :: "nat option"
  closedSources :: "nat list"
  nextSource :: nat
  isStreamComplete :: bool
  requests :: "ChatCompletionRequest list"
  toasts :: "jsstr list"
  editingMessageKey :: "jsstr option"

definition isGenerating :: "ChatState \<Rightarrow> bool" where
  "isGenerating st = (isStreaming st \<or> isRequesting st)"

section \<open>use-chat-handler.ts\<close>

definition mergePendingStreamChunk :: "jsstr \<Rightarrow> jsstr \<Rightarrow> jsstr" where
  "mergePendingStreamChunk currentChunk nextChunk =
     (if currentChunk = [] \<or> \<not> starts_with currentChunk nextChunk then currentChunk @ nextChunk
      else nextChunk)"

definition flushMessage :: "clock \<Rightarrow> jsstr \<Rightarrow> jsstr \<Rightarrow> Message \<Rightarrow> Message" where
  "flushMessage clk rs content message =
     (let m1 = (if rs \<noteq> [] then applyStreamingChunk clk message ReasoningChunk rs else message)
      in if content \<noteq> [] then applyStreamingChunk (\<lambda>n. clk (n + 2)) m1 ContentChunk content else m1)"

definition flushStreamUpdates :: "clock \<Rightarrow> ChatState \<Rightarrow> ChatState" where
  "flushStreamUpdates clk st =
     (let st1 = st\<lparr>flushTimer := False\<rparr>
      in if pendingReasoning st = [] \<and> pendingContent st = [] then st1
         else st1\<lparr>pendingContent := [], pendingReasoning := [],
                messages := updateLastAssistantMessage (messages st)
                  (flushMessage clk (pendingReasoning st) (pendingContent st))\<rparr>)"

definition scheduleStreamFlush :: "ChatState \<Rightarrow> ChatState" where
  "scheduleStreamFlush st = (if flushTimer st then st else st\<lparr>flushTimer := True\<rparr>)"

definition getDisplayError :: "(jsstr \<Rightarrow> jsstr) \<Rightarrow> jsstr \<Rightarrow> jsstr" where
  "getDisplayError t error =
     (if error \<in> set ERROR_MESSAGES then t error
      else if ends_with (js '': '' @ CONNECTION_CLOSED) error
      then take (length error - length CONNECTION_CLOSED) error @ t CONNECTION_CLOSED
      else error)"

definition handleStreamUpdate :: "StreamChunkType \<Rightarrow> jsstr \<Rightarrow> ChatState \<Rightarrow> ChatState" where
  "handleStreamUpdate ctype chunk st =
     scheduleStreamFlush
       (case ctype of
          ReasoningChunk \<Rightarrow> st\<lparr>pendingReasoning := mergePendingStreamChunk (pendingReasoning st) chunk\<rparr>
        | ContentChunk \<Rightarrow> st\<lparr>pendingContent := mergePendingStreamChunk (pendingContent st) chunk\<rparr>)"

definition handleStreamComplete :: "clock \<Rightarrow> ChatState \<Rightarrow> ChatState" where
  "handleStreamComplete clk st =
     (let st1 = (flushStreamUpdates clk st)\<lparr>isRequesting := False\<rparr>
      in st1\<lparr>messages := updateLastAssistantMessage (messages st1)
             (\<lambda>m. if isAssistantMessageFinal m then m else completeAssistantMessage (\<lambda>n. clk (n + 4)) m)\<rparr>)"

definition handleStreamError ::
  "(jsstr \<Rightarrow> jsstr) \<Rightarrow> clock \<Rightarrow> jsstr \<Rightarrow> jsstr option \<Rightarrow> ChatState \<Rightarrow> ChatState" where
  "handleStreamError t clk error code st =
     (let st1 = (flushStreamUpdates clk st)\<lparr>isRequesting := False\<rparr>;
          displayError = getDisplayError t error;
          errorTitle = t API_REQUEST_ERROR
      in st1\<lparr>toasts := toasts st1 @ [displayError],
           messages := updateAssistantMessageWithError (messages st1) displayError code errorTitle (clk 4)\<rparr>)"

section \<open>use-stream-request.ts\<close>

definition closeActiveStream :: "nat option \<Rightarrow> ChatState \<Rightarrow> ChatState" where
  "closeActiveStream source st =
     (let streamSource = or_else source (sseSource st);
          st1 = (case streamSource of
                   Some s \<Rightarrow> st\<lparr>closedSources := s # closedSources st\<rparr>
                 | None \<Rightarrow> st)
      in if source = None \<or> sseSource st = source
         then st1\<lparr>sseSource := None, isStreaming := False\<rparr> else st1)"

definition handleError ::
  "(jsstr \<Rightarrow> jsstr) \<Rightarrow> clock \<Rightarrow> nat \<Rightarrow> jsstr \<Rightarrow> jsstr option \<Rightarrow> ChatState \<Rightarrow> ChatState" where
  "handleError t clk source errorMessage code st =
     (if \<not> isStreamComplete st
      then closeActiveStream (Some source) (handleStreamError t clk errorMessage code st) else st)"

text \<open>\<open>startFails\<close> says whether \<open>source.stream()\<close> throws.\<close>

definition sendStreamRequest ::
  "(jsstr \<Rightarrow> jsstr) \<Rightarrow> clock \<Rightarrow> bool \<Rightarrow> ChatCompletionRequest \<Rightarrow> ChatState \<Rightarrow> ChatState" where
  "sendStreamRequest t clk startFails payload st =
     (let st1 = (case sseSource st of
                   Some s \<Rightarrow> st\<lparr>closedSources := s # closedSources st\<rparr>
                 | None \<Rightarrow> st);
          source = nextSource st1;
          st2 = st1\<lparr>nextSource := source + 1, sseSource := Some source, isStreamComplete := False,
                  isStreaming := True, requests := requests st1 @ [payload]\<rparr>
      in if startFails
         then closeActiveStream (Some source) (handleStreamError t clk STREAM_START_ERROR None st2)
         else st2)"

definition stopStream :: "ChatState \<Rightarrow> ChatState" where
  "stopStream st = closeActiveStream None st"

text \<open>
  The listeners. A payload whose message, code or chunk is not the declared string is not
  followed further: the result is \<open>Inl\<close>.
\<close>

fun typed_string :: "json option \<Rightarrow> js_error + jsstr option" where
  "typed_string None = Inr None"
| "typed_string (Some (JStr s)) = Inr (Some s)"
| "typed_string (Some _) = Inl TypeError"

fun applyUpdates :: "StreamMessageUpdate list \<Rightarrow> ChatState \<Rightarrow> js_error + ChatState" where
  "applyUpdates [] st = Inr st"
| "applyUpdates (u # us) st =
     (case upd_chunk u of
        JStr chunk \<Rightarrow> applyUpdates us (handleStreamUpdate (upd_type u) chunk st)
      | _ \<Rightarrow> Inl TypeError)"

definition onMessageEvent ::
  "(jsstr \<Rightarrow> jsstr) \<Rightarrow> clock \<Rightarrow> nat \<Rightarrow> jsstr \<Rightarrow> ChatState \<Rightarrow> js_error + ChatState" where
  "onMessageEvent t clk source data st =
     (if isStreamDoneMessage data
      then Inr (handleStreamComplete clk (closeActiveStream (Some source) (st\<lparr>isStreamComplete := True\<rparr>)))
      else case parseStreamMessageUpdates data of
             Inl e \<Rightarrow> Inr (handleError t clk source PARSE_ERROR None st)
           | Inr updates \<Rightarrow> applyUpdates updates st)"

definition onErrorEvent ::
  "(jsstr \<Rightarrow> jsstr) \<Rightarrow> clock \<Rightarrow> nat \<Rightarrow> int option \<Rightarrow> jsstr option \<Rightarrow> ChatState \<Rightarrow> js_error + ChatState" where
  "onErrorEvent t clk source readyState data st =
     (if isStreamClosedReadyState readyState then Inr st
      else let details = parseStreamErrorDetails data
           in case (err_message details, typed_string (err_code details)) of
                (JStr errorMessage, Inr code) \<Rightarrow> Inr (handleError t clk source errorMessage code st)
              | _ \<Rightarrow> Inl TypeError)"

definition onReadyStateChange ::
  "(jsstr \<Rightarrow> jsstr) \<Rightarrow> clock \<Rightarrow> nat \<Rightarrow> int option \<Rightarrow> int option \<Rightarrow> ChatState \<Rightarrow> ChatState" where
  "onReadyStateChange t clk source readyState status st =
     (case getStreamReadyStateError readyState status of
        Some errorMessage \<Rightarrow> if errorMessage = [] then st else handleError t clk source errorMessage None st
      | None \<Rightarrow> st)"

section \<open>Sending and stopping\<close>

definition sendStreamingChat ::
  "(jsstr \<Rightarrow> jsstr) \<Rightarrow> clock \<Rightarrow> bool \<Rightarrow> PlaygroundConfig \<Rightarrow> ParameterEnabled \<Rightarrow> Message list
     \<Rightarrow> ChatState \<Rightarrow> ChatState" where
  "sendStreamingChat t clk startFails config enabled msgs st =
     sendStreamRequest t clk startFails (buildChatCompletionPayload msgs config enabled)
       (st\<lparr>isRequesting := True\<rparr>)"

text \<open>The synchronous part of the non-streaming request, up to the \<open>await\<close>.\<close>

definition sendNonStreamingChat ::
  "PlaygroundConfig \<Rightarrow> ParameterEnabled \<Rightarrow> Message list \<Rightarrow> ChatState \<Rightarrow> ChatState" where
  "sendNonStreamingChat config enabled msgs st =
     (let payload = buildChatCompletionPayload msgs config enabled;
          rid = requestId st + 1
      in st\<lparr>requestId := rid, abortController := Some rid, isRequesting := True,
           inFlight := rid # inFlight st, requests := requests st @ [payload]\<rparr>)"

definition finishRequest :: "nat \<Rightarrow> ChatState \<Rightarrow> ChatState" where
  "finishRequest rid st =
     (let st1 = st\<lparr>inFlight := removeAll rid (inFlight st)\<rparr>
      in if requestId st = rid then st1\<lparr>abortController := None, isRequesting := False\<rparr> else st1)"

text \<open>The rest of it when the response is there, and when the request was rejected.\<close>

definition onResponse ::
  "(jsstr \<Rightarrow> jsstr) \<Rightarrow> clock \<Rightarrow> nat \<Rightarrow> ChatCompletionResponse \<Rightarrow> ChatState \<Rightarrow> ChatState" where
  "onResponse t clk rid response st =
     finishRequest rid
       (if rid \<in> set (aborted st) then st
        else if \<not> hasChatCompletionChoice response then handleStreamError t clk API_REQUEST_ERROR None st
        else st\<lparr>messages := updateLastAssistantMessage (messages st)
               (\<lambda>m. get_or (applyChatCompletionResponse clk m response) m)\<rparr>)"

definition onRejected ::
  "(jsstr \<Rightarrow> jsstr) \<Rightarrow> clock \<Rightarrow> nat \<Rightarrow> json option \<Rightarrow> ChatState \<Rightarrow> js_error + ChatState" where
  "onRejected t clk rid error st =
     (if rid \<in> set (aborted st) then Inr (finishRequest rid st)
      else let details = parseRequestErrorDetails error
           in case (err_message details, typed_string (err_code details)) of
                (JStr errorMessage, Inr code) \<Rightarrow>
                  Inr (finishRequest rid (handleStreamError t clk errorMessage code st))
              | _ \<Rightarrow> Inl TypeError)"

definition sendChat ::
  "(jsstr \<Rightarrow> jsstr) \<Rightarrow> clock \<Rightarrow> bool \<Rightarrow> PlaygroundConfig \<Rightarrow> ParameterEnabled \<Rightarrow> Message list
     \<Rightarrow> ChatState \<Rightarrow> ChatState" where
  "sendChat t clk startFails config enabled msgs st =
     (if cfg_stream config then sendStreamingChat t clk startFails config enabled msgs st
      else sendNonStreamingChat config enabled msgs st)"

definition stopGeneration :: "clock \<Rightarrow> ChatState \<Rightarrow> ChatState" where
  "stopGeneration clk st =
     (let st1 = flushStreamUpdates clk (stopStream st);
          st2 = st1\<lparr>aborted := (case abortController st1 of Some r \<Rightarrow> r # aborted st1 | None \<Rightarrow> aborted st1),
                  abortController := None, isRequesting := False\<rparr>
      in st2\<lparr>messages := updateLastAssistantMessage (messages st2)
             (\<lambda>m. if isAssistantMessagePending m then completeAssistantMessage (\<lambda>n. clk (n + 4)) m else m)\<rparr>)"

section \<open>use-playground-conversation.ts\<close>

definition handleSendMessage ::
  "(jsstr \<Rightarrow> jsstr) \<Rightarrow> clock \<Rightarrow> idgen \<Rightarrow> bool \<Rightarrow> PlaygroundConfig \<Rightarrow> ParameterEnabled \<Rightarrow> jsstr
     \<Rightarrow> ChatState \<Rightarrow> ChatState" where
  "handleSendMessage t clk nanoid startFails config enabled text st =
     (let nextMessages = appendUserMessagePair nanoid (clk 0) (messages st) text
      in sendChat t (\<lambda>n. clk (n + 1)) startFails config enabled nextMessages (st\<lparr>messages := nextMessages\<rparr>))"

definition handleRegenerateMessage ::
  "(jsstr \<Rightarrow> jsstr) \<Rightarrow> clock \<Rightarrow> idgen \<Rightarrow> bool \<Rightarrow> PlaygroundConfig \<Rightarrow> ParameterEnabled \<Rightarrow> Message
     \<Rightarrow> ChatState \<Rightarrow> ChatState" where
  "handleRegenerateMessage t clk nanoid startFails config enabled message st =
     (case createRegeneratedMessages nanoid (clk 0) (messages st) (msg_key message) of
        None \<Rightarrow> st
      | Some nextMessages \<Rightarrow>
          sendChat t (\<lambda>n. clk (n + 1)) startFails config enabled nextMessages (st\<lparr>messages := nextMessages\<rparr>))"

definition handleEditMessage :: "Message \<Rightarrow> ChatState \<Rightarrow> ChatState" where
  "handleEditMessage message st = st\<lparr>editingMessageKey := Some (msg_key message)\<rparr>"

definition handleEditOpenChange :: "bool \<Rightarrow> ChatState \<Rightarrow> ChatState" where
  "handleEditOpenChange opn st = (if \<not> opn then st\<lparr>editingMessageKey := None\<rparr> else st)"

definition applyEdit ::
  "(jsstr \<Rightarrow> jsstr) \<Rightarrow> clock \<Rightarrow> idgen \<Rightarrow> bool \<Rightarrow> PlaygroundConfig \<Rightarrow> ParameterEnabled \<Rightarrow> jsstr \<Rightarrow> bool
     \<Rightarrow> ChatState \<Rightarrow> ChatState" where
  "applyEdit t clk nanoid startFails config enabled newContent shouldSubmit st =
     (case editingMessageKey st of
        None \<Rightarrow> st
      | Some k \<Rightarrow>
          if k = [] then st
          else case applyMessageEdit nanoid (clk 0) (messages st) k newContent shouldSubmit of
                 None \<Rightarrow> st
               | Some editResult \<Rightarrow>
                   let st1 = st\<lparr>editingMessageKey := None, messages := edit_messages editResult\<rparr>
                   in if shouldSend editResult
                      then sendChat t (\<lambda>n. clk (n + 1)) startFails config enabled (edit_messages editResult) st1
                      else st1)"

definition handleDeleteMessage :: "Message \<Rightarrow> ChatState \<Rightarrow> ChatState" where
  "handleDeleteMessage message st = st\<lparr>messages := removeMessageByKey (messages st) (msg_key message)\<rparr>"

definition clearMessages :: "ChatState \<Rightarrow> ChatState" where
  "clearMessages st = st\<lparr>messages := []\<rparr>"

text \<open>\<open>guardAction\<close>: an action is refused while a reply is being generated.\<close>

definition guardAction :: "(jsstr \<Rightarrow> jsstr) \<Rightarrow> (ChatState \<Rightarrow> ChatState) \<Rightarrow> ChatState \<Rightarrow> ChatState" where
  "guardAction t action st =
     (if isGenerating st
      then st\<lparr>toasts := toasts st @ [t (js ''Please wait for the current generation to complete'')]\<rparr>
      else action st)"

section \<open>Runs\<close>

definition initialChat :: "Message list \<Rightarrow> ChatState" where
  "initialChat ms =
     \<lparr>messages = ms, isRequesting = False, isStreaming = False, pendingContent = [],
      pendingReasoning = [], flushTimer = False, requestId = 0, abortController = None, aborted = [],
      inFlight = [], sseSource = None, closedSources = [], nextSource = 0, isStreamComplete = False,
      requests = [], toasts = [], editingMessageKey = None\<rparr>"

definition fresh_ids :: "idgen \<Rightarrow> Message list \<Rightarrow> bool" where
  "fresh_ids nanoid ms \<longleftrightarrow> nanoid 0 \<noteq> nanoid 2 \<and> nanoid 0 \<notin> msg_key ` set ms \<and> nanoid 2 \<notin> msg_key ` set ms"

definition live :: "nat \<Rightarrow> ChatState \<Rightarrow> bool" where
  "live s st \<longleftrightarrow> s < nextSource st \<and> s \<notin> set (closedSources st)"

text \<open>
  One step. The input is disabled and the message actions are guarded while a reply is being
  generated; saving an edit, clearing and stopping are possible at any time.
\<close>

inductive chat_step :: "ChatState \<Rightarrow> ChatState \<Rightarrow> bool" where
  send: "\<not> isGenerating st \<Longrightarrow> fresh_ids nanoid (messages st) \<Longrightarrow>
    chat_step st (handleSendMessage t clk nanoid startFails config enabled text st)"
| regenerate: "fresh_ids nanoid (messages st) \<Longrightarrow>
    chat_step st (guardAction t (handleRegenerateMessage t clk nanoid startFails config enabled m) st)"
| edit: "chat_step st (guardAction t (handleEditMessage m) st)"
| edit_open: "chat_step st (handleEditOpenChange b st)"
| save: "fresh_ids nanoid (messages st) \<Longrightarrow>
    chat_step st (applyEdit t clk nanoid startFails config enabled content submit st)"
| delete: "chat_step st (guardAction t (handleDeleteMessage m) st)"
| clear: "chat_step st (clearMessages st)"
| stop: "chat_step st (stopGeneration clk st)"
| timer: "flushTimer st \<Longrightarrow> chat_step st (flushStreamUpdates clk st)"
| message_event: "live s st \<Longrightarrow> onMessageEvent t clk s data st = Inr st' \<Longrightarrow> chat_step st st'"
| error_event: "live s st \<Longrightarrow> onErrorEvent t clk s readyState errdata st = Inr st' \<Longrightarrow> chat_step st st'"
| ready_event: "live s st \<Longrightarrow> chat_step st (onReadyStateChange t clk s readyState status st)"
| response: "r \<in> set (inFlight st) \<Longrightarrow> chat_step st (onResponse t clk r resp st)"
| rejected: "r \<in> set (inFlight st) \<Longrightarrow> onRejected t clk r err st = Inr st' \<Longrightarrow> chat_step st st'"

inductive reachable :: "Message list \<Rightarrow> ChatState \<Rightarrow> bool" where
  init: "reachable ms (initialChat ms)"
| step: "reachable ms st \<Longrightarrow> chat_step st st' \<Longrightarrow> reachable ms st'"

section \<open>Invariant\<close>

definition settled :: "Message list \<Rightarrow> bool" where
  "settled ms \<longleftrightarrow> ms = [] \<or> \<not> pending (last ms)"

text \<open>The connections: at most one stream is live, and it is the current one.\<close>

definition conn_inv :: "ChatState \<Rightarrow> bool" where
  "conn_inv st \<longleftrightarrow> (\<forall>s. live s st \<longrightarrow> Some s = sseSource st)
     \<and> (isStreaming st \<longleftrightarrow> sseSource st \<noteq> None)
     \<and> (\<forall>s. sseSource st = Some s \<longrightarrow> s < nextSource st)
     \<and> (\<forall>a \<in> set (aborted st). a \<le> requestId st)
     \<and> (\<forall>r. abortController st = Some r \<longrightarrow> r \<le> requestId st)"

definition buffers_empty :: "ChatState \<Rightarrow> bool" where
  "buffers_empty st \<longleftrightarrow> pendingContent st = [] \<and> pendingReasoning st = []"

text \<open>A request that still answers for the pending reply.\<close>

definition awaited :: "ChatState \<Rightarrow> bool" where
  "awaited st \<longleftrightarrow> isRequesting st \<and> requestId st \<in> set (inFlight st) \<and> requestId st \<notin> set (aborted st)"

definition chat_inv :: "ChatState \<Rightarrow> bool" where
  "chat_inv st \<longleftrightarrow> conn_inv st \<and> conv_ok (messages st)
     \<and> (buffers_empty st \<or> isStreaming st)
     \<and> (settled (messages st) \<or> isStreaming st \<or> awaited st)"

lemmas inv_defs = chat_inv_def conn_inv_def buffers_empty_def awaited_def live_def

named_theorems conn_simps \<open>connection fields that a handler leaves alone\<close>

lemma flush_conn [conn_simps, simp]:
  "isStreaming (flushStreamUpdates clk st) = isStreaming st"
  "isRequesting (flushStreamUpdates clk st) = isRequesting st"
  "sseSource (flushStreamUpdates clk st) = sseSource st"
  "closedSources (flushStreamUpdates clk st) = closedSources st"
  "nextSource (flushStreamUpdates clk st) = nextSource st"
  "requestId (flushStreamUpdates clk st) = requestId st"
  "abortController (flushStreamUpdates clk st) = abortController st"
  "aborted (flushStreamUpdates clk st) = aborted st"
  "inFlight (flushStreamUpdates clk st) = inFlight st"
  "isStreamComplete (flushStreamUpdates clk st) = isStreamComplete st"
  "pendingContent (flushStreamUpdates clk st) = []"
  "pendingReasoning (flushStreamUpdates clk st) = []"
  by (simp_all add: flushStreamUpdates_def Let_def)

lemma complete_conn [conn_simps, simp]:
  "isStreaming (handleStreamComplete clk st) = isStreaming st"
  "isRequesting (handleStreamComplete clk st) = False"
  "sseSource (handleStreamComplete clk st) = sseSource st"
  "closedSources (handleStreamComplete clk st) = closedSources st"
  "nextSource (handleStreamComplete clk st) = nextSource st"
  "requestId (handleStreamComplete clk st) = requestId st"
  "abortController (handleStreamComplete clk st) = abortController st"
  "aborted (handleStreamComplete clk st) = aborted st"
  "pendingContent (handleStreamComplete clk st) = []"
  "pendingReasoning (handleStreamComplete clk st) = []"
  by (simp_all add: handleStreamComplete_def Let_def)

lemma error_conn [conn_simps, simp]:
  "isStreaming (handleStreamError t clk e c st) = isStreaming st"
  "isRequesting (handleStreamError t clk e c st) = False"
  "sseSource (handleStreamError t clk e c st) = sseSource st"
  "closedSources (handleStreamError t clk e c st) = closedSources st"
  "nextSource (handleStreamError t clk e c st) = nextSource st"
  "requestId (handleStreamError t clk e c st) = requestId st"
  "abortController (handleStreamError t clk e c st) = abortController st"
  "aborted (handleStreamError t clk e c st) = aborted st"
  "pendingContent (handleStreamError t clk e c st) = []"
  "pendingReasoning (handleStreamError t clk e c st) = []"
  by (simp_all add: handleStreamError_def Let_def)

lemma close_conn [simp]:
  "messages (closeActiveStream src st) = messages st"
  "isRequesting (closeActiveStream src st) = isRequesting st"
  "pendingContent (closeActiveStream src st) = pendingContent st"
  "pendingReasoning (closeActiveStream src st) = pendingReasoning st"
  "requestId (closeActiveStream src st) = requestId st"
  "aborted (closeActiveStream src st) = aborted st"
  "inFlight (closeActiveStream src st) = inFlight st"
  by (simp_all add: closeActiveStream_def Let_def split: option.split)

text \<open>Updating the last reply by a function that keeps its identity.\<close>

definition keeps :: "(Message \<Rightarrow> Message) \<Rightarrow> bool" where
  "keeps f \<longleftrightarrow> (\<forall>m. msg_key (f m) = msg_key m \<and> msg_from (f m) = msg_from m
     \<and> (length (versions m) = 1 \<longrightarrow> length (versions (f m)) = 1))"

lemma conv_ok_updateLast: "conv_ok ms \<Longrightarrow> keeps f \<Longrightarrow> conv_ok (updateLastAssistantMessage ms f)"
  by (cases ms rule: rev_cases) (auto simp: updateLast_snoc conv_ok_snoc keeps_def)

lemma settled_updateLast:
  assumes "conv_ok ms" and "\<And>m. \<not> pending (f m)"
  shows "settled (updateLastAssistantMessage ms f)"
  using assms by (cases ms rule: rev_cases) (auto simp: updateLast_snoc conv_ok_snoc settled_def)

lemma keeps_flush: "keeps (flushMessage clk rs c)"
  by (simp add: keeps_def flushMessage_def Let_def)

lemma keeps_error: "keeps (errorUpdate e c t now)"
  by (simp add: keeps_def)

lemma keeps_complete:
  "keeps (\<lambda>m. if P m then m else completeAssistantMessage clk m)"
  "keeps (\<lambda>m. if P m then completeAssistantMessage clk m else m)"
  by (simp_all add: keeps_def)

lemma keeps_response: "keeps (\<lambda>m. get_or (applyChatCompletionResponse clk m resp) m)"
  by (simp add: keeps_def get_or_def applyChatCompletionResponse_def split: option.split)

lemma conv_ok_flush: "conv_ok (messages st) \<Longrightarrow> conv_ok (messages (flushStreamUpdates clk st))"
  by (simp add: flushStreamUpdates_def Let_def conv_ok_updateLast keeps_flush)

lemma flush_empty: "buffers_empty st \<Longrightarrow> messages (flushStreamUpdates clk st) = messages st"
  by (simp add: flushStreamUpdates_def buffers_empty_def)

lemma updateLast_settles:
  assumes "conv_ok ms" and "keeps f" and "\<And>m. \<not> pending (f m)"
  shows "conv_ok (updateLastAssistantMessage ms f) \<and> settled (updateLastAssistantMessage ms f)"
  using conv_ok_updateLast [OF assms(1,2)] settled_updateLast [of ms f, OF assms(1,3)] by blast

lemma messages_complete:
  "messages (handleStreamComplete clk st) = updateLastAssistantMessage (messages (flushStreamUpdates clk st))
     (\<lambda>m. if isAssistantMessageFinal m then m else completeAssistantMessage (\<lambda>n. clk (n + 4)) m)"
  by (simp add: handleStreamComplete_def Let_def)

lemma messages_error:
  "messages (handleStreamError t clk e c st) = updateLastAssistantMessage (messages (flushStreamUpdates clk st))
     (errorUpdate (getDisplayError t e) c (t API_REQUEST_ERROR) (clk 4))"
  by (simp add: handleStreamError_def Let_def updateAssistantMessageWithError_def)

lemma complete_settles:
  assumes "conv_ok (messages st)"
  shows "conv_ok (messages (handleStreamComplete clk st)) \<and> settled (messages (handleStreamComplete clk st))"
  unfolding messages_complete
  by (rule updateLast_settles [OF conv_ok_flush [OF assms] keeps_complete(1)])
    (auto simp: pending_def isAssistantMessageFinal_def)

lemma error_settles:
  assumes "conv_ok (messages st)"
  shows "conv_ok (messages (handleStreamError t clk e c st)) \<and> settled (messages (handleStreamError t clk e c st))"
  unfolding messages_error
  by (rule updateLast_settles [OF conv_ok_flush [OF assms] keeps_error]) (simp add: pending_def)

lemma chat_inv_settled:
  "conn_inv st \<Longrightarrow> conv_ok (messages st) \<Longrightarrow> settled (messages st) \<Longrightarrow> buffers_empty st \<Longrightarrow> chat_inv st"
  by (simp add: chat_inv_def)

lemma conn_inv_fields:
  assumes "conn_inv st" "isStreaming st' = isStreaming st" "sseSource st' = sseSource st"
    "closedSources st' = closedSources st" "nextSource st' = nextSource st"
    "requestId st' = requestId st" "abortController st' = abortController st" "aborted st' = aborted st"
  shows "conn_inv st'"
  using assms(1) unfolding conn_inv_def live_def assms(2-8) .

lemma conn_inv_error: "conn_inv st \<Longrightarrow> conn_inv (handleStreamError t clk e c st)"
  by (erule conn_inv_fields) simp_all

lemma conn_inv_complete: "conn_inv st \<Longrightarrow> conn_inv (handleStreamComplete clk st)"
  by (erule conn_inv_fields) simp_all

lemma conn_inv_close:
  assumes "conn_inv st"
  shows "conn_inv (closeActiveStream src st)"
proof (cases "src = None \<or> sseSource st = src")
  case True
  let ?c = "(case sseSource st of Some s \<Rightarrow> s # closedSources st | None \<Rightarrow> closedSources st)"
  from True have e: "closeActiveStream src st = st\<lparr>closedSources := ?c, sseSource := None, isStreaming := False\<rparr>"
    by (cases src) (auto simp: closeActiveStream_def or_else_def split: option.split)
  have "\<not> live s (closeActiveStream src st)" for s
    using assms unfolding e by (cases "sseSource st") (auto simp: conn_inv_def live_def)
  with assms show ?thesis unfolding e conn_inv_def by simp
next
  case False
  then obtain x where "src = Some x" "sseSource st \<noteq> Some x" by auto
  then have e: "closeActiveStream src st = st\<lparr>closedSources := x # closedSources st\<rparr>"
    by (simp add: closeActiveStream_def or_else_def)
  have f: "isStreaming (closeActiveStream src st) = isStreaming st"
    "sseSource (closeActiveStream src st) = sseSource st" "nextSource (closeActiveStream src st) = nextSource st"
    "requestId (closeActiveStream src st) = requestId st" "aborted (closeActiveStream src st) = aborted st"
    "abortController (closeActiveStream src st) = abortController st"
    and l: "\<And>s. live s (closeActiveStream src st) \<Longrightarrow> live s st"
    unfolding e live_def by simp_all
  show ?thesis using assms l unfolding conn_inv_def f by blast
qed

lemma chat_inv_handleStreamError:
  assumes "conn_inv st" "conv_ok (messages st)"
  shows "chat_inv (handleStreamError t clk e c st)"
  using assms error_settles [OF assms(2)]
  by (intro chat_inv_settled conn_inv_error) (simp_all add: buffers_empty_def)

lemma chat_inv_handleError:
  assumes "chat_inv st"
  shows "chat_inv (handleError t clk s e c st)"
proof (cases "isStreamComplete st")
  case False
  have i: "conn_inv st" "conv_ok (messages st)" using assms by (simp_all add: chat_inv_def)
  then show ?thesis
    using False error_settles [OF i(2)] conn_inv_error [OF i(1)]
    by (simp add: handleError_def) (intro chat_inv_settled conn_inv_close, simp_all add: buffers_empty_def)
qed (use assms in \<open>simp add: handleError_def\<close>)

lemma chat_inv_parts:
  assumes "chat_inv st"
  shows "conn_inv st" "conv_ok (messages st)" "buffers_empty st \<or> isStreaming st"
    "settled (messages st) \<or> isStreaming st \<or> awaited st"
  using assms by (simp_all add: chat_inv_def)

lemma live_streaming: "chat_inv st \<Longrightarrow> live s st \<Longrightarrow> isStreaming st"
  unfolding chat_inv_def conn_inv_def by (metis option.distinct(1))

text \<open>A change of the messages alone.\<close>

lemma chat_inv_messages:
  assumes "chat_inv st" and "conv_ok ms" and "settled (messages st) \<longrightarrow> settled ms"
  shows "chat_inv (st\<lparr>messages := ms\<rparr>)"
proof -
  have "conn_inv (st\<lparr>messages := ms\<rparr>)"
    by (rule conn_inv_fields [OF chat_inv_parts(1) [OF assms(1)]]) simp_all
  then show ?thesis
    using chat_inv_parts [OF assms(1)] assms(2,3) by (auto simp: chat_inv_def buffers_empty_def awaited_def)
qed

lemma chat_inv_cong:
  assumes "chat_inv st" "isStreaming st' = isStreaming st" "sseSource st' = sseSource st"
    "closedSources st' = closedSources st" "nextSource st' = nextSource st"
    "requestId st' = requestId st" "abortController st' = abortController st" "aborted st' = aborted st"
    "messages st' = messages st" "pendingContent st' = pendingContent st"
    "pendingReasoning st' = pendingReasoning st" "isRequesting st' = isRequesting st" "inFlight st' = inFlight st"
  shows "chat_inv st'"
  using assms(1) unfolding inv_defs assms(2-13) .

lemma chat_inv_irrelevant:
  "chat_inv st \<Longrightarrow> chat_inv (st\<lparr>toasts := x\<rparr>)"
  "chat_inv st \<Longrightarrow> chat_inv (st\<lparr>editingMessageKey := k\<rparr>)"
  by (erule chat_inv_cong; simp)+

lemma conn_inv_abort:
  assumes "conn_inv st" "isStreaming st' = isStreaming st" "sseSource st' = sseSource st"
    "closedSources st' = closedSources st" "nextSource st' = nextSource st"
    "requestId st' = requestId st" "abortController st' = None"
    "\<forall>a \<in> set (aborted st'). a \<in> set (aborted st) \<or> abortController st = Some a"
  shows "conn_inv st'"
  using assms(1,8) unfolding conn_inv_def live_def assms(2-7) by (metis option.distinct(1))

lemma chat_inv_flush:
  assumes "chat_inv st"
  shows "chat_inv (flushStreamUpdates clk st)"
proof -
  note i = chat_inv_parts [OF assms]
  have c: "conn_inv (flushStreamUpdates clk st)" by (rule conn_inv_fields [OF i(1)]) simp_all
  show ?thesis
  proof (cases "isStreaming st")
    case True
    with c conv_ok_flush [OF i(2)] show ?thesis by (simp add: chat_inv_def)
  next
    case False
    with i(3) have "messages (flushStreamUpdates clk st) = messages st" by (simp add: flush_empty)
    with c i show ?thesis by (simp add: chat_inv_def buffers_empty_def awaited_def)
  qed
qed

lemma update_fields:
  "messages (handleStreamUpdate ct c st) = messages st"
  "isStreaming (handleStreamUpdate ct c st) = isStreaming st"
  "sseSource (handleStreamUpdate ct c st) = sseSource st"
  "closedSources (handleStreamUpdate ct c st) = closedSources st"
  "nextSource (handleStreamUpdate ct c st) = nextSource st"
  "requestId (handleStreamUpdate ct c st) = requestId st"
  "abortController (handleStreamUpdate ct c st) = abortController st"
  "aborted (handleStreamUpdate ct c st) = aborted st"
  by (simp_all add: handleStreamUpdate_def scheduleStreamFlush_def split: StreamChunkType.split)

lemma chat_inv_update:
  assumes "chat_inv st" and "isStreaming st"
  shows "chat_inv (handleStreamUpdate ct c st) \<and> isStreaming (handleStreamUpdate ct c st)"
proof -
  have "conn_inv (handleStreamUpdate ct c st)"
    by (rule conn_inv_fields [OF chat_inv_parts(1) [OF assms(1)]]) (rule update_fields)+
  with chat_inv_parts(2) [OF assms(1)] assms(2) show ?thesis by (simp add: chat_inv_def update_fields)
qed

lemma chat_inv_applyUpdates:
  "applyUpdates us st = Inr st' \<Longrightarrow> chat_inv st \<Longrightarrow> isStreaming st \<Longrightarrow> chat_inv st'"
  by (induction us st rule: applyUpdates.induct) (auto simp: chat_inv_update split: json.splits)

lemma chat_inv_close_complete:
  assumes "chat_inv st"
  shows "chat_inv (handleStreamComplete clk (closeActiveStream (Some s) (st\<lparr>isStreamComplete := True\<rparr>)))"
proof -
  let ?st = "closeActiveStream (Some s) (st\<lparr>isStreamComplete := True\<rparr>)"
  have "conn_inv (st\<lparr>isStreamComplete := True\<rparr>)"
    by (rule conn_inv_fields [OF chat_inv_parts(1) [OF assms]]) simp_all
  then have "conn_inv ?st" by (rule conn_inv_close)
  moreover have "conv_ok (messages ?st)" using chat_inv_parts(2) [OF assms] by simp
  ultimately show ?thesis
    using complete_settles [of ?st clk]
    by (intro chat_inv_settled conn_inv_complete) (simp_all add: buffers_empty_def)
qed

lemma chat_inv_message_event:
  assumes "chat_inv st" and "live s st" and "onMessageEvent t clk s data st = Inr st'"
  shows "chat_inv st'"
proof (cases "isStreamDoneMessage data")
  case True
  then show ?thesis using assms(1,3) chat_inv_close_complete by (auto simp: onMessageEvent_def)
next
  case False
  show ?thesis
  proof (cases "parseStreamMessageUpdates data")
    case (Inl e)
    then show ?thesis using assms(1,3) False chat_inv_handleError by (auto simp: onMessageEvent_def)
  next
    case (Inr us)
    then have "applyUpdates us st = Inr st'" using assms(3) False by (simp add: onMessageEvent_def)
    then show ?thesis using chat_inv_applyUpdates assms(1) live_streaming [OF assms(1,2)] by blast
  qed
qed

lemma chat_inv_error_event:
  assumes "chat_inv st" and "onErrorEvent t clk s r d st = Inr st'"
  shows "chat_inv st'"
  using assms chat_inv_handleError [OF assms(1)]
  by (auto simp: onErrorEvent_def Let_def split: if_splits json.splits sum.splits)

lemma chat_inv_ready_event:
  assumes "chat_inv st"
  shows "chat_inv (onReadyStateChange t clk s r status st)"
  using assms chat_inv_handleError [OF assms] by (simp add: onReadyStateChange_def split: option.split)

lemma chat_inv_finish:
  assumes "chat_inv st" and "requestId st = rid \<longrightarrow> settled (messages st) \<or> isStreaming st"
  shows "chat_inv (finishRequest rid st)"
proof (cases "requestId st = rid")
  case True
  then have e: "finishRequest rid st = st\<lparr>inFlight := removeAll rid (inFlight st), abortController := None,
      isRequesting := False\<rparr>" by (simp add: finishRequest_def)
  have "conn_inv (finishRequest rid st)"
    unfolding e by (rule conn_inv_abort [OF chat_inv_parts(1) [OF assms(1)]]) simp_all
  with True assms chat_inv_parts [OF assms(1)] show ?thesis
    unfolding chat_inv_def by (auto simp: e buffers_empty_def)
next
  case False
  then have e: "finishRequest rid st = st\<lparr>inFlight := removeAll rid (inFlight st)\<rparr>"
    by (simp add: finishRequest_def)
  have "conn_inv (finishRequest rid st)"
    unfolding e by (rule conn_inv_fields [OF chat_inv_parts(1) [OF assms(1)]]) simp_all
  with False chat_inv_parts [OF assms(1)] show ?thesis
    unfolding chat_inv_def by (auto simp: e buffers_empty_def awaited_def)
qed

lemma chat_inv_response:
  assumes "chat_inv st"
  shows "chat_inv (onResponse t clk rid resp st)"
proof -
  note i = chat_inv_parts [OF assms]
  consider "rid \<in> set (aborted st)" | "rid \<notin> set (aborted st)" "\<not> hasChatCompletionChoice resp"
    | "rid \<notin> set (aborted st)" "hasChatCompletionChoice resp" by blast
  then show ?thesis
  proof cases
    case 1
    then show ?thesis using chat_inv_finish [OF assms, of rid] i(4) by (auto simp: onResponse_def awaited_def)
  next
    case 2
    then show ?thesis
      using chat_inv_finish [OF chat_inv_handleStreamError [OF i(1,2)]] error_settles [OF i(2)]
      by (simp add: onResponse_def)
  next
    case 3
    let ?f = "\<lambda>m. get_or (applyChatCompletionResponse clk m resp) m"
    have "\<not> pending (?f m)" for m
      using 3(2) by (auto simp: hasChatCompletionChoice_def applyChatCompletionResponse_def get_or_def pending_def)
    then have s: "conv_ok (updateLastAssistantMessage (messages st) ?f)"
      "settled (updateLastAssistantMessage (messages st) ?f)"
      using updateLast_settles [OF i(2) keeps_response] by blast+
    then have "chat_inv (st\<lparr>messages := updateLastAssistantMessage (messages st) ?f\<rparr>)"
      using chat_inv_messages [OF assms] by blast
    from chat_inv_finish [OF this, of rid] s(2) 3 show ?thesis by (simp add: onResponse_def)
  qed
qed

lemma chat_inv_rejected:
  assumes "chat_inv st" and "onRejected t clk rid e st = Inr st'"
  shows "chat_inv st'"
proof (cases "rid \<in> set (aborted st)")
  case True
  then show ?thesis
    using assms chat_inv_finish [OF assms(1), of rid] chat_inv_parts(4) [OF assms(1)]
    by (auto simp: onRejected_def awaited_def)
next
  case False
  then obtain m c where "st' = finishRequest rid (handleStreamError t clk m c st)"
    using assms(2) by (auto simp: onRejected_def Let_def split: json.splits sum.splits)
  then show ?thesis
    using chat_inv_finish [OF chat_inv_handleStreamError [OF chat_inv_parts(1,2) [OF assms(1)]]]
      error_settles [OF chat_inv_parts(2) [OF assms(1)]] by simp
qed

lemma conn_inv_new_source:
  assumes "conn_inv st"
  shows "conn_inv (st\<lparr>closedSources := (case sseSource st of Some s \<Rightarrow> s # closedSources st | None \<Rightarrow> closedSources st),
    nextSource := nextSource st + 1, sseSource := Some (nextSource st), isStreaming := True\<rparr>)"
    (is "conn_inv ?st")
proof -
  have "s = nextSource st" if "live s ?st" for s
  proof (rule ccontr)
    assume "s \<noteq> nextSource st"
    with that have "live s st" by (auto simp: live_def split: option.splits)
    with assms have "sseSource st = Some s" by (simp add: conn_inv_def)
    with that show False by (simp add: live_def)
  qed
  with assms show ?thesis unfolding conn_inv_def by auto
qed

lemma chat_inv_sendStreamRequest:
  assumes "conn_inv st" and "conv_ok (messages st)"
  shows "chat_inv (sendStreamRequest t clk fails payload st)"
proof -
  let ?st = "st\<lparr>closedSources := (case sseSource st of Some s \<Rightarrow> s # closedSources st | None \<Rightarrow> closedSources st),
    nextSource := nextSource st + 1, sseSource := Some (nextSource st), isStreaming := True\<rparr>"
  let ?st2 = "st\<lparr>closedSources := (case sseSource st of Some s \<Rightarrow> s # closedSources st | None \<Rightarrow> closedSources st),
    nextSource := nextSource st + 1, sseSource := Some (nextSource st), isStreamComplete := False,
    isStreaming := True, requests := requests st @ [payload]\<rparr>"
  have e: "sendStreamRequest t clk fails payload st =
      (if fails then closeActiveStream (Some (nextSource st)) (handleStreamError t clk STREAM_START_ERROR None ?st2)
       else ?st2)"
    by (cases "sseSource st") (simp_all add: sendStreamRequest_def Let_def)
  have c: "conn_inv ?st2" by (rule conn_inv_fields [OF conn_inv_new_source [OF assms(1)]]) simp_all
  have m: "conv_ok (messages ?st2)" using assms(2) by simp
  show ?thesis
  proof (cases fails)
    case True
    then show ?thesis
      unfolding e using error_settles [OF m] conn_inv_close [OF conn_inv_error [OF c]]
      by (auto intro!: chat_inv_settled simp: buffers_empty_def)
  next
    case False
    then show ?thesis unfolding e using c m by (simp add: chat_inv_def)
  qed
qed

lemma chat_inv_sendChat:
  assumes "conn_inv st" and "conv_ok (messages st)" and "buffers_empty st \<or> isStreaming st"
  shows "chat_inv (sendChat t clk fails config enabled msgs st)"
proof (cases "cfg_stream config")
  case True
  have "conn_inv (st\<lparr>isRequesting := True\<rparr>)" by (rule conn_inv_fields [OF assms(1)]) simp_all
  with True assms(2) show ?thesis by (simp add: sendChat_def sendStreamingChat_def chat_inv_sendStreamRequest)
next
  case False
  let ?p = "buildChatCompletionPayload msgs config enabled"
  let ?r = "requestId st + 1"
  let ?st = "st\<lparr>requestId := ?r, abortController := Some ?r, isRequesting := True,
           inFlight := ?r # inFlight st, requests := requests st @ [?p]\<rparr>"
  have e: "sendChat t clk fails config enabled msgs st = ?st"
    using False by (simp add: sendChat_def sendNonStreamingChat_def)
  have a: "\<forall>a \<in> set (aborted st). a \<le> requestId st" using assms(1) by (simp add: conn_inv_def)
  have l: "live s ?st = live s st" for s by (simp add: live_def)
  have "conn_inv ?st" using assms(1) a unfolding conn_inv_def l by auto
  moreover have "awaited ?st" using a by (auto simp: awaited_def)
  ultimately show ?thesis
    unfolding e using assms(2,3) by (simp add: chat_inv_def buffers_empty_def)
qed

lemma conn_inv_messages: "conn_inv st \<Longrightarrow> conn_inv (st\<lparr>messages := ms\<rparr>)"
  by (erule conn_inv_fields) simp_all

lemma chat_inv_send_messages:
  assumes "chat_inv st" and "conv_ok ms"
  shows "chat_inv (sendChat t clk fails config enabled ms (st\<lparr>messages := ms\<rparr>))"
  by (rule chat_inv_sendChat)
    (use chat_inv_parts [OF assms(1)] assms(2) conn_inv_messages in \<open>simp_all add: buffers_empty_def\<close>)

lemma idle_settled: "chat_inv st \<Longrightarrow> \<not> isGenerating st \<Longrightarrow> settled (messages st)"
  by (auto simp: chat_inv_def isGenerating_def awaited_def)

lemma chat_inv_handleSend:
  assumes "chat_inv st" and "\<not> isGenerating st" and "fresh_ids ids (messages st)"
  shows "chat_inv (handleSendMessage t clk ids fails config enabled text st)"
  unfolding handleSendMessage_def Let_def
  by (rule chat_inv_send_messages [OF assms(1)], rule conv_ok_append)
    (use chat_inv_parts(2) [OF assms(1)] idle_settled [OF assms(1,2)] assms(3) in
      \<open>auto simp: settled_def fresh_ids_def\<close>)

lemma chat_inv_handleRegenerate:
  assumes "chat_inv st" and "fresh_ids ids (messages st)"
  shows "chat_inv (handleRegenerateMessage t clk ids fails config enabled m st)"
proof (cases "createRegeneratedMessages ids (clk 0) (messages st) (msg_key m)")
  case None
  then show ?thesis using assms(1) by (simp add: handleRegenerateMessage_def)
next
  case (Some ms)
  have "ids 0 \<notin> msg_key ` set (messages st)" using assms(2) by (simp add: fresh_ids_def)
  from chat_inv_send_messages [OF assms(1) regenerate_ok [of "messages st" ids, OF chat_inv_parts(2) [OF assms(1)] this Some]] Some
  show ?thesis by (simp add: handleRegenerateMessage_def)
qed

lemma chat_inv_applyEdit:
  assumes "chat_inv st" and "fresh_ids ids (messages st)"
  shows "chat_inv (applyEdit t clk ids fails config enabled content submit st)"
proof -
  have f: "ids 0 \<notin> msg_key ` set (messages st)" using assms(2) by (simp add: fresh_ids_def)
  show ?thesis
  proof (cases "\<exists>k r. editingMessageKey st = Some k \<and> k \<noteq> []
      \<and> applyMessageEdit ids (clk 0) (messages st) k content submit = Some r")
    case True
    then obtain k r where k: "editingMessageKey st = Some k" "k \<noteq> []"
      and r: "applyMessageEdit ids (clk 0) (messages st) k content submit = Some r" by blast
    let ?st = "st\<lparr>editingMessageKey := None\<rparr>"
    have i: "chat_inv ?st" using assms(1) by (rule chat_inv_irrelevant)
    note ok = edit_ok [of "messages st" ids, OF chat_inv_parts(2) [OF assms(1)] f r]
    have "chat_inv (?st\<lparr>messages := edit_messages r\<rparr>)" if "\<not> shouldSend r"
      by (rule chat_inv_messages [OF i]) (use ok that in \<open>auto simp: settled_def\<close>)
    then show ?thesis
      using k r chat_inv_send_messages [OF i, of "edit_messages r"] ok by (simp add: applyEdit_def Let_def)
  next
    case False
    then have "applyEdit t clk ids fails config enabled content submit st = st"
      by (auto simp: applyEdit_def split: option.split)
    with assms(1) show ?thesis by simp
  qed
qed

lemma chat_inv_delete:
  assumes "chat_inv st"
  shows "chat_inv (handleDeleteMessage m st)"
proof -
  note ok = chat_inv_parts(2) [OF assms]
  have "\<not> pending x" if "settled (messages st)" "x \<in> set (messages st)" for x
    using conv_ok_settled [OF ok] that by (auto simp: settled_def)
  then have "settled (messages st) \<longrightarrow> settled (removeMessageByKey (messages st) (msg_key m))"
    unfolding settled_def removeMessageByKey_def by (metis filter_is_subset last_in_set subsetD)
  then show ?thesis
    unfolding handleDeleteMessage_def by (rule chat_inv_messages [OF assms conv_ok_remove [OF ok]])
qed

lemma stop_result:
  assumes "chat_inv st"
  shows "chat_inv (stopGeneration clk st) \<and> \<not> isGenerating (stopGeneration clk st)
    \<and> settled (messages (stopGeneration clk st))"
proof -
  let ?st1 = "flushStreamUpdates clk (stopStream st)" and ?st' = "stopGeneration clk st"
  have c: "conn_inv ?st1"
    by (rule conn_inv_fields [OF conn_inv_close [OF chat_inv_parts(1) [OF assms], of None]])
      (simp_all add: stopStream_def)
  have "conv_ok (messages (stopStream st))" using chat_inv_parts(2) [OF assms] by (simp add: stopStream_def)
  note m = conv_ok_flush [OF this]
  have ms: "messages ?st' = updateLastAssistantMessage (messages ?st1)
      (\<lambda>m. if isAssistantMessagePending m then completeAssistantMessage (\<lambda>n. clk (n + 4)) m else m)"
    by (simp add: stopGeneration_def Let_def)
  have s: "conv_ok (messages ?st') \<and> settled (messages ?st')"
    unfolding ms
    by (rule updateLast_settles [OF m keeps_complete(2)]) (auto simp: pending_def isAssistantMessagePending_def)
  have f: "isStreaming ?st' = isStreaming ?st1" "sseSource ?st' = sseSource ?st1"
    "closedSources ?st' = closedSources ?st1" "nextSource ?st' = nextSource ?st1"
    "requestId ?st' = requestId ?st1" "abortController ?st' = None" "isRequesting ?st' = False"
    "pendingContent ?st' = []" "pendingReasoning ?st' = []"
    and a: "\<forall>a \<in> set (aborted ?st'). a \<in> set (aborted ?st1) \<or> abortController ?st1 = Some a"
    unfolding stopGeneration_def Let_def by (simp_all split: option.split)
  have "conn_inv ?st'" using c f(1-6) a by (rule conn_inv_abort)
  moreover have "isStreaming ?st1 = False"
    by (simp add: stopStream_def closeActiveStream_def Let_def)
  ultimately show ?thesis
    using s f by (simp add: isGenerating_def chat_inv_settled buffers_empty_def)
qed

lemma chat_inv_step: "chat_step st st' \<Longrightarrow> chat_inv st \<Longrightarrow> chat_inv st'"
proof (induction rule: chat_step.induct)
  case (clear st)
  then have "chat_inv (st\<lparr>messages := []\<rparr>)"
    by (rule chat_inv_messages) (simp_all add: conv_ok_def settled_def)
  then show ?case by (simp add: clearMessages_def)
qed (auto simp: guardAction_def handleEditMessage_def handleEditOpenChange_def chat_inv_irrelevant
    chat_inv_handleSend chat_inv_handleRegenerate chat_inv_applyEdit chat_inv_delete stop_result
    chat_inv_flush chat_inv_ready_event chat_inv_response
    intro: chat_inv_message_event chat_inv_error_event chat_inv_rejected)

lemma chat_inv_initial: "conv_ok ms \<Longrightarrow> settled ms \<Longrightarrow> chat_inv (initialChat ms)"
  by (simp add: initialChat_def inv_defs)

interpretation chat_sys: invariant_system chat_step chat_inv
  by unfold_locales (rule chat_inv_step)

lemma reachable_steps: "reachable ms st \<Longrightarrow> chat_step\<^sup>*\<^sup>* (initialChat ms) st"
  by (induction rule: reachable.induct) (auto intro: rtranclp.rtrancl_into_rtrancl)

lemma reachable_inv: "reachable ms st \<Longrightarrow> conv_ok ms \<Longrightarrow> settled ms \<Longrightarrow> chat_inv st"
  using chat_sys.inv_steps [OF reachable_steps chat_inv_initial] .

section \<open>What the buffer and the flush do to the text\<close>

lemma merge_pending: "mergePendingStreamChunk a c = merge_text a c"
  by (auto simp: mergePendingStreamChunk_def merge_text_def starts_with_prefix)

definition buffer_all :: "StreamChunkType \<Rightarrow> jsstr list \<Rightarrow> ChatState \<Rightarrow> ChatState" where
  "buffer_all ct cs st = foldl (\<lambda>st c. handleStreamUpdate ct c st) st cs"

lemma buffer_content:
  "pendingContent (buffer_all ContentChunk cs st) = foldl merge_text (pendingContent st) cs
   \<and> pendingReasoning (buffer_all ContentChunk cs st) = pendingReasoning st
   \<and> messages (buffer_all ContentChunk cs st) = messages st"
  unfolding buffer_all_def
  by (induction cs arbitrary: st)
    (simp_all add: handleStreamUpdate_def scheduleStreamFlush_def merge_pending)

lemma flush_content:
  assumes "messages st = ms @ [m]" and "msg_from m = RoleAssistant" and "msg_status m \<noteq> Some StatusError"
    and "pendingReasoning st = []"
  shows "\<exists>m'. messages (flushStreamUpdates clk st) = ms @ [m'] \<and> msg_from m' = RoleAssistant
    \<and> msg_status m' \<noteq> Some StatusError
    \<and> getMessageContent m' = merge_text (getMessageContent m) (pendingContent st)"
proof (cases "pendingContent st = []")
  case True
  then show ?thesis using assms
    by (auto simp: flushStreamUpdates_def Let_def merge_text_def)
next
  case False
  then show ?thesis using assms
    by (simp add: flushStreamUpdates_def Let_def updateLast_snoc flushMessage_def chunk_content)
qed

lemma snapshots_last: "snapshots acc cs \<Longrightarrow> prefix acc (last (acc # cs))"
proof (induction cs arbitrary: acc)
  case (Cons c cs)
  then show ?case using prefix_order.trans [of acc c "last (c # cs)"] by simp
qed simp

lemma foldl_snapshots_empty:
  "snapshots acc cs \<Longrightarrow> cs \<noteq> [] \<Longrightarrow> foldl merge_text [] cs = last cs"
proof (cases cs)
  case (Cons c cs')
  assume "snapshots acc cs"
  with Cons have "snapshots [] cs" by simp
  from foldl_snapshots [OF this] Cons show ?thesis by simp
qed simp

section \<open>Properties\<close>


definition sample_chat :: ChatState where
  "sample_chat = handleSendMessage id (\<lambda>_. 0) sample_ids False DEFAULT_CONFIG DEFAULT_PARAMETER_ENABLED
     (js ''hi'') (initialChat [])"

lemma sample_chat_reachable: "reachable [] sample_chat"
  unfolding sample_chat_def
  by (rule reachable.step [OF reachable.init chat_step.send])
    (simp_all add: isGenerating_def initialChat_def fresh_ids_def sample_ids_def)


text \<open>
  C29. Stopping works from every reachable state: afterwards nothing is being generated, no
  stream is live, the current request counts as aborted, every message is settled, and the
  number of messages is unchanged.
\<close>

theorem stop_ends_generation:
  assumes "reachable ms st" and "conv_ok ms" and "settled ms"
  shows "\<not> isGenerating (stopGeneration clk st)
    \<and> (\<forall>s. \<not> live s (stopGeneration clk st))
    \<and> (\<forall>r. abortController st = Some r \<longrightarrow> r \<in> set (aborted (stopGeneration clk st)))
    \<and> (\<forall>m \<in> set (messages (stopGeneration clk st)). \<not> pending m)
    \<and> length (messages (stopGeneration clk st)) = length (messages st)"
proof -
  note r = stop_result [OF reachable_inv [OF assms], of clk]
  have "\<not> live s (stopGeneration clk st)" for s
    using r live_streaming by (auto simp: isGenerating_def)
  moreover have "\<not> pending m" if "m \<in> set (messages (stopGeneration clk st))" for m
    using r chat_inv_parts(2) conv_ok_settled that unfolding settled_def by blast
  moreover have "abortController (stopStream st) = abortController st"
    by (simp add: stopStream_def closeActiveStream_def Let_def split: option.split)
  then have "r \<in> set (aborted (stopGeneration clk st))" if "abortController st = Some r" for r
    using that by (simp add: stopGeneration_def Let_def)
  moreover have "length (messages (stopGeneration clk st)) = length (messages st)"
    by (simp add: stopGeneration_def Let_def flushStreamUpdates_def stopStream_def)
  ultimately show ?thesis using r by blast
qed

theorem stop_ends_generation_witness:
  "\<not> isGenerating (stopGeneration (\<lambda>_. 1) sample_chat)"
proof -
  have "conv_ok []" "settled []" by (simp_all add: conv_ok_def settled_def)
  from stop_ends_generation [OF sample_chat_reachable this] show ?thesis by blast
qed



text \<open>
  A limit of the buffer: a piece that arrives twice between two flushes is shown once. A
  reply that already has text and receives the pieces \<open>c\<close> and \<open>c\<close> in one buffer gets one \<open>c\<close>; in
  two buffers it gets both.
\<close>

theorem repeated_piece_dropped:
  assumes "messages st = ms @ [m]" and "msg_from m = RoleAssistant" and "msg_status m \<noteq> Some StatusError"
    and "pendingContent st = []" and "pendingReasoning st = []"
    and "getMessageContent m \<noteq> []" and "\<not> prefix (getMessageContent m) c" and "c \<noteq> []"
  shows "(\<exists>m'. messages (flushStreamUpdates clk (buffer_all ContentChunk [c, c] st)) = ms @ [m']
      \<and> getMessageContent m' = getMessageContent m @ c)
    \<and> (\<exists>m'. messages (flushStreamUpdates clk (buffer_all ContentChunk [c]
           (flushStreamUpdates clk (buffer_all ContentChunk [c] st)))) = ms @ [m']
      \<and> getMessageContent m' = getMessageContent m @ c @ c)"
proof
  have e: "foldl merge_text [] [c, c] = c" using assms(8) by (simp add: merge_text_def)
  from flush_content [of "buffer_all ContentChunk [c, c] st" ms m clk] buffer_content [of "[c, c]" st] assms e
  show "\<exists>m'. messages (flushStreamUpdates clk (buffer_all ContentChunk [c, c] st)) = ms @ [m']
      \<and> getMessageContent m' = getMessageContent m @ c"
    by (auto simp: merge_text_def)
next
  let ?st = "flushStreamUpdates clk (buffer_all ContentChunk [c] st)"
  obtain m1 where m1: "messages ?st = ms @ [m1]" "msg_from m1 = RoleAssistant"
    "msg_status m1 \<noteq> Some StatusError" "getMessageContent m1 = getMessageContent m @ c"
    using flush_content [of "buffer_all ContentChunk [c] st" ms m clk] buffer_content [of "[c]" st] assms
    by (auto simp: merge_text_def)
  have "\<not> prefix (getMessageContent m @ c) c" using assms(7) append_prefixD by blast
  with m1 flush_content [of "buffer_all ContentChunk [c] ?st" ms m1 clk] buffer_content [of "[c]" ?st] assms(6)
  show "\<exists>m'. messages (flushStreamUpdates clk (buffer_all ContentChunk [c] ?st)) = ms @ [m']
      \<and> getMessageContent m' = getMessageContent m @ c @ c"
    by (auto simp: merge_text_def)
qed

theorem repeated_piece_dropped_witness:
  "\<exists>m'. messages (flushStreamUpdates (\<lambda>_. 0) (buffer_all ContentChunk [js ''1'', js ''1'']
      (initialChat [updateCurrentVersionContent (createLoadingAssistantMessage sample_ids 0) (js ''n='')]))) = [m'] \<and> getMessageContent m' = js ''n=1''"
proof -
  let ?m = "updateCurrentVersionContent (createLoadingAssistantMessage sample_ids 0) (js ''n='')"
  have "messages (initialChat [?m]) = [] @ [?m]" "msg_from ?m = RoleAssistant"
    "msg_status ?m \<noteq> Some StatusError" "pendingContent (initialChat [?m]) = []"
    "pendingReasoning (initialChat [?m]) = []" "getMessageContent ?m \<noteq> []" by (simp_all add: initialChat_def)
  moreover have "\<not> prefix (getMessageContent ?m) (js ''1'')" "js ''1'' \<noteq> []"
    by (simp_all add: js_eval prefix_def)
  ultimately obtain m' where
    "messages (flushStreamUpdates (\<lambda>_. 0) (buffer_all ContentChunk [js ''1'', js ''1''] (initialChat [?m]))) = [] @ [m']"
    "getMessageContent m' = getMessageContent ?m @ js ''1''"
    using repeated_piece_dropped [of "initialChat [?m]" "[]" ?m "js ''1''" "\<lambda>_. 0"] by blast
  moreover have "js ''n='' @ js ''1'' = js ''n=1''" by (simp add: js_def)
  ultimately show ?thesis by simp
qed

text \<open>
  A failed stream is reported where the user looks: the toast and the reply carry the same
  translated text, the reply is in the error state, earlier messages are untouched, and the stream
  is closed and generation over.
\<close>

theorem stream_failure_reported:
  assumes "messages st = ms @ [m]" and "msg_from m = RoleAssistant" and "isStreamComplete st = False"
    and "sseSource st = Some s"
  shows "\<exists>m'. messages (handleError t clk s e code st) = ms @ [m']
    \<and> msg_status m' = Some StatusError \<and> msg_key m' = msg_key m
    \<and> getMessageContent m' = t API_REQUEST_ERROR @ js '': '' @ getDisplayError t e
    \<and> toasts (handleError t clk s e code st) = toasts st @ [getDisplayError t e]
    \<and> \<not> isGenerating (handleError t clk s e code st)
    \<and> s \<in> set (closedSources (handleError t clk s e code st))"
proof -
  let ?st = "handleStreamError t clk e code st"
  have h: "handleError t clk s e code st = closeActiveStream (Some s) ?st"
    using assms(3) by (simp add: handleError_def)
  obtain m1 where m1: "messages (flushStreamUpdates clk st) = ms @ [m1]" "msg_from m1 = RoleAssistant"
    "msg_key m1 = msg_key m"
    using assms(1,2) keeps_flush [of clk "pendingReasoning st" "pendingContent st"]
    by (cases "pendingReasoning st = [] \<and> pendingContent st = []")
      (simp_all add: flushStreamUpdates_def updateLast_snoc keeps_def)
  let ?m = "errorUpdate (getDisplayError t e) code (t API_REQUEST_ERROR) (clk 4) m1"
  have "messages ?st = ms @ [?m]" using m1 by (simp add: messages_error updateLast_snoc)
  moreover have "getMessageContent ?m = t API_REQUEST_ERROR @ js '': '' @ getDisplayError t e"
    by (simp add: errorUpdate_def Let_def)
  moreover have "toasts ?st = toasts st @ [getDisplayError t e]"
    by (simp add: handleStreamError_def Let_def flushStreamUpdates_def)
  moreover have "toasts (closeActiveStream (Some s) ?st) = toasts ?st"
    by (simp add: closeActiveStream_def Let_def split: option.split)
  ultimately show ?thesis
    using m1(3) assms(4) unfolding h
    by (auto simp: isGenerating_def closeActiveStream_def or_else_def)
qed

theorem stream_failure_reported_witness:
  "toasts (handleError id (\<lambda>_. 0) 0 (js ''boom'') None
     (initialChat [createLoadingAssistantMessage sample_ids 0]\<lparr>sseSource := Some 0, isStreaming := True\<rparr>)) =
   [js ''boom'']"
proof -
  let ?st = "initialChat [createLoadingAssistantMessage sample_ids 0]\<lparr>sseSource := Some 0, isStreaming := True\<rparr>"
  have "messages ?st = [] @ [createLoadingAssistantMessage sample_ids 0]" "isStreamComplete ?st = False"
    "sseSource ?st = Some 0" "toasts ?st = []" by (simp_all add: initialChat_def)
  moreover have "getDisplayError id (js ''boom'') = js ''boom''" by code_simp
  ultimately show ?thesis
    using stream_failure_reported [of ?st "[]" "createLoadingAssistantMessage sample_ids 0" 0 id "\<lambda>_. 0" "js ''boom''" None]
    by auto
qed

end
