(* ===== verification/PgSchema.thy ===== *)
theory PgSchema
  imports PgPayload AuthStore SidebarConfig
begin

text \<open>
  \<open>lib/storage/storage-schema.ts\<close> and the JSON form of the playground's records.

  The schemas are data of the source; the package \<open>zod\<close> that checks them is not part of it, so
  its \<open>parse\<close> is the argument \<open>zparse\<close> of the operations that use it (\<open>None\<close> when it throws), and
  the locale \<open>zod\<close> states the two things the code relies on.
\<close>

section \<open>Schemas\<close>

datatype zschema =
  ZString
| ZNumber
| ZBoolean
| ZEnum "jsstr list"
| ZArray zschema nat
| ZObject "(jsstr \<times> zschema) list"
| ZOptional zschema
| ZNullable zschema

definition STORAGE_VERSION :: rat where "STORAGE_VERSION = 1"
definition MAX_STORED_MESSAGES :: nat where "MAX_STORED_MESSAGES = 100"
definition MAX_STORED_MESSAGES_BYTES :: nat where "MAX_STORED_MESSAGES_BYTES = 1024 * 1024"
definition MAX_LOADED_MESSAGES_CHARS :: nat where "MAX_LOADED_MESSAGES_CHARS = 120000"
definition MAX_LOADED_MESSAGE_CHARS :: nat where "MAX_LOADED_MESSAGE_CHARS = 40000"

definition playgroundConfigSchema :: zschema where
  "playgroundConfigSchema = ZObject
    [(js ''model'', ZOptional ZString), (js ''group'', ZOptional ZString),
     (js ''temperature'', ZOptional ZNumber), (js ''top_p'', ZOptional ZNumber),
     (js ''max_tokens'', ZOptional ZNumber), (js ''frequency_penalty'', ZOptional ZNumber),
     (js ''presence_penalty'', ZOptional ZNumber), (js ''seed'', ZOptional (ZNullable ZNumber)),
     (js ''stream'', ZOptional ZBoolean)]"

definition parameterEnabledSchema :: zschema where
  "parameterEnabledSchema = ZObject
    [(js ''temperature'', ZOptional ZBoolean), (js ''top_p'', ZOptional ZBoolean),
     (js ''max_tokens'', ZOptional ZBoolean), (js ''frequency_penalty'', ZOptional ZBoolean),
     (js ''presence_penalty'', ZOptional ZBoolean), (js ''seed'', ZOptional ZBoolean)]"

definition messageRoleSchema :: zschema where
  "messageRoleSchema = ZEnum [js ''user'', js ''assistant'', js ''system'']"

definition messageStatusSchema :: zschema where
  "messageStatusSchema = ZEnum [js ''loading'', js ''streaming'', js ''complete'', js ''error'']"

definition messageVersionSchema :: zschema where
  "messageVersionSchema = ZObject [(js ''id'', ZString), (js ''content'', ZString)]"

definition sourceSchema :: zschema where
  "sourceSchema = ZObject [(js ''href'', ZString), (js ''title'', ZString)]"

definition reasoningSchema :: zschema where
  "reasoningSchema = ZObject
    [(js ''content'', ZString), (js ''duration'', ZNumber), (js ''startedAt'', ZOptional ZNumber),
     (js ''completedAt'', ZOptional ZNumber), (js ''durationMs'', ZOptional ZNumber)]"

definition messageSchema :: zschema where
  "messageSchema = ZObject
    [(js ''key'', ZString), (js ''from'', messageRoleSchema),
     (js ''versions'', ZArray messageVersionSchema 1), (js ''createdAt'', ZOptional ZNumber),
     (js ''startedAt'', ZOptional ZNumber), (js ''completedAt'', ZOptional ZNumber),
     (js ''durationMs'', ZOptional ZNumber), (js ''sources'', ZOptional (ZArray sourceSchema 0)),
     (js ''reasoning'', ZOptional reasoningSchema), (js ''isReasoningStreaming'', ZOptional ZBoolean),
     (js ''isReasoningComplete'', ZOptional ZBoolean), (js ''isContentComplete'', ZOptional ZBoolean),
     (js ''status'', ZOptional messageStatusSchema), (js ''errorCode'', ZOptional (ZNullable ZString))]"

definition messagesSchema :: zschema where
  "messagesSchema = ZArray messageSchema 0"

subsection \<open>What zod promises\<close>

fun is_optional :: "zschema \<Rightarrow> bool" where
  "is_optional (ZOptional s) = True"
| "is_optional _ = False"

text \<open>A value in the form in which a successful \<open>parse\<close> returns it.\<close>

fun exact_value :: "zschema \<Rightarrow> json \<Rightarrow> bool"
and exact_fields :: "(jsstr \<times> zschema) list \<Rightarrow> (jsstr \<times> json) list \<Rightarrow> bool" where
  "exact_value ZString j = (case j of JStr _ \<Rightarrow> True | _ \<Rightarrow> False)"
| "exact_value ZNumber j = (case j of JNum _ \<Rightarrow> True | _ \<Rightarrow> False)"
| "exact_value ZBoolean j = (case j of JBool _ \<Rightarrow> True | _ \<Rightarrow> False)"
| "exact_value (ZEnum vs) j = (case j of JStr s \<Rightarrow> s \<in> set vs | _ \<Rightarrow> False)"
| "exact_value (ZArray s n) j =
     (case j of JArr xs \<Rightarrow> n \<le> length xs \<and> list_all (exact_value s) xs | _ \<Rightarrow> False)"
| "exact_value (ZObject fs) j = (case j of JObj ps \<Rightarrow> exact_fields fs ps | _ \<Rightarrow> False)"
| "exact_value (ZOptional s) j = exact_value s j"
| "exact_value (ZNullable s) j = (j = JNull \<or> exact_value s j)"
| "exact_fields [] ps = (ps = [])"
| "exact_fields ((k, s) # fs) ps =
     (if ps \<noteq> [] \<and> fst (hd ps) = k then exact_value s (snd (hd ps)) \<and> exact_fields fs (tl ps)
      else is_optional s \<and> exact_fields fs ps)"

fun wf_schema :: "zschema \<Rightarrow> bool" where
  "wf_schema (ZArray s n) = wf_schema s"
| "wf_schema (ZObject fs) = (distinct (map fst fs) \<and> (\<forall>f \<in> set fs. wf_schema (snd f)))"
| "wf_schema (ZOptional s) = wf_schema s"
| "wf_schema (ZNullable s) = wf_schema s"
| "wf_schema _ = True"

text \<open>
  The contract: a value that has the form of the schema is returned unchanged, and whatever is
  returned has it (unknown properties are stripped).
\<close>

locale zod =
  fixes zparse :: "zschema \<Rightarrow> json \<Rightarrow> json option"
  assumes accepts: "wf_schema s \<Longrightarrow> exact_value s j \<Longrightarrow> zparse s j = Some j"
    and sound: "wf_schema s \<Longrightarrow> zparse s j = Some j' \<Longrightarrow> exact_value s j'"
begin

lemma reparse: "wf_schema s \<Longrightarrow> zparse s j = Some j' \<Longrightarrow> zparse s j' = Some j'"
  using accepts sound by blast

end

text \<open>The documented behaviour written out, an instance of the contract.\<close>

fun zod_parse :: "zschema \<Rightarrow> json \<Rightarrow> json option"
and zod_fields :: "(jsstr \<times> zschema) list \<Rightarrow> (jsstr \<times> json) list \<Rightarrow> (jsstr \<times> json) list option" where
  "zod_parse ZString j = (case j of JStr _ \<Rightarrow> Some j | _ \<Rightarrow> None)"
| "zod_parse ZNumber j = (case j of JNum _ \<Rightarrow> Some j | _ \<Rightarrow> None)"
| "zod_parse ZBoolean j = (case j of JBool _ \<Rightarrow> Some j | _ \<Rightarrow> None)"
| "zod_parse (ZEnum vs) j = (case j of JStr s \<Rightarrow> if s \<in> set vs then Some j else None | _ \<Rightarrow> None)"
| "zod_parse (ZArray s n) j =
     (case j of
        JArr xs \<Rightarrow> if n \<le> length xs then map_option JArr (those (map (zod_parse s) xs)) else None
      | _ \<Rightarrow> None)"
| "zod_parse (ZObject fs) j = (case j of JObj ps \<Rightarrow> map_option JObj (zod_fields fs ps) | _ \<Rightarrow> None)"
| "zod_parse (ZOptional s) j = zod_parse s j"
| "zod_parse (ZNullable s) j = (if j = JNull then Some j else zod_parse s j)"
| "zod_fields [] ps = Some []"
| "zod_fields ((k, s) # fs) ps =
     (case map_of ps k of
        None \<Rightarrow> if is_optional s then zod_fields fs ps else None
      | Some v \<Rightarrow>
          (case zod_parse s v of
             None \<Rightarrow> None
           | Some v' \<Rightarrow> map_option (Cons (k, v')) (zod_fields fs ps)))"

lemma those_map_id: "list_all (\<lambda>x. f x = Some x) xs \<Longrightarrow> those (map f xs) = Some xs"
  by (induction xs) auto

lemma those_Some_all: "those (map f xs) = Some ys \<Longrightarrow> list_all2 (\<lambda>x y. f x = Some y) xs ys"
  by (induction xs arbitrary: ys) (auto split: option.splits)

lemma exact_keys: "exact_fields fs ps \<Longrightarrow> fst ` set ps \<subseteq> fst ` set fs"
proof (induction fs arbitrary: ps)
  case (Cons f fs)
  obtain k s where f: "f = (k, s)" by fastforce
  show ?case
  proof (cases "ps \<noteq> [] \<and> fst (hd ps) = k")
    case True
    then obtain v qs where "ps = (k, v) # qs" by (cases ps) auto
    with Cons f show ?thesis by auto
  next
    case False
    with Cons f show ?thesis by auto
  qed
qed simp

lemma zod_field_keys: "zod_fields fs ps = Some qs \<Longrightarrow> fst ` set qs \<subseteq> fst ` set fs"
proof (induction fs arbitrary: qs)
  case (Cons f fs)
  obtain k s where f: "f = (k, s)" by fastforce
  show ?case
  proof (cases "map_of ps k")
    case None
    with Cons.prems f have "zod_fields fs ps = Some qs" by (simp split: if_splits)
    from Cons.IH [OF this] show ?thesis by auto
  next
    case (Some v)
    with Cons.prems f obtain v' qs' where "qs = (k, v') # qs'" "zod_fields fs ps = Some qs'"
      by (auto split: option.splits)
    with Cons.IH [of qs'] f show ?thesis by auto
  qed
qed simp

lemma exact_skip:
  assumes "k \<notin> fst ` set qs"
  shows "exact_fields ((k, s) # fs) qs = (is_optional s \<and> exact_fields fs qs)"
  using assms by (cases qs) auto

lemma zod_sound:
  "wf_schema s \<Longrightarrow> zod_parse s j = Some j' \<Longrightarrow> exact_value s j'"
  "distinct (map fst fs) \<Longrightarrow> \<forall>f \<in> set fs. wf_schema (snd f) \<Longrightarrow> zod_fields fs ps = Some qs \<Longrightarrow> exact_fields fs qs"
proof (induction s j and fs ps arbitrary: j' and qs rule: zod_parse_zod_fields.induct)
  case (5 s n j)
  then obtain xs ys where xs: "j = JArr xs" "n \<le> length xs" "those (map (zod_parse s) xs) = Some ys" "j' = JArr ys"
    by (auto split: json.splits if_splits)
  then have l: "list_all2 (\<lambda>x y. zod_parse s x = Some y) xs ys" by (simp add: those_Some_all)
  have "exact_value s (ys ! i)" if "i < length ys" for i
    using "5.IH" [OF xs(1,2), of "xs ! i" "ys ! i"] "5.prems" l that by (auto simp: list_all2_conv_all_nth)
  then have "list_all (exact_value s) ys" by (simp add: list_all_length)
  with xs l show ?case by (simp add: list_all2_lengthD)
next
  case (10 k s fs ps)
  show ?case
  proof (cases "map_of ps k")
    case None
    with 10 have "is_optional s" "zod_fields fs ps = Some qs" by (auto split: if_splits)
    moreover from this(2) have "k \<notin> fst ` set qs"
      using zod_field_keys [of fs ps qs] "10.prems"(1) by auto
    ultimately show ?thesis using 10 None by (subst exact_skip) simp_all
  next
    case (Some v)
    with 10 show ?thesis by (auto split: option.splits)
  qed
qed (auto split: json.splits if_splits option.splits)

lemma zod_accepts:
  "wf_schema s \<Longrightarrow> exact_value s j \<Longrightarrow> zod_parse s j = Some j"
  "distinct (map fst fs) \<Longrightarrow> \<forall>f \<in> set fs. wf_schema (snd f) \<Longrightarrow> exact_fields fs ps \<Longrightarrow>
     \<forall>k \<in> fst ` set fs. map_of all k = map_of ps k \<Longrightarrow> zod_fields fs all = Some ps"
proof (induction s j and fs ps arbitrary: and all rule: exact_value_exact_fields.induct)
  case (5 s n j)
  then show ?case by (auto simp: list_all_iff intro!: those_map_id split: json.splits)
next
  case (10 k s fs ps)
  show ?case
  proof (cases "ps \<noteq> [] \<and> fst (hd ps) = k")
    case True
    then obtain v qs where ps: "ps = (k, v) # qs" by (cases ps) auto
    have "\<forall>x \<in> fst ` set fs. map_of all x = map_of qs x" using "10.prems"(1,4) ps by auto
    then have "zod_fields fs all = Some qs" using 10 True ps by auto
    moreover have "map_of all k = Some v" using "10.prems"(4) ps by simp
    moreover have "zod_parse s v = Some v" using 10 True ps by auto
    ultimately show ?thesis using ps by simp
  next
    case False
    with 10 have o: "is_optional s" "exact_fields fs ps" by auto
    then have "k \<notin> fst ` set ps" using exact_keys [of fs ps] "10.prems"(1) by auto
    then have "map_of all k = None" using 10 by (simp add: map_of_eq_None_iff)
    with o False 10 show ?thesis by auto
  qed
qed (auto split: json.splits)

interpretation zodref: zod zod_parse
  by unfold_locales (simp_all add: zod_accepts zod_sound)

section \<open>JSON form of the records\<close>

text \<open>A property that is \<open>undefined\<close> has no entry. The order is that of the schema.\<close>

definition opt_field :: "jsstr \<Rightarrow> json option \<Rightarrow> (jsstr \<times> json) list" where
  "opt_field k v = (case v of Some j \<Rightarrow> [(k, j)] | None \<Rightarrow> [])"

fun role_json :: "MessageRole \<Rightarrow> json" where
  "role_json RoleUser = JStr (js ''user'')"
| "role_json RoleAssistant = JStr (js ''assistant'')"
| "role_json RoleSystem = JStr (js ''system'')"

fun status_json :: "MessageStatus \<Rightarrow> json" where
  "status_json Loading = JStr (js ''loading'')"
| "status_json Streaming = JStr (js ''streaming'')"
| "status_json Complete = JStr (js ''complete'')"
| "status_json StatusError = JStr (js ''error'')"

definition version_json :: "MessageVersion \<Rightarrow> json" where
  "version_json v = JObj [(js ''id'', JStr (version_id v)), (js ''content'', JStr (version_content v))]"

definition source_json :: "MessageSource \<Rightarrow> json" where
  "source_json v = JObj [(js ''href'', JStr (href v)), (js ''title'', JStr (source_title v))]"

definition reasoning_json :: "Reasoning \<Rightarrow> json" where
  "reasoning_json r = JObj
    ([(js ''content'', JStr (rs_content r)), (js ''duration'', JNum (rs_duration r))]
     @ opt_field (js ''startedAt'') (map_option JNum (rs_startedAt r))
     @ opt_field (js ''completedAt'') (map_option JNum (rs_completedAt r))
     @ opt_field (js ''durationMs'') (map_option JNum (rs_durationMs r)))"

definition nullable_json :: "jsstr option \<Rightarrow> json" where
  "nullable_json v = (case v of Some s \<Rightarrow> JStr s | None \<Rightarrow> JNull)"

definition message_entries :: "Message \<Rightarrow> (jsstr \<times> json) list" where
  "message_entries m =
     [(js ''key'', JStr (msg_key m)), (js ''from'', role_json (msg_from m)),
      (js ''versions'', JArr (map version_json (versions m)))]
     @ opt_field (js ''createdAt'') (map_option JNum (createdAt m))
     @ opt_field (js ''startedAt'') (map_option JNum (startedAt m))
     @ opt_field (js ''completedAt'') (map_option JNum (completedAt m))
     @ opt_field (js ''durationMs'') (map_option JNum (durationMs m))
     @ opt_field (js ''sources'') (map_option (\<lambda>ss. JArr (map source_json ss)) (sources m))
     @ opt_field (js ''reasoning'') (map_option reasoning_json (reasoning m))
     @ opt_field (js ''isReasoningStreaming'') (map_option JBool (isReasoningStreaming m))
     @ opt_field (js ''isReasoningComplete'') (map_option JBool (isReasoningComplete m))
     @ opt_field (js ''isContentComplete'') (map_option JBool (isContentComplete m))
     @ opt_field (js ''status'') (map_option status_json (msg_status m))
     @ opt_field (js ''errorCode'') (map_option nullable_json (errorCode m))"

definition message_json :: "Message \<Rightarrow> json" where
  "message_json m = JObj (message_entries m)"

text \<open>Reading a value that has passed the schema.\<close>

definition the_str :: "json option \<Rightarrow> jsstr" where
  "the_str j = (case j of Some (JStr s) \<Rightarrow> s | _ \<Rightarrow> [])"

definition the_num :: "json option \<Rightarrow> rat option" where
  "the_num j = (case j of Some (JNum r) \<Rightarrow> Some r | _ \<Rightarrow> None)"

definition the_bool :: "json option \<Rightarrow> bool option" where
  "the_bool j = (case j of Some (JBool b) \<Rightarrow> Some b | _ \<Rightarrow> None)"

definition the_arr :: "json option \<Rightarrow> json list" where
  "the_arr j = (case j of Some (JArr xs) \<Rightarrow> xs | _ \<Rightarrow> [])"

definition role_of :: "json option \<Rightarrow> MessageRole" where
  "role_of j = (if the_str j = js ''assistant'' then RoleAssistant
     else if the_str j = js ''system'' then RoleSystem else RoleUser)"

definition status_of :: "json \<Rightarrow> MessageStatus" where
  "status_of j = (if the_str (Some j) = js ''loading'' then Loading
     else if the_str (Some j) = js ''streaming'' then Streaming
     else if the_str (Some j) = js ''complete'' then Complete else StatusError)"

definition version_of :: "json \<Rightarrow> MessageVersion" where
  "version_of j = \<lparr>version_id = the_str (json_get j (js ''id'')),
     version_content = the_str (json_get j (js ''content''))\<rparr>"

definition source_of :: "json \<Rightarrow> MessageSource" where
  "source_of j = \<lparr>href = the_str (json_get j (js ''href'')), source_title = the_str (json_get j (js ''title''))\<rparr>"

definition reasoning_of :: "json \<Rightarrow> Reasoning" where
  "reasoning_of j = \<lparr>rs_content = the_str (json_get j (js ''content'')),
     rs_duration = get_or (the_num (json_get j (js ''duration''))) 0,
     rs_startedAt = the_num (json_get j (js ''startedAt'')),
     rs_completedAt = the_num (json_get j (js ''completedAt'')),
     rs_durationMs = the_num (json_get j (js ''durationMs''))\<rparr>"

definition nullable_of :: "json \<Rightarrow> jsstr option" where
  "nullable_of j = (case j of JStr s \<Rightarrow> Some s | _ \<Rightarrow> None)"

definition message_of :: "json \<Rightarrow> Message" where
  "message_of j =
     \<lparr>msg_key = the_str (json_get j (js ''key'')), msg_from = role_of (json_get j (js ''from'')),
      versions = map version_of (the_arr (json_get j (js ''versions''))),
      createdAt = the_num (json_get j (js ''createdAt'')), startedAt = the_num (json_get j (js ''startedAt'')),
      completedAt = the_num (json_get j (js ''completedAt'')), durationMs = the_num (json_get j (js ''durationMs'')),
      sources = map_option (\<lambda>x. map source_of (the_arr (Some x))) (json_get j (js ''sources'')),
      reasoning = map_option reasoning_of (json_get j (js ''reasoning'')),
      isReasoningStreaming = the_bool (json_get j (js ''isReasoningStreaming'')),
      isReasoningComplete = the_bool (json_get j (js ''isReasoningComplete'')),
      isContentComplete = the_bool (json_get j (js ''isContentComplete'')),
      msg_status = map_option status_of (json_get j (js ''status'')),
      errorCode = map_option nullable_of (json_get j (js ''errorCode''))\<rparr>"

subsection \<open>Lemmas\<close>

lemma or_else_None [simp]: "or_else a None = a" "or_else None b = b"
  by (simp_all add: or_else_def split: option.split)

lemma map_of_opt_field:
  "map_of (opt_field k v @ rest) k' = (if k' = k then or_else v (map_of rest k') else map_of rest k')"
  "map_of (opt_field k v) k' = (if k' = k then v else None)"
  by (auto simp: opt_field_def or_else_def split: option.split)

lemma the_readers [simp]:
  "the_str (Some (JStr s)) = s" "the_num (map_option JNum n) = n" "the_num (Some (JNum r)) = Some r"
  "the_num None = None" "the_bool None = None"
  "the_bool (map_option JBool b) = b" "the_arr (Some (JArr xs)) = xs"
  by (auto simp: the_str_def the_num_def the_bool_def the_arr_def split: option.split)

lemma version_of_json [simp]: "version_of (version_json v) = v"
  by (simp add: version_of_def version_json_def json_get_def js_eval)

lemma source_of_json [simp]: "source_of (source_json v) = v"
  by (simp add: source_of_def source_json_def json_get_def js_eval)

lemma role_of_json [simp]: "role_of (Some (role_json r)) = r"
  by (cases r) (simp_all add: role_of_def js_eval)

lemma status_of_json [simp]: "status_of (status_json r) = r"
  by (cases r) (simp_all add: status_of_def js_eval)

lemma nullable_of_json [simp]: "nullable_of (nullable_json v) = v"
  by (cases v) (simp_all add: nullable_of_def nullable_json_def)

lemma reasoning_of_json [simp]: "reasoning_of (reasoning_json r) = r"
  by (cases r)
    (simp add: reasoning_of_def reasoning_json_def json_get_def map_of_opt_field js_eval get_or_def
      del: map_of_append)

lemma message_of_json [simp]: "message_of (message_json m) = m"
proof -
  have [simp]: "map_option status_of (map_option status_json x) = x"
    "map_option nullable_of (map_option nullable_json y) = y"
    "map_option reasoning_of (map_option reasoning_json z) = z"
    "map_option (\<lambda>x. map source_of (the_arr (Some x))) (map_option (\<lambda>ss. JArr (map source_json ss)) w) = w"
    for x y z w by (auto simp: option.map_comp comp_def map_idI intro: option.map_ident_strong)
  show ?thesis
    by (cases m)
      (simp add: message_of_def message_json_def message_entries_def json_get_def map_of_opt_field js_eval
        map_idI del: map_of_append option.map_comp)
qed

text \<open>A value in the form of a schema whose keys are plain names is well-formed JSON.\<close>

fun plain_schema :: "zschema \<Rightarrow> bool" where
  "plain_schema (ZArray s n) = plain_schema s"
| "plain_schema (ZObject fs) =
     (distinct (map fst fs) \<and> (\<forall>f \<in> set fs. array_index (fst f) = None \<and> plain_schema (snd f)))"
| "plain_schema (ZOptional s) = plain_schema s"
| "plain_schema (ZNullable s) = plain_schema s"
| "plain_schema _ = True"

fun all_decimal :: "json \<Rightarrow> bool" where
  "all_decimal (JNum r) = decimal r"
| "all_decimal (JArr xs) = (\<forall>x \<in> set xs. all_decimal x)"
| "all_decimal (JObj ps) = (\<forall>p \<in> set ps. all_decimal (snd p))"
| "all_decimal j = True"

lemma plain_wf: "plain_schema s \<Longrightarrow> wf_schema s"
  by (induction s rule: plain_schema.induct) auto

lemma exact_fields_distinct: "exact_fields fs ps \<Longrightarrow> distinct (map fst fs) \<Longrightarrow> distinct (map fst ps)"
proof (induction fs arbitrary: ps)
  case (Cons f fs)
  obtain k s where f: "f = (k, s)" by fastforce
  show ?case
  proof (cases "ps \<noteq> [] \<and> fst (hd ps) = k")
    case True
    then obtain v qs where ps: "ps = (k, v) # qs" by (cases ps) auto
    with Cons.prems f have q: "exact_fields fs qs" by auto
    with Cons.prems f ps exact_keys [OF q] Cons.IH [OF q] show ?thesis by auto
  next
    case False
    with Cons f show ?thesis by auto
  qed
qed simp

lemma exact_wf:
  "exact_value s j \<Longrightarrow> plain_schema s \<Longrightarrow> all_decimal j \<Longrightarrow> wf_json j"
  "exact_fields fs ps \<Longrightarrow> \<forall>f \<in> set fs. plain_schema (snd f) \<Longrightarrow> \<forall>p \<in> set ps. all_decimal (snd p) \<Longrightarrow>
     \<forall>p \<in> set ps. wf_json (snd p)"
proof (induction s j and fs ps rule: exact_value_exact_fields.induct)
  case (6 fs j)
  then obtain ps where j: "j = JObj ps" "exact_fields fs ps" by (auto split: json.splits)
  have "distinct (map fst ps)" using exact_fields_distinct [OF j(2)] "6.prems"(2) by simp
  moreover have "\<forall>p \<in> set ps. array_index (fst p) = None"
    using exact_keys [OF j(2)] "6.prems"(2) by fastforce
  ultimately have "obj_of ps = ps" by (rule obj_of_plain)
  with 6 j show ?case by simp
next
  case (10 k s fs ps)
  show ?case
  proof (cases "ps \<noteq> [] \<and> fst (hd ps) = k")
    case True
    then obtain v qs where ps: "ps = (k, v) # qs" by (cases ps) auto
    with 10 True show ?thesis by auto
  next
    case False
    with 10 show ?thesis by auto
  qed
qed (auto simp: list_all_iff split: json.splits)

lemma keys_opt_field: "fst ` set (opt_field k v) = (if v = None then {} else {k})"
  by (cases v) (simp_all add: opt_field_def)

lemma exact_opt_field:
  assumes "k \<notin> fst ` set rest"
  shows "exact_fields ((k, ZOptional s) # fs) (opt_field k v @ rest) =
    ((\<forall>j. v = Some j \<longrightarrow> exact_value s j) \<and> exact_fields fs rest)"
  using assms by (cases v; cases rest) (auto simp: opt_field_def)

lemma plain_schemas:
  "plain_schema messagesSchema" "plain_schema messageSchema" "plain_schema playgroundConfigSchema"
  "plain_schema parameterEnabledSchema"
  by code_simp+

lemma exact_version: "exact_value messageVersionSchema (version_json v)"
  by (simp add: messageVersionSchema_def version_json_def js_eval)

lemma exact_source: "exact_value sourceSchema (source_json v)"
  by (simp add: sourceSchema_def source_json_def js_eval)

lemma exact_opt_fields:
  "distinct (map fst fs) \<Longrightarrow> \<forall>(k, s, v) \<in> set fs. \<forall>j. v = Some j \<longrightarrow> exact_value s j \<Longrightarrow>
     exact_fields (map (\<lambda>(k, s, v). (k, ZOptional s)) fs) (concat (map (\<lambda>(k, s, v). opt_field k v) fs))"
proof (induction fs)
  case (Cons f fs)
  obtain k s v where f: "f = (k, s, v)" by (cases f) auto
  have "fst ` set (concat (map (\<lambda>(k, s, v). opt_field k v) fs)) \<subseteq> fst ` set fs"
    by (force simp: opt_field_def split: option.splits)
  moreover have "k \<notin> fst ` set fs" using Cons.prems(1) f by simp
  ultimately have "k \<notin> fst ` set (concat (map (\<lambda>(k, s, v). opt_field k v) fs))" by (rule contra_subsetD)
  from exact_opt_field [OF this] Cons f show ?case by simp
qed simp

lemma exact_reasoning: "exact_value reasoningSchema (reasoning_json r)"
proof -
  let ?fs = "[(js ''startedAt'', ZNumber, map_option JNum (rs_startedAt r)),
    (js ''completedAt'', ZNumber, map_option JNum (rs_completedAt r)),
    (js ''durationMs'', ZNumber, map_option JNum (rs_durationMs r))]"
  have "distinct (map fst ?fs)" by (simp add: js_eval)
  moreover have "\<forall>(k, s, v) \<in> set ?fs. \<forall>j. v = Some j \<longrightarrow> exact_value s j" by auto
  ultimately show ?thesis
    using exact_opt_fields [of ?fs] by (simp add: reasoningSchema_def reasoning_json_def)
qed

lemma exact_role: "exact_value messageRoleSchema (role_json r)"
  by (cases r) (simp_all add: messageRoleSchema_def)

lemma exact_status: "exact_value messageStatusSchema (status_json r)"
  by (cases r) (simp_all add: messageStatusSchema_def)

lemma exact_nullable: "exact_value (ZNullable ZString) (nullable_json v)"
  by (cases v) (simp_all add: nullable_json_def)

lemma exact_message:
  assumes "versions m \<noteq> []"
  shows "exact_value messageSchema (message_json m)"
proof -
  let ?fs = "[(js ''createdAt'', ZNumber, map_option JNum (createdAt m)),
     (js ''startedAt'', ZNumber, map_option JNum (startedAt m)),
     (js ''completedAt'', ZNumber, map_option JNum (completedAt m)),
     (js ''durationMs'', ZNumber, map_option JNum (durationMs m)),
     (js ''sources'', ZArray sourceSchema 0, map_option (\<lambda>ss. JArr (map source_json ss)) (sources m)),
     (js ''reasoning'', reasoningSchema, map_option reasoning_json (reasoning m)),
     (js ''isReasoningStreaming'', ZBoolean, map_option JBool (isReasoningStreaming m)),
     (js ''isReasoningComplete'', ZBoolean, map_option JBool (isReasoningComplete m)),
     (js ''isContentComplete'', ZBoolean, map_option JBool (isContentComplete m)),
     (js ''status'', messageStatusSchema, map_option status_json (msg_status m)),
     (js ''errorCode'', ZNullable ZString, map_option nullable_json (errorCode m))]"
  have d: "distinct (map fst ?fs)" by (simp add: js_eval)
  have "\<forall>(k, s, v) \<in> set ?fs. \<forall>j. v = Some j \<longrightarrow> exact_value s j"
    using exact_source exact_reasoning exact_status exact_nullable by (auto simp: list_all_iff)
  note fs = exact_opt_fields [OF d this]
  have k: "exact_fields ((k, s) # fs) ((k, v) # rest) = (exact_value s v \<and> exact_fields fs rest)" for k s fs v rest
    by simp
  have vs: "exact_value (ZArray messageVersionSchema 1) (JArr (map version_json (versions m)))"
    using assms by (cases "versions m") (simp_all add: list_all_iff exact_version)
  have "exact_value ZString (JStr (msg_key m))" by simp
  with fs vs exact_role [of "msg_from m"] show ?thesis
    unfolding messageSchema_def message_json_def message_entries_def exact_value.simps(6) json.case
      append_Cons append_Nil k by simp
qed

lemma exact_messages:
  "(\<forall>m \<in> set ms. versions m \<noteq> []) \<Longrightarrow> exact_value messagesSchema (JArr (map message_json ms))"
  by (simp add: messagesSchema_def list_all_iff exact_message)

end
