(* ===== verification/PgStorage.thy ===== *)
theory PgStorage
  imports PgSchema
begin

text \<open>
  What the playground keeps in the browser: \<open>lib/storage/storage.ts\<close> and
  \<open>lib/state/playground-state-utils.ts\<close>. The storage is the map of theory AuthStore; writing to
  it is taken to succeed (a browser may refuse when it is full, and the code then only logs).
  \<open>zparse\<close> is the parameter of theory PgSchema.
\<close>

section \<open>Reading and writing\<close>

definition CONFIG_KEY :: jsstr where "CONFIG_KEY = js ''playground_config''"
definition MESSAGES_KEY :: jsstr where "MESSAGES_KEY = js ''playground_messages''"
definition PARAMETER_ENABLED_KEY :: jsstr where
  "PARAMETER_ENABLED_KEY = js ''playground_parameter_enabled''"

type_synonym zod_parser = "zschema \<Rightarrow> json \<Rightarrow> json option"

text \<open>\<open>Inr None\<close> is \<open>null\<close>; \<open>Inl\<close> is what \<open>JSON.parse\<close> throws.\<close>

definition readStoredValue :: "jsstr \<Rightarrow> local_storage \<Rightarrow> js_error + json option" where
  "readStoredValue k st =
     (case st k of
        None \<Rightarrow> Inr None
      | Some saved \<Rightarrow>
          if saved = [] then Inr None
          else case json_parse saved of Some j \<Rightarrow> Inr (Some j) | None \<Rightarrow> Inl SyntaxError)"

definition readStoredMessagesValue :: "local_storage \<Rightarrow> (js_error + json option) \<times> local_storage" where
  "readStoredMessagesValue st =
     (case st MESSAGES_KEY of
        None \<Rightarrow> (Inr None, st)
      | Some saved \<Rightarrow>
          if saved = [] then (Inr None, st)
          else if length saved > MAX_STORED_MESSAGES_BYTES then (Inr None, st(MESSAGES_KEY := None))
          else case json_parse saved of
                 Some j \<Rightarrow> (Inr (Some j), st)
               | None \<Rightarrow> (Inl SyntaxError, st))"

definition unwrapStoredValue :: "json \<Rightarrow> json" where
  "unwrapStoredValue val =
     (case (json_get val (js ''version''), json_get val (js ''data'')) of
        (Some _, Some d) \<Rightarrow> d
      | _ \<Rightarrow> val)"

definition writeStoredValue :: "jsstr \<Rightarrow> json \<Rightarrow> local_storage \<Rightarrow> local_storage" where
  "writeStoredValue k d st =
     st(k \<mapsto> stringify (JObj [(js ''version'', JNum STORAGE_VERSION), (js ''data'', d)]))"

section \<open>Limits\<close>

text \<open>\<open>slice(-n)\<close> of a longer list.\<close>

definition last_n :: "nat \<Rightarrow> 'a list \<Rightarrow> 'a list" where
  "last_n n xs = drop (length xs - n) xs"

definition trimMessages :: "Message list \<Rightarrow> Message list" where
  "trimMessages ms = (if length ms \<le> MAX_STORED_MESSAGES then ms else last_n MAX_STORED_MESSAGES ms)"

definition getMessageSize :: "Message \<Rightarrow> nat" where
  "getMessageSize message =
     foldl (\<lambda>total v. total + length (version_content v)) 0 (versions message)
     + (case reasoning message of Some r \<Rightarrow> length (rs_content r) | None \<Rightarrow> 0)"

definition TRUNCATED_CONTENT_SUFFIX :: jsstr where
  "TRUNCATED_CONTENT_SUFFIX = [10, 10] @ js ''[...]''"

definition MIN_PREFIX_COLLAPSE_LENGTH :: nat where "MIN_PREFIX_COLLAPSE_LENGTH = 2000"
definition MIN_REPEATED_SECTION_COUNT :: nat where "MIN_REPEATED_SECTION_COUNT = 3"

definition truncateText :: "jsstr \<Rightarrow> nat \<Rightarrow> jsstr" where
  "truncateText text maxLength =
     (if length text \<le> maxLength then text
      else if maxLength \<le> length TRUNCATED_CONTENT_SUFFIX then take maxLength text
      else take (maxLength - length TRUNCATED_CONTENT_SUFFIX) text @ TRUNCATED_CONTENT_SUFFIX)"

section \<open>Repeated sections\<close>

definition is_line_end :: "nat \<Rightarrow> bool" where
  "is_line_end c \<longleftrightarrow> c = 10 \<or> c = 13 \<or> c = 8232 \<or> c = 8233"

text \<open>
  The pattern \<open>/^#{2,6}\s+\d+\.\s+.+$/gm\<close> at a place where a line starts: the length of the
  match. Each part takes as much as it can; only the second white space can give back: when
  nothing follows it, its last unit that is no line end becomes the text of the heading.
\<close>

definition headingText :: "jsstr \<Rightarrow> nat option" where
  "headingText s =
     (let ws = takeWhile is_ws s; rest = dropWhile is_ws s
      in if ws = [] then None
         else if rest \<noteq> [] then Some (length ws + length (takeWhile (\<lambda>c. \<not> is_line_end c) rest))
         else case find_sub [True] (map (\<lambda>c. \<not> is_line_end c) (rev (tl ws))) of
                Some k \<Rightarrow> Some (length ws - k)
              | None \<Rightarrow> None)"

definition matchHeading :: "jsstr \<Rightarrow> nat option" where
  "matchHeading s =
     (let hashes = takeWhile (\<lambda>c. c = 35) s; s1 = drop (length hashes) s;
          ws = takeWhile is_ws s1; s2 = drop (length ws) s1;
          ds = takeWhile is_digit s2; s3 = drop (length ds) s2
      in if length hashes < 2 \<or> length hashes > 6 \<or> ws = [] \<or> ds = [] \<or> s3 = [] \<or> hd s3 \<noteq> 46 then None
         else map_option (\<lambda>n. length hashes + length ws + length ds + 1 + n) (headingText (tl s3)))"

record SectionOccurrence =
  heading :: jsstr
  occ_index :: nat

lemma headingText_pos: "headingText s = Some n \<Longrightarrow> 0 < n \<and> n \<le> length s"
proof -
  assume h: "headingText s = Some n"
  have l: "length (takeWhile is_ws s) + length (dropWhile is_ws s) = length s"
    by (metis length_append takeWhile_dropWhile_id)
  show ?thesis
  proof (cases "dropWhile is_ws s = []")
    case True
    with h obtain k where k: "find_sub [True] (map (\<lambda>c. \<not> is_line_end c) (rev (tl (takeWhile is_ws s)))) = Some k"
      "n = length (takeWhile is_ws s) - k" "takeWhile is_ws s \<noteq> []"
      by (auto simp: headingText_def Let_def split: if_splits option.splits)
    from find_sub_length [OF k(1)] k l show ?thesis by auto
  next
    case False
    with h l show ?thesis
      using length_takeWhile_le [of "\<lambda>c. \<not> is_line_end c" "dropWhile is_ws s"]
      by (auto simp: headingText_def Let_def split: if_splits)
  qed
qed

lemma matchHeading_pos: "matchHeading s = Some n \<Longrightarrow> 0 < n"
  by (auto simp: matchHeading_def Let_def split: if_splits)

text \<open>\<open>matchAll\<close>: scanning on, and past a match; \<open>start\<close> says that a line starts here.\<close>

function scanHeadings :: "bool \<Rightarrow> nat \<Rightarrow> jsstr \<Rightarrow> SectionOccurrence list" where
  "scanHeadings start pos [] = []"
| "scanHeadings start pos (c # cs) =
     (case (if start then matchHeading (c # cs) else None) of
        Some n \<Rightarrow> \<lparr>heading = take n (c # cs), occ_index = pos\<rparr> # scanHeadings False (pos + n) (drop n (c # cs))
      | None \<Rightarrow> scanHeadings (is_line_end c) (pos + 1) cs)"
  by pat_completeness auto
termination
  by (relation "measure (\<lambda>(_, _, s). length s)")
    (auto split: if_splits dest: matchHeading_pos)

declare scanHeadings.simps(2) [simp del]

definition getSectionOccurrences :: "jsstr \<Rightarrow> SectionOccurrence list" where
  "getSectionOccurrences text = scanHeadings True 0 text"

definition getHeadingCounts :: "SectionOccurrence list \<Rightarrow> (jsstr \<times> nat) list" where
  "getHeadingCounts occurrences =
     foldl (\<lambda>counts o'. al_put (heading o') (get_or (map_of counts (heading o')) 0 + 1) counts) [] occurrences"

text \<open>The loop runs from the last occurrence to the first.\<close>

fun lastRepeated :: "(jsstr \<times> nat) list \<Rightarrow> jsstr list \<Rightarrow> SectionOccurrence list \<Rightarrow> nat list" where
  "lastRepeated counts seen [] = []"
| "lastRepeated counts seen (o' # os) =
     (if get_or (map_of counts (heading o')) 0 < MIN_REPEATED_SECTION_COUNT \<or> heading o' \<in> set seen
      then lastRepeated counts seen os
      else occ_index o' # lastRepeated counts (heading o' # seen) os)"

definition findLastRepeatedSectionRunStart :: "jsstr \<Rightarrow> nat option" where
  "findLastRepeatedSectionRunStart text =
     (let occurrences = getSectionOccurrences text;
          indexes = lastRepeated (getHeadingCounts occurrences) [] (rev occurrences)
      in if indexes = [] then None else Some (Min (set indexes)))"

definition collapseRepeatedSectionSnapshots :: "jsstr \<Rightarrow> jsstr" where
  "collapseRepeatedSectionSnapshots text =
     (if length text < MIN_PREFIX_COLLAPSE_LENGTH then text
      else case findLastRepeatedSectionRunStart text of
             None \<Rightarrow> text
           | Some i \<Rightarrow> drop i text)"

section \<open>Loading and saving\<close>

definition normalizeVersion :: "MessageVersion \<Rightarrow> MessageVersion" where
  "normalizeVersion v = v\<lparr>version_content :=
     truncateText (collapseRepeatedSectionSnapshots (version_content v)) MAX_LOADED_MESSAGE_CHARS\<rparr>"

definition truncateMessage :: "Message \<Rightarrow> Message" where
  "truncateMessage message = message\<lparr>versions := map normalizeVersion (versions message),
     reasoning := map_option (\<lambda>r. r\<lparr>rs_content := truncateText (rs_content r) MAX_LOADED_MESSAGE_CHARS\<rparr>)
       (reasoning message)\<rparr>"

definition normalizeStoredMessageForLoad :: "clock \<Rightarrow> Message \<Rightarrow> Message" where
  "normalizeStoredMessageForLoad clk message =
     (let normalized = truncateMessage message
      in if \<not> isAssistantMessagePending normalized then normalized
         else let hasContent = hasMessageContent normalized;
                  hasReasoning = (case reasoning normalized of
                                    Some r \<Rightarrow> trim (rs_content r) \<noteq> [] | None \<Rightarrow> False)
              in if \<not> hasContent \<and> \<not> hasReasoning then normalized
                 else let completed =
                            get_or (or_else (completedAt normalized)
                              (or_else (Option.bind (reasoning normalized) rs_completedAt)
                                (or_else (startedAt normalized) (createdAt normalized)))) (clk 3)
                      in completeAssistantTiming
                           ((finalizeMessage clk normalized None)
                             \<lparr>msg_status := Some Complete, isReasoningStreaming := Some False\<rparr>) completed)"

text \<open>The loop takes messages from the end; it keeps at least one.\<close>

fun takeBySize :: "nat \<Rightarrow> Message list \<Rightarrow> Message list \<Rightarrow> Message list" where
  "takeBySize totalSize kept [] = kept"
| "takeBySize totalSize kept (message # ms) =
     (if length kept > 0 \<and> totalSize + getMessageSize message > MAX_LOADED_MESSAGES_CHARS then kept
      else takeBySize (totalSize + getMessageSize message) (kept @ [message]) ms)"

definition trimMessagesByContentSize :: "Message list \<Rightarrow> Message list" where
  "trimMessagesByContentSize ms = rev (takeBySize 0 [] (rev ms))"

definition saveMessages :: "zod_parser \<Rightarrow> Message list \<Rightarrow> local_storage \<Rightarrow> local_storage" where
  "saveMessages zparse ms st =
     (case zparse messagesSchema (JArr (map message_json (trimMessages ms))) of
        Some parsed \<Rightarrow> writeStoredValue MESSAGES_KEY parsed st
      | None \<Rightarrow> st)"

text \<open>
  The result is written back when a step changed it, which the code decides by comparing
  references. The comparison \<open>sizeTrimmed !== trimmed\<close> is always true, because
  \<open>trimMessagesByContentSize\<close> builds a new array, so the result is always written back. The
  clock of each message is separate.
\<close>

definition loadMessages ::
  "zod_parser \<Rightarrow> (jsstr \<Rightarrow> jsstr) \<Rightarrow> (nat \<Rightarrow> clock) \<Rightarrow> local_storage \<Rightarrow> Message list option \<times> local_storage" where
  "loadMessages zparse t clks st =
     (case readStoredMessagesValue st of
        (Inl e, st1) \<Rightarrow> (None, st1)
      | (Inr None, st1) \<Rightarrow> (None, st1)
      | (Inr (Some saved), st1) \<Rightarrow>
          if \<not> json_truthy saved then (None, st1)
          else case zparse messagesSchema (unwrapStoredValue saved) of
                 None \<Rightarrow> (None, st1)
               | Some parsed \<Rightarrow>
                   let ms = map message_of (the_arr (Some parsed));
                       normalized = map (\<lambda>(i, m). normalizeStoredMessageForLoad (clks (Suc i)) m) (enumerate 0 ms);
                       trimmed = trimMessages normalized;
                       sizeTrimmed = trimMessagesByContentSize trimmed;
                       sanitized = sanitizeMessagesOnLoad t (clks 0) sizeTrimmed
                   in (Some sanitized, saveMessages zparse sanitized st1))"

definition config_entries :: "PlaygroundConfig \<Rightarrow> (jsstr \<times> json) list" where
  "config_entries c =
     [(js ''model'', JStr (cfg_model c)), (js ''group'', JStr (cfg_group c)),
      (js ''temperature'', JNum (cfg_temperature c)), (js ''top_p'', JNum (cfg_top_p c)),
      (js ''max_tokens'', JNum (cfg_max_tokens c)), (js ''frequency_penalty'', JNum (cfg_frequency_penalty c)),
      (js ''presence_penalty'', JNum (cfg_presence_penalty c)),
      (js ''seed'', case cfg_seed c of Some n \<Rightarrow> JNum n | None \<Rightarrow> JNull), (js ''stream'', JBool (cfg_stream c))]"

definition enabled_entries :: "ParameterEnabled \<Rightarrow> (jsstr \<times> json) list" where
  "enabled_entries c =
     [(js ''temperature'', JBool (on_temperature c)), (js ''top_p'', JBool (on_top_p c)),
      (js ''max_tokens'', JBool (on_max_tokens c)), (js ''frequency_penalty'', JBool (on_frequency_penalty c)),
      (js ''presence_penalty'', JBool (on_presence_penalty c)), (js ''seed'', JBool (on_seed c))]"

text \<open>\<open>loadConfig\<close> and \<open>loadParameterEnabled\<close> are this for their key and schema.\<close>

definition loadPartial :: "zod_parser \<Rightarrow> jsstr \<Rightarrow> zschema \<Rightarrow> local_storage \<Rightarrow> json" where
  "loadPartial zparse k schema st =
     (case readStoredValue k st of
        Inl e \<Rightarrow> JObj []
      | Inr None \<Rightarrow> JObj []
      | Inr (Some saved) \<Rightarrow>
          if \<not> json_truthy saved then JObj []
          else get_or (zparse schema (unwrapStoredValue saved)) (JObj []))"

definition loadConfig :: "zod_parser \<Rightarrow> local_storage \<Rightarrow> json" where
  "loadConfig zparse st = loadPartial zparse CONFIG_KEY playgroundConfigSchema st"

definition loadParameterEnabled :: "zod_parser \<Rightarrow> local_storage \<Rightarrow> json" where
  "loadParameterEnabled zparse st = loadPartial zparse PARAMETER_ENABLED_KEY parameterEnabledSchema st"

definition saveConfig :: "zod_parser \<Rightarrow> PlaygroundConfig \<Rightarrow> local_storage \<Rightarrow> local_storage" where
  "saveConfig zparse config st =
     (case zparse playgroundConfigSchema (JObj (config_entries config)) of
        Some parsed \<Rightarrow> writeStoredValue CONFIG_KEY parsed st
      | None \<Rightarrow> st)"

definition saveParameterEnabled :: "zod_parser \<Rightarrow> ParameterEnabled \<Rightarrow> local_storage \<Rightarrow> local_storage" where
  "saveParameterEnabled zparse enabled st =
     (case zparse parameterEnabledSchema (JObj (enabled_entries enabled)) of
        Some parsed \<Rightarrow> writeStoredValue PARAMETER_ENABLED_KEY parsed st
      | None \<Rightarrow> st)"

definition clearPlaygroundData :: "local_storage \<Rightarrow> local_storage" where
  "clearPlaygroundData st =
     st(CONFIG_KEY := None, PARAMETER_ENABLED_KEY := None, MESSAGES_KEY := None)"

section \<open>playground-state-utils.ts\<close>

text \<open>\<open>{ ...DEFAULT_CONFIG, ...loaded }\<close>, read back as a record.\<close>

definition str_field :: "json \<Rightarrow> jsstr \<Rightarrow> jsstr \<Rightarrow> jsstr" where
  "str_field j k d = (case json_get j k of Some (JStr s) \<Rightarrow> s | _ \<Rightarrow> d)"

definition num_field :: "json \<Rightarrow> jsstr \<Rightarrow> rat \<Rightarrow> rat" where
  "num_field j k d = (case json_get j k of Some (JNum n) \<Rightarrow> n | _ \<Rightarrow> d)"

definition bool_field :: "json \<Rightarrow> jsstr \<Rightarrow> bool \<Rightarrow> bool" where
  "bool_field j k d = (case json_get j k of Some (JBool b) \<Rightarrow> b | _ \<Rightarrow> d)"

definition overlayConfig :: "PlaygroundConfig \<Rightarrow> json \<Rightarrow> PlaygroundConfig" where
  "overlayConfig d j =
     \<lparr>cfg_model = str_field j (js ''model'') (cfg_model d), cfg_group = str_field j (js ''group'') (cfg_group d),
      cfg_temperature = num_field j (js ''temperature'') (cfg_temperature d),
      cfg_top_p = num_field j (js ''top_p'') (cfg_top_p d),
      cfg_max_tokens = num_field j (js ''max_tokens'') (cfg_max_tokens d),
      cfg_frequency_penalty = num_field j (js ''frequency_penalty'') (cfg_frequency_penalty d),
      cfg_presence_penalty = num_field j (js ''presence_penalty'') (cfg_presence_penalty d),
      cfg_seed = (case json_get j (js ''seed'') of Some (JNum n) \<Rightarrow> Some n | Some JNull \<Rightarrow> None | _ \<Rightarrow> cfg_seed d),
      cfg_stream = bool_field j (js ''stream'') (cfg_stream d)\<rparr>"

definition overlayEnabled :: "ParameterEnabled \<Rightarrow> json \<Rightarrow> ParameterEnabled" where
  "overlayEnabled d j =
     \<lparr>on_temperature = bool_field j (js ''temperature'') (on_temperature d),
      on_top_p = bool_field j (js ''top_p'') (on_top_p d),
      on_max_tokens = bool_field j (js ''max_tokens'') (on_max_tokens d),
      on_frequency_penalty = bool_field j (js ''frequency_penalty'') (on_frequency_penalty d),
      on_presence_penalty = bool_field j (js ''presence_penalty'') (on_presence_penalty d),
      on_seed = bool_field j (js ''seed'') (on_seed d)\<rparr>"

definition getInitialPlaygroundConfig :: "zod_parser \<Rightarrow> local_storage \<Rightarrow> PlaygroundConfig" where
  "getInitialPlaygroundConfig zparse st = overlayConfig DEFAULT_CONFIG (loadConfig zparse st)"

definition getInitialParameterEnabled :: "zod_parser \<Rightarrow> local_storage \<Rightarrow> ParameterEnabled" where
  "getInitialParameterEnabled zparse st = overlayEnabled DEFAULT_PARAMETER_ENABLED (loadParameterEnabled zparse st)"

definition getInitialMessages ::
  "zod_parser \<Rightarrow> (jsstr \<Rightarrow> jsstr) \<Rightarrow> (nat \<Rightarrow> clock) \<Rightarrow> local_storage \<Rightarrow> Message list \<times> local_storage" where
  "getInitialMessages zparse t clks st =
     (case loadMessages zparse t clks st of (ms, st') \<Rightarrow> (get_or ms [], st'))"

datatype MessageStateUpdater = SetMessages "Message list" | UpdateMessages "Message list \<Rightarrow> Message list"

fun applyMessageStateUpdate :: "Message list \<Rightarrow> MessageStateUpdater \<Rightarrow> Message list" where
  "applyMessageStateUpdate previousMessages (SetMessages ms) = ms"
| "applyMessageStateUpdate previousMessages (UpdateMessages f) = f previousMessages"

section \<open>Lemmas\<close>

definition messages_size :: "Message list \<Rightarrow> nat" where
  "messages_size ms = sum_list (map getMessageSize ms)"

lemma messages_size_simps [simp]:
  "messages_size [] = 0" "messages_size (m # ms) = getMessageSize m + messages_size ms"
  "messages_size (ms @ ms') = messages_size ms + messages_size ms'" "messages_size (rev ms) = messages_size ms"
  by (simp_all add: messages_size_def rev_map [symmetric] sum_list_rev)

lemma takeBySize_spec:
  "kept = [] \<or> messages_size kept \<le> MAX_LOADED_MESSAGES_CHARS \<or> length kept = 1 \<Longrightarrow>
   \<exists>n \<le> length ms. takeBySize (messages_size kept) kept ms = kept @ take n ms
     \<and> (messages_size (kept @ take n ms) \<le> MAX_LOADED_MESSAGES_CHARS \<or> length (kept @ take n ms) \<le> 1)
     \<and> (n < length ms \<longrightarrow> kept @ take n ms \<noteq> [] \<and>
          messages_size (kept @ take (Suc n) ms) > MAX_LOADED_MESSAGES_CHARS)"
proof (induction ms arbitrary: kept)
  case Nil
  then show ?case by auto
next
  case (Cons m ms)
  show ?case
  proof (cases "length kept > 0 \<and> messages_size kept + getMessageSize m > MAX_LOADED_MESSAGES_CHARS")
    case True
    with Cons.prems show ?thesis by (intro exI [of _ 0]) auto
  next
    case False
    then have "kept @ [m] = [] \<or> messages_size (kept @ [m]) \<le> MAX_LOADED_MESSAGES_CHARS \<or> length (kept @ [m]) = 1"
      by auto
    from Cons.IH [OF this] obtain n where n: "n \<le> length ms"
      "takeBySize (messages_size (kept @ [m])) (kept @ [m]) ms = (kept @ [m]) @ take n ms"
      "messages_size ((kept @ [m]) @ take n ms) \<le> MAX_LOADED_MESSAGES_CHARS \<or> length ((kept @ [m]) @ take n ms) \<le> 1"
      "n < length ms \<longrightarrow> messages_size ((kept @ [m]) @ take (Suc n) ms) > MAX_LOADED_MESSAGES_CHARS" by blast
    with False show ?thesis by (intro exI [of _ "Suc n"]) auto
  qed
qed

lemma trimBySize_spec:
  "\<exists>n \<le> length ms. trimMessagesByContentSize ms = drop n ms
     \<and> (messages_size (drop n ms) \<le> MAX_LOADED_MESSAGES_CHARS \<or> length (drop n ms) \<le> 1)
     \<and> (0 < n \<longrightarrow> drop n ms \<noteq> [] \<and> messages_size (drop (n - 1) ms) > MAX_LOADED_MESSAGES_CHARS)"
proof -
  obtain n where n: "n \<le> length ms" "takeBySize 0 [] (rev ms) = take n (rev ms)"
    "messages_size (take n (rev ms)) \<le> MAX_LOADED_MESSAGES_CHARS \<or> length (take n (rev ms)) \<le> 1"
    "n < length ms \<longrightarrow> take n (rev ms) \<noteq> [] \<and> messages_size (take (Suc n) (rev ms)) > MAX_LOADED_MESSAGES_CHARS"
    using takeBySize_spec [of "[]" "rev ms"] by auto
  have t: "take k (rev ms) = rev (drop (length ms - k) ms)" for k by (simp add: take_rev)
  show ?thesis
    using n unfolding t
    by (intro exI [of _ "length ms - n"]) (auto simp: trimMessagesByContentSize_def)
qed

lemma trimBySize_id:
  assumes "messages_size ms \<le> MAX_LOADED_MESSAGES_CHARS"
  shows "trimMessagesByContentSize ms = ms"
proof -
  obtain n where n: "n \<le> length ms" "trimMessagesByContentSize ms = drop n ms"
    "0 < n \<longrightarrow> messages_size (drop (n - 1) ms) > MAX_LOADED_MESSAGES_CHARS" using trimBySize_spec by blast
  have "messages_size (drop (n - 1) ms) \<le> messages_size ms"
    by (metis append_take_drop_id le_add2 messages_size_simps(3))
  with n assms show ?thesis by (cases n) auto
qed

lemma truncate_id: "length s \<le> n \<Longrightarrow> truncateText s n = s"
  by (simp add: truncateText_def)

lemma truncate_length: "length (truncateText s n) \<le> n"
  by (auto simp: truncateText_def)

text \<open>A message that loading leaves as it is.\<close>

definition small_message :: "Message \<Rightarrow> bool" where
  "small_message m \<longleftrightarrow> versions m \<noteq> [] \<and> \<not> pending m
     \<and> (\<forall>v \<in> set (versions m). length (version_content v) < MIN_PREFIX_COLLAPSE_LENGTH)
     \<and> length (reasoning_text m) \<le> MAX_LOADED_MESSAGE_CHARS"

lemma truncateMessage_id:
  assumes "small_message m"
  shows "truncateMessage m = m"
proof -
  have "normalizeVersion v = v" if "v \<in> set (versions m)" for v
    using assms that
    by (auto simp: normalizeVersion_def small_message_def collapseRepeatedSectionSnapshots_def
        MIN_PREFIX_COLLAPSE_LENGTH_def MAX_LOADED_MESSAGE_CHARS_def truncateText_def)
  then have "map normalizeVersion (versions m) = versions m" by (simp add: map_idI)
  moreover have "map_option (\<lambda>r. r\<lparr>rs_content := truncateText (rs_content r) MAX_LOADED_MESSAGE_CHARS\<rparr>) (reasoning m)
      = reasoning m"
    using assms by (cases "reasoning m") (simp_all add: small_message_def reasoning_text_def truncate_id)
  ultimately show ?thesis by (simp add: truncateMessage_def)
qed

lemma normalize_id: "small_message m \<Longrightarrow> normalizeStoredMessageForLoad clk m = m"
  using truncateMessage_id [of m]
  by (simp add: normalizeStoredMessageForLoad_def Let_def small_message_def pending_iff)

lemma normalize_all_id:
  "\<forall>m \<in> set ms. small_message m \<Longrightarrow>
     map (\<lambda>(i, m). normalizeStoredMessageForLoad (clks (Suc i)) m) (enumerate n ms) = ms"
  by (induction ms arbitrary: n) (simp_all add: normalize_id)

lemma sanitize_id:
  assumes "\<forall>m \<in> set ms. \<not> pending m"
  shows "sanitizeMessagesOnLoad t clk ms = ms"
proof -
  have "lastPendingIndex ms (length ms) = None" using assms by (simp add: lastPendingIndex_None)
  then show ?thesis by (simp add: sanitizeMessagesOnLoad_def)
qed

text \<open>The envelope around stored data.\<close>

lemma envelope_wf:
  "wf_json d \<Longrightarrow> wf_json (JObj [(js ''version'', JNum STORAGE_VERSION), (js ''data'', d)])"
proof -
  have "obj_of [(js ''version'', JNum STORAGE_VERSION), (js ''data'', d)] =
      [(js ''version'', JNum STORAGE_VERSION), (js ''data'', d)]"
    by (rule obj_of_plain) (simp_all add: js_eval array_index_def)
  moreover have "decimal STORAGE_VERSION" by (simp add: decimal_def STORAGE_VERSION_def)
  moreover assume "wf_json d"
  ultimately show ?thesis by simp
qed

lemma unwrap_envelope: "unwrapStoredValue (JObj [(js ''version'', v), (js ''data'', d)]) = d"
  by (simp add: unwrapStoredValue_def json_get_def js_eval)

lemma read_written:
  assumes "wf_json d"
  shows "readStoredValue k (writeStoredValue k d st) =
    Inr (Some (JObj [(js ''version'', JNum STORAGE_VERSION), (js ''data'', d)]))"
  using json_text.decode_encode [OF envelope_wf [OF assms]]
  by (simp add: readStoredValue_def writeStoredValue_def)

text \<open>Clients of the schema contract.\<close>

context zod
begin

lemma zparse_messages:
  "\<forall>m \<in> set ms. versions m \<noteq> [] \<Longrightarrow>
     zparse messagesSchema (JArr (map message_json ms)) = Some (JArr (map message_json ms))"
  by (rule accepts) (simp_all add: exact_messages plain_wf plain_schemas)

lemma save_then_load:
  assumes small: "\<forall>m \<in> set ms. small_message m" and len: "length ms \<le> MAX_STORED_MESSAGES"
    and size: "messages_size ms \<le> MAX_LOADED_MESSAGES_CHARS"
    and dec: "all_decimal (JArr (map message_json ms))"
    and fits: "length (the (saveMessages zparse ms st MESSAGES_KEY)) \<le> MAX_STORED_MESSAGES_BYTES"
  shows "loadMessages zparse t clks (saveMessages zparse ms st) = (Some ms, saveMessages zparse ms st)"
proof -
  let ?j = "JArr (map message_json ms)"
  let ?e = "JObj [(js ''version'', JNum STORAGE_VERSION), (js ''data'', ?j)]"
  have v: "\<forall>m \<in> set ms. versions m \<noteq> []" using small by (simp add: small_message_def)
  note z = zparse_messages [OF v]
  have s: "saveMessages zparse ms st' = writeStoredValue MESSAGES_KEY ?j st'" for st'
    using len z by (simp add: saveMessages_def trimMessages_def)
  have "wf_json ?j" using exact_wf(1) [OF exact_messages [OF v] _ dec] plain_schemas by simp
  note p = json_text.decode_encode [OF envelope_wf [OF this]]
  have r: "readStoredMessagesValue (saveMessages zparse ms st) = (Inr (Some ?e), saveMessages zparse ms st)"
    using p fits unfolding s by (simp add: readStoredMessagesValue_def writeStoredValue_def)
  have "map message_of (map message_json ms) = ms" by (simp add: map_idI)
  moreover have "\<forall>m \<in> set ms. \<not> pending m" using small by (simp add: small_message_def)
  moreover have "saveMessages zparse ms (saveMessages zparse ms st) = saveMessages zparse ms st"
    unfolding s by (simp add: writeStoredValue_def)
  ultimately show ?thesis
    using z size len
    by (simp add: loadMessages_def r unwrap_envelope normalize_all_id [OF small] trimMessages_def
        trimBySize_id sanitize_id Let_def del: map_map)
qed

lemma load_written:
  assumes "wf_schema s" and "exact_value s j" and "wf_json j"
  shows "loadPartial zparse k s (writeStoredValue k j st) = j"
  using accepts [OF assms(1,2)] by (simp add: loadPartial_def read_written [OF assms(3)] unwrap_envelope get_or_def)

end

lemma exact_config: "exact_value playgroundConfigSchema (JObj (config_entries c))"
  by (simp add: playgroundConfigSchema_def config_entries_def split: option.split)

lemma exact_enabled: "exact_value parameterEnabledSchema (JObj (enabled_entries c))"
  by (simp add: parameterEnabledSchema_def enabled_entries_def)

lemma overlay_config_entries: "overlayConfig d (JObj (config_entries c)) = c"
  by (cases c) (simp add: overlayConfig_def config_entries_def str_field_def num_field_def bool_field_def
      json_get_def js_eval split: option.split)

lemma overlay_enabled_entries: "overlayEnabled d (JObj (enabled_entries c)) = c"
  by (cases c) (simp add: overlayEnabled_def enabled_entries_def bool_field_def json_get_def js_eval)

section \<open>Properties\<close>

text \<open>
  A saved conversation is there after a reload: if it is within the limits (at most 100
  settled messages of ordinary length, 120000 characters in all, a text below one
  megabyte), loading returns exactly the messages that were saved and leaves the stored text as
  it was. Of zod only its contract is used.
\<close>

theorem messages_survive_reload:
  assumes "zod zparse" and "\<forall>m \<in> set ms. small_message m" and "length ms \<le> MAX_STORED_MESSAGES"
    and "messages_size ms \<le> MAX_LOADED_MESSAGES_CHARS"
    and "all_decimal (JArr (map message_json ms))"
    and "length (the (saveMessages zparse ms st MESSAGES_KEY)) \<le> MAX_STORED_MESSAGES_BYTES"
  shows "loadMessages zparse t clks (saveMessages zparse ms st) = (Some ms, saveMessages zparse ms st)"
  using zod.save_then_load [OF assms] .

theorem messages_survive_reload_witness:
  "loadMessages zod_parse id (\<lambda>_ _. 0) (saveMessages zod_parse sample_conv Map.empty) =
     (Some sample_conv, saveMessages zod_parse sample_conv Map.empty)"
proof (rule messages_survive_reload)
  show "zod zod_parse" by (rule zodref.zod_axioms)
  show "\<forall>m \<in> set sample_conv. small_message m"
    by (simp add: sample_conv_def small_message_def createUserMessage_def createMessageVersion_def pending_def
        reasoning_text_def MIN_PREFIX_COLLAPSE_LENGTH_def)
  show "length sample_conv \<le> MAX_STORED_MESSAGES" "messages_size sample_conv \<le> MAX_LOADED_MESSAGES_CHARS"
    by code_simp+
  show "all_decimal (JArr (map message_json sample_conv))"
    by (simp add: sample_conv_def message_json_def message_entries_def createUserMessage_def opt_field_def
        createMessageVersion_def version_json_def decimal_def)
  show "length (the (saveMessages zod_parse sample_conv Map.empty MESSAGES_KEY)) \<le> MAX_STORED_MESSAGES_BYTES"
    by code_simp
qed

text \<open>
  The settings survive a reload, each in its own entry: after saving, the initial
  configuration and the initial parameter switches are the saved ones, and a storage without
  the entries gives the defaults.
\<close>

theorem settings_survive_reload:
  assumes "zod zparse" and "all_decimal (JObj (config_entries c))"
  shows "getInitialPlaygroundConfig zparse (saveParameterEnabled zparse e (saveConfig zparse c st)) = c
    \<and> getInitialParameterEnabled zparse (saveParameterEnabled zparse e (saveConfig zparse c st)) = e
    \<and> getInitialPlaygroundConfig zparse (clearPlaygroundData st) = DEFAULT_CONFIG
    \<and> getInitialParameterEnabled zparse (clearPlaygroundData st) = DEFAULT_PARAMETER_ENABLED"
proof -
  note z = zod.accepts [OF assms(1) plain_wf]
  let ?c = "JObj (config_entries c)" and ?e = "JObj (enabled_entries e)"
  have w: "wf_json ?c" "wf_json ?e"
    using exact_wf(1) [OF exact_config _ assms(2)] exact_wf(1) [OF exact_enabled, of e] plain_schemas
    by (simp_all add: enabled_entries_def)
  have s: "saveConfig zparse c st' = writeStoredValue CONFIG_KEY ?c st'"
    "saveParameterEnabled zparse e st' = writeStoredValue PARAMETER_ENABLED_KEY ?e st'" for st'
    using z [OF plain_schemas(3) exact_config] z [OF plain_schemas(4) exact_enabled]
    by (simp_all add: saveConfig_def saveParameterEnabled_def)
  have k: "CONFIG_KEY \<noteq> PARAMETER_ENABLED_KEY" "MESSAGES_KEY \<noteq> CONFIG_KEY" "MESSAGES_KEY \<noteq> PARAMETER_ENABLED_KEY"
    by (simp_all add: CONFIG_KEY_def PARAMETER_ENABLED_KEY_def MESSAGES_KEY_def js_eval)
  have "writeStoredValue PARAMETER_ENABLED_KEY ?e (writeStoredValue CONFIG_KEY ?c st) =
      writeStoredValue CONFIG_KEY ?c (writeStoredValue PARAMETER_ENABLED_KEY ?e st)"
    using k(1) by (simp add: writeStoredValue_def fun_upd_twist)
  then have "loadConfig zparse (saveParameterEnabled zparse e (saveConfig zparse c st)) = ?c"
    unfolding s loadConfig_def
    using zod.load_written [OF assms(1) plain_wf [OF plain_schemas(3)] exact_config w(1)] by simp
  moreover have "loadParameterEnabled zparse (saveParameterEnabled zparse e (saveConfig zparse c st)) = ?e"
    unfolding s loadParameterEnabled_def
    using zod.load_written [OF assms(1) plain_wf [OF plain_schemas(4)] exact_enabled w(2)] by simp
  moreover have "loadConfig zparse (clearPlaygroundData st) = JObj []"
    "loadParameterEnabled zparse (clearPlaygroundData st) = JObj []"
    using k by (simp_all add: loadConfig_def loadParameterEnabled_def loadPartial_def readStoredValue_def
        clearPlaygroundData_def)
  moreover have "overlayConfig d (JObj []) = d" "overlayEnabled d' (JObj []) = d'" for d d'
    by (cases d; cases d'; simp add: overlayConfig_def overlayEnabled_def str_field_def num_field_def
        bool_field_def json_get_def)+
  ultimately show ?thesis
    by (simp add: getInitialPlaygroundConfig_def getInitialParameterEnabled_def overlay_config_entries
        overlay_enabled_entries)
qed

theorem settings_survive_reload_witness:
  "getInitialPlaygroundConfig zod_parse
     (saveParameterEnabled zod_parse DEFAULT_PARAMETER_ENABLED (saveConfig zod_parse DEFAULT_CONFIG Map.empty)) =
   DEFAULT_CONFIG"
proof -
  have "all_decimal (JObj (config_entries DEFAULT_CONFIG))"
    by (simp add: config_entries_def DEFAULT_CONFIG_def decimal_def max_frac_def)
  from settings_survive_reload [OF zodref.zod_axioms this] show ?thesis by blast
qed

text \<open>
  C34. Trimming by size keeps the newest messages and as many as fit: the result is an end
  segment, not empty unless the conversation is, within 120000 characters unless it is one
  message, and every longer end segment exceeds the limit.
\<close>

theorem size_trim_maximal:
  "suffix (trimMessagesByContentSize ms) ms
   \<and> (ms \<noteq> [] \<longrightarrow> trimMessagesByContentSize ms \<noteq> [])
   \<and> (messages_size (trimMessagesByContentSize ms) \<le> MAX_LOADED_MESSAGES_CHARS
      \<or> length (trimMessagesByContentSize ms) = 1)
   \<and> (\<forall>r. suffix r ms \<longrightarrow> length (trimMessagesByContentSize ms) < length r \<longrightarrow>
        messages_size r > MAX_LOADED_MESSAGES_CHARS)"
proof -
  obtain n where n: "n \<le> length ms" and t: "trimMessagesByContentSize ms = drop n ms"
    and fit: "messages_size (drop n ms) \<le> MAX_LOADED_MESSAGES_CHARS \<or> length (drop n ms) \<le> 1"
    and more: "0 < n \<longrightarrow> drop n ms \<noteq> [] \<and> messages_size (drop (n - 1) ms) > MAX_LOADED_MESSAGES_CHARS"
    using trimBySize_spec by blast
  have mono: "messages_size (drop (n - 1) ms) \<le> messages_size r"
    if s: "suffix r ms" and l: "length (drop n ms) < length r" for r
  proof -
    obtain pre where ms: "ms = pre @ r" using s by (auto simp: suffix_def)
    then have "length pre \<le> n - 1" using l n by simp
    then have "drop (n - 1) ms = drop (n - 1 - length pre) r" using ms by simp
    then show ?thesis by (metis append_take_drop_id le_add2 messages_size_simps(3))
  qed
  have "messages_size r > MAX_LOADED_MESSAGES_CHARS" if "suffix r ms" "length (drop n ms) < length r" for r
  proof -
    have "length r \<le> length ms" using that(1) by (simp add: suffix_length_le)
    then have "0 < n" using that(2) by (cases n) auto
    with more mono [OF that] show ?thesis by simp
  qed
  moreover have "ms \<noteq> [] \<longrightarrow> drop n ms \<noteq> []" using more by (cases n) auto
  moreover have "messages_size (drop n ms) \<le> MAX_LOADED_MESSAGES_CHARS \<or> length (drop n ms) = 1"
    using fit by (cases "drop n ms") auto
  ultimately show ?thesis by (simp add: t suffix_drop)
qed

theorem size_trim_maximal_witness:
  "trimMessagesByContentSize sample_conv \<noteq> []"
  using size_trim_maximal [of sample_conv] by (simp add: sample_conv_def)

end
