(* ===== verification/PgSessions.thy ===== *)
theory PgSessions
  imports PgStorage
begin

text \<open>
  The conversations of the playground: the sessions of \<open>lib/storage.ts\<close> with the older message
  helpers of \<open>lib/message-utils.ts\<close> that it uses, and the page state of
  \<open>hooks/use-playground-state.ts\<close>.

  \<open>loadSessions\<close> casts what it reads to the declared types without checking: a stored array that
  lacks the declared shape is outside the model and marked \<open>Inl SchemaError\<close>. A debounce timer is a flag and an event of its own.
\<close>

section \<open>lib/message-utils.ts\<close>

definition legacyFinalizeMessage :: "Message \<Rightarrow> jsstr option \<Rightarrow> Message" where
  "legacyFinalizeMessage message apiReasoningContent =
     (let parsed = parseThinkTags (version_content (getCurrentVersion message));
          finalReasoning =
            str_or apiReasoningContent
              (str_or (map_option rs_content (reasoning message)) (str_or (Some (think_reasoning parsed)) []))
      in (updateCurrentVersionContent message (visibleContent parsed))
           \<lparr>reasoning :=
              (if finalReasoning \<noteq> []
               then Some \<lparr>rs_content = finalReasoning,
                      rs_duration = (case reasoning message of Some r \<Rightarrow> rs_duration r | None \<Rightarrow> 0),
                      rs_startedAt = None, rs_completedAt = None, rs_durationMs = None\<rparr>
               else None),
            isReasoningStreaming := Some False\<rparr>)"

definition legacySanitizeMessage :: "Message \<Rightarrow> Message" where
  "legacySanitizeMessage message =
     (let finalized = legacyFinalizeMessage message None;
          hasContent = (trim (getMessageContent finalized) \<noteq> []);
          hasReasoning = (case reasoning finalized of Some r \<Rightarrow> trim (rs_content r) \<noteq> [] | None \<Rightarrow> False)
      in if hasContent \<or> hasReasoning
         then finalized\<lparr>msg_status := Some Complete, isReasoningStreaming := Some False\<rparr>
         else (updateCurrentVersionContent finalized (API_REQUEST_ERROR @ js '': '' @ INTERRUPTED))
                \<lparr>msg_status := Some StatusError, isReasoningStreaming := Some False\<rparr>)"

definition legacySanitizeMessagesOnLoad :: "Message list \<Rightarrow> Message list" where
  "legacySanitizeMessagesOnLoad ms =
     (case lastPendingIndex ms (length ms) of
        None \<Rightarrow> ms
      | Some i \<Rightarrow> ms[i := legacySanitizeMessage (ms ! i)])"

definition markdownMessage :: "Message \<Rightarrow> jsstr" where
  "markdownMessage message =
     (let content = trim (version_content (getCurrentVersion message));
          head = (if msg_from message = RoleUser then js ''## User'' else js ''## Assistant'');
          thought = (case reasoning message of Some r \<Rightarrow> trim (rs_content r) | None \<Rightarrow> []);
          parts = [head]
            @ (if thought \<noteq> [] then [js ''### Reasoning'' @ [10, 10] @ thought] else [])
            @ (if content \<noteq> [] then [js ''### Response'' @ [10, 10] @ content] else [])
      in join [10, 10] parts)"

definition formatMessagesAsMarkdown :: "Message list \<Rightarrow> jsstr" where
  "formatMessagesAsMarkdown ms = join ([10, 10] @ js ''---'' @ [10, 10]) (map markdownMessage ms)"

section \<open>lib/storage.ts\<close>

record PlaygroundSession =
  sess_id :: jsstr
  sess_title :: jsstr
  sess_messages :: "Message list"
  sess_createdAt :: rat
  sess_updatedAt :: rat

definition SESSIONS_KEY :: jsstr where "SESSIONS_KEY = js ''playground_sessions''"
definition ACTIVE_SESSION_ID_KEY :: jsstr where "ACTIVE_SESSION_ID_KEY = js ''playground_active_session_id''"

definition getSessionTitle :: "Message list \<Rightarrow> jsstr" where
  "getSessionTitle ms =
     (let content = (case List.find (\<lambda>m. msg_from m = RoleUser) ms of
                       Some m \<Rightarrow> (case versions m of v # _ \<Rightarrow> trim (version_content v) | [] \<Rightarrow> [])
                     | None \<Rightarrow> [])
      in if content = [] then js ''New conversation''
         else if length content > 32 then take 32 content @ js ''...'' else content)"

definition createSession :: "jsstr \<Rightarrow> rat \<Rightarrow> Message list \<Rightarrow> PlaygroundSession" where
  "createSession nanoid now ms =
     \<lparr>sess_id = nanoid, sess_title = getSessionTitle ms, sess_messages = ms,
      sess_createdAt = now, sess_updatedAt = now\<rparr>"

definition session_json :: "PlaygroundSession \<Rightarrow> json" where
  "session_json s = JObj
    [(js ''id'', JStr (sess_id s)), (js ''title'', JStr (sess_title s)),
     (js ''messages'', JArr (map message_json (sess_messages s))),
     (js ''createdAt'', JNum (sess_createdAt s)), (js ''updatedAt'', JNum (sess_updatedAt s))]"

definition saveSessions :: "PlaygroundSession list \<Rightarrow> local_storage \<Rightarrow> local_storage" where
  "saveSessions sessions st = st(SESSIONS_KEY \<mapsto> stringify (JArr (map session_json sessions)))"

definition loadActiveSessionId :: "local_storage \<Rightarrow> jsstr option" where
  "loadActiveSessionId st = st ACTIVE_SESSION_ID_KEY"

definition saveActiveSessionId :: "jsstr \<Rightarrow> local_storage \<Rightarrow> local_storage" where
  "saveActiveSessionId sid st = st(ACTIVE_SESSION_ID_KEY \<mapsto> sid)"

text \<open>\<open>loadMessages\<close> and \<open>saveMessages\<close> of this module read and write a bare array.\<close>

definition legacySaveMessages :: "Message list \<Rightarrow> local_storage \<Rightarrow> local_storage" where
  "legacySaveMessages ms st = st(MESSAGES_KEY \<mapsto> stringify (JArr (map message_json ms)))"

definition declared_messages :: "json \<Rightarrow> bool" where
  "declared_messages j \<longleftrightarrow> zod_parse messagesSchema j \<noteq> None"

definition legacyLoadMessages :: "local_storage \<Rightarrow> js_error + (Message list option \<times> local_storage)" where
  "legacyLoadMessages st =
     (case st MESSAGES_KEY of
        None \<Rightarrow> Inr (None, st)
      | Some saved \<Rightarrow>
          if saved = [] then Inr (None, st)
          else case json_parse saved of
                 None \<Rightarrow> Inr (None, st)
               | Some (JArr xs) \<Rightarrow>
                   if \<not> declared_messages (JArr xs) then Inl SchemaError
                   else let parsed = map message_of xs;
                            sanitized = legacySanitizeMessagesOnLoad parsed
                        in Inr (Some sanitized,
                             if lastPendingIndex parsed (length parsed) \<noteq> None
                             then legacySaveMessages sanitized st else st)
               | Some _ \<Rightarrow> Inr (None, st))"

definition declared_session :: "json \<Rightarrow> bool" where
  "declared_session j \<longleftrightarrow>
     (case j of
        JObj ps \<Rightarrow>
          (case map_of ps (js ''id'') of Some (JStr _) \<Rightarrow> True | _ \<Rightarrow> False)
          \<and> (case map_of ps (js ''title'') of Some (JStr _) \<Rightarrow> True | None \<Rightarrow> True | _ \<Rightarrow> False)
          \<and> (case map_of ps (js ''messages'') of Some ms \<Rightarrow> declared_messages ms | None \<Rightarrow> True)
          \<and> (case map_of ps (js ''createdAt'') of Some (JNum _) \<Rightarrow> True | None \<Rightarrow> True | _ \<Rightarrow> False)
          \<and> (case map_of ps (js ''updatedAt'') of Some (JNum _) \<Rightarrow> True | None \<Rightarrow> True | _ \<Rightarrow> False)
      | _ \<Rightarrow> False)"

definition restoreSession :: "rat \<Rightarrow> json \<Rightarrow> PlaygroundSession" where
  "restoreSession now j =
     (let ms = legacySanitizeMessagesOnLoad (map message_of (the_arr (json_get j (js ''messages''))));
          time = (\<lambda>k. case the_num (json_get j k) of Some n \<Rightarrow> if n = 0 then now else n | None \<Rightarrow> now)
      in \<lparr>sess_id = the_str (json_get j (js ''id'')),
          sess_title = (if the_str (json_get j (js ''title'')) = [] then getSessionTitle ms
                        else the_str (json_get j (js ''title''))),
          sess_messages = ms,
          sess_createdAt = time (js ''createdAt''), sess_updatedAt = time (js ''updatedAt'')\<rparr>)"

definition freshSession :: "jsstr \<Rightarrow> rat \<Rightarrow> Message list \<Rightarrow> local_storage \<Rightarrow> PlaygroundSession list \<times> local_storage" where
  "freshSession nanoid now ms st =
     (let session = createSession nanoid now ms
      in ([session], saveActiveSessionId (sess_id session) (saveSessions [session] st)))"

definition loadSessions ::
  "jsstr \<Rightarrow> rat \<Rightarrow> local_storage \<Rightarrow> js_error + (PlaygroundSession list \<times> local_storage)" where
  "loadSessions nanoid now st =
     (let legacy =
            (case legacyLoadMessages st of
               Inl e \<Rightarrow> Inl e
             | Inr (Some (m # ms), st1) \<Rightarrow> Inr (freshSession nanoid now (m # ms) st1)
             | Inr (_, st1) \<Rightarrow> Inr (freshSession nanoid now [] st1))
      in case st SESSIONS_KEY of
           None \<Rightarrow> legacy
         | Some saved \<Rightarrow>
             if saved = [] then legacy
             else case json_parse saved of
                    None \<Rightarrow> Inr (freshSession nanoid now [] st)
                  | Some (JArr xs) \<Rightarrow>
                      if list_all declared_session xs then Inr (map (restoreSession now) xs, st) else Inl SchemaError
                  | Some _ \<Rightarrow> legacy)"

definition clearAllPlaygroundData :: "local_storage \<Rightarrow> local_storage" where
  "clearAllPlaygroundData st =
     (clearPlaygroundData st)(SESSIONS_KEY := None, ACTIVE_SESSION_ID_KEY := None)"

section \<open>hooks/use-playground-state.ts\<close>

record PgState =
  pg_config :: PlaygroundConfig
  sessions :: "PlaygroundSession list"
  parameterEnabled :: ParameterEnabled
  saveTimer :: bool
  latestMessages :: "Message list"
  activeSessionId :: jsstr
  pg_storage :: local_storage

text \<open>The initial states; reading \<open>sessions[0].id\<close> of an empty list throws.\<close>

definition initialActiveSession :: "jsstr option \<Rightarrow> PlaygroundSession list \<Rightarrow> js_error + jsstr" where
  "initialActiveSession saved ss =
     (case List.find (\<lambda>s. Some (sess_id s) = saved) ss of
        Some s \<Rightarrow> if sess_id s = [] then Inr (sess_id (hd ss)) else Inr (sess_id s)
      | None \<Rightarrow> (case ss of [] \<Rightarrow> Inl TypeError | s # _ \<Rightarrow> Inr (sess_id s)))"

definition usePlaygroundState :: "zod_parser \<Rightarrow> jsstr \<Rightarrow> rat \<Rightarrow> local_storage \<Rightarrow> js_error + PgState" where
  "usePlaygroundState zparse nanoid now st =
     (case loadSessions nanoid now st of
        Inl e \<Rightarrow> Inl e
      | Inr (ss, st1) \<Rightarrow>
          (case initialActiveSession (loadActiveSessionId st1) ss of
             Inl e \<Rightarrow> Inl e
           | Inr active \<Rightarrow>
               Inr \<lparr>pg_config = getInitialPlaygroundConfig zparse st, sessions = ss,
                 parameterEnabled = getInitialParameterEnabled zparse st1, saveTimer = False,
                 latestMessages = [], activeSessionId = active, pg_storage = st1\<rparr>))"

definition activeSession :: "PgState \<Rightarrow> PlaygroundSession option" where
  "activeSession st =
     or_else (List.find (\<lambda>s. sess_id s = activeSessionId st) (sessions st))
       (case sessions st of s # _ \<Rightarrow> Some s | [] \<Rightarrow> None)"

definition activeMessages :: "PgState \<Rightarrow> Message list" where
  "activeMessages st = (case activeSession st of Some s \<Rightarrow> sess_messages s | None \<Rightarrow> [])"

definition persistMessages :: "Message list \<Rightarrow> PgState \<Rightarrow> PgState" where
  "persistMessages ms st = st\<lparr>latestMessages := ms, saveTimer := True\<rparr>"

text \<open>The debounce timer fires, or the page is left while it is set.\<close>

definition fireSaveTimer :: "zod_parser \<Rightarrow> PgState \<Rightarrow> PgState" where
  "fireSaveTimer zparse st =
     (if saveTimer st
      then st\<lparr>saveTimer := False, pg_storage := saveMessages zparse (latestMessages st) (pg_storage st)\<rparr>
      else st)"

definition updateConfig :: "zod_parser \<Rightarrow> (PlaygroundConfig \<Rightarrow> PlaygroundConfig) \<Rightarrow> PgState \<Rightarrow> PgState" where
  "updateConfig zparse setKey st =
     (let updated = setKey (pg_config st)
      in st\<lparr>pg_config := updated, pg_storage := saveConfig zparse updated (pg_storage st)\<rparr>)"

definition updateParameterEnabled :: "zod_parser \<Rightarrow> (ParameterEnabled \<Rightarrow> ParameterEnabled) \<Rightarrow> PgState \<Rightarrow> PgState" where
  "updateParameterEnabled zparse setKey st =
     (let updated = setKey (parameterEnabled st)
      in st\<lparr>parameterEnabled := updated, pg_storage := saveParameterEnabled zparse updated (pg_storage st)\<rparr>)"

definition updateMessages :: "rat \<Rightarrow> MessageStateUpdater \<Rightarrow> PgState \<Rightarrow> PgState" where
  "updateMessages now updater st =
     (let active = filter (\<lambda>s. sess_id s = activeSessionId st) (sessions st);
          st1 = fold (\<lambda>s. persistMessages (applyMessageStateUpdate (sess_messages s) updater)) active st;
          updated = map (\<lambda>s.
            if sess_id s \<noteq> activeSessionId st then s
            else let newMessages = applyMessageStateUpdate (sess_messages s) updater
                 in s\<lparr>sess_title := getSessionTitle newMessages, sess_messages := newMessages,
                       sess_updatedAt := now\<rparr>) (sessions st)
      in st1\<lparr>sessions := updated, pg_storage := saveSessions updated (pg_storage st1)\<rparr>)"

definition clearSessionMessages :: "rat \<Rightarrow> PgState \<Rightarrow> PgState" where
  "clearSessionMessages now st = updateMessages now (SetMessages []) st"

definition createNewSession :: "jsstr \<Rightarrow> rat \<Rightarrow> Message list \<Rightarrow> PgState \<Rightarrow> PgState" where
  "createNewSession nanoid now ms st =
     (let session = createSession nanoid now ms;
          updated = session # sessions st
      in st\<lparr>sessions := updated, activeSessionId := sess_id session,
           pg_storage := saveActiveSessionId (sess_id session) (saveSessions updated (pg_storage st))\<rparr>)"

definition switchSession :: "jsstr \<Rightarrow> PgState \<Rightarrow> PgState" where
  "switchSession sid st = st\<lparr>activeSessionId := sid, pg_storage := saveActiveSessionId sid (pg_storage st)\<rparr>"

definition deleteSession :: "jsstr \<Rightarrow> rat \<Rightarrow> jsstr \<Rightarrow> PgState \<Rightarrow> PgState" where
  "deleteSession nanoid now sid st =
     (let remaining = filter (\<lambda>s. sess_id s \<noteq> sid) (sessions st);
          updated = (if length remaining > 0 then remaining else [createSession nanoid now []]);
          nextActive = (if activeSessionId st = sid then sess_id (hd updated) else activeSessionId st)
      in st\<lparr>sessions := updated, activeSessionId := nextActive,
           pg_storage := saveSessions updated (saveActiveSessionId nextActive (pg_storage st))\<rparr>)"

definition resetConfig :: "zod_parser \<Rightarrow> PgState \<Rightarrow> PgState" where
  "resetConfig zparse st =
     st\<lparr>pg_config := DEFAULT_CONFIG, parameterEnabled := DEFAULT_PARAMETER_ENABLED,
       pg_storage := saveParameterEnabled zparse DEFAULT_PARAMETER_ENABLED
         (saveConfig zparse DEFAULT_CONFIG (pg_storage st))\<rparr>"

section \<open>Lemmas\<close>

definition session_ids :: "PgState \<Rightarrow> jsstr list" where
  "session_ids st = map sess_id (sessions st)"

text \<open>There is a session, sessions are told apart by their identifiers, and the active one exists.\<close>

definition sess_inv :: "PgState \<Rightarrow> bool" where
  "sess_inv st \<longleftrightarrow> sessions st \<noteq> [] \<and> distinct (session_ids st) \<and> activeSessionId st \<in> set (session_ids st)"

inductive sess_step :: "PgState \<Rightarrow> PgState \<Rightarrow> bool" where
  "sess_step st (updateMessages now u st)"
| "nanoid \<notin> set (session_ids st) \<Longrightarrow> sess_step st (createNewSession nanoid now ms st)"
| "sid \<in> set (session_ids st) \<Longrightarrow> sess_step st (switchSession sid st)"
| "sess_step st (deleteSession nanoid now sid st)"
| "sess_step st (updateConfig zparse f st)"
| "sess_step st (updateParameterEnabled zparse g st)"
| "sess_step st (resetConfig zparse st)"
| "sess_step st (fireSaveTimer zparse st)"

lemma persist_fields [simp]:
  "sessions (persistMessages ms st) = sessions st" "activeSessionId (persistMessages ms st) = activeSessionId st"
  "pg_storage (persistMessages ms st) = pg_storage st"
  by (simp_all add: persistMessages_def)

lemma fold_persist_fields [simp]:
  "sessions (fold (\<lambda>s. persistMessages (f s)) ss st) = sessions st"
  "activeSessionId (fold (\<lambda>s. persistMessages (f s)) ss st) = activeSessionId st"
  "pg_storage (fold (\<lambda>s. persistMessages (f s)) ss st) = pg_storage st"
  by (induction ss arbitrary: st) simp_all

lemma updateMessages_ids: "session_ids (updateMessages now u st) = session_ids st"
  by (simp add: updateMessages_def session_ids_def Let_def comp_def if_distrib cong: if_cong)

lemma updateMessages_active [simp]: "activeSessionId (updateMessages now u st) = activeSessionId st"
  by (simp add: updateMessages_def Let_def)

lemma updateMessages_length [simp]: "length (sessions (updateMessages now u st)) = length (sessions st)"
  by (simp add: updateMessages_def Let_def)

lemma sess_inv_delete:
  assumes "sess_inv st"
  shows "sess_inv (deleteSession nanoid now sid st)"
proof (cases "filter (\<lambda>s. sess_id s \<noteq> sid) (sessions st)")
  case Nil
  then have "\<forall>s \<in> set (sessions st). sess_id s = sid" by (simp add: filter_empty_conv)
  with assms have "activeSessionId st = sid" by (auto simp: sess_inv_def session_ids_def)
  with Nil show ?thesis by (simp add: deleteSession_def sess_inv_def session_ids_def Let_def)
next
  case (Cons s ss)
  let ?r = "filter (\<lambda>s. sess_id s \<noteq> sid) (sessions st)"
  have d: "distinct (map sess_id ?r)"
    using assms by (simp add: sess_inv_def session_ids_def distinct_map_filter)
  have "activeSessionId st \<noteq> sid \<Longrightarrow> activeSessionId st \<in> sess_id ` set ?r"
    using assms by (auto simp: sess_inv_def session_ids_def)
  with Cons d show ?thesis
    by (auto simp: deleteSession_def sess_inv_def session_ids_def Let_def)
qed

lemma sess_inv_step: "sess_step st st' \<Longrightarrow> sess_inv st \<Longrightarrow> sess_inv st'"
proof (induction rule: sess_step.induct)
  case (1 st now u)
  then show ?case
    unfolding sess_inv_def updateMessages_ids updateMessages_active
    by (metis length_0_conv updateMessages_length)
next
  case (4 st nanoid now sid)
  then show ?case by (rule sess_inv_delete [rotated])
qed (auto simp: sess_inv_def session_ids_def createNewSession_def createSession_def switchSession_def
    updateConfig_def updateParameterEnabled_def resetConfig_def fireSaveTimer_def Let_def)

interpretation sess_sys: invariant_system sess_step sess_inv
  by unfold_locales (rule sess_inv_step)

text \<open>What a reload needs of a session to restore it as it was.\<close>

definition restorable :: "PlaygroundSession \<Rightarrow> bool" where
  "restorable s \<longleftrightarrow> sess_id s \<noteq> [] \<and> sess_title s \<noteq> [] \<and> sess_createdAt s \<noteq> 0 \<and> sess_updatedAt s \<noteq> 0
     \<and> (\<forall>m \<in> set (sess_messages s). versions m \<noteq> [] \<and> \<not> pending m)
     \<and> all_decimal (session_json s)"

lemma legacy_sanitize_id:
  assumes "\<forall>m \<in> set ms. \<not> pending m"
  shows "legacySanitizeMessagesOnLoad ms = ms"
proof -
  have "lastPendingIndex ms (length ms) = None" using assms by (simp add: lastPendingIndex_None)
  then show ?thesis by (simp add: legacySanitizeMessagesOnLoad_def)
qed

lemma session_fields:
  "json_get (session_json s) (js ''id'') = Some (JStr (sess_id s))"
  "json_get (session_json s) (js ''title'') = Some (JStr (sess_title s))"
  "json_get (session_json s) (js ''messages'') = Some (JArr (map message_json (sess_messages s)))"
  "json_get (session_json s) (js ''createdAt'') = Some (JNum (sess_createdAt s))"
  "json_get (session_json s) (js ''updatedAt'') = Some (JNum (sess_updatedAt s))"
  by (simp_all add: session_json_def json_get_def js_eval)

lemma restore_session:
  assumes "restorable s"
  shows "restoreSession now (session_json s) = s"
proof -
  have "map message_of (map message_json (sess_messages s)) = sess_messages s" by (simp add: map_idI)
  moreover have "legacySanitizeMessagesOnLoad (sess_messages s) = sess_messages s"
    using assms by (intro legacy_sanitize_id) (simp add: restorable_def)
  ultimately show ?thesis
    using assms by (cases s) (simp add: restoreSession_def session_fields restorable_def Let_def del: map_map)
qed

lemma declared_messages_json:
  "\<forall>m \<in> set ms. versions m \<noteq> [] \<Longrightarrow> declared_messages (JArr (map message_json ms))"
  using zodref.zparse_messages [of ms] by (simp add: declared_messages_def)

lemma declared_session_json: "restorable s \<Longrightarrow> declared_session (session_json s)"
  using session_fields [of s] declared_messages_json [of "sess_messages s"]
  by (simp add: declared_session_def restorable_def json_get_def session_json_def)

lemma wf_session_json:
  assumes "restorable s"
  shows "wf_json (session_json s)"
proof -
  let ?s = "ZObject [(js ''id'', ZString), (js ''title'', ZString), (js ''messages'', messagesSchema),
    (js ''createdAt'', ZNumber), (js ''updatedAt'', ZNumber)]"
  have e: "exact_value ?s (session_json s)"
    using assms exact_messages [of "sess_messages s"] by (simp add: session_json_def restorable_def)
  have p: "plain_schema ?s" by code_simp
  from assms have "all_decimal (session_json s)" by (simp add: restorable_def)
  then show ?thesis by (rule exact_wf(1) [OF e p])
qed

lemma load_saved_sessions:
  assumes "\<forall>s \<in> set ss. restorable s" and "st SESSIONS_KEY = Some (stringify (JArr (map session_json ss)))"
  shows "loadSessions nanoid now st = Inr (ss, st)"
proof -
  have "wf_json (JArr (map session_json ss))" using assms(1) by (simp add: wf_session_json)
  note p = json_text.decode_encode [OF this]
  have "list_all declared_session (map session_json ss)"
    using assms(1) by (simp add: list_all_iff declared_session_json)
  moreover have "map (restoreSession now) (map session_json ss) = ss"
    using assms(1) by (simp add: map_idI restore_session)
  ultimately show ?thesis using assms(2) p by (simp add: loadSessions_def del: map_map)
qed

definition saved :: "PgState \<Rightarrow> bool" where
  "saved st \<longleftrightarrow> pg_storage st SESSIONS_KEY = Some (stringify (JArr (map session_json (sessions st))))
     \<and> pg_storage st ACTIVE_SESSION_ID_KEY = Some (activeSessionId st)"

lemma session_key_names: "SESSIONS_KEY \<noteq> ACTIVE_SESSION_ID_KEY" "SESSIONS_KEY \<noteq> MESSAGES_KEY"
  "ACTIVE_SESSION_ID_KEY \<noteq> MESSAGES_KEY"
  by (simp_all add: SESSIONS_KEY_def ACTIVE_SESSION_ID_KEY_def MESSAGES_KEY_def js_eval)

lemma saved_ops:
  "saved (createNewSession nanoid now ms st)"
  "saved (deleteSession nanoid now sid st)"
  "saved st \<Longrightarrow> saved (updateMessages now u st)"
  "saved st \<Longrightarrow> saved (switchSession sid st)"
  using session_key_names
  by (simp_all add: saved_def createNewSession_def deleteSession_def updateMessages_def switchSession_def
      saveSessions_def saveActiveSessionId_def Let_def)

lemma initialActive_present:
  assumes "aid \<in> sess_id ` set ss" and "\<forall>s \<in> set ss. sess_id s \<noteq> []"
  shows "initialActiveSession (Some aid) ss = Inr aid"
proof -
  obtain s where s: "List.find (\<lambda>s. Some (sess_id s) = Some aid) ss = Some s"
    using assms(1) by (cases "List.find (\<lambda>s. Some (sess_id s) = Some aid) ss") (auto simp: find_None_iff)
  then have "sess_id s = aid" "s \<in> set ss" by (auto simp: find_Some_iff)
  with s assms(2) show ?thesis by (auto simp: initialActiveSession_def)
qed

section \<open>Properties\<close>

text \<open>
  C12. The playground always has a conversation to show: creating, switching, deleting (even the
  last one), changing messages and settings all keep at least one session, distinct
  identifiers, and an active session that exists.
\<close>

theorem session_invariant:
  assumes "sess_step\<^sup>*\<^sup>* st st'" and "sess_inv st"
  shows "sess_inv st' \<and> (\<exists>s. activeSession st' = Some s \<and> sess_id s = activeSessionId st')"
proof -
  have i: "sess_inv st'" using sess_sys.inv_steps [OF assms] .
  then obtain s where f: "List.find (\<lambda>s. sess_id s = activeSessionId st') (sessions st') = Some s"
    by (cases "List.find (\<lambda>s. sess_id s = activeSessionId st') (sessions st')")
      (auto simp: sess_inv_def session_ids_def find_None_iff)
  then have "sess_id s = activeSessionId st'" by (auto simp: find_Some_iff)
  moreover from f have "activeSession st' = Some s" by (simp add: activeSession_def or_else_def)
  ultimately show ?thesis using i by blast
qed

definition sample_pg :: PgState where
  "sample_pg = \<lparr>pg_config = DEFAULT_CONFIG, sessions = [createSession (js ''a'') 1 []],
     parameterEnabled = DEFAULT_PARAMETER_ENABLED, saveTimer = False, latestMessages = [],
     activeSessionId = js ''a'', pg_storage = Map.empty\<rparr>"

theorem session_invariant_witness:
  "sess_inv (deleteSession (js ''b'') 2 (js ''a'') sample_pg)"
proof -
  have "sess_step\<^sup>*\<^sup>* sample_pg (deleteSession (js ''b'') 2 (js ''a'') sample_pg)"
    by (intro r_into_rtranclp sess_step.intros)
  moreover have "sess_inv sample_pg"
    by (simp add: sess_inv_def session_ids_def sample_pg_def createSession_def)
  ultimately show ?thesis using session_invariant by blast
qed

text \<open>
  C33. Sessions survive a reload: when the sessions have been saved (every operation on them
  does that) and none has a reply pending, starting the page again from the storage gives the
  same sessions and the same active one.
\<close>

theorem sessions_survive_reload:
  assumes "sess_inv st" and "saved st" and "\<forall>s \<in> set (sessions st). restorable s"
  shows "\<exists>st'. usePlaygroundState zparse nanoid now (pg_storage st) = Inr st'
    \<and> sessions st' = sessions st \<and> activeSessionId st' = activeSessionId st
    \<and> saved st' \<and> saved (createNewSession nanoid now ms st') \<and> saved (deleteSession nanoid now sid st')
    \<and> saved (updateMessages now u st') \<and> saved (switchSession sid st')"
proof -
  have l: "loadSessions nanoid now (pg_storage st) = Inr (sessions st, pg_storage st)"
    using assms(2,3) by (intro load_saved_sessions) (simp_all add: saved_def)
  have a: "initialActiveSession (Some (activeSessionId st)) (sessions st) = Inr (activeSessionId st)"
    using assms(1,3) by (intro initialActive_present) (simp_all add: sess_inv_def session_ids_def restorable_def)
  let ?st = "\<lparr>pg_config = getInitialPlaygroundConfig zparse (pg_storage st), sessions = sessions st,
    parameterEnabled = getInitialParameterEnabled zparse (pg_storage st), saveTimer = False,
    latestMessages = [], activeSessionId = activeSessionId st, pg_storage = pg_storage st\<rparr>"
  have u: "usePlaygroundState zparse nanoid now (pg_storage st) = Inr ?st"
    using assms(2) l a by (simp add: usePlaygroundState_def loadActiveSessionId_def saved_def)
  have s: "saved ?st" using assms(2) by (simp add: saved_def)
  show ?thesis
    by (rule exI [of _ ?st], intro conjI u saved_ops s) simp_all
qed

theorem sessions_survive_reload_witness:
  "\<exists>st'. usePlaygroundState zod_parse [] 0 (pg_storage (createNewSession (js ''b'') 2 [] sample_pg)) = Inr st'
     \<and> activeSessionId st' = js ''b''"
proof -
  let ?st = "createNewSession (js ''b'') 2 [] sample_pg"
  have a: "activeSessionId ?st = js ''b''" by (simp add: createNewSession_def createSession_def Let_def)
  have "sess_inv ?st"
    by (simp add: sess_inv_def session_ids_def sample_pg_def createNewSession_def createSession_def Let_def js_eval)
  moreover have "\<forall>s \<in> set (sessions ?st). restorable s"
    by (simp add: restorable_def sample_pg_def createNewSession_def createSession_def Let_def session_json_def
        getSessionTitle_def decimal_def)
  ultimately show ?thesis
    using sessions_survive_reload [OF _ saved_ops(1), of "js ''b''" 2 "[]" sample_pg zod_parse "[]" 0] a by metis
qed

text \<open>
  The step from one conversation to sessions loses what the current code stored: messages
  saved by the storage module are wrapped in an object with a version, the loader that
  creates the first session accepts only a bare array, so the first session is empty.
\<close>

theorem saved_messages_not_migrated:
  assumes "zod zparse" and "\<forall>m \<in> set ms. versions m \<noteq> []" and "length ms \<le> MAX_STORED_MESSAGES"
    and "all_decimal (JArr (map message_json ms))" and "st SESSIONS_KEY = None"
  shows "\<exists>st'. loadSessions nanoid now (saveMessages zparse ms st) = Inr ([createSession nanoid now []], st')"
proof -
  let ?j = "JArr (map message_json ms)"
  have "wf_json ?j" using exact_wf(1) [OF exact_messages [OF assms(2)] _ assms(4)] plain_schemas by simp
  note p = json_text.decode_encode [OF envelope_wf [OF this]]
  have s: "saveMessages zparse ms st = writeStoredValue MESSAGES_KEY ?j st"
    using assms(3) zod.zparse_messages [OF assms(1,2)] by (simp add: saveMessages_def trimMessages_def)
  have "legacyLoadMessages (saveMessages zparse ms st) = Inr (None, saveMessages zparse ms st)"
    unfolding s using p by (simp add: legacyLoadMessages_def writeStoredValue_def)
  moreover have "saveMessages zparse ms st SESSIONS_KEY = None"
    unfolding s using assms(5) session_key_names by (simp add: writeStoredValue_def)
  ultimately show ?thesis
    by (simp add: loadSessions_def freshSession_def Let_def)
qed

theorem saved_messages_not_migrated_witness:
  "\<exists>st'. loadSessions (js ''s'') 1 (saveMessages zod_parse sample_conv Map.empty) =
     Inr ([createSession (js ''s'') 1 []], st')"
proof (rule saved_messages_not_migrated [OF zodref.zod_axioms])
  show "\<forall>m \<in> set sample_conv. versions m \<noteq> []" by (simp add: sample_conv_def createUserMessage_def)
  show "length sample_conv \<le> MAX_STORED_MESSAGES" by code_simp
  show "all_decimal (JArr (map message_json sample_conv))"
    by (simp add: sample_conv_def message_json_def message_entries_def createUserMessage_def opt_field_def
        createMessageVersion_def version_json_def decimal_def)
qed simp

end
