(* ===== verification/JsRegex.thy ===== *)
theory JsRegex
  imports JsPrelude
begin

text \<open>
  The part of JavaScript's regular expressions that the program uses: literal text, character
  classes, alternation, the greedy and the lazy star, capturing groups, back references, the anchors
  \<open>^\<close> and \<open>$\<close> and the word boundary. \<open>rmatch\<close> gives all ways to match at the current position,
  in the order in which a backtracking matcher tries them, so its head is the match.

  The second half reduces the patterns that occur to deterministic scanning: a greedy class
  followed by a literal outside the class takes the longest run and never gives any of it back.
\<close>

datatype regex =
    Eps
  | Lit jsstr
  | Cls "nat \<Rightarrow> bool"
  | Sq regex regex
  | Alt regex regex
  | Star regex
  | Lazy regex
  | Grp nat regex
  | Back nat
  | Bol
  | Eol
  | WordB

text \<open>A position: the unit before it, the text after it, and the groups captured so far.\<close>

type_synonym captures = "nat \<Rightarrow> jsstr option"
type_synonym rstate = "nat option \<times> jsstr \<times> captures"

definition adv :: "nat option \<Rightarrow> jsstr \<Rightarrow> nat option" where
  "adv pv w = (if w = [] then pv else Some (last w))"

definition is_word :: "nat \<Rightarrow> bool" where
  "is_word c \<longleftrightarrow> (48 \<le> c \<and> c \<le> 57) \<or> (65 \<le> c \<and> c \<le> 90) \<or> (97 \<le> c \<and> c \<le> 122) \<or> c = 95"

definition word_before :: "nat option \<Rightarrow> bool" where
  "word_before pv = (case pv of Some c \<Rightarrow> is_word c | None \<Rightarrow> False)"

definition word_after :: "jsstr \<Rightarrow> bool" where
  "word_after s = (case s of c # _ \<Rightarrow> is_word c | [] \<Rightarrow> False)"

definition lit_at :: "jsstr \<Rightarrow> rstate \<Rightarrow> rstate list" where
  "lit_at l st = (case st of (pv, s, cap) \<Rightarrow>
     if starts_with l s then [(adv pv l, drop (length l) s, cap)] else [])"

text \<open>An iteration of a star that consumes nothing is not taken, so the length of the text bounds them.\<close>

fun star_iter :: "(rstate \<Rightarrow> rstate list) \<Rightarrow> nat \<Rightarrow> rstate \<Rightarrow> rstate list" where
  "star_iter f 0 st = [st]"
| "star_iter f (Suc n) st =
     concat (map (star_iter f n) (filter (\<lambda>st'. length (fst (snd st')) < length (fst (snd st))) (f st))) @ [st]"

fun lazy_iter :: "(rstate \<Rightarrow> rstate list) \<Rightarrow> nat \<Rightarrow> rstate \<Rightarrow> rstate list" where
  "lazy_iter f 0 st = [st]"
| "lazy_iter f (Suc n) st =
     st # concat (map (lazy_iter f n) (filter (\<lambda>st'. length (fst (snd st')) < length (fst (snd st))) (f st)))"

primrec rmatch :: "regex \<Rightarrow> rstate \<Rightarrow> rstate list" where
  "rmatch Eps st = [st]"
| "rmatch (Lit l) st = lit_at l st"
| "rmatch (Cls P) st =
     (case st of (pv, s, cap) \<Rightarrow> (case s of c # cs \<Rightarrow> if P c then [(Some c, cs, cap)] else [] | [] \<Rightarrow> []))"
| "rmatch (Sq r q) st = concat (map (rmatch q) (rmatch r st))"
| "rmatch (Alt r q) st = rmatch r st @ rmatch q st"
| "rmatch (Star r) st = star_iter (rmatch r) (length (fst (snd st))) st"
| "rmatch (Lazy r) st = lazy_iter (rmatch r) (length (fst (snd st))) st"
| "rmatch (Grp n r) st =
     map (\<lambda>(pv, s, cap). (pv, s, cap(n \<mapsto> take (length (fst (snd st)) - length s) (fst (snd st))))) (rmatch r st)"
| "rmatch (Back n) st = (case snd (snd st) n of Some l \<Rightarrow> lit_at l st | None \<Rightarrow> [st])"
| "rmatch Bol st = (if fst st = None then [st] else [])"
| "rmatch Eol st = (if fst (snd st) = [] then [st] else [])"
| "rmatch WordB st = (if word_before (fst st) \<noteq> word_after (fst (snd st)) then [st] else [])"

definition cat :: "regex list \<Rightarrow> regex" where
  "cat rs = foldr Sq rs Eps"

definition Plus :: "regex \<Rightarrow> regex" where
  "Plus r = Sq r (Star r)"

definition Opt :: "regex \<Rightarrow> regex" where
  "Opt r = Alt r Eps"

fun alts :: "regex list \<Rightarrow> regex" where
  "alts [] = Cls (\<lambda>_. False)"
| "alts [r] = r"
| "alts (r # rs) = Alt r (alts rs)"

text \<open>
  \<open>re_search\<close> is \<open>s.match(r)\<close> or one \<open>r.exec\<close>: the groups, the text matched and what follows it,
  with the unit before that. \<open>re_all\<close> repeats it as a global pattern does; every
  pattern used here consumes something.
\<close>

fun re_search :: "regex \<Rightarrow> nat option \<Rightarrow> jsstr \<Rightarrow> (captures \<times> jsstr \<times> nat option \<times> jsstr) option" where
  "re_search r pv s =
     (case rmatch r (pv, s, Map.empty) of
        (pv', s', cap) # _ \<Rightarrow> Some (cap, take (length s - length s') s, pv', s')
      | [] \<Rightarrow> (case s of [] \<Rightarrow> None | c # cs \<Rightarrow> re_search r (Some c) cs))"

declare re_search.simps [simp del]

definition re_match :: "regex \<Rightarrow> jsstr \<Rightarrow> captures option" where
  "re_match r s = map_option fst (re_search r None s)"

definition re_test :: "regex \<Rightarrow> jsstr \<Rightarrow> bool" where
  "re_test r s = (re_search r None s \<noteq> None)"

function re_all :: "regex \<Rightarrow> nat option \<Rightarrow> jsstr \<Rightarrow> captures list" where
  "re_all r pv s =
     (case re_search r pv s of
        None \<Rightarrow> []
      | Some (cap, _, pv', s') \<Rightarrow> cap # (if length s' < length s then re_all r pv' s' else []))"
  by pat_completeness auto
termination by (relation "measure (\<lambda>(r, pv, s). length s)") auto

declare re_all.simps [simp del]

text \<open>\<open>s.replaceAll(r, w)\<close> for a pattern whose matches are not empty and a text without \<open>$\<close>.\<close>

function re_replace :: "regex \<Rightarrow> jsstr \<Rightarrow> nat option \<Rightarrow> jsstr \<Rightarrow> jsstr" where
  "re_replace r w pv s =
     (case rmatch r (pv, s, Map.empty) of
        (pv', s', cap) # _ \<Rightarrow>
          if length s' < length s then w @ re_replace r w pv' s'
          else (case s of [] \<Rightarrow> [] | c # cs \<Rightarrow> c # re_replace r w (Some c) cs)
      | [] \<Rightarrow> (case s of [] \<Rightarrow> [] | c # cs \<Rightarrow> c # re_replace r w (Some c) cs))"
  by pat_completeness auto
termination by (relation "measure (\<lambda>(r, w, pv, s). length s)") auto

declare re_replace.simps [simp del]

text \<open>\<open>s.replace(r, '$n')\<close>: the first match gives way to its group \<open>n\<close>, which is empty for \<open>n = 0\<close> here.\<close>

definition re_replace_first :: "regex \<Rightarrow> nat \<Rightarrow> jsstr \<Rightarrow> jsstr" where
  "re_replace_first r n s =
     (case re_search r None s of
        None \<Rightarrow> s
      | Some (cap, w, _, s') \<Rightarrow>
          take (length s - length w - length s') s @ (case cap n of Some g \<Rightarrow> g | None \<Rightarrow> []) @ s')"

section \<open>Running a pattern\<close>

definition run :: "regex list \<Rightarrow> rstate \<Rightarrow> rstate list" where
  "run rs st = rmatch (cat rs) st"

named_theorems rx \<open>steps of running a pattern\<close>

lemma set_lazy_iter: "set (lazy_iter f n st) = set (star_iter f n st)"
  by (induction n arbitrary: st) auto

lemma cat_simps: "cat [] = Eps" "cat (r # rs) = Sq r (cat rs)"
  by (simp_all add: cat_def)

lemma run_Nil [rx]: "run [] st = [st]"
  by (simp add: run_def cat_simps)

lemma run_Cons: "run (r # rs) st = concat (map (run rs) (rmatch r st))"
proof -
  have "run rs = rmatch (cat rs)" by (rule ext) (simp add: run_def)
  then show ?thesis by (simp add: run_def cat_simps)
qed

lemma concat_bind: "concat (map f (concat xss)) = concat (map (\<lambda>xs. concat (map f xs)) xss)"
  by (induction xss) simp_all

lemma run_append: "run (rs @ qs) st = concat (map (run qs) (run rs st))"
proof (induction rs arbitrary: st)
  case (Cons r rs)
  then have "run (rs @ qs) = (\<lambda>st. concat (map (run qs) (run rs st)))" by blast
  then show ?case by (simp add: run_Cons [of r] concat_bind comp_def)
qed (simp add: run_Nil)

lemma run_Sq [rx]: "run (Sq r q # rs) st = run (r # q # rs) st"
proof -
  have "run (q # rs) = (\<lambda>st. concat (map (run rs) (rmatch q st)))" by (rule ext) (rule run_Cons)
  then show ?thesis by (simp add: run_Cons [of r] run_Cons [of "Sq r q"] concat_bind comp_def)
qed

lemma run_Eps [rx]: "run (Eps # rs) st = run rs st"
  by (simp add: run_Cons)

lemma run_Alt [rx]: "run (Alt r q # rs) st = run (r # rs) st @ run (q # rs) st"
  by (simp add: run_Cons)

lemma run_Opt: "run (Opt r # rs) st = run (r # rs) st @ run rs st"
  by (simp add: Opt_def run_Alt run_Eps)

lemma run_Lit [rx]:
  "run (Lit l # rs) (pv, s, cap) = (if starts_with l s then run rs (adv pv l, drop (length l) s, cap) else [])"
  by (simp add: run_Cons lit_at_def)

lemma run_Back [rx]:
  "cap n = Some l \<Longrightarrow> run (Back n # rs) (pv, s, cap)
     = (if starts_with l s then run rs (adv pv l, drop (length l) s, cap) else [])"
  by (simp add: run_Cons lit_at_def)

lemma run_Bol [rx]: "run (Bol # rs) (pv, s, cap) = (if pv = None then run rs (pv, s, cap) else [])"
  by (cases pv) (simp_all add: run_Cons)

lemma run_Eol [rx]: "run (Eol # rs) (pv, s, cap) = (if s = [] then run rs (pv, s, cap) else [])"
  by (simp add: run_Cons)

lemma run_Cls [rx]:
  "run (Cls P # rs) (pv, [], cap) = []"
  "run (Cls P # rs) (pv, c # s, cap) = (if P c then run rs (Some c, s, cap) else [])"
  by (simp_all add: run_Cons)

lemma run_GrpAlt [rx]: "run (Grp n (Alt r q) # rs) st = run (Grp n r # rs) st @ run (Grp n q # rs) st"
  by (simp add: run_Cons)

lemma starts_with_length: "starts_with l s \<Longrightarrow> length l \<le> length s"
  by (auto simp: starts_with_iff)

lemma starts_with_take: "starts_with l s \<Longrightarrow> take (length l) s = l"
  by (auto simp: starts_with_iff)

lemma run_GrpLit [rx]:
  "run (Grp n (Lit l) # rs) (pv, s, cap) =
     (if starts_with l s then run rs (adv pv l, drop (length l) s, cap(n \<mapsto> l)) else [])"
  using starts_with_length [of l s] starts_with_take [of l s] by (simp add: run_Cons lit_at_def)

section \<open>Greedy classes\<close>

lemma star_Cls:
  "rmatch (Star (Cls P)) (pv, [], cap) = [(pv, [], cap)]"
  "rmatch (Star (Cls P)) (pv, c # s, cap) =
     (if P c then rmatch (Star (Cls P)) (Some c, s, cap) else []) @ [(pv, c # s, cap)]"
  by simp_all

text \<open>What follows cannot start inside the class, so only the longest run can succeed.\<close>

lemma star_longest:
  assumes "\<And>pv x xs. P x \<Longrightarrow> k (pv, x # xs, cap) = []"
  shows "concat (map k (rmatch (Star (Cls P)) (pv, s, cap))) =
    k (adv pv (takeWhile P s), dropWhile P s, cap)"
proof (induction s arbitrary: pv)
  case Nil
  then show ?case by (simp only: star_Cls) (simp add: adv_def)
next
  case (Cons c s)
  have a: "adv (Some c) (takeWhile P s) = adv pv (c # takeWhile P s)" by (simp add: adv_def)
  show ?case
  proof (cases "P c")
    case True
    then show ?thesis using Cons.IH [of "Some c"] assms a by (simp only: star_Cls) simp
  next
    case False
    then show ?thesis by (simp only: star_Cls) (simp add: adv_def)
  qed
qed

definition blocked :: "(nat \<Rightarrow> bool) \<Rightarrow> regex list \<Rightarrow> bool" where
  "blocked P rs \<longleftrightarrow> (\<forall>pv x xs cap. P x \<longrightarrow> run rs (pv, x # xs, cap) = [])"

lemma blocked_Lit [rx]: "\<not> P d \<Longrightarrow> blocked P (Lit (d # ds) # rs)"
  by (auto simp: blocked_def run_Lit)

lemma blocked_Eol [rx]: "blocked P (Eol # rs)"
  by (simp add: blocked_def run_Eol)

lemma run_Star:
  assumes "blocked P rs"
  shows "run (Star (Cls P) # rs) (pv, s, cap) = run rs (adv pv (takeWhile P s), dropWhile P s, cap)"
  unfolding run_Cons using assms by (intro star_longest) (simp add: blocked_def)

lemma run_Plus:
  assumes "blocked P rs"
  shows "run (Plus (Cls P) # rs) (pv, s, cap) =
    (if takeWhile P s = [] then [] else run rs (adv pv (takeWhile P s), dropWhile P s, cap))"
proof (cases s)
  case (Cons c t)
  then show ?thesis using run_Star [OF assms, of "Some c" t cap]
    by (simp add: Plus_def run_Sq run_Cls adv_def)
qed (simp add: Plus_def run_Sq run_Cls)

lemma take_diff_takeWhile: "take (length s - length (dropWhile P s)) s = takeWhile P s"
  by (metis add_diff_cancel_right' length_append takeWhile_dropWhile_id takeWhile_eq_take)

text \<open>A group around the run.\<close>

lemma Grp_longest:
  assumes "blocked P rs"
  shows "run (Grp n (Star (Cls P)) # rs) (pv, s, cap) =
    run rs (adv pv (takeWhile P s), dropWhile P s, cap(n \<mapsto> takeWhile P s))"
proof -
  let ?k = "\<lambda>(pv', s', cap'). run rs (pv', s', cap'(n \<mapsto> take (length s - length s') s))"
  have "run (Grp n (Star (Cls P)) # rs) (pv, s, cap) = concat (map ?k (rmatch (Star (Cls P)) (pv, s, cap)))"
    unfolding run_Cons by (simp add: comp_def case_prod_unfold)
  also have "\<dots> = ?k (adv pv (takeWhile P s), dropWhile P s, cap)"
    using assms by (intro star_longest) (simp add: blocked_def)
  finally show ?thesis by (simp add: take_diff_takeWhile)
qed

lemma run_GrpPlus:
  assumes "blocked P rs"
  shows "run (Grp n (Plus (Cls P)) # rs) (pv, s, cap) =
    (if takeWhile P s = [] then []
     else run rs (adv pv (takeWhile P s), dropWhile P s, cap(n \<mapsto> takeWhile P s)))"
proof (cases s)
  case (Cons c t)
  let ?k = "\<lambda>(pv', s', cap'). run rs (pv', s', cap'(n \<mapsto> take (length s - length s') s))"
  show ?thesis
  proof (cases "P c")
    case True
    have "run (Grp n (Plus (Cls P)) # rs) (pv, s, cap) = concat (map ?k (rmatch (Star (Cls P)) (Some c, t, cap)))"
      unfolding run_Cons Plus_def using Cons True by (simp add: comp_def case_prod_unfold)
    also have "\<dots> = ?k (adv (Some c) (takeWhile P t), dropWhile P t, cap)"
      using assms by (intro star_longest) (simp add: blocked_def)
    finally show ?thesis using Cons True take_diff_takeWhile [of s P] by (simp add: adv_def)
  next
    case False
    then show ?thesis using Cons by (simp add: run_Cons Plus_def)
  qed
qed (simp add: run_Cons Plus_def)

lemma blocked_Plus: "\<forall>c. P c \<longrightarrow> \<not> Q c \<Longrightarrow> blocked P (Plus (Cls Q) # rs)"
  by (simp add: blocked_def Plus_def run_Sq run_Cls)

lemma blocked_GrpAlt: "blocked P (Grp n r # rs) \<Longrightarrow> blocked P (Grp n q # rs) \<Longrightarrow> blocked P (Grp n (Alt r q) # rs)"
  by (simp add: blocked_def run_GrpAlt)

lemma blocked_GrpLit: "\<not> P d \<Longrightarrow> blocked P (Grp n (Lit (d # ds)) # rs)"
  by (auto simp: blocked_def run_GrpLit)

section \<open>Whole matches\<close>

lemma search_Bol_later: "re_search (Sq Bol r) (Some c) s = None"
  by (induction s arbitrary: c) (simp_all add: re_search.simps)

lemma match_anchored:
  "re_match (cat (Bol # rs)) s =
     (case run rs (None, s, Map.empty) of (_, _, cap) # _ \<Rightarrow> Some cap | [] \<Rightarrow> None)"
  unfolding re_match_def
  by (subst re_search.simps) (simp add: search_Bol_later run_def cat_simps split: list.splits)

lemma test_anchored: "re_test (cat (Bol # rs)) s \<longleftrightarrow> run rs (None, s, Map.empty) \<noteq> []"
  unfolding re_test_def
  by (subst re_search.simps) (simp add: search_Bol_later run_def cat_simps split: list.splits)

section \<open>The first match\<close>

text \<open>
  Where a pattern can match in several ways only the first counts. These rules follow the
  first way: a greedy class takes its longest run if the rest then matches.
\<close>

definition first :: "regex list \<Rightarrow> rstate \<Rightarrow> rstate option" where
  "first rs st = (case run rs st of [] \<Rightarrow> None | x # _ \<Rightarrow> Some x)"

named_theorems fx \<open>steps of the first match\<close>

lemma first_None: "first rs st = None \<longleftrightarrow> run rs st = []"
  by (simp add: first_def split: list.splits)

lemma first_Nil [fx]: "first [] st = Some st"
  by (simp add: first_def run_Nil)

lemma first_Sq [fx]: "first (Sq r q # rs) st = first (r # q # rs) st"
  by (simp add: first_def run_Sq)

lemma first_Eps [fx]: "first (Eps # rs) st = first rs st"
  by (simp add: first_def run_Eps)

lemma first_cat: "first (cat qs # rs) st = first (qs @ rs) st"
  by (simp add: first_def run_Cons run_append run_def [of qs])

lemma first_Lit [fx]:
  "first (Lit l # rs) (pv, s, cap) = (if starts_with l s then first rs (adv pv l, drop (length l) s, cap) else None)"
  by (simp add: first_def run_Lit)

lemma first_Eol [fx]: "first (Eol # rs) (pv, s, cap) = (if s = [] then first rs (pv, s, cap) else None)"
  by (simp add: first_def run_Eol)

lemma first_Alt [fx]:
  "first (Alt r q # rs) st = (case first (r # rs) st of Some x \<Rightarrow> Some x | None \<Rightarrow> first (q # rs) st)"
  by (simp add: first_def run_Alt split: list.splits)

lemma first_Opt: "first (Opt r # rs) st = (case first (r # rs) st of Some x \<Rightarrow> Some x | None \<Rightarrow> first rs st)"
  by (simp add: Opt_def first_Alt first_Eps cong: option.case_cong)

lemma first_GrpLit [fx]:
  "first (Grp n (Lit l) # rs) (pv, s, cap) =
     (if starts_with l s then first rs (adv pv l, drop (length l) s, cap(n \<mapsto> l)) else None)"
  by (simp add: first_def run_GrpLit)

lemma first_GrpAlt [fx]:
  "first (Grp n (Alt r q) # rs) st = (case first (Grp n r # rs) st of Some x \<Rightarrow> Some x | None \<Rightarrow> first (Grp n q # rs) st)"
  by (simp add: first_def run_GrpAlt split: list.splits)

lemma first_Star: "blocked P rs \<Longrightarrow>
    first (Star (Cls P) # rs) (pv, s, cap) = first rs (adv pv (takeWhile P s), dropWhile P s, cap)"
  by (simp add: first_def run_Star)

lemma first_GrpStar: "blocked P rs \<Longrightarrow>
    first (Grp n (Star (Cls P)) # rs) (pv, s, cap) =
      first rs (adv pv (takeWhile P s), dropWhile P s, cap(n \<mapsto> takeWhile P s))"
  by (simp add: first_def Grp_longest)

lemma star_Cls_head:
  "\<exists>zs. rmatch (Star (Cls P)) (pv, s, cap) = (adv pv (takeWhile P s), dropWhile P s, cap) # zs"
proof (induction s arbitrary: pv)
  case Nil
  show ?case unfolding star_Cls by (simp add: adv_def)
next
  case (Cons c s)
  show ?case
  proof (cases "P c")
    case True
    obtain zs where "rmatch (Star (Cls P)) (Some c, s, cap) = (adv (Some c) (takeWhile P s), dropWhile P s, cap) # zs"
      using Cons.IH by blast
    moreover have "adv (Some c) (takeWhile P s) = adv pv (takeWhile P (c # s))" using True by (simp add: adv_def)
    ultimately show ?thesis using True unfolding star_Cls by simp
  next
    case False
    then show ?thesis unfolding star_Cls by (simp add: adv_def)
  qed
qed

lemma first_Cons:
  assumes "rmatch r st = st1 # zs" and "first rs st1 = Some x"
  shows "first (r # rs) st = Some x"
  using assms by (auto simp: first_def run_Cons split: list.splits)

lemma plus_Cls_head:
  assumes "takeWhile P s \<noteq> []"
  shows "\<exists>zs. rmatch (Plus (Cls P)) (pv, s, cap) = (adv pv (takeWhile P s), dropWhile P s, cap) # zs"
proof -
  obtain c t where s: "s = c # t" "P c" using assms by (cases s) (auto split: if_splits)
  obtain zs where "rmatch (Star (Cls P)) (Some c, t, cap) = (adv (Some c) (takeWhile P t), dropWhile P t, cap) # zs"
    using star_Cls_head by blast
  then show ?thesis using s by (simp add: Plus_def adv_def del: rmatch.simps(6))
qed

lemma first_Plus:
  assumes "takeWhile P s \<noteq> []" and "first rs (adv pv (takeWhile P s), dropWhile P s, cap) = Some x"
  shows "first (Plus (Cls P) # rs) (pv, s, cap) = Some x"
  using plus_Cls_head [OF assms(1), of pv cap] assms(2) first_Cons by blast

lemma first_Grp:
  assumes "rmatch r (pv, s, cap) = (pv', s', cap') # zs"
    and "first rs (pv', s', cap'(n \<mapsto> take (length s - length s') s)) = Some x"
  shows "first (Grp n r # rs) (pv, s, cap) = Some x"
  by (rule first_Cons [OF _ assms(2)]) (simp add: assms(1))

lemma first_GrpPlus:
  assumes "takeWhile P s \<noteq> []" and "first rs (adv pv (takeWhile P s), dropWhile P s, cap(n \<mapsto> takeWhile P s)) = Some x"
  shows "first (Grp n (Plus (Cls P)) # rs) (pv, s, cap) = Some x"
  using plus_Cls_head [OF assms(1), of pv cap] assms(2) first_Grp take_diff_takeWhile by metis

lemma rmatch_cat_first: "first qs st = Some st1 \<Longrightarrow> \<exists>zs. rmatch (cat qs) st = st1 # zs"
  by (auto simp: first_def run_def split: list.splits)

lemma star_iter_fuel:
  "length (fst (snd st)) \<le> n \<Longrightarrow> length (fst (snd st)) \<le> m \<Longrightarrow> star_iter f n st = star_iter f m st"
proof (induction n arbitrary: m st)
  case 0
  then show ?case by (cases m) simp_all
next
  case (Suc n)
  show ?case
  proof (cases m)
    case 0
    then show ?thesis using Suc.prems by simp
  next
    case (Suc k)
    let ?Q = "\<lambda>st'. length (fst (snd st')) < length (fst (snd st))"
    have "map (star_iter f n) (filter ?Q (f st)) = map (star_iter f k) (filter ?Q (f st))"
      using Suc.IH Suc.prems Suc by (intro map_cong) auto
    then show ?thesis unfolding Suc star_iter.simps by (rule arg_cong [where f = "\<lambda>xs. concat xs @ [st]"])
  qed
qed

lemma rmatch_Star:
  "rmatch (Star r) st = concat (map (rmatch (Star r))
     (filter (\<lambda>st'. length (fst (snd st')) < length (fst (snd st))) (rmatch r st))) @ [st]"
proof (cases "length (fst (snd st))")
  case (Suc n)
  have "map (star_iter (rmatch r) n) (filter (\<lambda>st'. length (fst (snd st')) < length (fst (snd st))) (rmatch r st))
      = map (rmatch (Star r)) (filter (\<lambda>st'. length (fst (snd st')) < length (fst (snd st))) (rmatch r st))"
    unfolding rmatch.simps(6) using Suc by (intro map_cong star_iter_fuel) auto
  then show ?thesis unfolding rmatch.simps(6) [of r st] Suc star_iter.simps by (simp only:)
qed simp

lemma first_Star_step:
  assumes "first qs st = Some st1" and "length (fst (snd st1)) < length (fst (snd st))"
    and "first (Star (cat qs) # rs) st1 = Some x"
  shows "first (Star (cat qs) # rs) st = Some x"
proof -
  obtain zs where "rmatch (cat qs) st = st1 # zs" using rmatch_cat_first [OF assms(1)] by blast
  with assms(2) have "\<exists>ys. rmatch (Star (cat qs)) st = rmatch (Star (cat qs)) st1 @ ys"
    by (subst rmatch_Star) (simp del: rmatch.simps)
  then obtain ys where "rmatch (Star (cat qs)) st = rmatch (Star (cat qs)) st1 @ ys" by blast
  then have "run (Star (cat qs) # rs) st = run (Star (cat qs) # rs) st1 @ concat (map (run rs) ys)"
    unfolding run_Cons by (simp del: rmatch.simps)
  with assms(3) show ?thesis unfolding first_def by (cases "run (Star (cat qs) # rs) st1") simp_all
qed

lemma first_Star_stop:
  assumes "run qs st = []"
  shows "first (Star (cat qs) # rs) st = first rs st"
proof -
  have "rmatch (Star (cat qs)) st = [st]"
    using assms by (subst rmatch_Star) (simp add: run_def del: rmatch.simps)
  then show ?thesis by (simp add: first_def run_Cons del: rmatch.simps)
qed

lemma search_first:
  "re_search (cat rs) pv s =
     (case first rs (pv, s, Map.empty) of
        Some (pv', s', cap) \<Rightarrow> Some (cap, take (length s - length s') s, pv', s')
      | None \<Rightarrow> (case s of [] \<Rightarrow> None | c # cs \<Rightarrow> re_search (cat rs) (Some c) cs))"
  by (subst re_search.simps) (simp add: first_def run_def split: list.splits)

lemma match_first:
  "re_match (cat (Bol # rs)) s = map_option (\<lambda>(_, _, cap). cap) (first rs (None, s, Map.empty))"
  unfolding match_anchored by (simp add: first_def split: list.splits)

end
