(* ===== verification/BillingExpr.thy ===== *)
theory BillingExpr
  imports JsRegex JsJson
begin

text \<open>
  Billing expressions, \<open>features/pricing/lib/billing-expr.ts\<close>: the variables, the request rules
  (conditions on parameters, headers and the time that multiply a price), how they are
  printed and read back, and how the rules are attached to and split from a price.

  The regular expressions of the source are data here, in the order of the source.
\<close>

section \<open>Variables\<close>

datatype BillingSide = SideInput | SideOutput | SideCondition

record BillingVar =
  bv_key :: jsstr
  bv_field :: "jsstr option"
  bv_tierField :: "jsstr option"
  bv_label :: jsstr
  bv_shortLabel :: jsstr
  bv_side :: BillingSide
  bv_isBase :: bool
  bv_isConditionOnly :: bool
  bv_group :: "jsstr option"

definition priceVar :: "string \<Rightarrow> string \<Rightarrow> string \<Rightarrow> string \<Rightarrow> string \<Rightarrow> BillingSide \<Rightarrow> bool \<Rightarrow> string option \<Rightarrow> BillingVar" where
  "priceVar key field tierField label short side base grp =
     \<lparr>bv_key = js key, bv_field = Some (js field), bv_tierField = Some (js tierField), bv_label = js label,
      bv_shortLabel = js short, bv_side = side, bv_isBase = base, bv_isConditionOnly = False,
      bv_group = map_option js grp\<rparr>"

definition BILLING_VARS :: "BillingVar list" where
  "BILLING_VARS =
    [priceVar ''p'' ''inputPrice'' ''input_unit_cost'' ''Input price'' ''Input'' SideInput True None,
     priceVar ''c'' ''outputPrice'' ''output_unit_cost'' ''Completion price'' ''Output'' SideOutput True None,
     \<lparr>bv_key = js ''len'', bv_field = None, bv_tierField = None, bv_label = js ''Input length'',
      bv_shortLabel = js ''Length'', bv_side = SideCondition, bv_isBase = False, bv_isConditionOnly = True,
      bv_group = None\<rparr>,
     priceVar ''cr'' ''cacheReadPrice'' ''cache_read_unit_cost'' ''Cache read price'' ''Cache Read''
       SideInput False (Some ''cache''),
     priceVar ''cc'' ''cacheCreatePrice'' ''cache_create_unit_cost'' ''Cache create price'' ''Cache Write''
       SideInput False (Some ''cache''),
     priceVar ''cc1h'' ''cacheCreate1hPrice'' ''cache_create_1h_unit_cost'' ''Cache create (1h) price''
       ''Cache Write (1h)'' SideInput False (Some ''cache''),
     priceVar ''img'' ''imagePrice'' ''image_unit_cost'' ''Image input price'' ''Image In''
       SideInput False (Some ''media''),
     priceVar ''img_o'' ''imageOutputPrice'' ''image_output_unit_cost'' ''Image output price'' ''Image Out''
       SideOutput False (Some ''media''),
     priceVar ''ai'' ''audioInputPrice'' ''audio_input_unit_cost'' ''Audio input price'' ''Audio In''
       SideInput False (Some ''media''),
     priceVar ''ao'' ''audioOutputPrice'' ''audio_output_unit_cost'' ''Audio output price'' ''Audio Out''
       SideOutput False (Some ''media'')]"

definition BILLING_PRICING_VARS :: "BillingVar list" where
  "BILLING_PRICING_VARS = filter (\<lambda>v. \<not> bv_isConditionOnly v) BILLING_VARS"

definition BILLING_CONDITION_VARS :: "jsstr list" where
  "BILLING_CONDITION_VARS = map bv_key (filter (\<lambda>v. bv_isBase v \<or> bv_isConditionOnly v) BILLING_VARS)"

definition BILLING_VAR_KEY_TO_FIELD :: "(jsstr \<times> jsstr) list" where
  "BILLING_VAR_KEY_TO_FIELD = map (\<lambda>v. (bv_key v, the (bv_field v))) BILLING_PRICING_VARS"

definition BILLING_EXTRA_VARS :: "BillingVar list" where
  "BILLING_EXTRA_VARS = filter (\<lambda>v. \<not> bv_isBase v \<and> \<not> bv_isConditionOnly v) BILLING_VARS"

definition BILLING_CACHE_VAR_MAP :: "(jsstr \<times> jsstr) list" where
  "BILLING_CACHE_VAR_MAP = map (\<lambda>v. (the (bv_tierField v), bv_key v)) BILLING_EXTRA_VARS"

section \<open>Request rules\<close>

definition MATCH_EQ :: jsstr where "MATCH_EQ = js ''eq''"
definition MATCH_CONTAINS :: jsstr where "MATCH_CONTAINS = js ''contains''"
definition MATCH_GT :: jsstr where "MATCH_GT = js ''gt''"
definition MATCH_GTE :: jsstr where "MATCH_GTE = js ''gte''"
definition MATCH_LT :: jsstr where "MATCH_LT = js ''lt''"
definition MATCH_LTE :: jsstr where "MATCH_LTE = js ''lte''"
definition MATCH_EXISTS :: jsstr where "MATCH_EXISTS = js ''exists''"
definition MATCH_RANGE :: jsstr where "MATCH_RANGE = js ''range''"

lemmas match_defs = MATCH_EQ_def MATCH_CONTAINS_def MATCH_GT_def MATCH_GTE_def MATCH_LT_def
  MATCH_LTE_def MATCH_EXISTS_def MATCH_RANGE_def

datatype CondSource = SOURCE_PARAM | SOURCE_HEADER | SOURCE_TIME

datatype TimeFunc = Hour | Minute | Weekday | Month | Day

definition TIME_FUNCS :: "TimeFunc list" where
  "TIME_FUNCS = [Hour, Minute, Weekday, Month, Day]"

primrec time_name :: "TimeFunc \<Rightarrow> jsstr" where
  "time_name Hour = js ''hour''"
| "time_name Minute = js ''minute''"
| "time_name Weekday = js ''weekday''"
| "time_name Month = js ''month''"
| "time_name Day = js ''day''"

definition time_of :: "jsstr \<Rightarrow> TimeFunc option" where
  "time_of w = List.find (\<lambda>f. time_name f = w) TIME_FUNCS"

record ParamHeaderCondition =
  ph_header :: bool
  ph_path :: jsstr
  ph_mode :: jsstr
  ph_value :: jsstr

record TimeCondition =
  tc_timeFunc :: TimeFunc
  tc_timezone :: jsstr
  tc_mode :: jsstr
  tc_value :: jsstr
  tc_rangeStart :: jsstr
  tc_rangeEnd :: jsstr

datatype RequestCondition = TimeCond TimeCondition | PHCond ParamHeaderCondition

record RequestRuleGroup =
  rg_conditions :: "RequestCondition list"
  rg_multiplier :: jsstr

definition digit_class :: regex where
  "digit_class = Cls is_digit"

definition num_unit :: "nat \<Rightarrow> bool" where
  "num_unit c \<longleftrightarrow> is_digit c \<or> c = 46 \<or> c = 101 \<or> c = 69 \<or> c = 43 \<or> c = 45"

definition not_quote :: "nat \<Rightarrow> bool" where
  "not_quote c \<longleftrightarrow> c \<noteq> 34"

definition not_line_end :: "nat \<Rightarrow> bool" where
  "not_line_end c \<longleftrightarrow> c \<noteq> 10 \<and> c \<noteq> 13 \<and> c \<noteq> 8232 \<and> c \<noteq> 8233"

definition NUMERIC_LITERAL_REGEX :: regex where
  "NUMERIC_LITERAL_REGEX = cat [Bol, Opt (Lit [45]),
     Alt (cat [Plus digit_class, Opt (Lit [46]), Star digit_class]) (cat [Lit [46], Plus digit_class]),
     Opt (cat [Cls (\<lambda>c. c = 101 \<or> c = 69), Opt (Cls (\<lambda>c. c = 43 \<or> c = 45)), Plus digit_class]), Eol]"

section \<open>Reading request rules\<close>

text \<open>
  The loop of \<open>splitTopLevelMultiply\<close> and \<open>splitTopLevelAnd\<close>: \<open>cur\<close> is the text from \<open>start\<close> to
  the index, \<open>d\<close> the depth of parentheses.
\<close>

fun splitTop :: "jsstr \<Rightarrow> jsstr \<Rightarrow> int \<Rightarrow> jsstr \<Rightarrow> jsstr list" where
  "splitTop sep cur d [] = [trim cur]"
| "splitTop sep cur d (c # cs) =
     (let d1 = (if c = 40 then d + 1 else d);
          d2 = (if c = 41 then d1 - 1 else d1)
      in if d2 = 0 \<and> starts_with sep (c # cs)
         then trim cur # splitTop sep [] d2 (drop (length sep - 1) cs)
         else splitTop sep (cur @ [c]) d2 cs)"

definition splitTopLevelMultiply :: "jsstr \<Rightarrow> jsstr list" where
  "splitTopLevelMultiply expr = filter (\<lambda>w. w \<noteq> []) (splitTop (js '' * '') [] 0 expr)"

definition splitTopLevelAnd :: "jsstr \<Rightarrow> jsstr list" where
  "splitTopLevelAnd expr = filter (\<lambda>w. w \<noteq> []) (splitTop (js '' && '') [] 0 expr)"

definition parseExprLiteral :: "jsstr \<Rightarrow> json option" where
  "parseExprLiteral raw =
     (let text = trim raw
      in if text = js ''true'' \<or> text = js ''false'' then Some (JStr text)
         else if re_test NUMERIC_LITERAL_REGEX text then Some (JStr text)
         else case json_parse text of Some JNull \<Rightarrow> None | r \<Rightarrow> r)"

definition time_alts :: regex where
  "time_alts = alts (map (\<lambda>f. Lit (time_name f)) TIME_FUNCS)"

definition time_range :: "jsstr \<Rightarrow> regex list" where
  "time_range close =
     [Grp 1 time_alts, Lit (js ''(\"''), Grp 2 (Plus (Cls not_quote)), Lit (js ''\") >= ''),
      Grp 3 (Plus (Cls num_unit)), Lit (js '' || ''), Back 1, Lit (js ''(\"''), Back 2, Lit (js ''\") < ''),
      Grp 4 (Plus (Cls num_unit))] @ (if close = [] then [Eol] else [Lit close, Eol])"

definition TIME_RANGE_RE :: regex where
  "TIME_RANGE_RE = cat (Bol # time_range [])"

definition TIME_RANGE_PAREN_RE :: regex where
  "TIME_RANGE_PAREN_RE = cat (Bol # Lit (js ''('') # time_range (js '')''))"

definition TIME_CMP_RE :: regex where
  "TIME_CMP_RE = cat [Bol, Grp 1 time_alts, Lit (js ''(\"''), Grp 2 (Plus (Cls not_quote)), Lit (js ''\") ''),
     Grp 3 (alts [Lit (js ''==''), Lit (js ''>=''), Lit (js ''<'')]), Lit (js '' ''),
     Grp 4 (Plus (Cls num_unit)), Eol]"

definition grp :: "captures \<Rightarrow> nat \<Rightarrow> jsstr" where
  "grp m n = (case m n of Some w \<Rightarrow> w | None \<Rightarrow> [])"

definition timeFuncOf :: "captures \<Rightarrow> TimeFunc" where
  "timeFuncOf m = (case time_of (grp m 1) of Some f \<Rightarrow> f | None \<Rightarrow> Hour)"

definition rangeCondition :: "captures \<Rightarrow> RequestCondition" where
  "rangeCondition m = TimeCond \<lparr>tc_timeFunc = timeFuncOf m, tc_timezone = grp m 2, tc_mode = MATCH_RANGE,
     tc_value = [], tc_rangeStart = grp m 3, tc_rangeEnd = grp m 4\<rparr>"

definition timeOpMode :: "jsstr \<Rightarrow> jsstr" where
  "timeOpMode op = (if op = js ''=='' then MATCH_EQ else if op = js ''>='' then MATCH_GTE
     else if op = js ''<'' then MATCH_LT else MATCH_EQ)"

definition tryParseTimeCondition :: "jsstr \<Rightarrow> RequestCondition option" where
  "tryParseTimeCondition expr =
     (case re_match TIME_RANGE_RE expr of
        Some m \<Rightarrow> Some (rangeCondition m)
      | None \<Rightarrow>
     (case re_match TIME_RANGE_PAREN_RE expr of
        Some m \<Rightarrow> Some (rangeCondition m)
      | None \<Rightarrow>
     (case re_match TIME_CMP_RE expr of
        Some m \<Rightarrow> Some (TimeCond \<lparr>tc_timeFunc = timeFuncOf m, tc_timezone = grp m 2,
          tc_mode = timeOpMode (grp m 3), tc_value = grp m 4, tc_rangeStart = [], tc_rangeEnd = []\<rparr>)
      | None \<Rightarrow> None)))"

definition name_re :: "nat \<Rightarrow> regex" where
  "name_re n = Grp n (Plus (Cls not_quote))"

definition HEADER_EXISTS_RE :: regex where
  "HEADER_EXISTS_RE = cat [Bol, Lit (js ''header(\"''), name_re 1, Lit (js ''\") != \"\"''), Eol]"

definition PARAM_EXISTS_RE :: regex where
  "PARAM_EXISTS_RE = cat [Bol, Lit (js ''param(\"''), name_re 1, Lit (js ''\") != nil''), Eol]"

text \<open>\<open>"(?:[^"\\]|\\.)*"\<close>, a quoted text.\<close>

definition string_re :: regex where
  "string_re = cat [Lit [34],
     Star (Alt (Cls (\<lambda>c. c \<noteq> 34 \<and> c \<noteq> 92)) (Sq (Lit [92]) (Cls not_line_end))), Lit [34]]"

definition HEADER_HAS_RE :: regex where
  "HEADER_HAS_RE = cat [Bol, Lit (js ''has(header(\"''), name_re 1, Lit (js ''\"), ''), Grp 2 string_re,
     Lit (js '')''), Eol]"

definition PARAM_HAS_RE :: regex where
  "PARAM_HAS_RE = cat [Bol, Lit (js ''param(\"''), name_re 1, Lit (js ''\") != nil && has(param(\"''),
     name_re 2, Lit (js ''\"), ''), Grp 3 string_re, Lit (js '')''), Eol]"

definition PARAM_CMP_RE :: regex where
  "PARAM_CMP_RE = cat [Bol, Lit (js ''param(\"''), name_re 1, Lit (js ''\") != nil && param(\"''),
     name_re 2, Lit (js ''\") ''), Grp 3 (alts [Lit (js ''>''), Lit (js ''>=''), Lit (js ''<''), Lit (js ''<='')]),
     Lit (js '' ''), Grp 4 (Plus (Cls num_unit)), Eol]"

definition EQ_RE :: regex where
  "EQ_RE = cat [Bol, Grp 1 (alts [Lit (js ''param''), Lit (js ''header'')]), Lit (js ''(\"''), name_re 2,
     Lit (js ''\") == ''), Grp 3 (Plus (Cls not_line_end)), Eol]"

definition paramOpMode :: "jsstr \<Rightarrow> jsstr" where
  "paramOpMode op = (if op = js ''>'' then MATCH_GT else if op = js ''>='' then MATCH_GTE
     else if op = js ''<'' then MATCH_LT else MATCH_LTE)"

definition phCond :: "bool \<Rightarrow> jsstr \<Rightarrow> jsstr \<Rightarrow> jsstr \<Rightarrow> RequestCondition" where
  "phCond header path mode val = PHCond \<lparr>ph_header = header, ph_path = path, ph_mode = mode, ph_value = val\<rparr>"

text \<open>\<open>JSON.parse\<close> of a quoted text; a bad escape or a raw control character throws.\<close>

definition parsedText :: "bool \<Rightarrow> jsstr \<Rightarrow> jsstr \<Rightarrow> js_error + RequestCondition option" where
  "parsedText header path quoted =
     (case json_parse quoted of
        Some (JStr w) \<Rightarrow> Inr (Some (phCond header path MATCH_CONTAINS w))
      | _ \<Rightarrow> Inl SyntaxError)"

definition guardMatch :: "(captures \<Rightarrow> bool) \<Rightarrow> captures option \<Rightarrow> captures option" where
  "guardMatch P m = (case m of Some c \<Rightarrow> if P c then Some c else None | None \<Rightarrow> None)"

definition parseEqCondition :: "jsstr \<Rightarrow> RequestCondition option" where
  "parseEqCondition expr =
     (case re_match EQ_RE expr of
        None \<Rightarrow> None
      | Some m \<Rightarrow>
          (case parseExprLiteral (grp m 3) of
             None \<Rightarrow> None
           | Some v \<Rightarrow> Some (phCond (grp m 1 = js ''header'') (grp m 2) MATCH_EQ (json_to_string v))))"

definition tryParseRequestCondition :: "jsstr \<Rightarrow> js_error + RequestCondition option" where
  "tryParseRequestCondition expr =
     (case tryParseTimeCondition expr of Some tc \<Rightarrow> Inr (Some tc) | None \<Rightarrow>
     (case re_match HEADER_EXISTS_RE expr of Some m \<Rightarrow> Inr (Some (phCond True (grp m 1) MATCH_EXISTS [])) | None \<Rightarrow>
     (case re_match PARAM_EXISTS_RE expr of Some m \<Rightarrow> Inr (Some (phCond False (grp m 1) MATCH_EXISTS [])) | None \<Rightarrow>
     (case re_match HEADER_HAS_RE expr of Some m \<Rightarrow> parsedText True (grp m 1) (grp m 2) | None \<Rightarrow>
     (case guardMatch (\<lambda>m. m 1 = m 2) (re_match PARAM_HAS_RE expr) of
        Some m \<Rightarrow> parsedText False (grp m 1) (grp m 3) | None \<Rightarrow>
     (case guardMatch (\<lambda>m. m 1 = m 2) (re_match PARAM_CMP_RE expr) of
        Some m \<Rightarrow> Inr (Some (phCond False (grp m 1) (paramOpMode (grp m 3)) (grp m 4))) | None \<Rightarrow>
     Inr (parseEqCondition expr)))))))"

definition FACTOR_RE :: regex where
  "FACTOR_RE = cat [Bol, Lit (js ''(''), Grp 1 (Plus (Cls (\<lambda>_. True))), Lit (js '' ? ''),
     Grp 2 (Plus (Cls num_unit)), Lit (js '' : 1)''), Eol]"

text \<open>The loop over the parts: the first that is no condition ends it, an exception leaves it.\<close>

fun parseConditions :: "jsstr list \<Rightarrow> js_error + RequestCondition list option" where
  "parseConditions [] = Inr (Some [])"
| "parseConditions (ap # aps) =
     (case tryParseRequestCondition (trim ap) of
        Inl e \<Rightarrow> Inl e
      | Inr None \<Rightarrow> Inr None
      | Inr (Some cond) \<Rightarrow>
          (case parseConditions aps of
             Inr (Some conds) \<Rightarrow> Inr (Some (cond # conds))
           | r \<Rightarrow> r))"

definition tryParseRuleGroupFactor :: "jsstr \<Rightarrow> js_error + RequestRuleGroup option" where
  "tryParseRuleGroupFactor part =
     (case re_match FACTOR_RE part of
        None \<Rightarrow> Inr None
      | Some m \<Rightarrow>
          (case parseConditions (splitTopLevelAnd (grp m 1)) of
             Inl e \<Rightarrow> Inl e
           | Inr None \<Rightarrow> Inr None
           | Inr (Some conds) \<Rightarrow>
               Inr (if conds = [] then None else Some \<lparr>rg_conditions = conds, rg_multiplier = grp m 2\<rparr>)))"

fun parseFactors :: "jsstr list \<Rightarrow> js_error + RequestRuleGroup list option" where
  "parseFactors [] = Inr (Some [])"
| "parseFactors (part # parts) =
     (case tryParseRuleGroupFactor part of
        Inl e \<Rightarrow> Inl e
      | Inr None \<Rightarrow> Inr None
      | Inr (Some g) \<Rightarrow>
          (case parseFactors parts of
             Inr (Some gs) \<Rightarrow> Inr (Some (g # gs))
           | r \<Rightarrow> r))"

definition tryParseRequestRuleExpr :: "jsstr \<Rightarrow> js_error + RequestRuleGroup list option" where
  "tryParseRequestRuleExpr expr =
     (let trimmed = trim expr
      in if trimmed = [] then Inr (Some []) else parseFactors (splitTopLevelMultiply trimmed))"

section \<open>Attaching and splitting the rules\<close>

fun outerLoop :: "int \<Rightarrow> jsstr \<Rightarrow> bool" where
  "outerLoop d [] = (d = 0)"
| "outerLoop d (c # cs) =
     (let d1 = (if c = 40 then d + 1 else d);
          d2 = (if c = 41 then d1 - 1 else d1)
      in if d2 = 0 \<and> cs \<noteq> [] then False else outerLoop d2 cs)"

definition hasFullOuterParens :: "jsstr \<Rightarrow> bool" where
  "hasFullOuterParens expr \<longleftrightarrow> starts_with [40] expr \<and> ends_with [41] expr \<and> outerLoop 0 expr"

function unwrapLoop :: "jsstr \<Rightarrow> jsstr" where
  "unwrapLoop current = (if hasFullOuterParens current then unwrapLoop (trim (butlast (tl current))) else current)"
  by pat_completeness auto
termination
proof (relation "measure length")
  fix current assume "hasFullOuterParens current"
  then have "current \<noteq> []" by (cases current) (auto simp: hasFullOuterParens_def)
  then have "length (butlast (tl current)) < length current" by (cases current) auto
  then show "(trim (butlast (tl current)), current) \<in> measure length"
    using trim_length [of "butlast (tl current)"] by simp
qed simp

declare unwrapLoop.simps [simp del]

definition unwrapOuterParens :: "jsstr \<Rightarrow> jsstr" where
  "unwrapOuterParens expr = unwrapLoop (trim expr)"

definition isRulePart :: "jsstr \<Rightarrow> js_error + bool" where
  "isRulePart part =
     (case tryParseRequestRuleExpr part of
        Inl e \<Rightarrow> Inl e
      | Inr None \<Rightarrow> Inr False
      | Inr (Some parsed) \<Rightarrow> Inr (parsed \<noteq> []))"

fun partitionParts :: "jsstr list \<Rightarrow> js_error + (jsstr list \<times> jsstr list)" where
  "partitionParts [] = Inr ([], [])"
| "partitionParts (part # parts) =
     (case isRulePart part of
        Inl e \<Rightarrow> Inl e
      | Inr b \<Rightarrow>
          (case partitionParts parts of
             Inl e \<Rightarrow> Inl e
           | Inr (rules, bases) \<Rightarrow> Inr (if b then (part # rules, bases) else (rules, part # bases))))"

record SplitResult =
  billingExpr :: jsstr
  requestRuleExpr :: jsstr

definition splitBillingExprAndRequestRules :: "jsstr \<Rightarrow> js_error + SplitResult" where
  "splitBillingExprAndRequestRules expr =
     (let trimmed = trim expr;
          whole = Inr \<lparr>billingExpr = trimmed, requestRuleExpr = []\<rparr>
      in if trimmed = [] then Inr \<lparr>billingExpr = [], requestRuleExpr = []\<rparr>
         else let parts = splitTopLevelMultiply trimmed
              in if length parts \<le> 1 then whole
                 else case partitionParts parts of
                        Inl e \<Rightarrow> Inl e
                      | Inr (ruleParts, baseParts) \<Rightarrow>
                          if ruleParts = [] \<or> length baseParts \<noteq> 1 then whole
                          else Inr \<lparr>billingExpr = unwrapOuterParens (hd baseParts),
                                    requestRuleExpr = join (js '' * '') ruleParts\<rparr>)"

definition combineBillingExpr :: "jsstr \<Rightarrow> jsstr \<Rightarrow> jsstr" where
  "combineBillingExpr baseExpr ruleExpr =
     (let base = trim baseExpr; rules = trim ruleExpr
      in if base = [] then [] else if rules = [] then base else js ''('' @ base @ js '') * '' @ rules)"

section \<open>The editor\<close>

definition createEmptyCondition :: ParamHeaderCondition where
  "createEmptyCondition = \<lparr>ph_header = False, ph_path = [], ph_mode = MATCH_EQ, ph_value = []\<rparr>"

definition createEmptyTimeCondition :: TimeCondition where
  "createEmptyTimeCondition = \<lparr>tc_timeFunc = Hour, tc_timezone = js ''Asia/Shanghai'', tc_mode = MATCH_GTE,
     tc_value = [], tc_rangeStart = [], tc_rangeEnd = []\<rparr>"

definition createEmptyRuleGroup :: RequestRuleGroup where
  "createEmptyRuleGroup = \<lparr>rg_conditions = [PHCond createEmptyCondition], rg_multiplier = []\<rparr>"

definition createEmptyTimeRuleGroup :: RequestRuleGroup where
  "createEmptyTimeRuleGroup = \<lparr>rg_conditions = [TimeCond createEmptyTimeCondition], rg_multiplier = []\<rparr>"

type_synonym MatchOption = "jsstr \<times> jsstr"

definition getRequestRuleMatchOptions :: "CondSource \<Rightarrow> MatchOption list" where
  "getRequestRuleMatchOptions source =
     (if source = SOURCE_TIME
      then [(MATCH_EQ, js ''Equals''), (MATCH_GTE, js ''Greater than or equal''), (MATCH_LT, js ''Less than''),
            (MATCH_RANGE, js ''Overnight range'')]
      else let base = [(MATCH_EQ, js ''Equals''), (MATCH_CONTAINS, js ''Contains''), (MATCH_EXISTS, js ''Exists'')]
           in if source = SOURCE_HEADER then base
              else base @ [(MATCH_GT, js ''Greater than''), (MATCH_GTE, js ''Greater than or equal''),
                           (MATCH_LT, js ''Less than''), (MATCH_LTE, js ''Less than or equal'')])"

text \<open>
  The argument of \<open>normalizeCondition\<close>: any of the fields of a condition may be missing, and
  the source and the time function may be any text.
\<close>

record PartialCondition =
  pc_source :: "jsstr option"
  pc_timeFunc :: "jsstr option"
  pc_timezone :: "jsstr option"
  pc_mode :: "jsstr option"
  pc_value :: "jsstr option"
  pc_rangeStart :: "jsstr option"
  pc_rangeEnd :: "jsstr option"
  pc_path :: "jsstr option"

definition isTimeFunc :: "jsstr option \<Rightarrow> bool" where
  "isTimeFunc v = (case v of Some w \<Rightarrow> w \<in> set (map time_name TIME_FUNCS) | None \<Rightarrow> False)"

definition given :: "jsstr option \<Rightarrow> jsstr" where
  "given v = (case v of Some w \<Rightarrow> w | None \<Rightarrow> [])"

definition given_or :: "jsstr option \<Rightarrow> jsstr \<Rightarrow> jsstr" where
  "given_or v d = (if given v = [] then d else given v)"

definition chosenMode :: "CondSource \<Rightarrow> jsstr option \<Rightarrow> jsstr \<Rightarrow> jsstr" where
  "chosenMode source mode dflt =
     (if list_ex (\<lambda>item. Some (fst item) = mode) (getRequestRuleMatchOptions source) then given mode else dflt)"

definition normalizeCondition :: "PartialCondition option \<Rightarrow> RequestCondition" where
  "normalizeCondition cond =
     (let get = (\<lambda>f. Option.bind cond f);
          source = (if get pc_source = Some (js ''time'') then SOURCE_TIME
                    else if get pc_source = Some (js ''header'') then SOURCE_HEADER else SOURCE_PARAM)
      in if source = SOURCE_TIME
         then TimeCond
           \<lparr>tc_timeFunc = (if isTimeFunc (get pc_timeFunc) then the (time_of (given (get pc_timeFunc))) else Hour),
            tc_timezone = given_or (get pc_timezone) (js ''Asia/Shanghai''),
            tc_mode = chosenMode SOURCE_TIME (get pc_mode) MATCH_GTE,
            tc_value = given (get pc_value), tc_rangeStart = given (get pc_rangeStart),
            tc_rangeEnd = given (get pc_rangeEnd)\<rparr>
         else PHCond
           \<lparr>ph_header = (source = SOURCE_HEADER), ph_path = given (get pc_path),
            ph_mode = chosenMode source (get pc_mode) MATCH_EQ, ph_value = given (get pc_value)\<rparr>)"

text \<open>A complete condition, seen as an argument of \<open>normalizeCondition\<close>.\<close>

definition partial_time :: "TimeCondition \<Rightarrow> PartialCondition" where
  "partial_time c = \<lparr>pc_source = Some (js ''time''), pc_timeFunc = Some (time_name (tc_timeFunc c)),
     pc_timezone = Some (tc_timezone c), pc_mode = Some (tc_mode c), pc_value = Some (tc_value c),
     pc_rangeStart = Some (tc_rangeStart c), pc_rangeEnd = Some (tc_rangeEnd c), pc_path = None\<rparr>"

definition partial_ph :: "ParamHeaderCondition \<Rightarrow> PartialCondition" where
  "partial_ph c = \<lparr>pc_source = Some (if ph_header c then js ''header'' else js ''param''), pc_timeFunc = None,
     pc_timezone = None, pc_mode = Some (ph_mode c), pc_value = Some (ph_value c),
     pc_rangeStart = None, pc_rangeEnd = None, pc_path = Some (ph_path c)\<rparr>"

definition buildExprLiteral :: "jsstr \<Rightarrow> jsstr \<Rightarrow> jsstr" where
  "buildExprLiteral mode val =
     (let text = trim val
      in if mode = MATCH_CONTAINS then quote text
         else if text = js ''true'' \<or> text = js ''false'' then text
         else if re_test NUMERIC_LITERAL_REGEX text then text
         else quote text)"

definition timeModeOp :: "jsstr \<Rightarrow> jsstr" where
  "timeModeOp mode = (if mode = MATCH_EQ then js ''=='' else if mode = MATCH_GTE then js ''>=''
     else if mode = MATCH_LT then js ''<'' else js ''=='')"

text \<open>The casts of the source after \<open>normalizeCondition\<close> hold: the source of a condition is kept.\<close>

fun the_time :: "RequestCondition \<Rightarrow> TimeCondition" where
  "the_time (TimeCond c) = c"
| "the_time (PHCond c) = createEmptyTimeCondition"

fun the_ph :: "RequestCondition \<Rightarrow> ParamHeaderCondition" where
  "the_ph (PHCond c) = c"
| "the_ph (TimeCond c) = createEmptyCondition"

definition buildTimeConditionExpr :: "TimeCondition \<Rightarrow> jsstr" where
  "buildTimeConditionExpr cond =
     (let normalized = the_time (normalizeCondition (Some (partial_time cond)));
          fn = time_name (tc_timeFunc normalized) @ js ''('' @ quote (tc_timezone normalized) @ js '')''
      in if tc_mode normalized = MATCH_RANGE
         then let s = trim (tc_rangeStart normalized); e = trim (tc_rangeEnd normalized)
              in if \<not> re_test NUMERIC_LITERAL_REGEX s \<or> \<not> re_test NUMERIC_LITERAL_REGEX e then []
                 else fn @ js '' >= '' @ s @ js '' || '' @ fn @ js '' < '' @ e
         else let v = trim (tc_value normalized)
              in if \<not> re_test NUMERIC_LITERAL_REGEX v then []
                 else fn @ js '' '' @ timeModeOp (tc_mode normalized) @ js '' '' @ v)"

definition paramModeOp :: "jsstr \<Rightarrow> jsstr" where
  "paramModeOp mode = (if mode = MATCH_GT then js ''>'' else if mode = MATCH_GTE then js ''>=''
     else if mode = MATCH_LT then js ''<'' else js ''<='')"

definition buildParamHeaderExpr :: "ParamHeaderCondition \<Rightarrow> jsstr" where
  "buildParamHeaderExpr cond =
     (let normalized = the_ph (normalizeCondition (Some (partial_ph cond)));
          path = trim (ph_path normalized);
          header = ph_header normalized; mode = ph_mode normalized;
          sourceExpr = (if header then js ''header('' @ quote path @ js '')'' else js ''param('' @ quote path @ js '')'')
      in if path = [] then []
         else if mode = MATCH_EXISTS
         then (if header then sourceExpr @ js '' != \"\"'' else sourceExpr @ js '' != nil'')
         else if mode = MATCH_CONTAINS
         then (let lit = buildExprLiteral mode (ph_value normalized)
               in if header then js ''has('' @ sourceExpr @ js '', '' @ lit @ js '')''
                  else sourceExpr @ js '' != nil && has('' @ sourceExpr @ js '', '' @ lit @ js '')'')
         else if mode \<in> {MATCH_GT, MATCH_GTE, MATCH_LT, MATCH_LTE}
         then (let numText = trim (ph_value normalized)
               in if \<not> re_test NUMERIC_LITERAL_REGEX numText then []
                  else sourceExpr @ js '' != nil && '' @ sourceExpr @ js '' '' @ paramModeOp mode @ js '' '' @ numText)
         else sourceExpr @ js '' == '' @ buildExprLiteral mode (ph_value normalized))"

fun buildRequestConditionExpr :: "RequestCondition \<Rightarrow> jsstr" where
  "buildRequestConditionExpr (TimeCond c) = buildTimeConditionExpr c"
| "buildRequestConditionExpr (PHCond c) = buildParamHeaderExpr c"

definition wrapOr :: "jsstr \<Rightarrow> jsstr" where
  "wrapOr e = (if has_sub (js '' || '') e then js ''('' @ e @ js '')'' else e)"

definition buildRuleGroupFactor :: "RequestRuleGroup \<Rightarrow> jsstr" where
  "buildRuleGroupFactor g =
     (let multiplier = trim (rg_multiplier g);
          condExprs = filter (\<lambda>e. e \<noteq> []) (map buildRequestConditionExpr (rg_conditions g))
      in if \<not> re_test NUMERIC_LITERAL_REGEX multiplier then []
         else if length condExprs = 0 then []
         else let combined = (if length condExprs = 1 then hd condExprs
                              else join (js '' && '') (map wrapOr condExprs))
              in js ''('' @ combined @ js '' ? '' @ multiplier @ js '' : 1)'')"

definition buildRequestRuleExpr :: "RequestRuleGroup list \<Rightarrow> jsstr" where
  "buildRequestRuleExpr gs = join (js '' * '') (filter (\<lambda>e. e \<noteq> []) (map buildRuleGroupFactor gs))"

end
