(* ===== verification/BillingRules.thy ===== *)
theory BillingRules
  imports BillingExpr
begin

text \<open>
  What the request rules of a billing expression satisfy: a printed rule reads back as the rule,
  the rules can be split off the price they were attached to, and outer parentheses are removed
  completely. The proofs run the patterns of the source with the steps collected in \<open>rx\<close>.
\<close>

section \<open>Text that the patterns pass over\<close>

lemma takeWhile_run:
  "list_all P w \<Longrightarrow> \<not> P c \<Longrightarrow> takeWhile P (w @ c # t) = w \<and> dropWhile P (w @ c # t) = c # t"
  by (induction w) auto

lemma takeWhile_all: "list_all P w \<Longrightarrow> takeWhile P w = w \<and> dropWhile P w = []"
  by (induction w) auto

primrec re_over :: "(nat \<Rightarrow> bool) \<Rightarrow> regex \<Rightarrow> bool" where
  "re_over P Eps = True"
| "re_over P (Lit l) = list_all P l"
| "re_over P (Cls Q) = (\<forall>c. Q c \<longrightarrow> P c)"
| "re_over P (Sq r q) = (re_over P r \<and> re_over P q)"
| "re_over P (Alt r q) = (re_over P r \<and> re_over P q)"
| "re_over P (Star r) = re_over P r"
| "re_over P (Lazy r) = re_over P r"
| "re_over P (Grp n r) = re_over P r"
| "re_over P (Back n) = False"
| "re_over P Bol = True"
| "re_over P Eol = True"
| "re_over P WordB = True"

definition consumes :: "(nat \<Rightarrow> bool) \<Rightarrow> rstate \<Rightarrow> rstate \<Rightarrow> bool" where
  "consumes P st st' \<longleftrightarrow> (\<exists>w. fst (snd st) = w @ fst (snd st') \<and> list_all P w)"

lemma consumes_refl: "consumes P st st"
  by (auto simp: consumes_def)

lemma consumes_trans: "consumes P a b \<Longrightarrow> consumes P b c \<Longrightarrow> consumes P a c"
  by (force simp: consumes_def)

lemma consumes_star:
  assumes "\<And>st st'. st' \<in> set (f st) \<Longrightarrow> consumes P st st'"
  shows "st' \<in> set (star_iter f n st) \<Longrightarrow> consumes P st st'"
proof (induction n arbitrary: st)
  case 0
  then show ?case by (simp add: consumes_refl)
next
  case (Suc n)
  then have "st' = st \<or> (\<exists>st1 \<in> set (f st). st' \<in> set (star_iter f n st1))" by auto
  with Suc.IH assms show ?case by (metis consumes_refl consumes_trans)
qed

lemma rmatch_consumes: "re_over P r \<Longrightarrow> st' \<in> set (rmatch r st) \<Longrightarrow> consumes P st st'"
proof (induction r arbitrary: st st')
  case (Lit l)
  then show ?case by (auto simp: lit_at_def consumes_def starts_with_iff split: prod.splits if_splits)
next
  case (Cls Q)
  then show ?case by (auto simp: consumes_def split: prod.splits list.splits if_splits)
next
  case (Sq r q)
  then obtain st1 where "st1 \<in> set (rmatch r st)" "st' \<in> set (rmatch q st1)" by auto
  with Sq show ?case by (metis consumes_trans re_over.simps(4))
next
  case (Star r)
  then have "\<And>st st'. st' \<in> set (rmatch r st) \<Longrightarrow> consumes P st st'" by simp
  with Star.prems(2) show ?case unfolding rmatch.simps by (rule consumes_star [rotated])
next
  case (Lazy r)
  then have "\<And>st st'. st' \<in> set (rmatch r st) \<Longrightarrow> consumes P st st'" by simp
  with Lazy.prems(2) show ?case unfolding rmatch.simps set_lazy_iter by (rule consumes_star [rotated])
next
  case (Grp n r)
  from Grp.prems(2) obtain st1 where "st1 \<in> set (rmatch r st)" "fst (snd st') = fst (snd st1)" by auto
  with Grp.IH [of st1 st] Grp.prems(1) show ?case by (simp add: consumes_def)
qed (auto simp: consumes_refl split: if_splits)

lemma test_over:
  assumes "re_test (cat (Bol # rs @ [Eol])) s" and "re_over P (cat rs)"
  shows "list_all P s"
proof -
  from assms(1) obtain st where st: "st \<in> set (run (rs @ [Eol]) (None, s, Map.empty))"
    unfolding test_anchored by (meson last_in_set)
  then obtain st1 where "st1 \<in> set (run rs (None, s, Map.empty))" "fst (snd st1) = []"
    by (auto simp: run_append run_Eol split: if_splits)
  with rmatch_consumes [OF assms(2), of st1 "(None, s, Map.empty)"] show ?thesis
    by (auto simp: run_def consumes_def)
qed

lemma numeric_units:
  assumes "re_test NUMERIC_LITERAL_REGEX s"
  shows "list_all num_unit s \<and> s \<noteq> []"
proof
  have d: "is_digit c \<Longrightarrow> num_unit c" for c by (simp add: num_unit_def)
  show "list_all num_unit s"
    using assms unfolding NUMERIC_LITERAL_REGEX_def
    by (intro test_over [of "[_, _, _]"]) (auto simp: cat_simps Opt_def Plus_def digit_class_def num_unit_def)
  show "s \<noteq> []"
    using assms unfolding NUMERIC_LITERAL_REGEX_def test_anchored
    by (auto simp: rx cat_simps Opt_def Plus_def digit_class_def)
qed

section \<open>Conditions that are read back\<close>

text \<open>
  Names and values that neither JSON quoting nor the patterns change or cut: no control
  characters, quotes, backslashes, parentheses, ampersands, bars, line separators or surrogates.
\<close>

definition plain :: "nat \<Rightarrow> bool" where
  "plain c \<longleftrightarrow> 32 \<le> c \<and> c \<notin> {34, 92, 40, 41, 38, 124, 8232, 8233} \<and> \<not> is_high c \<and> \<not> is_low c"

definition numeric :: "jsstr \<Rightarrow> bool" where
  "numeric s = re_test NUMERIC_LITERAL_REGEX s"

fun recoverable :: "RequestCondition \<Rightarrow> bool" where
  "recoverable (TimeCond c) \<longleftrightarrow> tc_timezone c \<noteq> [] \<and> list_all plain (tc_timezone c)
     \<and> (tc_mode c = MATCH_RANGE \<and> numeric (tc_rangeStart c) \<and> numeric (tc_rangeEnd c) \<and> tc_value c = []
        \<or> tc_mode c \<in> {MATCH_EQ, MATCH_GTE, MATCH_LT} \<and> numeric (tc_value c)
           \<and> tc_rangeStart c = [] \<and> tc_rangeEnd c = [])"
| "recoverable (PHCond c) \<longleftrightarrow> ph_path c \<noteq> [] \<and> trimmed (ph_path c) \<and> list_all plain (ph_path c)
     \<and> (ph_mode c = MATCH_EXISTS \<and> ph_value c = []
        \<or> (ph_mode c = MATCH_EQ \<or> ph_header c \<and> ph_mode c = MATCH_CONTAINS)
           \<and> trimmed (ph_value c) \<and> list_all plain (ph_value c))"

lemma quote_plain: "list_all plain s \<Longrightarrow> quote_units s = s"
  by (induction s rule: quote_units.induct) (auto simp: plain_def quote_unit_def)

lemma quote_plain_text: "list_all plain s \<Longrightarrow> quote s = 34 # s @ [34]"
  by (simp add: quote_def quote_plain)

lemma plain_not_quote: "list_all plain s \<Longrightarrow> list_all not_quote s"
  by (auto simp: list_all_iff plain_def not_quote_def)

lemma plain_not_line_end: "plain c \<Longrightarrow> not_line_end c"
proof -
  assume p: "plain c"
  have "\<not> plain 10" "\<not> plain 13" by (simp_all add: plain_def)
  with p have "c \<noteq> 10" "c \<noteq> 13" by metis+
  with p show ?thesis unfolding plain_def not_line_end_def by blast
qed

lemma numeric_trim: "numeric s \<Longrightarrow> trim s = s"
  using numeric_units [of s] by (intro trim_id) (auto simp: numeric_def list_all_iff num_unit_def is_digit_def is_ws_def)

lemma numeric_facts: "numeric s \<Longrightarrow> list_all num_unit s" "numeric s \<Longrightarrow> s \<noteq> []"
  using numeric_units [of s] by (simp_all add: numeric_def)

lemma time_of_name: "time_of (time_name f) = Some f"
  by (cases f) (simp_all add: time_of_def TIME_FUNCS_def js_eval)

lemma isTimeFunc_name: "isTimeFunc (Some (time_name f))"
  by (cases f) (simp_all add: isTimeFunc_def TIME_FUNCS_def)

lemma mode_distinct:
  "distinct [MATCH_EQ, MATCH_CONTAINS, MATCH_GT, MATCH_GTE, MATCH_LT, MATCH_LTE, MATCH_EXISTS, MATCH_RANGE]"
  by (simp add: match_defs js_eval)

definition time_text :: "TimeCondition \<Rightarrow> jsstr" where
  "time_text c = (let fn = time_name (tc_timeFunc c) @ js ''(\"'' @ tc_timezone c @ js ''\")''
     in if tc_mode c = MATCH_RANGE
        then fn @ js '' >= '' @ tc_rangeStart c @ js '' || '' @ fn @ js '' < '' @ tc_rangeEnd c
        else fn @ js '' '' @ timeModeOp (tc_mode c) @ js '' '' @ tc_value c)"

lemma build_time_text:
  assumes "recoverable (TimeCond c)"
  shows "buildTimeConditionExpr c = time_text c"
proof -
  have g: "given (Some w) = w" for w by (simp add: given_def)
  have "tc_mode c \<in> {MATCH_EQ, MATCH_GTE, MATCH_LT, MATCH_RANGE}" using assms by auto
  then have m: "chosenMode SOURCE_TIME (Some (tc_mode c)) MATCH_GTE = tc_mode c"
    by (simp add: chosenMode_def getRequestRuleMatchOptions_def g) metis
  have z: "given_or (Some (tc_timezone c)) (js ''Asia/Shanghai'') = tc_timezone c"
    using assms by (simp add: given_or_def g)
  have n: "the_time (normalizeCondition (Some (partial_time c))) = c"
    by (simp add: normalizeCondition_def partial_time_def g m z time_of_name isTimeFunc_name)
  have q: "quote (tc_timezone c) = 34 # tc_timezone c @ [34]"
    using assms by (simp add: quote_plain_text)
  show ?thesis
  proof (cases "tc_mode c = MATCH_RANGE")
    case True
    with assms mode_distinct have "numeric (tc_rangeStart c)" "numeric (tc_rangeEnd c)" by auto
    then show ?thesis using True unfolding buildTimeConditionExpr_def time_text_def n q
      by (simp add: q numeric_trim numeric_def [symmetric] js_def Let_def)
  next
    case False
    with assms have "numeric (tc_value c)" by auto
    then show ?thesis using False unfolding buildTimeConditionExpr_def time_text_def n q
      by (simp add: q numeric_trim numeric_def [symmetric] js_def Let_def)
  qed
qed

lemmas run_time = match_anchored rx run_GrpPlus time_alts_def TIME_FUNCS_def takeWhile_run takeWhile_all
  TIME_RANGE_RE_def TIME_RANGE_PAREN_RE_def TIME_CMP_RE_def time_range_def js_def

lemmas unit_defs = num_unit_def not_quote_def is_digit_def

lemma parse_time_range:
  assumes "list_all not_quote tz" "tz \<noteq> []" "list_all num_unit a" "a \<noteq> []" "list_all num_unit b" "b \<noteq> []"
  shows "re_match TIME_RANGE_RE (time_name f @ js ''(\"'' @ tz @ js ''\")'' @ js '' >= '' @ a @ js '' || ''
      @ time_name f @ js ''(\"'' @ tz @ js ''\")'' @ js '' < '' @ b)
    = Some [1 \<mapsto> time_name f, 2 \<mapsto> tz, 3 \<mapsto> a, 4 \<mapsto> b]"
  using assms by (cases f) (simp_all add: run_time unit_defs)

lemma parse_time_range_paren:
  assumes "list_all not_quote tz" "tz \<noteq> []" "list_all num_unit a" "a \<noteq> []" "list_all num_unit b" "b \<noteq> []"
  shows "re_match TIME_RANGE_PAREN_RE (js ''('' @ time_name f @ js ''(\"'' @ tz @ js ''\")'' @ js '' >= '' @ a
      @ js '' || '' @ time_name f @ js ''(\"'' @ tz @ js ''\")'' @ js '' < '' @ b @ js '')'')
    = Some [1 \<mapsto> time_name f, 2 \<mapsto> tz, 3 \<mapsto> a, 4 \<mapsto> b]"
  using assms by (cases f) (simp_all add: run_time unit_defs)

lemma parse_time_cmp:
  assumes "list_all not_quote tz" "tz \<noteq> []" "list_all num_unit v" "v \<noteq> []"
    and "op \<in> {js ''=='', js ''>='', js ''<''}"
  shows "re_match TIME_RANGE_RE (time_name f @ js ''(\"'' @ tz @ js ''\")'' @ js '' '' @ op @ js '' '' @ v) = None"
    and "re_match TIME_RANGE_PAREN_RE (time_name f @ js ''(\"'' @ tz @ js ''\")'' @ js '' '' @ op @ js '' '' @ v) = None"
    and "re_match TIME_CMP_RE (time_name f @ js ''(\"'' @ tz @ js ''\")'' @ js '' '' @ op @ js '' '' @ v)
      = Some [1 \<mapsto> time_name f, 2 \<mapsto> tz, 3 \<mapsto> op, 4 \<mapsto> v]"
  using assms(5) assms(1-4) unfolding insert_iff empty_iff
  by (elim disjE FalseE; cases f; simp add: run_time unit_defs)+

text \<open>A quoted text without backslashes.\<close>

lemma star_iter_cong:
  assumes "\<And>st. I st \<Longrightarrow> f st = g st" and "\<And>st st'. I st \<Longrightarrow> st' \<in> set (g st) \<Longrightarrow> I st'"
  shows "I st \<Longrightarrow> star_iter f n st = star_iter g n st"
proof (induction n arbitrary: st)
  case (Suc n)
  then have e: "map (star_iter f n) (filter Q (g st)) = map (star_iter g n) (filter Q (g st))" for Q
    using assms(2) by (intro map_cong) auto
  show ?case unfolding star_iter.simps assms(1) [OF Suc.prems] e ..
qed simp

lemma string_re_run:
  assumes "list_all plain v" and "92 \<notin> set t"
  shows "rmatch string_re (pv, 34 # v @ 34 # t, cap) = [(Some 34, t, cap)]"
proof -
  let ?Q = "\<lambda>c. c \<noteq> 34 \<and> c \<noteq> (92 :: nat)"
  let ?I = "\<lambda>st :: rstate. 92 \<notin> set (fst (snd st))"
  have star: "rmatch (Star (Alt (Cls ?Q) (Sq (Lit [92]) (Cls not_line_end)))) st = rmatch (Star (Cls ?Q)) st"
    if "?I st" for st
    unfolding rmatch.simps(6)
  proof (rule star_iter_cong [where I = ?I])
    fix st :: rstate assume "?I st"
    then show "rmatch (Alt (Cls ?Q) (Sq (Lit [92]) (Cls not_line_end))) st = rmatch (Cls ?Q) st"
      by (cases "fst (snd st)") (auto simp: lit_at_def split: prod.splits)
  next
    fix st st' :: rstate assume "?I st" "st' \<in> set (rmatch (Cls ?Q) st)"
    then show "?I st'" by (auto split: prod.splits list.splits if_splits)
  qed (rule that)
  have v: "list_all ?Q v" "92 \<notin> set v" using assms(1) by (auto simp: list_all_iff plain_def)
  have l: "run [Lit [34]] = rmatch (Sq (Lit [34]) Eps)" by (rule ext) (simp add: run_def cat_simps)
  have "rmatch string_re (pv, 34 # v @ 34 # t, cap) = run [Lit [34], Star (Cls ?Q), Lit [34]] (pv, 34 # v @ 34 # t, cap)"
    using assms(2) v star [of "(Some 34, v @ 34 # t, cap)"]
    by (simp add: string_re_def cat_simps l run_Cons [of "Lit [34]" "[_, _]"] run_Cons [of "Star _"] lit_at_def adv_def
        del: rmatch.simps(6))
  also have "\<dots> = [(Some 34, t, cap)]"
    using takeWhile_run [OF v(1), of 34 t] by (simp add: run_Lit run_Star rx adv_def)
  finally show ?thesis .
qed

lemma literal_roundtrip:
  assumes "trimmed v" and "list_all plain v"
  shows "parseExprLiteral (buildExprLiteral MATCH_EQ v) = Some (JStr v)"
    and "buildExprLiteral MATCH_EQ v \<noteq> []" and "list_all not_line_end (buildExprLiteral MATCH_EQ v)"
proof -
  have t: "trim v = v" using assms(1) by (rule trim_trimmed)
  have m: "MATCH_EQ \<noteq> MATCH_CONTAINS" using mode_distinct by simp
  have n: "trim (quote v) = quote v" by (rule trim_trimmed) (simp add: trimmed_def quote_def is_ws_def)
  have r: "\<not> re_test NUMERIC_LITERAL_REGEX (quote v)"
    using numeric_units [of "quote v"] by (auto simp: quote_def unit_defs)
  have p: "json_parse (quote v) = Some (JStr v)" using json_roundtrip [of "JStr v"] by simp
  have h: "hd (quote v) = 34" by (simp add: quote_def)
  show "parseExprLiteral (buildExprLiteral MATCH_EQ v) = Some (JStr v)"
  proof (cases "v = js ''true'' \<or> v = js ''false'' \<or> re_test NUMERIC_LITERAL_REGEX v")
    case True
    then have "buildExprLiteral MATCH_EQ v = v" unfolding buildExprLiteral_def t Let_def using m by simp blast
    moreover have "parseExprLiteral v = Some (JStr v)" unfolding parseExprLiteral_def t Let_def using True by simp blast
    ultimately show ?thesis by simp
  next
    case False
    have "quote v \<noteq> js ''true''" "quote v \<noteq> js ''false''" using h by (auto simp: js_def)
    with False show ?thesis using t m n r p by (simp add: parseExprLiteral_def buildExprLiteral_def)
  qed
  have l: "list_all not_line_end v"
    using assms(2) plain_not_line_end by (simp add: list_all_iff)
  show "buildExprLiteral MATCH_EQ v \<noteq> []"
    unfolding buildExprLiteral_def t Let_def using numeric_units [of v] by (auto simp: quote_def)
  show "list_all not_line_end (buildExprLiteral MATCH_EQ v)"
    unfolding buildExprLiteral_def t Let_def using l assms(2) by (simp add: quote_plain_text not_line_end_def)
qed

definition ph_text :: "ParamHeaderCondition \<Rightarrow> jsstr" where
  "ph_text c = (let src = (if ph_header c then js ''header(\"'' else js ''param(\"'') @ ph_path c @ js ''\")''
     in if ph_mode c = MATCH_EXISTS then src @ (if ph_header c then js '' != \"\"'' else js '' != nil'')
        else if ph_mode c = MATCH_CONTAINS then js ''has('' @ src @ js '', \"'' @ ph_value c @ js ''\")''
        else src @ js '' == '' @ buildExprLiteral MATCH_EQ (ph_value c))"

lemma build_ph_text:
  assumes "recoverable (PHCond c)"
  shows "buildParamHeaderExpr c = ph_text c"
proof -
  have g: "given (Some w) = w" for w by (simp add: given_def)
  have "ph_mode c \<in> {MATCH_EQ, MATCH_EXISTS} \<or> ph_header c \<and> ph_mode c = MATCH_CONTAINS" using assms by auto
  then have "chosenMode (if ph_header c then SOURCE_HEADER else SOURCE_PARAM) (Some (ph_mode c)) MATCH_EQ = ph_mode c"
    by (simp add: chosenMode_def getRequestRuleMatchOptions_def g) metis
  then have n: "the_ph (normalizeCondition (Some (partial_ph c))) = c"
    by (cases "ph_header c"; cases c) (simp_all add: normalizeCondition_def partial_ph_def g js_def)
  have p: "trim (ph_path c) = ph_path c" "ph_path c \<noteq> []" "quote (ph_path c) = 34 # ph_path c @ [34]"
    using assms by (simp_all add: trim_trimmed quote_plain_text)
  have v: "ph_mode c = MATCH_CONTAINS \<Longrightarrow> buildExprLiteral MATCH_CONTAINS (ph_value c) = 34 # ph_value c @ [34]"
    using assms mode_distinct by (simp add: buildExprLiteral_def trim_trimmed quote_plain_text)
  consider "ph_mode c = MATCH_EXISTS" | "ph_mode c = MATCH_EQ" | "ph_header c" "ph_mode c = MATCH_CONTAINS"
    using assms by auto
  then show ?thesis
    using mode_distinct v unfolding buildParamHeaderExpr_def ph_text_def n
    by cases (simp_all add: p js_def Let_def)
qed

lemmas run_ph = run_time HEADER_EXISTS_RE_def PARAM_EXISTS_RE_def HEADER_HAS_RE_def PARAM_HAS_RE_def
  PARAM_CMP_RE_def EQ_RE_def name_re_def

lemma no_time:
  "tryParseTimeCondition (js ''header('' @ t) = None"
  "tryParseTimeCondition (js ''param('' @ t) = None"
  "tryParseTimeCondition (js ''has('' @ t) = None"
  by (simp_all add: tryParseTimeCondition_def run_time)

lemma parse_exists:
  assumes "list_all not_quote p" "p \<noteq> []"
  shows "tryParseRequestCondition (js ''header(\"'' @ p @ js ''\")'' @ js '' != \"\"'') = Inr (Some (phCond True p MATCH_EXISTS []))"
    and "tryParseRequestCondition (js ''param(\"'' @ p @ js ''\")'' @ js '' != nil'') = Inr (Some (phCond False p MATCH_EXISTS []))"
  using assms by (simp_all add: tryParseRequestCondition_def tryParseTimeCondition_def run_ph unit_defs grp_def)

lemma parse_eq:
  assumes "list_all not_quote p" "p \<noteq> []" "list_all not_line_end l" "l \<noteq> []" "parseExprLiteral l = Some (JStr v)"
  shows "tryParseRequestCondition (js ''header(\"'' @ p @ js ''\")'' @ js '' == '' @ l) = Inr (Some (phCond True p MATCH_EQ v))"
    and "tryParseRequestCondition (js ''param(\"'' @ p @ js ''\")'' @ js '' == '' @ l) = Inr (Some (phCond False p MATCH_EQ v))"
  using assms
  by (simp_all add: tryParseRequestCondition_def tryParseTimeCondition_def parseEqCondition_def guardMatch_def
      run_ph unit_defs grp_def)

lemma run_string_end:
  assumes "list_all plain v"
  shows "run [Grp n string_re, Lit (js '')''), Eol] (pv, 34 # v @ [34, 41], cap) = [(Some 41, [], cap(n \<mapsto> 34 # v @ [34]))]"
  using string_re_run [OF assms, of "[41]" pv cap]
  by (simp add: run_Cons [of "Grp _ _"] js_def run_Lit run_Eol run_Nil adv_def)

lemma parse_has:
  assumes "list_all not_quote p" "p \<noteq> []" "list_all plain v"
  shows "tryParseRequestCondition (js ''has('' @ (js ''header(\"'' @ p @ js ''\")'') @ js '', \"'' @ v @ js ''\")'')
    = Inr (Some (phCond True p MATCH_CONTAINS v))"
proof -
  let ?t = "js ''has('' @ (js ''header(\"'' @ p @ js ''\")'') @ js '', \"'' @ v @ js ''\")''"
  have h: "re_match HEADER_HAS_RE ?t = Some [1 \<mapsto> p, 2 \<mapsto> 34 # v @ [34]]"
    using assms run_string_end [OF assms(3), of 2 "Some 32" "[1 \<mapsto> p]"]
    by (simp add: HEADER_HAS_RE_def name_re_def match_anchored run_Lit run_GrpPlus rx takeWhile_run js_def unit_defs adv_def)
  have "json_parse (quote v) = Some (JStr v)" using json_roundtrip [of "JStr v"] by simp
  then have j: "json_parse (34 # v @ [34]) = Some (JStr v)" using assms(3) by (simp add: quote_plain_text)
  have n: "re_match HEADER_EXISTS_RE ?t = None" "re_match PARAM_EXISTS_RE ?t = None"
    by (simp_all add: run_ph)
  show ?thesis
    unfolding tryParseRequestCondition_def no_time(3) n h using j by (simp add: parsedText_def grp_def)
qed

section \<open>Splitting at the top level\<close>

text \<open>Balanced text in which the unit \<open>x\<close> occurs only inside parentheses.\<close>

fun flat :: "nat \<Rightarrow> int \<Rightarrow> jsstr \<Rightarrow> bool" where
  "flat x d [] \<longleftrightarrow> d = 0"
| "flat x d (c # cs) \<longleftrightarrow>
     (let d1 = (if c = 40 then d + 1 else d);
          d2 = (if c = 41 then d1 - 1 else d1)
      in 0 \<le> d2 \<and> (c = x \<longrightarrow> d2 \<noteq> 0) \<and> flat x d2 cs)"

definition no_paren :: "nat \<Rightarrow> bool" where
  "no_paren c \<longleftrightarrow> c \<noteq> 40 \<and> c \<noteq> 41"

lemma flat_pass:
  "list_all no_paren w \<Longrightarrow> 0 \<le> d \<Longrightarrow> 0 < d \<or> x \<notin> set w \<Longrightarrow> flat x d (w @ t) = flat x d t"
  by (induction w) (auto simp: no_paren_def)

text \<open>Balanced text inside parentheses is passed over, whatever it contains.\<close>

lemma flat_inside: "flat x d e \<Longrightarrow> 0 < k \<Longrightarrow> flat y (d + k) (e @ t) = flat y k t"
proof (induction x d e rule: flat.induct)
  case (2 x d c cs)
  let ?d = "(if c = 41 then (if c = 40 then d + 1 else d) - 1 else if c = 40 then d + 1 else d)"
  from 2 have "0 \<le> ?d" "flat x ?d cs" by (auto simp: Let_def)
  moreover from this have "flat y (?d + k) (cs @ t) = flat y k t" using "2.IH" "2.prems"(2) by simp
  ultimately show ?case using "2.prems"(2) by (auto simp: Let_def algebra_simps split: if_splits)
qed simp

lemma flat_append: "flat x d a \<Longrightarrow> flat x 0 (a @ t) = flat x 0 t" if "d = 0"
proof -
  have "flat x e a \<Longrightarrow> 0 \<le> e \<Longrightarrow> flat x e (a @ t) = flat x 0 t" for e
    by (induction x e a rule: flat.induct) (auto simp: Let_def split: if_splits)
  then show "flat x d a \<Longrightarrow> flat x 0 (a @ t) = flat x 0 t" using that by simp
qed

lemma splitTop_pass:
  assumes "flat x d e" and "x \<noteq> 40" "x \<noteq> 41" and "e \<noteq> [] \<longrightarrow> last e \<noteq> 32"
  shows "splitTop (32 # x # r) cur d (e @ t) = splitTop (32 # x # r) (cur @ e) 0 t"
  using assms
proof (induction e arbitrary: d cur)
  case (Cons c cs)
  let ?d = "(if c = 41 then (if c = 40 then d + 1 else d) - 1 else if c = 40 then d + 1 else d)"
  have f: "flat x ?d cs" using Cons.prems(1) by (simp add: Let_def)
  have "\<not> (?d = 0 \<and> starts_with (32 # x # r) (c # cs @ t))"
  proof
    assume a: "?d = 0 \<and> starts_with (32 # x # r) (c # cs @ t)"
    then have "c = 32" and s: "starts_with (x # r) (cs @ t)" by auto
    then obtain y ys where y: "cs = y # ys" using Cons.prems(4) by (cases cs) auto
    with s have "y = x" by simp
    with f y a Cons.prems(2,3) show False by (simp add: Let_def)
  qed
  moreover have "splitTop (32 # x # r) (cur @ [c]) ?d (cs @ t) = splitTop (32 # x # r) (cur @ c # cs) 0 t"
    using Cons.IH [OF f] Cons.prems(2-4) by (cases cs) auto
  ultimately show ?case by (auto simp: Let_def)
qed auto

lemma splitTop_join:
  assumes "\<forall>e \<in> set es. flat x 0 e \<and> e \<noteq> [] \<and> last e \<noteq> 32" "es \<noteq> []" "x \<noteq> 40" "x \<noteq> 41"
  shows "splitTop (32 # x # r) [] 0 (join (32 # x # r) es) = map trim es"
  using assms(1,2)
proof (induction es)
  case (Cons e es)
  show ?case
  proof (cases es)
    case Nil
    then show ?thesis using Cons.prems splitTop_pass [of x 0 e r "[]" "[]"] assms(3,4) by simp
  next
    case (Cons e' es')
    have "join (32 # x # r) (e # es) = e @ (32 # x # r) @ join (32 # x # r) es" using Cons by simp
    then show ?thesis
      using Cons.IH Cons.prems Cons assms(3,4) splitTop_pass [of x 0 e r "[]" "(32 # x # r) @ join (32 # x # r) es"]
      by simp
  qed
qed simp

lemma trim_parts: "\<forall>e \<in> set es. trimmed e \<Longrightarrow> map trim es = es"
  by (simp add: map_idI trim_trimmed)

definition part_ok :: "nat \<Rightarrow> jsstr \<Rightarrow> bool" where
  "part_ok x e \<longleftrightarrow> flat x 0 e \<and> e \<noteq> [] \<and> trimmed e"

lemma part_last: "part_ok x e \<Longrightarrow> last e \<noteq> 32"
  by (auto simp: part_ok_def trimmed_def is_ws_def)

lemma splitTop_parts:
  assumes "\<forall>e \<in> set es. part_ok x e" "es \<noteq> []" "x \<noteq> 40" "x \<noteq> 41"
  shows "filter (\<lambda>w. w \<noteq> []) (splitTop (32 # x # r) [] 0 (join (32 # x # r) es)) = es"
proof -
  have "splitTop (32 # x # r) [] 0 (join (32 # x # r) es) = map trim es"
    using assms part_last by (intro splitTop_join) (auto simp: part_ok_def)
  also have "\<dots> = es" using assms(1) by (intro trim_parts) (simp add: part_ok_def)
  finally show ?thesis using assms(1) by (simp add: part_ok_def)
qed

lemma splitAnd_join: "\<forall>e \<in> set es. part_ok 38 e \<Longrightarrow> es \<noteq> [] \<Longrightarrow> splitTopLevelAnd (join (js '' && '') es) = es"
  using splitTop_parts [of es 38 "[38, 32]"] by (simp add: splitTopLevelAnd_def js_def)

lemma splitMultiply_join:
  "\<forall>e \<in> set es. part_ok 42 e \<Longrightarrow> es \<noteq> [] \<Longrightarrow> splitTopLevelMultiply (join (js '' * '') es) = es"
  using splitTop_parts [of es 42 "[32]"] by (simp add: splitTopLevelMultiply_def js_def)

section \<open>Factors\<close>

lemma star_any_fail:
  assumes "\<And>pv u v. t = u @ v \<Longrightarrow> k (pv, v, cap) = []"
  shows "concat (map k (rmatch (Star (Cls (\<lambda>_. True))) (pv, t, cap))) = []"
  using assms
proof (induction t arbitrary: pv)
  case Nil
  then show ?case by (simp only: star_Cls) simp
next
  case (Cons c t)
  have "concat (map k (rmatch (Star (Cls (\<lambda>_. True))) (Some c, t, cap))) = []"
    using Cons.prems by (intro Cons.IH) (metis append_Cons)
  then show ?case using Cons.prems [of "[]"] by (simp only: star_Cls) simp
qed

text \<open>A greedy dot stops at the last place where the rest of the pattern matches.\<close>

lemma star_any:
  assumes "\<And>pv u v. t = u @ v \<Longrightarrow> u \<noteq> [] \<Longrightarrow> k (pv, v, cap) = []"
  shows "\<exists>zs. concat (map k (rmatch (Star (Cls (\<lambda>_. True))) (pv, w @ t, cap))) = k (adv pv w, t, cap) @ zs"
proof (induction w arbitrary: pv)
  case Nil
  show ?case
  proof (cases t)
    case Nil
    then show ?thesis by (simp only: star_Cls append.simps) (simp add: adv_def)
  next
    case (Cons c t')
    have "concat (map k (rmatch (Star (Cls (\<lambda>_. True))) (Some c, t', cap))) = []"
      using assms [of "c # _"] Cons by (intro star_any_fail) auto
    then have "concat (map k (rmatch (Star (Cls (\<lambda>_. True))) (pv, t, cap))) = k (pv, t, cap)"
      unfolding Cons star_Cls if_True map_append concat_append by simp
    then show ?thesis by (auto simp: adv_def simp del: rmatch.simps)
  qed
next
  case (Cons c w)
  obtain zs where "concat (map k (rmatch (Star (Cls (\<lambda>_. True))) (Some c, w @ t, cap))) = k (adv (Some c) w, t, cap) @ zs"
    using Cons.IH by blast
  moreover have "adv (Some c) w = adv pv (c # w)" by (simp add: adv_def)
  ultimately show ?case by (simp only: star_Cls append.simps) simp
qed

lemma run_GrpAny:
  assumes "\<And>pv u v cap. t = u @ v \<Longrightarrow> u \<noteq> [] \<Longrightarrow> run rs (pv, v, cap) = []" and "w \<noteq> []"
  shows "\<exists>zs. run (Grp n (Plus (Cls (\<lambda>_. True))) # rs) (pv, w @ t, cap) = run rs (Some (last w), t, cap(n \<mapsto> w)) @ zs"
proof -
  obtain c w' where w: "w = c # w'" using assms(2) by (cases w) auto
  let ?k = "\<lambda>(pv', s', cap'). run rs (pv', s', cap'(n \<mapsto> take (length (w @ t) - length s') (w @ t)))"
  have "run (Grp n (Plus (Cls (\<lambda>_. True))) # rs) (pv, w @ t, cap)
      = concat (map ?k (rmatch (Star (Cls (\<lambda>_. True))) (Some c, w' @ t, cap)))"
    unfolding run_Cons Plus_def using w by (simp add: comp_def case_prod_unfold)
  moreover obtain zs where "concat (map ?k (rmatch (Star (Cls (\<lambda>_. True))) (Some c, w' @ t, cap)))
      = ?k (adv (Some c) w', t, cap) @ zs"
    using star_any [of t ?k cap "Some c" w'] assms(1) by auto
  ultimately show ?thesis using w by (auto simp: adv_def)
qed

lemma factor_match:
  assumes "k \<noteq> []" and "list_all num_unit m" "m \<noteq> []"
  shows "re_match FACTOR_RE (js ''('' @ k @ js '' ? '' @ m @ js '' : 1)'') = Some [1 \<mapsto> k, 2 \<mapsto> m]"
proof -
  let ?t = "js '' ? '' @ m @ js '' : 1)''"
  let ?rs = "[Lit (js '' ? ''), Grp 2 (Plus (Cls num_unit)), Lit (js '' : 1)''), Eol]"
  have q: "63 \<notin> set m" using assms(2) by (auto simp: list_all_iff unit_defs)
  have f: "run ?rs (pv, v, cap) = []" if t: "?t = u @ v" "u \<noteq> []" for pv u v cap
  proof -
    have "set (tl v) \<subseteq> set (tl (tl ?t))"
      using t by (cases u; cases "tl u"; cases v) (auto simp: js_def)
    then have "63 \<notin> set (tl v)" using q by (auto simp: js_def)
    then have "\<not> starts_with (js '' ? '') v" by (auto simp: js_def starts_with_iff)
    then show ?thesis by (simp add: run_Lit)
  qed
  have "run ?rs (pv, ?t, cap) = [(Some 41, [], cap(2 \<mapsto> m))]" for pv cap
    using assms by (simp add: run_Lit run_GrpPlus rx takeWhile_run js_def unit_defs adv_def)
  moreover obtain zs where "run (Grp 1 (Plus (Cls (\<lambda>_. True))) # ?rs) (Some 40, k @ ?t, Map.empty)
      = run ?rs (Some (last k), ?t, [1 \<mapsto> k]) @ zs"
    using run_GrpAny [of ?t ?rs k 1] f assms(1) by blast
  ultimately show ?thesis
    unfolding FACTOR_RE_def match_anchored by (simp add: run_Lit [of "[40]"] js_def adv_def)
qed

section \<open>Printed conditions\<close>

text \<open>Text that can stand anywhere in a rule.\<close>

definition harmless :: "jsstr \<Rightarrow> bool" where
  "harmless w \<longleftrightarrow> list_all no_paren w \<and> 38 \<notin> set w \<and> 124 \<notin> set w"

lemma plain_harmless: "list_all plain w \<Longrightarrow> harmless w"
  by (auto simp: harmless_def list_all_iff plain_def no_paren_def)

lemma numeric_harmless: "numeric w \<Longrightarrow> harmless w"
  using numeric_facts(1) [of w] by (auto simp: harmless_def list_all_iff unit_defs no_paren_def)

lemma num_unit_not_ws: "num_unit c \<Longrightarrow> \<not> is_ws c"
  by (rule printable_not_ws) (auto simp: unit_defs)

lemma numeric_last: "numeric w \<Longrightarrow> \<not> is_ws (last w)"
  using numeric_facts [of w] last_in_set [of w] by (simp add: list_all_iff num_unit_not_ws)

lemma literal_harmless:
  assumes "trimmed v" "list_all plain v"
  shows "harmless (buildExprLiteral MATCH_EQ v)" "\<not> is_ws (last (buildExprLiteral MATCH_EQ v))"
proof -
  have t: "trim v = v" using assms(1) by (rule trim_trimmed)
  have h: "harmless v" using assms(2) by (rule plain_harmless)
  then show "harmless (buildExprLiteral MATCH_EQ v)"
    unfolding buildExprLiteral_def t Let_def quote_plain_text [OF assms(2)] by (auto simp: harmless_def no_paren_def)
  have "buildExprLiteral MATCH_EQ v = v \<or> buildExprLiteral MATCH_EQ v = 34 # v @ [34]"
    unfolding buildExprLiteral_def t Let_def quote_plain_text [OF assms(2)] by simp
  then show "\<not> is_ws (last (buildExprLiteral MATCH_EQ v))"
  proof
    assume "buildExprLiteral MATCH_EQ v = v"
    with literal_roundtrip(2) [OF assms] assms(1) show ?thesis by (simp add: trimmed_def)
  next
    assume "buildExprLiteral MATCH_EQ v = 34 # v @ [34]"
    then show ?thesis by (simp add: is_ws_def)
  qed
qed

lemmas flat_text = harmless_def flat_pass js_def Let_def

lemma flat_time_text:
  assumes "recoverable (TimeCond c)"
  shows "flat 38 0 (time_text c)"
proof -
  have z: "harmless (tc_timezone c)" using assms plain_harmless by simp
  show ?thesis
  proof (cases "tc_mode c = MATCH_RANGE")
    case True
    with assms mode_distinct have "harmless (tc_rangeStart c)" "harmless (tc_rangeEnd c)"
      using numeric_harmless by auto
    then show ?thesis using True z flat_pass [of "tc_rangeEnd c" 0 38 "[]"] unfolding time_text_def
      by (cases "tc_timeFunc c") (simp_all add: flat_text)
  next
    case False
    with assms have "harmless (tc_value c)" using numeric_harmless by auto
    then show ?thesis using False z flat_pass [of "tc_value c" 0 38 "[]"] unfolding time_text_def timeModeOp_def
      by (cases "tc_timeFunc c") (simp_all add: flat_text)
  qed
qed

lemma flat_ph_text:
  assumes "recoverable (PHCond c)"
  shows "flat 38 0 (ph_text c)"
proof -
  have p: "harmless (ph_path c)" using assms plain_harmless by simp
  consider "ph_mode c = MATCH_EXISTS" | "ph_mode c = MATCH_EQ" "harmless (buildExprLiteral MATCH_EQ (ph_value c))"
    | "ph_mode c = MATCH_CONTAINS" "harmless (ph_value c)"
    using assms plain_harmless literal_harmless by auto
  then show ?thesis
    using p mode_distinct flat_pass [of "buildExprLiteral MATCH_EQ (ph_value c)" 0 38 "[]"]
    unfolding ph_text_def by cases (simp_all add: flat_text)
qed

lemma trimmed_time_text:
  assumes "recoverable (TimeCond c)"
  shows "time_text c \<noteq> [] \<and> trimmed (time_text c)"
proof -
  have n: "numeric (if tc_mode c = MATCH_RANGE then tc_rangeEnd c else tc_value c)"
    using assms mode_distinct by auto
  have "last (time_text c) = last (if tc_mode c = MATCH_RANGE then tc_rangeEnd c else tc_value c)"
    using numeric_facts(2) [OF n] by (cases "tc_mode c = MATCH_RANGE") (simp_all add: time_text_def Let_def)
  moreover have "time_text c \<noteq> [] \<and> 32 < hd (time_text c) \<and> hd (time_text c) < 127"
    by (cases "tc_timeFunc c") (simp_all add: time_text_def Let_def js_def)
  ultimately show ?thesis using numeric_last [OF n] printable_not_ws by (simp add: trimmed_def)
qed

lemma trimmed_ph_text:
  assumes "recoverable (PHCond c)"
  shows "ph_text c \<noteq> [] \<and> trimmed (ph_text c)"
proof -
  have h: "ph_text c \<noteq> [] \<and> 32 < hd (ph_text c) \<and> hd (ph_text c) < 127"
    by (simp add: ph_text_def Let_def js_def)
  consider "ph_mode c = MATCH_EXISTS" | "ph_mode c = MATCH_EQ" "trimmed (ph_value c)" "list_all plain (ph_value c)"
    | "ph_mode c = MATCH_CONTAINS"
    using assms by auto
  then have "\<not> is_ws (last (ph_text c))"
  proof cases
    case 2
    then show ?thesis using mode_distinct literal_harmless(2) literal_roundtrip(2)
      by (simp add: ph_text_def Let_def)
  qed (simp_all add: ph_text_def Let_def js_def is_ws_def mode_distinct [simplified])
  with h show ?thesis using printable_not_ws by (simp add: trimmed_def)
qed

lemma no_bar_wrap: "124 \<notin> set e \<Longrightarrow> wrapOr e = e"
  by (auto simp: wrapOr_def has_sub_iff js_def)

lemma ph_text_wrap:
  assumes "recoverable (PHCond c)"
  shows "wrapOr (ph_text c) = ph_text c"
proof (rule no_bar_wrap)
  have p: "124 \<notin> set (ph_path c)" using assms plain_harmless by (simp add: harmless_def)
  consider "ph_mode c = MATCH_EXISTS" | "ph_mode c = MATCH_EQ" "124 \<notin> set (buildExprLiteral MATCH_EQ (ph_value c))"
    | "ph_mode c = MATCH_CONTAINS" "124 \<notin> set (ph_value c)"
    using assms plain_harmless literal_harmless by (auto simp: harmless_def)
  then show "124 \<notin> set (ph_text c)"
    using p mode_distinct by cases (simp_all add: ph_text_def Let_def js_def)
qed

lemma parse_ph_text:
  assumes "recoverable (PHCond c)"
  shows "tryParseRequestCondition (ph_text c) = Inr (Some (PHCond c))"
proof -
  have p: "list_all not_quote (ph_path c)" "ph_path c \<noteq> []" using assms plain_not_quote by simp_all
  have c: "phCond (ph_header c) (ph_path c) (ph_mode c) (ph_value c) = PHCond c" by (simp add: phCond_def)
  consider "ph_mode c = MATCH_EXISTS" "ph_value c = []"
    | "ph_mode c = MATCH_EQ" "trimmed (ph_value c)" "list_all plain (ph_value c)"
    | "ph_mode c = MATCH_CONTAINS" "ph_header c" "list_all plain (ph_value c)"
    using assms by auto
  then show ?thesis
  proof cases
    case 1
    then show ?thesis using parse_exists [OF p] c by (cases "ph_header c") (simp_all add: ph_text_def)
  next
    case 2
    note l = literal_roundtrip [OF 2(2,3)]
    show ?thesis using parse_eq [OF p l(3,2,1)] c 2(1) mode_distinct
      by (cases "ph_header c") (simp_all add: ph_text_def)
  next
    case 3
    then show ?thesis using parse_has [OF p 3(3)] c mode_distinct by (simp add: ph_text_def)
  qed
qed

lemma timeMode_inverse: "m \<in> {MATCH_EQ, MATCH_GTE, MATCH_LT} \<Longrightarrow>
    timeOpMode (timeModeOp m) = m \<and> timeModeOp m \<in> {js ''=='', js ''>='', js ''<''}"
  using mode_distinct by (auto simp: timeOpMode_def timeModeOp_def js_def)

lemma timeFuncOf_name: "m 1 = Some (time_name f) \<Longrightarrow> timeFuncOf m = f"
  by (simp add: timeFuncOf_def grp_def time_of_name)

lemma parse_time_text:
  assumes "recoverable (TimeCond c)"
  shows "tryParseRequestCondition (time_text c) = Inr (Some (TimeCond c))
    \<and> tryParseRequestCondition (wrapOr (time_text c)) = Inr (Some (TimeCond c))
    \<and> wrapOr (time_text c) = (if tc_mode c = MATCH_RANGE then js ''('' @ time_text c @ js '')'' else time_text c)"
proof -
  have z: "list_all not_quote (tc_timezone c)" "tc_timezone c \<noteq> []" using assms plain_not_quote by simp_all
  have bar: "124 \<notin> set (tc_timezone c)" using assms plain_harmless by (simp add: harmless_def)
  show ?thesis
  proof (cases "tc_mode c = MATCH_RANGE")
    case True
    with assms mode_distinct have n: "numeric (tc_rangeStart c)" "numeric (tc_rangeEnd c)" "tc_value c = []" by auto
    let ?fn = "time_name (tc_timeFunc c) @ js ''(\"'' @ tc_timezone c @ js ''\")''"
    have t: "time_text c = ?fn @ js '' >= '' @ tc_rangeStart c @ js '' || '' @ ?fn @ js '' < '' @ tc_rangeEnd c"
      using True by (simp add: time_text_def Let_def)
    note facts = z numeric_facts(1) [OF n(1)] numeric_facts(2) [OF n(1)] numeric_facts(1) [OF n(2)] numeric_facts(2) [OF n(2)]
    let ?m = "[1 \<mapsto> time_name (tc_timeFunc c), 2 \<mapsto> tc_timezone c, 3 \<mapsto> tc_rangeStart c, 4 \<mapsto> tc_rangeEnd c]"
    have m: "rangeCondition ?m = TimeCond c"
      using True n(3) by (simp add: rangeCondition_def grp_def timeFuncOf_def time_of_name)
    have r: "re_match TIME_RANGE_RE (time_text c) = Some ?m"
      using parse_time_range [OF facts, of "tc_timeFunc c"] by (simp add: t)
    have p: "re_match TIME_RANGE_PAREN_RE (js ''('' @ time_text c @ js '')'') = Some ?m"
      using parse_time_range_paren [OF facts, of "tc_timeFunc c"] by (simp add: t)
    have q: "re_match TIME_RANGE_RE (js ''('' @ time_text c @ js '')'') = None"
      by (simp add: run_time)
    have w: "wrapOr (time_text c) = js ''('' @ time_text c @ js '')''"
      unfolding wrapOr_def has_sub_iff t by (simp, metis append_assoc)
    show ?thesis
      unfolding w tryParseRequestCondition_def tryParseTimeCondition_def r p q using m True by simp
  next
    case False
    with assms have n: "numeric (tc_value c)" "tc_mode c \<in> {MATCH_EQ, MATCH_GTE, MATCH_LT}"
      "tc_rangeStart c = []" "tc_rangeEnd c = []" by auto
    note o = timeMode_inverse [OF n(2)]
    have t: "time_text c = time_name (tc_timeFunc c) @ js ''(\"'' @ tc_timezone c @ js ''\")'' @ js '' ''
        @ timeModeOp (tc_mode c) @ js '' '' @ tc_value c"
      using False by (simp add: time_text_def Let_def)
    have "124 \<notin> set (time_text c)"
      using bar numeric_harmless [OF n(1)] o unfolding t
      by (cases "tc_timeFunc c") (auto simp: js_def harmless_def)
    then have w: "wrapOr (time_text c) = time_text c" by (rule no_bar_wrap)
    have "tryParseTimeCondition (time_text c) = Some (TimeCond c)"
      using parse_time_cmp [OF z numeric_facts [OF n(1)] conjunct2 [OF o], of "tc_timeFunc c"] o n(3,4)
      unfolding tryParseTimeCondition_def t by (simp add: grp_def timeFuncOf_def time_of_name)
    then show ?thesis unfolding w tryParseRequestCondition_def using False by simp
  qed
qed

lemma wrapped_part: "part_ok 38 e \<Longrightarrow> part_ok 38 (js ''('' @ e @ js '')'')"
  using flat_inside [of 38 0 e 1 38 "[41]"] by (simp add: part_ok_def js_def trimmed_def is_ws_def)

lemma condition_text:
  assumes "recoverable c"
  shows "tryParseRequestCondition (buildRequestConditionExpr c) = Inr (Some c)"
    and "tryParseRequestCondition (wrapOr (buildRequestConditionExpr c)) = Inr (Some c)"
    and "part_ok 38 (buildRequestConditionExpr c)" and "part_ok 38 (wrapOr (buildRequestConditionExpr c))"
proof -
  have "tryParseRequestCondition (buildRequestConditionExpr c) = Inr (Some c)
    \<and> tryParseRequestCondition (wrapOr (buildRequestConditionExpr c)) = Inr (Some c)
    \<and> part_ok 38 (buildRequestConditionExpr c) \<and> part_ok 38 (wrapOr (buildRequestConditionExpr c))"
  proof (cases c)
    case (TimeCond t)
    note r = assms [unfolded TimeCond]
    have p: "part_ok 38 (time_text t)" using flat_time_text [OF r] trimmed_time_text [OF r] by (simp add: part_ok_def)
    moreover have "part_ok 38 (wrapOr (time_text t))" using p parse_time_text [OF r] wrapped_part by simp
    ultimately show ?thesis unfolding TimeCond buildRequestConditionExpr.simps build_time_text [OF r]
      using parse_time_text [OF r] by blast
  next
    case (PHCond p)
    have "part_ok 38 (ph_text p)"
      using assms PHCond flat_ph_text trimmed_ph_text by (simp add: part_ok_def del: recoverable.simps)
    then show ?thesis
      using assms PHCond build_ph_text parse_ph_text ph_text_wrap by (simp del: recoverable.simps)
  qed
  then show "tryParseRequestCondition (buildRequestConditionExpr c) = Inr (Some c)"
    and "tryParseRequestCondition (wrapOr (buildRequestConditionExpr c)) = Inr (Some c)"
    and "part_ok 38 (buildRequestConditionExpr c)" and "part_ok 38 (wrapOr (buildRequestConditionExpr c))"
    by blast+
qed

section \<open>Printed groups\<close>

definition recoverable_group :: "RequestRuleGroup \<Rightarrow> bool" where
  "recoverable_group g \<longleftrightarrow> rg_conditions g \<noteq> [] \<and> list_all recoverable (rg_conditions g) \<and> numeric (rg_multiplier g)"

definition condition_parts :: "RequestRuleGroup \<Rightarrow> jsstr list" where
  "condition_parts g = (case rg_conditions g of [c] \<Rightarrow> [buildRequestConditionExpr c]
     | cs \<Rightarrow> map (\<lambda>c. wrapOr (buildRequestConditionExpr c)) cs)"

lemma parts_facts:
  assumes "recoverable_group g"
  shows "condition_parts g \<noteq> []" "\<forall>e \<in> set (condition_parts g). part_ok 38 e"
    "parseConditions (condition_parts g) = Inr (Some (rg_conditions g))"
proof -
  have r: "rg_conditions g \<noteq> []" "\<forall>c \<in> set (rg_conditions g). recoverable c"
    using assms by (simp_all add: recoverable_group_def list_all_iff)
  have trims: "trim e = e" if "part_ok 38 e" for e using that by (simp add: part_ok_def trim_trimmed)
  have many: "parseConditions (map (\<lambda>c. wrapOr (buildRequestConditionExpr c)) cs) = Inr (Some cs)"
    if "\<forall>c \<in> set cs. recoverable c" for cs
    using that by (induction cs) (simp_all add: trims condition_text)
  show "condition_parts g \<noteq> []" using r(1) by (auto simp: condition_parts_def split: list.splits)
  show "\<forall>e \<in> set (condition_parts g). part_ok 38 e"
    using r condition_text(3,4) by (auto simp: condition_parts_def split: list.splits)
  show "parseConditions (condition_parts g) = Inr (Some (rg_conditions g))"
    using r many [of "rg_conditions g"] condition_text(1,3) trims
    by (auto simp: condition_parts_def simp del: parseConditions.simps split: list.splits)
      (simp add: trims)
qed

lemma build_factor:
  assumes "recoverable_group g"
  shows "buildRuleGroupFactor g = js ''('' @ join (js '' && '') (condition_parts g) @ js '' ? '' @ rg_multiplier g @ js '' : 1)''"
proof -
  let ?es = "map buildRequestConditionExpr (rg_conditions g)"
  have "\<forall>e \<in> set ?es. e \<noteq> []"
    using assms condition_text(3) by (auto simp: recoverable_group_def list_all_iff part_ok_def)
  then have f: "filter (\<lambda>e. e \<noteq> []) ?es = ?es" by (simp add: filter_id_conv)
  have m: "trim (rg_multiplier g) = rg_multiplier g" "re_test NUMERIC_LITERAL_REGEX (rg_multiplier g)"
    using assms numeric_trim by (simp_all add: recoverable_group_def numeric_def)
  have "rg_conditions g \<noteq> []" using assms by (simp add: recoverable_group_def)
  then show ?thesis
    unfolding buildRuleGroupFactor_def f m(1) using m(2)
    by (cases "rg_conditions g"; cases "tl (rg_conditions g)") (simp_all add: condition_parts_def comp_def)
qed

lemma flat_joined:
  assumes "\<forall>e \<in> set es. flat 38 0 e"
  shows "flat 42 1 (join (js '' && '') es @ t) = flat 42 1 t"
  using assms
proof (induction es)
  case (Cons e es)
  have e: "flat 42 1 (e @ u) = flat 42 1 u" for u using flat_inside [of 38 0 e 1 42 u] Cons.prems by simp
  show ?case
  proof (cases es)
    case (Cons a as)
    have "flat 42 1 (js '' && '' @ u) = flat 42 1 u" for u by (simp add: js_def Let_def)
    with e Cons.IH Cons.prems show ?thesis by (simp add: Cons)
  qed (simp add: e)
qed simp

lemma factor_part:
  assumes "recoverable_group g"
  shows "part_ok 42 (buildRuleGroupFactor g)"
proof -
  have m: "list_all no_paren (rg_multiplier g)"
    using assms numeric_harmless by (simp add: recoverable_group_def harmless_def)
  have "flat 42 1 (js '' ? '' @ rg_multiplier g @ js '' : 1)'')"
    using flat_pass [OF m, of 1 42 "js '' : 1)''"] by (simp add: js_def Let_def)
  then have "flat 42 0 (buildRuleGroupFactor g)"
    unfolding build_factor [OF assms] using flat_joined [of "condition_parts g"] parts_facts(2) [OF assms]
    by (simp add: part_ok_def js_def [of "''(''"])
  then show ?thesis
    by (simp add: part_ok_def build_factor [OF assms] trimmed_def js_def is_ws_def)
qed

lemma parse_factor:
  assumes "recoverable_group g"
  shows "tryParseRuleGroupFactor (buildRuleGroupFactor g) = Inr (Some g)"
proof -
  have k: "join (js '' && '') (condition_parts g) \<noteq> []"
    using parts_facts [OF assms] by (cases "condition_parts g"; cases "tl (condition_parts g)") (auto simp: part_ok_def)
  have m: "list_all num_unit (rg_multiplier g)" "rg_multiplier g \<noteq> []"
    using assms numeric_facts by (simp_all add: recoverable_group_def)
  note split = splitAnd_join [OF parts_facts(2,1) [OF assms]]
  show ?thesis
    unfolding tryParseRuleGroupFactor_def build_factor [OF assms] factor_match [OF k m]
    using split parts_facts(3) [OF assms] assms by (simp add: grp_def recoverable_group_def)
qed

section \<open>Printed rules\<close>

lemma build_rules:
  assumes "\<forall>g \<in> set gs. recoverable_group g"
  shows "buildRequestRuleExpr gs = join (js '' * '') (map buildRuleGroupFactor gs)"
proof -
  have "\<forall>e \<in> set (map buildRuleGroupFactor gs). e \<noteq> []" using assms factor_part by (auto simp: part_ok_def)
  then show ?thesis by (simp add: buildRequestRuleExpr_def filter_id_conv)
qed

lemma parse_factors: "\<forall>g \<in> set gs. recoverable_group g \<Longrightarrow> parseFactors (map buildRuleGroupFactor gs) = Inr (Some gs)"
  by (induction gs) (simp_all add: parse_factor)

lemma join_parts:
  assumes "\<forall>e \<in> set es. part_ok x e" "es \<noteq> []"
  shows "trimmed (join sep es) \<and> join sep es \<noteq> []"
proof -
  have "join sep es \<noteq> [] \<and> hd (join sep es) = hd (hd es) \<and> last (join sep es) = last (last es)"
    using assms
  proof (induction es)
    case (Cons e es)
    then show ?case by (cases es) (auto simp: part_ok_def)
  qed simp
  moreover have "trimmed (hd es)" "hd es \<noteq> []" "trimmed (last es)" "last es \<noteq> []"
    using assms by (simp_all add: part_ok_def)
  ultimately show ?thesis by (simp add: trimmed_def)
qed

lemma parse_parts:
  assumes "\<forall>e \<in> set es. part_ok 42 e" "es \<noteq> []"
  shows "tryParseRequestRuleExpr (join (js '' * '') es) = parseFactors es"
  using join_parts [OF assms, of "js '' * ''"] splitMultiply_join [OF assms]
  by (simp add: tryParseRequestRuleExpr_def trim_trimmed)

lemma parse_rules:
  assumes "\<forall>g \<in> set gs. recoverable_group g"
  shows "tryParseRequestRuleExpr (buildRequestRuleExpr gs) = Inr (Some gs)"
proof (cases "gs = []")
  case True
  then show ?thesis by (simp add: buildRequestRuleExpr_def tryParseRequestRuleExpr_def)
next
  case False
  then show ?thesis
    unfolding build_rules [OF assms] using parse_parts [of "map buildRuleGroupFactor gs"] parse_factors [OF assms] assms
    by (simp add: factor_part)
qed

section \<open>Attaching and splitting\<close>

lemma match_ends_with:
  assumes "re_match (cat (Bol # rs @ [Lit l, Eol])) s \<noteq> None" and "re_over (\<lambda>_. True) (cat rs)"
  shows "\<exists>w. s = w @ l"
proof -
  from assms(1) obtain st where st: "st \<in> set (run (rs @ [Lit l, Eol]) (None, s, Map.empty))"
    unfolding match_anchored by (cases "run (rs @ [Lit l, Eol]) (None, s, Map.empty)") auto
  then obtain pv t cap where "(pv, t, cap) \<in> set (run rs (None, s, Map.empty))" "st \<in> set (run [Lit l, Eol] (pv, t, cap))"
    by (auto simp: run_append)
  moreover from this(2) have "t = l"
    by (auto simp: run_Lit run_Eol starts_with_iff split: if_splits)
  ultimately show ?thesis
    using rmatch_consumes [OF assms(2), of "(pv, t, cap)" "(None, s, Map.empty)"] by (auto simp: run_def consumes_def)
qed

lemma not_a_factor:
  assumes "\<not> ends_with (js '' : 1'') base"
  shows "re_match FACTOR_RE (js ''('' @ base @ js '')'') = None"
proof (rule ccontr)
  assume "re_match FACTOR_RE (js ''('' @ base @ js '')'') \<noteq> None"
  then have "\<exists>w. js ''('' @ base @ js '')'' = w @ js '' : 1)''"
    unfolding FACTOR_RE_def
    using match_ends_with [of "[Lit (js ''(''), Grp 1 (Plus (Cls (\<lambda>_. True))), Lit (js '' ? ''), Grp 2 (Plus (Cls num_unit))]"
        "js '' : 1)''" "js ''('' @ base @ js '')''"]
    by (simp add: cat_simps Plus_def list_all_iff)
  then obtain w where "40 # base = w @ [32, 58, 32, 49]" by (auto simp: js_def)
  then have "\<exists>v. base = v @ [32, 58, 32, 49]" by (cases w) auto
  then have "ends_with (js '' : 1'') base" by (auto simp: ends_with_def js_def)
  with assms show False by simp
qed

text \<open>Balanced text: every parenthesis closed, none closed too early.\<close>

definition balanced :: "jsstr \<Rightarrow> bool" where
  "balanced e = flat 40 0 e"

lemma outer_inside: "flat x d e \<Longrightarrow> 0 < k \<Longrightarrow> t \<noteq> [] \<Longrightarrow> outerLoop (d + k) (e @ t) = outerLoop k t"
proof (induction x d e rule: flat.induct)
  case (2 x d c cs)
  let ?d = "(if c = 41 then (if c = 40 then d + 1 else d) - 1 else if c = 40 then d + 1 else d)"
  from 2 have "0 \<le> ?d" "flat x ?d cs" by (auto simp: Let_def)
  moreover from this have "outerLoop (?d + k) (cs @ t) = outerLoop k t" using "2.IH" "2.prems"(2,3) by simp
  ultimately show ?case using "2.prems"(2) by (auto simp: Let_def algebra_simps split: if_splits)
qed simp

lemma full_parens: "balanced e \<Longrightarrow> hasFullOuterParens (js ''('' @ e @ js '')'')"
  using outer_inside [of 40 0 e 1 "[41]"] by (simp add: hasFullOuterParens_def balanced_def ends_with_def js_def)

lemma unwrap_parens: "balanced e \<Longrightarrow> unwrapOuterParens (js ''('' @ e @ js '')'') = unwrapOuterParens e"
proof -
  assume b: "balanced e"
  have "trim (js ''('' @ e @ js '')'') = js ''('' @ e @ js '')''" by (rule trim_trimmed) (simp add: trimmed_def js_def is_ws_def)
  then have "unwrapOuterParens (js ''('' @ e @ js '')'') = unwrapLoop (trim (butlast (tl (js ''('' @ e @ js '')''))))"
    unfolding unwrapOuterParens_def using full_parens [OF b] by (simp add: unwrapLoop.simps [of "js ''('' @ e @ js '')''"])
  then show ?thesis by (simp add: unwrapOuterParens_def js_def)
qed

text \<open>One round of the loop of \<open>unwrapOuterParens\<close>.\<close>

definition strip_parens :: "jsstr \<Rightarrow> jsstr" where
  "strip_parens s = trim (butlast (tl s))"

lemma full_parens_length:
  assumes "hasFullOuterParens s"
  shows "2 \<le> length s"
proof (cases s)
  case (Cons c cs)
  with assms show ?thesis by (cases cs) (auto simp: hasFullOuterParens_def ends_with_def)
qed (use assms in \<open>simp add: hasFullOuterParens_def\<close>)

lemma unwrapLoop_rounds:
  "\<exists>n. 2 * n \<le> length s \<and> unwrapLoop s = (strip_parens ^^ n) s \<and> \<not> hasFullOuterParens (unwrapLoop s)
    \<and> list_all (\<lambda>k. hasFullOuterParens ((strip_parens ^^ k) s)) [0..<n]"
proof (induction s rule: unwrapLoop.induct)
  case (1 s)
  show ?case
  proof (cases "hasFullOuterParens s")
    case True
    let ?t = "strip_parens s"
    from 1 [OF True, folded strip_parens_def] obtain n where n: "2 * n \<le> length ?t" "unwrapLoop ?t = (strip_parens ^^ n) ?t"
      "\<not> hasFullOuterParens (unwrapLoop ?t)" "list_all (\<lambda>k. hasFullOuterParens ((strip_parens ^^ k) ?t)) [0..<n]"
      by blast
    have u: "unwrapLoop s = unwrapLoop ?t"
      using True by (simp add: unwrapLoop.simps [of s] strip_parens_def)
    have "length ?t \<le> length s - 2"
      using trim_length [of "butlast (tl s)"] by (simp add: strip_parens_def)
    with n(1) full_parens_length [OF True] have len: "2 * Suc n \<le> length s" by simp
    have rounds: "list_all (\<lambda>k. hasFullOuterParens ((strip_parens ^^ k) s)) [0..<Suc n]"
    proof (unfold list_all_iff, intro ballI)
      fix k assume "k \<in> set [0..<Suc n]"
      then have "k < Suc n" by auto
      then show "hasFullOuterParens ((strip_parens ^^ k) s)"
        by (insert n(4) True, cases k) (auto simp: list_all_iff funpow_swap1)
    qed
    show ?thesis
      using n(2,3) u len rounds by (intro exI [of _ "Suc n"]) (simp add: funpow_swap1 del: upt_Suc)
  next
    case False
    then show ?thesis by (intro exI [of _ 0]) (simp add: unwrapLoop.simps [of s])
  qed
qed

lemma unwrap_none: "\<not> hasFullOuterParens (unwrapOuterParens e)"
  using unwrapLoop_rounds [of "trim e"] by (auto simp: unwrapOuterParens_def)

lemma combined_parts:
  assumes "base \<noteq> []" "trimmed base" "gs \<noteq> []" "\<forall>g \<in> set gs. recoverable_group g"
  shows "combineBillingExpr base (buildRequestRuleExpr gs)
    = join (js '' * '') ((js ''('' @ base @ js '')'') # map buildRuleGroupFactor gs)"
proof -
  note b = build_rules [OF assms(4)]
  have "trimmed (buildRequestRuleExpr gs) \<and> buildRequestRuleExpr gs \<noteq> []"
    unfolding b using join_parts [of "map buildRuleGroupFactor gs" 42] assms(3,4) factor_part by simp
  then show ?thesis
    using assms(1-3) by (simp add: combineBillingExpr_def trim_trimmed b join_Cons js_def)
qed

lemma partition_rules:
  assumes "\<forall>g \<in> set gs. recoverable_group g"
  shows "partitionParts (map buildRuleGroupFactor gs) = Inr (map buildRuleGroupFactor gs, [])"
  using assms
proof (induction gs)
  case (Cons g gs)
  have "tryParseRequestRuleExpr (buildRuleGroupFactor g) = Inr (Some [g])"
    using Cons.prems parse_rules [of "[g]"] build_rules [of "[g]"] by simp
  then show ?case using Cons by (simp add: isRulePart_def)
qed simp

text \<open>A guarded comparison of a request parameter: its two halves.\<close>

definition guard_text :: "jsstr \<Rightarrow> jsstr" where
  "guard_text path = js ''param(\"'' @ path @ js ''\")'' @ js '' != nil''"

definition compare_text :: "jsstr \<Rightarrow> jsstr \<Rightarrow> jsstr \<Rightarrow> jsstr" where
  "compare_text path mode v = js ''param(\"'' @ path @ js ''\") '' @ paramModeOp mode @ js '' '' @ v"

lemma build_comparison:
  assumes "list_all plain path" "trimmed path" "path \<noteq> []" "numeric v"
    and "mode \<in> {MATCH_GT, MATCH_GTE, MATCH_LT, MATCH_LTE}"
  shows "buildRequestConditionExpr (phCond False path mode v) = join (js '' && '') [guard_text path, compare_text path mode v]"
proof -
  have g: "given (Some w) = w" for w by (simp add: given_def)
  have "chosenMode SOURCE_PARAM (Some mode) MATCH_EQ = mode"
    using assms(5) by (simp add: chosenMode_def getRequestRuleMatchOptions_def g) metis
  then have n: "the_ph (normalizeCondition (Some (partial_ph \<lparr>ph_header = False, ph_path = path, ph_mode = mode, ph_value = v\<rparr>)))
      = \<lparr>ph_header = False, ph_path = path, ph_mode = mode, ph_value = v\<rparr>"
    by (simp add: normalizeCondition_def partial_ph_def g js_def)
  show ?thesis
    using assms mode_distinct numeric_trim [OF assms(4)]
    unfolding phCond_def buildRequestConditionExpr.simps buildParamHeaderExpr_def n guard_text_def compare_text_def
    by (auto simp: Let_def trim_trimmed quote_plain_text numeric_def js_def)
qed

lemma comparison_parts:
  assumes "list_all plain path" "numeric v"
  shows "part_ok 38 (guard_text path)" "part_ok 38 (compare_text path mode v)"
proof -
  have h: "harmless path" "harmless v" using assms plain_harmless numeric_harmless by simp_all
  show "part_ok 38 (guard_text path)"
    using h by (simp add: guard_text_def part_ok_def flat_text trimmed_def is_ws_def)
  have "paramModeOp mode \<in> {js ''>'', js ''>='', js ''<'', js ''<=''}" by (simp add: paramModeOp_def)
  then have "flat 38 0 (compare_text path mode v)"
    using h flat_pass [of v 0 38 "[]"] by (auto simp: compare_text_def flat_text)
  then show "part_ok 38 (compare_text path mode v)"
    using numeric_last [OF assms(2)] numeric_facts(2) [OF assms(2)]
    by (simp add: compare_text_def part_ok_def trimmed_def js_def is_ws_def [of 112])
qed

lemma comparison_unread:
  assumes "list_all plain path" "path \<noteq> []" "numeric v"
  shows "parseConditions [guard_text path, compare_text path mode v] = Inr None"
proof -
  note q = plain_not_quote [OF assms(1)]
  have "paramModeOp mode \<in> {js ''>'', js ''>='', js ''<'', js ''<=''}" by (simp add: paramModeOp_def)
  then have "tryParseRequestCondition (compare_text path mode v) = Inr None"
    using assms(2) q unfolding insert_iff empty_iff compare_text_def
    by (elim disjE FalseE)
      (simp_all add: tryParseRequestCondition_def tryParseTimeCondition_def parseEqCondition_def guardMatch_def run_ph unit_defs)
  moreover have "tryParseRequestCondition (guard_text path) = Inr (Some (phCond False path MATCH_EXISTS []))"
    unfolding guard_text_def using parse_exists(2) [OF q assms(2)] .
  ultimately show ?thesis
    using comparison_parts [OF assms(1,3)] by (simp add: part_ok_def trim_trimmed)
qed

section \<open>Properties\<close>

text \<open>
  C3. A rule that the editor prints is read back as the rule: for any groups whose conditions have
  plain names and values and one of the forms that both directions support, parsing the
  printed expression succeeds and gives the same groups in the same order.
\<close>

theorem rule_expr_roundtrip:
  assumes "\<forall>g \<in> set gs. recoverable_group g"
  shows "tryParseRequestRuleExpr (buildRequestRuleExpr gs) = Inr (Some gs)"
  using assms by (rule parse_rules)

definition night_rule :: RequestRuleGroup where
  "night_rule =
     \<lparr>rg_conditions =
        [TimeCond \<lparr>tc_timeFunc = Hour, tc_timezone = js ''UTC'', tc_mode = MATCH_RANGE, tc_value = [],
                    tc_rangeStart = js ''22'', tc_rangeEnd = js ''6''\<rparr>,
         phCond True (js ''x-tier'') MATCH_CONTAINS (js ''pro'')],
      rg_multiplier = js ''0.5''\<rparr>"

lemma night_recoverable: "recoverable_group night_rule"
  by code_simp

theorem rule_expr_roundtrip_witness:
  "tryParseRequestRuleExpr (buildRequestRuleExpr [night_rule]) = Inr (Some [night_rule])"
  using rule_expr_roundtrip [of "[night_rule]"] night_recoverable by simp

text \<open>
  A limit of the reader: a comparison of a request parameter is printed with a guard,
  \<open>param("n") != nil && param("n") > 5\<close>, the reader splits it at the top-level \<open>&&\<close> before it
  looks at the conditions, and no rule matches the second half alone. So the editor cannot
  read back any group that has such a comparison as its only condition, although a pattern
  for the guarded form exists.
\<close>

theorem param_comparison_not_read_back:
  assumes "list_all plain path" "trimmed path" "path \<noteq> []" "numeric v" "numeric m"
    and "mode \<in> {MATCH_GT, MATCH_GTE, MATCH_LT, MATCH_LTE}"
  shows "buildRequestRuleExpr [\<lparr>rg_conditions = [phCond False path mode v], rg_multiplier = m\<rparr>] \<noteq> []
    \<and> tryParseRequestRuleExpr
        (buildRequestRuleExpr [\<lparr>rg_conditions = [phCond False path mode v], rg_multiplier = m\<rparr>]) = Inr None"
proof -
  let ?ps = "[guard_text path, compare_text path mode v]"
  let ?k = "join (js '' && '') ?ps"
  let ?f = "js ''('' @ ?k @ js '' ? '' @ m @ js '' : 1)''"
  have t: "buildRequestRuleExpr [\<lparr>rg_conditions = [phCond False path mode v], rg_multiplier = m\<rparr>] = join (js '' * '') [?f]"
    using assms(5) numeric_trim [OF assms(5)] build_comparison [OF assms(1-4,6)]
    by (simp add: buildRequestRuleExpr_def buildRuleGroupFactor_def numeric_def js_def)
  note parts = comparison_parts [OF assms(1,4)]
  have "splitTopLevelAnd ?k = ?ps" by (rule splitAnd_join) (use parts in simp_all)
  moreover have "?k \<noteq> []" by (simp add: guard_text_def js_def)
  ultimately have f: "tryParseRuleGroupFactor ?f = Inr None"
    unfolding tryParseRuleGroupFactor_def
    using factor_match [of ?k m] numeric_facts [OF assms(5)] comparison_unread [OF assms(1,3,4)]
    by (simp add: grp_def del: parseConditions.simps)
  have "harmless m" using assms(5) by (rule numeric_harmless)
  then have "flat 42 0 ?f"
    using flat_joined [of ?ps "js '' ? '' @ m @ js '' : 1)''"] parts flat_pass [of m 1 42 "js '' : 1)''"]
    by (simp add: part_ok_def js_def [of "''(''"] harmless_def) (simp add: js_def Let_def)
  then have "part_ok 42 ?f" by (simp add: part_ok_def trimmed_def js_def is_ws_def)
  then show ?thesis using parse_parts [of "[?f]"] f unfolding t by (simp add: js_def)
qed

theorem param_comparison_not_read_back_witness:
  "tryParseRequestRuleExpr
     (buildRequestRuleExpr [\<lparr>rg_conditions = [phCond False (js ''n'') MATCH_GT (js ''5'')], rg_multiplier = js ''2''\<rparr>]) = Inr None"
proof -
  have "numeric (js ''5'')" "numeric (js ''2'')" by code_simp+
  then show ?thesis
    using param_comparison_not_read_back [of "js ''n''" "js ''5''" "js ''2''" MATCH_GT]
    by (simp add: js_def plain_def trimmed_def is_ws_def is_high_def is_low_def)
qed

lemma split_combined_parts:
  assumes "base \<noteq> []" "trimmed base" "balanced base" "\<not> ends_with (js '' : 1'') base"
    and "gs \<noteq> []" "\<forall>g \<in> set gs. recoverable_group g"
  shows "splitBillingExprAndRequestRules (combineBillingExpr base (buildRequestRuleExpr gs))
      = Inr \<lparr>billingExpr = unwrapOuterParens base, requestRuleExpr = buildRequestRuleExpr gs\<rparr>
    \<and> \<not> hasFullOuterParens (unwrapOuterParens base)"
proof -
  let ?b = "js ''('' @ base @ js '')''"
  let ?fs = "map buildRuleGroupFactor gs"
  have b: "part_ok 42 ?b"
    using flat_inside [of 40 0 base 1 42 "[41]"] assms(3)
    by (simp add: part_ok_def balanced_def trimmed_def js_def is_ws_def)
  have ok: "\<forall>e \<in> set (?b # ?fs). part_ok 42 e" using b assms(6) factor_part by simp
  have "tryParseRequestRuleExpr ?b = Inr None"
    using parse_parts [of "[?b]"] b not_a_factor [OF assms(4)] by (simp add: tryParseRuleGroupFactor_def)
  then have p: "partitionParts (?b # ?fs) = Inr (?fs, [?b])"
    using partition_rules [OF assms(6)] by (simp add: isRulePart_def)
  note join = join_parts [OF ok, of "js '' * ''"] and split = splitMultiply_join [OF ok]
  have "splitBillingExprAndRequestRules (join (js '' * '') (?b # ?fs))
      = Inr \<lparr>billingExpr = unwrapOuterParens ?b, requestRuleExpr = join (js '' * '') ?fs\<rparr>"
    using join split p assms(5) unfolding splitBillingExprAndRequestRules_def
    by (simp add: trim_trimmed Let_def del: partitionParts.simps)
  note this [folded combined_parts [OF assms(1,2,5,6)] build_rules [OF assms(6)], unfolded unwrap_parens [OF assms(3)]]
  then show ?thesis using unwrap_none by blast
qed

text \<open>
  Rules can be split off the price they were attached to. For a base price that is balanced and
  does not itself end like a rule, splitting the combined expression gives back the
  base, freed of its outer parentheses, and exactly the rules.
\<close>

theorem split_combined:
  assumes "base \<noteq> []" "trimmed base" "balanced base" "\<not> ends_with (js '' : 1'') base"
    and "gs \<noteq> []" "\<forall>g \<in> set gs. recoverable_group g"
  shows "splitBillingExprAndRequestRules (combineBillingExpr base (buildRequestRuleExpr gs))
      = Inr \<lparr>billingExpr = unwrapOuterParens base, requestRuleExpr = buildRequestRuleExpr gs\<rparr>
    \<and> \<not> hasFullOuterParens (unwrapOuterParens base)"
  by (rule split_combined_parts [OF assms])

theorem split_combined_witness:
  "splitBillingExprAndRequestRules (combineBillingExpr (js ''(p * 1 + c * 2)'') (buildRequestRuleExpr [night_rule]))
     = Inr \<lparr>billingExpr = js ''p * 1 + c * 2'', requestRuleExpr = buildRequestRuleExpr [night_rule]\<rparr>"
proof -
  have "unwrapOuterParens (js ''(p * 1 + c * 2)'') = js ''p * 1 + c * 2''" by code_simp
  moreover have "trimmed (js ''(p * 1 + c * 2)'')" "balanced (js ''(p * 1 + c * 2)'')"
    "\<not> ends_with (js '' : 1'') (js ''(p * 1 + c * 2)'')" by code_simp+
  ultimately show ?thesis
    using split_combined [of "js ''(p * 1 + c * 2)''" "[night_rule]"] night_recoverable by simp
qed


text \<open>A condition on a header whose quoted text has an unknown escape is not rejected: reading it throws.\<close>

lemma bad_escape_throws:
  "tryParseRequestRuleExpr (js ''(has(header(\"x\"), \"'' @ [92] @ js ''q\") ? 2 : 1)'') = Inl SyntaxError"
  by code_simp

end
