(* ===== verification/JsNumber.thy ===== *)
theory JsNumber
  imports JsJson
begin

text \<open>
  \<open>Number(x)\<close>. A number of the program is \<open>Num\<close> of an exact rational or \<open>NaN\<close>. The numeral
  \<open>Infinity\<close> counts as \<open>NaN\<close>, and the rounding of numerals to doubles is left out.
\<close>

datatype jsnum = NaN | Num rat

definition num_or0 :: "jsnum \<Rightarrow> rat" where
  "num_or0 n = (case n of Num r \<Rightarrow> r | NaN \<Rightarrow> 0)"

definition unsigned_number :: "jsstr \<Rightarrow> jsnum" where
  "unsigned_number t =
     (let ds = takeWhile is_digit t; rest = dropWhile is_digit t;
          point = starts_with [46] rest;
          fs = (if point then takeWhile is_digit (tl rest) else []);
          rest' = (if point then dropWhile is_digit (tl rest) else rest)
      in if ds = [] \<and> fs = [] then NaN
         else case parse_exp rest' of
                Some (e, []) \<Rightarrow> Num ((of_nat (digits_val ds) + frac_val fs) * e)
              | _ \<Rightarrow> NaN)"

definition js_number :: "jsstr \<Rightarrow> jsnum" where
  "js_number s =
     (if starts_with [45] s then (case unsigned_number (tl s) of Num r \<Rightarrow> Num (- r) | NaN \<Rightarrow> NaN)
      else if starts_with [43] s then unsigned_number (tl s)
      else unsigned_number s)"

text \<open>
  \<open>Number(x)\<close> of a text, restricted to finite results: surrounding white space is ignored, the empty
  text is 0, and besides decimal numbers there are the prefixes \<open>0x\<close>, \<open>0o\<close> and \<open>0b\<close>.
\<close>

definition radix_of :: "jsstr \<Rightarrow> nat option" where
  "radix_of p = (if p = js ''0x'' \<or> p = js ''0X'' then Some 16 else if p = js ''0o'' \<or> p = js ''0O'' then Some 8
     else if p = js ''0b'' \<or> p = js ''0B'' then Some 2 else None)"

definition text_number :: "jsstr \<Rightarrow> jsnum" where
  "text_number s =
     (let t = trim s
      in if t = [] then Num 0
         else case radix_of (take 2 t) of
                Some r \<Rightarrow> (if length t \<le> 2 then NaN
                           else case radix_value r 0 (drop 2 t) of Some n \<Rightarrow> Num (of_nat n) | None \<Rightarrow> NaN)
              | None \<Rightarrow> js_number t)"

text \<open>\<open>Number(x)\<close> of a JSON value: an array is converted through its text, an object never is a number.\<close>

fun json_number :: "json \<Rightarrow> jsnum" where
  "json_number JNull = Num 0"
| "json_number (JBool b) = Num (if b then 1 else 0)"
| "json_number (JNum r) = Num r"
| "json_number (JStr s) = text_number s"
| "json_number (JArr xs) = text_number (json_to_string (JArr xs))"
| "json_number (JObj ps) = NaN"

section \<open>Printed numbers\<close>

lemma unsigned_of_parse:
  assumes "parse_unsigned t = Some (r, [])"
  shows "unsigned_number t = Num r"
proof -
  let ?ds = "takeWhile is_digit t" and ?rest = "dropWhile is_digit t"
  from assms obtain f rest' e where ds: "?ds \<noteq> []" and f: "parse_frac ?rest = Some (f, rest')"
    and e: "parse_exp rest' = Some (e, [])" and r: "r = (of_nat (digits_val ?ds) + f) * e"
    by (auto simp: parse_unsigned_def Let_def split: if_splits option.splits)
  show ?thesis
  proof (cases ?rest)
    case Nil
    with f have "f = 0" "rest' = []" by (auto simp: parse_frac_def)
    with ds e r show ?thesis unfolding unsigned_number_def Let_def Nil by (simp add: frac_val_def)
  next
    case (Cons c cs)
    show ?thesis
    proof (cases "c = 46")
      case True
      with f Cons have "f = frac_val (takeWhile is_digit cs)" "rest' = dropWhile is_digit cs"
        by (auto simp: parse_frac_def Let_def split: if_splits)
      with ds e r Cons True show ?thesis by (simp add: unsigned_number_def Let_def)
    next
      case False
      with f Cons have "f = 0" "rest' = ?rest" by (auto simp: parse_frac_def)
      with ds e r Cons False show ?thesis by (simp add: unsigned_number_def Let_def frac_val_def)
    qed
  qed
qed

lemma js_number_num_str:
  assumes "decimal r"
  shows "js_number (num_str r) = Num r"
proof (cases "r < 0")
  case True
  have "decimal (- r)" using assms by (simp add: decimal_def)
  then have "parse_unsigned (pos_num_str (- r)) = Some (- r, [])"
    using parse_unsigned_pos [of "- r" "[]"] True by (simp add: closes_def)
  then show ?thesis using True unsigned_of_parse by (simp add: js_number_def num_str_def)
next
  case False
  then have "parse_unsigned (pos_num_str r) = Some (r, [])"
    using parse_unsigned_pos [of r "[]"] assms by (simp add: closes_def)
  moreover obtain c cs where "pos_num_str r = c # cs" "is_digit c" using pos_num_str_hd by blast
  ultimately show ?thesis using False unsigned_of_parse by (auto simp: js_number_def num_str_def is_digit_def)
qed

end
