(* ===== verification/TierExpr.thy ===== *)
theory TierExpr
  imports BillingExpr JsNumber
begin

text \<open>
  Tiered prices: the reader of \<open>features/pricing/lib/billing-expr.ts\<close> that the price display uses, and the
  printer and reader of the visual editor in \<open>features/pricing/lib/tier-expr.ts\<close>.

  The texts that the patterns capture are converted by \<open>js_number\<close>. The estimator \<open>evalExprLocally\<close> compiles its argument as
  JavaScript and is not modelled.
\<close>

section \<open>Numbers and patterns\<close>

text \<open>\<open>s.split(r)\<close> for a pattern without groups whose matches are not empty.\<close>

function re_split :: "regex \<Rightarrow> nat option \<Rightarrow> jsstr \<Rightarrow> jsstr list" where
  "re_split r pv s =
     (case re_search r pv s of
        None \<Rightarrow> [s]
      | Some (_, w, pv', s') \<Rightarrow>
          if length s' < length s
          then take (length s - length s' - length w) s # re_split r pv' s'
          else [s])"
  by pat_completeness auto
termination by (relation "measure (\<lambda>(r, pv, s). length s)") auto

declare re_split.simps [simp del]

definition ws :: regex where
  "ws = Star (Cls is_ws)"

definition num_re :: regex where
  "num_re = Plus (Cls num_unit)"

text \<open>\<open>[\d.eE+]\<close>, the class of the bounds in tier conditions.\<close>

definition bound_unit :: "nat \<Rightarrow> bool" where
  "bound_unit c \<longleftrightarrow> is_digit c \<or> c = 46 \<or> c = 101 \<or> c = 69 \<or> c = 43"

definition cond_var_re :: regex where
  "cond_var_re = alts [Lit (js ''p''), Lit (js ''c''), Lit (js ''len'')]"

definition cond_op_re :: regex where
  "cond_op_re = alts [Lit (js ''<''), Lit (js ''<=''), Lit (js ''>''), Lit (js ''>='')]"

definition one_cond :: "regex list" where
  "one_cond = [cond_var_re, ws, cond_op_re, ws, Plus (Cls bound_unit)]"

definition condGroup :: regex where
  "condGroup = Grp 1 (cat (one_cond @ [Star (cat ([ws, Lit (js ''&&''), ws] @ one_cond))]))"

definition cond_prefix :: regex where
  "cond_prefix = Opt (cat [condGroup, ws, Lit (js ''?''), ws])"

definition AND_RE :: regex where
  "AND_RE = cat [ws, Lit (js ''&&''), ws]"

definition COND_RE :: regex where
  "COND_RE = cat [Bol, Grp 1 cond_var_re, ws, Grp 2 cond_op_re, ws, Grp 3 (Plus (Cls bound_unit)), Eol]"

definition VERSION_RE :: regex where
  "VERSION_RE = cat [Bol, Lit (js ''v''), Grp 1 (Plus (Cls is_digit)), Lit (js '':''), Grp 2 (Star (Cls (\<lambda>_. True))), Eol]"

section \<open>Reading tiers for display\<close>

datatype CondVar = VarP | VarC | VarLen
datatype CondOp = OpLt | OpLe | OpGt | OpGe

primrec var_text :: "CondVar \<Rightarrow> jsstr" where
  "var_text VarP = js ''p''"
| "var_text VarC = js ''c''"
| "var_text VarLen = js ''len''"

primrec op_text :: "CondOp \<Rightarrow> jsstr" where
  "op_text OpLt = js ''<''"
| "op_text OpLe = js ''<=''"
| "op_text OpGt = js ''>''"
| "op_text OpGe = js ''>=''"

definition var_of :: "jsstr \<Rightarrow> CondVar" where
  "var_of w = (if w = js ''p'' then VarP else if w = js ''c'' then VarC else VarLen)"

definition op_of :: "jsstr \<Rightarrow> CondOp" where
  "op_of w = (if w = js ''<'' then OpLt else if w = js ''<='' then OpLe else if w = js ''>'' then OpGt else OpGe)"

record TierCondition =
  cond_var :: CondVar
  cond_op :: CondOp
  cond_value :: jsnum

record ParsedTier =
  tier_label :: jsstr
  tier_conditions :: "TierCondition list"
  tier_prices :: "(jsstr \<times> rat) list"

definition stripExprVersion :: "jsstr \<Rightarrow> jsnum \<times> jsstr" where
  "stripExprVersion exprStr =
     (if exprStr = [] then (Num 1, [])
      else case re_match VERSION_RE exprStr of
             Some m \<Rightarrow> (js_number (grp m 1), grp m 2)
           | None \<Rightarrow> (Num 1, exprStr))"

definition BILLING_VAR_REGEX :: regex where
  "BILLING_VAR_REGEX = cat [WordB, Grp 1 (alts (map (\<lambda>v. Lit (bv_key v)) BILLING_PRICING_VARS)),
     ws, Lit (js ''*''), ws, Grp 2 num_re]"

text \<open>The loop over the matches: the first coefficient of a variable counts.\<close>

fun collectCoeffs :: "captures list \<Rightarrow> (jsstr \<times> jsnum) list \<Rightarrow> (jsstr \<times> jsnum) list" where
  "collectCoeffs [] coeffs = coeffs"
| "collectCoeffs (m # ms) coeffs =
     collectCoeffs ms (if map_of coeffs (grp m 1) \<noteq> None then coeffs
                       else coeffs @ [(grp m 1, js_number (grp m 2))])"

definition parseTierBody :: "jsstr \<Rightarrow> (jsstr \<times> rat) list" where
  "parseTierBody bodyStr =
     (let coeffs = collectCoeffs (re_all BILLING_VAR_REGEX None bodyStr) []
      in map (\<lambda>(varName, field). (field, case map_of coeffs varName of Some n \<Rightarrow> num_or0 n | None \<Rightarrow> 0))
           BILLING_VAR_KEY_TO_FIELD)"

definition parseCondPart :: "jsstr \<Rightarrow> TierCondition list" where
  "parseCondPart cp =
     (case re_match COND_RE (trim cp) of
        Some m \<Rightarrow> [\<lparr>cond_var = var_of (grp m 1), cond_op = op_of (grp m 2), cond_value = js_number (grp m 3)\<rparr>]
      | None \<Rightarrow> [])"

definition parseConds :: "jsstr \<Rightarrow> TierCondition list" where
  "parseConds condStr = (if condStr = [] then [] else concat (map parseCondPart (re_split AND_RE None condStr)))"

definition TIER_RE :: regex where
  "TIER_RE = cat [cond_prefix, Lit (js ''tier(\"''), Grp 2 (Star (Cls not_quote)), Lit (js ''\",''), ws,
     Grp 3 (Plus (Cls (\<lambda>c. c \<noteq> 41))), Lit (js '')'')]"

definition parsedTier :: "captures \<Rightarrow> ParsedTier" where
  "parsedTier m = \<lparr>tier_label = grp m 2, tier_conditions = parseConds (grp m 1), tier_prices = parseTierBody (grp m 3)\<rparr>"

definition parseTiersFromExpr :: "jsstr \<Rightarrow> ParsedTier list" where
  "parseTiersFromExpr exprStr =
     (if exprStr = [] then []
      else map parsedTier (re_all TIER_RE None (snd (stripExprVersion exprStr))))"

section \<open>The visual editor\<close>

datatype CacheMode = CACHE_MODE_TIMED | CACHE_MODE_GENERIC

datatype cond_bound = BNum jsnum | BText jsstr

record TierConditionInput =
  in_var :: CondVar
  in_op :: CondOp
  in_value :: "cond_bound option"

record VisualTier =
  vt_label :: jsstr
  vt_conditions :: "TierConditionInput list"
  input_unit_cost :: jsnum
  output_unit_cost :: jsnum
  cache_mode :: CacheMode
  cache_read_unit_cost :: rat
  cache_create_unit_cost :: rat
  cache_create_1h_unit_cost :: rat
  image_unit_cost :: rat
  image_output_unit_cost :: rat
  audio_input_unit_cost :: rat
  audio_output_unit_cost :: rat

type_synonym VisualConfig = "VisualTier list"

text \<open>The argument \<open>Partial<VisualTier>\<close>: \<open>None\<close> where the field is absent.\<close>

record PartialTier =
  pt_label :: "jsstr option"
  pt_conditions :: "TierConditionInput list option"
  pt_input :: "jsnum option"
  pt_output :: "jsnum option"
  pt_cache_mode :: "CacheMode option"
  pt_cache_read :: "jsnum option"
  pt_cache_create :: "jsnum option"
  pt_cache_create_1h :: "jsnum option"
  pt_image :: "jsnum option"
  pt_image_output :: "jsnum option"
  pt_audio_input :: "jsnum option"
  pt_audio_output :: "jsnum option"

text \<open>\<open>Number(x) || 0\<close> of a field that may be absent.\<close>

definition cost_or0 :: "jsnum option \<Rightarrow> rat" where
  "cost_or0 v = (case v of Some n \<Rightarrow> num_or0 n | None \<Rightarrow> 0)"

definition getTierCacheMode :: "PartialTier \<Rightarrow> CacheMode" where
  "getTierCacheMode tier =
     (if pt_cache_mode tier = Some CACHE_MODE_TIMED then CACHE_MODE_TIMED
      else if pt_cache_mode tier = Some CACHE_MODE_GENERIC then CACHE_MODE_GENERIC
      else if cost_or0 (pt_cache_create_1h tier) > 0 then CACHE_MODE_TIMED else CACHE_MODE_GENERIC)"

text \<open>
  The spread of the argument comes after the label, the two base prices, the mode and the
  conditions and before the other prices: a given base price is kept as it is, even \<open>NaN\<close>.
\<close>

definition normalizeVisualTier :: "PartialTier \<Rightarrow> VisualTier" where
  "normalizeVisualTier tier =
     \<lparr>vt_label = (case pt_label tier of Some l \<Rightarrow> l | None \<Rightarrow> []),
      vt_conditions = (case pt_conditions tier of Some cs \<Rightarrow> cs | None \<Rightarrow> []),
      input_unit_cost = (case pt_input tier of Some n \<Rightarrow> n | None \<Rightarrow> Num 0),
      output_unit_cost = (case pt_output tier of Some n \<Rightarrow> n | None \<Rightarrow> Num 0),
      cache_mode = (case pt_cache_mode tier of Some cm \<Rightarrow> cm | None \<Rightarrow> getTierCacheMode tier),
      cache_read_unit_cost = cost_or0 (pt_cache_read tier),
      cache_create_unit_cost = cost_or0 (pt_cache_create tier),
      cache_create_1h_unit_cost = cost_or0 (pt_cache_create_1h tier),
      image_unit_cost = cost_or0 (pt_image tier),
      image_output_unit_cost = cost_or0 (pt_image_output tier),
      audio_input_unit_cost = cost_or0 (pt_audio_input tier),
      audio_output_unit_cost = cost_or0 (pt_audio_output tier)\<rparr>"

text \<open>A complete tier as an argument.\<close>

definition partial_of :: "VisualTier \<Rightarrow> PartialTier" where
  "partial_of t =
     \<lparr>pt_label = Some (vt_label t), pt_conditions = Some (vt_conditions t), pt_input = Some (input_unit_cost t),
      pt_output = Some (output_unit_cost t), pt_cache_mode = Some (cache_mode t),
      pt_cache_read = Some (Num (cache_read_unit_cost t)), pt_cache_create = Some (Num (cache_create_unit_cost t)),
      pt_cache_create_1h = Some (Num (cache_create_1h_unit_cost t)), pt_image = Some (Num (image_unit_cost t)),
      pt_image_output = Some (Num (image_output_unit_cost t)), pt_audio_input = Some (Num (audio_input_unit_cost t)),
      pt_audio_output = Some (Num (audio_output_unit_cost t))\<rparr>"

definition createDefaultVisualConfig :: VisualConfig where
  "createDefaultVisualConfig =
     [normalizeVisualTier \<lparr>pt_label = Some (js ''base''), pt_conditions = Some [], pt_input = Some (Num 0),
        pt_output = Some (Num 0), pt_cache_mode = Some CACHE_MODE_GENERIC, pt_cache_read = None,
        pt_cache_create = None, pt_cache_create_1h = None, pt_image = None, pt_image_output = None,
        pt_audio_input = None, pt_audio_output = None\<rparr>]"

definition normalizeVisualConfig :: "VisualConfig option \<Rightarrow> VisualConfig" where
  "normalizeVisualConfig config =
     (case config of
        None \<Rightarrow> createDefaultVisualConfig
      | Some tiers \<Rightarrow> if tiers = [] then createDefaultVisualConfig
                        else map (\<lambda>tier. normalizeVisualTier (partial_of tier)) tiers)"

definition bound_text :: "cond_bound \<Rightarrow> jsstr" where
  "bound_text b = (case b of BNum n \<Rightarrow> (case n of Num r \<Rightarrow> num_str r | NaN \<Rightarrow> js ''NaN'') | BText w \<Rightarrow> w)"

definition buildConditionStr :: "TierConditionInput list \<Rightarrow> jsstr" where
  "buildConditionStr conditions =
     join (js '' && '')
       (map (\<lambda>c. var_text (in_var c) @ js '' '' @ op_text (in_op c) @ js '' '' @ bound_text (the (in_value c)))
         (filter (\<lambda>c. in_value c \<noteq> None \<and> in_value c \<noteq> Some (BText [])) conditions))"

text \<open>The field that an entry of \<open>BILLING_CACHE_VAR_MAP\<close> names.\<close>

definition tier_field :: "VisualTier \<Rightarrow> jsstr \<Rightarrow> rat" where
  "tier_field t field =
     (if field = js ''cache_read_unit_cost'' then cache_read_unit_cost t
      else if field = js ''cache_create_unit_cost'' then cache_create_unit_cost t
      else if field = js ''cache_create_1h_unit_cost'' then cache_create_1h_unit_cost t
      else if field = js ''image_unit_cost'' then image_unit_cost t
      else if field = js ''image_output_unit_cost'' then image_output_unit_cost t
      else if field = js ''audio_input_unit_cost'' then audio_input_unit_cost t
      else if field = js ''audio_output_unit_cost'' then audio_output_unit_cost t
      else 0)"

definition term_text :: "jsstr \<Rightarrow> rat \<Rightarrow> jsstr" where
  "term_text v n = v @ js '' * '' @ num_str n"

definition buildTierBodyExpr :: "VisualTier \<Rightarrow> jsstr" where
  "buildTierBodyExpr tier =
     join (js '' + '')
       ([term_text (js ''p'') (num_or0 (input_unit_cost tier)), term_text (js ''c'') (num_or0 (output_unit_cost tier))]
        @ map (\<lambda>cv. term_text (snd cv) (tier_field tier (fst cv)))
            (filter (\<lambda>cv. tier_field tier (fst cv) \<noteq> 0) BILLING_CACHE_VAR_MAP))"

definition tier_text :: "jsstr \<Rightarrow> VisualTier \<Rightarrow> jsstr" where
  "tier_text label tier = js ''tier(\"'' @ label @ js ''\", '' @ buildTierBodyExpr tier @ js '')''"

definition label_or :: "jsstr \<Rightarrow> jsstr \<Rightarrow> jsstr" where
  "label_or label other = (if label = [] then other else label)"

definition tierPart :: "VisualTier list \<Rightarrow> nat \<Rightarrow> jsstr" where
  "tierPart tiers i =
     (let tier = tiers ! i;
          body = tier_text (label_or (vt_label tier) (js ''tier_'' @ nat_str (i + 1))) tier;
          cond = buildConditionStr (vt_conditions tier)
      in if i < length tiers - 1 \<and> cond \<noteq> [] then cond @ js '' ? '' @ body else body)"

definition generateExprFromVisualConfig :: "VisualConfig option \<Rightarrow> jsstr" where
  "generateExprFromVisualConfig config =
     (case config of
        None \<Rightarrow> js ''p * 0 + c * 0''
      | Some [] \<Rightarrow> js ''p * 0 + c * 0''
      | Some [tier] \<Rightarrow>
          (let body = tier_text (label_or (vt_label tier) (js ''default'')) tier;
               cond = buildConditionStr (vt_conditions tier)
           in if cond \<noteq> [] then cond @ js '' ? '' @ body @ js '' : p * 0 + c * 0'' else body)
      | Some tiers \<Rightarrow> join (js '' : '') (map (tierPart tiers) [0..<length tiers]))"

definition opt_term :: "jsstr \<Rightarrow> nat \<Rightarrow> regex" where
  "opt_term v n = Opt (cat [ws, Lit (js ''+''), ws, Lit v, ws, Lit (js ''*''), ws, Grp n num_re])"

fun opt_terms :: "nat \<Rightarrow> jsstr list \<Rightarrow> regex list" where
  "opt_terms n [] = []"
| "opt_terms n (v # vs) = opt_term v n # opt_terms (Suc n) vs"

definition bodyPat :: "nat \<Rightarrow> regex list" where
  "bodyPat n = [Lit (js ''p''), ws, Lit (js ''*''), ws, Grp n num_re, ws, Lit (js ''+''), ws, Lit (js ''c''), ws,
     Lit (js ''*''), ws, Grp (n + 1) num_re] @ opt_terms (n + 2) (map snd BILLING_CACHE_VAR_MAP)"

definition SINGLE_RE :: regex where
  "SINGLE_RE = cat (Bol # [Lit (js ''tier(\"''), Grp 1 (Star (Cls not_quote)), Lit (js ''\",''), ws]
     @ bodyPat 2 @ [Lit (js '')''), Eol])"

definition VISUAL_RE :: regex where
  "VISUAL_RE = cat ([cond_prefix, Lit (js ''tier(\"''), Grp 2 (Star (Cls not_quote)), Lit (js ''\",''), ws]
     @ bodyPat 3 @ [Lit (js '')'')])"

definition input_of :: "TierCondition \<Rightarrow> TierConditionInput" where
  "input_of c = \<lparr>in_var = cond_var c, in_op = cond_op c, in_value = Some (BNum (cond_value c))\<rparr>"

text \<open>The tier of a match whose label is group \<open>n - 1\<close> and whose prices start at group \<open>n\<close>.\<close>

definition matchedTier :: "nat \<Rightarrow> TierConditionInput list \<Rightarrow> captures \<Rightarrow> VisualTier" where
  "matchedTier n conds m =
     normalizeVisualTier
       \<lparr>pt_label = Some (grp m (n - 1)), pt_conditions = Some conds, pt_input = Some (js_number (grp m n)),
        pt_output = Some (js_number (grp m (n + 1))), pt_cache_mode = None,
        pt_cache_read = map_option js_number (m (n + 2)), pt_cache_create = map_option js_number (m (n + 3)),
        pt_cache_create_1h = map_option js_number (m (n + 4)), pt_image = map_option js_number (m (n + 5)),
        pt_image_output = map_option js_number (m (n + 6)), pt_audio_input = map_option js_number (m (n + 7)),
        pt_audio_output = map_option js_number (m (n + 8))\<rparr>"

definition strip_ws :: "jsstr \<Rightarrow> jsstr" where
  "strip_ws s = re_replace (Plus (Cls is_ws)) [] None s"

definition tryParseVisualConfig :: "jsstr option \<Rightarrow> VisualConfig option" where
  "tryParseVisualConfig exprStr =
     (case exprStr of
        None \<Rightarrow> None
      | Some [] \<Rightarrow> None
      | Some e \<Rightarrow>
          (let body = (case re_match VERSION_RE e of Some m \<Rightarrow> grp m 2 | None \<Rightarrow> e)
           in case re_match SINGLE_RE body of
                Some m \<Rightarrow> Some (normalizeVisualConfig (Some [matchedTier 2 [] m]))
              | None \<Rightarrow>
                  (let tiers = map (\<lambda>m. matchedTier 3 (map input_of (parseConds (grp m 1))) m)
                                 (re_all VISUAL_RE None body)
                   in if tiers = [] then None
                      else let cfg = normalizeVisualConfig (Some tiers)
                           in if strip_ws (generateExprFromVisualConfig (Some cfg)) \<noteq> strip_ws body then None
                              else Some cfg)))"

definition ESTIMATOR_VARS :: "jsstr list" where
  "ESTIMATOR_VARS = [js ''cr'', js ''cc'', js ''cc1h'', js ''img'', js ''img_o'', js ''ai'', js ''ao'']"

definition exprUsesExtraVars :: "jsstr \<Rightarrow> bool" where
  "exprUsesExtraVars exprStr =
     (exprStr \<noteq> [] \<and> re_test (cat [WordB, alts (map Lit ESTIMATOR_VARS), WordB]) exprStr)"

end
