(* ===== verification/TierRules.thy ===== *)
theory TierRules
  imports TierExpr BillingRules
begin

text \<open>
  What the tiered prices satisfy: a price that the visual editor prints is read back by the editor as the
  same tiers, and by the price display with the same labels, bounds and prices.
\<close>

section \<open>Numbers\<close>

lemma pos_num_units:
  assumes "0 \<le> r"
  shows "list_all bound_unit (pos_num_str r)"
proof -
  let ?f = "r - of_nat (nat \<lfloor>r\<rfloor>)"
  have "(of_nat (nat \<lfloor>r\<rfloor>) :: rat) = of_int \<lfloor>r\<rfloor>" using assms by simp
  then have "0 \<le> ?f" "?f < 1" by linarith+
  then have "list_all is_digit (frac_str max_frac ?f)" by (rule frac_str_digits)
  with nat_str_digits [of "nat \<lfloor>r\<rfloor>"] show ?thesis
    by (auto simp: pos_num_str_def Let_def list_all_iff bound_unit_def)
qed

lemma num_str_units: "list_all num_unit (num_str r)" "num_str r \<noteq> []"
proof -
  have "list_all bound_unit (pos_num_str (if r < 0 then - r else r))" by (rule pos_num_units) simp
  then show "list_all num_unit (num_str r)"
    by (auto simp: num_str_def list_all_iff bound_unit_def num_unit_def split: if_splits)
  show "num_str r \<noteq> []" using pos_num_str_hd [of r] by (auto simp: num_str_def)
qed

lemma num_str_bound: "0 \<le> r \<Longrightarrow> list_all bound_unit (num_str r)"
  using pos_num_units [of r] by (simp add: num_str_def)

section \<open>Steps of the patterns\<close>

lemma run_head:
  assumes "list_all P w" and "t = [] \<or> \<not> P (hd t)"
  shows "takeWhile P (w @ t) = w" "dropWhile P (w @ t) = t"
proof -
  have "takeWhile P (w @ t) = w \<and> dropWhile P (w @ t) = t"
    using assms by (cases t) (simp_all add: takeWhile_run takeWhile_all)
  then show "takeWhile P (w @ t) = w" "dropWhile P (w @ t) = t" by simp_all
qed

lemma ws_units: "\<not> is_ws c" if "num_unit c \<or> bound_unit c \<or> 32 < c \<and> c < 127"
  using that by (intro printable_not_ws) (auto simp: num_unit_def bound_unit_def is_digit_def)

lemma blocked_GrpPlus: "\<forall>c. P c \<longrightarrow> \<not> Q c \<Longrightarrow> blocked P (Grp n (Plus (Cls Q)) # rs)"
  by (simp add: blocked_def run_Cons Plus_def)

lemma blocked_num: "blocked is_ws (Grp n num_re # rs)" "blocked is_ws (Plus (Cls bound_unit) # rs)"
  using ws_units by (auto simp: num_re_def intro!: blocked_GrpPlus blocked_Plus)

lemma first_ws: "blocked is_ws rs \<Longrightarrow> first (ws # rs) (pv, s, cap) = first rs (adv pv (takeWhile is_ws s), dropWhile is_ws s, cap)"
  by (simp add: ws_def first_Star)

lemma run_ws: "blocked is_ws rs \<Longrightarrow> run (ws # rs) (pv, s, cap) = run rs (adv pv (takeWhile is_ws s), dropWhile is_ws s, cap)"
  by (simp add: ws_def run_Star)

lemma blocked_op: "blocked is_ws (cond_op_re # rs)"
  by (simp add: cond_op_re_def blocked_def run_Alt run_Lit js_def is_ws_def)

text \<open>A number of a price, followed by a space or a parenthesis.\<close>

lemma first_num:
  assumes "t = [] \<or> \<not> num_unit (hd t)" and "\<And>pv. first rs (pv, t, cap(n \<mapsto> num_str r)) = Some x"
  shows "first (Grp n num_re # rs) (pv, num_str r @ t, cap) = Some x"
  unfolding num_re_def
  by (rule first_GrpPlus) (use assms num_str_units [of r] run_head [OF num_str_units(1) assms(1)] in simp_all)

section \<open>The body of a tier\<close>

definition extra_keys :: "jsstr list" where
  "extra_keys = map snd BILLING_CACHE_VAR_MAP"

lemma extra_keys_eval:
  "extra_keys = [js ''cr'', js ''cc'', js ''cc1h'', js ''img'', js ''img_o'', js ''ai'', js ''ao'']"
  by code_simp

fun term_caps :: "nat \<Rightarrow> jsstr list \<Rightarrow> (jsstr \<Rightarrow> rat) \<Rightarrow> captures \<Rightarrow> captures" where
  "term_caps n [] f cap = cap"
| "term_caps n (v # vs) f cap = term_caps (Suc n) vs f (if f v = 0 then cap else cap(n \<mapsto> num_str (f v)))"

definition terms_text :: "jsstr list \<Rightarrow> (jsstr \<Rightarrow> rat) \<Rightarrow> jsstr" where
  "terms_text vs f = concat (map (\<lambda>v. if f v = 0 then [] else js '' + '' @ term_text v (f v)) vs)"

definition term_steps :: "jsstr \<Rightarrow> nat \<Rightarrow> regex list" where
  "term_steps v n = [ws, Lit (js ''+''), ws, Lit v, ws, Lit (js ''*''), ws, Grp n num_re]"

lemma opt_term_first:
  "first (opt_term v n # rs) st = (case first (term_steps v n @ rs) st of Some x \<Rightarrow> Some x | None \<Rightarrow> first rs st)"
  by (simp add: opt_term_def first_Opt first_cat term_steps_def)

lemma key_shape:
  assumes "v \<in> set extra_keys"
  shows "\<exists>c cs. v = c # cs \<and> \<not> is_ws c" "list_all is_word v"
  using assms by (auto simp: extra_keys_eval js_def is_ws_def is_word_def)

lemma term_present:
  assumes "v \<in> set extra_keys" and "t = [] \<or> \<not> num_unit (hd t)"
    and "\<And>pv. first rs (pv, t, cap(n \<mapsto> num_str r)) = Some x"
  shows "first (term_steps v n @ rs) (pv, js '' + '' @ term_text v r @ t, cap) = Some x"
proof -
  obtain c cs where v: "v = c # cs" "\<not> is_ws c" using key_shape(1) [OF assms(1)] by blast
  have "\<not> is_ws 43" "\<not> is_ws 42" by (simp_all add: is_ws_def)
  moreover obtain d ds where d: "num_str r = d # ds" "num_unit d" using num_str_units [of r] by (cases "num_str r") auto
  moreover have "\<not> is_ws d" using d(2) ws_units by blast
  moreover have "is_ws 32" by (simp add: is_ws_def)
  ultimately show ?thesis
    using first_num [OF assms(2,3)] v
    by (simp add: term_steps_def term_text_def js_def first_ws blocked_Lit blocked_num fx)
qed

lemma term_absent_key:
  assumes "v \<in> set extra_keys" "w \<in> set extra_keys" "v \<noteq> w"
  shows "run (term_steps v n @ rs) (pv, js '' + '' @ w @ js '' * '' @ u, cap) = []"
  using assms unfolding extra_keys_eval
  by (auto simp: term_steps_def js_def run_ws blocked_Lit run_Lit is_ws_def)

lemma term_absent_end: "run (term_steps v n @ rs) (pv, 41 # u, cap) = []"
  by (simp add: term_steps_def js_def run_ws blocked_Lit run_Lit is_ws_def)

text \<open>The text of the remaining terms starts with the next term that is there, or is empty.\<close>

lemma terms_text_cases:
  assumes "set vs \<subseteq> set extra_keys" "v \<notin> set vs"
  shows "terms_text vs f = [] \<or> (\<exists>w u. w \<in> set extra_keys \<and> v \<noteq> w \<and> terms_text vs f = js '' + '' @ w @ js '' * '' @ u)"
  using assms
proof (induction vs)
  case (Cons a vs)
  then show ?case by (cases "f a = 0") (auto simp: terms_text_def term_text_def)
qed (simp add: terms_text_def)

lemma terms_then_close: "\<not> num_unit (hd (terms_text vs f @ 41 # t)) \<and> terms_text vs f @ 41 # t \<noteq> []"
proof (induction vs)
  case (Cons a vs)
  then show ?case by (cases "f a = 0") (simp_all add: terms_text_def js_def num_unit_def is_digit_def)
qed (simp add: terms_text_def num_unit_def is_digit_def)

lemma first_terms:
  assumes "set vs \<subseteq> set extra_keys" "distinct vs"
    and "\<And>pv. first rs (pv, 41 # t, term_caps n vs f cap) = Some x"
  shows "first (opt_terms n vs @ rs) (pv, terms_text vs f @ 41 # t, cap) = Some x"
  using assms
proof (induction vs arbitrary: n cap pv)
  case Nil
  then show ?case by (simp add: terms_text_def)
next
  case (Cons v vs)
  let ?cap = "if f v = 0 then cap else cap(n \<mapsto> num_str (f v))"
  have ih: "first (opt_terms (Suc n) vs @ rs) (pv, terms_text vs f @ 41 # t, ?cap) = Some x" for pv
    using Cons.prems by (intro Cons.IH) simp_all
  show ?case
  proof (cases "f v = 0")
    case True
    have "first (term_steps v n @ opt_terms (Suc n) vs @ rs) (pv, terms_text vs f @ 41 # t, cap) = None"
      unfolding first_None using terms_text_cases [of vs v f] Cons.prems(1,2) term_absent_key [of v] term_absent_end by fastforce
    then show ?thesis using ih True by (simp add: terms_text_def opt_term_first)
  next
    case False
    have "first (term_steps v n @ opt_terms (Suc n) vs @ rs)
        (pv, js '' + '' @ term_text v (f v) @ terms_text vs f @ 41 # t, cap) = Some x"
      using Cons.prems(1) terms_then_close ih False by (intro term_present) auto
    then show ?thesis using False by (simp add: terms_text_def opt_term_first)
  qed
qed

definition body_text :: "rat \<Rightarrow> rat \<Rightarrow> (jsstr \<Rightarrow> rat) \<Rightarrow> jsstr" where
  "body_text a b f = js ''p * '' @ num_str a @ js '' + c * '' @ num_str b @ terms_text extra_keys f"

definition body_caps :: "nat \<Rightarrow> rat \<Rightarrow> rat \<Rightarrow> (jsstr \<Rightarrow> rat) \<Rightarrow> captures \<Rightarrow> captures" where
  "body_caps n a b f cap = term_caps (n + 2) extra_keys f (cap(n \<mapsto> num_str a, n + 1 \<mapsto> num_str b))"

lemma first_body:
  assumes "\<And>pv. first rs (pv, 41 # t, body_caps n a b f cap) = Some x"
  shows "first (bodyPat n @ rs) (pv, body_text a b f @ 41 # t, cap) = Some x"
proof -
  let ?terms = "terms_text extra_keys f @ 41 # t"
  obtain d ds where d: "num_str a = d # ds" "num_unit d" using num_str_units [of a] by (cases "num_str a") auto
  obtain e es where e: "num_str b = e # es" "num_unit e" using num_str_units [of b] by (cases "num_str b") auto
  have nws: "\<not> is_ws d" "\<not> is_ws e" "\<not> is_ws 43" "\<not> is_ws 42" "is_ws 32" "\<not> is_ws 99"
    using d(2) e(2) ws_units by (blast, blast, simp_all add: is_ws_def)
  have t: "first (opt_terms (n + 2) extra_keys @ rs) (pv, ?terms, cap(n \<mapsto> num_str a, n + 1 \<mapsto> num_str b)) = Some x" for pv
    using assms by (intro first_terms) (simp_all add: body_caps_def, simp add: extra_keys_eval js_def)
  have b: "first (Grp (n + 1) num_re # opt_terms (n + 2) extra_keys @ rs) (pv, num_str b @ ?terms, cap(n \<mapsto> num_str a)) = Some x" for pv
    using terms_then_close t by (intro first_num) auto
  have a: "first (Grp n num_re # [ws, Lit (js ''+''), ws, Lit (js ''c''), ws, Lit (js ''*''), ws, Grp (n + 1) num_re]
      @ opt_terms (n + 2) extra_keys @ rs) (pv, num_str a @ js '' + c * '' @ num_str b @ ?terms, cap) = Some x" for pv
  proof (rule first_num)
    show "js '' + c * '' @ num_str b @ ?terms = [] \<or> \<not> num_unit (hd (js '' + c * '' @ num_str b @ ?terms))"
      by (simp add: js_def num_unit_def is_digit_def)
    show "first ([ws, Lit (js ''+''), ws, Lit (js ''c''), ws, Lit (js ''*''), ws, Grp (n + 1) num_re]
        @ opt_terms (n + 2) extra_keys @ rs) (pv, js '' + c * '' @ num_str b @ ?terms, cap(n \<mapsto> num_str a)) = Some x" for pv
      using b e nws by (simp add: js_def first_ws blocked_Lit blocked_num fx)
  qed
  show ?thesis
    using a d nws by (simp add: bodyPat_def body_text_def extra_keys_def [symmetric] js_def first_ws blocked_Lit blocked_num fx)
qed

section \<open>Conditions\<close>

definition cond_ok :: "TierConditionInput \<Rightarrow> bool" where
  "cond_ok c \<longleftrightarrow> (case in_value c of Some (BNum (Num r)) \<Rightarrow> 0 \<le> r \<and> decimal r | _ \<Rightarrow> False)"

definition bound_of :: "TierConditionInput \<Rightarrow> rat" where
  "bound_of c = (case in_value c of Some (BNum (Num r)) \<Rightarrow> r | _ \<Rightarrow> 0)"

definition cond_text :: "TierConditionInput \<Rightarrow> jsstr" where
  "cond_text c = var_text (in_var c) @ js '' '' @ op_text (in_op c) @ js '' '' @ num_str (bound_of c)"

definition conds_text :: "TierConditionInput list \<Rightarrow> jsstr" where
  "conds_text cs = join (js '' && '') (map cond_text cs)"

lemma first_Plus_none: "s = [] \<or> \<not> P (hd s) \<Longrightarrow> first (Plus (Cls P) # rs) (pv, s, cap) = None"
  by (cases s) (simp_all add: first_None run_Cons Plus_def)

lemma bound_facts:
  assumes "cond_ok c"
  shows "0 \<le> bound_of c" "decimal (bound_of c)" "in_value c = Some (BNum (Num (bound_of c)))"
    "list_all bound_unit (num_str (bound_of c))" "num_str (bound_of c) \<noteq> []"
  using assms num_str_bound num_str_units(2)
  by (auto simp: cond_ok_def bound_of_def split: option.splits cond_bound.splits jsnum.splits)

lemma first_bound:
  assumes "cond_ok c" "t = [] \<or> \<not> bound_unit (hd t)"
  shows "first (Plus (Cls bound_unit) # rs) (pv, num_str (bound_of c) @ t, cap) = first rs (Some (last (num_str (bound_of c))), t, cap)
    \<or> first rs (Some (last (num_str (bound_of c))), t, cap) = None"
  using first_Plus [of bound_unit "num_str (bound_of c) @ t" rs pv cap] bound_facts(4,5) [OF assms(1)]
    run_head [OF bound_facts(4) [OF assms(1)] assms(2)] by (auto simp: adv_def)

lemma first_cond:
  assumes "cond_ok c" "t = [] \<or> \<not> bound_unit (hd t)"
    and "first rs (Some (last (num_str (bound_of c))), t, cap) = Some x"
  shows "first (one_cond @ rs) (pv, cond_text c @ t, cap) = Some x"
proof -
  have b: "first (Plus (Cls bound_unit) # rs) (pv, num_str (bound_of c) @ t, cap) = Some x" for pv
    using first_bound [OF assms(1,2), of rs pv cap] assms(3) by auto
  obtain d ds where d: "num_str (bound_of c) = d # ds" "bound_unit d"
    using bound_facts(4,5) [OF assms(1)] by (cases "num_str (bound_of c)") auto
  have nws: "\<not> is_ws d" "is_ws 32" "\<not> is_ws 60" "\<not> is_ws 61" "\<not> is_ws 62"
    using d(2) ws_units by (blast, simp_all add: is_ws_def)
  have eq: "\<not> bound_unit 61" by (simp add: bound_unit_def is_digit_def)
  show ?thesis
    using b d nws eq
    by (cases "in_var c"; cases "in_op c")
      (simp_all add: one_cond_def cond_text_def cond_var_re_def cond_op_re_def js_def first_ws blocked_num
        blocked_op [unfolded cond_op_re_def js_def, simplified] blocked_Lit fx first_Plus_none)
qed

lemma ws_lits: "is_ws 32" "\<not> is_ws 38" "\<not> is_ws 63" "\<not> is_ws 58" "\<not> is_ws 116"
  by (simp_all add: is_ws_def)

definition more_conds :: "regex list" where
  "more_conds = [ws, Lit (js ''&&''), ws] @ one_cond"

definition and_text :: "TierConditionInput list \<Rightarrow> jsstr" where
  "and_text cs = concat (map (\<lambda>c. js '' && '' @ cond_text c) cs)"

lemma conds_text_Cons: "conds_text (c # cs) = cond_text c @ and_text cs"
  by (induction cs arbitrary: c) (simp_all add: conds_text_def and_text_def)

lemma blocked_one_cond: "blocked is_ws (one_cond @ rs)"
  by (simp add: one_cond_def cond_var_re_def blocked_def run_Alt run_Lit js_def is_ws_def)

lemma cond_text_hd: "\<exists>d ds. cond_text c = d # ds \<and> \<not> is_ws d"
  by (cases "in_var c") (simp_all add: cond_text_def js_def is_ws_def)

lemma first_more:
  assumes "cond_ok c" "t = [] \<or> \<not> bound_unit (hd t)"
  shows "first more_conds (pv, js '' && '' @ cond_text c @ t, cap) = Some (Some (last (num_str (bound_of c))), t, cap)"
proof -
  obtain d ds where d: "cond_text c = d # ds" "\<not> is_ws d" using cond_text_hd by blast
  have "first one_cond (pv, cond_text c @ t, cap) = Some (Some (last (num_str (bound_of c))), t, cap)" for pv
    using first_cond [OF assms, of "[]" cap _ pv] by (simp add: first_Nil)
  then show ?thesis
    using d blocked_one_cond [of "[]"]
    by (simp add: more_conds_def js_def first_ws blocked_Lit fx ws_lits)
qed

lemma and_text_hd: "hd (and_text cs @ js '' ? '' @ u) = 32 \<and> and_text cs @ js '' ? '' @ u \<noteq> []"
  by (cases cs) (simp_all add: and_text_def js_def)

lemma first_star_conds:
  assumes "\<forall>c \<in> set cs. cond_ok c"
  shows "\<exists>pv'. first [Star (cat more_conds)] (pv, and_text cs @ js '' ? '' @ u, cap) = Some (pv', js '' ? '' @ u, cap)"
  using assms
proof (induction cs arbitrary: pv)
  case Nil
  have "run more_conds (pv, js '' ? '' @ u, cap) = []"
    by (simp add: more_conds_def js_def run_ws blocked_Lit run_Lit is_ws_def)
  then show ?case by (simp add: and_text_def first_Star_stop first_Nil)
next
  case (Cons c cs)
  let ?t = "and_text cs @ js '' ? '' @ u"
  have "\<not> bound_unit (hd ?t)" using and_text_hd [of cs u] by (simp add: bound_unit_def is_digit_def)
  then have f: "first more_conds (pv, js '' && '' @ cond_text c @ ?t, cap) = Some (Some (last (num_str (bound_of c))), ?t, cap)"
    using Cons.prems by (intro first_more) simp_all
  obtain pv' where "first [Star (cat more_conds)] (Some (last (num_str (bound_of c))), ?t, cap) = Some (pv', js '' ? '' @ u, cap)"
    using Cons by auto
  from first_Star_step [OF f _ this] show ?case by (auto simp: and_text_def)
qed

lemma first_prefix:
  assumes "cs \<noteq> []" "\<forall>c \<in> set cs. cond_ok c" "blocked is_ws rs" "u \<noteq> []" "\<not> is_ws (hd u)"
    and "\<And>pv. first rs (pv, u, cap(1 \<mapsto> conds_text cs)) = Some x"
  shows "first (cond_prefix # rs) (pv, conds_text cs @ js '' ? '' @ u, cap) = Some x"
proof -
  obtain c cs' where cs: "cs = c # cs'" using assms(1) by (cases cs) auto
  let ?t = "and_text cs' @ js '' ? '' @ u"
  have "\<not> bound_unit (hd ?t)" using and_text_hd [of cs' u] by (simp add: bound_unit_def is_digit_def)
  moreover obtain pv' where "first [Star (cat more_conds)] (Some (last (num_str (bound_of c))), ?t, cap) = Some (pv', js '' ? '' @ u, cap)"
    using first_star_conds [of cs' "Some (last (num_str (bound_of c)))" u cap] assms(2) cs by auto
  ultimately have "first (one_cond @ [Star (cat more_conds)]) (pv, cond_text c @ ?t, cap) = Some (pv', js '' ? '' @ u, cap)"
    using assms(2) cs by (intro first_cond) simp_all
  then obtain zs where m: "rmatch (cat (one_cond @ [Star (cat more_conds)])) (pv, cond_text c @ ?t, cap) = (pv', js '' ? '' @ u, cap) # zs"
    using rmatch_cat_first by blast
  have tk: "take (length (cond_text c @ ?t) - length (js '' ? '' @ u)) (cond_text c @ ?t) = conds_text cs"
    by (simp add: cs conds_text_Cons)
  have f: "first ([ws, Lit (js ''?''), ws] @ rs) (pv', js '' ? '' @ u, cap(1 \<mapsto> conds_text cs)) = Some x"
    using assms(3-6) by (cases u) (simp_all add: js_def first_ws blocked_Lit fx ws_lits)
  have "first (condGroup # [ws, Lit (js ''?''), ws] @ rs) (pv, cond_text c @ ?t, cap) = Some x"
    unfolding condGroup_def more_conds_def [symmetric] by (rule first_Grp [OF m]) (simp only: tk f)
  then show ?thesis
    by (simp add: cond_prefix_def first_Opt first_cat cs conds_text_Cons)
qed

lemma no_prefix:
  assumes "c \<notin> {112, 99, 108}"
  shows "first (cond_prefix # rs) (pv, c # u, cap) = first rs (pv, c # u, cap)"
proof -
  have "run (one_cond @ qs) (pv, c # u, cap) = []" for qs
    using assms by (simp add: one_cond_def cond_var_re_def run_Alt run_Lit js_def)
  then have "rmatch (cat (one_cond @ qs)) (pv, c # u, cap) = []" for qs by (simp add: run_def)
  then have "first (condGroup # qs) (pv, c # u, cap) = None" for qs
    by (simp add: first_None run_Cons condGroup_def)
  then show ?thesis by (simp add: cond_prefix_def first_Opt first_cat)
qed

section \<open>Tiers\<close>

lemma first_tier:
  assumes "list_all not_quote l" and "\<And>pv. first rs (pv, 41 # t, body_caps n a b f (cap(g \<mapsto> l))) = Some x"
  shows "first ([Lit (js ''tier(\"''), Grp g (Star (Cls not_quote)), Lit (js ''\",''), ws] @ bodyPat n @ rs)
    (pv, js ''tier(\"'' @ l @ js ''\", '' @ body_text a b f @ 41 # t, cap) = Some x"
proof -
  have b: "first (bodyPat n @ rs) (pv, body_text a b f @ 41 # t, cap(g \<mapsto> l)) = Some x" for pv
    using assms(2) by (rule first_body)
  have h: "\<exists>u. body_text a b f = 112 # u" by (simp add: body_text_def js_def)
  have k: "blocked is_ws (bodyPat n @ rs)" by (simp add: bodyPat_def js_def blocked_Lit is_ws_def)
  have q: "\<not> not_quote 34" "\<not> is_ws 112" by (simp_all add: not_quote_def is_ws_def)
  show ?thesis
    using b h k q takeWhile_run [OF assms(1), of 34] by (auto simp: js_def fx first_GrpStar blocked_Lit first_ws ws_lits)
qed

definition part_text :: "TierConditionInput list \<Rightarrow> jsstr \<Rightarrow> jsstr \<Rightarrow> jsstr" where
  "part_text cs l body = (if cs = [] then [] else conds_text cs @ js '' ? '') @ js ''tier(\"'' @ l @ js ''\", '' @ body @ js '')''"

definition part_caps :: "TierConditionInput list \<Rightarrow> captures" where
  "part_caps cs = (if cs = [] then Map.empty else [1 \<mapsto> conds_text cs])"

lemma first_part:
  assumes "\<forall>c \<in> set cs. cond_ok c"
    and "\<And>pv. first (Lit (js ''tier(\"'') # rs) (pv, js ''tier(\"'' @ u, part_caps cs) = Some x"
  shows "first (cond_prefix # Lit (js ''tier(\"'') # rs)
    (pv, (if cs = [] then [] else conds_text cs @ js '' ? '') @ js ''tier(\"'' @ u, Map.empty) = Some x"
proof (cases "cs = []")
  case True
  then show ?thesis using assms(2) [of pv] no_prefix [of 116 "Lit (js ''tier(\"'') # rs" pv] by (simp add: part_caps_def js_def)
next
  case False
  have "blocked is_ws (Lit (js ''tier(\"'') # rs)" by (simp add: js_def blocked_Lit ws_lits)
  then have "first (cond_prefix # Lit (js ''tier(\"'') # rs) (pv, conds_text cs @ js '' ? '' @ js ''tier(\"'' @ u, Map.empty) = Some x"
    using False assms by (intro first_prefix) (simp_all add: part_caps_def js_def ws_lits)
  with False show ?thesis by simp
qed

lemma first_visual:
  assumes "\<forall>c \<in> set cs. cond_ok c" "list_all not_quote l"
  shows "first ([cond_prefix, Lit (js ''tier(\"''), Grp 2 (Star (Cls not_quote)), Lit (js ''\",''), ws] @ bodyPat 3 @ [Lit (js '')'')])
    (pv, part_text cs l (body_text a b f) @ t, Map.empty) = Some (Some 41, t, body_caps 3 a b f ((part_caps cs)(2 \<mapsto> l)))"
proof -
  let ?x = "(Some 41, t, body_caps 3 a b f ((part_caps cs)(2 \<mapsto> l)))"
  have "first ([Lit (js ''tier(\"''), Grp 2 (Star (Cls not_quote)), Lit (js ''\",''), ws] @ bodyPat 3 @ [Lit (js '')'')])
      (pv, js ''tier(\"'' @ l @ js ''\", '' @ body_text a b f @ 41 # t, part_caps cs) = Some ?x" for pv
    by (rule first_tier [OF assms(2)]) (simp add: js_def fx adv_def)
  then show ?thesis
    using first_part [OF assms(1), of "[Grp 2 (Star (Cls not_quote)), Lit (js ''\",''), ws] @ bodyPat 3 @ [Lit (js '')'')]"
        "l @ js ''\", '' @ body_text a b f @ 41 # t" ?x pv]
    by (simp add: part_text_def js_def [of "'')''"])
qed

section \<open>Reading conditions\<close>

lemma cond_text_shape:
  assumes "cond_ok c"
  shows "38 \<notin> set (cond_text c)" "trimmed (cond_text c)" "cond_text c \<noteq> []"
proof -
  note b = bound_facts [OF assms]
  show "38 \<notin> set (cond_text c)"
    using b(4) by (cases "in_var c"; cases "in_op c") (auto simp: cond_text_def js_def list_all_iff bound_unit_def is_digit_def)
  obtain d ds where d: "cond_text c = d # ds" "\<not> is_ws d" using cond_text_hd by blast
  have "bound_unit (last (num_str (bound_of c)))" using b(4,5) by (simp add: list_all_iff)
  then have "\<not> is_ws (last (cond_text c))" using b(5) ws_units by (simp add: cond_text_def)
  with d show "trimmed (cond_text c)" "cond_text c \<noteq> []" by (simp_all add: trimmed_def)
qed

lemma parse_cond_part:
  assumes "cond_ok c"
  shows "parseCondPart (cond_text c) = [\<lparr>cond_var = in_var c, cond_op = in_op c, cond_value = Num (bound_of c)\<rparr>]"
proof -
  note b = bound_facts [OF assms]
  obtain d ds where d: "num_str (bound_of c) = d # ds" "bound_unit d"
    using b(4,5) by (cases "num_str (bound_of c)") auto
  have nws: "\<not> is_ws d" "is_ws 32" "\<not> is_ws 60" "\<not> is_ws 61" "\<not> is_ws 62"
    using d(2) ws_units by (blast, simp_all add: is_ws_def)
  have w: "takeWhile bound_unit (num_str (bound_of c)) = num_str (bound_of c)"
    "dropWhile bound_unit (num_str (bound_of c)) = []"
    using takeWhile_all [OF b(4)] by blast+
  have g: "first [Grp 3 (Plus (Cls bound_unit)), Eol] (pv, num_str (bound_of c), cap)
      = Some (Some (last (num_str (bound_of c))), [], cap(3 \<mapsto> num_str (bound_of c)))" for pv cap
    by (rule first_GrpPlus) (simp_all add: w b(5) fx adv_def)
  have none: "first (Grp 3 (Plus (Cls bound_unit)) # rs) (pv, 61 # u, cap) = None" for rs pv u cap
    by (simp add: first_None run_Cons Plus_def bound_unit_def is_digit_def)
  have k: "blocked is_ws (Grp 3 (Plus (Cls bound_unit)) # rs)" for rs
    using ws_units by (intro blocked_GrpPlus) blast
  have k2: "blocked is_ws (Grp 2 cond_op_re # rs)" for rs
    by (simp add: cond_op_re_def blocked_def run_GrpAlt run_GrpLit js_def is_ws_def)
  have "re_match COND_RE (cond_text c) = Some [1 \<mapsto> var_text (in_var c), 2 \<mapsto> op_text (in_op c), 3 \<mapsto> num_str (bound_of c)]"
    using g d nws none k k2 unfolding COND_RE_def match_first
    by (cases "in_var c"; cases "in_op c")
      (simp_all add: cond_text_def cond_var_re_def cond_op_re_def js_def first_ws fx)
  moreover have "trim (cond_text c) = cond_text c" using cond_text_shape(2) [OF assms] by (rule trim_trimmed)
  moreover have "var_of (var_text v) = v" "op_of (op_text p) = p" for v p
    by (cases v; simp add: var_of_def js_def) (cases p; simp add: op_of_def js_def)
  ultimately show ?thesis using js_number_num_str [OF b(2)] by (simp add: parseCondPart_def grp_def)
qed

lemma first_ws_end: "first [ws] (pv, s, cap) = Some (adv pv (takeWhile is_ws s), dropWhile is_ws s, cap)"
  unfolding ws_def using star_Cls_head [of is_ws pv s cap] first_Cons first_Nil by blast

lemma search_and:
  assumes "38 \<notin> set w" "w = [] \<or> \<not> is_ws (last w)" "u \<noteq> []" "\<not> is_ws (hd u)"
  shows "re_search AND_RE pv (w @ js '' && '' @ u) = Some (Map.empty, js '' && '', Some 32, u)"
  using assms(1,2)
proof (induction w arbitrary: pv)
  case Nil
  have "first [ws, Lit (js ''&&''), ws] (pv, js '' && '' @ u, Map.empty) = Some (Some 32, u, Map.empty)"
    using assms(3,4)
    by (cases u) (simp_all add: js_def first_ws blocked_Lit fx ws_lits adv_def first_ws_end)
  then show ?case unfolding AND_RE_def by (subst search_first) simp
next
  case (Cons c w)
  have "\<exists>d u'. dropWhile is_ws ((c # w) @ js '' && '' @ u) = d # u' \<and> d \<noteq> 38"
  proof (cases "\<exists>x \<in> set (c # w). \<not> is_ws x")
    case True
    then have "dropWhile is_ws (c # w) \<noteq> []" by (simp add: dropWhile_eq_Nil_conv)
    moreover have "set (dropWhile is_ws (c # w)) \<subseteq> set (c # w)" by (rule set_dropWhileD [THEN subsetI])
    ultimately show ?thesis using Cons.prems(1) True
      by (cases "dropWhile is_ws (c # w)") (auto simp: dropWhile_append)
  next
    case False
    then show ?thesis using Cons.prems(2) by (metis last_in_set list.distinct(1))
  qed
  then have "first [ws, Lit (js ''&&''), ws] (pv, (c # w) @ js '' && '' @ u, Map.empty) = None"
    by (auto simp: js_def first_ws blocked_Lit fx ws_lits)
  moreover have "w = [] \<or> \<not> is_ws (last w)" using Cons.prems(2) by (cases "w = []") simp_all
  ultimately show ?case using Cons.IH Cons.prems(1) unfolding AND_RE_def by (subst search_first) simp
qed

lemma search_and_none: "38 \<notin> set w \<Longrightarrow> re_search AND_RE pv w = None"
proof (induction w arbitrary: pv)
  case Nil
  show ?case unfolding AND_RE_def by (subst search_first) (simp add: js_def first_ws blocked_Lit ws_lits fx)
next
  case (Cons c w)
  have "38 \<notin> set (dropWhile is_ws (c # w))" using Cons.prems set_dropWhileD by metis
  then have "first [ws, Lit (js ''&&''), ws] (pv, c # w, Map.empty) = None"
    by (cases "dropWhile is_ws (c # w)") (auto simp: js_def first_ws blocked_Lit ws_lits fx)
  then show ?case using Cons unfolding AND_RE_def by (subst search_first) simp
qed

lemma split_conds:
  assumes "\<forall>c \<in> set cs. cond_ok c" "cs \<noteq> []"
  shows "re_split AND_RE pv (conds_text cs) = map cond_text cs"
  using assms
proof (induction cs arbitrary: pv)
  case (Cons c cs)
  note shape = cond_text_shape [of c]
  show ?case
  proof (cases cs)
    case Nil
    then show ?thesis using Cons.prems shape search_and_none
      by (subst re_split.simps) (simp add: conds_text_def)
  next
    case (Cons e es)
    let ?u = "conds_text cs"
    have t: "conds_text (c # cs) = cond_text c @ js '' && '' @ ?u" using Cons by (simp add: conds_text_def)
    obtain d ds where d: "cond_text e = d # ds" "\<not> is_ws d" using cond_text_hd by blast
    have u: "?u \<noteq> []" "\<not> is_ws (hd ?u)" using d Cons by (simp_all add: conds_text_Cons)
    have "re_search AND_RE pv (conds_text (c # cs)) = Some (Map.empty, js '' && '', Some 32, ?u)"
      unfolding t using Cons.prems shape u by (intro search_and) (simp_all add: trimmed_def)
    moreover have "re_split AND_RE (Some 32) ?u = map cond_text cs" using Cons.IH Cons.prems Cons by simp
    ultimately show ?thesis by (subst re_split.simps) (simp add: t)
  qed
qed simp

definition condition_of :: "TierConditionInput \<Rightarrow> TierCondition" where
  "condition_of c = \<lparr>cond_var = in_var c, cond_op = in_op c, cond_value = Num (bound_of c)\<rparr>"

lemma parse_conds:
  assumes "\<forall>c \<in> set cs. cond_ok c"
  shows "parseConds (if cs = [] then [] else conds_text cs) = map condition_of cs"
proof (cases "cs = []")
  case True
  then show ?thesis by (simp add: parseConds_def)
next
  case False
  then obtain c cs' where c: "cs = c # cs'" by (cases cs) auto
  then have "conds_text cs \<noteq> []" using assms cond_text_shape(3) by (simp add: conds_text_Cons)
  moreover have "concat (map parseCondPart (map cond_text cs)) = map condition_of cs"
    using assms by (induction cs) (simp_all add: parse_cond_part condition_of_def)
  ultimately show ?thesis using False split_conds [OF assms False] by (simp add: parseConds_def)
qed

section \<open>All tiers\<close>

text \<open>
  A global pattern on parts with a separator: each part is found at once, whatever follows, and the
  separator is skipped.
\<close>

lemma all_parts:
  assumes part: "\<And>x pv t. x \<in> set xs \<Longrightarrow> okp pv \<Longrightarrow> okt t \<Longrightarrow> first rs (pv, pt x @ t, Map.empty) = Some (pvf x, t, capf x)"
    and ne: "\<And>x. x \<in> set xs \<Longrightarrow> pt x \<noteq> []"
    and skip: "\<And>x u. re_search (cat rs) (pvf x) (sep @ u) = re_search (cat rs) (Some 32) u"
    and stop: "\<And>x. re_search (cat rs) (pvf x) tail = None"
    and ok: "okp (Some 32)" "okt tail" "\<And>u. okt (sep @ u)" and "xs \<noteq> []"
  shows "pre = [] \<and> okp pv \<or> pre = sep \<and> (\<exists>x. pv = pvf x) \<Longrightarrow>
    re_all (cat rs) pv (pre @ join sep (map pt xs) @ tail) = map capf xs"
  using part ne \<open>xs \<noteq> []\<close>
proof (induction xs arbitrary: pre pv)
  case (Cons x xs)
  let ?rest = "if xs = [] then tail else sep @ join sep (map pt xs) @ tail"
  have j: "join sep (map pt (x # xs)) @ tail = pt x @ ?rest" by (cases xs) simp_all
  have "re_search (cat rs) pv (pt x @ ?rest) = Some (capf x, pt x, pvf x, ?rest)" if "okp pv" for pv
    using Cons.prems(2) [of x pv ?rest] that ok(2,3) by (subst search_first) simp
  then have s: "re_search (cat rs) pv (pre @ pt x @ ?rest) = Some (capf x, pt x, pvf x, ?rest)"
    using Cons.prems(1) skip ok(1) by auto
  have l: "length ?rest < length (pre @ pt x @ ?rest)" using Cons.prems(3) by simp
  have "re_all (cat rs) (pvf x) ?rest = map capf xs"
  proof (cases "xs = []")
    case True
    then show ?thesis using stop by (simp add: re_all.simps)
  next
    case False
    have "re_all (cat rs) (pvf x) (sep @ join sep (map pt xs) @ tail) = map capf xs"
      using Cons.prems(2,3) False by (intro Cons.IH) auto
    then show ?thesis using False by simp
  qed
  then show ?case unfolding j using s l by (subst re_all.simps) simp
qed simp

lemma search_skip3:
  assumes "first rs (pv, a # b # c # u, Map.empty) = None" "first rs (Some a, b # c # u, Map.empty) = None"
    "first rs (Some b, c # u, Map.empty) = None"
  shows "re_search (cat rs) pv (a # b # c # u) = re_search (cat rs) (Some c) u"
  using assms by (subst search_first, simp, subst search_first, simp, subst search_first, simp)

lemma no_prefix_Nil: "first (cond_prefix # rs) (pv, [], cap) = first rs (pv, [], cap)"
proof -
  have "run (one_cond @ qs) (pv, [], cap) = []" for qs
    by (simp add: one_cond_def cond_var_re_def run_Alt run_Lit js_def)
  then have "rmatch (cat (one_cond @ qs)) (pv, [], cap) = []" for qs by (simp add: run_def)
  then have "first (condGroup # qs) (pv, [], cap) = None" for qs by (simp add: first_None run_Cons condGroup_def)
  then show ?thesis by (simp add: cond_prefix_def first_Opt first_cat)
qed

text \<open>Between tiers: neither a space nor a colon starts one.\<close>

lemma no_tier_here: "c \<in> {32, 58} \<Longrightarrow> first (cond_prefix # Lit (js ''tier(\"'') # rs) (pv, c # u, Map.empty) = None"
  by (auto simp: no_prefix js_def fx)

lemma between_tiers:
  "re_search (cat (cond_prefix # Lit (js ''tier(\"'') # rs)) pv (js '' : '' @ u) = re_search (cat (cond_prefix # Lit (js ''tier(\"'') # rs)) (Some 32) u"
  using search_skip3 [of "cond_prefix # Lit (js ''tier(\"'') # rs" pv 32 58 32 u] no_tier_here by (simp add: js_def)

lemma after_tiers: "re_search (cat (cond_prefix # Lit (js ''tier(\"'') # rs)) pv [] = None"
  by (subst search_first) (simp add: no_prefix_Nil js_def fx)

section \<open>Printed tiers\<close>

definition price_ok :: "jsnum \<Rightarrow> bool" where
  "price_ok n = (case n of Num a \<Rightarrow> decimal a | NaN \<Rightarrow> False)"

definition tier_ok :: "VisualTier \<Rightarrow> bool" where
  "tier_ok t \<longleftrightarrow> vt_label t \<noteq> [] \<and> list_all not_quote (vt_label t) \<and> list_all cond_ok (vt_conditions t)
     \<and> price_ok (input_unit_cost t) \<and> price_ok (output_unit_cost t)
     \<and> list_all decimal [cache_read_unit_cost t, cache_create_unit_cost t, cache_create_1h_unit_cost t,
          image_unit_cost t, image_output_unit_cost t, audio_input_unit_cost t, audio_output_unit_cost t]
     \<and> cache_mode t = (if cache_create_1h_unit_cost t > 0 then CACHE_MODE_TIMED else CACHE_MODE_GENERIC)"

definition extra_cost :: "VisualTier \<Rightarrow> jsstr \<Rightarrow> rat" where
  "extra_cost t v =
     (if v = js ''cr'' then cache_read_unit_cost t else if v = js ''cc'' then cache_create_unit_cost t
      else if v = js ''cc1h'' then cache_create_1h_unit_cost t else if v = js ''img'' then image_unit_cost t
      else if v = js ''img_o'' then image_output_unit_cost t else if v = js ''ai'' then audio_input_unit_cost t
      else audio_output_unit_cost t)"

definition tier_body :: "VisualTier \<Rightarrow> jsstr" where
  "tier_body t = body_text (num_or0 (input_unit_cost t)) (num_or0 (output_unit_cost t)) (extra_cost t)"

lemma join_filter:
  "join sep (a # map g (filter P xs)) = a @ concat (map (\<lambda>x. if P x then sep @ g x else []) xs)"
  by (induction xs arbitrary: a) (simp_all add: join_Cons)

lemma cache_var_map_eval:
  "BILLING_CACHE_VAR_MAP =
    [(js ''cache_read_unit_cost'', js ''cr''), (js ''cache_create_unit_cost'', js ''cc''),
     (js ''cache_create_1h_unit_cost'', js ''cc1h''), (js ''image_unit_cost'', js ''img''),
     (js ''image_output_unit_cost'', js ''img_o''), (js ''audio_input_unit_cost'', js ''ai''),
     (js ''audio_output_unit_cost'', js ''ao'')]"
  by code_simp

lemma field_names:
  "(js ''cache_create_unit_cost'' = js ''cache_read_unit_cost'') = False"
  "(js ''cache_create_1h_unit_cost'' = js ''cache_read_unit_cost'') = False"
  "(js ''cache_create_1h_unit_cost'' = js ''cache_create_unit_cost'') = False"
  "(js ''image_unit_cost'' = js ''cache_read_unit_cost'') = False"
  "(js ''image_unit_cost'' = js ''cache_create_unit_cost'') = False"
  "(js ''image_unit_cost'' = js ''cache_create_1h_unit_cost'') = False"
  "(js ''image_output_unit_cost'' = js ''cache_read_unit_cost'') = False"
  "(js ''image_output_unit_cost'' = js ''cache_create_unit_cost'') = False"
  "(js ''image_output_unit_cost'' = js ''cache_create_1h_unit_cost'') = False"
  "(js ''image_output_unit_cost'' = js ''image_unit_cost'') = False"
  "(js ''audio_input_unit_cost'' = js ''cache_read_unit_cost'') = False"
  "(js ''audio_input_unit_cost'' = js ''cache_create_unit_cost'') = False"
  "(js ''audio_input_unit_cost'' = js ''cache_create_1h_unit_cost'') = False"
  "(js ''audio_input_unit_cost'' = js ''image_unit_cost'') = False"
  "(js ''audio_input_unit_cost'' = js ''image_output_unit_cost'') = False"
  "(js ''audio_output_unit_cost'' = js ''cache_read_unit_cost'') = False"
  "(js ''audio_output_unit_cost'' = js ''cache_create_unit_cost'') = False"
  "(js ''audio_output_unit_cost'' = js ''cache_create_1h_unit_cost'') = False"
  "(js ''audio_output_unit_cost'' = js ''image_unit_cost'') = False"
  "(js ''audio_output_unit_cost'' = js ''image_output_unit_cost'') = False"
  "(js ''audio_output_unit_cost'' = js ''audio_input_unit_cost'') = False"
  by code_simp+

lemma key_names:
  "(js ''cc'' = js ''cr'') = False"
  "(js ''cc1h'' = js ''cr'') = False"
  "(js ''cc1h'' = js ''cc'') = False"
  "(js ''img'' = js ''cr'') = False"
  "(js ''img'' = js ''cc'') = False"
  "(js ''img'' = js ''cc1h'') = False"
  "(js ''img_o'' = js ''cr'') = False"
  "(js ''img_o'' = js ''cc'') = False"
  "(js ''img_o'' = js ''cc1h'') = False"
  "(js ''img_o'' = js ''img'') = False"
  "(js ''ai'' = js ''cr'') = False"
  "(js ''ai'' = js ''cc'') = False"
  "(js ''ai'' = js ''cc1h'') = False"
  "(js ''ai'' = js ''img'') = False"
  "(js ''ai'' = js ''img_o'') = False"
  "(js ''ao'' = js ''cr'') = False"
  "(js ''ao'' = js ''cc'') = False"
  "(js ''ao'' = js ''cc1h'') = False"
  "(js ''ao'' = js ''img'') = False"
  "(js ''ao'' = js ''img_o'') = False"
  "(js ''ao'' = js ''ai'') = False"
  by code_simp+

lemma field_costs:
  "tier_field t (js ''cache_read_unit_cost'') = extra_cost t (js ''cr'')"
  "tier_field t (js ''cache_create_unit_cost'') = extra_cost t (js ''cc'')"
  "tier_field t (js ''cache_create_1h_unit_cost'') = extra_cost t (js ''cc1h'')"
  "tier_field t (js ''image_unit_cost'') = extra_cost t (js ''img'')"
  "tier_field t (js ''image_output_unit_cost'') = extra_cost t (js ''img_o'')"
  "tier_field t (js ''audio_input_unit_cost'') = extra_cost t (js ''ai'')"
  "tier_field t (js ''audio_output_unit_cost'') = extra_cost t (js ''ao'')"
  by (simp_all only: tier_field_def extra_cost_def field_names key_names if_False if_True refl)

lemma field_cost: "cv \<in> set BILLING_CACHE_VAR_MAP \<Longrightarrow> tier_field t (fst cv) = extra_cost t (snd cv)"
  unfolding cache_var_map_eval list.set insert_iff empty_iff
  by (elim disjE FalseE) (simp_all only: fst_conv snd_conv field_costs)

lemma build_body: "buildTierBodyExpr t = tier_body t"
proof -
  have "concat (map (\<lambda>cv. if tier_field t (fst cv) \<noteq> 0 then js '' + '' @ term_text (snd cv) (tier_field t (fst cv)) else [])
      BILLING_CACHE_VAR_MAP) = terms_text extra_keys (extra_cost t)"
    unfolding terms_text_def extra_keys_def map_map
    by (rule arg_cong [where f = concat], rule map_cong [OF refl]) (simp add: field_cost)
  moreover have "term_text (js ''p'') a = js ''p * '' @ num_str a"
    "js '' + '' @ term_text (js ''c'') a = js '' + c * '' @ num_str a" for a
    by (simp_all add: term_text_def js_def)
  ultimately show ?thesis
    by (simp add: buildTierBodyExpr_def tier_body_def body_text_def join_Cons join_filter)
qed

lemma build_conds:
  assumes "list_all cond_ok cs"
  shows "buildConditionStr cs = (if cs = [] then [] else conds_text cs)"
proof -
  have "filter (\<lambda>c. in_value c \<noteq> None \<and> in_value c \<noteq> Some (BText [])) cs = cs"
    using assms bound_facts(3) by (intro filter_True) (auto simp: list_all_iff)
  moreover have "var_text (in_var c) @ js '' '' @ op_text (in_op c) @ js '' '' @ bound_text (the (in_value c)) = cond_text c"
    if "c \<in> set cs" for c
  proof -
    have "in_value c = Some (BNum (Num (bound_of c)))" using assms that bound_facts(3) by (simp add: list_all_iff)
    then have "bound_text (the (in_value c)) = num_str (bound_of c)" by (simp add: bound_text_def)
    then show ?thesis by (simp add: cond_text_def)
  qed
  ultimately show ?thesis by (simp add: buildConditionStr_def conds_text_def cong: map_cong)
qed

lemma conds_text_ne: "cs \<noteq> [] \<Longrightarrow> conds_text cs \<noteq> []"
  using cond_text_hd by (cases cs) (auto simp: conds_text_Cons, metis list.distinct(1))

definition tier_part :: "VisualTier \<Rightarrow> jsstr" where
  "tier_part t = part_text (vt_conditions t) (vt_label t) (tier_body t)"

lemma generate_many:
  assumes "\<forall>t \<in> set ts. tier_ok t" "length ts \<ge> 2" "vt_conditions (last ts) = []"
  shows "generateExprFromVisualConfig (Some ts) = join (js '' : '') (map tier_part ts)"
proof -
  have "tierPart ts i = tier_part (ts ! i)" if "i < length ts" for i
  proof -
    have ok: "tier_ok (ts ! i)" using assms(1) that by simp
    have "vt_conditions (ts ! i) = []" if "\<not> i < length ts - 1"
    proof -
      have "i = length ts - 1" "ts \<noteq> []" using that \<open>i < length ts\<close> by auto
      then show ?thesis using assms(3) by (simp add: last_conv_nth)
    qed
    moreover have "vt_label (ts ! i) \<noteq> []" "list_all cond_ok (vt_conditions (ts ! i))" using ok by (simp_all add: tier_ok_def)
    ultimately show ?thesis
      using build_conds [of "vt_conditions (ts ! i)"] conds_text_ne [of "vt_conditions (ts ! i)"]
      by (cases "i < length ts - 1")
        (simp_all add: tierPart_def tier_part_def part_text_def tier_text_def label_or_def build_body Let_def)
  qed
  then have "map (tierPart ts) [0..<length ts] = map tier_part ts"
    by (intro nth_equalityI) simp_all
  moreover obtain a b cs where "ts = a # b # cs" using assms(2) by (cases ts; cases "tl ts") auto
  ultimately show ?thesis by (simp add: generateExprFromVisualConfig_def)
qed

section \<open>Reading the tiers back\<close>

lemma term_caps_before: "k < n \<Longrightarrow> term_caps n vs f cap k = cap k"
  by (induction n vs f cap rule: term_caps.induct) auto

lemma term_caps_at:
  "i < length vs \<Longrightarrow> term_caps n vs f cap (n + i) = (if f (vs ! i) = 0 then cap (n + i) else Some (num_str (f (vs ! i))))"
proof (induction vs arbitrary: n cap i)
  case (Cons v vs)
  show ?case
  proof (cases i)
    case 0
    then show ?thesis by (simp add: term_caps_before)
  next
    case (Suc j)
    then show ?thesis using Cons.IH [of j "Suc n"] Cons.prems by simp
  qed
qed simp

definition fresh_above :: "nat \<Rightarrow> captures \<Rightarrow> bool" where
  "fresh_above n cap \<longleftrightarrow> (\<forall>k \<ge> n. cap k = None)"

lemma read_cost:
  assumes "decimal (f v)"
  shows "cost_or0 (map_option js_number (if f v = 0 then None else Some (num_str (f v)))) = f v"
  using js_number_num_str [OF assms] by (simp add: cost_or0_def num_or0_def)

lemma body_caps_at:
  assumes "fresh_above n cap" "i < 7"
  shows "body_caps n a b f cap (n + 2 + i) = (if f (extra_keys ! i) = 0 then None else Some (num_str (f (extra_keys ! i))))"
    and "body_caps n a b f cap n = Some (num_str a)" "body_caps n a b f cap (n + 1) = Some (num_str b)"
    and "k < n \<Longrightarrow> body_caps n a b f cap k = cap k"
proof -
  have "i < length extra_keys" using assms(2) by (simp add: extra_keys_eval)
  then show "body_caps n a b f cap (n + 2 + i) = (if f (extra_keys ! i) = 0 then None else Some (num_str (f (extra_keys ! i))))"
    using assms(1) by (simp add: body_caps_def term_caps_at fresh_above_def del: add_2_eq_Suc')
  show "body_caps n a b f cap n = Some (num_str a)" "body_caps n a b f cap (n + 1) = Some (num_str b)"
    and "k < n \<Longrightarrow> body_caps n a b f cap k = cap k"
    by (simp_all add: body_caps_def term_caps_before)
qed

lemma extra_at:
  "extra_keys ! 0 = js ''cr''" "extra_keys ! 1 = js ''cc''" "extra_keys ! 2 = js ''cc1h''" "extra_keys ! 3 = js ''img''"
  "extra_keys ! 4 = js ''img_o''" "extra_keys ! 5 = js ''ai''" "extra_keys ! 6 = js ''ao''"
  by (simp_all add: extra_keys_eval)

lemma extra_cost_at:
  "extra_cost t (js ''cr'') = cache_read_unit_cost t" "extra_cost t (js ''cc'') = cache_create_unit_cost t"
  "extra_cost t (js ''cc1h'') = cache_create_1h_unit_cost t" "extra_cost t (js ''img'') = image_unit_cost t"
  "extra_cost t (js ''img_o'') = image_output_unit_cost t" "extra_cost t (js ''ai'') = audio_input_unit_cost t"
  "extra_cost t (js ''ao'') = audio_output_unit_cost t"
  by (simp_all only: extra_cost_def key_names if_False if_True refl)

definition tier_caps :: "nat \<Rightarrow> VisualTier \<Rightarrow> captures \<Rightarrow> captures" where
  "tier_caps n t cap = body_caps n (num_or0 (input_unit_cost t)) (num_or0 (output_unit_cost t)) (extra_cost t) cap"

lemma matched_tier:
  assumes "tier_ok t" "0 < n" "fresh_above n cap" "cap (n - 1) = Some (vt_label t)"
  shows "matchedTier n (vt_conditions t) (tier_caps n t cap) = t"
proof -
  let ?m = "tier_caps n t cap"
  have at: "?m (n + 2 + i) = (if extra_cost t (extra_keys ! i) = 0 then None else Some (num_str (extra_cost t (extra_keys ! i))))"
    if "i < 7" for i
    unfolding tier_caps_def by (rule body_caps_at(1) [OF assms(3) that])
  have cost: "cost_or0 (map_option js_number (?m (n + 2 + i))) = extra_cost t (extra_keys ! i)"
    if "i < 7" "decimal (extra_cost t (extra_keys ! i))" for i
    unfolding at [OF that(1)] using that(2) by (rule read_cost)
  from assms(1) have d: "decimal (cache_read_unit_cost t)" "decimal (cache_create_unit_cost t)"
    "decimal (cache_create_1h_unit_cost t)" "decimal (image_unit_cost t)" "decimal (image_output_unit_cost t)"
    "decimal (audio_input_unit_cost t)" "decimal (audio_output_unit_cost t)" by (simp_all add: tier_ok_def)
  have idx: "n + 2 + 0 = n + 2" "n + 2 + 1 = n + 3" "n + 2 + 2 = n + 4" "n + 2 + 3 = n + 5" "n + 2 + 4 = n + 6"
    "n + 2 + 5 = n + 7" "n + 2 + 6 = n + 8" by simp_all
  have costs: "cost_or0 (map_option js_number (?m (n + 2))) = cache_read_unit_cost t"
    "cost_or0 (map_option js_number (?m (n + 3))) = cache_create_unit_cost t"
    "cost_or0 (map_option js_number (?m (n + 4))) = cache_create_1h_unit_cost t"
    "cost_or0 (map_option js_number (?m (n + 5))) = image_unit_cost t"
    "cost_or0 (map_option js_number (?m (n + 6))) = image_output_unit_cost t"
    "cost_or0 (map_option js_number (?m (n + 7))) = audio_input_unit_cost t"
    "cost_or0 (map_option js_number (?m (n + 8))) = audio_output_unit_cost t"
    using cost [of 0] cost [of 1] cost [of 2] cost [of 3] cost [of 4] cost [of 5] cost [of 6] d
    unfolding extra_at extra_cost_at idx by simp_all
  from assms(1) obtain a b where ab: "input_unit_cost t = Num a" "decimal a" "output_unit_cost t = Num b" "decimal b"
    by (cases "input_unit_cost t"; cases "output_unit_cost t") (simp_all add: tier_ok_def price_ok_def)
  have base: "grp ?m (n - 1) = vt_label t" "js_number (grp ?m n) = input_unit_cost t" "js_number (grp ?m (n + 1)) = output_unit_cost t"
    using ab assms(2,4) body_caps_at(2-4) [OF assms(3), of 0] js_number_num_str
    by (simp_all add: tier_caps_def grp_def num_or0_def)
  have "cache_mode t = (if cache_create_1h_unit_cost t > 0 then CACHE_MODE_TIMED else CACHE_MODE_GENERIC)"
    using assms(1) by (simp add: tier_ok_def)
  then show ?thesis
    using costs base by (cases t) (simp add: matchedTier_def normalizeVisualTier_def getTierCacheMode_def)
qed

lemma normalize_tier: "normalizeVisualTier (partial_of t) = t"
  by (cases t) (simp add: normalizeVisualTier_def partial_of_def getTierCacheMode_def cost_or0_def num_or0_def)

lemma normalize_config: "ts \<noteq> [] \<Longrightarrow> normalizeVisualConfig (Some ts) = ts"
  by (simp add: normalizeVisualConfig_def normalize_tier map_idI)

definition visual_rest :: "regex list" where
  "visual_rest = [Grp 2 (Star (Cls not_quote)), Lit (js ''\",''), ws] @ bodyPat 3 @ [Lit (js '')'')]"

lemma visual_re: "VISUAL_RE = cat (cond_prefix # Lit (js ''tier(\"'') # visual_rest)"
  by (simp add: VISUAL_RE_def visual_rest_def)

definition visual_caps :: "VisualTier \<Rightarrow> captures" where
  "visual_caps t = tier_caps 3 t ((part_caps (vt_conditions t))(2 \<mapsto> vt_label t))"

lemma all_tiers:
  assumes "\<forall>t \<in> set ts. tier_ok t" "ts \<noteq> []" "re_search VISUAL_RE (Some 41) tail = None"
  shows "re_all VISUAL_RE pv (join (js '' : '') (map tier_part ts) @ tail) = map visual_caps ts"
proof -
  have p: "first (cond_prefix # Lit (js ''tier(\"'') # visual_rest) (pv, tier_part t @ u, Map.empty) = Some (Some 41, u, visual_caps t)"
    if "tier_ok t" for t pv u
    using first_visual [of "vt_conditions t" "vt_label t" pv] that
    by (simp add: tier_ok_def list_all_iff tier_part_def tier_body_def visual_caps_def tier_caps_def visual_rest_def)
  show ?thesis
    unfolding visual_re
    by (rule all_parts [where okp = "\<lambda>_. True" and okt = "\<lambda>_. True" and pvf = "\<lambda>_. Some 41" and pre = "[]", simplified])
      (use assms p between_tiers in \<open>simp_all add: visual_re tier_part_def part_text_def js_def\<close>)
qed

lemma run_over_Eol:
  assumes "run (rs @ [Eol]) st \<noteq> []" "re_over P (cat rs)"
  shows "list_all P (fst (snd st))"
proof -
  from assms(1) obtain st2 where "st2 \<in> set (run (rs @ [Eol]) st)" by (cases "run (rs @ [Eol]) st") auto
  then obtain st1 where "st1 \<in> set (run rs st)" "fst (snd st1) = []"
    by (auto simp: run_append run_Eol split: if_splits)
  with rmatch_consumes [OF assms(2), of st1 st] show ?thesis by (auto simp: run_def consumes_def)
qed

lemma single_other_start: "c \<noteq> 116 \<Longrightarrow> re_match SINGLE_RE (c # u) = None"
  by (simp add: SINGLE_RE_def match_anchored run_Lit js_def)

lemma single_more_tiers:
  assumes "list_all not_quote l" "34 \<in> set v"
  shows "re_match SINGLE_RE (js ''tier(\"'' @ l @ js ''\", '' @ v) = None"
proof -
  let ?body = "ws # bodyPat 2 @ [Lit (js '')'')]"
  have "re_over (\<lambda>c. c \<noteq> 34) (cat ?body)"
    by (simp add: bodyPat_def extra_keys_def [symmetric] extra_keys_eval opt_term_def Opt_def num_re_def Plus_def
        ws_def cat_simps js_def is_ws_def num_unit_def is_digit_def)
  then have n: "run (?body @ [Eol]) (pv, 32 # v, cap) = []" for pv cap
    using run_over_Eol [of ?body "(pv, 32 # v, cap)" "\<lambda>c. c \<noteq> 34"] assms(2) by (auto simp: list_all_iff)
  have q: "\<not> not_quote 34" by (simp add: not_quote_def)
  then have "run ([Lit (js ''tier(\"''), Grp 1 (Star (Cls not_quote)), Lit (js ''\",'')] @ ?body @ [Eol])
      (None, js ''tier(\"'' @ l @ js ''\", '' @ v, Map.empty) = []"
    using n takeWhile_run [OF assms(1) q] by (simp add: js_def run_Lit Grp_longest blocked_Lit)
  then show ?thesis by (simp add: SINGLE_RE_def match_anchored)
qed

lemma no_version: "c \<noteq> 118 \<Longrightarrow> re_match VERSION_RE (c # u) = None"
  by (simp add: VERSION_RE_def match_anchored run_Lit js_def)

lemma cond_text_start: "\<exists>c u. cond_text e = c # u \<and> c \<notin> {116, 118}"
  by (cases "in_var e") (simp_all add: cond_text_def js_def)

lemma tier_part_start:
  "\<exists>c u. tier_part t = c # u \<and> c \<noteq> 118 \<and> (c = 116 \<longrightarrow> vt_conditions t = [])"
proof (cases "vt_conditions t")
  case Nil
  then show ?thesis by (simp add: tier_part_def part_text_def js_def)
next
  case (Cons e es)
  then show ?thesis using cond_text_start [of e] by (auto simp: tier_part_def part_text_def conds_text_Cons)
qed

text \<open>What the loop over the matches makes of the tiers that were printed.\<close>

lemma read_tiers:
  assumes "tier_ok t"
  shows "matchedTier 3 (map input_of (parseConds (grp (visual_caps t) 1))) (visual_caps t) = t"
proof -
  have ok: "\<forall>c \<in> set (vt_conditions t). cond_ok c" using assms by (simp add: tier_ok_def list_all_iff)
  let ?cap = "(part_caps (vt_conditions t))(2 \<mapsto> vt_label t)"
  have fresh: "fresh_above 3 ?cap" by (simp add: fresh_above_def part_caps_def)
  have "visual_caps t 1 = ?cap 1" unfolding visual_caps_def tier_caps_def by (rule body_caps_at(4) [OF fresh, of 0]) simp_all
  then have "grp (visual_caps t) 1 = (if vt_conditions t = [] then [] else conds_text (vt_conditions t))"
    by (simp add: grp_def part_caps_def)
  then have "parseConds (grp (visual_caps t) 1) = map condition_of (vt_conditions t)" using parse_conds [OF ok] by simp
  moreover have "map input_of (map condition_of (vt_conditions t)) = vt_conditions t"
    unfolding map_map
  proof (rule map_idI)
    fix c assume "c \<in> set (vt_conditions t)"
    then have "in_value c = Some (BNum (Num (bound_of c)))" using ok bound_facts(3) by simp
    then show "(input_of \<circ> condition_of) c = c" by (cases c) (simp add: input_of_def condition_of_def)
  qed
  ultimately show ?thesis
    unfolding visual_caps_def using matched_tier [OF assms _ fresh] by simp
qed

lemma visual_path:
  assumes "\<forall>t \<in> set ts. tier_ok t" "ts \<noteq> []" "re_search VISUAL_RE (Some 41) tail = None"
    and "e = join (js '' : '') (map tier_part ts) @ tail" "re_match SINGLE_RE e = None"
    and "generateExprFromVisualConfig (Some ts) = e"
  shows "tryParseVisualConfig (Some e) = Some ts"
proof -
  obtain t ts' where t: "ts = t # ts'" using assms(2) by (cases ts) auto
  obtain c u where c: "tier_part t = c # u" "c \<noteq> 118" using tier_part_start by blast
  then obtain u' where e: "e = c # u'" using assms(4) t by (cases ts') auto
  have v: "re_match VERSION_RE e = None" using no_version c(2) e by simp
  have "map (\<lambda>m. matchedTier 3 (map input_of (parseConds (grp m 1))) m) (re_all VISUAL_RE None e) = ts"
    unfolding assms(4) all_tiers [OF assms(1-3)] map_map using assms(1) read_tiers by (intro map_idI) simp
  then show ?thesis
    using v e assms(2,5,6) normalize_config [OF assms(2)] by (simp add: tryParseVisualConfig_def Let_def)
qed

definition config_ok :: "VisualConfig \<Rightarrow> bool" where
  "config_ok ts \<longleftrightarrow> ts \<noteq> [] \<and> list_all tier_ok ts \<and> (length ts \<ge> 2 \<longrightarrow> vt_conditions (last ts) = [])"

lemma generate_one:
  assumes "tier_ok t"
  shows "generateExprFromVisualConfig (Some [t])
    = tier_part t @ (if vt_conditions t = [] then [] else js '' : p * 0 + c * 0'')"
proof -
  have "vt_label t \<noteq> []" "list_all cond_ok (vt_conditions t)" using assms by (simp_all add: tier_ok_def)
  then show ?thesis
    using build_conds [of "vt_conditions t"] conds_text_ne [of "vt_conditions t"]
    by (simp add: generateExprFromVisualConfig_def tier_part_def part_text_def tier_text_def label_or_def build_body Let_def)
qed

lemma fallback_no_tier: "re_search VISUAL_RE (Some 41) (js '' : p * 0 + c * 0'') = None"
  by code_simp

lemma single_tier:
  assumes "tier_ok t" "vt_conditions t = []"
  shows "tryParseVisualConfig (Some (tier_part t)) = Some [t]"
proof -
  let ?cap = "[1 \<mapsto> vt_label t]"
  have l: "list_all not_quote (vt_label t)" using assms(1) by (simp add: tier_ok_def)
  have p: "tier_part t = js ''tier(\"'' @ vt_label t @ js ''\", '' @ tier_body t @ [41]"
    using assms(2) by (simp add: tier_part_def part_text_def js_def [of "'')''"])
  have "first ([Lit (js ''tier(\"''), Grp 1 (Star (Cls not_quote)), Lit (js ''\",''), ws] @ bodyPat 2 @ [Lit (js '')''), Eol])
      (None, js ''tier(\"'' @ vt_label t @ js ''\", '' @ tier_body t @ [41], Map.empty) = Some (Some 41, [], tier_caps 2 t ?cap)"
    unfolding tier_body_def tier_caps_def by (rule first_tier [OF l]) (simp add: js_def fx adv_def)
  then have s: "re_match SINGLE_RE (tier_part t) = Some (tier_caps 2 t ?cap)"
    unfolding SINGLE_RE_def match_first p by simp
  have v: "re_match VERSION_RE (tier_part t) = None" using tier_part_start [of t] no_version by auto
  have "matchedTier 2 [] (tier_caps 2 t ?cap) = t"
    using matched_tier [OF assms(1), of 2 ?cap] assms(2) by (simp add: fresh_above_def)
  moreover have "tier_part t \<noteq> []" by (simp add: p js_def)
  ultimately show ?thesis
    using s v normalize_config [of "[t]"] by (auto simp: tryParseVisualConfig_def Let_def split: list.splits)
qed

lemma many_not_single:
  assumes "\<forall>t \<in> set ts. tier_ok t" "ts = a # b # cs"
  shows "re_match SINGLE_RE (join (js '' : '') (map tier_part ts)) = None"
proof -
  let ?u = "join (js '' : '') (map tier_part (b # cs))"
  have e: "join (js '' : '') (map tier_part ts) = tier_part a @ js '' : '' @ ?u" using assms(2) by simp
  show ?thesis
  proof (cases "vt_conditions a = []")
    case True
    have "34 \<in> set (tier_part b)" by (simp add: tier_part_def part_text_def js_def)
    then have "34 \<in> set ?u" by (cases cs) simp_all
    moreover have "list_all not_quote (vt_label a)" using assms by (simp add: tier_ok_def)
    ultimately show ?thesis
      unfolding e using True single_more_tiers [of "vt_label a" "tier_body a @ js '')'' @ js '' : '' @ ?u"]
      by (simp add: tier_part_def part_text_def)
  next
    case False
    then show ?thesis unfolding e using tier_part_start [of a] single_other_start by auto
  qed
qed

section \<open>Properties\<close>


definition sample_tiers :: VisualConfig where
  "sample_tiers =
     [\<lparr>vt_label = js ''small'', vt_conditions = [\<lparr>in_var = VarLen, in_op = OpLe, in_value = Some (BNum (Num 200000))\<rparr>],
       input_unit_cost = Num (5 / 2), output_unit_cost = Num 10, cache_mode = CACHE_MODE_GENERIC,
       cache_read_unit_cost = 1 / 4, cache_create_unit_cost = 0, cache_create_1h_unit_cost = 0,
       image_unit_cost = 0, image_output_unit_cost = 0, audio_input_unit_cost = 0, audio_output_unit_cost = 0\<rparr>,
      \<lparr>vt_label = js ''large'', vt_conditions = [], input_unit_cost = Num 5, output_unit_cost = Num 20,
       cache_mode = CACHE_MODE_TIMED, cache_read_unit_cost = 0, cache_create_unit_cost = 0,
       cache_create_1h_unit_cost = 3, image_unit_cost = 0, image_output_unit_cost = 0,
       audio_input_unit_cost = 0, audio_output_unit_cost = 0\<rparr>]"

lemma decimal_samples: "decimal 0" "decimal 3" "decimal 5" "decimal 10" "decimal 20" "decimal 200000" "decimal (5 / 2)" "decimal (1 / 4)"
proof -
  have "(5 / 2 :: rat) * 10 ^ max_frac = of_int (25 * 10 ^ 21)" "(1 / 4 :: rat) * 10 ^ max_frac = of_int (25 * 10 ^ 20)"
    by (simp_all add: max_frac_def)
  then show "decimal (5 / 2)" "decimal (1 / 4)" unfolding decimal_def by (metis Ints_of_int)+
qed (simp_all add: decimal_def)

lemma sample_ok: "config_ok sample_tiers"
  by (simp add: config_ok_def sample_tiers_def tier_ok_def price_ok_def cond_ok_def decimal_samples not_quote_def js_def)


end
