(* ===== verification/TierDisplay.thy ===== *)
theory TierDisplay
  imports TierRules
begin

text \<open>
  The price display and the visual editor agree: what \<open>parseTiersFromExpr\<close> shows of a printed
  configuration are its labels, bounds and prices.
\<close>

section \<open>Coefficients\<close>

definition price_keys :: "jsstr list" where
  "price_keys = map bv_key BILLING_PRICING_VARS"

lemma price_keys_eval: "price_keys = [js ''p'', js ''c''] @ extra_keys"
  by code_simp

definition coeff_steps :: "regex list" where
  "coeff_steps = [WordB, Grp 1 (alts (map Lit price_keys)), ws, Lit (js ''*''), ws, Grp 2 num_re]"

lemma billing_var_regex: "BILLING_VAR_REGEX = cat coeff_steps"
  by (simp add: BILLING_VAR_REGEX_def coeff_steps_def price_keys_def comp_def)

lemma first_WordB: "first (WordB # rs) (pv, s, cap) = (if word_before pv \<noteq> word_after s then first rs (pv, s, cap) else None)"
  by (simp add: first_def run_Cons)

definition coeff_caps :: "jsstr \<times> rat \<Rightarrow> captures" where
  "coeff_caps vr = [1 \<mapsto> fst vr, 2 \<mapsto> num_str (snd vr)]"

lemma first_number_end:
  assumes "t = [] \<or> \<not> num_unit (hd t)"
  shows "first [Grp 2 num_re] (pv, num_str r @ t, cap) = Some (Some (last (num_str r)), t, cap(2 \<mapsto> num_str r))"
  unfolding num_re_def
  by (rule first_GrpPlus) (use num_str_units [of r] run_head [OF num_str_units(1) assms] in \<open>simp_all add: adv_def first_Nil\<close>)

lemma first_coeff:
  assumes "v \<in> set price_keys" "\<not> word_before pv" "t = [] \<or> \<not> num_unit (hd t)"
  shows "first coeff_steps (pv, term_text v r @ t, Map.empty) = Some (Some (last (num_str r)), t, coeff_caps (v, r))"
proof -
  obtain d ds where d: "num_str r = d # ds" "num_unit d" using num_str_units [of r] by (cases "num_str r") auto
  have nws: "\<not> is_ws d" "is_ws 32" "\<not> is_ws 42" using d(2) ws_units by (blast, simp_all add: is_ws_def)
  have star: "first [ws, Lit (js ''*''), ws, Grp 2 num_re] (pv, 32 # 42 # 32 # num_str r @ t, [1 \<mapsto> v])
      = Some (Some (last (num_str r)), t, coeff_caps (v, r))" for pv v
    using d nws first_number_end [OF assms(3), of _ r "[1 \<mapsto> v]"]
    by (simp add: js_def first_ws blocked_Lit blocked_num fx coeff_caps_def)
  have fails: "first (ws # Lit (js ''*'') # rs) (pv, c # u, cap) = None" if "is_word c" for pv c u cap rs
    using that printable_not_ws [of c] by (auto simp: js_def first_ws blocked_Lit fx is_word_def is_ws_def [of 42])
  have w: "word_after (term_text v r @ t)"
    using assms(1) by (auto simp: price_keys_eval extra_keys_eval term_text_def js_def word_after_def is_word_def)
  have words: "is_word 114" "is_word 99" "is_word 49" "is_word 95" by (simp_all add: is_word_def)
  have "first [Grp 1 (alts (map Lit price_keys)), ws, Lit (js ''*''), ws, Grp 2 num_re] (pv, term_text v r @ t, Map.empty)
      = Some (Some (last (num_str r)), t, coeff_caps (v, r))"
    using assms(1) star fails [OF words(1)] fails [OF words(2)] fails [OF words(3)] fails [OF words(4)]
    unfolding price_keys_eval extra_keys_eval append.simps list.set insert_iff empty_iff
    by (elim disjE FalseE) (simp_all add: term_text_def js_def fx)
  then show ?thesis using w assms(2) by (simp add: coeff_steps_def first_WordB)
qed

lemma no_coeff_here:
  "first coeff_steps (pv, 32 # u, Map.empty) = None" "first coeff_steps (pv, 43 # u, Map.empty) = None"
  "first coeff_steps (pv, [], Map.empty) = None"
  by (simp_all add: coeff_steps_def first_WordB price_keys_eval extra_keys_eval js_def fx)

lemma all_coeffs:
  assumes "\<forall>x \<in> set xs. fst x \<in> set price_keys" "xs \<noteq> []"
  shows "re_all BILLING_VAR_REGEX None (join (js '' + '') (map (\<lambda>x. term_text (fst x) (snd x)) xs)) = map coeff_caps xs"
proof -
  have skip: "re_search (cat coeff_steps) pv (js '' + '' @ u) = re_search (cat coeff_steps) (Some 32) u" for pv u
    using search_skip3 [of coeff_steps pv 32 43 32 u] no_coeff_here by (simp add: js_def)
  have stop: "re_search (cat coeff_steps) pv [] = None" for pv by (subst search_first) (simp add: no_coeff_here)
  have "re_all (cat coeff_steps) None ([] @ join (js '' + '') (map (\<lambda>x. term_text (fst x) (snd x)) xs) @ []) = map coeff_caps xs"
  proof (rule all_parts [where okp = "\<lambda>pv. \<not> word_before pv" and okt = "\<lambda>t. t = [] \<or> \<not> num_unit (hd t)"
        and pvf = "\<lambda>x. Some (last (num_str (snd x)))"])
    show "first coeff_steps (pv, term_text (fst x) (snd x) @ t, Map.empty) = Some (Some (last (num_str (snd x))), t, coeff_caps x)"
      if "x \<in> set xs" "\<not> word_before pv" "t = [] \<or> \<not> num_unit (hd t)" for x pv t
      using first_coeff [of "fst x" pv t "snd x"] that assms(1) by simp
    show "re_search (cat coeff_steps) (Some (last (num_str (snd x)))) (js '' + '' @ u) = re_search (cat coeff_steps) (Some 32) u"
      for x :: "jsstr \<times> rat" and u by (rule skip)
    show "re_search (cat coeff_steps) (Some (last (num_str (snd x)))) [] = None" for x :: "jsstr \<times> rat" by (rule stop)
    show "[] = [] \<and> \<not> word_before None \<or> [] = js '' + '' \<and> (\<exists>x :: jsstr \<times> rat. None = Some (last (num_str (snd x))))"
      by (simp add: word_before_def)
  qed (use assms(2) in \<open>simp_all add: term_text_def js_def word_before_def is_word_def num_unit_def is_digit_def\<close>)
  then show ?thesis by (simp add: billing_var_regex)
qed

lemma collect_distinct:
  assumes "distinct (map fst xs)" "\<forall>x \<in> set xs. decimal (snd x)" "fst ` set acc \<inter> fst ` set xs = {}"
  shows "collectCoeffs (map coeff_caps xs) acc = acc @ map (\<lambda>x. (fst x, Num (snd x))) xs"
  using assms
proof (induction xs arbitrary: acc)
  case (Cons x xs)
  have g: "grp (coeff_caps x) 1 = fst x" "grp (coeff_caps x) 2 = num_str (snd x)" by (simp_all add: grp_def coeff_caps_def)
  have "map_of acc (fst x) = None" using Cons.prems(3) by (auto simp: map_of_eq_None_iff)
  then have "collectCoeffs (map coeff_caps (x # xs)) acc = collectCoeffs (map coeff_caps xs) (acc @ [(fst x, Num (snd x))])"
    using Cons.prems(2) js_number_num_str by (simp add: g [unfolded One_nat_def])
  also have "\<dots> = acc @ [(fst x, Num (snd x))] @ map (\<lambda>x. (fst x, Num (snd x))) xs"
    using Cons.prems by (subst Cons.IH) auto
  finally show ?case by simp
qed simp

definition price_of :: "VisualTier \<Rightarrow> jsstr \<Rightarrow> rat" where
  "price_of t k = (if k = js ''p'' then num_or0 (input_unit_cost t) else if k = js ''c'' then num_or0 (output_unit_cost t)
     else extra_cost t k)"

definition shown_terms :: "VisualTier \<Rightarrow> (jsstr \<times> rat) list" where
  "shown_terms t = [(js ''p'', price_of t (js ''p'')), (js ''c'', price_of t (js ''c''))]
     @ map (\<lambda>k. (k, price_of t k)) (filter (\<lambda>k. price_of t k \<noteq> 0) extra_keys)"

lemma extra_price: "k \<in> set extra_keys \<Longrightarrow> price_of t k = extra_cost t k"
  unfolding extra_keys_eval list.set insert_iff empty_iff by (elim disjE FalseE) (simp_all add: price_of_def js_def)

lemma body_terms: "tier_body t = join (js '' + '') (map (\<lambda>x. term_text (fst x) (snd x)) (shown_terms t))"
proof -
  have "map (\<lambda>x. term_text (fst x) (snd x)) (map (\<lambda>k. (k, price_of t k)) (filter (\<lambda>k. price_of t k \<noteq> 0) extra_keys))
      = map (\<lambda>k. term_text k (price_of t k)) (filter (\<lambda>k. price_of t k \<noteq> 0) extra_keys)" by simp
  moreover have "concat (map (\<lambda>k. if price_of t k \<noteq> 0 then js '' + '' @ term_text k (price_of t k) else []) extra_keys)
      = terms_text extra_keys (extra_cost t)"
    unfolding terms_text_def by (rule arg_cong [where f = concat], rule map_cong [OF refl]) (simp add: extra_price)
  moreover have "term_text (js ''p'') a = js ''p * '' @ num_str a" "js '' + '' @ term_text (js ''c'') a @ u = js '' + c * '' @ num_str a @ u" for a u
    by (simp_all add: term_text_def js_def)
  moreover have "price_of t (js ''p'') = num_or0 (input_unit_cost t)" "price_of t (js ''c'') = num_or0 (output_unit_cost t)"
    by (simp_all add: price_of_def js_def)
  ultimately show ?thesis
    by (simp add: shown_terms_def tier_body_def body_text_def join_Cons join_filter comp_def)
qed

lemma extra_key_of_map: "map_of (map (\<lambda>k. (k, Num (f k))) (filter P ks)) k = (if k \<in> set ks \<and> P k then Some (Num (f k)) else None)"
  by (induction ks) auto

lemma parse_body:
  assumes "tier_ok t"
  shows "parseTierBody (tier_body t) = map (\<lambda>(k, field). (field, price_of t k)) BILLING_VAR_KEY_TO_FIELD"
proof -
  let ?xs = "shown_terms t"
  have keys: "\<forall>x \<in> set ?xs. fst x \<in> set price_keys" by (auto simp: shown_terms_def price_keys_eval)
  have "distinct ([js ''p'', js ''c''] @ extra_keys)" by (simp add: extra_keys_eval js_def)
  then have dist: "distinct (map fst ?xs)" by (auto simp: shown_terms_def comp_def distinct_map inj_on_def)
  have dec: "\<forall>x \<in> set ?xs. decimal (snd x)"
  proof -
    have "decimal (num_or0 (input_unit_cost t))" "decimal (num_or0 (output_unit_cost t))"
      using assms by (auto simp: tier_ok_def price_ok_def num_or0_def split: jsnum.splits)
    moreover have "\<forall>k \<in> set extra_keys. decimal (extra_cost t k)"
      using assms by (simp add: extra_keys_eval extra_cost_at tier_ok_def)
    ultimately show ?thesis using extra_price by (auto simp: shown_terms_def price_of_def)
  qed
  have "re_all BILLING_VAR_REGEX None (tier_body t) = map coeff_caps ?xs"
    unfolding body_terms by (rule all_coeffs [OF keys]) (simp add: shown_terms_def)
  then have c: "collectCoeffs (re_all BILLING_VAR_REGEX None (tier_body t)) [] = map (\<lambda>x. (fst x, Num (snd x))) ?xs"
    using collect_distinct [OF dist dec, of "[]"] by simp
  have look: "(case map_of (map (\<lambda>x. (fst x, Num (snd x))) ?xs) k of Some n \<Rightarrow> num_or0 n | None \<Rightarrow> 0) = price_of t k"
    if "k \<in> set price_keys" for k
    using that extra_key_of_map [of "price_of t" "\<lambda>k. price_of t k \<noteq> 0" extra_keys k]
    by (auto simp: shown_terms_def price_keys_eval comp_def num_or0_def)
  have "fst p \<in> set price_keys" if "p \<in> set BILLING_VAR_KEY_TO_FIELD" for p
    using that by (auto simp: BILLING_VAR_KEY_TO_FIELD_def price_keys_def)
  then show ?thesis
    unfolding parseTierBody_def c Let_def by (intro map_cong [OF refl]) (auto simp: look)
qed

section \<open>Tiers\<close>

definition display_rest :: "regex list" where
  "display_rest = [Grp 2 (Star (Cls not_quote)), Lit (js ''\",''), ws, Grp 3 (Plus (Cls (\<lambda>c. c \<noteq> 41))), Lit (js '')'')]"

lemma display_re: "TIER_RE = cat (cond_prefix # Lit (js ''tier(\"'') # display_rest)"
  by (simp add: TIER_RE_def display_rest_def)

definition display_caps :: "VisualTier \<Rightarrow> captures" where
  "display_caps t = (part_caps (vt_conditions t))(2 \<mapsto> vt_label t, 3 \<mapsto> tier_body t)"

lemma first_ws_greedy:
  "first rs (adv pv (takeWhile is_ws s), dropWhile is_ws s, cap) = Some x \<Longrightarrow> first (ws # rs) (pv, s, cap) = Some x"
  unfolding ws_def using star_Cls_head [of is_ws pv s cap] first_Cons by blast

lemma num_str_no_paren: "41 \<notin> set (num_str r)"
  using num_str_units(1) [of r] by (auto simp: list_all_iff num_unit_def is_digit_def)

lemma body_no_paren: "list_all (\<lambda>c. c \<noteq> 41) (tier_body t)" "tier_body t \<noteq> []"
proof -
  have "41 \<notin> set (terms_text ks f)" if "set ks \<subseteq> set extra_keys" for ks f
    using that num_str_no_paren
    by (induction ks) (auto simp: terms_text_def term_text_def js_def extra_keys_eval)
  then show "list_all (\<lambda>c. c \<noteq> 41) (tier_body t)"
    using num_str_no_paren by (auto simp: tier_body_def body_text_def js_def list_all_iff)
  show "tier_body t \<noteq> []" by (simp add: tier_body_def body_text_def js_def)
qed

lemma first_display:
  assumes "tier_ok t"
  shows "first (cond_prefix # Lit (js ''tier(\"'') # display_rest) (pv, tier_part t @ u, Map.empty) = Some (Some 41, u, display_caps t)"
proof -
  let ?cap = "(part_caps (vt_conditions t))(2 \<mapsto> vt_label t)"
  have l: "list_all not_quote (vt_label t)" and c: "\<forall>c \<in> set (vt_conditions t). cond_ok c"
    using assms by (simp_all add: tier_ok_def list_all_iff)
  note w = takeWhile_run [OF body_no_paren(1), of 41 t u, simplified]
  have g: "first [Grp 3 (Plus (Cls (\<lambda>c. c \<noteq> 41))), Lit (js '')'')] (pv, tier_body t @ 41 # u, ?cap) = Some (Some 41, u, display_caps t)" for pv
    by (rule first_GrpPlus) (use w body_no_paren(2) in \<open>simp_all add: js_def fx adv_def display_caps_def\<close>)
  have h: "\<exists>v. tier_body t = 112 # v" by (simp add: tier_body_def body_text_def js_def)
  have s: "first [ws, Grp 3 (Plus (Cls (\<lambda>c. c \<noteq> 41))), Lit (js '')'')] (pv, 32 # tier_body t @ 41 # u, ?cap) = Some (Some 41, u, display_caps t)" for pv
    by (rule first_ws_greedy) (use g h in \<open>auto simp: ws_lits is_ws_def [of 112]\<close>)
  have "first (Lit (js ''tier(\"'') # display_rest)
      (pv, js ''tier(\"'' @ vt_label t @ js ''\", '' @ tier_body t @ 41 # u, part_caps (vt_conditions t)) = Some (Some 41, u, display_caps t)" for pv
    using s takeWhile_run [OF l, of 34]
    by (simp add: display_rest_def js_def fx first_GrpStar blocked_Lit not_quote_def)
  then show ?thesis
    using first_part [OF c, of display_rest "vt_label t @ js ''\", '' @ tier_body t @ 41 # u"]
    by (simp add: tier_part_def part_text_def js_def [of "'')''"])
qed

lemma all_displayed:
  assumes "\<forall>t \<in> set ts. tier_ok t" "ts \<noteq> []" "re_search TIER_RE (Some 41) tail = None"
  shows "re_all TIER_RE pv (join (js '' : '') (map tier_part ts) @ tail) = map display_caps ts"
  unfolding display_re
  by (rule all_parts [where okp = "\<lambda>_. True" and okt = "\<lambda>_. True" and pvf = "\<lambda>_. Some 41" and pre = "[]", simplified])
    (use assms first_display between_tiers in \<open>simp_all add: display_re tier_part_def part_text_def js_def\<close>)

definition displayed :: "VisualTier \<Rightarrow> ParsedTier" where
  "displayed t = \<lparr>tier_label = vt_label t, tier_conditions = map condition_of (vt_conditions t),
     tier_prices = map (\<lambda>(k, field). (field, price_of t k)) BILLING_VAR_KEY_TO_FIELD\<rparr>"

lemma parsed_displayed:
  assumes "tier_ok t"
  shows "parsedTier (display_caps t) = displayed t"
proof -
  have c: "\<forall>c \<in> set (vt_conditions t). cond_ok c" using assms by (simp add: tier_ok_def list_all_iff)
  have "grp (display_caps t) 1 = (if vt_conditions t = [] then [] else conds_text (vt_conditions t))"
    "grp (display_caps t) 2 = vt_label t" "grp (display_caps t) 3 = tier_body t"
    by (simp_all add: display_caps_def part_caps_def grp_def)
  then show ?thesis
    using parse_conds [OF c] parse_body [OF assms] by (simp add: parsedTier_def displayed_def)
qed

lemma fallback_not_shown: "re_search TIER_RE (Some 41) (js '' : p * 0 + c * 0'') = None"
  by code_simp

section \<open>Properties\<close>

lemma displayed_config:
  assumes "config_ok ts"
  shows "parseTiersFromExpr (generateExprFromVisualConfig (Some ts)) = map displayed ts"
proof -
  have ok: "\<forall>t \<in> set ts. tier_ok t" and ne: "ts \<noteq> []" using assms by (simp_all add: config_ok_def list_all_iff)
  obtain tail where g: "generateExprFromVisualConfig (Some ts) = join (js '' : '') (map tier_part ts) @ tail"
    and stop: "re_search TIER_RE (Some 41) tail = None"
  proof -
    have nil: "re_search TIER_RE (Some 41) [] = None" unfolding display_re by (rule after_tiers)
    consider (one) t where "ts = [t]" | (many) a b cs where "ts = a # b # cs" using ne by (cases ts; cases "tl ts") auto
    then show thesis
    proof cases
      case one
      then show thesis using generate_one [of t] ok nil fallback_not_shown that
        by (cases "vt_conditions t = []") simp_all
    next
      case many
      then show thesis using generate_many [OF ok] assms nil that [of "[]"] by (simp add: config_ok_def)
    qed
  qed
  obtain t ts' where t: "ts = t # ts'" using ne by (cases ts) auto
  obtain c u where "tier_part t = c # u" "c \<noteq> 118" using tier_part_start by blast
  then obtain u' where e: "generateExprFromVisualConfig (Some ts) = c # u'" "c \<noteq> 118" using g t by (cases ts') auto
  then have "snd (stripExprVersion (generateExprFromVisualConfig (Some ts))) = generateExprFromVisualConfig (Some ts)"
    using no_version by (simp add: stripExprVersion_def)
  moreover have "map parsedTier (re_all TIER_RE None (generateExprFromVisualConfig (Some ts))) = map displayed ts"
    unfolding g all_displayed [OF ok ne stop] map_map using ok parsed_displayed by (intro map_cong) simp_all
  ultimately show ?thesis using e by (simp add: parseTiersFromExpr_def)
qed



end
