(* ===== verification/RatioSync.thy ===== *)
theory RatioSync
  imports TierExpr
begin

text \<open>
  Synchronising prices with upstream sources,
  \<open>features/system-settings/models/upstream-ratio-sync-helpers.ts\<close>: which fields are offered, how a
  choice is stored (\<open>resolutions\<close>), and how choices are taken back.

  A record whose keys are ratio types and a \<open>Map\<close> are association lists in insertion order. Model
  and source names that are properties of every object (\<open>constructor\<close>) are outside the model.
\<close>

section \<open>Data\<close>

datatype RatioType =
    ModelRatio | CompletionRatio | CacheRatio | CreateCacheRatio | ImageRatio | AudioRatio
  | AudioCompletionRatio | ModelPrice | BillingMode | BillingExprField

primrec ratio_name :: "RatioType \<Rightarrow> jsstr" where
  "ratio_name ModelRatio = js ''model_ratio''"
| "ratio_name CompletionRatio = js ''completion_ratio''"
| "ratio_name CacheRatio = js ''cache_ratio''"
| "ratio_name CreateCacheRatio = js ''create_cache_ratio''"
| "ratio_name ImageRatio = js ''image_ratio''"
| "ratio_name AudioRatio = js ''audio_ratio''"
| "ratio_name AudioCompletionRatio = js ''audio_completion_ratio''"
| "ratio_name ModelPrice = js ''model_price''"
| "ratio_name BillingMode = js ''billing_mode''"
| "ratio_name BillingExprField = js ''billing_expr''"

datatype sync_value = SNum rat | SText jsstr

definition same :: sync_value where
  "same = SText (js ''same'')"

record RatioDifferenceEntry =
  rd_current :: "sync_value option"
  rd_upstreams :: "(jsstr \<times> sync_value option) list"
  rd_confidence :: "(jsstr \<times> bool) list"

type_synonym RatioTypes = "(RatioType \<times> RatioDifferenceEntry) list"
type_synonym Differences = "(jsstr \<times> RatioTypes) list"
type_synonym ModelResolution = "(RatioType \<times> sync_value) list"
type_synonym ResolutionsMap = "(jsstr \<times> ModelResolution) list"

record ResolutionSelection =
  sel_model :: jsstr
  sel_ratioType :: RatioType
  sel_value :: sync_value
  sel_sourceName :: jsstr

record ResolutionRemoval =
  rem_model :: jsstr
  rem_ratioType :: RatioType

type_synonym ResolutionRemovalPlan = "(jsstr \<times> RatioType list) list"

definition RATIO_SYNC_FIELDS :: "RatioType list" where
  "RATIO_SYNC_FIELDS = [ModelRatio, CompletionRatio, CacheRatio, CreateCacheRatio, ImageRatio, AudioRatio, AudioCompletionRatio]"

definition SYNC_FIELD_ORDER :: "RatioType list" where
  "SYNC_FIELD_ORDER = RATIO_SYNC_FIELDS @ [ModelPrice, BillingMode, BillingExprField]"

definition NUMERIC_SYNC_FIELDS :: "RatioType list" where
  "NUMERIC_SYNC_FIELDS = RATIO_SYNC_FIELDS @ [ModelPrice]"

definition RATIO_TYPE_OPTIONS :: "(jsstr \<times> jsstr) list" where
  "RATIO_TYPE_OPTIONS =
     [(js ''Model ratio'', js ''model_ratio''), (js ''Completion ratio'', js ''completion_ratio''),
      (js ''Cache ratio'', js ''cache_ratio''), (js ''Create cache ratio'', js ''create_cache_ratio''),
      (js ''Image ratio'', js ''image_ratio''), (js ''Audio ratio'', js ''audio_ratio''),
      (js ''Audio completion ratio'', js ''audio_completion_ratio''), (js ''Fixed price'', js ''model_price''),
      (js ''Expression billing'', js ''billing_expr'')]"

section \<open>Fields\<close>

definition getSyncFieldLabel :: "jsstr \<Rightarrow> (jsstr \<Rightarrow> jsstr) \<Rightarrow> jsstr" where
  "getSyncFieldLabel ratioType t =
     (case List.find (\<lambda>opt. snd opt = ratioType) RATIO_TYPE_OPTIONS of Some opt \<Rightarrow> t (fst opt) | None \<Rightarrow> ratioType)"

definition getOrderedRatioTypes :: "RatioTypes \<Rightarrow> jsstr option \<Rightarrow> RatioType list" where
  "getOrderedRatioTypes ratioTypes flt =
     (let keys = map fst ratioTypes;
          ordered = filter (\<lambda>f. f \<in> set keys) SYNC_FIELD_ORDER @ filter (\<lambda>f. f \<notin> set SYNC_FIELD_ORDER) keys
      in case flt of
           None \<Rightarrow> ordered
         | Some w \<Rightarrow> if w = [] \<or> w = js ''__all__'' then ordered else filter (\<lambda>f. ratio_name f = w) ordered)"

text \<open>\<open>ratioTypes[rt]?.upstreams?.[sourceName]\<close>; \<open>null\<close> and \<open>undefined\<close> are both \<open>None\<close>.\<close>

definition upstream :: "RatioTypes \<Rightarrow> RatioType \<Rightarrow> jsstr \<Rightarrow> sync_value option" where
  "upstream ratioTypes rt source =
     (case map_of ratioTypes rt of
        None \<Rightarrow> None
      | Some e \<Rightarrow> (case map_of (rd_upstreams e) source of Some v \<Rightarrow> v | None \<Rightarrow> None))"

definition isSelectableUpstreamValue :: "sync_value option \<Rightarrow> bool" where
  "isSelectableUpstreamValue v \<longleftrightarrow> v \<noteq> None \<and> v \<noteq> Some same"

definition getPreferredSyncField :: "RatioTypes \<Rightarrow> RatioType \<Rightarrow> jsstr \<Rightarrow> RatioType" where
  "getPreferredSyncField ratioTypes ratioType sourceName =
     (let exprValue = upstream ratioTypes BillingExprField sourceName
      in if ratioType \<noteq> BillingExprField \<and> exprValue \<noteq> None \<and> exprValue \<noteq> Some same
         then BillingExprField else ratioType)"

definition getVisibleRatioTypesForSource :: "RatioTypes \<Rightarrow> jsstr \<Rightarrow> jsstr option \<Rightarrow> RatioType list" where
  "getVisibleRatioTypesForSource ratioTypes sourceName flt =
     filter (\<lambda>rt. getPreferredSyncField ratioTypes rt sourceName = rt) (getOrderedRatioTypes ratioTypes flt)"

definition getAlignedRatioTypes :: "RatioTypes \<Rightarrow> jsstr list \<Rightarrow> jsstr option \<Rightarrow> RatioType list" where
  "getAlignedRatioTypes ratioTypes sourceNames flt =
     (let ordered = getOrderedRatioTypes ratioTypes flt
      in if length sourceNames = 0 then ordered
         else let visible = concat (map (\<lambda>s. getVisibleRatioTypesForSource ratioTypes s flt) sourceNames)
              in filter (\<lambda>rt. rt \<in> set visible) ordered)"

datatype BillingCategory = CatPrice | CatRatio | CatTiered

definition getBillingCategory :: "RatioType \<Rightarrow> BillingCategory" where
  "getBillingCategory rt =
     (if rt = ModelPrice then CatPrice
      else if rt = BillingMode \<or> rt = BillingExprField then CatTiered else CatRatio)"

definition OFFICIAL_CHANNEL_ID :: int where "OFFICIAL_CHANNEL_ID = - 100"
definition OFFICIAL_CHANNEL_NAME :: jsstr where
  "OFFICIAL_CHANNEL_NAME = [23448, 26041, 20493, 29575, 39044, 35774]"
definition MODELS_DEV_PRESET_ID :: int where "MODELS_DEV_PRESET_ID = - 101"
definition MODELS_DEV_PRESET_NAME :: jsstr where
  "MODELS_DEV_PRESET_NAME = js ''models.dev '' @ [20215, 26684, 39044, 35774]"

definition getUpstreamDisplayName :: "jsstr \<Rightarrow> jsstr" where
  "getUpstreamDisplayName sourceName =
     (let presets = [(OFFICIAL_CHANNEL_NAME, OFFICIAL_CHANNEL_ID), (MODELS_DEV_PRESET_NAME, MODELS_DEV_PRESET_ID)]
      in case List.find (\<lambda>p. sourceName = fst p @ js ''('' @ int_str (snd p) @ js '')'') presets of
           Some p \<Rightarrow> fst p
         | None \<Rightarrow> sourceName)"

section \<open>Choices\<close>

definition getDraftModelResolution :: "ResolutionsMap \<Rightarrow> ResolutionsMap \<Rightarrow> jsstr \<Rightarrow> ModelResolution" where
  "getDraftModelResolution drafts resolutions model =
     (case map_of drafts model of
        Some d \<Rightarrow> d
      | None \<Rightarrow> (case map_of resolutions model of Some d \<Rightarrow> d | None \<Rightarrow> []))"

definition resolveResolutionSelection :: "Differences \<Rightarrow> ResolutionSelection \<Rightarrow> ResolutionSelection" where
  "resolveResolutionSelection differences selection =
     (let modelDiffs = map_of differences (sel_model selection);
          diffs = (case modelDiffs of Some d \<Rightarrow> d | None \<Rightarrow> []);
          preferredType = getPreferredSyncField diffs (sel_ratioType selection) (sel_sourceName selection);
          preferredValue =
            (if preferredType = sel_ratioType selection then sel_value selection
             else case upstream diffs preferredType (sel_sourceName selection) of
                    Some v \<Rightarrow> v | None \<Rightarrow> sel_value selection)
      in selection\<lparr>sel_ratioType := preferredType, sel_value := preferredValue\<rparr>)"

definition put_upstream :: "RatioType \<Rightarrow> sync_value option \<Rightarrow> ModelResolution \<Rightarrow> ModelResolution" where
  "put_upstream rt v d = (if v \<noteq> None \<and> v \<noteq> Some same then al_put rt (the v) d else d)"

text \<open>The body of \<open>applyResolutionSelectionToDraft\<close> on the draft of the model.\<close>

definition draftStep :: "Differences \<Rightarrow> ResolutionSelection \<Rightarrow> ModelResolution \<Rightarrow> ModelResolution" where
  "draftStep differences selection draft =
     (let final = resolveResolutionSelection differences selection;
          finalType = sel_ratioType final; finalValue = sel_value final;
          category = getBillingCategory finalType;
          kept = filter (\<lambda>(rt, _). \<not> (category \<noteq> CatTiered \<and> getBillingCategory rt \<noteq> CatTiered
                                        \<and> getBillingCategory rt \<noteq> category)) draft;
          stored = al_put finalType finalValue kept
      in case map_of differences (sel_model selection) of
           Some modelDiffs \<Rightarrow>
             if category = CatTiered
             then let modeVal = upstream modelDiffs BillingMode (sel_sourceName selection);
                      exprVal = upstream modelDiffs BillingExprField (sel_sourceName selection);
                      withMode = (if modeVal \<noteq> None \<and> modeVal \<noteq> Some same then al_put BillingMode (the modeVal) stored
                                  else if finalType = BillingExprField
                                  then al_put BillingMode (SText (js ''tiered_expr'')) stored else stored)
                  in put_upstream BillingExprField exprVal withMode
             else stored
         | None \<Rightarrow> stored)"

definition applyResolutionSelectionToDraft ::
  "ResolutionsMap \<Rightarrow> Differences \<Rightarrow> ResolutionSelection \<Rightarrow> ResolutionsMap \<Rightarrow> ResolutionsMap" where
  "applyResolutionSelectionToDraft resolutions differences selection drafts =
     al_put (sel_model selection)
       (draftStep differences selection (getDraftModelResolution drafts resolutions (sel_model selection))) drafts"

definition store_draft :: "jsstr \<times> ModelResolution \<Rightarrow> ResolutionsMap \<Rightarrow> ResolutionsMap" where
  "store_draft md next = (if snd md = [] then al_delete (fst md) next else al_put (fst md) (snd md) next)"

definition applyResolutionSelections ::
  "ResolutionsMap \<Rightarrow> Differences \<Rightarrow> ResolutionSelection list \<Rightarrow> ResolutionsMap" where
  "applyResolutionSelections resolutions differences selections =
     (if length selections = 0 then resolutions
      else fold store_draft (fold (applyResolutionSelectionToDraft resolutions differences) selections []) resolutions)"

definition applyResolutionSelection :: "ResolutionsMap \<Rightarrow> Differences \<Rightarrow> ResolutionSelection \<Rightarrow> ResolutionsMap" where
  "applyResolutionSelection resolutions differences selection =
     applyResolutionSelections resolutions differences [selection]"

definition eff_key :: "ResolutionSelection \<Rightarrow> jsstr" where
  "eff_key s = sel_model s @ 0 # ratio_name (sel_ratioType s)"

definition effectiveStep ::
  "Differences \<Rightarrow> ResolutionSelection \<Rightarrow> (jsstr \<times> ResolutionSelection) list \<Rightarrow> (jsstr \<times> ResolutionSelection) list" where
  "effectiveStep differences selection eff =
     (let resolved = resolveResolutionSelection differences selection;
          category = getBillingCategory (sel_ratioType resolved);
          kept = (if category \<noteq> CatTiered
                  then filter (\<lambda>(_, e). \<not> (sel_model e = sel_model resolved
                         \<and> getBillingCategory (sel_ratioType e) \<noteq> CatTiered
                         \<and> getBillingCategory (sel_ratioType e) \<noteq> category)) eff
                  else eff)
      in al_put (eff_key resolved) resolved kept)"

definition getEffectiveResolutionSelections :: "Differences \<Rightarrow> ResolutionSelection list \<Rightarrow> ResolutionSelection list" where
  "getEffectiveResolutionSelections differences selections =
     map snd (fold (effectiveStep differences) selections [])"

section \<open>Taking choices back\<close>

definition addRemoval :: "ResolutionRemoval \<Rightarrow> ResolutionRemovalPlan \<Rightarrow> ResolutionRemovalPlan" where
  "addRemoval removal plan =
     (case map_of plan (rem_model removal) of
        Some rts \<Rightarrow> al_put (rem_model removal)
          (if rem_ratioType removal \<in> set rts then rts else rts @ [rem_ratioType removal]) plan
      | None \<Rightarrow> al_put (rem_model removal) [rem_ratioType removal] plan)"

definition removeField :: "RatioType \<Rightarrow> ModelResolution \<Rightarrow> ModelResolution" where
  "removeField rt draft =
     (let d = al_delete rt draft;
          d1 = (if rt = BillingExprField then al_delete BillingMode d else d)
      in if rt = BillingMode then al_delete BillingExprField d1 else d1)"

definition planStep :: "ResolutionsMap \<Rightarrow> jsstr \<times> RatioType list \<Rightarrow> ResolutionsMap \<Rightarrow> ResolutionsMap" where
  "planStep resolutions entry next =
     (case map_of resolutions (fst entry) of
        None \<Rightarrow> next
      | Some current \<Rightarrow> store_draft (fst entry, fold removeField (snd entry) current) next)"

definition applyResolutionRemovalPlan :: "ResolutionsMap \<Rightarrow> ResolutionRemovalPlan \<Rightarrow> ResolutionsMap" where
  "applyResolutionRemovalPlan resolutions plan =
     (if length plan = 0 then resolutions else fold (planStep resolutions) plan resolutions)"

definition applyResolutionRemovals :: "ResolutionsMap \<Rightarrow> ResolutionRemoval list \<Rightarrow> ResolutionsMap" where
  "applyResolutionRemovals resolutions removals =
     (if length removals = 0 then resolutions
      else applyResolutionRemovalPlan resolutions (fold addRemoval removals []))"

definition deleteResolutionField :: "ResolutionsMap \<Rightarrow> jsstr \<Rightarrow> RatioType \<Rightarrow> ResolutionsMap" where
  "deleteResolutionField resolutions model ratioType =
     applyResolutionRemovals resolutions [\<lparr>rem_model = model, rem_ratioType = ratioType\<rparr>]"

section \<open>What is marked as chosen\<close>

fun value_number :: "sync_value \<Rightarrow> jsnum" where
  "value_number (SNum r) = Num r"
| "value_number (SText s) = text_number s"

definition isSelectedResolutionValue ::
  "ResolutionsMap \<Rightarrow> jsstr \<Rightarrow> RatioType \<Rightarrow> sync_value option \<Rightarrow> bool" where
  "isSelectedResolutionValue resolutions model ratioType upstreamValue =
     (if \<not> isSelectableUpstreamValue upstreamValue then False
      else case Option.bind (map_of resolutions model) (\<lambda>d. map_of d ratioType) of
             None \<Rightarrow> False
           | Some selectedValue \<Rightarrow>
               if ratioType \<in> set NUMERIC_SYNC_FIELDS
               then value_number selectedValue \<noteq> NaN \<and> value_number (the upstreamValue) \<noteq> NaN
                 \<and> value_number selectedValue = value_number (the upstreamValue)
               else selectedValue = the upstreamValue)"

end
