(* ===== verification/RatioRules.thy ===== *)
theory RatioRules
  imports RatioSync
begin

text \<open>
  Correctness of the price synchronisation of \<open>RatioSync\<close>: the stored choices never mix a fixed price
  with ratios, a batch of choices is the same as making them one at a time, removals delete exactly
  what they name, and the list of effective choices is what is stored.
\<close>

section \<open>One model's draft\<close>

definition field :: "ResolutionsMap \<Rightarrow> jsstr \<Rightarrow> RatioType \<Rightarrow> sync_value option" where
  "field r m rt = Option.bind (map_of r m) (\<lambda>d. map_of d rt)"

lemma map_of_filter_keys:
  "map_of (filter (\<lambda>(k, v). P k) d) k = (if P k then map_of d k else None)"
  by (induction d) auto

lemma al_put_not_Nil [simp]: "al_put k v d \<noteq> []"
  by (cases d) (auto split: if_splits)

lemma draftStep_not_Nil [simp]: "draftStep D s d \<noteq> []"
  by (simp add: draftStep_def put_upstream_def Let_def split: option.split)

lemma category_simps [simp]:
  "getBillingCategory rt = CatPrice \<longleftrightarrow> rt = ModelPrice"
  "getBillingCategory rt = CatTiered \<longleftrightarrow> rt = BillingMode \<or> rt = BillingExprField"
  by (simp_all add: getBillingCategory_def)

text \<open>The fields outside expression billing: the chosen one is stored, those of the other kind go.\<close>

lemma draftStep_plain:
  assumes "getBillingCategory rt \<noteq> CatTiered"
  shows "map_of (draftStep D s d) rt =
    (let e = resolveResolutionSelection D s; c = getBillingCategory (sel_ratioType e)
     in if rt = sel_ratioType e then Some (sel_value e)
        else if c \<noteq> CatTiered \<and> getBillingCategory rt \<noteq> c then None else map_of d rt)"
  using assms
  by (simp add: draftStep_def put_upstream_def Let_def map_of_al_put map_of_filter_keys split: option.split)

text \<open>An expression is always stored together with its billing mode.\<close>

lemma draftStep_tiered:
  assumes "map_of D (sel_model s) \<noteq> None"
    and "map_of d BillingExprField \<noteq> None \<longrightarrow> map_of d BillingMode \<noteq> None"
  shows "map_of (draftStep D s d) BillingExprField \<noteq> None \<longrightarrow> map_of (draftStep D s d) BillingMode \<noteq> None"
proof -
  obtain md where md: "map_of D (sel_model s) = Some md" using assms(1) by blast
  let ?e = "upstream md BillingExprField (sel_sourceName s)"
  let ?t = "sel_ratioType (resolveResolutionSelection D s)"
  have t: "?t = getPreferredSyncField md (sel_ratioType s) (sel_sourceName s)"
    by (simp add: resolveResolutionSelection_def md Let_def)
  have pref: "?e \<noteq> None \<and> ?e \<noteq> Some same \<Longrightarrow> ?t = BillingExprField"
    by (simp add: t getPreferredSyncField_def Let_def)
  show ?thesis
  proof (cases "?t = BillingExprField")
    case True
    then show ?thesis
      by (simp add: draftStep_def md put_upstream_def Let_def map_of_al_put)
  next
    case False
    with pref have e: "?e = None \<or> ?e = Some same" by blast
    show ?thesis
    proof (cases "?t = BillingMode")
      case True
      with e show ?thesis
        by (auto simp: draftStep_def md put_upstream_def Let_def map_of_al_put)
    next
      case plain: False
      from assms(2) show ?thesis
        by (simp add: draftStep_def md Let_def map_of_al_put map_of_filter_keys plain [symmetric] False [symmetric] plain False)
    qed
  qed
qed

definition draft_ok :: "ModelResolution \<Rightarrow> bool" where
  "draft_ok d \<longleftrightarrow>
     (map_of d ModelPrice = None \<or> list_all (\<lambda>rt. map_of d rt = None) RATIO_SYNC_FIELDS)
     \<and> (map_of d BillingExprField \<noteq> None \<longrightarrow> map_of d BillingMode \<noteq> None)"

lemma ratio_fields: "getBillingCategory rt = CatRatio \<longleftrightarrow> rt \<in> set RATIO_SYNC_FIELDS"
  by (cases rt) (simp_all add: getBillingCategory_def RATIO_SYNC_FIELDS_def)

lemma draft_ok_alt:
  "draft_ok d \<longleftrightarrow>
     (map_of d ModelPrice = None \<or> (\<forall>rt. getBillingCategory rt = CatRatio \<longrightarrow> map_of d rt = None))
     \<and> (map_of d BillingExprField \<noteq> None \<longrightarrow> map_of d BillingMode \<noteq> None)"
  by (auto simp: draft_ok_def ratio_fields list_all_iff)

lemma draft_ok_step:
  assumes "map_of D (sel_model s) \<noteq> None" and "draft_ok d"
  shows "draft_ok (draftStep D s d)"
proof -
  let ?t = "sel_ratioType (resolveResolutionSelection D s)"
  have old: "map_of d ModelPrice = None \<or> (\<forall>rt. getBillingCategory rt = CatRatio \<longrightarrow> map_of d rt = None)"
    using assms(2) by (simp add: draft_ok_alt)
  have price: "getBillingCategory ModelPrice = CatPrice" by simp
  have "map_of (draftStep D s d) ModelPrice = None
      \<or> (\<forall>rt. getBillingCategory rt = CatRatio \<longrightarrow> map_of (draftStep D s d) rt = None)"
  proof (cases "getBillingCategory ?t")
    case CatPrice
    then show ?thesis by (auto simp: draftStep_plain Let_def getBillingCategory_def split: if_splits)
  next
    case CatRatio
    then show ?thesis by (auto simp: draftStep_plain Let_def getBillingCategory_def split: if_splits)
  next
    case CatTiered
    with old show ?thesis by (auto simp: draftStep_plain Let_def getBillingCategory_def split: if_splits)
  qed
  moreover have "map_of (draftStep D s d) BillingExprField \<noteq> None \<longrightarrow> map_of (draftStep D s d) BillingMode \<noteq> None"
    using assms by (intro draftStep_tiered) (simp_all add: draft_ok_def)
  ultimately show ?thesis by (simp add: draft_ok_alt)
qed

section \<open>Batches\<close>

abbreviation base :: "ResolutionsMap \<Rightarrow> jsstr \<Rightarrow> ModelResolution" where
  "base r m \<equiv> (case map_of r m of Some d \<Rightarrow> d | None \<Rightarrow> [])"

definition for_model :: "jsstr \<Rightarrow> ResolutionSelection list \<Rightarrow> ResolutionSelection list" where
  "for_model m = filter (\<lambda>s. sel_model s = m)"

lemma for_model_simps [simp]:
  "for_model m [] = []" "for_model m (s # ss) = (if sel_model s = m then s # for_model m ss else for_model m ss)"
  "for_model m (xs @ ys) = for_model m xs @ for_model m ys"
  by (simp_all add: for_model_def)

lemma drafts_lookup:
  "map_of (fold (applyResolutionSelectionToDraft r D) ss ds) m =
     (if for_model m ss = [] then map_of ds m
      else Some (fold (draftStep D) (for_model m ss) (getDraftModelResolution ds r m)))"
  by (induction ss arbitrary: ds)
    (auto simp: applyResolutionSelectionToDraft_def map_of_al_put getDraftModelResolution_def split: option.split)

lemma drafts_distinct:
  "distinct (map fst ds) \<Longrightarrow> distinct (map fst (fold (applyResolutionSelectionToDraft r D) ss ds))"
  by (induction ss arbitrary: ds) (simp_all add: applyResolutionSelectionToDraft_def distinct_al_put)

lemma map_of_store_draft:
  "map_of (store_draft md r) m = (if m = fst md then if snd md = [] then None else Some (snd md) else map_of r m)"
  by (simp add: store_draft_def map_of_al_put map_of_al_delete)

lemma fold_store_draft:
  "distinct (map fst ds) \<Longrightarrow> map_of (fold store_draft ds r) m =
     (case map_of ds m of None \<Rightarrow> map_of r m | Some d \<Rightarrow> if d = [] then None else Some d)"
proof (induction ds arbitrary: r)
  case (Cons p ds)
  then show ?case
    by (cases p) (auto simp: map_of_store_draft map_of_eq_None_iff image_iff split: option.split)
qed simp

lemma fold_draftStep_not_Nil: "ss \<noteq> [] \<Longrightarrow> fold (draftStep D) ss d \<noteq> []"
  by (induction ss rule: rev_induct) simp_all

lemma selections_lookup:
  "map_of (applyResolutionSelections r D ss) m =
     (if for_model m ss = [] then map_of r m else Some (fold (draftStep D) (for_model m ss) (base r m)))"
  by (cases "ss = []")
    (simp_all add: applyResolutionSelections_def fold_store_draft drafts_distinct drafts_lookup
      fold_draftStep_not_Nil getDraftModelResolution_def)

text \<open>
  Choosing several values at once, as the select-all checkbox of a column does, stores for every
  model what choosing them one after the other stores: cutting a batch in two never changes the
  outcome, although the batch collects its changes in drafts and stores them at the end.
\<close>

theorem batch_is_sequential:
  "map_of (applyResolutionSelections r D (xs @ ys)) m =
     map_of (applyResolutionSelections (applyResolutionSelections r D xs) D ys) m"
  by (simp add: selections_lookup)

section \<open>Removals\<close>

definition drops :: "RatioType \<Rightarrow> RatioType \<Rightarrow> bool" where
  "drops removed rt \<longleftrightarrow> removed = rt \<or> {removed, rt} = {BillingMode, BillingExprField}"

lemma map_of_removeField: "map_of (removeField rt d) rt' = (if drops rt rt' then None else map_of d rt')"
  by (auto simp: removeField_def drops_def Let_def map_of_al_delete doubleton_eq_iff)

lemma map_of_fold_removeField:
  "map_of (fold removeField rts d) rt = (if list_ex (\<lambda>x. drops x rt) rts then None else map_of d rt)"
  by (induction rts arbitrary: d) (simp_all add: map_of_removeField)

definition removed_types :: "jsstr \<Rightarrow> ResolutionRemoval list \<Rightarrow> RatioType set" where
  "removed_types m rs = {rem_ratioType x |x. x \<in> set rs \<and> rem_model x = m}"

lemma plan_lookup_aux:
  "set (case map_of (fold addRemoval rs p) m of None \<Rightarrow> [] | Some rts \<Rightarrow> rts) =
     set (case map_of p m of None \<Rightarrow> [] | Some rts \<Rightarrow> rts) \<union> removed_types m rs"
proof (induction rs arbitrary: p)
  case (Cons x rs)
  have "set (case map_of (addRemoval x p) m of None \<Rightarrow> [] | Some rts \<Rightarrow> rts) =
      set (case map_of p m of None \<Rightarrow> [] | Some rts \<Rightarrow> rts) \<union> removed_types m [x]"
    by (auto simp: addRemoval_def map_of_al_put removed_types_def split: option.split)
  moreover have "removed_types m (x # rs) = removed_types m [x] \<union> removed_types m rs"
    by (auto simp: removed_types_def)
  ultimately show ?case by (simp add: Cons Un_assoc)
qed (simp add: removed_types_def)

lemma plan_distinct: "distinct (map fst p) \<Longrightarrow> distinct (map fst (fold addRemoval rs p))"
  by (induction rs arbitrary: p) (simp_all add: addRemoval_def distinct_al_put split: option.split)

lemma plan_fold_lookup:
  "distinct (map fst p) \<Longrightarrow> map_of (fold (planStep r0) p r) m =
     (case (map_of p m, map_of r0 m) of
        (Some rts, Some d) \<Rightarrow> (let d' = fold removeField rts d in if d' = [] then None else Some d')
      | _ \<Rightarrow> map_of r m)"
proof (induction p arbitrary: r)
  case (Cons e p)
  obtain k rts where e: "e = (k, rts)" by (cases e)
  from Cons.prems e have "map_of p k = None" by (simp add: map_of_eq_None_iff)
  then show ?case
    using Cons by (auto simp: e planStep_def map_of_store_draft Let_def split: option.split)
qed (simp split: option.split)

lemma removals_field:
  "field (applyResolutionRemovals r rs) m rt =
     (if list_ex (\<lambda>x. rem_model x = m \<and> drops (rem_ratioType x) rt) rs then None else field r m rt)"
proof (cases "rs = []")
  case False
  let ?p = "fold addRemoval rs []"
  have "?p \<noteq> []"
  proof
    assume "?p = []"
    moreover obtain x where "x \<in> set rs" using False by (cases rs) auto
    then have "rem_ratioType x \<in> removed_types (rem_model x) rs" by (auto simp: removed_types_def)
    ultimately show False using plan_lookup_aux [of rs "[]" "rem_model x"] by simp
  qed
  then have l: "map_of (applyResolutionRemovals r rs) m = map_of (fold (planStep r) ?p r) m"
    using False by (simp add: applyResolutionRemovals_def applyResolutionRemovalPlan_def)
  have s: "set (case map_of ?p m of None \<Rightarrow> [] | Some rts \<Rightarrow> rts) = removed_types m rs"
    using plan_lookup_aux [of rs "[]" m] by simp
  have ex: "list_ex (\<lambda>x. rem_model x = m \<and> drops (rem_ratioType x) rt) rs \<longleftrightarrow> (\<exists>x \<in> removed_types m rs. drops x rt)"
    by (auto simp: list_ex_iff removed_types_def)
  have f: "fold removeField rts d = [] \<Longrightarrow> list_ex (\<lambda>x. drops x rt) rts \<or> map_of d rt = None" for rts d
    using map_of_fold_removeField [of rts d rt] by (auto split: if_splits)
  show ?thesis
  proof (cases "map_of ?p m")
    case None
    with s have "removed_types m rs = {}" by simp
    with None show ?thesis
      unfolding field_def l ex by (simp add: plan_fold_lookup plan_distinct del: map_of_eq_Some_iff)
  next
    case (Some rts)
    with s have "removed_types m rs = set rts" by simp
    with Some show ?thesis
      unfolding field_def l ex plan_fold_lookup [OF plan_distinct [of "[]", simplified]]
      using f by (cases "map_of r m") (fastforce simp: map_of_fold_removeField Let_def list_ex_iff)+
  qed
qed (simp add: applyResolutionRemovals_def)

text \<open>
  Taking choices back, one at a time or many at once, removes exactly the named fields of the named
  models, and with a billing mode its expression and the other way round: every other stored choice
  keeps its value.
\<close>

theorem removals_exact:
  "Option.bind (map_of (applyResolutionRemovals r rs) m) (\<lambda>d. map_of d rt) =
     (if list_ex (\<lambda>x. rem_model x = m
           \<and> (rem_ratioType x = rt \<or> {rem_ratioType x, rt} = {BillingMode, BillingExprField})) rs
      then None else Option.bind (map_of r m) (\<lambda>d. map_of d rt))"
  using removals_field [of r rs m rt] by (simp add: field_def drops_def)

section \<open>The stored choices\<close>

inductive sync_step :: "ResolutionsMap \<Rightarrow> ResolutionsMap \<Rightarrow> bool" where
  select: "list_all (\<lambda>s. map_of D (sel_model s) \<noteq> None) ss \<Longrightarrow> sync_step r (applyResolutionSelections r D ss)"
| remove: "sync_step r (applyResolutionRemovals r rs)"

definition resolutions_ok :: "ResolutionsMap \<Rightarrow> bool" where
  "resolutions_ok r \<longleftrightarrow> (\<forall>m d. map_of r m = Some d \<longrightarrow> d \<noteq> [] \<and> draft_ok d)"

lemma draft_ok_Nil [simp]: "draft_ok []"
  by (simp add: draft_ok_def list_all_iff)

lemma draft_ok_fold:
  "list_all (\<lambda>s. map_of D (sel_model s) \<noteq> None) ss \<Longrightarrow> draft_ok d \<Longrightarrow> draft_ok (fold (draftStep D) ss d)"
  by (induction ss arbitrary: d) (simp_all add: draft_ok_step)

lemma select_ok:
  assumes "list_all (\<lambda>s. map_of D (sel_model s) \<noteq> None) ss" and "resolutions_ok r"
  shows "resolutions_ok (applyResolutionSelections r D ss)"
proof -
  have "list_all (\<lambda>s. map_of D (sel_model s) \<noteq> None) (for_model m ss)" for m
    using assms(1) by (auto simp: list_all_iff for_model_def)
  moreover have "draft_ok (base r m)" for m
    using assms(2) by (auto simp: resolutions_ok_def split: option.split)
  ultimately show ?thesis
    using assms(2) by (auto simp: resolutions_ok_def selections_lookup draft_ok_fold fold_draftStep_not_Nil)
qed

lemma draft_ok_remove: "draft_ok d \<Longrightarrow> draft_ok (removeField rt d)"
  by (auto simp: draft_ok_def map_of_removeField drops_def list_all_iff doubleton_eq_iff)

lemma draft_ok_removes: "draft_ok d \<Longrightarrow> draft_ok (fold removeField rts d)"
  by (induction rts arbitrary: d) (simp_all add: draft_ok_remove)

lemma remove_ok:
  assumes "resolutions_ok r"
  shows "resolutions_ok (applyResolutionRemovals r rs)"
proof -
  have "resolutions_ok (fold (planStep r) p r)" if "distinct (map fst p)" for p
    using that assms
    by (auto simp: resolutions_ok_def plan_fold_lookup Let_def draft_ok_removes split: option.splits if_splits)
  then show ?thesis
    using assms by (simp add: applyResolutionRemovals_def applyResolutionRemovalPlan_def plan_distinct)
qed

lemma step_ok: "sync_step r r' \<Longrightarrow> resolutions_ok r \<Longrightarrow> resolutions_ok r'"
  by (induction rule: sync_step.induct) (simp_all add: select_ok remove_ok)

interpretation sync_sys: invariant_system sync_step resolutions_ok
  by unfold_locales (rule step_ok)

text \<open>
  C13. However values are chosen and taken back, the choices that are going to be saved are consistent:
  a model never has a fixed price and a ratio at once, a billing expression never comes without a
  billing mode, and no model is listed without a choice.
\<close>

theorem resolutions_consistent:
  assumes "sync_step\<^sup>*\<^sup>* [] r" and "map_of r m = Some d"
  shows "d \<noteq> [] \<and> (map_of d ModelPrice = None \<or> list_all (\<lambda>rt. map_of d rt = None) RATIO_SYNC_FIELDS)
    \<and> (map_of d BillingMode \<noteq> None \<or> map_of d BillingExprField = None)"
  using sync_sys.inv_steps [OF assms(1)] assms(2) by (auto simp: resolutions_ok_def draft_ok_def)

definition ratio_choices :: "ResolutionSelection list" where
  "ratio_choices =
     [\<lparr>sel_model = js ''gpt'', sel_ratioType = ModelRatio, sel_value = SNum 2, sel_sourceName = js ''up''\<rparr>,
      \<lparr>sel_model = js ''gpt'', sel_ratioType = ModelPrice, sel_value = SNum 1, sel_sourceName = js ''up''\<rparr>]"

definition ratio_sample :: "ResolutionsMap" where
  "ratio_sample = applyResolutionSelections [] [(js ''gpt'', [])] ratio_choices"

theorem resolutions_consistent_witness:
  "sync_step\<^sup>*\<^sup>* [] ratio_sample \<and> map_of ratio_sample (js ''gpt'') = Some [(ModelPrice, SNum 1)]
    \<and> list_all (\<lambda>rt. map_of [(ModelPrice, SNum 1)] rt = None) RATIO_SYNC_FIELDS"
proof -
  have s: "sync_step\<^sup>*\<^sup>* [] ratio_sample"
    unfolding ratio_sample_def by (rule r_into_rtranclp, rule select) (simp add: js_def ratio_choices_def)
  have m: "map_of ratio_sample (js ''gpt'') = Some [(ModelPrice, SNum 1)]"
    by code_simp
  from resolutions_consistent [OF s m] s m show ?thesis by simp
qed

section \<open>The effective choices of a column\<close>

lemma ratio_name_no_zero: "0 \<notin> set (ratio_name rt)"
  by (cases rt) (simp_all add: js_def)

lemma ratio_name_inj: "ratio_name a = ratio_name b \<longleftrightarrow> a = b"
  by (cases a; cases b; simp add: js_def)

lemma eff_key_inj: "eff_key a = eff_key b \<longleftrightarrow> sel_model a = sel_model b \<and> sel_ratioType a = sel_ratioType b"
proof -
  have "xs @ 0 # ys = xs' @ 0 # ys' \<longleftrightarrow> xs = xs' \<and> ys = ys'"
    if "0 \<notin> set ys" "0 \<notin> set ys'" for xs ys xs' ys' :: jsstr
    using that by (auto simp: append_eq_append_conv2 append_eq_Cons_conv Cons_eq_append_conv)
  then show ?thesis by (simp add: eff_key_def ratio_name_no_zero ratio_name_inj)
qed

definition eff_wf :: "(jsstr \<times> ResolutionSelection) list \<Rightarrow> bool" where
  "eff_wf eff \<longleftrightarrow> (\<forall>(k, e) \<in> set eff. k = eff_key e) \<and> distinct (map fst eff)"

definition ekey :: "jsstr \<Rightarrow> RatioType \<Rightarrow> jsstr" where
  "ekey m rt = m @ 0 # ratio_name rt"

lemma ekey_eff: "eff_key e = ekey m rt \<longleftrightarrow> sel_model e = m \<and> sel_ratioType e = rt"
  using eff_key_inj [of e "e\<lparr>sel_model := m, sel_ratioType := rt\<rparr>"] by (simp add: eff_key_def ekey_def)

lemma ekey_eff': "ekey m rt = eff_key e \<longleftrightarrow> sel_model e = m \<and> sel_ratioType e = rt"
  using ekey_eff [of e m rt] by auto

lemma map_of_filter_values:
  "distinct (map fst d) \<Longrightarrow> map_of (filter (\<lambda>(k, v). P v) d) k =
     (case map_of d k of Some v \<Rightarrow> if P v then Some v else None | None \<Rightarrow> None)"
proof (induction d)
  case (Cons p d)
  then show ?case
    by (cases p) (auto simp: map_of_eq_None_iff image_iff split: option.split)
qed simp

lemma distinct_filter_keys: "distinct (map fst d) \<Longrightarrow> distinct (map fst (filter P d))"
  by (induction d) auto

lemma eff_wf_step: "eff_wf eff \<Longrightarrow> eff_wf (effectiveStep D s eff)"
  using al_put_entries [of "eff_key (resolveResolutionSelection D s)" "resolveResolutionSelection D s"]
  by (fastforce simp: eff_wf_def effectiveStep_def Let_def distinct_al_put distinct_filter_keys)

lemma eff_wf_lookup:
  assumes "eff_wf eff" and "map_of eff (ekey m rt) = Some e"
  shows "sel_model e = m" and "sel_ratioType e = rt"
proof -
  have "eff_key e = ekey m rt"
    using map_of_SomeD [OF assms(2)] assms(1) by (auto simp: eff_wf_def)
  then show "sel_model e = m" and "sel_ratioType e = rt" by (simp_all add: ekey_eff)
qed

lemma resolve_model [simp]: "sel_model (resolveResolutionSelection D s) = sel_model s"
  by (simp add: resolveResolutionSelection_def Let_def)

lemma effectiveStep_plain:
  assumes wf: "eff_wf eff" and plain: "getBillingCategory rt \<noteq> CatTiered"
  shows "map_of (effectiveStep D s eff) (ekey m rt) =
    (let e = resolveResolutionSelection D s; c = getBillingCategory (sel_ratioType e)
     in if sel_model s = m \<and> rt = sel_ratioType e then Some e
        else if sel_model s = m \<and> c \<noteq> CatTiered \<and> getBillingCategory rt \<noteq> c then None
        else map_of eff (ekey m rt))"
proof -
  let ?e = "resolveResolutionSelection D s"
  have k: "ekey m rt = eff_key ?e \<longleftrightarrow> sel_model s = m \<and> rt = sel_ratioType ?e"
    by (auto simp: ekey_eff')
  have d: "distinct (map fst eff)" using wf by (simp add: eff_wf_def)
  show ?thesis
    using eff_wf_lookup [OF wf] plain
    by (auto simp: effectiveStep_def Let_def map_of_al_put k map_of_filter_values [OF d] split: option.split)
qed

lemma effective_simulates:
  assumes "getBillingCategory rt \<noteq> CatTiered"
  shows "eff_wf eff \<Longrightarrow> map_of d rt = map_option sel_value (map_of eff (ekey m rt)) \<Longrightarrow>
    map_of (fold (draftStep D) (for_model m ss) d) rt =
      map_option sel_value (map_of (fold (effectiveStep D) ss eff) (ekey m rt))
    \<and> eff_wf (fold (effectiveStep D) ss eff)"
proof (induction ss arbitrary: d eff)
  case (Cons s ss)
  have "map_of (if sel_model s = m then draftStep D s d else d) rt =
      map_option sel_value (map_of (effectiveStep D s eff) (ekey m rt))"
    unfolding effectiveStep_plain [OF Cons.prems(1) assms] if_distrib [of "\<lambda>d. map_of d rt"]
      draftStep_plain [OF assms] Let_def
    using Cons.prems(2) by auto
  then show ?case
    using Cons.IH [of "effectiveStep D s eff" "if sel_model s = m then draftStep D s d else d"]
      eff_wf_step [OF Cons.prems(1)] by (simp split: if_splits)
qed simp

lemma find_values:
  assumes "eff_wf eff"
  shows "List.find (\<lambda>e. sel_model e = m \<and> sel_ratioType e = rt) (map snd eff) = map_of eff (ekey m rt)"
  using assms by (induction eff) (auto simp: eff_wf_def ekey_eff ekey_eff')

text \<open>
  The list of effective choices, from which the select-all state of an upstream column is computed,
  agrees with what is stored: starting from nothing chosen, a price or ratio is stored for a model exactly when the
  list has it, and with the value the list shows, so a choice that a later one of the other kind
  replaces is in neither.
\<close>

theorem effective_choices_stored:
  assumes "getBillingCategory rt \<noteq> CatTiered"
  shows "Option.bind (map_of (applyResolutionSelections [] D ss) m) (\<lambda>d. map_of d rt) =
    map_option sel_value (List.find (\<lambda>e. sel_model e = m \<and> sel_ratioType e = rt) (getEffectiveResolutionSelections D ss))"
proof -
  have e: "eff_wf []" by (simp add: eff_wf_def)
  note sim = effective_simulates [OF assms e, of "[]" m D ss, simplified]
  show ?thesis
    unfolding getEffectiveResolutionSelections_def find_values [OF conjunct2 [OF sim]] selections_lookup
    using sim by auto
qed

theorem effective_choices_stored_witness:
  "Option.bind (map_of (applyResolutionSelections [] [] ratio_choices) (js ''gpt'')) (\<lambda>d. map_of d ModelPrice) =
    map_option sel_value (List.find (\<lambda>e. sel_model e = js ''gpt'' \<and> sel_ratioType e = ModelPrice)
      (getEffectiveResolutionSelections [] ratio_choices))
   \<and> map_of (applyResolutionSelections [] [] ratio_choices) (js ''gpt'') = Some [(ModelPrice, SNum 1)]"
proof -
  have p: "getBillingCategory ModelPrice \<noteq> CatTiered" by simp
  have m: "map_of (applyResolutionSelections [] [] ratio_choices) (js ''gpt'') = Some [(ModelPrice, SNum 1)]"
    by code_simp
  from effective_choices_stored [OF p, of "[]" ratio_choices "js ''gpt''"] m show ?thesis by simp
qed

end
