(* ===== verification/JsSort.thy ===== *)
theory JsSort
  imports Complex_Main JsPrelude "HOL-Library.Multiset"
begin

text \<open>
  \<open>Array.prototype.sort\<close> with a comparator, and the order of texts that \<open>localeCompare\<close> gives.

  The language prescribes a stable sort; for a consistent comparator its result is therefore unique,
  and insertion sort computes it. \<open>localeCompare\<close> depends on the locale of the browser: it is an
  argument of the definitions that use it, with the contract \<open>comparison\<close>.
\<close>

section \<open>Sorting\<close>

fun insert_by :: "('a \<Rightarrow> 'a \<Rightarrow> rat) \<Rightarrow> 'a \<Rightarrow> 'a list \<Rightarrow> 'a list" where
  "insert_by cmp x [] = [x]"
| "insert_by cmp x (y # ys) = (if cmp x y \<le> 0 then x # y # ys else y # insert_by cmp x ys)"

definition js_sort :: "('a \<Rightarrow> 'a \<Rightarrow> rat) \<Rightarrow> 'a list \<Rightarrow> 'a list" where
  "js_sort cmp xs = foldr (insert_by cmp) xs []"

text \<open>\<open>a || b\<close> on numbers, the idiom that chains comparisons.\<close>

definition or_num :: "rat \<Rightarrow> rat \<Rightarrow> rat" where
  "or_num a b = (if a \<noteq> 0 then a else b)"

lemma js_sort_sorted: "sorted_wrt (\<lambda>x y. cmp x y \<le> 0) xs \<Longrightarrow> js_sort cmp xs = xs"
proof (induction xs)
  case (Cons x xs)
  then have "js_sort cmp (x # xs) = insert_by cmp x xs" by (simp add: js_sort_def)
  with Cons.prems show ?case by (cases xs) auto
qed (simp add: js_sort_def)

lemma mset_insert_by [simp]: "mset (insert_by cmp x ys) = add_mset x (mset ys)"
  by (induction ys) auto

lemma mset_js_sort [simp]: "mset (js_sort cmp xs) = mset xs"
  by (induction xs) (simp_all add: js_sort_def)

lemma set_js_sort [simp]: "set (js_sort cmp xs) = set xs"
  by (metis mset_js_sort set_mset_mset)

lemma length_js_sort [simp]: "length (js_sort cmp xs) = length xs"
  by (metis mset_js_sort size_mset)

lemma distinct_js_sort [simp]: "distinct (js_sort cmp xs) = distinct xs"
  by (metis mset_js_sort mset_eq_imp_distinct_iff)

lemma sum_list_map_js_sort [simp]:
  fixes f :: "'a \<Rightarrow> 'b::comm_monoid_add"
  shows "sum_list (map f (js_sort cmp xs)) = sum_list (map f xs)"
  by (metis mset_js_sort mset_map sum_mset_sum_list)

lemma filter_js_sort_sum [simp]:
  fixes f :: "'a \<Rightarrow> 'b::comm_monoid_add"
  shows "sum_list (map f (filter P (js_sort cmp xs))) = sum_list (map f (filter P xs))"
  by (metis mset_filter mset_js_sort mset_map sum_mset_sum_list)

lemma insert_by_map:
  "(\<And>y. cmp (f x) (f y) = cmp' x y) \<Longrightarrow> insert_by cmp (f x) (map f ys) = map f (insert_by cmp' x ys)"
  by (induction ys) simp_all

lemma js_sort_map:
  "(\<And>x y. cmp (f x) (f y) = cmp' x y) \<Longrightarrow> js_sort cmp (map f xs) = map f (js_sort cmp' xs)"
  unfolding js_sort_def by (induction xs) (simp_all add: insert_by_map)

section \<open>Consistent comparators\<close>

locale comparison =
  fixes cmp :: "'a \<Rightarrow> 'a \<Rightarrow> rat"
  assumes swap: "cmp x y \<le> 0 \<longleftrightarrow> 0 \<le> cmp y x"
    and trans: "cmp x y \<le> 0 \<Longrightarrow> cmp y z \<le> 0 \<Longrightarrow> cmp x z \<le> 0"
begin

lemma total: "cmp x y \<le> 0 \<or> cmp y x \<le> 0"
  using swap [of x y] swap [of y x] by linarith

lemma cmp_refl: "cmp x x = 0"
  using swap [of x x] total [of x x] by linarith

lemma sorted_insert_by:
  "sorted_wrt (\<lambda>x y. cmp x y \<le> 0) ys \<Longrightarrow> sorted_wrt (\<lambda>x y. cmp x y \<le> 0) (insert_by cmp x ys)"
proof (induction ys)
  case (Cons y ys)
  have s: "set (insert_by cmp x ys) = insert x (set ys)"
    by (metis mset_insert_by set_mset_add_mset_insert set_mset_mset)
  show ?case
  proof (cases "cmp x y \<le> 0")
    case True
    with Cons.prems show ?thesis by (auto intro: trans)
  next
    case False
    with total have "cmp y x \<le> 0" by blast
    with False Cons show ?thesis by (auto simp: s)
  qed
qed simp

lemma sorted_js_sort: "sorted_wrt (\<lambda>x y. cmp x y \<le> 0) (js_sort cmp xs)"
  unfolding js_sort_def by (induction xs) (simp_all add: sorted_insert_by)

text \<open>What a prefix of a sorted list has to do with the rest.\<close>

lemma take_before_drop:
  "x \<in> set (take n (js_sort cmp xs)) \<Longrightarrow> y \<in> set (drop n (js_sort cmp xs)) \<Longrightarrow> cmp x y \<le> 0"
  using sorted_js_sort [of xs] unfolding sorted_wrt_append
  by (metis (no_types, lifting) append_take_drop_id sorted_wrt_append)

end

text \<open>A comparator by number, chained with a consistent one, is consistent.\<close>

lemma comparison_then:
  assumes "comparison c"
  shows "comparison (\<lambda>x y. or_num (f y - f x) (c x y))"
proof
  note sw = comparison.swap [OF assms] and tr = comparison.trans [OF assms]
  show "or_num (f y - f x) (c x y) \<le> 0 \<longleftrightarrow> 0 \<le> or_num (f x - f y) (c y x)" for x y
    using sw [of x y] by (auto simp: or_num_def)
  show "or_num (f z - f x) (c x z) \<le> 0"
    if "or_num (f y - f x) (c x y) \<le> 0" "or_num (f z - f y) (c y z) \<le> 0" for x y z
    using that tr [of x y z] by (auto simp: or_num_def split: if_splits)
qed

lemma comparison_chain:
  assumes "comparison c" "comparison d"
  shows "comparison (\<lambda>x y. or_num (c x y) (d x y))"
proof
  note cs = comparison.swap [OF assms(1)] and ct = comparison.trans [OF assms(1)]
  note ds = comparison.swap [OF assms(2)] and dt = comparison.trans [OF assms(2)]
  show "or_num (c x y) (d x y) \<le> 0 \<longleftrightarrow> 0 \<le> or_num (c y x) (d y x)" for x y
    using cs [of x y] cs [of y x] ds [of x y] by (auto simp: or_num_def)
  show "or_num (c x z) (d x z) \<le> 0"
    if "or_num (c x y) (d x y) \<le> 0" "or_num (c y z) (d y z) \<le> 0" for x y z
  proof -
    have le: "c x y \<le> 0" "c y z \<le> 0" using that by (auto simp: or_num_def split: if_splits)
    have xz: "c x z \<le> 0" using ct [OF le] .
    show ?thesis
    proof (cases "c x z = 0")
      case True
      have zx: "c z x \<le> 0" using cs [of z x] True by simp
      have "0 \<le> c x y" using ct [OF le(2) zx] cs [of y x] by simp
      then have "c x y = 0" using le(1) by simp
      moreover have "0 \<le> c y z" using ct [OF zx le(1)] cs [of z y] by simp
      then have "c y z = 0" using le(2) by simp
      ultimately show ?thesis using that True dt [of x y z] by (auto simp: or_num_def)
    next
      case False
      with xz show ?thesis by (simp add: or_num_def)
    qed
  qed
qed

lemma comparison_on: "comparison c \<Longrightarrow> comparison (\<lambda>x y. c (f x) (f y))"
  unfolding comparison_def by blast

section \<open>Texts by code units\<close>

text \<open>The order of texts by code units, which the language uses where no comparator is given.\<close>

fun unit_compare :: "jsstr \<Rightarrow> jsstr \<Rightarrow> rat" where
  "unit_compare [] [] = 0"
| "unit_compare [] (d # ds) = - 1"
| "unit_compare (c # cs) [] = 1"
| "unit_compare (c # cs) (d # ds) = (if c < d then - 1 else if d < c then 1 else unit_compare cs ds)"

lemma unit_compare_swap: "unit_compare x y \<le> 0 \<longleftrightarrow> 0 \<le> unit_compare y x"
  by (induction x y rule: unit_compare.induct) auto

lemma unit_compare_trans: "unit_compare x y \<le> 0 \<Longrightarrow> unit_compare y z \<le> 0 \<Longrightarrow> unit_compare x z \<le> 0"
proof (induction x y arbitrary: z rule: unit_compare.induct)
  case (2 d ds)
  then show ?case by (cases z) auto
next
  case (4 c cs d ds)
  show ?case
  proof (cases z)
    case (Cons e es)
    from "4.prems" "4.IH" [of es] show ?thesis
      by (cases "c < d"; cases "d < c"; cases "d < e"; cases "e < d") (simp_all add: Cons)
  qed (use 4 in simp)
qed auto

interpretation units: comparison unit_compare
  by unfold_locales (rule unit_compare_swap, rule unit_compare_trans)

end
