(* ===== verification/FlowGraph.thy ===== *)
theory FlowGraph
  imports JsJson JsSort
begin

text \<open>
  The usage flow of the dashboard, \<open>features/dashboard/lib/flow.ts\<close>: rows of usage become paths
  through columns (user, node, token, group, model, channel), and paths become the nodes and links
  of a Sankey graph, with limits, filters, masking and highlighting.

  A \<open>Map\<close> and a \<open>Set\<close> are association lists and lists in insertion order; the objects of a map are
  updated in place by the code and replaced here. \<open>localeCompare\<close>, \<open>toFixed(2)\<close>, the number format
  of the browser and the colour scheme of the chart library are the fields of \<open>FlowEnv\<close>. Numbers of
  a row are exact rationals; a missing one counts as 0.
\<close>

section \<open>Data\<close>

record FlowEnv =
  env_compare :: "jsstr \<Rightarrow> jsstr \<Rightarrow> rat"
  env_scheme :: "(nat option \<times> jsstr option list) list"
  env_fixed2 :: "rat \<Rightarrow> jsstr"
  env_format :: "rat \<Rightarrow> jsstr"

record FlowQuotaDataItem =
  fq_user_id :: "rat option"
  fq_username :: "jsstr option"
  fq_node_name :: "jsstr option"
  fq_use_group :: "jsstr option"
  fq_token_id :: "rat option"
  fq_token_name :: "jsstr option"
  fq_channel_id :: "rat option"
  fq_channel_name :: "jsstr option"
  fq_model_name :: "jsstr option"
  fq_token_used :: "rat option"
  fq_count :: "rat option"
  fq_quota :: "rat option"

datatype FlowMetric = MetricQuota | MetricTokens | MetricRequests
datatype FlowOverflowMode = Aggregate | Hide
datatype FlowRole = FlowUser | FlowAdmin | FlowRoot
datatype FlowNodeKind = KUser | KNode | KToken | KGroup | KModel | KChannel

primrec kind_name :: "FlowNodeKind \<Rightarrow> jsstr" where
  "kind_name KUser = js ''user''"
| "kind_name KNode = js ''node''"
| "kind_name KToken = js ''token''"
| "kind_name KGroup = js ''group''"
| "kind_name KModel = js ''model''"
| "kind_name KChannel = js ''channel''"

record FlowNodeFilter =
  nf_kind :: FlowNodeKind
  nf_id :: jsstr

record FlowLinkSelection =
  ls_source :: jsstr
  ls_target :: jsstr

record FlowMetrics =
  fm_quota :: rat
  fm_tokens :: rat
  fm_requests :: rat

record FlowPathNode =
  pn_id :: jsstr
  pn_label :: jsstr
  pn_kind :: FlowNodeKind

record PreparedFlowPath =
  pp_path :: "FlowPathNode list"
  pp_metrics :: FlowMetrics

record FlowNodeRank =
  rk_node :: FlowPathNode
  rk_value :: rat

record FlowPathContext =
  ctx_deletedTokenLabel :: "(rat \<Rightarrow> jsstr) option"

record FlowGraphOptions =
  go_topNodeLimit :: "rat option"
  go_overflowMode :: "FlowOverflowMode option"
  go_otherNodeLabel :: "(FlowNodeKind \<Rightarrow> jsstr) option"
  go_activeNode :: "FlowNodeFilter option"
  go_activeLink :: "FlowLinkSelection option"
  go_maskSensitive :: bool

record FlowBuildOptions =
  bo_role :: "FlowRole option"
  bo_selectedUsers :: "jsstr list option"
  bo_selectedNodes :: "FlowNodeFilter list option"
  bo_colorPalette :: "jsstr list option"
  bo_visibleStages :: "FlowNodeKind list option"
  bo_deletedTokenLabel :: "(rat \<Rightarrow> jsstr) option"
  bo_graph :: FlowGraphOptions

record FlowHighlightSets =
  hs_nodes :: "jsstr list"
  hs_links :: "jsstr list"

record DashboardFlowNode =
  dn_id :: jsstr
  dn_label :: jsstr
  dn_kind :: FlowNodeKind
  dn_value :: rat
  dn_requests :: rat
  dn_quota :: rat
  dn_tokens :: rat
  dn_color :: jsstr
  dn_colorKey :: jsstr
  dn_highlighted :: "bool option"
  dn_dimmed :: "bool option"

record DashboardFlowLink =
  dl_source :: jsstr
  dl_target :: jsstr
  dl_value :: rat
  dl_requests :: rat
  dl_quota :: rat
  dl_tokens :: rat
  dl_sourceLabel :: jsstr
  dl_targetLabel :: jsstr
  dl_color :: jsstr
  dl_linkColor :: jsstr
  dl_linkAlpha :: rat
  dl_hoverColor :: jsstr
  dl_colorKey :: jsstr
  dl_share :: rat
  dl_highlighted :: "bool option"
  dl_dimmed :: "bool option"

record DashboardFlowGraph =
  fg_nodes :: "DashboardFlowNode list"
  fg_links :: "DashboardFlowLink list"

record FlowUserFilterOption =
  uo_value :: jsstr
  uo_label :: jsstr
  uo_valueLabel :: jsstr
  uo_valueRaw :: rat
  uo_color :: jsstr

record FlowNodeFilterOption =
  no_kind :: FlowNodeKind
  no_value :: jsstr
  no_label :: jsstr
  no_valueLabel :: jsstr
  no_valueRaw :: rat
  no_color :: jsstr

record FlowFilterOptions =
  fo_users :: "FlowUserFilterOption list"
  fo_nodes :: "FlowNodeFilterOption list"

record FlowSummary =
  fs_quota :: rat
  fs_tokens :: rat
  fs_requests :: rat

record ProcessedFlowData =
  pf_summary :: FlowSummary
  pf_flow :: DashboardFlowGraph
  pf_filterOptions :: FlowFilterOptions

definition DEFAULT_FLOW_CHART_COLOR :: jsstr where
  "DEFAULT_FLOW_CHART_COLOR = js ''#1664FF''"

definition OTHER_FLOW_NODE_IDS :: "FlowNodeKind \<Rightarrow> jsstr" where
  "OTHER_FLOW_NODE_IDS kind = kind_name kind @ js '':__other__''"

primrec DEFAULT_OTHER_FLOW_NODE_LABELS :: "FlowNodeKind \<Rightarrow> jsstr" where
  "DEFAULT_OTHER_FLOW_NODE_LABELS KUser = js ''Other users''"
| "DEFAULT_OTHER_FLOW_NODE_LABELS KNode = js ''Other nodes''"
| "DEFAULT_OTHER_FLOW_NODE_LABELS KToken = js ''Other tokens''"
| "DEFAULT_OTHER_FLOW_NODE_LABELS KGroup = js ''Other groups''"
| "DEFAULT_OTHER_FLOW_NODE_LABELS KModel = js ''Other models''"
| "DEFAULT_OTHER_FLOW_NODE_LABELS KChannel = js ''Other channels''"

definition FLOW_NODE_KINDS :: "FlowNodeKind list" where
  "FLOW_NODE_KINDS = [KUser, KNode, KToken, KGroup, KModel, KChannel]"

definition SENSITIVE_FLOW_KINDS :: "FlowNodeKind list" where
  "SENSITIVE_FLOW_KINDS = [KUser, KNode, KToken, KGroup, KChannel]"

definition OTHER_FLOW_NODE_ID_SET :: "jsstr list" where
  "OTHER_FLOW_NODE_ID_SET = map OTHER_FLOW_NODE_IDS FLOW_NODE_KINDS"

section \<open>Rows and paths\<close>

definition numberValue :: "rat option \<Rightarrow> rat" where
  "numberValue v = (case v of Some r \<Rightarrow> r | None \<Rightarrow> 0)"

definition rowMetrics :: "FlowQuotaDataItem \<Rightarrow> FlowMetrics" where
  "rowMetrics row = \<lparr>fm_quota = numberValue (fq_quota row), fm_tokens = numberValue (fq_token_used row),
     fm_requests = numberValue (fq_count row)\<rparr>"

definition metricValue :: "FlowMetrics \<Rightarrow> FlowMetric \<Rightarrow> rat" where
  "metricValue metrics metric =
     (if metric = MetricRequests then fm_requests metrics
      else if metric = MetricTokens then fm_tokens metrics else fm_quota metrics)"

definition userNode :: "FlowQuotaDataItem \<Rightarrow> FlowPathNode" where
  "userNode row =
     (let userID = numberValue (fq_user_id row)
      in \<lparr>pn_id = (if userID > 0 then js ''user:'' @ num_str userID
                   else js ''user:'' @ str_or (fq_username row) (js ''unknown'')),
          pn_label = str_or (fq_username row) (if userID > 0 then js ''user-'' @ num_str userID else js ''Unknown User''),
          pn_kind = KUser\<rparr>)"

definition nodeNameNode :: "FlowQuotaDataItem \<Rightarrow> FlowPathNode" where
  "nodeNameNode row =
     (let nodeName = str_or (fq_node_name row) (js ''default-node'')
      in \<lparr>pn_id = js ''node:'' @ nodeName, pn_label = nodeName, pn_kind = KNode\<rparr>)"

definition deletedTokenLabel :: "rat \<Rightarrow> FlowPathContext \<Rightarrow> jsstr" where
  "deletedTokenLabel tokenID ctx =
     (if tokenID \<le> 0 then js ''Unknown Token''
      else case ctx_deletedTokenLabel ctx of Some f \<Rightarrow> f tokenID | None \<Rightarrow> js ''token-'' @ num_str tokenID)"

definition tokenNode :: "FlowQuotaDataItem \<Rightarrow> FlowPathContext \<Rightarrow> FlowPathNode" where
  "tokenNode row ctx =
     (let tokenID = numberValue (fq_token_id row)
      in \<lparr>pn_id = (if tokenID > 0 then js ''token:'' @ num_str tokenID
                   else js ''token:'' @ str_or (fq_token_name row) (js ''unknown'')),
          pn_label = str_or (fq_token_name row) (deletedTokenLabel tokenID ctx),
          pn_kind = KToken\<rparr>)"

definition groupNode :: "FlowQuotaDataItem \<Rightarrow> FlowPathNode" where
  "groupNode row =
     (let useGroup = str_or (fq_use_group row) (js ''unknown'')
      in \<lparr>pn_id = js ''group:'' @ useGroup, pn_label = useGroup, pn_kind = KGroup\<rparr>)"

definition modelNode :: "FlowQuotaDataItem \<Rightarrow> FlowPathNode" where
  "modelNode row =
     (let model = str_or (fq_model_name row) (js ''unknown'')
      in \<lparr>pn_id = js ''model:'' @ model, pn_label = str_or (fq_model_name row) (js ''Unknown Model''), pn_kind = KModel\<rparr>)"

definition channelNode :: "FlowQuotaDataItem \<Rightarrow> FlowPathNode" where
  "channelNode row =
     (let channelID = numberValue (fq_channel_id row)
      in \<lparr>pn_id = (if channelID > 0 then js ''channel:'' @ num_str channelID
                   else js ''channel:'' @ str_or (fq_channel_name row) (js ''unknown'')),
          pn_label = str_or (fq_channel_name row) (if channelID > 0 then js ''channel-'' @ num_str channelID else js ''Unknown''),
          pn_kind = KChannel\<rparr>)"

primrec NODE_BUILDERS :: "FlowNodeKind \<Rightarrow> FlowQuotaDataItem \<Rightarrow> FlowPathContext \<Rightarrow> FlowPathNode" where
  "NODE_BUILDERS KUser = (\<lambda>row ctx. userNode row)"
| "NODE_BUILDERS KNode = (\<lambda>row ctx. nodeNameNode row)"
| "NODE_BUILDERS KToken = tokenNode"
| "NODE_BUILDERS KGroup = (\<lambda>row ctx. groupNode row)"
| "NODE_BUILDERS KModel = (\<lambda>row ctx. modelNode row)"
| "NODE_BUILDERS KChannel = (\<lambda>row ctx. channelNode row)"

primrec ROLE_FLOW_STAGES :: "FlowRole \<Rightarrow> FlowNodeKind list" where
  "ROLE_FLOW_STAGES FlowRoot = [KUser, KNode, KToken, KGroup, KModel, KChannel]"
| "ROLE_FLOW_STAGES FlowAdmin = [KUser, KGroup, KModel, KChannel]"
| "ROLE_FLOW_STAGES FlowUser = [KToken, KGroup, KModel]"

definition MIN_FLOW_STAGES :: nat where
  "MIN_FLOW_STAGES = 2"

definition getFlowStages :: "FlowRole \<Rightarrow> FlowNodeKind list" where
  "getFlowStages role = ROLE_FLOW_STAGES role"

definition resolveVisibleStages :: "FlowRole \<Rightarrow> FlowNodeKind list option \<Rightarrow> FlowNodeKind list" where
  "resolveVisibleStages role visibleStages =
     (let stages = getFlowStages role
      in case visibleStages of
           None \<Rightarrow> stages
         | Some visible \<Rightarrow>
             (let filtered = filter (\<lambda>stage. stage \<in> set visible) stages
              in if length filtered \<ge> MIN_FLOW_STAGES then filtered else stages))"

definition flowPathForStages :: "FlowQuotaDataItem \<Rightarrow> FlowNodeKind list \<Rightarrow> FlowPathContext \<Rightarrow> FlowPathNode list" where
  "flowPathForStages row stages ctx = map (\<lambda>stage. NODE_BUILDERS stage row ctx) stages"

section \<open>Colours\<close>

definition getDashboardChartColors :: "FlowEnv \<Rightarrow> nat \<Rightarrow> jsstr list" where
  "getDashboardChartColors env domainLength =
     (let fits = (\<lambda>item. case fst item of None \<Rightarrow> True | Some k \<Rightarrow> k = 0 \<or> domainLength \<le> k);
          scheme = (case List.find fits (env_scheme env) of
                      Some item \<Rightarrow> snd item
                    | None \<Rightarrow> if env_scheme env = [] then [] else snd (last (env_scheme env)))
      in List.map_filter id scheme)"

definition colorAt :: "FlowEnv \<Rightarrow> nat \<Rightarrow> jsstr list option \<Rightarrow> jsstr" where
  "colorAt env index palette =
     (let colors = (case palette of
                      Some p \<Rightarrow> if length p > 0 then p else getDashboardChartColors env (index + 1)
                    | None \<Rightarrow> getDashboardChartColors env (index + 1))
      in if length colors = 0 then DEFAULT_FLOW_CHART_COLOR else colors ! (index mod length colors))"

definition colorPalette :: "FlowEnv \<Rightarrow> nat \<Rightarrow> jsstr list option \<Rightarrow> jsstr list" where
  "colorPalette env colorCount palette =
     (let fallback = (let colors = getDashboardChartColors env colorCount
                      in if length colors > 0 then colors else [DEFAULT_FLOW_CHART_COLOR])
      in case palette of Some p \<Rightarrow> if length p > 0 then p else fallback | None \<Rightarrow> fallback)"

definition alphaColor :: "FlowEnv \<Rightarrow> jsstr \<Rightarrow> rat \<Rightarrow> jsstr \<times> rat" where
  "alphaColor env color alpha =
     (let normalized = trim color;
          hex = (if starts_with (js ''#'') normalized then drop 1 normalized else normalized)
      in if length hex \<noteq> 6 then (normalized, alpha)
         else case radix_value 16 0 hex of
                None \<Rightarrow> (normalized, alpha)
              | Some v \<Rightarrow>
                  (js ''rgba('' @ nat_str (v div 65536 mod 256) @ js '', '' @ nat_str (v div 256 mod 256) @ js '', ''
                     @ nat_str (v mod 256) @ js '', '' @ env_fixed2 env alpha @ js '')'', 1))"

definition stableColorMap :: "FlowEnv \<Rightarrow> jsstr list \<Rightarrow> jsstr list option \<Rightarrow> (jsstr \<times> jsstr) list" where
  "stableColorMap env keys palette =
     (let uniqueKeys = dedup keys;
          colors = colorPalette env (length uniqueKeys) palette
      in map (\<lambda>i. (uniqueKeys ! i, colorAt env i (Some colors))) [0..<length uniqueKeys])"

section \<open>Filters\<close>

definition filterRows :: "FlowQuotaDataItem list \<Rightarrow> FlowBuildOptions \<Rightarrow> FlowQuotaDataItem list" where
  "filterRows rows options =
     (let selectedUsers = (case bo_selectedUsers options of Some us \<Rightarrow> us | None \<Rightarrow> [])
      in if selectedUsers = [] then rows
         else filter (\<lambda>row. pn_id (userNode row) \<in> set selectedUsers) rows)"

definition nodeFilterKey :: "FlowNodeFilter \<Rightarrow> jsstr" where
  "nodeFilterKey flt = kind_name (nf_kind flt) @ 0 # nf_id flt"

definition addFilter ::
  "FlowNodeKind list \<Rightarrow> FlowNodeFilter \<Rightarrow> (FlowNodeKind \<times> jsstr list) list \<Rightarrow> (FlowNodeKind \<times> jsstr list) list" where
  "addFilter stages flt filters =
     (if nf_kind flt \<notin> set stages then filters
      else let selected = (case map_of filters (nf_kind flt) of Some ids \<Rightarrow> ids | None \<Rightarrow> [])
           in al_put (nf_kind flt) (if nf_id flt \<in> set selected then selected else selected @ [nf_id flt]) filters)"

definition normalizeSelectedNodeFilters ::
  "FlowNodeFilter list option \<Rightarrow> FlowNodeKind list \<Rightarrow> (FlowNodeKind \<times> jsstr list) list" where
  "normalizeSelectedNodeFilters selectedNodes stages =
     fold (addFilter stages) (case selectedNodes of Some ns \<Rightarrow> ns | None \<Rightarrow> []) []"

definition pathMatchesNodeFilters :: "FlowPathNode list \<Rightarrow> (FlowNodeKind \<times> jsstr list) list \<Rightarrow> bool" where
  "pathMatchesNodeFilters path filters \<longleftrightarrow>
     list_all (\<lambda>(kind, selectedIds).
       list_ex (\<lambda>i. list_ex (\<lambda>node. pn_kind node = kind \<and> pn_id node = i) path) selectedIds) filters"

definition filterRowsByNodes ::
  "FlowQuotaDataItem list \<Rightarrow> FlowNodeFilter list option \<Rightarrow> FlowNodeKind list \<Rightarrow> FlowPathContext
     \<Rightarrow> FlowQuotaDataItem list" where
  "filterRowsByNodes rows selectedNodes stages ctx =
     (let filters = normalizeSelectedNodeFilters selectedNodes stages
      in if filters = [] then rows
         else filter (\<lambda>row. pathMatchesNodeFilters (flowPathForStages row stages ctx) filters) rows)"

definition selectedNodeFiltersExceptKind :: "FlowNodeFilter list option \<Rightarrow> FlowNodeKind \<Rightarrow> FlowNodeFilter list option" where
  "selectedNodeFiltersExceptKind selectedNodes kind =
     (let filtered = filter (\<lambda>flt. nf_kind flt \<noteq> kind) (case selectedNodes of Some ns \<Rightarrow> ns | None \<Rightarrow> [])
      in if length filtered > 0 then Some filtered else None)"

section \<open>Nodes and links\<close>

definition addNode ::
  "FlowPathNode \<Rightarrow> FlowMetrics \<Rightarrow> FlowMetric \<Rightarrow> jsstr \<Rightarrow> jsstr
     \<Rightarrow> (jsstr \<times> DashboardFlowNode) list \<Rightarrow> (jsstr \<times> DashboardFlowNode) list" where
  "addNode pathNode metrics metric color colorKey m =
     (let previous = (case map_of m (pn_id pathNode) of
            Some n \<Rightarrow> n
          | None \<Rightarrow> \<lparr>dn_id = pn_id pathNode, dn_label = pn_label pathNode, dn_kind = pn_kind pathNode,
              dn_value = 0, dn_requests = 0, dn_quota = 0, dn_tokens = 0, dn_color = color, dn_colorKey = colorKey,
              dn_highlighted = None, dn_dimmed = None\<rparr>)
      in al_put (pn_id pathNode)
           (previous\<lparr>dn_value := dn_value previous + metricValue metrics metric,
              dn_requests := dn_requests previous + fm_requests metrics,
              dn_quota := dn_quota previous + fm_quota metrics,
              dn_tokens := dn_tokens previous + fm_tokens metrics\<rparr>) m)"

definition pathLinkKey :: "FlowPathNode \<Rightarrow> FlowPathNode \<Rightarrow> jsstr" where
  "pathLinkKey source target = pn_id source @ 0 # pn_id target"

definition addLink ::
  "FlowPathNode \<Rightarrow> FlowPathNode \<Rightarrow> FlowMetrics \<Rightarrow> FlowMetric \<Rightarrow> jsstr \<Rightarrow> jsstr
     \<Rightarrow> (jsstr \<times> DashboardFlowLink) list \<Rightarrow> (jsstr \<times> DashboardFlowLink) list" where
  "addLink source target metrics metric color colorKey m =
     (let key = pn_id source @ 0 # pn_id target;
          previous = (case map_of m key of
            Some l \<Rightarrow> l
          | None \<Rightarrow> \<lparr>dl_source = pn_id source, dl_target = pn_id target, dl_value = 0, dl_requests = 0, dl_quota = 0,
              dl_tokens = 0, dl_sourceLabel = pn_label source, dl_targetLabel = pn_label target, dl_color = color,
              dl_linkColor = color, dl_linkAlpha = 1, dl_hoverColor = color, dl_colorKey = colorKey, dl_share = 0,
              dl_highlighted = None, dl_dimmed = None\<rparr>)
      in al_put key
           (previous\<lparr>dl_value := dl_value previous + metricValue metrics metric,
              dl_requests := dl_requests previous + fm_requests metrics,
              dl_quota := dl_quota previous + fm_quota metrics,
              dl_tokens := dl_tokens previous + fm_tokens metrics\<rparr>) m)"

definition linkStableKey :: "DashboardFlowLink \<Rightarrow> jsstr" where
  "linkStableKey link = dl_source link @ 0 # dl_target link"

text \<open>
  Links are objects with distinct keys, so the object a sorted copy refers to is found by its key.
\<close>

definition groupLink ::
  "DashboardFlowLink \<Rightarrow> (jsstr \<times> DashboardFlowLink list) list \<Rightarrow> (jsstr \<times> DashboardFlowLink list) list" where
  "groupLink link bySource =
     al_put (dl_source link) ((case map_of bySource (dl_source link) of Some ls \<Rightarrow> ls | None \<Rightarrow> []) @ [link]) bySource"

definition displayColors :: "FlowEnv \<Rightarrow> DashboardFlowLink list \<Rightarrow> (jsstr \<times> jsstr \<times> rat) list" where
  "displayColors env sourceLinks =
     (let sortedLinks = js_sort (\<lambda>a b. or_num (dl_value b - dl_value a)
                                        (env_compare env (linkStableKey a) (linkStableKey b))) sourceLinks;
          denominator = max (length sortedLinks - 1) 1
      in map (\<lambda>i. (linkStableKey (sortedLinks ! i),
                alphaColor env (dl_color (sortedLinks ! i))
                  (if length sortedLinks = 1 then 34 / 100
                   else 24 / 100 + (of_nat i / of_nat denominator) * (2 / 10))))
           [0..<length sortedLinks])"

definition assignLinkDisplayColors :: "FlowEnv \<Rightarrow> DashboardFlowLink list \<Rightarrow> DashboardFlowLink list" where
  "assignLinkDisplayColors env links =
     (let display = concat (map (\<lambda>(_, ls). displayColors env ls) (fold groupLink links []))
      in map (\<lambda>l. case map_of display (linkStableKey l) of
                    Some (c, a) \<Rightarrow> l\<lparr>dl_linkColor := c, dl_linkAlpha := a, dl_hoverColor := dl_color l\<rparr>
                  | None \<Rightarrow> l) links)"

definition byValueThenLabel :: "FlowEnv \<Rightarrow> DashboardFlowNode \<Rightarrow> DashboardFlowNode \<Rightarrow> rat" where
  "byValueThenLabel env a b = or_num (dn_value b - dn_value a) (env_compare env (dn_label a) (dn_label b))"

text \<open>\<open>Number(a.flag) - Number(b.flag)\<close>; an absent flag makes it \<open>NaN\<close>, which \<open>||\<close> skips like 0.\<close>

definition flag_diff :: "bool option \<Rightarrow> bool option \<Rightarrow> rat" where
  "flag_diff a b = (case (a, b) of (Some x, Some y) \<Rightarrow> of_bool x - of_bool y | _ \<Rightarrow> 0)"

definition byLinkDrawPriority :: "FlowEnv \<Rightarrow> DashboardFlowLink \<Rightarrow> DashboardFlowLink \<Rightarrow> rat" where
  "byLinkDrawPriority env a b =
     or_num (flag_diff (dl_dimmed a) (dl_dimmed b))
       (or_num (flag_diff (dl_highlighted b) (dl_highlighted a))
         (or_num (dl_value b - dl_value a) (env_compare env (linkStableKey a) (linkStableKey b))))"

definition buildSummary :: "FlowQuotaDataItem list \<Rightarrow> FlowSummary" where
  "buildSummary rows =
     foldl (\<lambda>summary row. let metrics = rowMetrics row
        in summary\<lparr>fs_quota := fs_quota summary + fm_quota metrics, fs_tokens := fs_tokens summary + fm_tokens metrics,
             fs_requests := fs_requests summary + fm_requests metrics\<rparr>)
       \<lparr>fs_quota = 0, fs_tokens = 0, fs_requests = 0\<rparr> rows"

section \<open>The largest nodes of a column\<close>

definition normalizeTopNodeLimit :: "rat option \<Rightarrow> nat option" where
  "normalizeTopNodeLimit limit =
     (case limit of
        None \<Rightarrow> None
      | Some r \<Rightarrow> (let parsed = \<lfloor>r\<rfloor> in if parsed > 0 then Some (nat parsed) else None))"

definition otherFlowNode :: "FlowNodeKind \<Rightarrow> (FlowNodeKind \<Rightarrow> jsstr) option \<Rightarrow> FlowPathNode" where
  "otherFlowNode kind labeler =
     \<lparr>pn_id = OTHER_FLOW_NODE_IDS kind,
      pn_label = (case labeler of Some f \<Rightarrow> f kind | None \<Rightarrow> DEFAULT_OTHER_FLOW_NODE_LABELS kind),
      pn_kind = kind\<rparr>"

type_synonym StageTotals = "(jsstr \<times> FlowNodeRank) list"

definition addRank :: "rat \<Rightarrow> FlowPathNode \<Rightarrow> StageTotals \<Rightarrow> StageTotals" where
  "addRank value node stageTotals =
     (let current = (case map_of stageTotals (pn_id node) of Some r \<Rightarrow> r | None \<Rightarrow> \<lparr>rk_node = node, rk_value = 0\<rparr>)
      in al_put (pn_id node) (current\<lparr>rk_value := rk_value current + value\<rparr>) stageTotals)"

definition addTotal :: "rat \<Rightarrow> FlowPathNode \<Rightarrow> (FlowNodeKind \<times> StageTotals) list \<Rightarrow> (FlowNodeKind \<times> StageTotals) list" where
  "addTotal value node totals =
     (case map_of totals (pn_kind node) of
        None \<Rightarrow> totals
      | Some stageTotals \<Rightarrow> al_put (pn_kind node) (addRank value node stageTotals) totals)"

definition rankOrder :: "FlowEnv \<Rightarrow> FlowNodeRank \<Rightarrow> FlowNodeRank \<Rightarrow> rat" where
  "rankOrder env a b =
     or_num (rk_value b - rk_value a)
       (or_num (env_compare env (pn_label (rk_node a)) (pn_label (rk_node b)))
         (env_compare env (pn_id (rk_node a)) (pn_id (rk_node b))))"

definition topIds :: "FlowEnv \<Rightarrow> nat \<Rightarrow> StageTotals \<Rightarrow> jsstr list" where
  "topIds env limit stageTotals = map (\<lambda>r. pn_id (rk_node r)) (take limit (js_sort (rankOrder env) (map snd stageTotals)))"

definition stageTotals ::
  "FlowQuotaDataItem list \<Rightarrow> FlowMetric \<Rightarrow> FlowNodeKind list \<Rightarrow> FlowPathContext \<Rightarrow> (FlowNodeKind \<times> StageTotals) list" where
  "stageTotals rows metric stages ctx =
     fold (\<lambda>row totals. fold (addTotal (metricValue (rowMetrics row) metric)) (flowPathForStages row stages ctx) totals)
       rows (map (\<lambda>stage. (stage, [])) (dedup stages))"

definition buildTopNodeSets ::
  "FlowEnv \<Rightarrow> FlowQuotaDataItem list \<Rightarrow> FlowMetric \<Rightarrow> FlowNodeKind list \<Rightarrow> nat option \<Rightarrow> FlowPathContext
     \<Rightarrow> (FlowNodeKind \<times> jsstr list) list option" where
  "buildTopNodeSets env rows metric stages limit ctx =
     (case limit of
        None \<Rightarrow> None
      | Some n \<Rightarrow> if n = 0 then None
                  else Some (map (\<lambda>(kind, totals). (kind, topIds env n totals)) (stageTotals rows metric stages ctx)))"

definition isTopFlowNode :: "FlowPathNode \<Rightarrow> (FlowNodeKind \<times> jsstr list) list option \<Rightarrow> bool" where
  "isTopFlowNode node topNodeSets =
     (case Option.bind topNodeSets (\<lambda>sets. map_of sets (pn_kind node)) of
        None \<Rightarrow> True
      | Some topNodes \<Rightarrow> pn_id node \<in> set topNodes)"

definition applyTopNodeLimit ::
  "FlowPathNode list \<Rightarrow> (FlowNodeKind \<times> jsstr list) list option \<Rightarrow> FlowOverflowMode
     \<Rightarrow> (FlowNodeKind \<Rightarrow> jsstr) option \<Rightarrow> FlowPathNode list option" where
  "applyTopNodeLimit path topNodeSets mode labeler =
     (if topNodeSets = None then Some path
      else if \<not> list_ex (\<lambda>node. \<not> isTopFlowNode node topNodeSets) path then Some path
      else if mode = Hide then None
      else Some (map (\<lambda>node. if isTopFlowNode node topNodeSets then node else otherFlowNode (pn_kind node) labeler) path))"

section \<open>Highlighting and masking\<close>

definition pathLinks :: "FlowPathNode list \<Rightarrow> (FlowPathNode \<times> FlowPathNode) list" where
  "pathLinks path = zip path (tl path)"

definition pathContainsFlowNode :: "FlowPathNode list \<Rightarrow> FlowNodeFilter \<Rightarrow> bool" where
  "pathContainsFlowNode path flt \<longleftrightarrow> list_ex (\<lambda>node. pn_kind node = nf_kind flt \<and> pn_id node = nf_id flt) path"

definition pathContainsFlowLink :: "FlowPathNode list \<Rightarrow> FlowLinkSelection \<Rightarrow> bool" where
  "pathContainsFlowLink path link \<longleftrightarrow>
     list_ex (\<lambda>(s, t). pn_id s = ls_source link \<and> pn_id t = ls_target link) (pathLinks path)"

definition buildFlowHighlightSets ::
  "PreparedFlowPath list \<Rightarrow> FlowNodeFilter option \<Rightarrow> FlowLinkSelection option \<Rightarrow> FlowNodeKind list
     \<Rightarrow> FlowHighlightSets option" where
  "buildFlowHighlightSets preparedPaths activeNode activeLink stages =
     (let nodeActive = (case activeNode of Some n \<Rightarrow> nf_kind n \<in> set stages | None \<Rightarrow> False);
          matchesPath = (\<lambda>path. case activeLink of
              Some l \<Rightarrow> pathContainsFlowLink path l
            | None \<Rightarrow> (case activeNode of Some n \<Rightarrow> pathContainsFlowNode path n | None \<Rightarrow> False));
          matching = filter matchesPath (map pp_path preparedPaths);
          highlightedNodes = dedup (concat (map (map pn_id) matching));
          highlightedLinks = dedup (concat (map (\<lambda>path. map (\<lambda>(s, t). pathLinkKey s t) (pathLinks path)) matching))
      in if \<not> nodeActive \<and> activeLink = None then None
         else if highlightedNodes = [] then None
         else Some \<lparr>hs_nodes = highlightedNodes, hs_links = highlightedLinks\<rparr>)"

definition FLOW_MASK_TEXT :: jsstr where
  "FLOW_MASK_TEXT = [8226, 8226, 8226, 8226]"

definition maskFlowLabel :: "jsstr \<Rightarrow> jsstr" where
  "maskFlowLabel label = (if length label = 0 then label else FLOW_MASK_TEXT)"

definition maskedNode :: "DashboardFlowNode \<Rightarrow> bool" where
  "maskedNode node \<longleftrightarrow> dn_kind node \<in> set SENSITIVE_FLOW_KINDS \<and> dn_id node \<notin> set OTHER_FLOW_NODE_ID_SET"

definition maskLink :: "(jsstr \<times> jsstr) list \<Rightarrow> DashboardFlowLink \<Rightarrow> DashboardFlowLink" where
  "maskLink maskedById link =
     (let l1 = (case map_of maskedById (dl_source link) of Some m \<Rightarrow> link\<lparr>dl_sourceLabel := m\<rparr> | None \<Rightarrow> link)
      in case map_of maskedById (dl_target link) of Some m \<Rightarrow> l1\<lparr>dl_targetLabel := m\<rparr> | None \<Rightarrow> l1)"

definition maskFlowGraphLabels ::
  "(jsstr \<times> DashboardFlowNode) list \<times> (jsstr \<times> DashboardFlowLink) list
     \<Rightarrow> (jsstr \<times> DashboardFlowNode) list \<times> (jsstr \<times> DashboardFlowLink) list" where
  "maskFlowGraphLabels = (\<lambda>(nodes, links).
     let maskedById = map (\<lambda>n. (dn_id n, maskFlowLabel (dn_label n))) (filter maskedNode (map snd nodes));
         nodes' = map (\<lambda>(k, n). (k, if maskedNode n then n\<lparr>dn_label := maskFlowLabel (dn_label n)\<rparr> else n)) nodes
     in if length maskedById = 0 then (nodes', links)
        else (nodes', map (\<lambda>(k, l). (k, maskLink maskedById l)) links))"

definition highlightNode :: "FlowHighlightSets \<Rightarrow> DashboardFlowNode \<Rightarrow> DashboardFlowNode" where
  "highlightNode sets node =
     (let highlighted = dn_id node \<in> set (hs_nodes sets)
      in node\<lparr>dn_highlighted := Some highlighted, dn_dimmed := Some (\<not> highlighted)\<rparr>)"

definition highlightLink :: "FlowHighlightSets \<Rightarrow> DashboardFlowLink \<Rightarrow> DashboardFlowLink" where
  "highlightLink sets link =
     (let highlighted = linkStableKey link \<in> set (hs_links sets)
      in link\<lparr>dl_highlighted := Some highlighted, dl_dimmed := Some (\<not> highlighted)\<rparr>)"

definition applyFlowHighlights ::
  "(jsstr \<times> DashboardFlowNode) list \<times> (jsstr \<times> DashboardFlowLink) list \<Rightarrow> FlowHighlightSets option
     \<Rightarrow> (jsstr \<times> DashboardFlowNode) list \<times> (jsstr \<times> DashboardFlowLink) list" where
  "applyFlowHighlights = (\<lambda>(nodes, links) highlightSets.
     case highlightSets of
       None \<Rightarrow> (nodes, links)
     | Some sets \<Rightarrow> (map (apsnd (highlightNode sets)) nodes, map (apsnd (highlightLink sets)) links))"

section \<open>The graph\<close>

definition preparePaths ::
  "FlowEnv \<Rightarrow> FlowQuotaDataItem list \<Rightarrow> FlowMetric \<Rightarrow> FlowNodeKind list \<Rightarrow> FlowPathContext \<Rightarrow> FlowGraphOptions
     \<Rightarrow> PreparedFlowPath list" where
  "preparePaths env rows metric stages ctx options =
     (let topNodeSets = buildTopNodeSets env rows metric stages (normalizeTopNodeLimit (go_topNodeLimit options)) ctx;
          overflowMode = (case go_overflowMode options of Some m \<Rightarrow> m | None \<Rightarrow> Aggregate)
      in List.map_filter (\<lambda>row.
           map_option (\<lambda>path. \<lparr>pp_path = path, pp_metrics = rowMetrics row\<rparr>)
             (applyTopNodeLimit (flowPathForStages row stages ctx) topNodeSets overflowMode (go_otherNodeLabel options))) rows)"

definition rootIds :: "PreparedFlowPath list \<Rightarrow> jsstr list" where
  "rootIds preparedPaths =
     filter (\<lambda>i. i \<noteq> []) (List.map_filter (\<lambda>p. case pp_path p of [] \<Rightarrow> None | n # _ \<Rightarrow> Some (pn_id n)) preparedPaths)"

definition addPath ::
  "FlowEnv \<Rightarrow> FlowMetric \<Rightarrow> (jsstr \<times> jsstr) list \<Rightarrow> jsstr list option \<Rightarrow> PreparedFlowPath
     \<Rightarrow> (jsstr \<times> DashboardFlowNode) list \<times> (jsstr \<times> DashboardFlowLink) list
     \<Rightarrow> (jsstr \<times> DashboardFlowNode) list \<times> (jsstr \<times> DashboardFlowLink) list" where
  "addPath env metric colors palette prepared = (\<lambda>(nodes, links).
     case pp_path prepared of
       [] \<Rightarrow> (nodes, links)
     | rootNode # _ \<Rightarrow>
         (let color = (case map_of colors (pn_id rootNode) of Some c \<Rightarrow> c | None \<Rightarrow> colorAt env 0 palette)
          in (fold (\<lambda>node. addNode node (pp_metrics prepared) metric color (pn_id rootNode)) (pp_path prepared) nodes,
              fold (\<lambda>(s, t). addLink s t (pp_metrics prepared) metric color (pn_id rootNode)) (pathLinks (pp_path prepared)) links)))"

definition graphOf ::
  "FlowEnv \<Rightarrow> PreparedFlowPath list \<Rightarrow> FlowMetric \<Rightarrow> jsstr list option \<Rightarrow> FlowNodeKind list \<Rightarrow> FlowGraphOptions
     \<Rightarrow> DashboardFlowGraph" where
  "graphOf env preparedPaths metric palette stages options =
     (let colors = stableColorMap env (js_sort (env_compare env) (rootIds preparedPaths)) palette;
          built = fold (addPath env metric colors palette) preparedPaths ([], []);
          labelled = (if go_maskSensitive options then maskFlowGraphLabels built else built);
          shown = applyFlowHighlights labelled
                    (buildFlowHighlightSets preparedPaths (go_activeNode options) (go_activeLink options) stages);
          flowLinks = js_sort (\<lambda>a b. or_num (env_compare env (dl_source a) (dl_source b))
                                             (env_compare env (dl_target a) (dl_target b))) (map snd (snd shown));
          total = sum_list (map dl_value (filter (\<lambda>l. dl_source l \<in> set (rootIds preparedPaths)) flowLinks));
          shared = map (\<lambda>l. l\<lparr>dl_share := (if total > 0 then dl_value l / total else 0)\<rparr>) flowLinks
      in \<lparr>fg_nodes = js_sort (byValueThenLabel env) (map snd (fst shown)),
          fg_links = assignLinkDisplayColors env shared\<rparr>)"

definition buildFlowGraph ::
  "FlowEnv \<Rightarrow> FlowQuotaDataItem list \<Rightarrow> FlowMetric \<Rightarrow> FlowRole \<Rightarrow> jsstr list option \<Rightarrow> FlowNodeKind list option
     \<Rightarrow> FlowPathContext \<Rightarrow> FlowGraphOptions \<Rightarrow> DashboardFlowGraph" where
  "buildFlowGraph env rows metric role palette visibleStages ctx options =
     (let stages = resolveVisibleStages role visibleStages
      in graphOf env (preparePaths env rows metric stages ctx options) metric palette stages options)"

section \<open>Filter options\<close>

definition addUser ::
  "FlowEnv \<Rightarrow> FlowMetric \<Rightarrow> (jsstr \<times> jsstr) list \<Rightarrow> jsstr list option \<Rightarrow> FlowQuotaDataItem
     \<Rightarrow> (jsstr \<times> jsstr \<times> rat \<times> jsstr) list \<Rightarrow> (jsstr \<times> jsstr \<times> rat \<times> jsstr) list" where
  "addUser env metric colors palette row users =
     (let user = userNode row
      in if (fq_user_id row = None \<or> fq_user_id row = Some 0) \<and> (fq_username row = None \<or> fq_username row = Some []) then users
         else let value = metricValue (rowMetrics row) metric
              in case map_of users (pn_id user) of
                   Some (l, v, c) \<Rightarrow> al_put (pn_id user) (l, v + value, c) users
                 | None \<Rightarrow> al_put (pn_id user)
                     (pn_label user, 0 + value,
                      case map_of colors (pn_id user) of Some c \<Rightarrow> c | None \<Rightarrow> colorAt env 0 palette) users)"

definition buildUserFilterOptions ::
  "FlowEnv \<Rightarrow> FlowQuotaDataItem list \<Rightarrow> FlowMetric \<Rightarrow> jsstr list option \<Rightarrow> FlowUserFilterOption list" where
  "buildUserFilterOptions env rows metric palette =
     (let colors = stableColorMap env (js_sort (env_compare env) (map (\<lambda>row. pn_id (userNode row)) rows)) palette;
          users = fold (addUser env metric colors palette) rows []
      in js_sort (\<lambda>a b. or_num (uo_valueRaw b - uo_valueRaw a) (env_compare env (uo_label a) (uo_label b)))
           (map (\<lambda>(value, label, v, color). \<lparr>uo_value = value, uo_label = label, uo_valueLabel = env_format env v,
                   uo_valueRaw = v, uo_color = color\<rparr>) users))"

definition addOption ::
  "FlowMetric \<Rightarrow> FlowNodeKind \<Rightarrow> FlowPathContext \<Rightarrow> FlowQuotaDataItem \<Rightarrow> StageTotals \<Rightarrow> StageTotals" where
  "addOption metric stage ctx row totals =
     (let value = metricValue (rowMetrics row) metric;
          node = NODE_BUILDERS stage row ctx;
          key = nodeFilterKey \<lparr>nf_kind = pn_kind node, nf_id = pn_id node\<rparr>;
          current = (case map_of totals key of Some r \<Rightarrow> r | None \<Rightarrow> \<lparr>rk_node = node, rk_value = 0\<rparr>)
      in al_put key (current\<lparr>rk_value := rk_value current + value\<rparr>) totals)"

definition stageOptions ::
  "FlowEnv \<Rightarrow> FlowQuotaDataItem list \<Rightarrow> FlowMetric \<Rightarrow> FlowNodeKind list \<Rightarrow> (jsstr \<times> jsstr) list \<Rightarrow> jsstr list option
     \<Rightarrow> FlowPathContext \<Rightarrow> FlowNodeFilter list option \<Rightarrow> FlowNodeKind \<Rightarrow> FlowNodeFilterOption list" where
  "stageOptions env rows metric stages colors palette ctx selectedNodes stage =
     (let candidateRows = filterRowsByNodes rows (selectedNodeFiltersExceptKind selectedNodes stage) stages ctx;
          totals = fold (addOption metric stage ctx) candidateRows []
      in map (\<lambda>(_, rank). \<lparr>no_kind = pn_kind (rk_node rank), no_value = pn_id (rk_node rank),
              no_label = pn_label (rk_node rank), no_valueLabel = env_format env (rk_value rank), no_valueRaw = rk_value rank,
              no_color = (case map_of colors (pn_id (rk_node rank)) of Some c \<Rightarrow> c | None \<Rightarrow> colorAt env 0 palette)\<rparr>) totals)"

definition buildNodeFilterOptions ::
  "FlowEnv \<Rightarrow> FlowQuotaDataItem list \<Rightarrow> FlowMetric \<Rightarrow> FlowRole \<Rightarrow> FlowNodeKind list option \<Rightarrow> jsstr list option
     \<Rightarrow> FlowPathContext \<Rightarrow> FlowNodeFilter list option \<Rightarrow> FlowNodeFilterOption list" where
  "buildNodeFilterOptions env rows metric role visibleStages palette ctx selectedNodes =
     (let stages = resolveVisibleStages role visibleStages;
          stageOrder = zip stages [0..<length stages];
          order = (\<lambda>k. case map_of stageOrder k of Some i \<Rightarrow> i | None \<Rightarrow> 0);
          colorIds = dedup (concat (map (\<lambda>row. map pn_id (flowPathForStages row stages ctx)) rows));
          colors = stableColorMap env (js_sort (env_compare env) colorIds) palette;
          options = concat (map (stageOptions env rows metric stages colors palette ctx selectedNodes) stages)
      in js_sort (\<lambda>a b. or_num (of_nat (order (no_kind a)) - of_nat (order (no_kind b)))
           (or_num (no_valueRaw b - no_valueRaw a)
             (or_num (env_compare env (no_label a) (no_label b)) (env_compare env (no_value a) (no_value b))))) options)"

definition EMPTY_FLOW_PATH_CONTEXT :: FlowPathContext where
  "EMPTY_FLOW_PATH_CONTEXT = \<lparr>ctx_deletedTokenLabel = None\<rparr>"

definition buildFlowFilterOptions ::
  "FlowEnv \<Rightarrow> FlowQuotaDataItem list \<Rightarrow> FlowMetric \<Rightarrow> jsstr list option \<Rightarrow> FlowRole \<Rightarrow> FlowNodeKind list option
     \<Rightarrow> FlowNodeFilter list option \<Rightarrow> FlowFilterOptions" where
  "buildFlowFilterOptions env rows metric palette role visibleStages selectedNodes =
     \<lparr>fo_users = buildUserFilterOptions env rows metric palette,
      fo_nodes = buildNodeFilterOptions env rows metric role visibleStages palette EMPTY_FLOW_PATH_CONTEXT selectedNodes\<rparr>"

definition buildDashboardFlowData ::
  "FlowEnv \<Rightarrow> FlowQuotaDataItem list \<Rightarrow> FlowMetric \<Rightarrow> FlowBuildOptions \<Rightarrow> ProcessedFlowData" where
  "buildDashboardFlowData env rows metric options =
     (let role = (case bo_role options of Some r \<Rightarrow> r | None \<Rightarrow> FlowUser);
          palette = bo_colorPalette options;
          ctx = \<lparr>ctx_deletedTokenLabel = bo_deletedTokenLabel options\<rparr>;
          stages = resolveVisibleStages role (bo_visibleStages options);
          userFilteredRows = filterRows rows options;
          filteredRows = filterRowsByNodes userFilteredRows (bo_selectedNodes options) stages ctx
      in \<lparr>pf_summary = buildSummary filteredRows,
          pf_flow = buildFlowGraph env filteredRows metric role palette (bo_visibleStages options) ctx (bo_graph options),
          pf_filterOptions =
            \<lparr>fo_users = buildUserFilterOptions env rows metric palette,
             fo_nodes = buildNodeFilterOptions env userFilteredRows metric role (bo_visibleStages options) palette ctx
               (bo_selectedNodes options)\<rparr>\<rparr>)"

section \<open>The links handed to the chart\<close>

definition drawIndex :: "DashboardFlowLink \<Rightarrow> nat \<Rightarrow> nat" where
  "drawIndex link index =
     (if dl_highlighted link = Some True then 1000000 + index
      else if dl_dimmed link = Some True then index else 100000 + index)"

definition sankeyLinks :: "FlowEnv \<Rightarrow> DashboardFlowGraph \<Rightarrow> (DashboardFlowLink \<times> jsstr \<times> nat) list" where
  "sankeyLinks env flow =
     (let sorted = js_sort (byLinkDrawPriority env) (filter (\<lambda>l. dl_value l > 0) (fg_links flow))
      in map (\<lambda>i. (sorted ! i, linkStableKey (sorted ! i), drawIndex (sorted ! i) i)) [0..<length sorted])"

end
