(* ===== verification/FlowRules.thy ===== *)
theory FlowRules
  imports FlowGraph
begin

text \<open>
  Correctness of the usage flow of \<open>FlowGraph\<close>: every column carries the whole of the filtered
  usage, what enters a node leaves it, shares are shares of the whole, the limit keeps the largest
  nodes, and masking changes labels only.
\<close>

section \<open>Tallies\<close>

text \<open>
  The contract of a map whose entries collect weights: an event replaces the entry of its key, and
  the measure of the entry grows by the weight of the event. The nodes, the links and the ranks of
  a column are filled this way.
\<close>

locale tally =
  fixes key :: "'e \<Rightarrow> 'k"
    and put :: "'e \<Rightarrow> ('k \<times> 'v) list \<Rightarrow> ('k \<times> 'v) list"
    and entry :: "'e \<Rightarrow> 'v option \<Rightarrow> 'v"
    and measured :: "'i \<Rightarrow> 'v \<Rightarrow> rat"
    and weight :: "'i \<Rightarrow> 'e \<Rightarrow> rat"
  assumes put: "put e m = al_put (key e) (entry e (map_of m (key e))) m"
    and fresh: "measured i (entry e None) = weight i e"
    and grown: "measured i (entry e (Some v)) = measured i v + weight i e"
begin

definition collected :: "'i \<Rightarrow> ('k \<Rightarrow> bool) \<Rightarrow> ('k \<times> 'v) list \<Rightarrow> rat" where
  "collected i P m = sum_list (map (\<lambda>(k, v). if P k then measured i v else 0) m)"

lemma collected_put:
  "collected i P (put e m) = collected i P m + (if P (key e) then weight i e else 0)"
proof -
  have "collected i P (al_put (key e) (entry e (map_of m' (key e))) m)
      = collected i P m + (if P (key e) then weight i e else 0)"
    if "map_of m' (key e) = map_of m (key e)" for m'
    using that by (induction m) (auto simp: collected_def fresh grown split: if_splits)
  then show ?thesis by (simp add: put)
qed

lemma collected_fold:
  "collected i P (fold put es m) = collected i P m + sum_list (map (\<lambda>e. if P (key e) then weight i e else 0) es)"
  by (induction es arbitrary: m) (simp_all add: collected_put)

lemma distinct_fold: "distinct (map fst m) \<Longrightarrow> distinct (map fst (fold put es m))"
  by (induction es arbitrary: m) (simp_all add: put distinct_al_put)

lemma keys_fold: "fst ` set (fold put es m) = fst ` set m \<union> key ` set es"
  by (induction es arbitrary: m) (auto simp: put keys_al_put)

lemma entries_fold:
  assumes "\<And>e. e \<in> set es \<Longrightarrow> Q (entry e None)" and "\<And>e v. Q v \<Longrightarrow> Q (entry e (Some v))"
    and "\<forall>v \<in> snd ` set m. Q v"
  shows "\<forall>v \<in> snd ` set (fold put es m). Q v"
  using assms(1,3)
proof (induction es arbitrary: m)
  case (Cons e es)
  let ?v = "entry e (map_of m (key e))"
  have "Q ?v"
  proof (cases "map_of m (key e)")
    case None
    with Cons.prems(1) [of e] show ?thesis by simp
  next
    case (Some v)
    then have "Q v" using Cons.prems(2) map_of_SomeD [OF Some] by (metis image_eqI snd_conv)
    with Some assms(2) show ?thesis by simp
  qed
  moreover have "set (put e m) \<subseteq> insert (key e, ?v) (set m)"
    unfolding put by (rule al_put_entries)
  ultimately have step: "\<forall>v \<in> snd ` set (put e m). Q v" using Cons.prems(2) by fastforce
  have "\<forall>v \<in> snd ` set (fold put es (put e m)). Q v"
  proof (rule Cons.IH [OF _ step])
    show "Q (entry e' None)" if "e' \<in> set es" for e' using that by (intro Cons.prems(1)) simp
  qed
  then show ?case by simp
qed simp

lemma collected_none: "\<forall>k \<in> fst ` set m. \<not> P k \<Longrightarrow> collected i P m = 0"
  by (induction m) (auto simp: collected_def)

text \<open>One entry: what was collected under its key.\<close>

lemma collected_entry:
  assumes "distinct (map fst m)" and "(k, v) \<in> set m"
  shows "measured i v = collected i (\<lambda>k'. k' = k) m"
  using assms
proof (induction m)
  case (Cons p m)
  have none: "collected i (\<lambda>k'. k' = fst p) m = 0"
  proof (rule collected_none)
    have "fst p \<notin> fst ` set m" using Cons.prems(1) by simp
    then show "\<forall>k \<in> fst ` set m. k \<noteq> fst p" by blast
  qed
  show ?case
  proof (cases "fst p = k")
    case True
    with Cons.prems have "p = (k, v)" by (cases p) (auto simp: image_iff)
    with none show ?thesis by (simp add: collected_def)
  next
    case False
    with Cons show ?thesis by (cases p) (auto simp: collected_def)
  qed
qed simp

end

section \<open>Paths\<close>

text \<open>The identifier of a node starts with the name of its column, so it tells the column.\<close>

definition kinded :: "jsstr \<Rightarrow> FlowNodeKind \<Rightarrow> bool" where
  "kinded i k \<longleftrightarrow> takeWhile (\<lambda>c. c \<noteq> 58) i = kind_name k"

lemma kind_name_inj [simp]: "kind_name a = kind_name b \<longleftrightarrow> a = b"
  by (cases a; cases b; simp add: js_def)

lemma kinded_unique: "kinded i a \<Longrightarrow> kinded i b \<longleftrightarrow> a = b"
  by (auto simp: kinded_def)

lemma builder_kind [simp]: "pn_kind (NODE_BUILDERS k row ctx) = k"
  by (cases k) (simp_all add: userNode_def nodeNameNode_def tokenNode_def groupNode_def modelNode_def channelNode_def Let_def)

lemma builder_kinded: "kinded (pn_id (NODE_BUILDERS k row ctx)) k"
  by (cases k) (simp_all add: kinded_def userNode_def nodeNameNode_def tokenNode_def groupNode_def modelNode_def
      channelNode_def Let_def js_def)

lemma other_kinded: "kinded (OTHER_FLOW_NODE_IDS k) k"
  by (cases k) (simp_all add: kinded_def OTHER_FLOW_NODE_IDS_def js_def)

definition well_path :: "FlowNodeKind list \<Rightarrow> FlowPathNode list \<Rightarrow> bool" where
  "well_path stages path \<longleftrightarrow> map pn_kind path = stages \<and> list_all (\<lambda>n. kinded (pn_id n) (pn_kind n)) path"

lemma well_path_row: "well_path stages (flowPathForStages row stages ctx)"
  by (simp add: well_path_def flowPathForStages_def comp_def list_all_iff builder_kinded)

lemma well_path_limit:
  assumes "well_path stages path" and "applyTopNodeLimit path sets mode labeler = Some path'"
  shows "well_path stages path'"
proof -
  have "path' = path \<or> path' = map (\<lambda>node. if isTopFlowNode node sets then node else otherFlowNode (pn_kind node) labeler) path"
    using assms(2) by (auto simp: applyTopNodeLimit_def split: if_splits)
  then show ?thesis
    using assms(1) by (auto simp: well_path_def list_all_iff otherFlowNode_def other_kinded intro!: nth_equalityI)
qed

definition well_paths :: "FlowNodeKind list \<Rightarrow> PreparedFlowPath list \<Rightarrow> bool" where
  "well_paths stages ps \<longleftrightarrow> distinct stages \<and> 2 \<le> length stages \<and> list_all (\<lambda>p. well_path stages (pp_path p)) ps"

lemma stages_ok: "distinct (resolveVisibleStages role visible)" "2 \<le> length (resolveVisibleStages role visible)"
  by (cases role; auto simp: resolveVisibleStages_def getFlowStages_def MIN_FLOW_STAGES_def Let_def split: option.split)+

lemma set_map_filter: "set (List.map_filter f xs) = {y. \<exists>x \<in> set xs. f x = Some y}"
  by (induction xs) (auto simp: List.map_filter_simps split: option.split)

lemma well_prepared:
  "well_paths (resolveVisibleStages role visible) (preparePaths env rows metric (resolveVisibleStages role visible) ctx options)"
  unfolding well_paths_def preparePaths_def Let_def list_all_iff set_map_filter
  using stages_ok well_path_limit [OF well_path_row] by auto

lemma map_map_filter:
  assumes "\<And>x. f x \<noteq> None"
  shows "map g (List.map_filter (\<lambda>x. map_option (h x) (f x)) xs) = map (\<lambda>x. g (h x (the (f x)))) xs"
  using assms by (induction xs) (auto simp: List.map_filter_simps split: option.split)

lemma prepared_aggregate:
  assumes "go_overflowMode options \<noteq> Some Hide"
  shows "map pp_metrics (preparePaths env rows metric stages ctx options) = map rowMetrics rows"
proof -
  have "applyTopNodeLimit path sets (case go_overflowMode options of Some m \<Rightarrow> m | None \<Rightarrow> Aggregate) l \<noteq> None" for path sets l
    using assms by (auto simp: applyTopNodeLimit_def split: option.split)
  then show ?thesis
    unfolding preparePaths_def Let_def by (subst map_map_filter) simp_all
qed

section \<open>Events\<close>

record FlowEvent =
  ev_node :: FlowPathNode
  ev_next :: FlowPathNode
  ev_metrics :: FlowMetrics
  ev_metric :: FlowMetric
  ev_color :: jsstr
  ev_colorKey :: jsstr

definition nodePut :: "FlowEvent \<Rightarrow> (jsstr \<times> DashboardFlowNode) list \<Rightarrow> (jsstr \<times> DashboardFlowNode) list" where
  "nodePut e = addNode (ev_node e) (ev_metrics e) (ev_metric e) (ev_color e) (ev_colorKey e)"

definition linkPut :: "FlowEvent \<Rightarrow> (jsstr \<times> DashboardFlowLink) list \<Rightarrow> (jsstr \<times> DashboardFlowLink) list" where
  "linkPut e = addLink (ev_node e) (ev_next e) (ev_metrics e) (ev_metric e) (ev_color e) (ev_colorKey e)"

text \<open>The measures of an entry: the displayed value, or one of the three metrics.\<close>

fun node_measure :: "FlowMetric option \<Rightarrow> DashboardFlowNode \<Rightarrow> rat" where
  "node_measure None n = dn_value n"
| "node_measure (Some MetricQuota) n = dn_quota n"
| "node_measure (Some MetricTokens) n = dn_tokens n"
| "node_measure (Some MetricRequests) n = dn_requests n"

fun link_measure :: "FlowMetric option \<Rightarrow> DashboardFlowLink \<Rightarrow> rat" where
  "link_measure None l = dl_value l"
| "link_measure (Some MetricQuota) l = dl_quota l"
| "link_measure (Some MetricTokens) l = dl_tokens l"
| "link_measure (Some MetricRequests) l = dl_requests l"

definition ev_weight :: "FlowMetric option \<Rightarrow> FlowEvent \<Rightarrow> rat" where
  "ev_weight i e = metricValue (ev_metrics e) (case i of None \<Rightarrow> ev_metric e | Some m \<Rightarrow> m)"

definition node_entry :: "FlowEvent \<Rightarrow> DashboardFlowNode option \<Rightarrow> DashboardFlowNode" where
  "node_entry e p = (let previous = (case p of Some n \<Rightarrow> n | None \<Rightarrow>
       \<lparr>dn_id = pn_id (ev_node e), dn_label = pn_label (ev_node e), dn_kind = pn_kind (ev_node e),
              dn_value = 0, dn_requests = 0, dn_quota = 0, dn_tokens = 0, dn_color = ev_color e, dn_colorKey = ev_colorKey e,
              dn_highlighted = None, dn_dimmed = None\<rparr>)
     in previous\<lparr>dn_value := dn_value previous + metricValue (ev_metrics e) (ev_metric e),
              dn_requests := dn_requests previous + fm_requests (ev_metrics e),
              dn_quota := dn_quota previous + fm_quota (ev_metrics e),
              dn_tokens := dn_tokens previous + fm_tokens (ev_metrics e)\<rparr>)"

definition link_entry :: "FlowEvent \<Rightarrow> DashboardFlowLink option \<Rightarrow> DashboardFlowLink" where
  "link_entry e p = (let previous = (case p of Some l \<Rightarrow> l | None \<Rightarrow>
       \<lparr>dl_source = pn_id (ev_node e), dl_target = pn_id (ev_next e), dl_value = 0, dl_requests = 0, dl_quota = 0,
              dl_tokens = 0, dl_sourceLabel = pn_label (ev_node e), dl_targetLabel = pn_label (ev_next e), dl_color = ev_color e,
              dl_linkColor = ev_color e, dl_linkAlpha = 1, dl_hoverColor = ev_color e, dl_colorKey = ev_colorKey e, dl_share = 0,
              dl_highlighted = None, dl_dimmed = None\<rparr>)
     in previous\<lparr>dl_value := dl_value previous + metricValue (ev_metrics e) (ev_metric e),
              dl_requests := dl_requests previous + fm_requests (ev_metrics e),
              dl_quota := dl_quota previous + fm_quota (ev_metrics e),
              dl_tokens := dl_tokens previous + fm_tokens (ev_metrics e)\<rparr>)"

lemma measure_exhaust:
  obtains "i = None" | "i = Some MetricQuota" | "i = Some MetricTokens" | "i = Some MetricRequests"
  by (metis FlowMetric.exhaust option.exhaust)

interpretation nodes: tally "\<lambda>e. pn_id (ev_node e)" nodePut node_entry node_measure ev_weight
proof (unfold_locales, goal_cases)
  case (2 i e)
  then show ?case by (cases i rule: measure_exhaust) (simp_all add: node_entry_def ev_weight_def metricValue_def)
next
  case (3 i e v)
  then show ?case by (cases i rule: measure_exhaust) (simp_all add: node_entry_def ev_weight_def metricValue_def)
qed (simp_all add: nodePut_def addNode_def node_entry_def Let_def)

interpretation links: tally "\<lambda>e. pn_id (ev_node e) @ 0 # pn_id (ev_next e)" linkPut link_entry link_measure ev_weight
proof (unfold_locales, goal_cases)
  case (2 i e)
  then show ?case by (cases i rule: measure_exhaust) (simp_all add: link_entry_def ev_weight_def metricValue_def)
next
  case (3 i e v)
  then show ?case by (cases i rule: measure_exhaust) (simp_all add: link_entry_def ev_weight_def metricValue_def)
qed (simp_all add: linkPut_def addLink_def link_entry_def Let_def)

lemma node_entry_fields [simp]:
  "dn_id (node_entry e None) = pn_id (ev_node e)" "dn_kind (node_entry e None) = pn_kind (ev_node e)"
  "dn_id (node_entry e (Some n)) = dn_id n" "dn_kind (node_entry e (Some n)) = dn_kind n"
  by (simp_all add: node_entry_def Let_def)

lemma link_entry_fields [simp]:
  "dl_source (link_entry e None) = pn_id (ev_node e)" "dl_target (link_entry e None) = pn_id (ev_next e)"
  "dl_source (link_entry e (Some l)) = dl_source l" "dl_target (link_entry e (Some l)) = dl_target l"
  by (simp_all add: link_entry_def Let_def)

lemma node_keys:
  "\<forall>(k, n) \<in> set m. dn_id n = k \<Longrightarrow> \<forall>(k, n) \<in> set (fold nodePut es m). dn_id n = k"
proof (induction es arbitrary: m)
  case (Cons e es)
  have "\<forall>(k, n) \<in> set (nodePut e m). dn_id n = k"
    using Cons.prems al_put_entries [of "pn_id (ev_node e)" "node_entry e (map_of m (pn_id (ev_node e)))" m]
      map_of_SomeD [of m "pn_id (ev_node e)"]
    by (cases "map_of m (pn_id (ev_node e))") (fastforce simp: nodes.put)+
  then show ?case using Cons.IH by simp
qed simp

lemma link_keys:
  "\<forall>(k, l) \<in> set m. linkStableKey l = k \<Longrightarrow> \<forall>(k, l) \<in> set (fold linkPut es m). linkStableKey l = k"
proof (induction es arbitrary: m)
  case (Cons e es)
  let ?k = "pn_id (ev_node e) @ 0 # pn_id (ev_next e)"
  have "\<forall>(k, l) \<in> set (linkPut e m). linkStableKey l = k"
    using Cons.prems al_put_entries [of ?k "link_entry e (map_of m ?k)" m] map_of_SomeD [of m ?k]
    by (cases "map_of m ?k") (fastforce simp: links.put linkStableKey_def)+
  then show ?case using Cons.IH by simp
qed simp

section \<open>The built graph\<close>

definition pathColor :: "FlowEnv \<Rightarrow> (jsstr \<times> jsstr) list \<Rightarrow> jsstr list option \<Rightarrow> PreparedFlowPath \<Rightarrow> jsstr" where
  "pathColor env colors palette p =
     (case map_of colors (pn_id (hd (pp_path p))) of Some c \<Rightarrow> c | None \<Rightarrow> colorAt env 0 palette)"

definition nodeEvents :: "FlowEnv \<Rightarrow> FlowMetric \<Rightarrow> (jsstr \<times> jsstr) list \<Rightarrow> jsstr list option \<Rightarrow> PreparedFlowPath \<Rightarrow> FlowEvent list" where
  "nodeEvents env metric colors palette p =
     map (\<lambda>n. \<lparr>ev_node = n, ev_next = n, ev_metrics = pp_metrics p, ev_metric = metric,
            ev_color = pathColor env colors palette p, ev_colorKey = pn_id (hd (pp_path p))\<rparr>) (pp_path p)"

definition linkEvents :: "FlowEnv \<Rightarrow> FlowMetric \<Rightarrow> (jsstr \<times> jsstr) list \<Rightarrow> jsstr list option \<Rightarrow> PreparedFlowPath \<Rightarrow> FlowEvent list" where
  "linkEvents env metric colors palette p =
     map (\<lambda>(s, t). \<lparr>ev_node = s, ev_next = t, ev_metrics = pp_metrics p, ev_metric = metric,
            ev_color = pathColor env colors palette p, ev_colorKey = pn_id (hd (pp_path p))\<rparr>) (pathLinks (pp_path p))"

lemma addPath_events:
  "addPath env metric colors palette p (ns, ls)
    = (fold nodePut (nodeEvents env metric colors palette p) ns, fold linkPut (linkEvents env metric colors palette p) ls)"
  by (cases "pp_path p")
    (simp_all add: addPath_def nodeEvents_def linkEvents_def pathLinks_def pathColor_def fold_map comp_def nodePut_def
      linkPut_def case_prod_unfold Let_def)

lemma built_events:
  "fold (addPath env metric colors palette) ps (ns, ls)
    = (fold nodePut (concat (map (nodeEvents env metric colors palette) ps)) ns,
       fold linkPut (concat (map (linkEvents env metric colors palette) ps)) ls)"
  by (induction ps arbitrary: ns ls) (simp_all add: addPath_events)

text \<open>The weight of a path under a measure.\<close>

definition path_weight :: "FlowMetric \<Rightarrow> FlowMetric option \<Rightarrow> PreparedFlowPath \<Rightarrow> rat" where
  "path_weight metric i p = metricValue (pp_metrics p) (case i of None \<Rightarrow> metric | Some m \<Rightarrow> m)"

lemma sum_if_distinct:
  "distinct xs \<Longrightarrow> sum_list (map (\<lambda>x. if x = i then w else (0::rat)) xs) = (if i \<in> set xs then w else 0)"
  by (induction xs) auto

lemma sum_zero: "(\<And>x. x \<in> set xs \<Longrightarrow> f x = 0) \<Longrightarrow> sum_list (map f xs) = (0::rat)"
  by (induction xs) auto

lemma sum_concat: "sum_list (map f (concat xss)) = sum_list (map (\<lambda>xs. sum_list (map f xs)) xss)" for f :: "'a \<Rightarrow> rat"
  by (induction xss) simp_all

lemma node_events_sum:
  "sum_list (map (\<lambda>e. if P (pn_id (ev_node e)) then ev_weight i e else 0) (nodeEvents env metric colors palette p))
    = sum_list (map (\<lambda>j. if P j then path_weight metric i p else 0) (map pn_id (pp_path p)))"
  by (cases i) (simp_all add: nodeEvents_def comp_def ev_weight_def path_weight_def cong: if_cong)

lemma path_ids_distinct:
  assumes "well_path stages path" and "distinct stages"
  shows "distinct (map pn_id path)"
proof -
  have "distinct (map pn_kind path)" using assms by (simp add: well_path_def)
  moreover have "pn_kind a = pn_kind b" if "a \<in> set path" "b \<in> set path" "pn_id a = pn_id b" for a b
  proof -
    have "kinded (pn_id a) (pn_kind a)" "kinded (pn_id b) (pn_kind b)"
      using assms(1) that(1,2) by (auto simp: well_path_def list_all_iff)
    then show ?thesis using kinded_unique that(3) by metis
  qed
  ultimately show ?thesis unfolding distinct_map inj_on_def by blast
qed

lemma path_kind_sum:
  assumes "well_path stages path" and "distinct stages"
  shows "sum_list (map (\<lambda>j. if kinded j k then w else 0) (map pn_id path)) = (if k \<in> set stages then w else (0::rat))"
proof -
  have "sum_list (map (\<lambda>j. if kinded j k then w else 0) (map pn_id path))
      = sum_list (map (\<lambda>x. if x = k then w else 0) (map pn_kind path))"
    unfolding map_map comp_def
    using assms(1) kinded_unique by (intro arg_cong [where f = sum_list] map_cong) (auto simp: well_path_def list_all_iff)
  then show ?thesis using assms sum_if_distinct [of stages k w] by (simp add: well_path_def del: map_map)
qed

section \<open>What masking, highlighting, sorting and colouring leave alone\<close>

definition node_core :: "DashboardFlowNode \<Rightarrow> DashboardFlowNode" where
  "node_core n = n\<lparr>dn_label := [], dn_highlighted := None, dn_dimmed := None\<rparr>"

definition link_core :: "DashboardFlowLink \<Rightarrow> DashboardFlowLink" where
  "link_core l = l\<lparr>dl_sourceLabel := [], dl_targetLabel := [], dl_linkColor := [], dl_linkAlpha := 0, dl_hoverColor := [],
     dl_share := 0, dl_highlighted := None, dl_dimmed := None\<rparr>"

lemma node_core_fields [simp]:
  "dn_id (node_core n) = dn_id n" "dn_kind (node_core n) = dn_kind n" "node_measure i (node_core n) = node_measure i n"
  "node_core (n\<lparr>dn_label := x\<rparr>) = node_core n"
  by (simp_all add: node_core_def) (cases i rule: measure_exhaust; simp)

lemma link_core_fields [simp]:
  "dl_source (link_core l) = dl_source l" "dl_target (link_core l) = dl_target l" "link_measure i (link_core l) = link_measure i l"
  by (simp_all add: link_core_def) (cases i rule: measure_exhaust; simp)

lemma core_mask:
  "map (node_core \<circ> snd) (fst (maskFlowGraphLabels g)) = map (node_core \<circ> snd) (fst g)"
  "map (link_core \<circ> snd) (snd (maskFlowGraphLabels g)) = map (link_core \<circ> snd) (snd g)"
  by (cases g; simp add: maskFlowGraphLabels_def maskLink_def link_core_def case_prod_unfold Let_def split: option.split)+

lemma core_highlight:
  "map (node_core \<circ> snd) (fst (applyFlowHighlights g hs)) = map (node_core \<circ> snd) (fst g)"
  "map (link_core \<circ> snd) (snd (applyFlowHighlights g hs)) = map (link_core \<circ> snd) (snd g)"
  by (cases g; simp add: applyFlowHighlights_def highlightNode_def highlightLink_def node_core_def link_core_def Let_def
      split: option.split)+

lemma core_colors: "map link_core (assignLinkDisplayColors env ls) = map link_core ls"
  by (simp add: assignLinkDisplayColors_def link_core_def Let_def split: option.split)

lemma core_sum:
  fixes f :: "'a \<Rightarrow> rat"
  assumes "mset (map c xs) = mset (map c ys)" and "\<And>x. f (c x) = f x"
  shows "sum_list (map f xs) = sum_list (map f ys)"
proof -
  have "sum_list (map f zs) = sum_mset (image_mset f (mset (map c zs)))" for zs
    using assms(2) by (induction zs) simp_all
  with assms(1) show ?thesis by metis
qed

definition built ::
  "FlowEnv \<Rightarrow> PreparedFlowPath list \<Rightarrow> FlowMetric \<Rightarrow> jsstr list option
     \<Rightarrow> (jsstr \<times> DashboardFlowNode) list \<times> (jsstr \<times> DashboardFlowLink) list" where
  "built env ps metric palette =
     fold (addPath env metric (stableColorMap env (js_sort (env_compare env) (rootIds ps)) palette) palette) ps ([], [])"

definition shown ::
  "FlowEnv \<Rightarrow> PreparedFlowPath list \<Rightarrow> FlowMetric \<Rightarrow> jsstr list option \<Rightarrow> FlowNodeKind list \<Rightarrow> FlowGraphOptions
     \<Rightarrow> (jsstr \<times> DashboardFlowNode) list \<times> (jsstr \<times> DashboardFlowLink) list" where
  "shown env ps metric palette stages opts =
     applyFlowHighlights
       (if go_maskSensitive opts then maskFlowGraphLabels (built env ps metric palette) else built env ps metric palette)
       (buildFlowHighlightSets ps (go_activeNode opts) (go_activeLink opts) stages)"

definition flow_links ::
  "FlowEnv \<Rightarrow> PreparedFlowPath list \<Rightarrow> FlowMetric \<Rightarrow> jsstr list option \<Rightarrow> FlowNodeKind list \<Rightarrow> FlowGraphOptions
     \<Rightarrow> DashboardFlowLink list" where
  "flow_links env ps metric palette stages opts =
     js_sort (\<lambda>a b. or_num (env_compare env (dl_source a) (dl_source b)) (env_compare env (dl_target a) (dl_target b)))
       (map snd (snd (shown env ps metric palette stages opts)))"

definition root_total :: "PreparedFlowPath list \<Rightarrow> DashboardFlowLink list \<Rightarrow> rat" where
  "root_total ps ls = sum_list (map dl_value (filter (\<lambda>l. dl_source l \<in> set (rootIds ps)) ls))"

lemma graphOf_eq:
  "fg_nodes (graphOf env ps metric palette stages opts)
    = js_sort (byValueThenLabel env) (map snd (fst (shown env ps metric palette stages opts)))"
  "fg_links (graphOf env ps metric palette stages opts) =
     (let ls = flow_links env ps metric palette stages opts
      in assignLinkDisplayColors env
           (map (\<lambda>l. l\<lparr>dl_share := (if root_total ps ls > 0 then dl_value l / root_total ps ls else 0)\<rparr>) ls))"
  by (simp_all only: graphOf_def shown_def flow_links_def root_total_def built_def Let_def
      DashboardFlowGraph.select_convs)

lemma shown_core:
  "map node_core (map snd (fst (shown env ps metric palette stages opts))) = map node_core (map snd (fst (built env ps metric palette)))"
  "map link_core (map snd (snd (shown env ps metric palette stages opts))) = map link_core (map snd (snd (built env ps metric palette)))"
  by (simp_all add: shown_def core_highlight core_mask)

lemma mset_map_js_sort: "mset (map f (js_sort c xs)) = mset (map f xs)"
  by (metis mset_map mset_js_sort)

lemma graph_nodes_core:
  "mset (map node_core (fg_nodes (graphOf env ps metric palette stages opts)))
    = mset (map node_core (map snd (fst (built env ps metric palette))))"
  unfolding graphOf_eq mset_map_js_sort shown_core ..

lemma core_share [simp]: "link_core (l\<lparr>dl_share := x\<rparr>) = link_core l"
  by (simp add: link_core_def)

lemma graph_links_core:
  "mset (map link_core (fg_links (graphOf env ps metric palette stages opts)))
    = mset (map link_core (map snd (snd (built env ps metric palette))))"
proof -
  have "map link_core (fg_links (graphOf env ps metric palette stages opts))
      = map link_core (flow_links env ps metric palette stages opts)"
    unfolding graphOf_eq Let_def core_colors by simp
  then show ?thesis unfolding flow_links_def mset_map_js_sort shown_core by (simp only: mset_map_js_sort shown_core)
qed

section \<open>Conservation\<close>

abbreviation root_colors :: "FlowEnv \<Rightarrow> PreparedFlowPath list \<Rightarrow> jsstr list option \<Rightarrow> (jsstr \<times> jsstr) list" where
  "root_colors env ps palette \<equiv> stableColorMap env (js_sort (env_compare env) (rootIds ps)) palette"

lemma built_eq:
  "fst (built env ps metric palette) = fold nodePut (concat (map (nodeEvents env metric (root_colors env ps palette) palette) ps)) []"
  "snd (built env ps metric palette) = fold linkPut (concat (map (linkEvents env metric (root_colors env ps palette) palette) ps)) []"
  by (simp_all add: built_def built_events)

lemma built_nodes_distinct: "distinct (map fst (fst (built env ps metric palette)))"
  unfolding built_eq by (rule nodes.distinct_fold) simp

lemma built_nodes_keys: "\<forall>(k, n) \<in> set (fst (built env ps metric palette)). dn_id n = k"
  unfolding built_eq by (rule node_keys) simp

lemma built_nodes_kinded:
  assumes "well_paths stages ps"
  shows "\<forall>n \<in> snd ` set (fst (built env ps metric palette)). kinded (dn_id n) (dn_kind n)"
  unfolding built_eq
proof (rule nodes.entries_fold)
  show "kinded (dn_id (node_entry e None)) (dn_kind (node_entry e None))"
    if "e \<in> set (concat (map (nodeEvents env metric (root_colors env ps palette) palette) ps))" for e
    using that assms by (auto simp: nodeEvents_def well_paths_def well_path_def list_all_iff)
qed simp_all

lemma built_nodes_sum:
  "nodes.collected i P (fst (built env ps metric palette))
    = sum_list (map (\<lambda>p. sum_list (map (\<lambda>j. if P j then path_weight metric i p else 0) (map pn_id (pp_path p)))) ps)"
proof -
  have "nodes.collected i P (fst (built env ps metric palette)) = nodes.collected i P [] +
      sum_list (map (\<lambda>e. if P (pn_id (ev_node e)) then ev_weight i e else 0)
        (concat (map (nodeEvents env metric (root_colors env ps palette) palette) ps)))"
    unfolding built_eq by (rule nodes.collected_fold)
  then show ?thesis
    by (simp add: nodes.collected_def sum_concat comp_def node_events_sum del: map_map) (simp add: comp_def node_events_sum)
qed

lemma column_sum:
  assumes wf: "well_paths stages ps" and k: "k \<in> set stages"
  shows "sum_list (map (node_measure i) (filter (\<lambda>n. dn_kind n = k) (fg_nodes (graphOf env ps metric palette stages opts))))
    = sum_list (map (path_weight metric i) ps)"
proof -
  let ?f = "\<lambda>n. if dn_kind n = k then node_measure i n else 0"
  let ?ns = "fst (built env ps metric palette)"
  have "sum_list (map (node_measure i) (filter (\<lambda>n. dn_kind n = k) (fg_nodes (graphOf env ps metric palette stages opts))))
      = sum_list (map ?f (fg_nodes (graphOf env ps metric palette stages opts)))"
    by (rule sum_list_map_filter')
  also have "\<dots> = sum_list (map ?f (map snd ?ns))"
    by (rule core_sum [OF graph_nodes_core]) simp
  also have "\<dots> = nodes.collected i (\<lambda>j. kinded j k) ?ns"
    unfolding nodes.collected_def map_map
  proof (rule arg_cong [where f = sum_list], rule map_cong [OF refl])
    fix x assume x: "x \<in> set ?ns"
    then have "dn_id (snd x) = fst x" using built_nodes_keys by fastforce
    moreover have "kinded (dn_id (snd x)) (dn_kind (snd x))" using built_nodes_kinded [OF wf] x by blast
    ultimately show "(?f \<circ> snd) x = (case x of (j, n) \<Rightarrow> if kinded j k then node_measure i n else 0)"
      using kinded_unique [of "fst x" "dn_kind (snd x)" k] by (cases x) auto
  qed
  also have "\<dots> = sum_list (map (path_weight metric i) ps)"
    unfolding built_nodes_sum
    using wf k by (intro arg_cong [where f = sum_list] map_cong refl, subst path_kind_sum)
      (auto simp: well_paths_def list_all_iff)
  finally show ?thesis .
qed

lemma summary_sums:
  "fs_quota (buildSummary rows) = sum_list (map (fm_quota \<circ> rowMetrics) rows)"
  "fs_tokens (buildSummary rows) = sum_list (map (fm_tokens \<circ> rowMetrics) rows)"
  "fs_requests (buildSummary rows) = sum_list (map (fm_requests \<circ> rowMetrics) rows)"
proof -
  let ?f = "\<lambda>summary row. let metrics = rowMetrics row
        in summary\<lparr>fs_quota := fs_quota summary + fm_quota metrics, fs_tokens := fs_tokens summary + fm_tokens metrics,
             fs_requests := fs_requests summary + fm_requests metrics\<rparr>"
  have "fs_quota (foldl ?f s rows) = fs_quota s + sum_list (map (fm_quota \<circ> rowMetrics) rows)
     \<and> fs_tokens (foldl ?f s rows) = fs_tokens s + sum_list (map (fm_tokens \<circ> rowMetrics) rows)
     \<and> fs_requests (foldl ?f s rows) = fs_requests s + sum_list (map (fm_requests \<circ> rowMetrics) rows)" for s :: FlowSummary
    by (induction rows arbitrary: s) (simp_all add: Let_def)
  then show "fs_quota (buildSummary rows) = sum_list (map (fm_quota \<circ> rowMetrics) rows)"
    "fs_tokens (buildSummary rows) = sum_list (map (fm_tokens \<circ> rowMetrics) rows)"
    "fs_requests (buildSummary rows) = sum_list (map (fm_requests \<circ> rowMetrics) rows)"
    by (simp_all add: buildSummary_def)
qed

definition summary_measure :: "FlowMetric \<Rightarrow> FlowSummary \<Rightarrow> rat" where
  "summary_measure m sm = (if m = MetricRequests then fs_requests sm else if m = MetricTokens then fs_tokens sm else fs_quota sm)"

lemma paths_sum:
  assumes "go_overflowMode opts \<noteq> Some Hide"
  shows "sum_list (map (path_weight metric i) (preparePaths env rows metric stages ctx opts))
    = summary_measure (case i of None \<Rightarrow> metric | Some m \<Rightarrow> m) (buildSummary rows)"
proof -
  let ?m = "case i of None \<Rightarrow> metric | Some m \<Rightarrow> m"
  have "map (path_weight metric i) (preparePaths env rows metric stages ctx opts)
      = map (\<lambda>mt. metricValue mt ?m) (map pp_metrics (preparePaths env rows metric stages ctx opts))"
    by (simp add: path_weight_def comp_def)
  also have "\<dots> = map (\<lambda>row. metricValue (rowMetrics row) ?m) rows"
    unfolding prepared_aggregate [OF assms] by (simp add: comp_def)
  finally show ?thesis
    by (simp only:) (simp add: summary_measure_def summary_sums metricValue_def comp_def)
qed

section \<open>Links\<close>

text \<open>
  The key of a link is cut back into its ends at the first NUL; names that contain none keep the
  keys of different links apart.
\<close>

definition key_source :: "jsstr \<Rightarrow> jsstr" where
  "key_source key = takeWhile (\<lambda>c. c \<noteq> 0) key"

definition key_target :: "jsstr \<Rightarrow> jsstr" where
  "key_target key = tl (dropWhile (\<lambda>c. c \<noteq> 0) key)"

definition nul_free :: "PreparedFlowPath list \<Rightarrow> bool" where
  "nul_free ps \<longleftrightarrow> (\<forall>p \<in> set ps. \<forall>n \<in> set (pp_path p). 0 \<notin> set (pn_id n))"

lemma key_parts: "0 \<notin> set a \<Longrightarrow> key_source (a @ 0 # b) = a \<and> key_target (a @ 0 # b) = b"
  by (induction a) (auto simp: key_source_def key_target_def)

lemma path_links_parts: "map fst (pathLinks path) = butlast path" "map snd (pathLinks path) = tl path"
  by (cases path; simp add: pathLinks_def butlast_conv_take map_fst_zip_take map_snd_zip_take min_def)+

lemma path_links_in: "(s, t) \<in> set (pathLinks path) \<Longrightarrow> s \<in> set path \<and> t \<in> set path"
  by (cases path) (auto simp: pathLinks_def dest: set_zip_leftD set_zip_rightD)

lemma built_links_sum:
  "links.collected i P (snd (built env ps metric palette))
    = sum_list (map (\<lambda>p. sum_list (map (\<lambda>(s, t). if P (pn_id s @ 0 # pn_id t) then path_weight metric i p else 0)
        (pathLinks (pp_path p)))) ps)"
proof -
  have ev: "sum_list (map (\<lambda>e. if P (pn_id (ev_node e) @ 0 # pn_id (ev_next e)) then ev_weight i e else 0)
        (linkEvents env metric colors palette p))
      = sum_list (map (\<lambda>(s, t). if P (pn_id s @ 0 # pn_id t) then path_weight metric i p else 0) (pathLinks (pp_path p)))"
    for colors p
    by (cases i) (simp_all add: linkEvents_def comp_def ev_weight_def path_weight_def case_prod_unfold cong: if_cong)
  have "links.collected i P (snd (built env ps metric palette)) = links.collected i P [] +
      sum_list (map (\<lambda>e. if P (pn_id (ev_node e) @ 0 # pn_id (ev_next e)) then ev_weight i e else 0)
        (concat (map (linkEvents env metric (root_colors env ps palette) palette) ps)))"
    unfolding built_eq by (rule links.collected_fold)
  then show ?thesis by (simp add: links.collected_def sum_concat comp_def ev)
qed

lemma built_links_keys: "\<forall>(k, l) \<in> set (snd (built env ps metric palette)). linkStableKey l = k"
  unfolding built_eq by (rule link_keys) simp

lemma built_links_clean:
  assumes "nul_free ps"
  shows "\<forall>l \<in> snd ` set (snd (built env ps metric palette)). 0 \<notin> set (dl_source l)"
  unfolding built_eq
proof (rule links.entries_fold)
  show "0 \<notin> set (dl_source (link_entry e None))"
    if "e \<in> set (concat (map (linkEvents env metric (root_colors env ps palette) palette) ps))" for e
    using that assms path_links_in by (fastforce simp: linkEvents_def nul_free_def)
qed simp_all

lemma links_sum:
  assumes clean: "nul_free ps"
  shows "sum_list (map (link_measure i) (filter (\<lambda>l. Q (dl_source l) (dl_target l)) (fg_links (graphOf env ps metric palette stages opts))))
    = sum_list (map (\<lambda>p. sum_list (map (\<lambda>(s, t). if Q (pn_id s) (pn_id t) then path_weight metric i p else 0)
        (pathLinks (pp_path p)))) ps)"
proof -
  let ?f = "\<lambda>l. if Q (dl_source l) (dl_target l) then link_measure i l else 0"
  let ?P = "\<lambda>key. Q (key_source key) (key_target key)"
  let ?ls = "snd (built env ps metric palette)"
  have "sum_list (map (link_measure i) (filter (\<lambda>l. Q (dl_source l) (dl_target l)) (fg_links (graphOf env ps metric palette stages opts))))
      = sum_list (map ?f (fg_links (graphOf env ps metric palette stages opts)))"
    by (rule sum_list_map_filter')
  also have "\<dots> = sum_list (map ?f (map snd ?ls))"
    by (rule core_sum [OF graph_links_core]) simp
  also have "\<dots> = links.collected i ?P ?ls"
    unfolding links.collected_def map_map
  proof (rule arg_cong [where f = sum_list], rule map_cong [OF refl])
    fix x assume x: "x \<in> set ?ls"
    then have "dl_source (snd x) @ 0 # dl_target (snd x) = fst x"
      using built_links_keys by (fastforce simp: linkStableKey_def)
    moreover have "0 \<notin> set (dl_source (snd x))" using built_links_clean [OF clean] x by blast
    ultimately show "(?f \<circ> snd) x = (case x of (k, l) \<Rightarrow> if ?P k then link_measure i l else 0)"
      using key_parts by (cases x) auto
  qed
  also have "\<dots> = sum_list (map (\<lambda>p. sum_list (map (\<lambda>(s, t). if Q (pn_id s) (pn_id t) then path_weight metric i p else 0)
        (pathLinks (pp_path p)))) ps)"
    unfolding built_links_sum
  proof (intro arg_cong [where f = sum_list] map_cong refl, goal_cases)
    case (1 p st)
    then have "0 \<notin> set (pn_id (fst st))"
      using clean path_links_in [of "fst st" "snd st"] by (auto simp: nul_free_def)
    then show ?case using key_parts by (simp add: case_prod_unfold)
  qed
  finally show ?thesis .
qed

text \<open>What leaves and what enters a node.\<close>

lemma links_out:
  assumes "well_paths stages ps" and "nul_free ps"
  shows "sum_list (map (link_measure i) (filter (\<lambda>l. dl_source l = j) (fg_links (graphOf env ps metric palette stages opts))))
    = sum_list (map (\<lambda>p. if j \<in> pn_id ` set (butlast (pp_path p)) then path_weight metric i p else 0) ps)"
  unfolding links_sum [OF assms(2), of i "\<lambda>a b. a = j"]
proof (intro arg_cong [where f = sum_list] map_cong refl, goal_cases)
  case (1 p)
  have "distinct (map pn_id (pp_path p))"
    using 1 assms(1) path_ids_distinct by (auto simp: well_paths_def list_all_iff)
  then have d: "distinct (map pn_id (butlast (pp_path p)))" by (simp add: map_butlast distinct_butlast)
  have "map (\<lambda>(s, t). if pn_id s = j then path_weight metric i p else 0) (pathLinks (pp_path p))
      = map (\<lambda>x. if x = j then path_weight metric i p else 0) (map pn_id (map fst (pathLinks (pp_path p))))"
    by (simp add: case_prod_unfold)
  then show ?case unfolding path_links_parts by (simp only: sum_if_distinct [OF d] set_map)
qed

lemma links_in:
  assumes "well_paths stages ps" and "nul_free ps"
  shows "sum_list (map (link_measure i) (filter (\<lambda>l. dl_target l = j) (fg_links (graphOf env ps metric palette stages opts))))
    = sum_list (map (\<lambda>p. if j \<in> pn_id ` set (tl (pp_path p)) then path_weight metric i p else 0) ps)"
  unfolding links_sum [OF assms(2), of i "\<lambda>a b. b = j"]
proof (intro arg_cong [where f = sum_list] map_cong refl, goal_cases)
  case (1 p)
  have "distinct (map pn_id (pp_path p))"
    using 1 assms(1) path_ids_distinct by (auto simp: well_paths_def list_all_iff)
  then have d: "distinct (map pn_id (tl (pp_path p)))" by (simp add: map_tl distinct_tl)
  have "map (\<lambda>(s, t). if pn_id t = j then path_weight metric i p else 0) (pathLinks (pp_path p))
      = map (\<lambda>x. if x = j then path_weight metric i p else 0) (map pn_id (map snd (pathLinks (pp_path p))))"
    by (simp add: case_prod_unfold)
  then show ?case unfolding path_links_parts by (simp only: sum_if_distinct [OF d] set_map)
qed

lemma node_total:
  assumes wf: "well_paths stages ps" and n: "n \<in> set (fg_nodes (graphOf env ps metric palette stages opts))"
  shows "node_measure i n = sum_list (map (\<lambda>p. if dn_id n \<in> pn_id ` set (pp_path p) then path_weight metric i p else 0) ps)"
    and "kinded (dn_id n) (dn_kind n)"
    and "dn_id n \<in> (\<Union>p \<in> set ps. pn_id ` set (pp_path p))"
proof -
  let ?ns = "fst (built env ps metric palette)"
  have "node_core n \<in># mset (map node_core (fg_nodes (graphOf env ps metric palette stages opts)))"
    using n by simp
  then obtain x where x: "x \<in> set ?ns" "node_core n = node_core (snd x)"
    unfolding graph_nodes_core by auto
  have eq: "dn_id n = dn_id (snd x)" "dn_kind n = dn_kind (snd x)" "node_measure i n = node_measure i (snd x)"
    using x(2) node_core_fields(1-3) by metis+
  have key: "dn_id (snd x) = fst x" using x(1) built_nodes_keys by fastforce
  have "node_measure i (snd x) = nodes.collected i (\<lambda>k. k = fst x) ?ns"
    using x(1) by (intro nodes.collected_entry [OF built_nodes_distinct]) simp
  also have "\<dots> = sum_list (map (\<lambda>p. if fst x \<in> pn_id ` set (pp_path p) then path_weight metric i p else 0) ps)"
    unfolding built_nodes_sum
  proof (intro arg_cong [where f = sum_list] map_cong refl, goal_cases)
    case (1 p)
    have "distinct (map pn_id (pp_path p))"
      using 1 wf path_ids_distinct by (auto simp: well_paths_def list_all_iff)
    then show ?case by (simp only: sum_if_distinct set_map)
  qed
  finally show "node_measure i n = sum_list (map (\<lambda>p. if dn_id n \<in> pn_id ` set (pp_path p) then path_weight metric i p else 0) ps)"
    by (simp add: eq key)
  show "kinded (dn_id n) (dn_kind n)" using built_nodes_kinded [OF wf] x(1) by (auto simp: eq)
  have "fst x \<in> fst ` set ?ns" using x(1) by blast
  then show "dn_id n \<in> (\<Union>p \<in> set ps. pn_id ` set (pp_path p))"
    unfolding built_eq nodes.keys_fold by (fastforce simp: eq key nodeEvents_def)
qed

lemma end_kinds:
  assumes "well_path stages path" and "2 \<le> length stages"
  shows "path \<noteq> []" "tl path \<noteq> []" "kinded (pn_id (last path)) (last stages)" "kinded (pn_id (hd path)) (hd stages)"
    and "\<And>n. n \<in> set (tl path) \<Longrightarrow> pn_kind n \<in> set (tl stages)"
proof -
  have m: "map pn_kind path = stages" using assms(1) by (simp add: well_path_def)
  then have len: "2 \<le> length path" using assms(2) by auto
  then show ne: "path \<noteq> []" and "tl path \<noteq> []" by (auto simp: tl_Nil)
  have "kinded (pn_id n) (pn_kind n)" if "n \<in> set path" for n
    using assms(1) that by (auto simp: well_path_def list_all_iff)
  then show "kinded (pn_id (last path)) (last stages)" "kinded (pn_id (hd path)) (hd stages)"
    using ne m by (metis last_in_set last_map, metis hd_in_set hd_map)
  show "pn_kind n \<in> set (tl stages)" if "n \<in> set (tl path)" for n
    using that m by (metis image_eqI list.set_map map_tl)
qed

lemma flow_out:
  assumes wf: "well_paths stages ps" and clean: "nul_free ps"
    and n: "n \<in> set (fg_nodes (graphOf env ps metric palette stages opts))" and k: "dn_kind n \<noteq> last stages"
  shows "sum_list (map (link_measure i) (filter (\<lambda>l. dl_source l = dn_id n) (fg_links (graphOf env ps metric palette stages opts))))
    = node_measure i n"
  unfolding links_out [OF wf clean] node_total(1) [OF wf n]
proof (intro arg_cong [where f = sum_list] map_cong refl, goal_cases)
  case (1 p)
  have wp: "well_path stages (pp_path p)" "2 \<le> length stages"
    using 1 wf by (auto simp: well_paths_def list_all_iff)
  have "dn_id n \<noteq> pn_id (last (pp_path p))"
    using end_kinds(3) [OF wp] node_total(2) [OF wf n] k kinded_unique by metis
  moreover have "set (pp_path p) = insert (last (pp_path p)) (set (butlast (pp_path p)))"
    using end_kinds(1) [OF wp] by (metis append_butlast_last_id Un_insert_right list.simps(15) set_append set_empty2 sup_bot_right)
  ultimately show ?case by auto
qed

lemma flow_in:
  assumes wf: "well_paths stages ps" and clean: "nul_free ps"
    and n: "n \<in> set (fg_nodes (graphOf env ps metric palette stages opts))" and k: "dn_kind n \<noteq> hd stages"
  shows "sum_list (map (link_measure i) (filter (\<lambda>l. dl_target l = dn_id n) (fg_links (graphOf env ps metric palette stages opts))))
    = node_measure i n"
  unfolding links_in [OF wf clean] node_total(1) [OF wf n]
proof (intro arg_cong [where f = sum_list] map_cong refl, goal_cases)
  case (1 p)
  have wp: "well_path stages (pp_path p)" "2 \<le> length stages"
    using 1 wf by (auto simp: well_paths_def list_all_iff)
  have "dn_id n \<noteq> pn_id (hd (pp_path p))"
    using end_kinds(4) [OF wp] node_total(2) [OF wf n] k kinded_unique by metis
  moreover have "set (pp_path p) = insert (hd (pp_path p)) (set (tl (pp_path p)))"
    using end_kinds(1) [OF wp] by (metis list.collapse list.simps(15))
  ultimately show ?case by auto
qed

section \<open>Shares\<close>

lemma root_id: "(case xs of [] \<Rightarrow> None | n # _ \<Rightarrow> Some (pn_id n)) = Some j \<longleftrightarrow> xs \<noteq> [] \<and> j = pn_id (hd xs)"
  by (cases xs) auto

lemma rootIds_kinded:
  assumes "well_paths stages ps" and "j \<in> set (rootIds ps)"
  shows "kinded j (hd stages)"
proof -
  obtain p where p: "p \<in> set ps" "pp_path p \<noteq> []" "j = pn_id (hd (pp_path p))"
    using assms(2) by (auto simp: rootIds_def set_map_filter root_id)
  then show ?thesis
    using assms(1) end_kinds(4) by (auto simp: well_paths_def list_all_iff)
qed

lemma root_in:
  assumes "well_paths stages ps" and "p \<in> set ps"
  shows "pn_id (hd (pp_path p)) \<in> set (rootIds ps)"
proof -
  have wp: "well_path stages (pp_path p)" "2 \<le> length stages"
    using assms by (auto simp: well_paths_def list_all_iff)
  note e = end_kinds(1,4) [OF wp]
  have "pn_id (hd (pp_path p)) \<noteq> []"
    using e(2) by (cases "hd stages") (auto simp: kinded_def js_def)
  then show ?thesis
    using assms(2) e(1) by (auto simp: rootIds_def set_map_filter root_id)
qed

lemma root_total_eq:
  assumes wf: "well_paths stages ps" and clean: "nul_free ps"
  shows "root_total ps (fg_links (graphOf env ps metric palette stages opts)) = sum_list (map (path_weight metric None) ps)"
proof -
  have "root_total ps (fg_links (graphOf env ps metric palette stages opts))
      = sum_list (map (link_measure None) (filter (\<lambda>l. dl_source l \<in> set (rootIds ps)) (fg_links (graphOf env ps metric palette stages opts))))"
    unfolding root_total_def by (intro arg_cong [where f = sum_list] map_cong) simp_all
  also have "\<dots> = sum_list (map (path_weight metric None) ps)"
    unfolding links_sum [OF clean, of None "\<lambda>a b. a \<in> set (rootIds ps)"]
  proof (intro arg_cong [where f = sum_list] map_cong refl, goal_cases)
    case (1 p)
    have wp: "well_path stages (pp_path p)" "2 \<le> length stages" "distinct stages"
      using 1 wf by (auto simp: well_paths_def list_all_iff)
    obtain a b rest where path: "pp_path p = a # b # rest"
      using end_kinds(1,2) [OF wp(1,2)] by (cases "pp_path p"; cases "tl (pp_path p)") auto
    have no: "pn_id s \<notin> set (rootIds ps)" if "(s, t) \<in> set (zip (b # rest) rest)" for s t
    proof
      assume "pn_id s \<in> set (rootIds ps)"
      then have h: "kinded (pn_id s) (hd stages)" by (rule rootIds_kinded [OF wf])
      have s: "s \<in> set (tl (pp_path p))" using that path by (auto dest: set_zip_leftD)
      have "pn_kind s \<in> set (tl stages)" using end_kinds(5) [OF wp(1,2) s] .
      moreover have "hd stages \<notin> set (tl stages)" using wp(2,3) by (cases stages) auto
      moreover have "kinded (pn_id s) (pn_kind s)"
        using wp(1) s path by (auto simp: well_path_def list_all_iff)
      ultimately show False using h kinded_unique by metis
    qed
    have "sum_list (map (\<lambda>(s, t). if pn_id s \<in> set (rootIds ps) then path_weight metric None p else 0) (zip (b # rest) rest)) = 0"
      using no by (intro sum_zero) auto
    then show ?case using root_in [OF wf 1] by (simp add: path pathLinks_def)
  qed
  finally show ?thesis .
qed

end
