(* ===== verification/FlowProps.thy ===== *)
theory FlowProps
  imports FlowRules
begin

text \<open>
  The properties of the usage flow, over \<open>buildDashboardFlowData\<close>: conservation, shares, the limit
  on the nodes of a column, and masking.
\<close>

section \<open>The steps of the whole computation\<close>

definition flow_stages :: "FlowBuildOptions \<Rightarrow> FlowNodeKind list" where
  "flow_stages options =
     resolveVisibleStages (case bo_role options of Some r \<Rightarrow> r | None \<Rightarrow> FlowUser) (bo_visibleStages options)"

definition flow_ctx :: "FlowBuildOptions \<Rightarrow> FlowPathContext" where
  "flow_ctx options = \<lparr>ctx_deletedTokenLabel = bo_deletedTokenLabel options\<rparr>"

definition flow_rows :: "FlowQuotaDataItem list \<Rightarrow> FlowBuildOptions \<Rightarrow> FlowQuotaDataItem list" where
  "flow_rows rows options =
     filterRowsByNodes (filterRows rows options) (bo_selectedNodes options) (flow_stages options) (flow_ctx options)"

definition flow_paths :: "FlowEnv \<Rightarrow> FlowQuotaDataItem list \<Rightarrow> FlowMetric \<Rightarrow> FlowBuildOptions \<Rightarrow> PreparedFlowPath list" where
  "flow_paths env rows metric options =
     preparePaths env (flow_rows rows options) metric (flow_stages options) (flow_ctx options) (bo_graph options)"

lemma flow_data:
  "pf_summary (buildDashboardFlowData env rows metric options) = buildSummary (flow_rows rows options)"
  "pf_flow (buildDashboardFlowData env rows metric options) =
     graphOf env (flow_paths env rows metric options) metric (bo_colorPalette options) (flow_stages options) (bo_graph options)"
  by (simp_all add: buildDashboardFlowData_def buildFlowGraph_def flow_stages_def flow_ctx_def flow_rows_def flow_paths_def Let_def)

lemma flow_well: "well_paths (flow_stages options) (flow_paths env rows metric options)"
  unfolding flow_paths_def flow_stages_def by (rule well_prepared)

text \<open>Names without a NUL character give identifiers without one.\<close>

definition clean_row :: "FlowQuotaDataItem \<Rightarrow> bool" where
  "clean_row row \<longleftrightarrow> list_all (\<lambda>s. case s of Some t \<Rightarrow> 0 \<notin> set t | None \<Rightarrow> True)
     [fq_username row, fq_node_name row, fq_use_group row, fq_token_name row, fq_channel_name row, fq_model_name row]"

lemma nat_str_no_nul: "0 \<notin> set (nat_str n)"
  using nat_str_digits [of n] by (auto simp: list_all_iff is_digit_def)

lemma frac_str_no_nul: "0 \<notin> set (frac_str n f)"
  by (induction n arbitrary: f) (simp_all add: Let_def)

lemma num_str_no_nul: "0 \<notin> set (num_str r)"
  using nat_str_no_nul frac_str_no_nul by (auto simp: num_str_def pos_num_str_def Let_def split: if_splits)

lemma str_or_no_nul:
  "(case s of Some t \<Rightarrow> 0 \<notin> set t | None \<Rightarrow> True) \<Longrightarrow> 0 \<notin> set d \<Longrightarrow> 0 \<notin> set (str_or s d)"
  by (auto simp: str_or_def split: option.splits)

lemma builder_no_nul: "clean_row row \<Longrightarrow> 0 \<notin> set (pn_id (NODE_BUILDERS k row ctx))"
  using num_str_no_nul
  by (cases k) (simp_all add: clean_row_def userNode_def nodeNameNode_def tokenNode_def groupNode_def modelNode_def
      channelNode_def Let_def js_def str_or_no_nul)

lemma other_no_nul: "0 \<notin> set (OTHER_FLOW_NODE_IDS k)"
  by (cases k) (simp_all add: OTHER_FLOW_NODE_IDS_def js_def)

lemma prepared_path:
  assumes "p \<in> set (preparePaths env rows metric stages ctx opts)"
  obtains row where "row \<in> set rows" "pp_metrics p = rowMetrics row"
    "applyTopNodeLimit (flowPathForStages row stages ctx)
       (buildTopNodeSets env rows metric stages (normalizeTopNodeLimit (go_topNodeLimit opts)) ctx)
       (case go_overflowMode opts of Some m \<Rightarrow> m | None \<Rightarrow> Aggregate) (go_otherNodeLabel opts) = Some (pp_path p)"
  using assms by (auto simp: preparePaths_def set_map_filter Let_def)

lemma limit_nodes:
  assumes "applyTopNodeLimit path sets mode labeler = Some path'" and "n \<in> set path'"
  obtains m where "m \<in> set path" "n = m \<or> n = otherFlowNode (pn_kind m) labeler"
  using assms by (auto simp: applyTopNodeLimit_def split: if_splits)

lemma prepared_clean:
  assumes "list_all clean_row rows"
  shows "nul_free (preparePaths env rows metric stages ctx opts)"
  unfolding nul_free_def
proof (intro ballI)
  fix p n assume p: "p \<in> set (preparePaths env rows metric stages ctx opts)" and n: "n \<in> set (pp_path p)"
  obtain row m where "row \<in> set rows" "m \<in> set (flowPathForStages row stages ctx)"
    "n = m \<or> n = otherFlowNode (pn_kind m) (go_otherNodeLabel opts)"
    using prepared_path [OF p] limit_nodes [OF _ n] by metis
  then show "0 \<notin> set (pn_id n)"
    using assms builder_no_nul other_no_nul by (auto simp: flowPathForStages_def list_all_iff otherFlowNode_def)
qed

lemma set_flow_rows: "set (flow_rows rows options) \<subseteq> set rows"
  by (auto simp: flow_rows_def filterRowsByNodes_def filterRows_def Let_def)

lemma flow_clean: "list_all clean_row rows \<Longrightarrow> nul_free (flow_paths env rows metric options)"
  unfolding flow_paths_def using set_flow_rows [of rows options] by (intro prepared_clean) (auto simp: list_all_iff)

section \<open>Conservation\<close>

text \<open>
  C14. Every column of the flow carries the whole of the filtered usage: unless rows are hidden, the
  quota, tokens and requests of the nodes of a visible column add up to the summary shown above the
  chart, whatever the limit, the filters, the masking and the highlighting.
\<close>

theorem flow_columns_balance:
  assumes "go_overflowMode (bo_graph options) \<noteq> Some Hide" and "k \<in> set (flow_stages options)"
  shows "let d = buildDashboardFlowData env rows metric options; column = filter (\<lambda>n. dn_kind n = k) (fg_nodes (pf_flow d))
    in sum_list (map dn_quota column) = fs_quota (pf_summary d)
     \<and> sum_list (map dn_tokens column) = fs_tokens (pf_summary d)
     \<and> sum_list (map dn_requests column) = fs_requests (pf_summary d)"
proof -
  let ?d = "buildDashboardFlowData env rows metric options"
  have col: "sum_list (map (node_measure i) (filter (\<lambda>n. dn_kind n = k) (fg_nodes (pf_flow ?d))))
      = summary_measure (case i of None \<Rightarrow> metric | Some m \<Rightarrow> m) (pf_summary ?d)" for i
    unfolding flow_data column_sum [OF flow_well assms(2)] unfolding flow_paths_def by (rule paths_sum [OF assms(1)])
  have "node_measure (Some MetricQuota) = dn_quota" "node_measure (Some MetricTokens) = dn_tokens"
    "node_measure (Some MetricRequests) = dn_requests" by (simp_all add: fun_eq_iff)
  then show ?thesis
    using col [of "Some MetricQuota"] col [of "Some MetricTokens"] col [of "Some MetricRequests"]
    by (simp add: Let_def summary_measure_def)
qed

text \<open>
  C6. What enters a node leaves it: for names without NUL characters, the links out of a node that is
  not in the last column add up to the value of the node, and so do the links into a node
  that is not in the first.
\<close>

theorem flow_nodes_balance:
  assumes "list_all clean_row rows" and "n \<in> set (fg_nodes (pf_flow (buildDashboardFlowData env rows metric options)))"
  shows "let ls = fg_links (pf_flow (buildDashboardFlowData env rows metric options))
    in (dn_kind n = last (flow_stages options) \<or> sum_list (map dl_value (filter (\<lambda>l. dl_source l = dn_id n) ls)) = dn_value n)
     \<and> (dn_kind n = hd (flow_stages options) \<or> sum_list (map dl_value (filter (\<lambda>l. dl_target l = dn_id n) ls)) = dn_value n)"
proof -
  note n = assms(2) [unfolded flow_data]
  have v: "link_measure None = dl_value" "node_measure None = dn_value" by (simp_all add: fun_eq_iff)
  show ?thesis
    using flow_out [OF flow_well flow_clean [OF assms(1)] n, of None] flow_in [OF flow_well flow_clean [OF assms(1)] n, of None]
    by (auto simp: flow_data Let_def v)
qed

section \<open>Shares\<close>

lemma display_share:
  assumes "l \<in> set (assignLinkDisplayColors env ls)"
  obtains l' where "l' \<in> set ls" "dl_value l = dl_value l'" "dl_share l = dl_share l'"
  using assms by (auto simp: assignLinkDisplayColors_def Let_def split: option.splits)

lemma root_total_links:
  "root_total ps (fg_links (graphOf env ps metric palette stages opts)) = root_total ps (flow_links env ps metric palette stages opts)"
proof -
  let ?f = "\<lambda>l. if dl_source l \<in> set (rootIds ps) then dl_value l else 0"
  have c: "?f (link_core l) = ?f l" for l by (simp add: link_core_def)
  have "map link_core (fg_links (graphOf env ps metric palette stages opts))
      = map link_core (flow_links env ps metric palette stages opts)"
    unfolding graphOf_eq Let_def core_colors by simp
  then have "sum_list (map ?f (fg_links (graphOf env ps metric palette stages opts)))
      = sum_list (map ?f (flow_links env ps metric palette stages opts))"
    by (intro core_sum [where c = link_core]) (simp, rule c)
  then show ?thesis by (simp add: root_total_def sum_list_map_filter')
qed

text \<open>
  The share in the tooltip of a link is its part of all the usage shown: unless rows are hidden,
  and when there is any usage of the chosen metric, the share times the total is the value of the link.
\<close>

theorem flow_shares:
  assumes "list_all clean_row rows" and "go_overflowMode (bo_graph options) \<noteq> Some Hide"
    and "0 < summary_measure metric (pf_summary (buildDashboardFlowData env rows metric options))"
    and "l \<in> set (fg_links (pf_flow (buildDashboardFlowData env rows metric options)))"
  shows "dl_share l * summary_measure metric (pf_summary (buildDashboardFlowData env rows metric options)) = dl_value l"
proof -
  let ?ps = "flow_paths env rows metric options"
  let ?ls = "flow_links env ?ps metric (bo_colorPalette options) (flow_stages options) (bo_graph options)"
  have t: "root_total ?ps ?ls = summary_measure metric (pf_summary (buildDashboardFlowData env rows metric options))"
    unfolding root_total_links [symmetric] root_total_eq [OF flow_well flow_clean [OF assms(1)]]
    using paths_sum [OF assms(2), of metric None] by (simp add: flow_paths_def flow_data)
  have "l \<in> set (assignLinkDisplayColors env
      (map (\<lambda>l. l\<lparr>dl_share := (if root_total ?ps ?ls > 0 then dl_value l / root_total ?ps ?ls else 0)\<rparr>) ?ls))"
    using assms(4) unfolding flow_data graphOf_eq Let_def .
  then obtain l' where l': "dl_value l = dl_value l'" "dl_share l = dl_share l'"
    "l' \<in> set (map (\<lambda>l. l\<lparr>dl_share := (if root_total ?ps ?ls > 0 then dl_value l / root_total ?ps ?ls else 0)\<rparr>) ?ls)"
    by (rule display_share)
  then show ?thesis using assms(3) by (auto simp: t)
qed

section \<open>Masking\<close>

definition unlabelled :: "DashboardFlowLink \<Rightarrow> DashboardFlowLink" where
  "unlabelled l = l\<lparr>dl_sourceLabel := [], dl_targetLabel := []\<rparr>"

definition unnamed :: "DashboardFlowNode \<Rightarrow> DashboardFlowNode" where
  "unnamed n = n\<lparr>dn_label := []\<rparr>"

lemma unlabelled_fields [simp]:
  "dl_source (unlabelled l) = dl_source l" "dl_target (unlabelled l) = dl_target l" "dl_value (unlabelled l) = dl_value l"
  "dl_color (unlabelled l) = dl_color l" "linkStableKey (unlabelled l) = linkStableKey l"
  by (simp_all add: unlabelled_def linkStableKey_def)

lemma group_unlabelled:
  "fold groupLink (map unlabelled ls) (map (apsnd (map unlabelled)) b) = map (apsnd (map unlabelled)) (fold groupLink ls b)"
proof (induction ls arbitrary: b)
  case (Cons l ls)
  have m: "map_of (map (apsnd (map unlabelled)) b) k = map_option (map unlabelled) (map_of b k)" for k
    by (induction b) auto
  have p: "al_put k (map unlabelled v) (map (apsnd (map unlabelled)) b) = map (apsnd (map unlabelled)) (al_put k v b)" for k v
    by (induction k v b rule: al_put.induct) auto
  have "groupLink (unlabelled l) (map (apsnd (map unlabelled)) b) = map (apsnd (map unlabelled)) (groupLink l b)"
    unfolding groupLink_def m p [symmetric] by (simp split: option.split)
  then show ?case by (simp add: Cons)
qed simp

lemma display_unlabelled: "displayColors env (map unlabelled ls) = displayColors env ls"
proof -
  have s: "js_sort (\<lambda>a b. or_num (dl_value b - dl_value a) (env_compare env (linkStableKey a) (linkStableKey b))) (map unlabelled ls)
      = map unlabelled (js_sort (\<lambda>a b. or_num (dl_value b - dl_value a) (env_compare env (linkStableKey a) (linkStableKey b))) ls)"
    by (rule js_sort_map) simp
  show ?thesis unfolding displayColors_def s by (simp add: Let_def)
qed

lemma assign_unlabelled: "assignLinkDisplayColors env (map unlabelled ls) = map unlabelled (assignLinkDisplayColors env ls)"
proof -
  have "concat (map (\<lambda>(_, ls). displayColors env ls) (fold groupLink (map unlabelled ls) []))
      = concat (map (\<lambda>(_, ls). displayColors env ls) (fold groupLink ls []))"
    using group_unlabelled [of ls "[]"] by (simp add: comp_def case_prod_unfold display_unlabelled)
  moreover have "(case map_of d (linkStableKey (unlabelled l)) of
        Some (c, a) \<Rightarrow> (unlabelled l)\<lparr>dl_linkColor := c, dl_linkAlpha := a, dl_hoverColor := dl_color (unlabelled l)\<rparr>
      | None \<Rightarrow> unlabelled l)
      = unlabelled (case map_of d (linkStableKey l) of
        Some (c, a) \<Rightarrow> l\<lparr>dl_linkColor := c, dl_linkAlpha := a, dl_hoverColor := dl_color l\<rparr> | None \<Rightarrow> l)" for d l
    unfolding unlabelled_fields by (cases "map_of d (linkStableKey l)") (auto simp: unlabelled_def)
  ultimately show ?thesis
    unfolding assignLinkDisplayColors_def Let_def by simp
qed

abbreviation masking :: "bool \<Rightarrow> FlowGraphOptions \<Rightarrow> FlowGraphOptions" where
  "masking b opts \<equiv> opts\<lparr>go_maskSensitive := b\<rparr>"

lemma mask_unlabelled:
  "map (unlabelled \<circ> snd) (snd (maskFlowGraphLabels g)) = map (unlabelled \<circ> snd) (snd g)"
  "map (unnamed \<circ> snd) (fst (maskFlowGraphLabels g)) = map (unnamed \<circ> snd) (fst g)"
  by (cases g; simp add: maskFlowGraphLabels_def maskLink_def unlabelled_def unnamed_def case_prod_unfold Let_def split: option.split)+

lemma highlight_unlabelled:
  "map (unlabelled \<circ> snd) (snd g) = map (unlabelled \<circ> snd) (snd g') \<Longrightarrow>
    map (unlabelled \<circ> snd) (snd (applyFlowHighlights g hs)) = map (unlabelled \<circ> snd) (snd (applyFlowHighlights g' hs))"
  "map (unnamed \<circ> snd) (fst g) = map (unnamed \<circ> snd) (fst g') \<Longrightarrow>
    map (unnamed \<circ> snd) (fst (applyFlowHighlights g hs)) = map (unnamed \<circ> snd) (fst (applyFlowHighlights g' hs))"
proof -
  have l: "unlabelled (highlightLink h l) = highlightLink h (unlabelled l)" for h l
    by (simp add: unlabelled_def highlightLink_def linkStableKey_def Let_def)
  have n: "unnamed (highlightNode h x) = highlightNode h (unnamed x)" for h x
    by (simp add: unnamed_def highlightNode_def Let_def)
  show "map (unlabelled \<circ> snd) (snd (applyFlowHighlights g hs)) = map (unlabelled \<circ> snd) (snd (applyFlowHighlights g' hs))"
    if "map (unlabelled \<circ> snd) (snd g) = map (unlabelled \<circ> snd) (snd g')"
  proof (cases hs)
    case (Some h)
    have "map (unlabelled \<circ> snd) (snd (applyFlowHighlights x (Some h))) = map (highlightLink h) (map (unlabelled \<circ> snd) (snd x))" for x
      by (cases x) (simp add: applyFlowHighlights_def l)
    then show ?thesis by (simp only: Some that)
  qed (use that in \<open>simp add: applyFlowHighlights_def case_prod_unfold\<close>)
  show "map (unnamed \<circ> snd) (fst (applyFlowHighlights g hs)) = map (unnamed \<circ> snd) (fst (applyFlowHighlights g' hs))"
    if "map (unnamed \<circ> snd) (fst g) = map (unnamed \<circ> snd) (fst g')"
  proof (cases hs)
    case (Some h)
    have "map (unnamed \<circ> snd) (fst (applyFlowHighlights x (Some h))) = map (highlightNode h) (map (unnamed \<circ> snd) (fst x))" for x
      by (cases x) (simp add: applyFlowHighlights_def n)
    then show ?thesis by (simp only: Some that)
  qed (use that in \<open>simp add: applyFlowHighlights_def case_prod_unfold\<close>)
qed

lemma shown_masking:
  "shown env ps metric palette stages (masking b opts) =
     applyFlowHighlights (if b then maskFlowGraphLabels (built env ps metric palette) else built env ps metric palette)
       (buildFlowHighlightSets ps (go_activeNode opts) (go_activeLink opts) stages)"
  by (simp add: shown_def)

lemma links_unmasked:
  "map unlabelled (fg_links (graphOf env ps metric palette stages (masking True opts)))
    = map unlabelled (fg_links (graphOf env ps metric palette stages (masking False opts)))"
proof -
  let ?l = "\<lambda>b. flow_links env ps metric palette stages (masking b opts)"
  have shown: "map unlabelled (map snd (snd (shown env ps metric palette stages (masking True opts))))
      = map unlabelled (map snd (snd (shown env ps metric palette stages (masking False opts))))"
    unfolding shown_masking map_map if_True if_False by (rule highlight_unlabelled, rule mask_unlabelled)
  have eq: "map unlabelled (?l True) = map unlabelled (?l False)"
  proof -
    let ?c = "\<lambda>a b. or_num (env_compare env (dl_source a) (dl_source b)) (env_compare env (dl_target a) (dl_target b))"
    have "map unlabelled (js_sort ?c xs) = js_sort ?c (map unlabelled xs)" for xs
      by (rule js_sort_map [symmetric]) simp
    then show ?thesis unfolding flow_links_def by (simp only: shown)
  qed
  have root: "root_total ps (?l b) = root_total ps (map unlabelled (?l b))" for b
    by (simp add: root_total_def filter_map comp_def)
  have share: "map unlabelled (map (\<lambda>l. l\<lparr>dl_share := (if r > 0 then dl_value l / r else 0)\<rparr>) ls)
      = map (\<lambda>l. l\<lparr>dl_share := (if r > 0 then dl_value l / r else 0)\<rparr>) (map unlabelled ls)" for r ls
    by (simp add: unlabelled_def)
  show ?thesis
    unfolding graphOf_eq Let_def assign_unlabelled [symmetric] share root eq ..
qed

lemma nodes_unmasked:
  "mset (map unnamed (fg_nodes (graphOf env ps metric palette stages (masking True opts))))
    = mset (map unnamed (fg_nodes (graphOf env ps metric palette stages (masking False opts))))"
proof -
  have "map unnamed (map snd (fst (shown env ps metric palette stages (masking True opts))))
      = map unnamed (map snd (fst (shown env ps metric palette stages (masking False opts))))"
    unfolding shown_masking map_map if_True if_False by (rule highlight_unlabelled, rule mask_unlabelled)
  then show ?thesis unfolding graphOf_eq mset_map_js_sort by (rule arg_cong)
qed

lemma mask_label: "maskFlowLabel s \<in> {[], FLOW_MASK_TEXT}"
  by (simp add: maskFlowLabel_def)

lemma fst_mask:
  "fst (maskFlowGraphLabels g) = map (\<lambda>(k, n). (k, if maskedNode n then n\<lparr>dn_label := maskFlowLabel (dn_label n)\<rparr> else n)) (fst g)"
  by (cases g) (simp add: maskFlowGraphLabels_def Let_def)

lemma masked_nodes:
  assumes "n \<in> set (fg_nodes (graphOf env ps metric palette stages (masking True opts)))" and "maskedNode n"
  shows "dn_label n \<in> {[], FLOW_MASK_TEXT}"
proof -
  let ?f = "\<lambda>n. if maskedNode n then n\<lparr>dn_label := maskFlowLabel (dn_label n)\<rparr> else n"
  have h: "maskedNode (highlightNode hs x) = maskedNode x" "dn_label (highlightNode hs x) = dn_label x" for hs x
    by (simp_all add: maskedNode_def highlightNode_def Let_def)
  have f: "maskedNode (?f x) = maskedNode x" for x by (simp add: maskedNode_def)
  have "n \<in> snd ` set (fst (shown env ps metric palette stages (masking True opts)))"
    using assms(1) by (simp add: graphOf_eq)
  then obtain x where "x \<in> snd ` set (fst (maskFlowGraphLabels (built env ps metric palette)))"
    "maskedNode n = maskedNode x" "dn_label n = dn_label x"
    unfolding shown_masking if_True
    by (cases "maskFlowGraphLabels (built env ps metric palette)")
      (fastforce simp: applyFlowHighlights_def h split: option.splits)
  moreover from this(1) obtain y where "x = ?f y"
    by (auto simp: fst_mask)
  ultimately show ?thesis using assms(2) f mask_label by auto
qed

lemma masked_ids:
  assumes "n \<in> snd ` set ns" and "maskedNode n"
  shows "map_of (map (\<lambda>n. (dn_id n, maskFlowLabel (dn_label n))) (filter maskedNode (map snd ns))) (dn_id n)
    \<in> Some ` {[], FLOW_MASK_TEXT}"
proof -
  let ?m = "map (\<lambda>n. (dn_id n, maskFlowLabel (dn_label n))) (filter maskedNode (map snd ns))"
  have "dn_id n \<in> fst ` set ?m" using assms by force
  then obtain v where v: "map_of ?m (dn_id n) = Some v" by (metis map_of_eq_None_iff option.exhaust)
  then have "v \<in> {[], FLOW_MASK_TEXT}" using map_of_SomeD [OF v] mask_label by auto
  with v show ?thesis by blast
qed

lemma masked_ends:
  assumes n: "n \<in> snd ` set ns" "maskedNode n" and l: "l \<in> snd ` set (snd (maskFlowGraphLabels (ns, ls)))"
  shows "dl_source l = dn_id n \<Longrightarrow> dl_sourceLabel l \<in> {[], FLOW_MASK_TEXT}"
    and "dl_target l = dn_id n \<Longrightarrow> dl_targetLabel l \<in> {[], FLOW_MASK_TEXT}"
proof -
  let ?m = "map (\<lambda>n. (dn_id n, maskFlowLabel (dn_label n))) (filter maskedNode (map snd ns))"
  have "?m \<noteq> []" using n by (auto simp: filter_empty_conv)
  then obtain l0 where l0: "l = maskLink ?m l0" using l by (auto simp: maskFlowGraphLabels_def Let_def)
  have ends: "dl_source l = dl_source l0" "dl_target l = dl_target l0"
    by (simp_all add: l0 maskLink_def Let_def split: option.split)
  show "dl_sourceLabel l \<in> {[], FLOW_MASK_TEXT}" if "dl_source l = dn_id n"
    using masked_ids [OF n] that ends by (auto simp: l0 maskLink_def Let_def split: option.split)
  show "dl_targetLabel l \<in> {[], FLOW_MASK_TEXT}" if "dl_target l = dn_id n"
    using masked_ids [OF n] that ends by (auto simp: l0 maskLink_def Let_def split: option.split)
qed

lemma built_links_ends:
  "\<forall>l \<in> snd ` set (snd (built env ps metric palette)).
     dl_source l \<in> fst ` set (fst (built env ps metric palette)) \<and> dl_target l \<in> fst ` set (fst (built env ps metric palette))"
proof -
  let ?ids = "(\<Union>p \<in> set ps. pn_id ` set (pp_path p))"
  have ids: "fst ` set (fst (built env ps metric palette)) = ?ids"
    unfolding built_eq nodes.keys_fold by (simp add: nodeEvents_def image_UN image_image)
  have "\<forall>l \<in> snd ` set (snd (built env ps metric palette)). dl_source l \<in> ?ids \<and> dl_target l \<in> ?ids"
    unfolding built_eq
  proof (rule links.entries_fold)
    show "dl_source (link_entry e None) \<in> ?ids \<and> dl_target (link_entry e None) \<in> ?ids"
      if "e \<in> set (concat (map (linkEvents env metric (root_colors env ps palette) palette) ps))" for e
      using that path_links_in by (fastforce simp: linkEvents_def)
  qed simp_all
  then show ?thesis unfolding ids .
qed

text \<open>The label of an end of a link is masked when its identifier belongs to a sensitive column.\<close>

definition sensitive_id :: "jsstr \<Rightarrow> bool" where
  "sensitive_id i \<longleftrightarrow> list_ex (\<lambda>k. kinded i k) SENSITIVE_FLOW_KINDS \<and> i \<notin> set OTHER_FLOW_NODE_ID_SET"

lemma masked_links:
  assumes wf: "well_paths stages ps"
    and l: "l \<in> set (fg_links (graphOf env ps metric palette stages (masking True opts)))"
  shows "sensitive_id (dl_source l) \<Longrightarrow> dl_sourceLabel l \<in> {[], FLOW_MASK_TEXT}"
    and "sensitive_id (dl_target l) \<Longrightarrow> dl_targetLabel l \<in> {[], FLOW_MASK_TEXT}"
proof -
  let ?b = "built env ps metric palette"
  have "l \<in> set (assignLinkDisplayColors env ls') \<Longrightarrow> \<exists>l' \<in> set ls'. dl_source l = dl_source l' \<and> dl_target l = dl_target l'
      \<and> dl_sourceLabel l = dl_sourceLabel l' \<and> dl_targetLabel l = dl_targetLabel l'" for ls'
    by (auto simp: assignLinkDisplayColors_def Let_def split: option.splits)
  with l obtain l1 where l1: "l1 \<in> snd ` set (snd (shown env ps metric palette stages (masking True opts)))"
    "dl_source l = dl_source l1" "dl_target l = dl_target l1" "dl_sourceLabel l = dl_sourceLabel l1" "dl_targetLabel l = dl_targetLabel l1"
    unfolding graphOf_eq Let_def flow_links_def by fastforce
  then obtain l2 where l2: "l2 \<in> snd ` set (snd (maskFlowGraphLabels ?b))"
    "dl_source l = dl_source l2" "dl_target l = dl_target l2" "dl_sourceLabel l = dl_sourceLabel l2" "dl_targetLabel l = dl_targetLabel l2"
    unfolding shown_masking if_True
    by (cases "maskFlowGraphLabels ?b") (fastforce simp: applyFlowHighlights_def highlightLink_def Let_def split: option.splits)
  have "\<exists>l3 \<in> snd ` set (snd ?b). dl_source l2 = dl_source l3 \<and> dl_target l2 = dl_target l3"
    using l2(1) by (cases ?b) (force simp: maskFlowGraphLabels_def maskLink_def Let_def split: if_splits option.splits)
  with built_links_ends have ends: "dl_source l \<in> fst ` set (fst ?b)" "dl_target l \<in> fst ` set (fst ?b)"
    using l2(2,3) by metis+
  have node: "\<exists>n \<in> snd ` set (fst ?b). dn_id n = i \<and> maskedNode n" if i: "i \<in> fst ` set (fst ?b)" and s: "sensitive_id i" for i
  proof -
    obtain n where n: "(i, n) \<in> set (fst ?b)" using i by force
    then have "dn_id n = i" "kinded i (dn_kind n)"
      using built_nodes_keys built_nodes_kinded [OF wf] by fastforce+
    with s n show ?thesis
      using kinded_unique by (force simp: sensitive_id_def maskedNode_def list_ex_iff)
  qed
  obtain ns ls where b: "?b = (ns, ls)" by (cases ?b)
  note m = l2(1) [unfolded b]
  show "dl_sourceLabel l \<in> {[], FLOW_MASK_TEXT}" if s: "sensitive_id (dl_source l)"
  proof -
    obtain n where "n \<in> snd ` set ns" "maskedNode n" "dl_source l2 = dn_id n"
      using node [OF ends(1) s] l2(2) by (metis b fst_conv)
    then show ?thesis unfolding l2(4) by (rule masked_ends(1) [OF _ _ m])
  qed
  show "dl_targetLabel l \<in> {[], FLOW_MASK_TEXT}" if s: "sensitive_id (dl_target l)"
  proof -
    obtain n where "n \<in> snd ` set ns" "maskedNode n" "dl_target l2 = dn_id n"
      using node [OF ends(2) s] l2(3) by (metis b fst_conv)
    then show ?thesis unfolding l2(5) by (rule masked_ends(2) [OF _ _ m])
  qed
qed

definition hide_names :: "bool \<Rightarrow> FlowBuildOptions \<Rightarrow> FlowBuildOptions" where
  "hide_names b options = options\<lparr>bo_graph := masking b (bo_graph options)\<rparr>"

lemma prepare_masking: "preparePaths env rows metric stages ctx (masking b opts) = preparePaths env rows metric stages ctx opts"
  by (simp add: preparePaths_def)

lemma hide_names_flow:
  "pf_flow (buildDashboardFlowData env rows metric (hide_names b options)) =
     graphOf env (flow_paths env rows metric options) metric (bo_colorPalette options) (flow_stages options)
       (masking b (bo_graph options))"
  by (simp add: flow_data hide_names_def flow_paths_def flow_rows_def flow_stages_def flow_ctx_def filterRows_def prepare_masking)

text \<open>
  C16. Masking hides names and nothing else. With it, every label of a user, node, token, group or
  channel (the collective \<open>other\<close> nodes apart), on nodes and on both ends of links, is empty or the
  mask text; and but for the labels, the links, in their order, and the nodes are those
  of the unmasked graph, with the same values, shares, colours and highlighting.
\<close>

theorem flow_masking:
  "let masked = pf_flow (buildDashboardFlowData env rows metric (hide_names True options));
       plain = pf_flow (buildDashboardFlowData env rows metric (hide_names False options))
   in list_all (\<lambda>n. dn_label n \<in> {[], FLOW_MASK_TEXT}) (filter maskedNode (fg_nodes masked))
    \<and> list_all (\<lambda>l. dl_sourceLabel l \<in> {[], FLOW_MASK_TEXT}) (filter (\<lambda>l. sensitive_id (dl_source l)) (fg_links masked))
    \<and> list_all (\<lambda>l. dl_targetLabel l \<in> {[], FLOW_MASK_TEXT}) (filter (\<lambda>l. sensitive_id (dl_target l)) (fg_links masked))
    \<and> map unlabelled (fg_links masked) = map unlabelled (fg_links plain)
    \<and> mset (map unnamed (fg_nodes masked)) = mset (map unnamed (fg_nodes plain))"
  unfolding Let_def hide_names_flow list_all_iff set_filter
proof (intro conjI ballI links_unmasked nodes_unmasked, goal_cases)
  case (1 n)
  then show ?case using masked_nodes by blast
next
  case (2 l)
  then show ?case using masked_links(1) [OF flow_well] by blast
next
  case (3 l)
  then show ?case using masked_links(2) [OF flow_well] by blast
qed

section \<open>The largest nodes\<close>

definition rank_entry :: "rat \<times> FlowPathNode \<Rightarrow> FlowNodeRank option \<Rightarrow> FlowNodeRank" where
  "rank_entry e p = (let current = (case p of Some r \<Rightarrow> r | None \<Rightarrow> \<lparr>rk_node = snd e, rk_value = 0\<rparr>)
     in current\<lparr>rk_value := rk_value current + fst e\<rparr>)"

interpretation ranks: tally "\<lambda>e. pn_id (snd e)" "\<lambda>e. addRank (fst e) (snd e)" rank_entry "\<lambda>u::unit. rk_value" "\<lambda>u. fst"
  by unfold_locales (simp_all add: addRank_def rank_entry_def Let_def)

lemma totals_path:
  "map_of (fold (addTotal v) path totals) k =
     map_option (\<lambda>t. fold (addRank v) (filter (\<lambda>n. pn_kind n = k) path) t) (map_of totals k)"
  by (induction path arbitrary: totals)
    (auto simp: addTotal_def map_of_al_put option.map_comp option.map_id comp_def split: option.split)

definition row_value :: "FlowMetric \<Rightarrow> FlowQuotaDataItem \<Rightarrow> rat" where
  "row_value metric row = metricValue (rowMetrics row) metric"

definition column_ranks :: "FlowQuotaDataItem list \<Rightarrow> FlowMetric \<Rightarrow> FlowPathContext \<Rightarrow> FlowNodeKind \<Rightarrow> StageTotals" where
  "column_ranks rows metric ctx k = fold (\<lambda>row. addRank (row_value metric row) (NODE_BUILDERS k row ctx)) rows []"

lemma filter_stage: "distinct stages \<Longrightarrow> k \<in> set stages \<Longrightarrow> filter (\<lambda>s. s = k) stages = [k]"
  by (induction stages) (auto simp: filter_empty_conv)

lemma stageTotals_column:
  assumes "distinct stages" and "k \<in> set stages"
  shows "map_of (stageTotals rows metric stages ctx) k = Some (column_ranks rows metric ctx k)"
proof -
  have f: "filter (\<lambda>n. pn_kind n = k) (flowPathForStages row stages ctx) = [NODE_BUILDERS k row ctx]" for row
    using filter_stage [OF assms] by (simp add: flowPathForStages_def filter_map comp_def)
  have "map_of (fold (\<lambda>row totals. fold (addTotal (metricValue (rowMetrics row) metric)) (flowPathForStages row stages ctx) totals) rows tot) k
      = map_option (fold (\<lambda>row. addRank (row_value metric row) (NODE_BUILDERS k row ctx)) rows) (map_of tot k)" for tot
    by (induction rows arbitrary: tot) (simp_all add: totals_path f row_value_def option.map_comp comp_def option.map_id)
  moreover have "map_of (map (\<lambda>stage. (stage, [])) (dedup stages)) k = Some ([] :: StageTotals)"
    using assms(2) by (simp add: map_of_map_restrict map_of_eq_None_iff)
  ultimately show ?thesis by (simp add: stageTotals_def column_ranks_def)
qed

text \<open>What the rows of the node \<open>j\<close> of a column add up to.\<close>

definition column_total :: "FlowQuotaDataItem list \<Rightarrow> FlowMetric \<Rightarrow> FlowPathContext \<Rightarrow> FlowNodeKind \<Rightarrow> jsstr \<Rightarrow> rat" where
  "column_total rows metric ctx k j =
     sum_list (map (row_value metric) (filter (\<lambda>row. pn_id (NODE_BUILDERS k row ctx) = j) rows))"

lemma column_ranks_fold:
  "column_ranks rows metric ctx k
    = fold (\<lambda>e. addRank (fst e) (snd e)) (map (\<lambda>row. (row_value metric row, NODE_BUILDERS k row ctx)) rows) []"
  by (simp add: column_ranks_def fold_map comp_def)

lemma rank_keys:
  "\<forall>(j, r) \<in> set m. pn_id (rk_node r) = j \<Longrightarrow>
    \<forall>(j, r) \<in> set (fold (\<lambda>e. addRank (fst e) (snd e)) es m). pn_id (rk_node r) = j"
proof (induction es arbitrary: m)
  case (Cons e es)
  have "\<forall>(j, r) \<in> set (addRank (fst e) (snd e) m). pn_id (rk_node r) = j"
    using Cons.prems al_put_entries [of "pn_id (snd e)" "rank_entry e (map_of m (pn_id (snd e)))" m]
      map_of_SomeD [of m "pn_id (snd e)"]
    by (cases "map_of m (pn_id (snd e))") (fastforce simp: ranks.put rank_entry_def Let_def)+
  then show ?case using Cons.IH by simp
qed simp

lemma column_ranks_facts:
  "distinct (map fst (column_ranks rows metric ctx k))"
  "(j, r) \<in> set (column_ranks rows metric ctx k) \<Longrightarrow> pn_id (rk_node r) = j"
  "(j, r) \<in> set (column_ranks rows metric ctx k) \<Longrightarrow> rk_value r = column_total rows metric ctx k j"
  "fst ` set (column_ranks rows metric ctx k) = (\<lambda>row. pn_id (NODE_BUILDERS k row ctx)) ` set rows"
proof -
  show d: "distinct (map fst (column_ranks rows metric ctx k))"
    unfolding column_ranks_fold by (rule ranks.distinct_fold) simp
  show "pn_id (rk_node r) = j" if "(j, r) \<in> set (column_ranks rows metric ctx k)"
    using that rank_keys [of "[]"] unfolding column_ranks_fold by fastforce
  show "rk_value r = column_total rows metric ctx k j" if r: "(j, r) \<in> set (column_ranks rows metric ctx k)"
  proof -
    have "rk_value r = ranks.collected () (\<lambda>k'. k' = j) (column_ranks rows metric ctx k)"
      by (rule ranks.collected_entry [OF d r])
    also have "\<dots> = column_total rows metric ctx k j"
      unfolding column_ranks_fold ranks.collected_fold
      by (simp add: ranks.collected_def column_total_def comp_def sum_list_map_filter' cong: if_cong)
    finally show ?thesis .
  qed
  show "fst ` set (column_ranks rows metric ctx k) = (\<lambda>row. pn_id (NODE_BUILDERS k row ctx)) ` set rows"
    unfolding column_ranks_fold ranks.keys_fold by (simp add: image_image)
qed

lemma rankOrder_comparison: "comparison (env_compare env) \<Longrightarrow> comparison (rankOrder env)"
proof -
  assume c: "comparison (env_compare env)"
  have eq: "rankOrder env = (\<lambda>a b. or_num (rk_value b - rk_value a)
      (or_num (env_compare env (pn_label (rk_node a)) (pn_label (rk_node b)))
        (env_compare env (pn_id (rk_node a)) (pn_id (rk_node b)))))"
    by (intro ext) (simp add: rankOrder_def)
  show ?thesis
    unfolding eq by (rule comparison_then [OF comparison_chain [OF comparison_on [OF c] comparison_on [OF c]]])
qed

lemma topIds_largest:
  assumes cmp: "comparison (env_compare env)" and i: "i \<in> set (topIds env n (column_ranks rows metric ctx k))"
    and j: "j \<in> (\<lambda>row. pn_id (NODE_BUILDERS k row ctx)) ` set rows" "j \<notin> set (topIds env n (column_ranks rows metric ctx k))"
  shows "column_total rows metric ctx k j \<le> column_total rows metric ctx k i"
proof -
  let ?r = "column_ranks rows metric ctx k" let ?s = "js_sort (rankOrder env) (map snd ?r)"
  obtain a where a: "a \<in> set (take n ?s)" "pn_id (rk_node a) = i" using i by (auto simp: topIds_def)
  have "j \<in> fst ` set ?r" unfolding column_ranks_facts(4) by (rule j(1))
  then obtain b where b: "(j, b) \<in> set ?r" by force
  then have bj: "pn_id (rk_node b) = j" by (rule column_ranks_facts)
  have "b \<in> set ?s" using b by force
  then have "b \<in> set (take n ?s) \<or> b \<in> set (drop n ?s)" by (metis UnE append_take_drop_id set_append)
  moreover have "b \<notin> set (take n ?s)" using j(2) bj by (auto simp: topIds_def)
  ultimately have le: "rankOrder env a b \<le> 0"
    using comparison.take_before_drop [OF rankOrder_comparison [OF cmp] a(1)] by blast
  have "a \<in> set ?s" using a(1) by (rule in_set_takeD)
  then have "(i, a) \<in> set ?r" using a(2) column_ranks_facts(2) by fastforce
  then have "rk_value a = column_total rows metric ctx k i" "rk_value b = column_total rows metric ctx k j"
    using b column_ranks_facts(3) by blast+
  with le show ?thesis by (auto simp: rankOrder_def or_num_def split: if_splits)
qed

lemma top_set:
  assumes "distinct stages" "k \<in> set stages" "limit = Some n" "0 < n" and that: "pn_kind node = k"
  shows "isTopFlowNode node (buildTopNodeSets env rows metric stages limit ctx) \<longleftrightarrow>
      pn_id node \<in> set (topIds env n (column_ranks rows metric ctx k))"
proof -
  have "map_of (map (\<lambda>(kind, totals). (kind, topIds env n totals)) xs) k = map_option (topIds env n) (map_of xs k)" for xs
    by (induction xs) auto
  then show ?thesis
    using assms(3,4) that stageTotals_column [OF assms(1,2)] by (simp add: isTopFlowNode_def buildTopNodeSets_def)
qed

lemma graph_ids:
  "mset (map dn_id (fg_nodes (graphOf env ps metric palette stages opts))) = mset (map fst (fst (built env ps metric palette)))"
proof -
  have "map dn_id xs = map dn_id (map node_core xs)" for xs by simp
  then have "mset (map dn_id (fg_nodes (graphOf env ps metric palette stages opts)))
      = image_mset dn_id (mset (map node_core (fg_nodes (graphOf env ps metric palette stages opts))))"
    by (metis mset_map)
  also have "\<dots> = mset (map dn_id (map snd (fst (built env ps metric palette))))"
    unfolding graph_nodes_core by (simp add: image_mset.compositionality comp_def)
  also have "map dn_id (map snd (fst (built env ps metric palette))) = map fst (fst (built env ps metric palette))"
    using built_nodes_keys [of env ps metric palette] by (auto simp: case_prod_beta)
  finally show ?thesis .
qed

lemma graph_ids_distinct: "distinct (map dn_id (fg_nodes (graphOf env ps metric palette stages opts)))"
  using built_nodes_distinct mset_eq_imp_distinct_iff [OF graph_ids] by blast

lemma graph_ids_set:
  "dn_id ` set (fg_nodes (graphOf env ps metric palette stages opts)) = (\<Union>p \<in> set ps. pn_id ` set (pp_path p))"
proof -
  have "dn_id ` set (fg_nodes (graphOf env ps metric palette stages opts)) = fst ` set (fst (built env ps metric palette))"
    using arg_cong [OF graph_ids, of set_mset] by simp
  then show ?thesis unfolding built_eq nodes.keys_fold by (simp add: nodeEvents_def image_UN image_image)
qed

lemma limit_top:
  assumes "applyTopNodeLimit path sets mode labeler = Some path'" and "sets \<noteq> None" and "n \<in> set path'"
  shows "n \<in> set path \<and> isTopFlowNode n sets \<or> (\<exists>k. n = otherFlowNode k labeler)"
  using assms by (auto simp: applyTopNodeLimit_def list_ex_iff split: if_splits)

lemma limit_keeps_top:
  assumes "applyTopNodeLimit path sets mode labeler = Some path'" and "n \<in> set path" and "isTopFlowNode n sets"
  shows "n \<in> set path'"
  using assms by (force simp: applyTopNodeLimit_def split: if_splits)

lemma limit_total: "mode \<noteq> Hide \<Longrightarrow> \<exists>path'. applyTopNodeLimit path sets mode labeler = Some path'"
  by (simp add: applyTopNodeLimit_def)

lemma limit_positive: "normalizeTopNodeLimit x = Some n \<Longrightarrow> 0 < n"
  by (auto simp: normalizeTopNodeLimit_def Let_def split: option.splits if_splits)

text \<open>Shared setting of the two halves of the limit property.\<close>

lemma shown_is_top:
  assumes lim: "normalizeTopNodeLimit (go_topNodeLimit opts) = Some n" and st: "distinct stages" "k \<in> set stages"
    and p: "p \<in> set (preparePaths env rows metric stages ctx opts)" and m: "m \<in> set (pp_path p)"
    and k: "kinded (pn_id m) k" "pn_id m \<noteq> OTHER_FLOW_NODE_IDS k"
  shows "pn_id m \<in> set (topIds env n (column_ranks rows metric ctx k))"
proof -
  let ?sets = "buildTopNodeSets env rows metric stages (normalizeTopNodeLimit (go_topNodeLimit opts)) ctx"
  note pos = limit_positive [OF lim]
  have some: "?sets \<noteq> None" using lim pos by (simp add: buildTopNodeSets_def)
  obtain row where "applyTopNodeLimit (flowPathForStages row stages ctx) ?sets
      (case go_overflowMode opts of Some m \<Rightarrow> m | None \<Rightarrow> Aggregate) (go_otherNodeLabel opts) = Some (pp_path p)"
    using prepared_path [OF p] by metis
  from limit_top [OF this some m] show ?thesis
  proof
    assume top: "m \<in> set (flowPathForStages row stages ctx) \<and> isTopFlowNode m ?sets"
    then have "kinded (pn_id m) (pn_kind m)" by (auto simp: flowPathForStages_def builder_kinded)
    then have "pn_kind m = k" using k(1) kinded_unique by blast
    then show ?thesis using top_set [OF st lim pos] top by blast
  next
    assume "\<exists>k'. m = otherFlowNode k' (go_otherNodeLabel opts)"
    then obtain k' where k': "pn_id m = OTHER_FLOW_NODE_IDS k'" by (auto simp: otherFlowNode_def)
    then have "k' = k" using k(1) other_kinded [of k'] kinded_unique by metis
    with k' k(2) show ?thesis by simp
  qed
qed

lemma top_is_shown:
  assumes lim: "normalizeTopNodeLimit (go_topNodeLimit opts) = Some n" and st: "distinct stages" "k \<in> set stages"
    and mode: "go_overflowMode opts \<noteq> Some Hide" and row: "row \<in> set rows"
    and top: "pn_id (NODE_BUILDERS k row ctx) \<in> set (topIds env n (column_ranks rows metric ctx k))"
  shows "pn_id (NODE_BUILDERS k row ctx) \<in> (\<Union>p \<in> set (preparePaths env rows metric stages ctx opts). pn_id ` set (pp_path p))"
proof -
  let ?sets = "buildTopNodeSets env rows metric stages (normalizeTopNodeLimit (go_topNodeLimit opts)) ctx"
  let ?mode = "case go_overflowMode opts of Some m \<Rightarrow> m | None \<Rightarrow> Aggregate"
  have "?mode \<noteq> Hide" using mode by (auto split: option.split)
  then obtain path' where path': "applyTopNodeLimit (flowPathForStages row stages ctx) ?sets ?mode (go_otherNodeLabel opts) = Some path'"
    using limit_total by blast
  have "NODE_BUILDERS k row ctx \<in> set (flowPathForStages row stages ctx)"
    using st(2) by (simp add: flowPathForStages_def)
  moreover have "isTopFlowNode (NODE_BUILDERS k row ctx) ?sets"
    using top_set [OF st lim limit_positive [OF lim]] top by simp
  ultimately have "NODE_BUILDERS k row ctx \<in> set path'" by (rule limit_keeps_top [OF path'])
  moreover have "\<lparr>pp_path = path', pp_metrics = rowMetrics row\<rparr> \<in> set (preparePaths env rows metric stages ctx opts)"
    unfolding preparePaths_def Let_def set_map_filter using row path' by auto
  ultimately show ?thesis by force
qed

text \<open>
  C15. The limit keeps the largest nodes. When a limit \<open>n\<close> is set and the rest is collected, a column
  shows at most \<open>n\<close> nodes besides the collective one, and a node that is not shown has no more of
  the chosen metric than any that is. The order of texts only needs to be consistent.
\<close>

theorem flow_limit_largest:
  assumes "comparison (env_compare env)" and "normalizeTopNodeLimit (go_topNodeLimit (bo_graph options)) = Some n"
    and "go_overflowMode (bo_graph options) \<noteq> Some Hide" and "k \<in> set (flow_stages options)"
  shows "let nodes = fg_nodes (pf_flow (buildDashboardFlowData env rows metric options));
             own = filter (\<lambda>nd. dn_kind nd = k \<and> dn_id nd \<noteq> OTHER_FLOW_NODE_IDS k) nodes;
             used = flow_rows rows options; ctx = flow_ctx options
    in length own \<le> n
     \<and> list_all (\<lambda>nd. list_all (\<lambda>row. pn_id (NODE_BUILDERS k row ctx) \<in> dn_id ` set nodes
           \<or> column_total used metric ctx k (pn_id (NODE_BUILDERS k row ctx)) \<le> column_total used metric ctx k (dn_id nd)) used) own"
proof -
  let ?ps = "flow_paths env rows metric options" and ?rows = "flow_rows rows options" and ?ctx = "flow_ctx options"
  let ?nodes = "fg_nodes (pf_flow (buildDashboardFlowData env rows metric options))"
  let ?own = "filter (\<lambda>nd. dn_kind nd = k \<and> dn_id nd \<noteq> OTHER_FLOW_NODE_IDS k) ?nodes"
  let ?top = "topIds env n (column_ranks ?rows metric ?ctx k)"
  have st: "distinct (flow_stages options)" by (simp add: flow_stages_def stages_ok)
  have own: "dn_id nd \<in> set ?top" if "nd \<in> set ?own" for nd
  proof -
    have nd: "nd \<in> set ?nodes" "dn_kind nd = k" "dn_id nd \<noteq> OTHER_FLOW_NODE_IDS k" using that by auto
    note t = node_total(2,3) [OF flow_well nd(1) [unfolded flow_data]]
    obtain p m where pm: "p \<in> set ?ps" "m \<in> set (pp_path p)" "pn_id m = dn_id nd" using t(2) by auto
    have "kinded (pn_id m) k" "pn_id m \<noteq> OTHER_FLOW_NODE_IDS k" using t(1) nd(2,3) pm(3) by simp_all
    from shown_is_top [OF assms(2) st assms(4) pm(1) [unfolded flow_paths_def] pm(2) this] show ?thesis
      unfolding pm(3) .
  qed
  have ids: "dn_id ` set ?nodes = (\<Union>p \<in> set ?ps. pn_id ` set (pp_path p))" unfolding flow_data graph_ids_set ..
  have "distinct (map dn_id ?own)" unfolding flow_data using graph_ids_distinct by (rule distinct_map_filter)
  from distinct_card [OF this] have "length ?own = card (set (map dn_id ?own))" by (simp only: length_map)
  also have "\<dots> \<le> card (set ?top)" using own by (intro card_mono) auto
  also have "\<dots> \<le> n" by (rule order_trans [OF card_length]) (simp add: topIds_def)
  finally have len: "length ?own \<le> n" .
  have le: "column_total ?rows metric ?ctx k (pn_id (NODE_BUILDERS k row ?ctx)) \<le> column_total ?rows metric ?ctx k (dn_id nd)"
    if "nd \<in> set ?own" "row \<in> set ?rows" "pn_id (NODE_BUILDERS k row ?ctx) \<notin> dn_id ` set ?nodes" for nd row
  proof (rule topIds_largest [OF assms(1) own [OF that(1)]])
    show "pn_id (NODE_BUILDERS k row ?ctx) \<in> (\<lambda>row. pn_id (NODE_BUILDERS k row ?ctx)) ` set ?rows" using that(2) by blast
    show "pn_id (NODE_BUILDERS k row ?ctx) \<notin> set ?top"
      using that(3) top_is_shown [OF assms(2) st assms(4,3) that(2), of ?ctx env metric] unfolding ids flow_paths_def by blast
  qed
  show ?thesis
    unfolding Let_def list_all_iff using le by (intro conjI ballI len) blast
qed

section \<open>A sample\<close>

definition sample_env :: FlowEnv where
  "sample_env = \<lparr>env_compare = unit_compare, env_scheme = [], env_fixed2 = (\<lambda>_. js ''0.34''), env_format = num_str\<rparr>"

definition sample_row :: "string \<Rightarrow> string \<Rightarrow> rat \<Rightarrow> FlowQuotaDataItem" where
  "sample_row token model quota =
     \<lparr>fq_user_id = Some 1, fq_username = Some (js ''ann''), fq_node_name = None, fq_use_group = Some (js ''vip''),
      fq_token_id = None, fq_token_name = Some (js token), fq_channel_id = None, fq_channel_name = None,
      fq_model_name = Some (js model), fq_token_used = Some 5, fq_count = Some 1, fq_quota = Some quota\<rparr>"

definition sample_rows :: "FlowQuotaDataItem list" where
  "sample_rows = [sample_row ''a'' ''m'' 20, sample_row ''b'' ''m'' 10]"

definition sample_flow_options :: FlowBuildOptions where
  "sample_flow_options = \<lparr>bo_role = None, bo_selectedUsers = None, bo_selectedNodes = None, bo_colorPalette = None,
     bo_visibleStages = None, bo_deletedTokenLabel = None,
     bo_graph = \<lparr>go_topNodeLimit = Some 1, go_overflowMode = None, go_otherNodeLabel = None, go_activeNode = None,
       go_activeLink = None, go_maskSensitive = False\<rparr>\<rparr>"

lemma sample_facts:
  "go_overflowMode (bo_graph sample_flow_options) \<noteq> Some Hide" "flow_stages sample_flow_options = [KToken, KGroup, KModel]"
  "normalizeTopNodeLimit (go_topNodeLimit (bo_graph sample_flow_options)) = Some 1" "list_all clean_row sample_rows"
  "pf_summary (buildDashboardFlowData sample_env sample_rows m sample_flow_options)
     = \<lparr>fs_quota = 30, fs_tokens = 10, fs_requests = 2\<rparr>"
  unfolding flow_data by code_simp+

lemma sample_compare: "comparison (env_compare sample_env)"
  using units.comparison_axioms by (simp add: sample_env_def)

theorem flow_columns_balance_witness:
  "sum_list (map dn_quota (filter (\<lambda>n. dn_kind n = KToken)
     (fg_nodes (pf_flow (buildDashboardFlowData sample_env sample_rows MetricQuota sample_flow_options))))) = 30"
  using flow_columns_balance [of sample_flow_options KToken sample_env sample_rows MetricQuota]
  by (simp add: sample_facts Let_def)

definition group_node :: DashboardFlowNode where
  "group_node = hd (filter (\<lambda>n. dn_kind n = KGroup)
     (fg_nodes (pf_flow (buildDashboardFlowData sample_env sample_rows MetricQuota sample_flow_options))))"

lemma group_node_facts:
  "group_node \<in> set (fg_nodes (pf_flow (buildDashboardFlowData sample_env sample_rows MetricQuota sample_flow_options)))"
  "dn_kind group_node = KGroup" "dn_value group_node = 30"
  by code_simp+

theorem flow_nodes_balance_witness:
  "sum_list (map dl_value (filter (\<lambda>l. dl_target l = dn_id group_node)
     (fg_links (pf_flow (buildDashboardFlowData sample_env sample_rows MetricQuota sample_flow_options))))) = 30"
  using flow_nodes_balance [OF sample_facts(4) group_node_facts(1)]
  by (simp add: sample_facts group_node_facts Let_def)

definition sample_link :: DashboardFlowLink where
  "sample_link = hd (fg_links (pf_flow (buildDashboardFlowData sample_env sample_rows MetricQuota sample_flow_options)))"

lemma sample_link_facts:
  "sample_link \<in> set (fg_links (pf_flow (buildDashboardFlowData sample_env sample_rows MetricQuota sample_flow_options)))"
  "dl_value sample_link = 30"
  by code_simp+

theorem flow_shares_witness: "dl_share sample_link = 1"
  using flow_shares [OF sample_facts(4,1), of MetricQuota sample_env sample_link]
  by (simp add: sample_facts sample_link_facts summary_measure_def)

theorem flow_limit_largest_witness:
  "length (filter (\<lambda>nd. dn_kind nd = KToken \<and> dn_id nd \<noteq> OTHER_FLOW_NODE_IDS KToken)
     (fg_nodes (pf_flow (buildDashboardFlowData sample_env sample_rows MetricQuota sample_flow_options)))) \<le> 1"
  using flow_limit_largest [of sample_env sample_flow_options 1 KToken sample_rows MetricQuota] sample_compare
  by (simp add: sample_facts Let_def)

text \<open>A user known by number and a nameless account called by the same number share a node.\<close>

lemma numeric_name_collides:
  "pn_id (userNode (sample_row ''a'' ''m'' 1)) = pn_id (userNode ((sample_row ''a'' ''m'' 1)\<lparr>fq_user_id := None, fq_username := Some (js ''1'')\<rparr>))"
  by code_simp

end
