(* ===== verification/JsPretty.thy ===== *)
theory JsPretty
  imports JsJson
begin

text \<open>
  \<open>JSON.stringify(x, null, 2)\<close>, the indented form that the editors show, and that it is read back
  like the compact one.
\<close>

section \<open>Printing\<close>

definition newline :: "nat \<Rightarrow> jsstr" where
  "newline d = 10 # replicate d 32"

fun pretty :: "nat \<Rightarrow> json \<Rightarrow> jsstr"
  and pretty_elems :: "nat \<Rightarrow> json list \<Rightarrow> jsstr"
  and pretty_members :: "nat \<Rightarrow> (jsstr \<times> json) list \<Rightarrow> jsstr" where
  "pretty d JNull = js ''null''"
| "pretty d (JBool b) = (if b then js ''true'' else js ''false'')"
| "pretty d (JNum r) = num_str r"
| "pretty d (JStr s) = quote s"
| "pretty d (JArr xs) =
     (if xs = [] then [91, 93] else 91 # newline (d + 2) @ pretty_elems (d + 2) xs @ newline d @ [93])"
| "pretty d (JObj ps) =
     (if ps = [] then [123, 125] else 123 # newline (d + 2) @ pretty_members (d + 2) ps @ newline d @ [125])"
| "pretty_elems d [] = []"
| "pretty_elems d [x] = pretty d x"
| "pretty_elems d (x # y # ys) = pretty d x @ 44 # newline d @ pretty_elems d (y # ys)"
| "pretty_members d [] = []"
| "pretty_members d [(k, v)] = quote k @ 58 # 32 # pretty d v"
| "pretty_members d ((k, v) # p # ps) =
     quote k @ 58 # 32 # pretty d v @ 44 # newline d @ pretty_members d (p # ps)"

definition stringify_indented :: "json \<Rightarrow> jsstr" where
  "stringify_indented v = pretty 0 v"

section \<open>Reading back\<close>

lemma skip_spaces [simp]: "skip (replicate d 32 @ s) = skip s"
  by (induction d) (simp_all add: skip_def is_json_ws_def)

lemma skip_newline [simp]: "skip (newline d @ s) = skip s"
  using skip_spaces [of "Suc d" s] by (simp add: newline_def skip_def is_json_ws_def)

lemma skip_space [simp]: "skip (32 # s) = skip s"
  by (simp add: skip_def is_json_ws_def)

lemma closes_newline [simp]: "closes (newline d @ s)"
  by (simp add: closes_def newline_def)

lemma parse_value_skip: "skip s = skip s' \<Longrightarrow> parse_value n s = parse_value n s'"
  by (cases n) (simp_all add: parse_value.simps(2))

lemma parse_elems_skip: "skip s = skip s' \<Longrightarrow> parse_elems n s = parse_elems n s'"
  by (cases n) (simp_all add: parse_elems.simps(2) parse_value_skip [of s s'])

lemma parse_members_skip: "skip s = skip s' \<Longrightarrow> parse_members n s = parse_members n s'"
  by (cases n) (simp_all add: parse_members.simps(2))

lemmas parse_newline [simp] =
  parse_elems_skip [OF skip_newline] parse_members_skip [OF skip_newline] parse_value_skip [OF skip_space]

lemma pretty_hd: "\<exists>c cs. pretty d v = c # cs \<and> value_head c"
proof (cases v)
  case (JNum r)
  then show ?thesis using num_str_hd [of r]
    by (auto simp: value_head_def is_json_ws_def is_digit_def)
qed (auto simp: value_head_def is_json_ws_def quote_def js_def)

lemma pretty_elems_hd: "\<exists>c cs. pretty_elems d (x # xs) = c # cs \<and> value_head c"
  using pretty_hd [of d x] by (cases xs) auto

lemma pretty_members_hd: "\<exists>c cs. pretty_members d (p # ps) = c # cs \<and> value_head c"
  by (cases p; cases ps) (auto simp: quote_def value_head_def is_json_ws_def)

lemma skip_closers [simp]: "skip (44 # t) = 44 # t" "skip (93 # t) = 93 # t" "skip (125 # t) = 125 # t"
  "skip (91 # t) = 91 # t" "skip (123 # t) = 123 # t"
  by (simp_all add: skip_def is_json_ws_def)

lemma parse_pretty:
  shows "wf_json v \<Longrightarrow> closes t \<Longrightarrow> 2 * length (pretty d v) < n \<Longrightarrow>
      parse_value n (pretty d v @ t) = Some (v, t)"
    and "xs \<noteq> [] \<Longrightarrow> \<forall>x \<in> set xs. wf_json x \<Longrightarrow> 2 * length (pretty_elems d xs) + 1 < n \<Longrightarrow>
      parse_elems n (pretty_elems d xs @ newline e @ 93 # t) = Some (xs, t)"
    and "ps \<noteq> [] \<Longrightarrow> \<forall>p \<in> set ps. wf_json (snd p) \<Longrightarrow> 2 * length (pretty_members d ps) + 1 < n \<Longrightarrow>
      parse_members n (pretty_members d ps @ newline e @ 125 # t) = Some (ps, t)"
proof (induction d v and d xs and d ps arbitrary: n t and n t e and n t e
    rule: pretty_pretty_elems_pretty_members.induct)
  case (1 d)
  then show ?case by (cases n) (auto simp: parse_value.simps(2) js_def skip_def is_json_ws_def)
next
  case (2 d b)
  then show ?case by (cases n; cases b) (auto simp: parse_value.simps(2) js_def skip_def is_json_ws_def)
next
  case (3 d r)
  then show ?case by (cases n) (auto simp: parse_value_num)
next
  case (4 d s)
  then show ?case
    by (cases n) (auto simp: parse_value.simps(2) quote_skip parse_str_quote_units)
next
  case (5 d xs)
  obtain m where n: "n = Suc m" using 5 by (cases n) auto
  show ?case
  proof (cases xs)
    case (Cons y ys)
    obtain c cs where c: "pretty_elems (d + 2) xs = c # cs" "value_head c"
      using pretty_elems_hd Cons by blast
    have "parse_elems m (pretty_elems (d + 2) xs @ newline d @ 93 # t) = Some (xs, t)"
      using 5 n Cons by auto
    then show ?thesis using n c Cons expect_other [OF c(2)] by (simp add: parse_value.simps(2))
  qed (use n in \<open>simp add: parse_value.simps(2)\<close>)
next
  case (6 d ps)
  obtain m where n: "n = Suc m" using 6 by (cases n) auto
  show ?case
  proof (cases ps)
    case (Cons y ys)
    obtain c cs where c: "pretty_members (d + 2) ps = c # cs" "value_head c"
      using pretty_members_hd Cons by blast
    have "parse_members m (pretty_members (d + 2) ps @ newline d @ 125 # t) = Some (ps, t)"
      using 6 n Cons by auto
    then show ?thesis using n c Cons expect_other [OF c(2)] 6(2) by (simp add: parse_value.simps(2))
  qed (use n in \<open>simp add: parse_value.simps(2)\<close>)
next
  case (8 d x)
  obtain m where n: "n = Suc m" using 8 by (cases n) auto
  have "parse_value m (pretty d x @ newline e @ 93 # t) = Some (x, newline e @ 93 # t)"
    using 8 n by (intro "8.IH") auto
  then show ?case using n by (simp add: parse_elems.simps(2))
next
  case (9 d x y ys)
  obtain m where n: "n = Suc m" using 9 by (cases n) auto
  let ?t = "44 # newline d @ pretty_elems d (y # ys) @ newline e @ 93 # t"
  have "parse_value m (pretty d x @ ?t) = Some (x, ?t)"
    using 9 n by (intro "9.IH"(1)) (auto simp: closes_def)
  moreover have "parse_elems m (pretty_elems d (y # ys) @ newline e @ 93 # t) = Some (y # ys, t)"
    using 9 n by (intro "9.IH"(2)) auto
  ultimately show ?case using n by (simp add: parse_elems.simps(2))
next
  case (11 d k v)
  obtain m where n: "n = Suc m" using 11 by (cases n) auto
  have "parse_value m (pretty d v @ newline e @ 125 # t) = Some (v, newline e @ 125 # t)"
    using 11 n by (intro "11.IH") auto
  then show ?case using n parse_member_step [of m "32 # pretty d v" "newline e @ 125 # t" v k] by simp
next
  case (12 d k v p ps)
  obtain m where n: "n = Suc m" using 12 by (cases n) auto
  let ?t = "44 # newline d @ pretty_members d (p # ps) @ newline e @ 125 # t"
  have "parse_value m (pretty d v @ ?t) = Some (v, ?t)"
    using 12 n by (intro "12.IH"(1)) (auto simp: closes_def)
  moreover have "parse_members m (pretty_members d (p # ps) @ newline e @ 125 # t) = Some (p # ps, t)"
    using 12 n by (intro "12.IH"(2)) auto
  ultimately show ?case using n parse_member_step [of m "32 # pretty d v" ?t v k] by simp
qed simp_all

lemma indented_roundtrip: "wf_json v \<Longrightarrow> json_parse (stringify_indented v) = Some v"
  using parse_pretty(1) [of v "[]" 0 "2 * length (pretty 0 v) + 2"]
  by (simp add: json_parse_def closes_def stringify_indented_def) (simp add: skip_def)

interpretation json_indented: codec stringify_indented json_parse wf_json
  by unfold_locales (rule indented_roundtrip)

section \<open>No white space around\<close>

lemma num_str_chars: "c \<in> set (num_str r) \<Longrightarrow> is_digit c \<or> c = 46 \<or> c = 45"
proof -
  have pos: "is_digit c \<or> c = 46" if "c \<in> set (pos_num_str x)" "0 \<le> x" for x
  proof -
    have "0 \<le> x - of_nat (nat \<lfloor>x\<rfloor>)" "x - of_nat (nat \<lfloor>x\<rfloor>) < 1" using that(2) by (simp_all, linarith)
    from frac_str_digits [OF this, of max_frac] that(1) nat_str_no_ws show ?thesis
      by (auto simp: pos_num_str_def Let_def list_all_iff split: if_splits)
  qed
  assume "c \<in> set (num_str r)"
  then show ?thesis using pos by (auto simp: num_str_def split: if_splits)
qed

lemma num_str_no_ws: "c \<in> set (num_str r) \<Longrightarrow> \<not> is_ws c"
  using num_str_chars [of c r] by (auto simp: is_digit_def is_ws_def)

lemma trimmed_stringify: "trimmed (stringify v)"
proof (cases v)
  case (JNum r)
  obtain c cs where "num_str r = c # cs" using num_str_hd [of r] by blast
  then show ?thesis using JNum num_str_no_ws [of _ r] by (auto simp: trimmed_def)
qed (auto simp: trimmed_def quote_def js_def is_ws_def)

lemma stringify_nonempty: "stringify v \<noteq> []"
  using stringify_hd [of v] by auto

lemma trimmed_indented: "trimmed (stringify_indented (JObj ps))" "stringify_indented (JObj ps) \<noteq> []"
  by (simp_all add: stringify_indented_def trimmed_def is_ws_def)

end
