(* ===== verification/AdvancedCustom.thy ===== *)
theory AdvancedCustom
  imports JsPretty
begin

text \<open>
  Routes of an advanced custom channel, \<open>features/channels/lib/advanced-custom.ts\<close>: which requests a
  channel takes, where it sends them, and the checks before a configuration is saved.

  A configuration comes from a text field, so its values are JSON of any shape; the code assumes the
  declared types only where it calls a method, and a value without that method throws \<open>TypeError\<close>.
  Undefined is \<open>None\<close>. The URL parser of the browser is the argument \<open>url\<close>, which gives the host
  and the protocol, or \<open>None\<close> where \<open>new URL\<close> throws.
\<close>

section \<open>Data\<close>

record AdvancedCustomRouteAuth =
  aa_type :: "json option"
  aa_name :: json
  aa_value :: json

record AdvancedCustomRoute =
  ar_incoming_path :: json
  ar_upstream_path :: jsstr
  ar_converter :: json
  ar_models :: "jsstr list"
  ar_auth :: "AdvancedCustomRouteAuth option"

type_synonym AdvancedCustomConfig = "AdvancedCustomRoute list"
type_synonym url_parser = "jsstr \<Rightarrow> (jsstr \<times> jsstr) option"

record AdvancedCustomValidationError =
  ve_message :: jsstr
  ve_routeIndex :: "nat option"

record AdvancedCustomTemplateOption =
  to_value :: jsstr
  to_label :: jsstr
  to_config :: AdvancedCustomConfig

record AdvancedCustomConverterDefaults =
  cd_upstream_path :: jsstr
  cd_auth :: AdvancedCustomRouteAuth

datatype AdvancedCustomModelRuleKind = RuleExact | RuleRegex

definition CHANNEL_TYPE_ADVANCED_CUSTOM :: nat where
  "CHANNEL_TYPE_ADVANCED_CUSTOM = 58"

definition ADVANCED_CUSTOM_CONVERTER_OPTIONS :: "(jsstr \<times> jsstr \<times> jsstr) list" where
  "ADVANCED_CUSTOM_CONVERTER_OPTIONS =
     [(js ''none'', js ''Native forwarding'', js ''Native forwarding''),
      (js ''anthropic_messages_to_openai_chat_completions'', js ''Anthropic Messages to OpenAI Chat'', js ''To OpenAI Chat''),
      (js ''openai_chat_completions_to_anthropic_messages'', js ''OpenAI Chat to Anthropic Messages'', js ''To Anthropic Messages''),
      (js ''openai_chat_completions_to_openai_responses'', js ''OpenAI Chat to OpenAI Responses'', js ''To OpenAI Responses''),
      (js ''openai_responses_to_openai_chat_completions'', js ''OpenAI Responses to OpenAI Chat'', js ''To OpenAI Chat''),
      (js ''openai_responses_to_gemini_generate_content'', js ''OpenAI Responses to Gemini Generate Content'', js ''To Gemini Generate Content''),
      (js ''gemini_generate_content_to_openai_chat_completions'', js ''Gemini Generate Content to OpenAI Chat'', js ''To OpenAI Chat''),
      (js ''openai_chat_completions_to_gemini_generate_content'', js ''OpenAI Chat to Gemini Generate Content'', js ''To Gemini Generate Content'')]"

definition ADVANCED_CUSTOM_AUTH_MODE_OPTIONS :: "(jsstr \<times> jsstr) list" where
  "ADVANCED_CUSTOM_AUTH_MODE_OPTIONS =
     [(js ''default'', js ''Default Bearer''), (js ''none'', js ''No Auth''), (js ''header'', js ''Header''), (js ''query'', js ''Query'')]"

definition ADVANCED_CUSTOM_INCOMING_PATH_OPTIONS :: "(jsstr \<times> jsstr) list" where
  "ADVANCED_CUSTOM_INCOMING_PATH_OPTIONS =
     [(js ''/v1/chat/completions'', js ''OpenAI Chat''),
      (js ''/v1/responses'', js ''OpenAI Responses''),
      (js ''/v1/responses/compact'', js ''OpenAI Responses Compact''),
      (js ''/v1/embeddings'', js ''OpenAI Embeddings''),
      (js ''/v1/images/generations'', js ''OpenAI Image Generations''),
      (js ''/v1/images/edits'', js ''OpenAI Image Edits''),
      (js ''/v1/completions'', js ''OpenAI Completions''),
      (js ''/v1/audio/speech'', js ''OpenAI Audio Speech''),
      (js ''/v1/audio/transcriptions'', js ''OpenAI Audio Transcriptions''),
      (js ''/v1/audio/translations'', js ''OpenAI Audio Translations''),
      (js ''/v1/rerank'', js ''OpenAI Rerank''),
      (js ''/v1/realtime'', js ''OpenAI Realtime''),
      (js ''/v1/messages'', js ''Claude Messages''),
      (js ''/v1beta/models/{model}:generateContent'', js ''Gemini Generate Content''),
      (js ''/v1beta/models/{model}:embedContent'', js ''Gemini Embed Content''),
      (js ''/v1beta/models/{model}:batchEmbedContents'', js ''Gemini Batch Embed Contents'')]"

definition ADVANCED_CUSTOM_ROUTE_SUMMARY_LABELS :: "(jsstr \<times> jsstr) list" where
  "ADVANCED_CUSTOM_ROUTE_SUMMARY_LABELS = [(js ''/v1/chat/completions'', js ''OpenAI Chat'')]"

definition ADVANCED_CUSTOM_MODEL_REGEX_PREFIX :: jsstr where
  "ADVANCED_CUSTOM_MODEL_REGEX_PREFIX = js ''re:''"

definition openAIChatPath :: jsstr where "openAIChatPath = js ''/v1/chat/completions''"
definition openAIResponsesPath :: jsstr where "openAIResponsesPath = js ''/v1/responses''"
definition claudeMessagesPath :: jsstr where "claudeMessagesPath = js ''/v1/messages''"
definition geminiGenerateContentPath :: jsstr where
  "geminiGenerateContentPath = js ''/v1beta/models/{model}:generateContent''"

definition auth_of :: "string \<Rightarrow> string \<Rightarrow> string \<Rightarrow> AdvancedCustomRouteAuth" where
  "auth_of t n v = \<lparr>aa_type = Some (JStr (js t)), aa_name = JStr (js n), aa_value = JStr (js v)\<rparr>"

definition bearerHeaderAuth :: AdvancedCustomRouteAuth where
  "bearerHeaderAuth = auth_of ''header'' ''Authorization'' ''Bearer {api_key}''"

definition apiKeyHeaderAuth :: AdvancedCustomRouteAuth where
  "apiKeyHeaderAuth = auth_of ''header'' ''x-api-key'' ''{api_key}''"

definition geminiQueryAuth :: AdvancedCustomRouteAuth where
  "geminiQueryAuth = auth_of ''query'' ''key'' ''{api_key}''"

definition route_of :: "jsstr \<Rightarrow> jsstr \<Rightarrow> jsstr \<Rightarrow> AdvancedCustomRouteAuth option \<Rightarrow> AdvancedCustomRoute" where
  "route_of incoming upstream converter auth =
     \<lparr>ar_incoming_path = JStr incoming, ar_upstream_path = upstream, ar_converter = JStr converter, ar_models = [], ar_auth = auth\<rparr>"

definition template :: "string \<Rightarrow> string \<Rightarrow> (string \<times> string \<times> string \<times> AdvancedCustomRouteAuth) list \<Rightarrow> AdvancedCustomTemplateOption" where
  "template v l rs = \<lparr>to_value = js v, to_label = js l,
     to_config = map (\<lambda>(i, u, c, a). route_of (js i) (js u) (js c) (Some a)) rs\<rparr>"

definition ADVANCED_CUSTOM_TEMPLATE_OPTIONS :: "AdvancedCustomTemplateOption list" where
  "ADVANCED_CUSTOM_TEMPLATE_OPTIONS =
     [template ''official_openai_chat'' ''Official OpenAI Chat''
        [(''/v1/chat/completions'', ''/v1/chat/completions'', ''none'', bearerHeaderAuth)],
      template ''official_openai_responses'' ''Official OpenAI Responses''
        [(''/v1/responses'', ''/v1/responses'', ''none'', bearerHeaderAuth)],
      template ''official_openai_embeddings'' ''Official OpenAI Embeddings''
        [(''/v1/embeddings'', ''/v1/embeddings'', ''none'', bearerHeaderAuth)],
      template ''official_openai_images'' ''Official OpenAI Images''
        [(''/v1/images/generations'', ''/v1/images/generations'', ''none'', bearerHeaderAuth),
         (''/v1/images/edits'', ''/v1/images/edits'', ''none'', bearerHeaderAuth)],
      template ''official_claude_messages'' ''Official Claude Messages''
        [(''/v1/messages'', ''/v1/messages'', ''none'', apiKeyHeaderAuth)],
      template ''official_gemini_native'' ''Official Gemini Native''
        [(''/v1beta/models/{model}:generateContent'', ''/v1beta/models/{model}:generateContent'', ''none'', geminiQueryAuth),
         (''/v1beta/models/{model}:embedContent'', ''/v1beta/models/{model}:embedContent'', ''none'', geminiQueryAuth),
         (''/v1beta/models/{model}:batchEmbedContents'', ''/v1beta/models/{model}:batchEmbedContents'', ''none'', geminiQueryAuth)],
      template ''official_gemini_from_openai_chat'' ''Official Gemini from OpenAI Chat''
        [(''/v1/chat/completions'', ''/v1beta/models/{model}:generateContent'', ''openai_chat_completions_to_gemini_generate_content'', geminiQueryAuth)]]"

text \<open>A configuration as the JSON value it is written as.\<close>

definition auth_json :: "AdvancedCustomRouteAuth \<Rightarrow> json" where
  "auth_json auth = JObj ((case aa_type auth of Some t \<Rightarrow> [(js ''type'', t)] | None \<Rightarrow> [])
     @ [(js ''name'', aa_name auth), (js ''value'', aa_value auth)])"

definition route_json :: "AdvancedCustomRoute \<Rightarrow> json" where
  "route_json route = JObj
     ([(js ''incoming_path'', ar_incoming_path route), (js ''upstream_path'', JStr (ar_upstream_path route)),
       (js ''converter'', ar_converter route)]
      @ (if ar_models route = [] then [] else [(js ''models'', JArr (map JStr (ar_models route)))])
      @ (case ar_auth route of Some a \<Rightarrow> [(js ''auth'', auth_json a)] | None \<Rightarrow> []))"

definition config_json :: "AdvancedCustomConfig \<Rightarrow> json" where
  "config_json config = JObj [(js ''advanced_routes'', JArr (map route_json config))]"

section \<open>Defaults\<close>

text \<open>A deep copy is the same value.\<close>

definition cloneAdvancedCustomConfig :: "AdvancedCustomConfig \<Rightarrow> AdvancedCustomConfig" where
  "cloneAdvancedCustomConfig config = config"

definition getAdvancedCustomTemplateConfig :: "jsstr \<Rightarrow> AdvancedCustomConfig" where
  "getAdvancedCustomTemplateConfig templateKey =
     cloneAdvancedCustomConfig (to_config
       (case List.find (\<lambda>o'. to_value o' = templateKey) ADVANCED_CUSTOM_TEMPLATE_OPTIONS of
          Some t \<Rightarrow> t | None \<Rightarrow> hd ADVANCED_CUSTOM_TEMPLATE_OPTIONS))"

definition createAdvancedCustomRoute :: AdvancedCustomRoute where
  "createAdvancedCustomRoute = route_of openAIChatPath openAIChatPath (js ''none'') None"

definition createAdvancedCustomConfig :: AdvancedCustomConfig where
  "createAdvancedCustomConfig = [createAdvancedCustomRoute]"

definition isConverterPathAllowed :: "jsstr \<Rightarrow> jsstr \<Rightarrow> bool" where
  "isConverterPathAllowed incomingPath converter =
     (if converter = js ''none'' then True
      else if converter = js ''anthropic_messages_to_openai_chat_completions'' then incomingPath = js ''/v1/messages''
      else if converter = js ''openai_chat_completions_to_anthropic_messages''
        \<or> converter = js ''openai_chat_completions_to_openai_responses''
        \<or> converter = js ''openai_chat_completions_to_gemini_generate_content'' then incomingPath = js ''/v1/chat/completions''
      else if converter = js ''openai_responses_to_openai_chat_completions'' then incomingPath = js ''/v1/responses''
      else if converter = js ''openai_responses_to_gemini_generate_content'' then incomingPath = js ''/v1/responses''
      else has_sub (js '':generateContent'') incomingPath \<or> has_sub (js '':streamGenerateContent'') incomingPath)"

definition getAdvancedCustomNativeAuth :: "jsstr \<Rightarrow> AdvancedCustomRouteAuth" where
  "getAdvancedCustomNativeAuth incomingPath =
     (if incomingPath = claudeMessagesPath then apiKeyHeaderAuth
      else if has_sub (js '':generateContent'') incomingPath \<or> has_sub (js '':streamGenerateContent'') incomingPath
        \<or> has_sub (js '':embedContent'') incomingPath \<or> has_sub (js '':batchEmbedContents'') incomingPath
      then geminiQueryAuth else bearerHeaderAuth)"

definition getAdvancedCustomIncomingPathOptions :: "jsstr \<Rightarrow> (jsstr \<times> jsstr) list" where
  "getAdvancedCustomIncomingPathOptions converter =
     filter (\<lambda>opt. isConverterPathAllowed (fst opt) converter) ADVANCED_CUSTOM_INCOMING_PATH_OPTIONS"

definition getDefaultAdvancedCustomIncomingPath :: "jsstr \<Rightarrow> jsstr" where
  "getDefaultAdvancedCustomIncomingPath converter =
     (case getAdvancedCustomIncomingPathOptions converter of
        (v, _) # _ \<Rightarrow> if v \<noteq> [] then v else js ''/v1/chat/completions''
      | [] \<Rightarrow> js ''/v1/chat/completions'')"

definition getAdvancedCustomConverterDefaults :: "jsstr \<Rightarrow> jsstr \<Rightarrow> AdvancedCustomConverterDefaults" where
  "getAdvancedCustomConverterDefaults converter incomingPath =
     (let normalizedIncomingPath =
            (if trim incomingPath \<noteq> [] then trim incomingPath else getDefaultAdvancedCustomIncomingPath converter)
      in if converter = js ''none''
         then \<lparr>cd_upstream_path = normalizedIncomingPath, cd_auth = getAdvancedCustomNativeAuth normalizedIncomingPath\<rparr>
         else if converter = js ''anthropic_messages_to_openai_chat_completions''
           \<or> converter = js ''gemini_generate_content_to_openai_chat_completions''
           \<or> converter = js ''openai_responses_to_openai_chat_completions''
         then \<lparr>cd_upstream_path = openAIChatPath, cd_auth = bearerHeaderAuth\<rparr>
         else if converter = js ''openai_chat_completions_to_openai_responses''
         then \<lparr>cd_upstream_path = openAIResponsesPath, cd_auth = bearerHeaderAuth\<rparr>
         else if converter = js ''openai_chat_completions_to_anthropic_messages''
         then \<lparr>cd_upstream_path = claudeMessagesPath, cd_auth = apiKeyHeaderAuth\<rparr>
         else if converter = js ''openai_chat_completions_to_gemini_generate_content''
           \<or> converter = js ''openai_responses_to_gemini_generate_content''
         then \<lparr>cd_upstream_path = geminiGenerateContentPath, cd_auth = geminiQueryAuth\<rparr>
         else \<lparr>cd_upstream_path = (if normalizedIncomingPath \<noteq> [] then normalizedIncomingPath else openAIChatPath),
               cd_auth = getAdvancedCustomNativeAuth normalizedIncomingPath\<rparr>)"

definition getAdvancedCustomUpstreamPathPlaceholder :: "jsstr \<Rightarrow> jsstr option \<Rightarrow> jsstr" where
  "getAdvancedCustomUpstreamPathPlaceholder converter incomingPath =
     cd_upstream_path (getAdvancedCustomConverterDefaults converter
       (case incomingPath of Some p \<Rightarrow> p | None \<Rightarrow> getDefaultAdvancedCustomIncomingPath converter))"

definition isAdvancedCustomIncomingPathAllowed :: "jsstr \<Rightarrow> jsstr \<Rightarrow> bool" where
  "isAdvancedCustomIncomingPathAllowed incomingPath converter = isConverterPathAllowed incomingPath converter"

definition getAdvancedCustomConverterOptions :: "jsstr \<Rightarrow> (jsstr \<times> jsstr \<times> jsstr) list" where
  "getAdvancedCustomConverterOptions incomingPath =
     filter (\<lambda>opt. fst opt = js ''none'' \<or> isConverterPathAllowed (trim incomingPath) (fst opt)) ADVANCED_CUSTOM_CONVERTER_OPTIONS"

definition getAdvancedCustomIncomingPathLabel :: "jsstr \<Rightarrow> jsstr" where
  "getAdvancedCustomIncomingPathLabel v =
     (case List.find (\<lambda>opt. fst opt = v) ADVANCED_CUSTOM_INCOMING_PATH_OPTIONS of
        Some opt \<Rightarrow> if snd opt \<noteq> [] then snd opt else v
      | None \<Rightarrow> v)"

section \<open>Normalising\<close>

text \<open>\<open>x.trim()\<close> of a value of any type.\<close>

definition trim_of :: "json \<Rightarrow> js_error + jsstr" where
  "trim_of v = (case v of JStr s \<Rightarrow> Inr (trim s) | _ \<Rightarrow> Inl TypeError)"

fun map_result :: "('a \<Rightarrow> 'e + 'b) \<Rightarrow> 'a list \<Rightarrow> 'e + 'b list" where
  "map_result f [] = Inr []"
| "map_result f (x # xs) =
     (case f x of Inl e \<Rightarrow> Inl e | Inr y \<Rightarrow> (case map_result f xs of Inl e \<Rightarrow> Inl e | Inr ys \<Rightarrow> Inr (y # ys)))"

definition getAdvancedCustomRouteUpstreamPath :: "json option \<Rightarrow> js_error + jsstr" where
  "getAdvancedCustomRouteUpstreamPath upstream_path = trim_of (json_or upstream_path (JStr []))"

definition normalizeAdvancedCustomRouteModels :: "json option \<Rightarrow> js_error + jsstr list" where
  "normalizeAdvancedCustomRouteModels models =
     (case models of
        Some (JArr xs) \<Rightarrow>
          (case map_result trim_of xs of Inl e \<Rightarrow> Inl e | Inr ms \<Rightarrow> Inr (filter (\<lambda>m. m \<noteq> []) ms))
      | _ \<Rightarrow> Inr [])"

definition normalizeAdvancedCustomRoute :: "json \<Rightarrow> js_error + AdvancedCustomRoute" where
  "normalizeAdvancedCustomRoute route =
     (if route = JNull then Inl TypeError
      else case getAdvancedCustomRouteUpstreamPath (json_get route (js ''upstream_path'')) of
             Inl e \<Rightarrow> Inl e
           | Inr upstream \<Rightarrow>
               (case normalizeAdvancedCustomRouteModels (json_get route (js ''models'')) of
                  Inl e \<Rightarrow> Inl e
                | Inr models \<Rightarrow>
                    Inr \<lparr>ar_incoming_path = json_or (json_get route (js ''incoming_path'')) (JStr []),
                         ar_upstream_path = upstream,
                         ar_converter = json_or (json_get route (js ''converter'')) (JStr (js ''none'')),
                         ar_models = models,
                         ar_auth = (case json_get route (js ''auth'') of
                            Some auth \<Rightarrow>
                              if json_truthy auth
                              then Some \<lparr>aa_type = json_get auth (js ''type''),
                                aa_name = json_or (json_get auth (js ''name'')) (JStr []),
                                aa_value = json_or (json_get auth (js ''value'')) (JStr [])\<rparr>
                              else None
                          | None \<Rightarrow> None)\<rparr>))"

definition normalizeAdvancedCustomConfig :: "json \<Rightarrow> js_error + AdvancedCustomConfig" where
  "normalizeAdvancedCustomConfig config =
     (case json_get config (js ''advanced_routes'') of
        Some (JArr routes) \<Rightarrow> map_result normalizeAdvancedCustomRoute routes
      | _ \<Rightarrow> Inr [])"

text \<open>Errors inside the \<open>try\<close> give \<open>null\<close>.\<close>

definition parseAdvancedCustomConfig :: "jsstr option \<Rightarrow> AdvancedCustomConfig option" where
  "parseAdvancedCustomConfig v =
     (case v of
        None \<Rightarrow> None
      | Some s \<Rightarrow>
          if trim s = [] then None
          else case parse_plain_object s of
                 None \<Rightarrow> None
               | Some ps \<Rightarrow> (case normalizeAdvancedCustomConfig (JObj ps) of Inl e \<Rightarrow> None | Inr c \<Rightarrow> Some c))"

text \<open>\<open>JSON.stringify\<close> leaves out the properties that are undefined, as \<open>config_json\<close> does.\<close>

definition stringifyAdvancedCustomConfig :: "json \<Rightarrow> js_error + jsstr" where
  "stringifyAdvancedCustomConfig config =
     (case normalizeAdvancedCustomConfig config of
        Inl e \<Rightarrow> Inl e
      | Inr routes \<Rightarrow> Inr (stringify_indented (config_json routes)))"

definition parseAdvancedCustomRouteModels :: "jsstr \<Rightarrow> jsstr list" where
  "parseAdvancedCustomRouteModels v = dedup (filter (\<lambda>m. m \<noteq> []) (map trim (split_char 44 v)))"

definition getAdvancedCustomModelRuleKind :: "jsstr \<Rightarrow> AdvancedCustomModelRuleKind" where
  "getAdvancedCustomModelRuleKind modelRule =
     (if starts_with ADVANCED_CUSTOM_MODEL_REGEX_PREFIX modelRule then RuleRegex else RuleExact)"

definition getAdvancedCustomRegexModelPattern :: "jsstr \<Rightarrow> jsstr" where
  "getAdvancedCustomRegexModelPattern modelRule = drop (length ADVANCED_CUSTOM_MODEL_REGEX_PREFIX) modelRule"

section \<open>Validation\<close>

record PathState =
  ps_catchAll :: "nat option"
  ps_models :: "(jsstr \<times> nat) list"

fun checkModels :: "nat \<Rightarrow> jsstr list \<Rightarrow> jsstr list \<Rightarrow> (jsstr \<times> nat) list \<Rightarrow> jsstr + (jsstr \<times> nat) list" where
  "checkModels i seen [] known = Inr known"
| "checkModels i seen (m # ms) known =
     (if getAdvancedCustomModelRuleKind m = RuleRegex \<and> getAdvancedCustomRegexModelPattern m = []
      then Inl (js ''Model regex cannot be empty'')
      else if m \<in> set seen then Inl (js ''Duplicate model in route models'')
      else if map_of known m \<noteq> None then Inl (js ''Route models must be unique for the same incoming path'')
      else checkModels i (m # seen) ms (al_put m i known))"

definition validateAdvancedCustomRouteModels ::
  "nat \<Rightarrow> jsstr \<Rightarrow> jsstr list \<Rightarrow> (jsstr \<times> PathState) list \<Rightarrow> jsstr + (jsstr \<times> PathState) list" where
  "validateAdvancedCustomRouteModels routeIndex incomingPath models byPath =
     (let st = (case map_of byPath incomingPath of Some st \<Rightarrow> st | None \<Rightarrow> \<lparr>ps_catchAll = None, ps_models = []\<rparr>)
      in if models = [] then
           (if ps_catchAll st \<noteq> None then Inl (js ''Only one catch-all route is allowed for the same incoming path'')
            else Inr (al_put incomingPath (st\<lparr>ps_catchAll := Some routeIndex\<rparr>) byPath))
         else if ps_catchAll st \<noteq> None then Inl (js ''Catch-all route must be last for the same incoming path'')
         else case checkModels routeIndex [] models (ps_models st) of
                Inl e \<Rightarrow> Inl e
              | Inr known \<Rightarrow> Inr (al_put incomingPath (st\<lparr>ps_models := known\<rparr>) byPath))"

definition isFullHttpURLOrAbsolutePath :: "url_parser \<Rightarrow> jsstr \<Rightarrow> bool" where
  "isFullHttpURLOrAbsolutePath url v =
     (if starts_with (js ''/'') v then \<not> starts_with (js ''//'') v
      else case url v of
             None \<Rightarrow> False
           | Some (host, protocol) \<Rightarrow> host \<noteq> [] \<and> (protocol = js ''http:'' \<or> protocol = js ''https:''))"

definition isAdvancedCustomConverter :: "json \<Rightarrow> bool" where
  "isAdvancedCustomConverter v = list_ex (\<lambda>opt. JStr (fst opt) = v) ADVANCED_CUSTOM_CONVERTER_OPTIONS"

definition validateRouteAuth :: "AdvancedCustomRouteAuth option \<Rightarrow> js_error + jsstr option" where
  "validateRouteAuth auth =
     (case auth of
        None \<Rightarrow> Inr None
      | Some a \<Rightarrow>
          if aa_type a = Some (JStr (js ''none'')) then Inr None
          else if aa_type a \<noteq> Some (JStr (js ''header'')) \<and> aa_type a \<noteq> Some (JStr (js ''query''))
          then Inr (Some (js ''Auth type is invalid''))
          else case trim_of (aa_name a) of
                 Inl e \<Rightarrow> Inl e
               | Inr n \<Rightarrow>
                   if n = [] then Inr (Some (js ''Auth name is required''))
                   else case trim_of (aa_value a) of
                          Inl e \<Rightarrow> Inl e
                        | Inr v \<Rightarrow> if v = [] then Inr (Some (js ''Auth value is required'')) else Inr None)"

text \<open>
  The checks of one route, in the order of the code: a message, or the table of the paths seen so
  far with this route entered. The converter is a registered one, hence a text, where its path is checked.
\<close>

definition checkRoute ::
  "url_parser \<Rightarrow> nat \<Rightarrow> AdvancedCustomRoute \<Rightarrow> (jsstr \<times> PathState) list
     \<Rightarrow> js_error + (jsstr + (jsstr \<times> PathState) list)" where
  "checkRoute url index route byPath =
     (case trim_of (ar_incoming_path route) of
        Inl e \<Rightarrow> Inl e
      | Inr incomingPath \<Rightarrow>
          let upstreamPath = trim (ar_upstream_path route);
              converter = json_or (Some (ar_converter route)) (JStr (js ''none''));
              routeModels = filter (\<lambda>m. m \<noteq> []) (map trim (ar_models route))
          in if incomingPath = [] then Inr (Inl (js ''Incoming path is required''))
             else if \<not> starts_with (js ''/'') incomingPath then Inr (Inl (js ''Incoming path must start with /''))
             else if has_sub (js ''?'') incomingPath then Inr (Inl (js ''Incoming path must not include query''))
             else case validateAdvancedCustomRouteModels index incomingPath routeModels byPath of
                    Inl msg \<Rightarrow> Inr (Inl msg)
                  | Inr byPath' \<Rightarrow>
                      if upstreamPath = [] then Inr (Inl (js ''Upstream path is required''))
                      else if \<not> isFullHttpURLOrAbsolutePath url upstreamPath
                      then Inr (Inl (js ''Upstream path must be a full URL or a path starting with /''))
                      else if \<not> isAdvancedCustomConverter converter then Inr (Inl (js ''Converter is not registered''))
                      else if \<not> isConverterPathAllowed incomingPath (case converter of JStr c \<Rightarrow> c | _ \<Rightarrow> [])
                      then Inr (Inl (js ''Converter does not match incoming path''))
                      else case validateRouteAuth (ar_auth route) of
                             Inl e \<Rightarrow> Inl e
                           | Inr (Some msg) \<Rightarrow> Inr (Inl msg)
                           | Inr None \<Rightarrow> Inr (Inr byPath'))"

fun validateRoutes ::
  "url_parser \<Rightarrow> nat \<Rightarrow> AdvancedCustomRoute list \<Rightarrow> (jsstr \<times> PathState) list
     \<Rightarrow> js_error + AdvancedCustomValidationError option" where
  "validateRoutes url index [] byPath = Inr None"
| "validateRoutes url index (route # routes) byPath =
     (case checkRoute url index route byPath of
        Inl e \<Rightarrow> Inl e
      | Inr (Inl msg) \<Rightarrow> Inr (Some \<lparr>ve_message = msg, ve_routeIndex = Some index\<rparr>)
      | Inr (Inr byPath') \<Rightarrow> validateRoutes url (index + 1) routes byPath')"

definition validateAdvancedCustomConfig :: "url_parser \<Rightarrow> json option \<Rightarrow> js_error + AdvancedCustomValidationError option" where
  "validateAdvancedCustomConfig url config =
     (case config of
        None \<Rightarrow> Inr (Some \<lparr>ve_message = js ''Advanced custom configuration is required'', ve_routeIndex = None\<rparr>)
      | Some c \<Rightarrow>
          (case normalizeAdvancedCustomConfig c of
             Inl e \<Rightarrow> Inl e
           | Inr routes \<Rightarrow>
               if routes = []
               then Inr (Some \<lparr>ve_message = js ''Advanced custom configuration requires at least one route'', ve_routeIndex = None\<rparr>)
               else validateRoutes url 0 routes []))"

definition advancedCustomConfigUsesRelativeUpstreamPath :: "json option \<Rightarrow> js_error + bool" where
  "advancedCustomConfigUsesRelativeUpstreamPath config =
     (case config of
        None \<Rightarrow> Inr False
      | Some c \<Rightarrow>
          (case normalizeAdvancedCustomConfig c of
             Inl e \<Rightarrow> Inl e
           | Inr routes \<Rightarrow> Inr (list_ex (\<lambda>route. starts_with (js ''/'') (trim (ar_upstream_path route))) routes)))"

section \<open>Summary\<close>

definition getAdvancedCustomRouteSummaryLabel :: "AdvancedCustomRoute \<Rightarrow> js_error + jsstr option" where
  "getAdvancedCustomRouteSummaryLabel route =
     (case trim_of (ar_incoming_path route) of
        Inl e \<Rightarrow> Inl e
      | Inr incomingPath \<Rightarrow>
          Inr (if incomingPath = [] then None
               else Some (case map_of ADVANCED_CUSTOM_ROUTE_SUMMARY_LABELS incomingPath of
                            Some l \<Rightarrow> l | None \<Rightarrow> getAdvancedCustomIncomingPathLabel incomingPath)))"

record AdvancedCustomStats =
  st_routeCount :: nat
  st_valid :: bool
  st_routeTypeLabels :: "jsstr list"

definition getAdvancedCustomStats :: "url_parser \<Rightarrow> jsstr option \<Rightarrow> js_error + AdvancedCustomStats" where
  "getAdvancedCustomStats url v =
     (case parseAdvancedCustomConfig v of
        None \<Rightarrow> Inr \<lparr>st_routeCount = 0, st_valid = False, st_routeTypeLabels = []\<rparr>
      | Some config \<Rightarrow>
          (case normalizeAdvancedCustomConfig (config_json config) of
             Inl e \<Rightarrow> Inl e
           | Inr routes \<Rightarrow>
               (case map_result getAdvancedCustomRouteSummaryLabel routes of
                  Inl e \<Rightarrow> Inl e
                | Inr labels \<Rightarrow>
                    (case validateAdvancedCustomConfig url (Some (config_json routes)) of
                       Inl e \<Rightarrow> Inl e
                     | Inr r \<Rightarrow> Inr \<lparr>st_routeCount = length routes, st_valid = (r = None),
                                    st_routeTypeLabels = dedup (filter (\<lambda>l. l \<noteq> []) (List.map_filter id labels))\<rparr>))))"

section \<open>Authentication\<close>

definition getAdvancedCustomAuthMode :: "AdvancedCustomRoute \<Rightarrow> json" where
  "getAdvancedCustomAuthMode route =
     json_or (case ar_auth route of Some a \<Rightarrow> aa_type a | None \<Rightarrow> None) (JStr (js ''default''))"

definition buildAdvancedCustomAuth :: "jsstr \<Rightarrow> AdvancedCustomRouteAuth option \<Rightarrow> json option" where
  "buildAdvancedCustomAuth mode previousAuth =
     (let prevName = map_option aa_name previousAuth; prevValue = map_option aa_value previousAuth
      in if mode = js ''default'' then None
         else if mode = js ''none'' then Some (JObj [(js ''type'', JStr (js ''none''))])
         else if mode = js ''header''
         then Some (JObj [(js ''type'', JStr (js ''header'')), (js ''name'', json_or prevName (JStr (js ''Authorization''))),
                          (js ''value'', json_or prevValue (JStr (js ''Bearer {api_key}'')))])
         else Some (JObj [(js ''type'', JStr (js ''query'')), (js ''name'', json_or prevName (JStr (js ''api_key''))),
                          (js ''value'', json_or prevValue (JStr (js ''{api_key}'')))]))"

end
