(* ===== verification/ChannelForm.thy ===== *)
theory ChannelForm
  imports AdvancedCustom JsNumber
begin

text \<open>
  The form of a channel, \<open>features/channels/lib/channel-form.ts\<close>: how a channel of the server becomes form
  values, the checks across fields, and the payloads that create and update a channel.

  Undefined and null properties are \<open>None\<close>. The fields that are read from the two settings texts of a channel
  are cast without a check, so they are JSON values here. A payload, whose properties the code
  enumerates, is the list of its entries. The lists of reasons, times, weights and priorities of
  single keys, which nothing here reads, are left out of \<open>ChannelInfo\<close>.
\<close>

section \<open>Data\<close>

record ChannelInfo =
  ci_is_multi_key :: bool
  ci_multi_key_size :: rat
  ci_multi_key_status_list :: "(jsstr \<times> rat) list option"
  ci_multi_key_polling_index :: rat
  ci_multi_key_mode :: jsstr

record Channel =
  ch_id :: rat
  ch_type :: rat
  ch_key :: jsstr
  ch_openai_organization :: "jsstr option"
  ch_test_model :: "jsstr option"
  ch_status :: rat
  ch_backup_channel_id :: "rat option"
  ch_name :: jsstr
  ch_weight :: "rat option"
  ch_created_time :: rat
  ch_test_time :: rat
  ch_response_time :: rat
  ch_base_url :: "jsstr option"
  ch_other :: jsstr
  ch_balance :: rat
  ch_balance_updated_time :: rat
  ch_models :: jsstr
  ch_group :: jsstr
  ch_used_quota :: rat
  ch_quota_limit :: rat
  ch_model_mapping :: "jsstr option"
  ch_disabled_models :: jsstr
  ch_status_code_mapping :: "jsstr option"
  ch_priority :: "rat option"
  ch_auto_ban :: "rat option"
  ch_other_info :: jsstr
  ch_tag :: "jsstr option"
  ch_setting :: "jsstr option"
  ch_param_override :: "jsstr option"
  ch_header_override :: "jsstr option"
  ch_remark :: jsstr
  ch_max_input_tokens :: rat
  ch_channel_info :: ChannelInfo
  ch_settings :: jsstr

record ChannelFormValues =
  fv_name :: jsstr
  fv_type :: rat
  fv_base_url :: "jsstr option"
  fv_key :: jsstr
  fv_openai_organization :: "jsstr option"
  fv_models :: jsstr
  fv_group :: "jsstr list"
  fv_model_mapping :: "jsstr option"
  fv_disabled_models :: "jsstr option"
  fv_priority :: "rat option"
  fv_weight :: "rat option"
  fv_test_model :: "jsstr option"
  fv_auto_ban :: "rat option"
  fv_status :: rat
  fv_status_code_mapping :: "jsstr option"
  fv_tag :: "jsstr option"
  fv_remark :: "jsstr option"
  fv_setting :: "jsstr option"
  fv_param_override :: "jsstr option"
  fv_header_override :: "jsstr option"
  fv_settings :: "jsstr option"
  fv_advanced_custom :: "jsstr option"
  fv_other :: "jsstr option"
  fv_multi_key_mode :: "jsstr option"
  fv_multi_key_type :: "jsstr option"
  fv_batch_add_set_key_prefix_2_name :: "bool option"
  fv_key_mode :: "jsstr option"
  fv_quota_limit :: "rat option"
  fv_force_format :: "json option"
  fv_thinking_to_content :: "json option"
  fv_proxy :: "json option"
  fv_pass_through_body_enabled :: "json option"
  fv_system_prompt :: "json option"
  fv_system_prompt_override :: "json option"
  fv_is_enterprise_account :: "bool option"
  fv_vertex_key_type :: "json option"
  fv_aws_key_type :: "json option"
  fv_azure_responses_version :: "json option"
  fv_allow_service_tier :: "bool option"
  fv_disable_store :: "bool option"
  fv_allow_safety_identifier :: "bool option"
  fv_allow_include_obfuscation :: "bool option"
  fv_allow_inference_geo :: "bool option"
  fv_allow_speed :: "bool option"
  fv_claude_beta_query :: "bool option"
  fv_disable_task_polling_sleep :: "bool option"
  fv_disable_channel_affinity :: "bool option"
  fv_upstream_model_update_check_enabled :: "bool option"
  fv_upstream_model_update_auto_sync_enabled :: "bool option"
  fv_upstream_model_update_ignored_models :: "jsstr option"

definition MODEL_FETCHABLE_TYPES :: "rat list" where
  "MODEL_FETCHABLE_TYPES = [1, 4, 14, 17, 20, 23, 24, 25, 26, 27, 31, 34, 35, 40, 42, 43, 47, 48]"

definition STATUS_ENABLED :: rat where
  "STATUS_ENABLED = 1"

text \<open>\<open>s || ''\<close>, \<open>s || null\<close> as a JSON value, and \<open>!s?.trim()\<close>.\<close>

definition text_of :: "jsstr option \<Rightarrow> jsstr" where
  "text_of s = (case s of Some t \<Rightarrow> t | None \<Rightarrow> [])"

definition text_or_null :: "jsstr option \<Rightarrow> json" where
  "text_or_null s = (if text_of s = [] then JNull else JStr (text_of s))"

definition blank :: "jsstr option \<Rightarrow> bool" where
  "blank s \<longleftrightarrow> trim (text_of s) = []"

section \<open>Checks of single fields\<close>

text \<open>\<open>Inl\<close> is what \<open>JSON.parse\<close> throws, \<open>Inr None\<close> is undefined.\<close>

definition parseOptionalJson :: "jsstr option \<Rightarrow> js_error + json option" where
  "parseOptionalJson v =
     (if blank v then Inr None
      else case json_parse (text_of v) of Some j \<Rightarrow> Inr (Some j) | None \<Rightarrow> Inl SyntaxError)"

definition isJsonObjectValue :: "json \<Rightarrow> bool" where
  "isJsonObjectValue v = (case v of JObj _ \<Rightarrow> True | _ \<Rightarrow> False)"

definition isOptionalJsonObject :: "jsstr option \<Rightarrow> bool" where
  "isOptionalJsonObject v =
     (case parseOptionalJson v of Inl _ \<Rightarrow> False | Inr None \<Rightarrow> True | Inr (Some j) \<Rightarrow> isJsonObjectValue j)"

definition mapping_target :: "json \<Rightarrow> bool" where
  "mapping_target item =
     (case item of
        JStr _ \<Rightarrow> True
      | JObj ps \<Rightarrow> (case map_of ps (js ''target'') of Some (JStr _) \<Rightarrow> True | _ \<Rightarrow> False)
      | _ \<Rightarrow> False)"

definition isOptionalModelMapping :: "jsstr option \<Rightarrow> bool" where
  "isOptionalModelMapping v =
     (case parseOptionalJson v of
        Inl _ \<Rightarrow> False
      | Inr None \<Rightarrow> True
      | Inr (Some (JObj ps)) \<Rightarrow> list_all (\<lambda>p. mapping_target (snd p)) ps
      | Inr (Some _) \<Rightarrow> False)"

definition status_number :: "jsnum \<Rightarrow> bool" where
  "status_number n = (case n of Num r \<Rightarrow> is_integer r \<and> 100 \<le> r \<and> r \<le> 599 | NaN \<Rightarrow> False)"

definition isOptionalStatusCodeMapping :: "jsstr option \<Rightarrow> bool" where
  "isOptionalStatusCodeMapping v =
     (case parseOptionalJson v of
        Inl _ \<Rightarrow> False
      | Inr None \<Rightarrow> True
      | Inr (Some (JObj ps)) \<Rightarrow> list_all (\<lambda>(f, t). status_number (text_number f) \<and> status_number (json_number t)) ps
      | Inr (Some _) \<Rightarrow> False)"

definition nonblank_text :: "json option \<Rightarrow> bool" where
  "nonblank_text v = (case v of Some (JStr s) \<Rightarrow> trim s \<noteq> [] | _ \<Rightarrow> False)"

definition isCodexCredential :: "jsstr option \<Rightarrow> bool" where
  "isCodexCredential v =
     (case parseOptionalJson v of
        Inl _ \<Rightarrow> False
      | Inr None \<Rightarrow> True
      | Inr (Some j) \<Rightarrow> isJsonObjectValue j \<and> nonblank_text (json_get j (js ''access_token''))
          \<and> nonblank_text (json_get j (js ''account_id'')))"

definition isVertexJsonKey :: "jsstr option \<Rightarrow> bool" where
  "isVertexJsonKey v =
     (case parseOptionalJson v of
        Inl _ \<Rightarrow> False
      | Inr None \<Rightarrow> True
      | Inr (Some (JArr xs)) \<Rightarrow> list_all isJsonObjectValue xs
      | Inr (Some j) \<Rightarrow> isJsonObjectValue j)"

section \<open>Checks across fields\<close>

type_synonym issue = "jsstr \<times> jsstr"

definition addRequiredIssue :: "bool \<Rightarrow> string \<Rightarrow> jsstr \<Rightarrow> issue list \<Rightarrow> issue list" where
  "addRequiredIssue c path message issues = (if c then issues @ [(js path, message)] else issues)"

definition not_single :: "jsstr option \<Rightarrow> bool" where
  "not_single mode \<longleftrightarrow> text_of mode \<noteq> [] \<and> text_of mode \<noteq> js ''single''"

definition advancedCustomIssues :: "url_parser \<Rightarrow> ChannelFormValues \<Rightarrow> issue list \<Rightarrow> js_error + issue list" where
  "advancedCustomIssues url data issues =
     (let config = map_option config_json (parseAdvancedCustomConfig (fv_advanced_custom data))
      in case validateAdvancedCustomConfig url config of
           Inl e \<Rightarrow> Inl e
         | Inr err \<Rightarrow>
             (case advancedCustomConfigUsesRelativeUpstreamPath config of
                Inl e \<Rightarrow> Inl e
              | Inr relative \<Rightarrow> Inr
                  (addRequiredIssue (relative \<and> blank (fv_base_url data)) ''base_url''
                     (js ''Base URL is required when an advanced route uses an upstream path'')
                  (addRequiredIssue (err \<noteq> None) ''advanced_custom'' (case err of Some e \<Rightarrow> ve_message e | None \<Rightarrow> []) issues))))"

definition keyIssues :: "ChannelFormValues \<Rightarrow> issue list \<Rightarrow> issue list" where
  "keyIssues data issues =
     (let has_key = (trim (fv_key data) \<noteq> []); key = Some (fv_key data);
          i1 = addRequiredIssue (fv_type data = 57 \<and> not_single (fv_multi_key_mode data)) ''multi_key_mode''
                 (js ''Codex channels do not support batch creation'') issues;
          i2 = addRequiredIssue (fv_type data = 57 \<and> has_key \<and> \<not> isCodexCredential key) ''key''
                 (js ''Codex credential must be a JSON object with access_token and account_id'') i1;
          i3 = addRequiredIssue (fv_type data = 41 \<and> fv_vertex_key_type data = Some (JStr (js ''json'')) \<and> has_key \<and> \<not> isVertexJsonKey key)
                 ''key'' (js ''Vertex AI service account key must be valid JSON'') i2
      in addRequiredIssue (fv_type data = 41 \<and> fv_vertex_key_type data = Some (JStr (js ''api_key'')) \<and> not_single (fv_multi_key_mode data))
           ''multi_key_mode'' (js ''Vertex AI API Key mode does not support batch creation'') i3)"

definition channelFormIssues :: "url_parser \<Rightarrow> ChannelFormValues \<Rightarrow> js_error + issue list" where
  "channelFormIssues url data =
     (let i1 = addRequiredIssue (fv_type data \<in> set [3, 8, 36, 45] \<and> blank (fv_base_url data)) ''base_url''
                 (js ''Base URL is required for this channel type'') []
      in case (if fv_type data = of_nat CHANNEL_TYPE_ADVANCED_CUSTOM then advancedCustomIssues url data i1 else Inr i1) of
           Inl e \<Rightarrow> Inl e
         | Inr i2 \<Rightarrow>
             Inr (keyIssues data
               (addRequiredIssue (fv_type data \<in> set [3, 18, 21, 39, 41, 49] \<and> blank (fv_other data)) ''other''
                  (js ''This channel type requires additional configuration'') i2)))"

section \<open>Lists of models and groups\<close>

definition parseModels :: "jsstr \<Rightarrow> jsstr list" where
  "parseModels models = (if models = [] then [] else filter (\<lambda>m. length m > 0) (map trim (split_char 44 models)))"

definition parseGroups :: "jsstr \<Rightarrow> jsstr list" where
  "parseGroups groups = (if groups = [] then [] else filter (\<lambda>g. length g > 0) (map trim (split_char 44 groups)))"

definition formatModels :: "jsstr list \<Rightarrow> jsstr" where
  "formatModels models = join [44] models"

definition formatGroups :: "jsstr list \<Rightarrow> jsstr" where
  "formatGroups groups = join [44] groups"

definition validateJSON :: "jsstr \<Rightarrow> bool" where
  "validateJSON v = (if v = [] \<or> trim v = [] then True else json_parse v \<noteq> None)"

definition validateModelMapping :: "jsstr \<Rightarrow> bool" where
  "validateModelMapping v = (if v = [] \<or> trim v = [] then True else validateJSON v)"

section \<open>From a channel to the form\<close>

definition CHANNEL_FORM_DEFAULT_VALUES :: ChannelFormValues where
  "CHANNEL_FORM_DEFAULT_VALUES =
     \<lparr>fv_name = [], fv_type = 1, fv_base_url = Some [], fv_key = [], fv_openai_organization = Some [], fv_models = [],
      fv_group = [js ''default''], fv_model_mapping = Some [], fv_disabled_models = Some [], fv_priority = Some 0,
      fv_weight = Some 0, fv_test_model = Some [], fv_auto_ban = Some 1, fv_status = STATUS_ENABLED,
      fv_status_code_mapping = Some [], fv_tag = Some [], fv_remark = Some [], fv_setting = Some [],
      fv_param_override = Some [], fv_header_override = Some [], fv_settings = Some (js ''{}''),
      fv_advanced_custom = Some [], fv_other = Some [], fv_multi_key_mode = Some (js ''single''),
      fv_multi_key_type = Some (js ''random''), fv_batch_add_set_key_prefix_2_name = Some False,
      fv_key_mode = Some (js ''append''), fv_quota_limit = Some 0,
      fv_force_format = Some (JBool False), fv_thinking_to_content = Some (JBool False), fv_proxy = Some (JStr []),
      fv_pass_through_body_enabled = Some (JBool False), fv_system_prompt = Some (JStr []),
      fv_system_prompt_override = Some (JBool False), fv_is_enterprise_account = Some False,
      fv_vertex_key_type = Some (JStr (js ''json'')), fv_aws_key_type = Some (JStr (js ''ak_sk'')),
      fv_azure_responses_version = Some (JStr []), fv_allow_service_tier = Some False, fv_disable_store = Some False,
      fv_allow_safety_identifier = Some False, fv_allow_include_obfuscation = Some False,
      fv_allow_inference_geo = Some False, fv_allow_speed = Some False, fv_claude_beta_query = Some False,
      fv_disable_task_polling_sleep = Some False, fv_disable_channel_affinity = Some False,
      fv_upstream_model_update_check_enabled = Some False, fv_upstream_model_update_auto_sync_enabled = Some False,
      fv_upstream_model_update_ignored_models = Some []\<rparr>"

text \<open>
  The property \<open>k\<close> of what a settings text holds. Reading a property of \<open>null\<close> throws, which the
  surrounding \<open>try\<close> turns into the defaults; of any other value that is no object it is undefined.
\<close>

definition parsed_setting :: "jsstr option \<Rightarrow> json option" where
  "parsed_setting s = (if text_of s = [] then None
     else case json_parse (text_of s) of None \<Rightarrow> None | Some JNull \<Rightarrow> None | Some j \<Rightarrow> Some j)"

definition setting_or :: "json option \<Rightarrow> string \<Rightarrow> json \<Rightarrow> json option" where
  "setting_or parsed k d = Some (case parsed of None \<Rightarrow> d | Some j \<Rightarrow> json_or (json_get j (js k)) d)"

definition setting_true :: "json option \<Rightarrow> string \<Rightarrow> bool option" where
  "setting_true parsed k = Some (case parsed of None \<Rightarrow> False | Some j \<Rightarrow> json_get j (js k) = Some (JBool True))"

definition setting_ignored :: "json option \<Rightarrow> jsstr" where
  "setting_ignored parsed =
     (case Option.bind parsed (\<lambda>j. json_get j (js ''upstream_model_update_ignored_models'')) of
        Some (JArr xs) \<Rightarrow> json_to_string (JArr xs)
      | _ \<Rightarrow> [])"

definition setting_advanced :: "json option \<Rightarrow> jsstr" where
  "setting_advanced parsed =
     (case Option.bind parsed (\<lambda>j. json_get j (js ''advanced_custom'')) of
        Some c \<Rightarrow> if json_truthy c then (case stringifyAdvancedCustomConfig c of Inr s \<Rightarrow> s | Inl e \<Rightarrow> []) else []
      | None \<Rightarrow> [])"

definition or_zero :: "rat option \<Rightarrow> rat" where
  "or_zero r = (case r of Some x \<Rightarrow> x | None \<Rightarrow> 0)"

definition transformChannelToFormDefaults :: "Channel \<Rightarrow> ChannelFormValues" where
  "transformChannelToFormDefaults channel =
     (let extra = parsed_setting (ch_setting channel); parsed = parsed_setting (Some (ch_settings channel))
      in \<lparr>fv_name = ch_name channel, fv_type = ch_type channel, fv_base_url = Some (text_of (ch_base_url channel)),
          fv_key = [], fv_openai_organization = Some (text_of (ch_openai_organization channel)),
          fv_models = ch_models channel,
          fv_group = parseGroups (if ch_group channel = [] then js ''default'' else ch_group channel),
          fv_model_mapping = Some (text_of (ch_model_mapping channel)),
          fv_disabled_models = Some (ch_disabled_models channel),
          fv_priority = Some (or_zero (ch_priority channel)), fv_weight = Some (or_zero (ch_weight channel)),
          fv_test_model = Some (text_of (ch_test_model channel)),
          fv_auto_ban = Some (case ch_auto_ban channel of Some b \<Rightarrow> b | None \<Rightarrow> 1),
          fv_status = ch_status channel, fv_status_code_mapping = Some (text_of (ch_status_code_mapping channel)),
          fv_tag = Some (text_of (ch_tag channel)), fv_remark = Some (ch_remark channel),
          fv_setting = Some (text_of (ch_setting channel)), fv_param_override = Some (text_of (ch_param_override channel)),
          fv_header_override = Some (text_of (ch_header_override channel)),
          fv_settings = Some (if ch_settings channel = [] then js ''{}'' else ch_settings channel),
          fv_advanced_custom = Some (setting_advanced parsed), fv_other = Some (ch_other channel),
          fv_multi_key_mode = Some (if ci_is_multi_key (ch_channel_info channel) then js ''multi_to_single'' else js ''single''),
          fv_multi_key_type = Some (if ci_multi_key_mode (ch_channel_info channel) = [] then js ''random''
                                    else ci_multi_key_mode (ch_channel_info channel)),
          fv_batch_add_set_key_prefix_2_name = Some False, fv_key_mode = Some (js ''append''),
          fv_quota_limit = Some (ch_quota_limit channel),
          fv_force_format = setting_or extra ''force_format'' (JBool False),
          fv_thinking_to_content = setting_or extra ''thinking_to_content'' (JBool False),
          fv_proxy = setting_or extra ''proxy'' (JStr []),
          fv_pass_through_body_enabled = setting_or extra ''pass_through_body_enabled'' (JBool False),
          fv_system_prompt = setting_or extra ''system_prompt'' (JStr []),
          fv_system_prompt_override = setting_or extra ''system_prompt_override'' (JBool False),
          fv_is_enterprise_account = setting_true parsed ''openrouter_enterprise'',
          fv_vertex_key_type = setting_or parsed ''vertex_key_type'' (JStr (js ''json'')),
          fv_aws_key_type = setting_or parsed ''aws_key_type'' (JStr (js ''ak_sk'')),
          fv_azure_responses_version = setting_or parsed ''azure_responses_version'' (JStr []),
          fv_allow_service_tier = setting_true parsed ''allow_service_tier'',
          fv_disable_store = setting_true parsed ''disable_store'',
          fv_allow_safety_identifier = setting_true parsed ''allow_safety_identifier'',
          fv_allow_include_obfuscation = setting_true parsed ''allow_include_obfuscation'',
          fv_allow_inference_geo = setting_true parsed ''allow_inference_geo'',
          fv_allow_speed = setting_true parsed ''allow_speed'',
          fv_claude_beta_query = setting_true parsed ''claude_beta_query'',
          fv_disable_task_polling_sleep = setting_true parsed ''disable_task_polling_sleep'',
          fv_disable_channel_affinity = setting_true parsed ''disable_channel_affinity'',
          fv_upstream_model_update_check_enabled = setting_true parsed ''upstream_model_update_check_enabled'',
          fv_upstream_model_update_auto_sync_enabled = setting_true parsed ''upstream_model_update_auto_sync_enabled'',
          fv_upstream_model_update_ignored_models = Some (setting_ignored parsed)\<rparr>)"

section \<open>The settings texts\<close>

definition buildSettingJSON :: "ChannelFormValues \<Rightarrow> jsstr" where
  "buildSettingJSON formData = stringify (JObj
     [(js ''force_format'', json_or (fv_force_format formData) (JBool False)),
      (js ''thinking_to_content'', json_or (fv_thinking_to_content formData) (JBool False)),
      (js ''proxy'', json_or (fv_proxy formData) (JStr [])),
      (js ''pass_through_body_enabled'', json_or (fv_pass_through_body_enabled formData) (JBool False)),
      (js ''system_prompt'', json_or (fv_system_prompt formData) (JStr [])),
      (js ''system_prompt_override'', json_or (fv_system_prompt_override formData) (JBool False))])"

text \<open>A property that is set under a condition and deleted otherwise.\<close>

definition put_or_delete :: "bool \<Rightarrow> string \<Rightarrow> json \<Rightarrow> (jsstr \<times> json) list \<Rightarrow> (jsstr \<times> json) list" where
  "put_or_delete c k v ps = (if c then obj_set (js k) v ps else al_delete (js k) ps)"

abbreviation flag :: "bool option \<Rightarrow> json" where
  "flag b \<equiv> JBool (b = Some True)"

definition ignoredModels :: "ChannelFormValues \<Rightarrow> jsstr list" where
  "ignoredModels formData =
     dedup (filter (\<lambda>m. m \<noteq> []) (map trim (split_char 44 (text_of (fv_upstream_model_update_ignored_models formData)))))"

definition putUpstreamUpdate :: "ChannelFormValues \<Rightarrow> (jsstr \<times> json) list \<Rightarrow> (jsstr \<times> json) list" where
  "putUpstreamUpdate formData ps =
     (let check = (fv_upstream_model_update_check_enabled formData = Some True);
          p1 = obj_set (js ''upstream_model_update_check_enabled'') (JBool check) ps;
          p2 = obj_set (js ''upstream_model_update_auto_sync_enabled'')
                 (JBool (check \<and> fv_upstream_model_update_auto_sync_enabled formData = Some True)) p1;
          p3 = obj_set (js ''upstream_model_update_ignored_models'') (JArr (map JStr (ignoredModels formData))) p2;
          p4 = (case map_of p3 (js ''upstream_model_update_last_detected_models'') of
                  Some (JArr xs) \<Rightarrow> if check then p3
                                   else obj_set (js ''upstream_model_update_last_detected_models'') (JArr []) p3
                | _ \<Rightarrow> obj_set (js ''upstream_model_update_last_detected_models'') (JArr []) p3)
      in case map_of p4 (js ''upstream_model_update_last_check_time'') of
           Some (JNum r) \<Rightarrow> p4
         | _ \<Rightarrow> obj_set (js ''upstream_model_update_last_check_time'') (JNum 0) p4)"

definition putAdvancedCustom :: "ChannelFormValues \<Rightarrow> (jsstr \<times> json) list \<Rightarrow> (jsstr \<times> json) list" where
  "putAdvancedCustom formData ps =
     (if fv_type formData = of_nat CHANNEL_TYPE_ADVANCED_CUSTOM
      then (case parseAdvancedCustomConfig (fv_advanced_custom formData) of
              Some config \<Rightarrow> obj_set (js ''advanced_custom'') (config_json config) ps
            | None \<Rightarrow> ps)
      else al_delete (js ''advanced_custom'') ps)"

definition putTypeSettings :: "ChannelFormValues \<Rightarrow> (jsstr \<times> json) list \<Rightarrow> (jsstr \<times> json) list" where
  "putTypeSettings formData p0 =
     (let ty = fv_type formData; openai = (ty = 1 \<or> ty = 57);
          p1 = put_or_delete (ty = 41) ''vertex_key_type'' (json_or (fv_vertex_key_type formData) (JStr (js ''json''))) p0;
          azure = fv_azure_responses_version formData;
          p2 = put_or_delete (ty = 3 \<and> json_truthy (json_or azure JNull)) ''azure_responses_version'' (json_or azure JNull) p1;
          p3 = put_or_delete (ty = 20) ''openrouter_enterprise'' (flag (fv_is_enterprise_account formData)) p2;
          p4 = put_or_delete (ty = 33) ''aws_key_type'' (json_or (fv_aws_key_type formData) (JStr (js ''ak_sk''))) p3;
          p5 = put_or_delete (ty = 1 \<or> ty = 14 \<or> ty = 57) ''allow_service_tier'' (flag (fv_allow_service_tier formData)) p4;
          p6 = put_or_delete openai ''disable_store'' (flag (fv_disable_store formData)) p5;
          p7 = put_or_delete openai ''allow_safety_identifier'' (flag (fv_allow_safety_identifier formData)) p6;
          p8 = put_or_delete openai ''allow_include_obfuscation'' (flag (fv_allow_include_obfuscation formData)) p7;
          p9 = (if openai then obj_set (js ''allow_inference_geo'') (flag (fv_allow_inference_geo formData)) p8
                else if ty \<noteq> 14 then al_delete (js ''allow_inference_geo'') p8 else p8);
          p10 = (if ty = 14 then obj_set (js ''allow_inference_geo'') (flag (fv_allow_inference_geo formData)) p9 else p9);
          p11 = put_or_delete (ty = 14) ''allow_speed'' (flag (fv_allow_speed formData)) p10
      in put_or_delete (ty = 14) ''claude_beta_query'' (flag (fv_claude_beta_query formData)) p11)"

definition settingsEntries :: "ChannelFormValues \<Rightarrow> (jsstr \<times> json) list \<Rightarrow> (jsstr \<times> json) list" where
  "settingsEntries formData p0 =
     (let p1 = putTypeSettings formData p0;
          p2 = obj_set (js ''disable_task_polling_sleep'') (flag (fv_disable_task_polling_sleep formData)) p1;
          p3 = obj_set (js ''disable_channel_affinity'') (flag (fv_disable_channel_affinity formData)) p2;
          p4 = (if fv_type formData \<in> set MODEL_FETCHABLE_TYPES then putUpstreamUpdate formData p3 else p3)
      in putAdvancedCustom formData p4)"

text \<open>
  The stored text may hold a value that is no object: the properties set on an array are not printed, and setting
  or testing one of a primitive value or \<open>null\<close> throws.
\<close>

definition buildSettingsJSON :: "ChannelFormValues \<Rightarrow> js_error + jsstr" where
  "buildSettingsJSON formData =
     (let stored = text_of (fv_settings formData)
      in case (if stored = [] \<or> stored = js ''{}'' then None else json_parse stored) of
           None \<Rightarrow> Inr (stringify (JObj (settingsEntries formData [])))
         | Some (JObj ps) \<Rightarrow> Inr (stringify (JObj (settingsEntries formData ps)))
         | Some (JArr xs) \<Rightarrow> Inr (stringify (JArr xs))
         | Some _ \<Rightarrow> Inl TypeError)"

section \<open>Payloads\<close>

text \<open>\<open>replace(/\\/+$/, '')\<close> removes the slashes at the end.\<close>

definition normalizeBaseUrl :: "jsstr option \<Rightarrow> jsstr" where
  "normalizeBaseUrl v = rev (dropWhile (\<lambda>c. c = 47) (rev (trim (text_of v))))"

definition num_or_null :: "rat option \<Rightarrow> json" where
  "num_or_null r = (case r of Some x \<Rightarrow> if x \<noteq> 0 then JNum x else JNull | None \<Rightarrow> JNull)"

text \<open>The loop over \<open>Object.keys\<close> that turns empty texts into \<open>null\<close>.\<close>

definition emptyToNull :: "(jsstr \<times> json) list \<Rightarrow> (jsstr \<times> json) list" where
  "emptyToNull ps = map (\<lambda>(k, v). (k, if v = JStr [] then JNull else v)) ps"

record CreatePayload =
  cp_mode :: jsstr
  cp_multi_key_mode :: "jsstr option"
  cp_batch_add_set_key_prefix_2_name :: "bool option"
  cp_channel :: "(jsstr \<times> json) list"

definition createEntries :: "ChannelFormValues \<Rightarrow> jsstr \<Rightarrow> (jsstr \<times> json) list" where
  "createEntries formData settings =
     [(js ''name'', JStr (fv_name formData)),
      (js ''type'', JNum (fv_type formData)),
      (js ''base_url'', text_or_null (Some (normalizeBaseUrl (fv_base_url formData)))),
      (js ''key'', JStr (fv_key formData)),
      (js ''openai_organization'', text_or_null (fv_openai_organization formData)),
      (js ''models'', JStr (fv_models formData)),
      (js ''group'', JStr (formatGroups (fv_group formData))),
      (js ''model_mapping'', text_or_null (fv_model_mapping formData)),
      (js ''disabled_models'', JStr (text_of (fv_disabled_models formData))),
      (js ''priority'', num_or_null (fv_priority formData)),
      (js ''weight'', num_or_null (fv_weight formData)),
      (js ''test_model'', text_or_null (fv_test_model formData)),
      (js ''auto_ban'', JNum (case fv_auto_ban formData of Some b \<Rightarrow> b | None \<Rightarrow> 1)),
      (js ''status'', JNum (fv_status formData)),
      (js ''status_code_mapping'', text_or_null (fv_status_code_mapping formData)),
      (js ''tag'', text_or_null (fv_tag formData)),
      (js ''remark'', JStr (text_of (fv_remark formData))),
      (js ''setting'', JStr (buildSettingJSON formData)),
      (js ''param_override'', text_or_null (fv_param_override formData)),
      (js ''header_override'', text_or_null (fv_header_override formData)),
      (js ''settings'', JStr settings),
      (js ''other'', JStr (text_of (fv_other formData))),
      (js ''quota_limit'', JNum (or_zero (fv_quota_limit formData)))]"

definition transformFormDataToCreatePayload :: "ChannelFormValues \<Rightarrow> js_error + CreatePayload" where
  "transformFormDataToCreatePayload formData =
     (case buildSettingsJSON formData of
        Inl e \<Rightarrow> Inl e
      | Inr settings \<Rightarrow>
          let mode = (if text_of (fv_multi_key_mode formData) = [] then js ''single'' else text_of (fv_multi_key_mode formData))
          in Inr \<lparr>cp_mode = mode,
               cp_multi_key_mode = (if mode = js ''multi_to_single'' then fv_multi_key_type formData else None),
               cp_batch_add_set_key_prefix_2_name =
                 (if mode = js ''batch'' then fv_batch_add_set_key_prefix_2_name formData else None),
               cp_channel = emptyToNull (createEntries formData settings)\<rparr>)"

definition updateEntries :: "ChannelFormValues \<Rightarrow> rat \<Rightarrow> jsstr \<Rightarrow> (jsstr \<times> json) list" where
  "updateEntries formData channelId settings =
     [(js ''id'', JNum channelId),
      (js ''name'', JStr (fv_name formData)),
      (js ''type'', JNum (fv_type formData)),
      (js ''base_url'', text_or_null (Some (normalizeBaseUrl (fv_base_url formData)))),
      (js ''openai_organization'', text_or_null (fv_openai_organization formData)),
      (js ''models'', JStr (fv_models formData)),
      (js ''group'', JStr (formatGroups (fv_group formData))),
      (js ''model_mapping'', text_or_null (fv_model_mapping formData)),
      (js ''disabled_models'', JStr (text_of (fv_disabled_models formData))),
      (js ''priority'', JNum (or_zero (fv_priority formData))),
      (js ''weight'', JNum (or_zero (fv_weight formData))),
      (js ''test_model'', text_or_null (fv_test_model formData)),
      (js ''auto_ban'', JNum (case fv_auto_ban formData of Some b \<Rightarrow> b | None \<Rightarrow> 1)),
      (js ''status_code_mapping'', text_or_null (fv_status_code_mapping formData)),
      (js ''tag'', text_or_null (fv_tag formData)),
      (js ''remark'', JStr (text_of (fv_remark formData))),
      (js ''setting'', JStr (buildSettingJSON formData)),
      (js ''param_override'', text_or_null (fv_param_override formData)),
      (js ''header_override'', text_or_null (fv_header_override formData)),
      (js ''settings'', JStr settings),
      (js ''other'', JStr (text_of (fv_other formData))),
      (js ''quota_limit'', JNum (or_zero (fv_quota_limit formData)))]"

text \<open>The fields that are sent as an empty text when they are cleared, in the order of the assignments.\<close>

definition clearedFields :: "ChannelFormValues \<Rightarrow> (jsstr \<times> jsstr) list" where
  "clearedFields formData =
     [(js ''base_url'', normalizeBaseUrl (fv_base_url formData)),
      (js ''openai_organization'', text_of (fv_openai_organization formData)),
      (js ''test_model'', text_of (fv_test_model formData)),
      (js ''tag'', text_of (fv_tag formData)),
      (js ''remark'', text_of (fv_remark formData)),
      (js ''model_mapping'', text_of (fv_model_mapping formData)),
      (js ''status_code_mapping'', text_of (fv_status_code_mapping formData)),
      (js ''param_override'', text_of (fv_param_override formData)),
      (js ''header_override'', text_of (fv_header_override formData)),
      (js ''disabled_models'', text_of (fv_disabled_models formData))]"

definition transformFormDataToUpdatePayload :: "ChannelFormValues \<Rightarrow> rat \<Rightarrow> js_error + (jsstr \<times> json) list" where
  "transformFormDataToUpdatePayload formData channelId =
     (case buildSettingsJSON formData of
        Inl e \<Rightarrow> Inl e
      | Inr settings \<Rightarrow>
          let payload = updateEntries formData channelId settings;
              withKey = (if fv_key formData \<noteq> [] \<and> trim (fv_key formData) \<noteq> []
                         then obj_set (js ''key'') (JStr (fv_key formData)) payload else payload)
          in Inr (foldl (\<lambda>p (k, s). obj_set k (JStr s) p) (emptyToNull withKey) (clearedFields formData)))"

end
