(* ===== verification/AdvancedRules.thy ===== *)
theory AdvancedRules
  imports AdvancedCustom
begin

text \<open>
  Correctness of the routes of advanced custom channels: what the validation accepts and which route
  it blames, that accepted routes do not overlap, that the built-in templates and defaults are
  accepted, and that a saved configuration is read back.
\<close>

section \<open>Specification\<close>

definition route_path :: "AdvancedCustomRoute \<Rightarrow> jsstr" where
  "route_path r = (case ar_incoming_path r of JStr s \<Rightarrow> trim s | _ \<Rightarrow> [])"

definition route_models :: "AdvancedCustomRoute \<Rightarrow> jsstr list" where
  "route_models r = filter (\<lambda>m. m \<noteq> []) (map trim (ar_models r))"

definition is_text :: "json \<Rightarrow> bool" where
  "is_text v = (case v of JStr s \<Rightarrow> True | _ \<Rightarrow> False)"

text \<open>The texts the code calls methods of are texts.\<close>

definition typed_route :: "AdvancedCustomRoute \<Rightarrow> bool" where
  "typed_route r \<longleftrightarrow> is_text (ar_incoming_path r)
     \<and> (case ar_auth r of None \<Rightarrow> True | Some a \<Rightarrow> is_text (aa_name a) \<and> is_text (aa_value a))"

definition auth_ok :: "AdvancedCustomRouteAuth option \<Rightarrow> bool" where
  "auth_ok auth = (case auth of
     None \<Rightarrow> True
   | Some a \<Rightarrow> aa_type a = Some (JStr (js ''none''))
       \<or> (aa_type a = Some (JStr (js ''header'')) \<or> aa_type a = Some (JStr (js ''query'')))
         \<and> trim_of (aa_name a) \<noteq> Inr [] \<and> trim_of (aa_value a) \<noteq> Inr [])"

definition models_ok :: "jsstr list \<Rightarrow> bool" where
  "models_ok ms \<longleftrightarrow> distinct ms \<and> ADVANCED_CUSTOM_MODEL_REGEX_PREFIX \<notin> set ms"

definition converter_ok :: "AdvancedCustomRoute \<Rightarrow> bool" where
  "converter_ok r \<longleftrightarrow> list_ex (\<lambda>opt. json_or (Some (ar_converter r)) (JStr (js ''none'')) = JStr (fst opt)
     \<and> isConverterPathAllowed (route_path r) (fst opt)) ADVANCED_CUSTOM_CONVERTER_OPTIONS"

text \<open>A route on its own.\<close>

definition route_ok :: "url_parser \<Rightarrow> AdvancedCustomRoute \<Rightarrow> bool" where
  "route_ok url r \<longleftrightarrow> starts_with (js ''/'') (route_path r) \<and> 63 \<notin> set (route_path r) \<and> models_ok (route_models r)
     \<and> trim (ar_upstream_path r) \<noteq> [] \<and> isFullHttpURLOrAbsolutePath url (trim (ar_upstream_path r))
     \<and> converter_ok r \<and> auth_ok (ar_auth r)"

text \<open>
  A route and a later one of the same path: the earlier is no catch-all, and they share no model.
\<close>

definition before_ok :: "AdvancedCustomRoute \<Rightarrow> AdvancedCustomRoute \<Rightarrow> bool" where
  "before_ok a b \<longleftrightarrow> route_path a \<noteq> route_path b
     \<or> route_models a \<noteq> [] \<and> set (route_models a) \<inter> set (route_models b) = {}"

definition accepted :: "url_parser \<Rightarrow> AdvancedCustomRoute list \<Rightarrow> bool" where
  "accepted url rs \<longleftrightarrow> list_all (route_ok url) rs \<and> sorted_wrt before_ok rs"

section \<open>The table of paths\<close>

abbreviation path_state :: "(jsstr \<times> PathState) list \<Rightarrow> jsstr \<Rightarrow> PathState" where
  "path_state byPath p \<equiv> (case map_of byPath p of Some st \<Rightarrow> st | None \<Rightarrow> \<lparr>ps_catchAll = None, ps_models = []\<rparr>)"

definition table_of :: "AdvancedCustomRoute list \<Rightarrow> (jsstr \<times> PathState) list \<Rightarrow> bool" where
  "table_of rs byPath \<longleftrightarrow> (\<forall>p.
     (ps_catchAll (path_state byPath p) \<noteq> None \<longleftrightarrow> (\<exists>r \<in> set rs. route_path r = p \<and> route_models r = []))
     \<and> fst ` set (ps_models (path_state byPath p)) = (\<Union>r \<in> {r \<in> set rs. route_path r = p}. set (route_models r)))"

lemma table_of_Nil [simp]: "table_of [] []"
  by (simp add: table_of_def)

lemma empty_regex:
  "getAdvancedCustomModelRuleKind m = RuleRegex \<and> getAdvancedCustomRegexModelPattern m = [] \<longleftrightarrow> m = ADVANCED_CUSTOM_MODEL_REGEX_PREFIX"
  by (auto simp: getAdvancedCustomModelRuleKind_def getAdvancedCustomRegexModelPattern_def starts_with_iff)

lemma checkModels_ok:
  "(\<exists>k. checkModels i seen ms known = Inr k) \<longleftrightarrow>
     models_ok ms \<and> set ms \<inter> set seen = {} \<and> set ms \<inter> fst ` set known = {}"
proof (induction i seen ms known rule: checkModels.induct)
  case (2 i seen m ms known)
  show ?case
  proof (cases "m = ADVANCED_CUSTOM_MODEL_REGEX_PREFIX \<or> m \<in> set seen \<or> map_of known m \<noteq> None")
    case True
    then show ?thesis by (auto simp: empty_regex models_ok_def map_of_eq_None_iff)
  next
    case False
    then have c: "checkModels i seen (m # ms) known = checkModels i (m # seen) ms (al_put m i known)"
      by (simp add: empty_regex)
    show ?thesis
      unfolding c using 2 False by (auto simp: empty_regex keys_al_put models_ok_def map_of_eq_None_iff)
  qed
qed (simp add: models_ok_def)

lemma checkModels_keys: "checkModels i seen ms known = Inr k \<Longrightarrow> fst ` set k = fst ` set known \<union> set ms"
  by (induction i seen ms known rule: checkModels.induct) (auto simp: keys_al_put split: if_splits)

lemma validateModels_ok:
  assumes t: "table_of rs byPath" and ok: "models_ok (route_models r)"
  shows "(\<exists>b. validateAdvancedCustomRouteModels i (route_path r) (route_models r) byPath = Inr b)
    \<longleftrightarrow> list_all (\<lambda>a. before_ok a r) rs"
proof -
  let ?st = "path_state byPath (route_path r)"
  have t': "ps_catchAll ?st \<noteq> None \<longleftrightarrow> (\<exists>a \<in> set rs. route_path a = route_path r \<and> route_models a = [])"
    "fst ` set (ps_models ?st) = (\<Union>a \<in> {a \<in> set rs. route_path a = route_path r}. set (route_models a))"
    using t by (auto simp: table_of_def)
  have c: "(\<exists>k. checkModels i [] (route_models r) (ps_models ?st) = Inr k)
      \<longleftrightarrow> (\<forall>a \<in> set rs. route_path a = route_path r \<longrightarrow> set (route_models a) \<inter> set (route_models r) = {})"
    unfolding checkModels_ok using ok t'(2) by auto
  have "(\<exists>b. validateAdvancedCustomRouteModels i (route_path r) (route_models r) byPath = Inr b)
      \<longleftrightarrow> ps_catchAll ?st = None \<and> (route_models r = [] \<or> (\<exists>k. checkModels i [] (route_models r) (ps_models ?st) = Inr k))"
    unfolding validateAdvancedCustomRouteModels_def Let_def by (auto split: sum.split)
  then show ?thesis
    unfolding c before_ok_def list_all_iff using t'(1) by (cases "route_models r = []") auto
qed

lemma validateModels_table:
  assumes t: "table_of rs byPath"
    and v: "validateAdvancedCustomRouteModels i (route_path r) (route_models r) byPath = Inr byPath'"
  shows "table_of (rs @ [r]) byPath'"
proof -
  let ?st = "path_state byPath (route_path r)"
  obtain st' where b: "byPath' = al_put (route_path r) st' byPath"
    and c: "ps_catchAll st' \<noteq> None \<longleftrightarrow> ps_catchAll ?st \<noteq> None \<or> route_models r = []"
    and m: "fst ` set (ps_models st') = fst ` set (ps_models ?st) \<union> set (route_models r)"
    using v checkModels_keys unfolding validateAdvancedCustomRouteModels_def Let_def
    by (auto split: if_splits sum.splits)
  have other: "path_state byPath' p = (if p = route_path r then st' else path_state byPath p)" for p
    by (simp add: b map_of_al_put)
  show ?thesis
    unfolding table_of_def other using t c m by (auto simp: table_of_def)
qed

lemma validateModels_iff:
  assumes "table_of rs byPath"
  shows "(\<exists>b. validateAdvancedCustomRouteModels i (route_path r) (route_models r) byPath = Inr b)
    \<longleftrightarrow> models_ok (route_models r) \<and> list_all (\<lambda>a. before_ok a r) rs"
proof (cases "models_ok (route_models r)")
  case False
  then have "route_models r \<noteq> []" by (auto simp: models_ok_def)
  moreover have "\<not> (\<exists>k. checkModels i [] (route_models r) known = Inr k)" for known
    unfolding checkModels_ok using False by simp
  ultimately show ?thesis
    using False unfolding validateAdvancedCustomRouteModels_def Let_def by (auto split: sum.splits)
qed (use validateModels_ok [OF assms] in simp)

section \<open>One route\<close>

lemma auth_validated:
  assumes "case auth of None \<Rightarrow> True | Some a \<Rightarrow> is_text (aa_name a) \<and> is_text (aa_value a)"
  shows "\<exists>x. validateRouteAuth auth = Inr x \<and> (x = None \<longleftrightarrow> auth_ok auth)"
  using assms
  by (auto simp: validateRouteAuth_def auth_ok_def trim_of_def is_text_def split: option.splits json.splits)

lemma converter_validated:
  "isAdvancedCustomConverter (json_or (Some (ar_converter r)) (JStr (js ''none'')))
    \<and> isConverterPathAllowed (route_path r) (case json_or (Some (ar_converter r)) (JStr (js ''none'')) of JStr c \<Rightarrow> c | _ \<Rightarrow> [])
    \<longleftrightarrow> converter_ok r"
  unfolding isAdvancedCustomConverter_def converter_ok_def list_ex_iff by (auto split: json.splits)

lemma has_char: "has_sub [c] s \<longleftrightarrow> c \<in> set s"
  by (auto simp: has_sub_iff in_set_conv_decomp)

text \<open>The checks of a route and its place after the routes before it.\<close>

lemma checkRoute_exact:
  assumes r: "typed_route r" and t: "table_of rs byPath"
  shows "\<exists>res. checkRoute url i r byPath = Inr res \<and>
    (case res of
       Inl msg \<Rightarrow> \<not> (route_ok url r \<and> list_all (\<lambda>a. before_ok a r) rs)
     | Inr byPath' \<Rightarrow> route_ok url r \<and> list_all (\<lambda>a. before_ok a r) rs \<and> table_of (rs @ [r]) byPath')"
proof -
  have p: "trim_of (ar_incoming_path r) = Inr (route_path r)"
    using r by (auto simp: typed_route_def is_text_def trim_of_def route_path_def split: json.splits)
  obtain x where x: "validateRouteAuth (ar_auth r) = Inr x" "x = None \<longleftrightarrow> auth_ok (ar_auth r)"
    using auth_validated r unfolding typed_route_def by metis
  note conv = converter_validated [of r] and mod = validateModels_iff [OF t, of i r]
  have q: "has_sub (js ''?'') (route_path r) \<longleftrightarrow> 63 \<in> set (route_path r)"
    using has_char [of 63] by (simp add: js_def)
  have slash: "starts_with (js ''/'') (route_path r) \<Longrightarrow> route_path r \<noteq> []" by (auto simp: js_def)
  show ?thesis
  proof (cases "validateAdvancedCustomRouteModels i (route_path r) (route_models r) byPath")
    case (Inl msg)
    then have "\<not> (models_ok (route_models r) \<and> list_all (\<lambda>a. before_ok a r) rs)" using mod by auto
    with Inl show ?thesis
      unfolding checkRoute_def p sum.case Let_def route_models_def [symmetric] by (auto simp: route_ok_def)
  next
    case (Inr b)
    then have "models_ok (route_models r)" "list_all (\<lambda>a. before_ok a r) rs" "table_of (rs @ [r]) b"
      using mod validateModels_table [OF t] by auto
    with Inr show ?thesis
      unfolding checkRoute_def p sum.case Let_def route_models_def [symmetric]
      using x conv slash by (auto simp: route_ok_def q split: option.splits)
  qed
qed

section \<open>All routes\<close>

lemma accepted_snoc: "accepted url (rs @ [r]) \<longleftrightarrow> accepted url rs \<and> route_ok url r \<and> list_all (\<lambda>a. before_ok a r) rs"
  by (auto simp: accepted_def sorted_wrt_append list_all_iff)

lemma accepted_prefix: "accepted url (rs @ qs) \<Longrightarrow> accepted url rs"
  by (auto simp: accepted_def sorted_wrt_append)

definition blames :: "url_parser \<Rightarrow> AdvancedCustomRoute list \<Rightarrow> AdvancedCustomValidationError option \<Rightarrow> bool" where
  "blames url rs res = (case res of
     None \<Rightarrow> accepted url rs
   | Some e \<Rightarrow> (case ve_routeIndex e of
       None \<Rightarrow> False
     | Some k \<Rightarrow> k < length rs \<and> accepted url (take k rs) \<and> \<not> accepted url (take (Suc k) rs)))"

lemma validateRoutes_exact:
  assumes "list_all typed_route qs" and "table_of rs byPath" and "accepted url rs"
  shows "\<exists>res. validateRoutes url (length rs) qs byPath = Inr res \<and> blames url (rs @ qs) res"
  using assms
proof (induction qs arbitrary: rs byPath)
  case Nil
  then show ?case by (simp add: blames_def)
next
  case (Cons q qs)
  obtain res where res: "checkRoute url (length rs) q byPath = Inr res"
    "case res of
       Inl msg \<Rightarrow> \<not> (route_ok url q \<and> list_all (\<lambda>a. before_ok a q) rs)
     | Inr byPath' \<Rightarrow> route_ok url q \<and> list_all (\<lambda>a. before_ok a q) rs \<and> table_of (rs @ [q]) byPath'"
    using checkRoute_exact [of q rs byPath url "length rs"] Cons.prems by auto
  show ?case
  proof (cases res)
    case (Inl msg)
    with res(2) have "\<not> accepted url (rs @ [q])" by (simp add: accepted_snoc)
    with Inl res(1) Cons.prems(3) show ?thesis by (simp add: blames_def)
  next
    case (Inr b)
    with res(2) Cons.prems have "accepted url (rs @ [q])" "table_of (rs @ [q]) b" by (simp_all add: accepted_snoc)
    from Cons.IH [OF _ this(2,1)] Cons.prems(1) obtain res' where
      "validateRoutes url (length (rs @ [q])) qs b = Inr res'" "blames url ((rs @ [q]) @ qs) res'" by auto
    with Inr res(1) show ?thesis by simp
  qed
qed

text \<open>What passes is acceptable, whatever the types of its values.\<close>

lemma checkRoute_accepts:
  assumes t: "table_of rs byPath" and c: "checkRoute url i r byPath = Inr (Inr b)"
  shows "route_ok url r \<and> list_all (\<lambda>a. before_ok a r) rs \<and> table_of (rs @ [r]) b"
proof -
  obtain q where "trim_of (ar_incoming_path r) = Inr q" using c by (auto simp: checkRoute_def split: sum.splits)
  then have p: "trim_of (ar_incoming_path r) = Inr (route_path r)"
    by (auto simp: trim_of_def route_path_def split: json.splits)
  have a: "validateRouteAuth x = Inr None \<Longrightarrow> auth_ok x" for x
    by (auto simp: validateRouteAuth_def auth_ok_def split: option.splits if_splits sum.splits)
  have q: "has_sub (js ''?'') (route_path r) \<longleftrightarrow> 63 \<in> set (route_path r)"
    using has_char [of 63] by (simp add: js_def)
  note conv = converter_validated [of r] and mod = validateModels_iff [OF t, of i r] and tab = validateModels_table [OF t, of i r b]
  from c show ?thesis
    unfolding checkRoute_def p sum.case Let_def route_models_def [symmetric]
    using conv mod tab a by (auto simp: route_ok_def q split: if_splits sum.splits option.splits)
qed

lemma validateRoutes_accepts:
  assumes "table_of rs byPath" and "accepted url rs" and "validateRoutes url (length rs) qs byPath = Inr None"
  shows "accepted url (rs @ qs)"
  using assms
proof (induction qs arbitrary: rs byPath)
  case (Cons q qs)
  then obtain b where b: "checkRoute url (length rs) q byPath = Inr (Inr b)" "validateRoutes url (length (rs @ [q])) qs b = Inr None"
    by (auto split: sum.splits)
  from checkRoute_accepts [OF Cons.prems(1) b(1)] Cons.prems(2) have "accepted url (rs @ [q])" "table_of (rs @ [q]) b"
    by (simp_all add: accepted_snoc)
  from Cons.IH [OF this(2,1) b(2)] show ?case by simp
qed simp

lemma validated_accepted:
  assumes "normalizeAdvancedCustomConfig c = Inr rs" and "validateAdvancedCustomConfig url (Some c) = Inr None"
  shows "rs \<noteq> [] \<and> accepted url rs"
  using validateRoutes_accepts [of "[]" "[]" url rs] assms
  by (auto simp: validateAdvancedCustomConfig_def accepted_def split: if_splits)

text \<open>
  C26. The validation of an advanced custom configuration is exact. On routes whose texts are texts
  it never throws; it accepts a configuration just when it has routes, each is well formed, and
  routes of one path do not overlap and have their catch-all last; and the route it blames is
  the first one with which the list stops being acceptable.
\<close>

theorem validation_exact:
  assumes "normalizeAdvancedCustomConfig c = Inr rs" and "list_all typed_route rs"
  shows "\<exists>res. validateAdvancedCustomConfig url (Some c) = Inr res
    \<and> (case res of
         None \<Rightarrow> rs \<noteq> [] \<and> accepted url rs
       | Some e \<Rightarrow> (case ve_routeIndex e of
           None \<Rightarrow> rs = []
         | Some k \<Rightarrow> k < length rs \<and> accepted url (take k rs) \<and> \<not> accepted url (take (Suc k) rs)))"
proof (cases "rs = []")
  case False
  have "accepted url []" by (simp add: accepted_def)
  from validateRoutes_exact [OF assms(2) table_of_Nil this] obtain res where
    "validateRoutes url 0 rs [] = Inr res" "blames url rs res" by auto
  then show ?thesis
    using False by (intro exI [of _ res])
      (auto simp: validateAdvancedCustomConfig_def assms(1) blames_def split: option.splits)
qed (simp add: validateAdvancedCustomConfig_def assms(1))

theorem validation_exact_witness:
  "let rs = [createAdvancedCustomRoute, createAdvancedCustomRoute]; url = \<lambda>s. None in
   normalizeAdvancedCustomConfig (config_json rs) = Inr rs \<and> list_all typed_route rs
   \<and> (\<exists>res. validateAdvancedCustomConfig url (Some (config_json rs)) = Inr res
    \<and> (case res of
         None \<Rightarrow> rs \<noteq> [] \<and> accepted url rs
       | Some e \<Rightarrow> (case ve_routeIndex e of
           None \<Rightarrow> rs = []
         | Some k \<Rightarrow> k < length rs \<and> accepted url (take k rs) \<and> \<not> accepted url (take (Suc k) rs))))"
proof -
  have "normalizeAdvancedCustomConfig (config_json [createAdvancedCustomRoute, createAdvancedCustomRoute])
      = Inr [createAdvancedCustomRoute, createAdvancedCustomRoute]" by code_simp
  moreover have "list_all typed_route [createAdvancedCustomRoute, createAdvancedCustomRoute]" by code_simp
  ultimately show ?thesis
    unfolding Let_def using validation_exact [where url = "\<lambda>s. None"] by blast
qed

text \<open>
  C27. Accepted routes are unambiguous: a model is named by at most one route of a path, and a path has at
  most one catch-all route, which comes after all its other routes.
\<close>

theorem routing_unambiguous:
  assumes "normalizeAdvancedCustomConfig c = Inr rs" and "validateAdvancedCustomConfig url (Some c) = Inr None"
  shows "length (filter (\<lambda>r. route_path r = p \<and> m \<in> set (route_models r)) rs) \<le> 1
    \<and> (\<exists>named catchAll. filter (\<lambda>r. route_path r = p) rs = named @ catchAll \<and> length catchAll \<le> 1
        \<and> list_all (\<lambda>r. route_models r \<noteq> []) named \<and> list_all (\<lambda>r. route_models r = []) catchAll)"
proof -
  have "accepted url rs" using validated_accepted [OF assms] by blast
  then have s: "sorted_wrt before_ok (filter (\<lambda>r. route_path r = p) rs)"
    by (simp add: accepted_def sorted_wrt_filter)
  let ?q = "filter (\<lambda>r. route_path r = p) rs"
  have all: "list_all (\<lambda>r. route_path r = p) ?q" by (simp add: list_all_iff)
  have one: "length (filter (\<lambda>r. m \<in> set (route_models r)) q) \<le> 1"
    if "sorted_wrt before_ok q" "list_all (\<lambda>r. route_path r = p) q" for q
    using that by (induction q) (auto simp: before_ok_def list_all_iff filter_empty_conv disjoint_iff)
  have "\<exists>named catchAll. q = named @ catchAll \<and> length catchAll \<le> 1
        \<and> list_all (\<lambda>r. route_models r \<noteq> []) named \<and> list_all (\<lambda>r. route_models r = []) catchAll"
    if "sorted_wrt before_ok q" "list_all (\<lambda>r. route_path r = p) q" for q
    using that
  proof (induction q rule: rev_induct)
    case (snoc r q)
    then have "list_all (\<lambda>a. route_models a \<noteq> []) q" by (auto simp: sorted_wrt_append before_ok_def list_all_iff)
    then show ?case
      by (cases "route_models r = []") (intro exI [of _ q] exI [of _ "[r]"], simp, intro exI [of _ "q @ [r]"] exI [of _ "[]"], simp)
  qed simp
  from this [OF s all] one [OF s all] show ?thesis by (simp add: conj_commute)
qed

theorem routing_unambiguous_witness:
  "let rs = [createAdvancedCustomRoute\<lparr>ar_models := [js ''gpt-4o'']\<rparr>, createAdvancedCustomRoute] in
   normalizeAdvancedCustomConfig (config_json rs) = Inr rs
   \<and> validateAdvancedCustomConfig (\<lambda>s. None) (Some (config_json rs)) = Inr None
   \<and> length (filter (\<lambda>r. route_path r = openAIChatPath \<and> js ''gpt-4o'' \<in> set (route_models r)) rs) \<le> 1
   \<and> (\<exists>named catchAll. filter (\<lambda>r. route_path r = openAIChatPath) rs = named @ catchAll \<and> length catchAll \<le> 1
        \<and> list_all (\<lambda>r. route_models r \<noteq> []) named \<and> list_all (\<lambda>r. route_models r = []) catchAll)"
proof -
  let ?rs = "[createAdvancedCustomRoute\<lparr>ar_models := [js ''gpt-4o'']\<rparr>, createAdvancedCustomRoute]"
  have n: "normalizeAdvancedCustomConfig (config_json ?rs) = Inr ?rs" by code_simp
  have v: "validateAdvancedCustomConfig (\<lambda>s. None) (Some (config_json ?rs)) = Inr None" by code_simp
  show ?thesis
    unfolding Let_def using n v routing_unambiguous [OF n v, of openAIChatPath "js ''gpt-4o''"] by blast
qed

section \<open>Templates and defaults\<close>

text \<open>
  Every built-in template passes the validation, whatever the URL parser, and so does every route the
  editor fills in for a converter and an incoming path it offers for it.
\<close>

theorem templates_accepted:
  "list_all (\<lambda>t. validateAdvancedCustomConfig url (Some (config_json (to_config t))) = Inr None) ADVANCED_CUSTOM_TEMPLATE_OPTIONS
   \<and> list_all (\<lambda>(c, _, _). list_all (\<lambda>(p, _).
        let d = getAdvancedCustomConverterDefaults c p
        in validateAdvancedCustomConfig url (Some (config_json [route_of p (cd_upstream_path d) c (Some (cd_auth d))])) = Inr None)
      (getAdvancedCustomIncomingPathOptions c)) ADVANCED_CUSTOM_CONVERTER_OPTIONS"
  by code_simp

section \<open>Saving and reading back\<close>

lemma map_result_map: "(\<And>x. x \<in> set xs \<Longrightarrow> f (g x) = Inr x) \<Longrightarrow> map_result f (map g xs) = Inr xs"
  by (induction xs) auto

lemma map_result_all:
  "map_result f xs = Inr ys \<Longrightarrow> \<forall>x \<in> set xs. \<forall>y. f x = Inr y \<longrightarrow> P y \<Longrightarrow> list_all P ys"
  by (induction xs arbitrary: ys) (auto split: sum.splits)

text \<open>The routes that normalising gives.\<close>

definition normal_route :: "AdvancedCustomRoute \<Rightarrow> bool" where
  "normal_route r \<longleftrightarrow> (json_truthy (ar_incoming_path r) \<or> ar_incoming_path r = JStr []) \<and> trim (ar_upstream_path r) = ar_upstream_path r
     \<and> (json_truthy (ar_converter r) \<or> ar_converter r = JStr (js ''none'')) \<and> route_models r = ar_models r
     \<and> (case ar_auth r of None \<Rightarrow> True | Some a \<Rightarrow>
          (json_truthy (aa_name a) \<or> aa_name a = JStr []) \<and> (json_truthy (aa_value a) \<or> aa_value a = JStr []))"

lemma json_or_cases: "json_truthy (json_or v d) \<or> json_or v d = d"
  by (auto simp: json_or_def split: option.split)

lemma json_or_again [simp]: "json_truthy v \<or> v = d \<Longrightarrow> json_or (Some v) d = v"
  by (auto simp: json_or_def)

lemma models_normal: "map_result trim_of xs = Inr ms \<Longrightarrow> list_all (\<lambda>m. trim m = m) ms"
proof (induction xs arbitrary: ms)
  case (Cons x xs)
  then show ?case by (auto simp: trim_of_def split: sum.splits json.splits)
qed simp

lemma upstream_normal: "getAdvancedCustomRouteUpstreamPath v = Inr u \<Longrightarrow> trim u = u"
  by (auto simp: getAdvancedCustomRouteUpstreamPath_def trim_of_def split: json.splits)

lemma route_models_normal:
  assumes "normalizeAdvancedCustomRouteModels v = Inr ms"
  shows "filter (\<lambda>m. m \<noteq> []) (map trim ms) = ms"
proof (cases "\<exists>xs. v = Some (JArr xs)")
  case True
  then obtain xs ys where "map_result trim_of xs = Inr ys" "ms = filter (\<lambda>m. m \<noteq> []) ys"
    using assms by (auto simp: normalizeAdvancedCustomRouteModels_def split: sum.splits)
  then show ?thesis
    using models_normal [of xs ys] by (induction ys) (auto simp: map_idI list_all_iff intro!: map_idI)
qed (use assms in \<open>auto simp: normalizeAdvancedCustomRouteModels_def split: option.splits json.splits\<close>)

lemma normalize_parts:
  assumes "normalizeAdvancedCustomRoute j = Inr r"
  shows "getAdvancedCustomRouteUpstreamPath (json_get j (js ''upstream_path'')) = Inr (ar_upstream_path r)"
    and "normalizeAdvancedCustomRouteModels (json_get j (js ''models'')) = Inr (ar_models r)"
    and "ar_incoming_path r = json_or (json_get j (js ''incoming_path'')) (JStr [])"
    and "ar_converter r = json_or (json_get j (js ''converter'')) (JStr (js ''none''))"
    and "ar_auth r = None \<or> (\<exists>a. json_get j (js ''auth'') = Some a \<and> ar_auth r = Some
           \<lparr>aa_type = json_get a (js ''type''), aa_name = json_or (json_get a (js ''name'')) (JStr []),
            aa_value = json_or (json_get a (js ''value'')) (JStr [])\<rparr>)"
  using assms unfolding normalizeAdvancedCustomRoute_def
  by (simp_all split: if_splits sum.splits option.splits) auto

lemma normalize_normal: "normalizeAdvancedCustomRoute j = Inr r \<Longrightarrow> normal_route r"
  using json_or_cases upstream_normal [OF normalize_parts(1)] route_models_normal [OF normalize_parts(2)] normalize_parts(5) [of j r]
  by (auto simp: normal_route_def route_models_def normalize_parts(3,4))

lemma json_get_route:
  "json_get (route_json r) (js ''incoming_path'') = Some (ar_incoming_path r)"
  "json_get (route_json r) (js ''upstream_path'') = Some (JStr (ar_upstream_path r))"
  "json_get (route_json r) (js ''converter'') = Some (ar_converter r)"
  "json_get (route_json r) (js ''models'') = (if ar_models r = [] then None else Some (JArr (map JStr (ar_models r))))"
  "json_get (route_json r) (js ''auth'') = map_option auth_json (ar_auth r)"
  by (auto simp: json_get_def route_json_def js_def split: option.splits)

lemma json_get_auth:
  "json_get (auth_json a) (js ''type'') = aa_type a"
  "json_get (auth_json a) (js ''name'') = Some (aa_name a)"
  "json_get (auth_json a) (js ''value'') = Some (aa_value a)"
  by (auto simp: json_get_def auth_json_def js_def split: option.splits)

lemma map_result_texts: "map_result trim_of (map JStr ms) = Inr (map trim ms)"
  by (induction ms) (simp_all add: trim_of_def)

lemma models_again:
  "route_models r = ar_models r \<Longrightarrow>
    normalizeAdvancedCustomRouteModels (json_get (route_json r) (js ''models'')) = Inr (ar_models r)"
  by (simp add: json_get_route normalizeAdvancedCustomRouteModels_def map_result_texts route_models_def)

lemma upstream_again:
  "trim (ar_upstream_path r) = ar_upstream_path r \<Longrightarrow>
    getAdvancedCustomRouteUpstreamPath (json_get (route_json r) (js ''upstream_path'')) = Inr (ar_upstream_path r)"
  by (auto simp: json_get_route getAdvancedCustomRouteUpstreamPath_def json_or_def trim_of_def)

lemma normalize_again:
  assumes "normal_route r"
  shows "normalizeAdvancedCustomRoute (route_json r) = Inr r"
proof -
  have "route_json r \<noteq> JNull" by (simp add: route_json_def)
  moreover have "json_truthy (auth_json a)" for a by (simp add: auth_json_def)
  ultimately show ?thesis
    unfolding normalizeAdvancedCustomRoute_def using assms
    by (cases "ar_auth r")
      (simp_all add: models_again upstream_again normal_route_def json_get_route(1,3,5) json_get_auth)
qed

lemma normal_routes: "normalizeAdvancedCustomConfig c = Inr rs \<Longrightarrow> list_all normal_route rs"
  using map_result_all [of normalizeAdvancedCustomRoute _ rs normal_route] normalize_normal
  by (auto simp: normalizeAdvancedCustomConfig_def split: option.splits json.splits)

lemma normal_upstream:
  "normalizeAdvancedCustomConfig c = Inr rs \<Longrightarrow> r \<in> set rs \<Longrightarrow> trim (ar_upstream_path r) = ar_upstream_path r"
  using normal_routes [of c rs] by (auto simp: list_all_iff normal_route_def)

lemma config_again:
  assumes "normalizeAdvancedCustomConfig c = Inr rs"
  shows "normalizeAdvancedCustomConfig (config_json rs) = Inr rs"
proof -
  have "list_all normal_route rs" by (rule normal_routes [OF assms])
  then show ?thesis
    by (auto simp: normalizeAdvancedCustomConfig_def config_json_def json_get_def list_all_iff normalize_again
        intro!: map_result_map)
qed

lemma fields_wf:
  "list_all (\<lambda>p. array_index (fst p) = None) ps \<Longrightarrow> distinct (map fst ps) \<Longrightarrow> list_all (\<lambda>p. wf_json (snd p)) ps
    \<Longrightarrow> wf_json (JObj ps)"
  by (simp add: obj_of_plain list_all_iff)

lemma json_get_wf: "wf_json j \<Longrightarrow> json_get j k = Some v \<Longrightarrow> wf_json v"
  by (cases j) (auto simp: json_get_def dest!: map_of_SomeD)

lemma json_or_wf: "(\<And>x. v = Some x \<Longrightarrow> wf_json x) \<Longrightarrow> wf_json d \<Longrightarrow> wf_json (json_or v d)"
  by (auto simp: json_or_def split: option.split)

lemma auth_wf:
  "(\<And>t. aa_type a = Some t \<Longrightarrow> wf_json t) \<Longrightarrow> wf_json (aa_name a) \<Longrightarrow> wf_json (aa_value a) \<Longrightarrow> wf_json (auth_json a)"
  unfolding auth_json_def
  by (rule fields_wf) (auto simp: js_eval array_index_def split: option.splits)

lemma route_wf:
  assumes "normalizeAdvancedCustomRoute j = Inr r" and "wf_json j"
  shows "wf_json (route_json r)"
proof -
  have a: "wf_json (auth_json a)" if "ar_auth r = Some a" for a
    using normalize_parts(5) [OF assms(1)] that json_get_wf [OF assms(2), of "js ''auth''"]
    by (intro auth_wf) (auto intro!: json_or_wf intro: json_get_wf)
  show ?thesis
    unfolding route_json_def
    using a json_get_wf [OF assms(2)] normalize_parts(3,4) [OF assms(1)]
    by (intro fields_wf) (auto simp: js_eval array_index_def list_all_iff intro!: json_or_wf split: option.splits)
qed

lemma config_wf:
  assumes "normalizeAdvancedCustomConfig c = Inr rs" and "wf_json c"
  shows "wf_json (config_json rs)"
proof -
  have "list_all (\<lambda>r. wf_json (route_json r)) rs"
  proof (cases "\<exists>xs. json_get c (js ''advanced_routes'') = Some (JArr xs)")
    case True
    then obtain xs where xs: "json_get c (js ''advanced_routes'') = Some (JArr xs)" by blast
    then have "map_result normalizeAdvancedCustomRoute xs = Inr rs" "\<forall>x \<in> set xs. wf_json x"
      using assms json_get_wf [OF assms(2) xs] by (auto simp: normalizeAdvancedCustomConfig_def)
    then show ?thesis using route_wf by (intro map_result_all [of normalizeAdvancedCustomRoute xs]) auto
  qed (use assms in \<open>auto simp: normalizeAdvancedCustomConfig_def split: option.splits json.splits\<close>)
  then show ?thesis
    unfolding config_json_def by (intro fields_wf) (auto simp: list_all_iff js_eval array_index_def)
qed

lemma pretty_object_not_blank: "trim (stringify_indented (config_json rs)) \<noteq> []"
proof -
  have "\<exists>s. stringify_indented (config_json rs) = 123 # s" by (simp add: stringify_indented_def config_json_def)
  then show ?thesis by (auto simp: trim_eq_Nil_iff is_ws_def)
qed

lemma config_reads_back:
  assumes "wf_json (config_json rs)" and "normalizeAdvancedCustomConfig (config_json rs) = Inr rs"
  shows "parseAdvancedCustomConfig (Some (stringify_indented (config_json rs))) = Some rs"
  using json_indented.decode_encode [OF assms(1)] assms(2) pretty_object_not_blank [of rs]
  by (simp add: parseAdvancedCustomConfig_def parse_plain_object_def config_json_def)

lemma parsed_config_normal:
  "parseAdvancedCustomConfig v = Some rs \<Longrightarrow> normalizeAdvancedCustomConfig (config_json rs) = Inr rs"
  by (auto simp: parseAdvancedCustomConfig_def config_again split: option.splits if_splits sum.splits)

text \<open>
  C28. A configuration that is saved is read back: the indented text of any configuration that can be
  normalised parses to its normal form, which another normalisation leaves as it is.
\<close>

theorem advanced_config_roundtrip:
  assumes "wf_json c" and "normalizeAdvancedCustomConfig c = Inr rs"
  shows "\<exists>s. stringifyAdvancedCustomConfig c = Inr s \<and> parseAdvancedCustomConfig (Some s) = Some rs
    \<and> normalizeAdvancedCustomConfig (config_json rs) = Inr rs"
  using config_reads_back [OF config_wf [OF assms(2,1)]] config_again [OF assms(2)] assms(2)
  by (simp add: stringifyAdvancedCustomConfig_def)

theorem advanced_config_roundtrip_witness:
  "let c = config_json createAdvancedCustomConfig in
   wf_json c \<and> normalizeAdvancedCustomConfig c = Inr createAdvancedCustomConfig
   \<and> (\<exists>s. stringifyAdvancedCustomConfig c = Inr s \<and> parseAdvancedCustomConfig (Some s) = Some createAdvancedCustomConfig
    \<and> normalizeAdvancedCustomConfig (config_json createAdvancedCustomConfig) = Inr createAdvancedCustomConfig)"
proof -
  have w: "wf_json (config_json createAdvancedCustomConfig)" by code_simp
  have n: "normalizeAdvancedCustomConfig (config_json createAdvancedCustomConfig) = Inr createAdvancedCustomConfig" by code_simp
  show ?thesis unfolding Let_def using w n advanced_config_roundtrip [OF w n] by blast
qed

text \<open>
  A saved configuration whose incoming path is a number is read without complaint, and its summary,
  which calls \<open>trim\<close> on that number, throws.
\<close>

lemma untyped_path_throws:
  "let saved = stringify (JObj [(js ''advanced_routes'', JArr [JObj [(js ''incoming_path'', JNum 5)]])])
   in parseAdvancedCustomConfig (Some saved) \<noteq> None \<and> getAdvancedCustomStats url (Some saved) = Inl TypeError"
  by code_simp

end
