(* ===== verification/JsObject.thy ===== *)
theory JsObject
  imports JsJson
begin

text \<open>
  The property order of objects: which lists of entries are objects, and that setting and deleting
  properties keeps them so. An object that was read from a text can be changed and printed again.
\<close>

definition key_before :: "jsstr \<Rightarrow> jsstr \<Rightarrow> bool" where
  "key_before a b = (case array_index b of
     None \<Rightarrow> True
   | Some j \<Rightarrow> (case array_index a of Some i \<Rightarrow> i < j | None \<Rightarrow> False))"

definition canonical :: "(jsstr \<times> 'v) list \<Rightarrow> bool" where
  "canonical ps \<longleftrightarrow> distinct (map fst ps) \<and> sorted_wrt key_before (map fst ps)"

lemma array_index_inj: "array_index a = Some i \<Longrightarrow> array_index b = Some i \<Longrightarrow> a = b"
  by (auto simp: array_index_def split: if_splits)

lemma key_before_trans: "key_before a b \<Longrightarrow> key_before b c \<Longrightarrow> key_before a c"
  by (auto simp: key_before_def split: option.splits)

lemma sorted_insert_index:
  assumes "array_index k = Some i" and "k \<notin> fst ` set ps" and "sorted_wrt key_before (map fst ps)"
  shows "sorted_wrt key_before (map fst (insert_index i k v ps))"
  using assms
proof (induction i k v ps rule: insert_index.induct)
  case (2 i k v k' v' ps)
  consider (later) j where "array_index k' = Some j" "j < i" | (here) "key_before k k'"
  proof (cases "array_index k'")
    case (Some j)
    then have "j \<noteq> i" using array_index_inj [of k i k'] 2 by auto
    with Some show ?thesis using 2 that by (cases "j < i") (auto simp: key_before_def)
  qed (simp add: that key_before_def)
  then show ?case
  proof cases
    case (later j)
    then have "key_before k' k" using 2 by (simp add: key_before_def)
    moreover have "sorted_wrt key_before (map fst (insert_index i k v ps))"
      using 2 later by (intro "2.IH" [OF later(1)]) auto
    ultimately show ?thesis
      using later 2 keys_insert_index [of i k v ps] by (simp add: ball_conj_distrib flip: set_map)
  next
    case here
    moreover have "insert_index i k v ((k', v') # ps) = (k, v) # (k', v') # ps"
      using here 2 by (auto simp: key_before_def split: option.splits)
    ultimately show ?thesis using 2 key_before_trans [OF here] by auto
  qed
qed simp

lemma fst_al_put: "map fst (al_put k v ps) = (if k \<in> fst ` set ps then map fst ps else map fst ps @ [k])"
  by (induction k v ps rule: al_put.induct) auto

lemma canonical_obj_set: "canonical ps \<Longrightarrow> canonical (obj_set k v ps)"
  using distinct_obj_set [of ps k v]
  by (auto simp: canonical_def obj_set_def fst_al_put sorted_wrt_append sorted_insert_index key_before_def
      split: option.splits if_splits)

lemma canonical_al_delete: "canonical ps \<Longrightarrow> canonical (al_delete k ps)"
  by (auto simp: canonical_def al_delete_def distinct_map_filter sorted_wrt_map sorted_wrt_filter)

lemma canonical_Nil [simp]: "canonical []"
  by (simp add: canonical_def)

lemma obj_set_last:
  assumes "canonical (ps @ [(k, v)])"
  shows "obj_set k v ps = ps @ [(k, v)]"
proof (cases "array_index k")
  case (Some i)
  have "list_all (\<lambda>p. key_before (fst p) k) ps" using assms by (auto simp: canonical_def sorted_wrt_append list_all_iff)
  then have "insert_index i k v ps = ps @ [(k, v)]"
    using Some by (induction i k v ps rule: insert_index.induct) (auto simp: key_before_def split: option.splits)
  then show ?thesis using assms Some by (auto simp: canonical_def obj_set_def)
qed (use assms in \<open>auto simp: canonical_def obj_set_def al_put_new\<close>)

lemma canonical_iff: "obj_of ps = ps \<longleftrightarrow> canonical ps"
proof
  have "canonical d \<Longrightarrow> canonical (foldl (\<lambda>ps (k, v). obj_set k v ps) d ms)" for d :: "(jsstr \<times> 'a) list" and ms
    by (induction ms arbitrary: d) (auto simp: canonical_obj_set)
  from this [of "[]" ps] show "obj_of ps = ps \<Longrightarrow> canonical ps" by (simp add: obj_of_def)
  show "canonical ps \<Longrightarrow> obj_of ps = ps"
  proof (induction ps rule: rev_induct)
    case (snoc p ps)
    then have "canonical ps" by (auto simp: canonical_def sorted_wrt_append)
    with snoc show ?case by (cases p) (simp add: obj_of_def obj_set_last)
  qed (simp add: obj_of_def)
qed

lemma wf_object: "wf_json (JObj ps) \<longleftrightarrow> canonical ps \<and> (\<forall>k v. map_of ps k = Some v \<longrightarrow> wf_json v)"
proof -
  have "canonical ps \<Longrightarrow> (\<forall>p \<in> set ps. wf_json (snd p)) \<longleftrightarrow> (\<forall>k v. map_of ps k = Some v \<longrightarrow> wf_json v)"
    by (fastforce simp: canonical_def dest: map_of_SomeD)
  then show ?thesis by (auto simp: canonical_iff)
qed

end
