(* ===== verification/ChannelFormRules.thy ===== *)
theory ChannelFormRules
  imports ChannelForm AdvancedRules JsObject
begin

text \<open>
  Correctness of the channel form: which properties of the stored settings an edit changes, that the
  form shows again what was saved, what the payloads contain, and what a form without issues guarantees.
\<close>

section \<open>The settings an edit writes\<close>

text \<open>
  What every property that the form manages must be after an edit: \<open>None\<close> when it must be absent.
  The stored properties are \<open>p0\<close>.
\<close>

definition type_settings :: "ChannelFormValues \<Rightarrow> (jsstr \<times> json option) list" where
  "type_settings fv =
     (let ty = fv_type fv; openai = (ty = 1 \<or> ty = 57); only = (\<lambda>c v. if c then Some v else None) in
      [(js ''vertex_key_type'', only (ty = 41) (json_or (fv_vertex_key_type fv) (JStr (js ''json'')))),
       (js ''azure_responses_version'',
          only (ty = 3 \<and> json_truthy (json_or (fv_azure_responses_version fv) JNull)) (json_or (fv_azure_responses_version fv) JNull)),
       (js ''openrouter_enterprise'', only (ty = 20) (flag (fv_is_enterprise_account fv))),
       (js ''aws_key_type'', only (ty = 33) (json_or (fv_aws_key_type fv) (JStr (js ''ak_sk'')))),
       (js ''allow_service_tier'', only (ty = 1 \<or> ty = 14 \<or> ty = 57) (flag (fv_allow_service_tier fv))),
       (js ''disable_store'', only openai (flag (fv_disable_store fv))),
       (js ''allow_safety_identifier'', only openai (flag (fv_allow_safety_identifier fv))),
       (js ''allow_include_obfuscation'', only openai (flag (fv_allow_include_obfuscation fv))),
       (js ''allow_inference_geo'', only (openai \<or> ty = 14) (flag (fv_allow_inference_geo fv))),
       (js ''allow_speed'', only (ty = 14) (flag (fv_allow_speed fv))),
       (js ''claude_beta_query'', only (ty = 14) (flag (fv_claude_beta_query fv))),
       (js ''disable_task_polling_sleep'', Some (flag (fv_disable_task_polling_sleep fv))),
       (js ''disable_channel_affinity'', Some (flag (fv_disable_channel_affinity fv)))])"

definition update_settings :: "ChannelFormValues \<Rightarrow> (jsstr \<times> json) list \<Rightarrow> (jsstr \<times> json option) list" where
  "update_settings fv p0 =
     (let check = (fv_upstream_model_update_check_enabled fv = Some True) in
      [(js ''upstream_model_update_check_enabled'', Some (JBool check)),
       (js ''upstream_model_update_auto_sync_enabled'',
          Some (JBool (check \<and> fv_upstream_model_update_auto_sync_enabled fv = Some True))),
       (js ''upstream_model_update_ignored_models'', Some (JArr (map JStr (ignoredModels fv)))),
       (js ''upstream_model_update_last_detected_models'',
          Some (case map_of p0 (js ''upstream_model_update_last_detected_models'') of
                  Some (JArr xs) \<Rightarrow> if check then JArr xs else JArr [] | _ \<Rightarrow> JArr [])),
       (js ''upstream_model_update_last_check_time'',
          Some (case map_of p0 (js ''upstream_model_update_last_check_time'') of Some (JNum r) \<Rightarrow> JNum r | _ \<Rightarrow> JNum 0))])"

definition advanced_settings :: "ChannelFormValues \<Rightarrow> (jsstr \<times> json) list \<Rightarrow> (jsstr \<times> json option) list" where
  "advanced_settings fv p0 =
     [(js ''advanced_custom'',
       if fv_type fv = 58
       then (case parseAdvancedCustomConfig (fv_advanced_custom fv) of
               Some config \<Rightarrow> Some (config_json config) | None \<Rightarrow> map_of p0 (js ''advanced_custom''))
       else None)]"

definition managed :: "ChannelFormValues \<Rightarrow> (jsstr \<times> json) list \<Rightarrow> (jsstr \<times> json option) list" where
  "managed fv p0 = type_settings fv
     @ (if fv_type fv \<in> set MODEL_FETCHABLE_TYPES then update_settings fv p0 else []) @ advanced_settings fv p0"

definition overlay :: "(jsstr \<times> json option) list \<Rightarrow> (jsstr \<times> json) list \<Rightarrow> jsstr \<Rightarrow> json option" where
  "overlay ms p0 k = (case map_of ms k of Some v \<Rightarrow> v | None \<Rightarrow> map_of p0 k)"

definition put_setting :: "jsstr \<Rightarrow> json option \<Rightarrow> (jsstr \<times> json) list \<Rightarrow> (jsstr \<times> json) list" where
  "put_setting k v p = (case v of Some x \<Rightarrow> obj_set k x p | None \<Rightarrow> al_delete k p)"

fun apply_settings :: "(jsstr \<times> json option) list \<Rightarrow> (jsstr \<times> json) list \<Rightarrow> (jsstr \<times> json) list" where
  "apply_settings [] p = p"
| "apply_settings ((k, v) # ms) p = apply_settings ms (put_setting k v p)"

lemma map_of_put_setting: "map_of (put_setting k v p) k' = (if k' = k then v else map_of p k')"
  by (cases v) (simp_all add: put_setting_def map_of_obj_set map_of_al_delete)

lemma apply_append: "apply_settings (as @ bs) p = apply_settings bs (apply_settings as p)"
  by (induction as p rule: apply_settings.induct) auto

lemma map_of_apply: "distinct (map fst ms) \<Longrightarrow> map_of (apply_settings ms p) k = overlay ms p k"
proof (induction ms p rule: apply_settings.induct)
  case (2 k' v ms p)
  then have "map_of ms k' = None" by (simp add: map_of_eq_None_iff)
  with 2 show ?case by (auto simp: overlay_def map_of_put_setting split: option.split)
qed (simp add: overlay_def)

lemma canonical_apply: "canonical p \<Longrightarrow> canonical (apply_settings ms p)"
  by (induction ms p rule: apply_settings.induct)
    (auto simp: put_setting_def canonical_obj_set canonical_al_delete split: option.splits)

lemma al_put_same: "map_of p k = Some v \<Longrightarrow> al_put k v p = p"
  by (induction p) (auto split: if_splits)

lemma obj_set_same: "map_of p k = Some v \<Longrightarrow> obj_set k v p = p"
  by (auto simp: obj_set_def al_put_same weak_map_of_SomeI image_iff split: option.splits dest!: map_of_SomeD)

lemma al_delete_absent: "map_of p k = None \<Longrightarrow> al_delete k p = p"
  by (force simp: al_delete_def map_of_eq_None_iff filter_id_conv)

lemma put_setting_same: "map_of p k = v \<Longrightarrow> put_setting k v p = p"
  by (cases v) (simp_all add: put_setting_def obj_set_same al_delete_absent)

lemma as_setting:
  "put_or_delete c k v p = put_setting (js k) (if c then Some v else None) p"
  "obj_set k' v p = put_setting k' (Some v) p"
  by (simp_all add: put_or_delete_def put_setting_def)

lemma inference_geo:
  "(if ty = 14 then put_setting k v (if c then put_setting k v p else if ty \<noteq> 14 then al_delete k p else p)
    else if c then put_setting k v p else if ty \<noteq> 14 then al_delete k p else p)
   = put_setting k (if c \<or> ty = 14 then v else None) p" if "\<not> (c \<and> ty = 14)" for ty :: rat
  using that by (simp add: put_setting_def)

lemma type_part:
  "obj_set (js ''disable_channel_affinity'') (flag (fv_disable_channel_affinity fv))
     (obj_set (js ''disable_task_polling_sleep'') (flag (fv_disable_task_polling_sleep fv)) (putTypeSettings fv p0))
   = apply_settings (type_settings fv) p0"
proof -
  have "\<not> ((fv_type fv = 1 \<or> fv_type fv = 57) \<and> fv_type fv = 14)" by auto
  from inference_geo [OF this] show ?thesis
    unfolding putTypeSettings_def type_settings_def Let_def as_setting apply_settings.simps by (simp only:)
qed

definition type_names :: "jsstr list" where
  "type_names = map js [''vertex_key_type'', ''azure_responses_version'', ''openrouter_enterprise'', ''aws_key_type'',
     ''allow_service_tier'', ''disable_store'', ''allow_safety_identifier'', ''allow_include_obfuscation'',
     ''allow_inference_geo'', ''allow_speed'', ''claude_beta_query'', ''disable_task_polling_sleep'', ''disable_channel_affinity'']"

definition update_names :: "jsstr list" where
  "update_names = map js [''upstream_model_update_check_enabled'', ''upstream_model_update_auto_sync_enabled'',
     ''upstream_model_update_ignored_models'', ''upstream_model_update_last_detected_models'',
     ''upstream_model_update_last_check_time'']"

lemma setting_names:
  "map fst (type_settings fv) = type_names"
  "map fst (update_settings fv p0) = update_names"
  "map fst (advanced_settings fv p0) = [js ''advanced_custom'']"
  by (simp_all add: type_settings_def update_settings_def advanced_settings_def type_names_def update_names_def Let_def)

lemma names_distinct: "distinct (type_names @ update_names @ [js ''advanced_custom''])"
  by code_simp

lemma settings_keys:
  "distinct (map fst (managed fv p0))"
  "distinct (map fst (type_settings fv @ update_settings fv p0))"
  "k \<in> set update_names \<or> k = js ''advanced_custom'' \<Longrightarrow> map_of (type_settings fv) k = None"
  "map_of (type_settings fv @ update_settings fv p0) (js ''advanced_custom'') = None"
  using names_distinct unfolding managed_def map_of_eq_None_iff set_map [symmetric] map_append setting_names
  by (auto simp: setting_names simp del: set_map)

lemma update_part:
  assumes "map_of p (js ''upstream_model_update_last_detected_models'') = map_of p0 (js ''upstream_model_update_last_detected_models'')"
    and "map_of p (js ''upstream_model_update_last_check_time'') = map_of p0 (js ''upstream_model_update_last_check_time'')"
  shows "putUpstreamUpdate fv p = apply_settings (update_settings fv p0) p"
proof -
  let ?d = "js ''upstream_model_update_last_detected_models''" and ?t = "js ''upstream_model_update_last_check_time''"
  have d: "(case map_of q ?d of Some (JArr xs) \<Rightarrow> if c then q else obj_set ?d (JArr []) q | _ \<Rightarrow> obj_set ?d (JArr []) q)
      = put_setting ?d (Some (case map_of q ?d of Some (JArr xs) \<Rightarrow> if c then JArr xs else JArr [] | _ \<Rightarrow> JArr [])) q" for q c
    by (auto simp: as_setting(2) put_setting_same split: option.split json.split)
  have t: "(case map_of q ?t of Some (JNum r) \<Rightarrow> q | _ \<Rightarrow> obj_set ?t (JNum 0) q)
      = put_setting ?t (Some (case map_of q ?t of Some (JNum r) \<Rightarrow> JNum r | _ \<Rightarrow> JNum 0)) q" for q
    by (auto simp: as_setting(2) put_setting_same split: option.split json.split)
  show ?thesis
    unfolding putUpstreamUpdate_def update_settings_def Let_def apply_settings.simps
    unfolding t
    unfolding d
    unfolding as_setting(2)
    by (simp add: map_of_put_setting js_inject assms)
qed

lemma advanced_part:
  "map_of p (js ''advanced_custom'') = map_of p0 (js ''advanced_custom'') \<Longrightarrow>
    putAdvancedCustom fv p = apply_settings (advanced_settings fv p0) p"
  by (simp add: putAdvancedCustom_def advanced_settings_def as_setting(2) put_setting_same
      CHANNEL_TYPE_ADVANCED_CUSTOM_def put_setting_def [where v = None] split: option.split)

lemma settings_entries: "settingsEntries fv p0 = apply_settings (managed fv p0) p0"
proof -
  have d: "distinct (map fst (type_settings fv))" using names_distinct by (simp add: setting_names)
  note lookups = map_of_apply [OF settings_keys(2)] map_of_apply [OF d]
  have u: "putUpstreamUpdate fv (apply_settings (type_settings fv) p0)
      = apply_settings (type_settings fv @ update_settings fv p0) p0"
    unfolding apply_append by (rule update_part) (simp_all add: lookups overlay_def settings_keys(3) update_names_def)
  let ?p = "if fv_type fv \<in> set MODEL_FETCHABLE_TYPES then apply_settings (type_settings fv @ update_settings fv p0) p0
            else apply_settings (type_settings fv) p0"
  have "map_of ?p (js ''advanced_custom'') = map_of p0 (js ''advanced_custom'')"
    by (simp add: lookups overlay_def settings_keys(3,4) del: map_of_append)
  from advanced_part [OF this] show ?thesis
    unfolding settingsEntries_def Let_def type_part u by (simp add: managed_def apply_append)
qed

definition stored_entries :: "ChannelFormValues \<Rightarrow> (jsstr \<times> json) list" where
  "stored_entries fv = (case json_parse (text_of (fv_settings fv)) of Some (JObj ps) \<Rightarrow> ps | _ \<Rightarrow> [])"

lemma empty_object_parses: "json_parse (js ''{}'') = Some (JObj [])"
  by code_simp

lemma build_settings:
  assumes "isOptionalJsonObject (fv_settings fv)"
  shows "buildSettingsJSON fv = Inr (stringify (JObj (settingsEntries fv (stored_entries fv))))"
proof (cases "blank (fv_settings fv)")
  case True
  then have "json_parse (text_of (fv_settings fv)) = None" by (simp add: blank_def trim_eq_Nil_iff json_parse_blank)
  then show ?thesis by (simp add: buildSettingsJSON_def Let_def stored_entries_def)
next
  case False
  with assms obtain ps where "json_parse (text_of (fv_settings fv)) = Some (JObj ps)" "text_of (fv_settings fv) \<noteq> []"
    by (cases "text_of (fv_settings fv) = []")
      (auto simp: isOptionalJsonObject_def parseOptionalJson_def isJsonObjectValue_def blank_def
        split: option.splits json.splits)
  then show ?thesis
    using empty_object_parses by (auto simp: buildSettingsJSON_def Let_def stored_entries_def)
qed



section \<open>What the form shows again\<close>

definition wf_value :: "json option \<Rightarrow> bool" where
  "wf_value v = (case v of Some x \<Rightarrow> wf_json x | None \<Rightarrow> True)"

text \<open>Values that \<open>JSON.stringify\<close> prints and \<open>JSON.parse\<close> gives back.\<close>

definition wf_form :: "ChannelFormValues \<Rightarrow> bool" where
  "wf_form fv \<longleftrightarrow> isOptionalJsonObject (fv_settings fv) \<and> wf_json (JObj (stored_entries fv))
     \<and> list_all wf_value [fv_force_format fv, fv_thinking_to_content fv, fv_proxy fv, fv_pass_through_body_enabled fv,
         fv_system_prompt fv, fv_system_prompt_override fv, fv_vertex_key_type fv, fv_aws_key_type fv,
         fv_azure_responses_version fv, map_option config_json (parseAdvancedCustomConfig (fv_advanced_custom fv))]"

lemma json_or_wf_value: "wf_value v \<Longrightarrow> wf_json d \<Longrightarrow> wf_json (json_or v d)"
  by (auto simp: json_or_def wf_value_def split: option.splits)

lemma wf_lookup: "wf_json (JObj ps) \<Longrightarrow> wf_value (map_of ps k)"
  by (auto simp: wf_value_def split: option.split dest!: map_of_SomeD)

lemma managed_wf:
  assumes "wf_form fv"
  shows "list_all (\<lambda>(k, v). wf_value v) (managed fv (stored_entries fv))"
proof -
  have p0: "wf_json (JObj (stored_entries fv))" using assms by (simp add: wf_form_def)
  have "list_all (\<lambda>(k, v). wf_value v) (type_settings fv)"
    using assms by (simp add: type_settings_def Let_def wf_form_def wf_value_def [of "if _ then _ else _"]
        wf_value_def [of "Some _"] json_or_wf_value del: wf_json.simps(2,3))
  moreover have "list_all (\<lambda>(k, v). wf_value v) (update_settings fv (stored_entries fv))"
  proof -
    have n: "wf_json (JNum 0)" by (simp add: decimal_def)
    have d: "wf_json (case v of Some (JArr xs) \<Rightarrow> if c then JArr xs else JArr [] | _ \<Rightarrow> JArr [])" if "wf_value v" for v c
      using that by (auto simp: wf_value_def split: option.split json.split)
    have t: "wf_json (case v of Some (JNum r) \<Rightarrow> JNum r | _ \<Rightarrow> JNum 0)" if "wf_value v" for v
      using that n by (auto simp: wf_value_def split: option.split json.split)
    show ?thesis
      using d [OF wf_lookup [OF p0]] t [OF wf_lookup [OF p0]]
      by (simp add: update_settings_def Let_def wf_value_def [of "Some _"])
  qed
  moreover have "list_all (\<lambda>(k, v). wf_value v) (advanced_settings fv (stored_entries fv))"
  proof -
    have "wf_value (map_option config_json (parseAdvancedCustomConfig (fv_advanced_custom fv)))"
      using assms by (simp add: wf_form_def)
    with wf_lookup [OF p0, of "js ''advanced_custom''"] show ?thesis
      by (cases "parseAdvancedCustomConfig (fv_advanced_custom fv)") (simp_all add: advanced_settings_def wf_value_def [of None])
  qed
  ultimately show ?thesis by (simp add: managed_def)
qed

lemma settings_wf:
  assumes "wf_form fv"
  shows "wf_json (JObj (settingsEntries fv (stored_entries fv)))"
proof -
  have p0: "wf_json (JObj (stored_entries fv))" using assms by (simp add: wf_form_def)
  have "wf_value (overlay (managed fv (stored_entries fv)) (stored_entries fv) k)" for k
    using managed_wf [OF assms] wf_lookup [OF p0, of k]
    by (auto simp: overlay_def list_all_iff split: option.split dest!: map_of_SomeD)
  moreover have "canonical (stored_entries fv)" using p0 unfolding wf_object by simp
  ultimately show ?thesis
    unfolding wf_object settings_entries map_of_apply [OF settings_keys(1)]
    by (auto simp: canonical_apply wf_value_def split: option.splits) (metis option.simps(5))
qed

lemma stringified_not_empty: "stringify v \<noteq> []"
  using stringify_hd [of v] by auto

lemma settings_parsed:
  assumes "wf_form fv"
  shows "\<exists>s ps. buildSettingsJSON fv = Inr s \<and> parsed_setting (Some s) = Some (JObj ps)
    \<and> (\<forall>k. map_of ps k = overlay (managed fv (stored_entries fv)) (stored_entries fv) k)"
proof -
  let ?ps = "settingsEntries fv (stored_entries fv)"
  have "buildSettingsJSON fv = Inr (stringify (JObj ?ps))" using assms by (intro build_settings) (simp add: wf_form_def)
  moreover have "parsed_setting (Some (stringify (JObj ?ps))) = Some (JObj ?ps)"
    using json_text.decode_encode [OF settings_wf [OF assms]] stringified_not_empty
    by (simp add: parsed_setting_def text_of_def del: stringify.simps)
  ultimately show ?thesis
    using map_of_apply [OF settings_keys(1)] by (auto simp: settings_entries)
qed

text \<open>The settings fields of the form as they apply to the type of the channel, in place of those of \<open>fv'\<close>.\<close>

definition shown_settings :: "ChannelFormValues \<Rightarrow> ChannelFormValues \<Rightarrow> ChannelFormValues" where
  "shown_settings fv fv' =
     (let ty = fv_type fv; openai = (ty = 1 \<or> ty = 57); on = (\<lambda>c b. Some (c \<and> b = Some True));
          check = (fv_upstream_model_update_check_enabled fv = Some True);
          fetch = (ty \<in> set MODEL_FETCHABLE_TYPES)
      in fv'\<lparr>
        fv_force_format := Some (json_or (fv_force_format fv) (JBool False)),
        fv_thinking_to_content := Some (json_or (fv_thinking_to_content fv) (JBool False)),
        fv_proxy := Some (json_or (fv_proxy fv) (JStr [])),
        fv_pass_through_body_enabled := Some (json_or (fv_pass_through_body_enabled fv) (JBool False)),
        fv_system_prompt := Some (json_or (fv_system_prompt fv) (JStr [])),
        fv_system_prompt_override := Some (json_or (fv_system_prompt_override fv) (JBool False)),
        fv_is_enterprise_account := on (ty = 20) (fv_is_enterprise_account fv),
        fv_vertex_key_type := Some (json_or (if ty = 41 then fv_vertex_key_type fv else None) (JStr (js ''json''))),
        fv_aws_key_type := Some (json_or (if ty = 33 then fv_aws_key_type fv else None) (JStr (js ''ak_sk''))),
        fv_azure_responses_version := Some (json_or (if ty = 3 then fv_azure_responses_version fv else None) (JStr [])),
        fv_allow_service_tier := on (ty = 1 \<or> ty = 14 \<or> ty = 57) (fv_allow_service_tier fv),
        fv_disable_store := on openai (fv_disable_store fv),
        fv_allow_safety_identifier := on openai (fv_allow_safety_identifier fv),
        fv_allow_include_obfuscation := on openai (fv_allow_include_obfuscation fv),
        fv_allow_inference_geo := on (openai \<or> ty = 14) (fv_allow_inference_geo fv),
        fv_allow_speed := on (ty = 14) (fv_allow_speed fv),
        fv_claude_beta_query := on (ty = 14) (fv_claude_beta_query fv),
        fv_disable_task_polling_sleep := on True (fv_disable_task_polling_sleep fv),
        fv_disable_channel_affinity := on True (fv_disable_channel_affinity fv),
        fv_upstream_model_update_check_enabled :=
          (if fetch then on True (Some check) else fv_upstream_model_update_check_enabled fv'),
        fv_upstream_model_update_auto_sync_enabled :=
          (if fetch then on check (fv_upstream_model_update_auto_sync_enabled fv)
           else fv_upstream_model_update_auto_sync_enabled fv'),
        fv_upstream_model_update_ignored_models :=
          (if fetch then Some (join [44] (ignoredModels fv)) else fv_upstream_model_update_ignored_models fv')\<rparr>)"

lemma json_or_twice: "json_or (Some (json_or v d)) d = json_or v d"
  using json_or_cases [of v d] by simp

lemma json_or_null: "json_truthy (json_or v JNull) \<Longrightarrow> json_or (Some (json_or v JNull)) d = json_or v d"
  "\<not> json_truthy (json_or v JNull) \<Longrightarrow> json_or v d = d" "json_or None d = d"
  by (auto simp: json_or_def split: option.splits if_splits)

lemma join_texts: "json_to_string (JArr (map JStr ms)) = join [44] ms"
  by (simp add: comp_def)

lemma extra_parsed:
  assumes "wf_form fv"
  shows "\<exists>ps. parsed_setting (Some (buildSettingJSON fv)) = Some (JObj ps)
    \<and> map_of ps = map_of [(js ''force_format'', json_or (fv_force_format fv) (JBool False)),
      (js ''thinking_to_content'', json_or (fv_thinking_to_content fv) (JBool False)),
      (js ''proxy'', json_or (fv_proxy fv) (JStr [])),
      (js ''pass_through_body_enabled'', json_or (fv_pass_through_body_enabled fv) (JBool False)),
      (js ''system_prompt'', json_or (fv_system_prompt fv) (JStr [])),
      (js ''system_prompt_override'', json_or (fv_system_prompt_override fv) (JBool False))]"
proof -
  let ?ps = "[(js ''force_format'', json_or (fv_force_format fv) (JBool False)),
      (js ''thinking_to_content'', json_or (fv_thinking_to_content fv) (JBool False)),
      (js ''proxy'', json_or (fv_proxy fv) (JStr [])),
      (js ''pass_through_body_enabled'', json_or (fv_pass_through_body_enabled fv) (JBool False)),
      (js ''system_prompt'', json_or (fv_system_prompt fv) (JStr [])),
      (js ''system_prompt_override'', json_or (fv_system_prompt_override fv) (JBool False))]"
  have names: "list_all (\<lambda>k. array_index k = None) (map js [''force_format'', ''thinking_to_content'', ''proxy'',
      ''pass_through_body_enabled'', ''system_prompt'', ''system_prompt_override''])" by code_simp
  have "wf_json (JObj ?ps)"
    using assms names by (intro fields_wf) (simp_all add: js_inject wf_form_def json_or_wf_value)
  from json_text.decode_encode [OF this] have "parsed_setting (Some (buildSettingJSON fv)) = Some (JObj ?ps)"
    using stringified_not_empty unfolding parsed_setting_def buildSettingJSON_def text_of_def option.case
    by (simp del: stringify.simps)
  then show ?thesis by blast
qed

lemma overlay_type: "map_of (type_settings fv) k = Some v \<Longrightarrow> overlay (managed fv p0) p0 k = v"
  by (simp add: overlay_def managed_def)

lemma overlay_update:
  assumes "fv_type fv \<in> set MODEL_FETCHABLE_TYPES" and "map_of (update_settings fv p0) k = Some v"
  shows "overlay (managed fv p0) p0 k = v"
proof -
  have "k \<in> fst ` set (update_settings fv p0)" using assms(2) by (force dest: map_of_SomeD)
  then have "k \<in> set update_names" unfolding set_map [symmetric] setting_names .
  then have "map_of (type_settings fv) k = None" using settings_keys(3) by blast
  then show ?thesis using assms by (simp add: overlay_def managed_def map_add_def)
qed

lemma overlay_advanced: "map_of (advanced_settings fv p0) (js ''advanced_custom'') = Some v
    \<Longrightarrow> overlay (managed fv p0) p0 (js ''advanced_custom'') = v"
  using settings_keys(3,4) by (auto simp: overlay_def managed_def map_add_def split: option.split)

lemma type_values:
  "overlay (managed fv p0) p0 (js ''vertex_key_type'') = (if fv_type fv = 41 then Some (json_or (fv_vertex_key_type fv) (JStr (js ''json''))) else None)"
  "overlay (managed fv p0) p0 (js ''azure_responses_version'') = (if fv_type fv = 3 \<and> json_truthy (json_or (fv_azure_responses_version fv) JNull) then Some (json_or (fv_azure_responses_version fv) JNull) else None)"
  "overlay (managed fv p0) p0 (js ''openrouter_enterprise'') = (if fv_type fv = 20 then Some (flag (fv_is_enterprise_account fv)) else None)"
  "overlay (managed fv p0) p0 (js ''aws_key_type'') = (if fv_type fv = 33 then Some (json_or (fv_aws_key_type fv) (JStr (js ''ak_sk''))) else None)"
  "overlay (managed fv p0) p0 (js ''allow_service_tier'') = (if fv_type fv = 1 \<or> fv_type fv = 14 \<or> fv_type fv = 57 then Some (flag (fv_allow_service_tier fv)) else None)"
  "overlay (managed fv p0) p0 (js ''disable_store'') = (if fv_type fv = 1 \<or> fv_type fv = 57 then Some (flag (fv_disable_store fv)) else None)"
  "overlay (managed fv p0) p0 (js ''allow_safety_identifier'') = (if fv_type fv = 1 \<or> fv_type fv = 57 then Some (flag (fv_allow_safety_identifier fv)) else None)"
  "overlay (managed fv p0) p0 (js ''allow_include_obfuscation'') = (if fv_type fv = 1 \<or> fv_type fv = 57 then Some (flag (fv_allow_include_obfuscation fv)) else None)"
  "overlay (managed fv p0) p0 (js ''allow_inference_geo'') = (if (fv_type fv = 1 \<or> fv_type fv = 57) \<or> fv_type fv = 14 then Some (flag (fv_allow_inference_geo fv)) else None)"
  "overlay (managed fv p0) p0 (js ''allow_speed'') = (if fv_type fv = 14 then Some (flag (fv_allow_speed fv)) else None)"
  "overlay (managed fv p0) p0 (js ''claude_beta_query'') = (if fv_type fv = 14 then Some (flag (fv_claude_beta_query fv)) else None)"
  "overlay (managed fv p0) p0 (js ''disable_task_polling_sleep'') = (Some (flag (fv_disable_task_polling_sleep fv)))"
  "overlay (managed fv p0) p0 (js ''disable_channel_affinity'') = (Some (flag (fv_disable_channel_affinity fv)))"
  by (rule overlay_type, simp add: type_settings_def Let_def js_inject)+

lemma update_values:
  assumes "fv_type fv \<in> set MODEL_FETCHABLE_TYPES"
  shows "overlay (managed fv p0) p0 (js ''upstream_model_update_check_enabled'')
      = Some (flag (fv_upstream_model_update_check_enabled fv))"
    and "overlay (managed fv p0) p0 (js ''upstream_model_update_auto_sync_enabled'')
      = Some (JBool (fv_upstream_model_update_check_enabled fv = Some True \<and> fv_upstream_model_update_auto_sync_enabled fv = Some True))"
    and "overlay (managed fv p0) p0 (js ''upstream_model_update_ignored_models'') = Some (JArr (map JStr (ignoredModels fv)))"
  by (rule overlay_update [OF assms], simp add: update_settings_def Let_def js_inject)+

lemma azure_shown:
  "json_or (if c \<and> json_truthy (json_or v JNull) then Some (json_or v JNull) else None) d = json_or (if c then v else None) d"
  by (auto simp: json_or_def split: option.splits if_splits)

lemma some_if: "json_or (if c then Some (json_or v d) else None) d = json_or (if c then v else None) d"
  by (simp add: json_or_twice json_or_null(3))

lemma flag_shown: "(if c then Some (flag b) else None) = Some (JBool True) \<longleftrightarrow> c \<and> b = Some True"
  by simp


definition sample_form :: ChannelFormValues where
  "sample_form = CHANNEL_FORM_DEFAULT_VALUES\<lparr>fv_name := js ''custom'', fv_type := 58, fv_models := js ''gpt-4o'',
     fv_base_url := Some (js ''https://api.example.com/''),
     fv_advanced_custom := Some (stringify_indented (config_json createAdvancedCustomConfig))\<rparr>"

definition sample_channel :: Channel where
  "sample_channel = \<lparr>ch_id = 7, ch_type = 58, ch_key = [], ch_openai_organization = None, ch_test_model = None, ch_status = 1,
     ch_backup_channel_id = None, ch_name = js ''custom'', ch_weight = None, ch_created_time = 0, ch_test_time = 0,
     ch_response_time = 0, ch_base_url = None, ch_other = [], ch_balance = 0, ch_balance_updated_time = 0,
     ch_models = js ''gpt-4o'', ch_group = js ''default'', ch_used_quota = 0, ch_quota_limit = 0, ch_model_mapping = None,
     ch_disabled_models = [], ch_status_code_mapping = None, ch_priority = None, ch_auto_ban = None, ch_other_info = [],
     ch_tag = None, ch_setting = Some (buildSettingJSON sample_form), ch_param_override = None, ch_header_override = None,
     ch_remark = [], ch_max_input_tokens = 0,
     ch_channel_info = \<lparr>ci_is_multi_key = False, ci_multi_key_size = 0, ci_multi_key_status_list = None,
       ci_multi_key_polling_index = 0, ci_multi_key_mode = js ''random''\<rparr>,
     ch_settings = stringify (JObj (settingsEntries sample_form (stored_entries sample_form)))\<rparr>"

lemma sample_form_facts:
  "isOptionalJsonObject (fv_settings sample_form)" "wf_json (JObj (stored_entries sample_form))"
  "parseAdvancedCustomConfig (fv_advanced_custom sample_form) = Some createAdvancedCustomConfig"
  "wf_json (config_json createAdvancedCustomConfig)"
  by (code_simp, code_simp, code_simp, code_simp)

lemma sample_form_wf: "wf_form sample_form"
  using sample_form_facts by (simp add: wf_form_def wf_value_def) (simp add: sample_form_def CHANNEL_FORM_DEFAULT_VALUES_def)


section \<open>Payloads\<close>

lemma keys_emptyToNull: "map fst (emptyToNull ps) = map fst ps"
  by (simp add: emptyToNull_def comp_def case_prod_unfold)

lemma map_of_emptyToNull:
  "map_of (emptyToNull ps) k = map_option (\<lambda>v. if v = JStr [] then JNull else v) (map_of ps k)"
  unfolding emptyToNull_def by (induction ps) (simp_all split: prod.split)

lemma base_url_normal:
  "normalizeBaseUrl v = [] \<or> last (normalizeBaseUrl v) \<noteq> 47"
  "\<exists>n. trim (text_of v) = normalizeBaseUrl v @ replicate n 47"
proof -
  let ?r = "rev (trim (text_of v))"
  show "normalizeBaseUrl v = [] \<or> last (normalizeBaseUrl v) \<noteq> 47"
    using hd_dropWhile [of "\<lambda>c. c = 47" ?r] by (auto simp: normalizeBaseUrl_def last_rev)
  have "takeWhile (\<lambda>c. c = 47) ?r = replicate (length (takeWhile (\<lambda>c. c = 47) ?r)) 47"
    by (auto intro: replicate_eqI dest: set_takeWhileD)
  moreover have "trim (text_of v) = rev (dropWhile (\<lambda>c. c = 47) ?r) @ rev (takeWhile (\<lambda>c. c = 47) ?r)"
    by (metis rev_append rev_rev_ident takeWhile_dropWhile_id)
  ultimately show "\<exists>n. trim (text_of v) = normalizeBaseUrl v @ replicate n 47"
    unfolding normalizeBaseUrl_def by (metis rev_replicate)
qed

lemma cleared_names: "map fst (clearedFields fv) = map js [''base_url'', ''openai_organization'', ''test_model'', ''tag'',
    ''remark'', ''model_mapping'', ''status_code_mapping'', ''param_override'', ''header_override'', ''disabled_models'']"
  by (simp add: clearedFields_def)

lemma cleared_distinct: "distinct (map fst (clearedFields fv))" "js ''key'' \<notin> set (map fst (clearedFields fv))"
  unfolding cleared_names by (code_simp, code_simp)

lemma map_of_store_texts:
  "distinct (map fst ts) \<Longrightarrow> map_of (foldl (\<lambda>p (k, s). obj_set k (JStr s) p) ps ts) k
     = (case map_of ts k of Some s \<Rightarrow> Some (JStr s) | None \<Rightarrow> map_of ps k)"
proof (induction ts arbitrary: ps)
  case (Cons t ts)
  then have "map_of ts (fst t) = None" by (simp add: map_of_eq_None_iff)
  with Cons show ?case by (cases t) (auto simp: map_of_obj_set split: option.split)
qed simp

lemma update_names_distinct: "map_of (updateEntries fv i s) (js ''key'') = None"
  by (simp add: updateEntries_def js_inject)

text \<open>
  The payload of an update is exact: the fields that can be cleared are sent as the text of the form, the empty one
  included; the key is sent only when one was entered, so that saving never erases the stored
  key; every other field is the form's, with \<open>null\<close> for an empty text.
\<close>

theorem update_payload_exact:
  assumes "buildSettingsJSON fv = Inr s"
  shows "\<exists>p. transformFormDataToUpdatePayload fv channelId = Inr p \<and> (\<forall>k. map_of p k =
    (case map_of (clearedFields fv) k of
       Some t \<Rightarrow> Some (JStr t)
     | None \<Rightarrow> if k = js ''key'' then (if trim (fv_key fv) = [] then None else Some (JStr (fv_key fv)))
               else map_option (\<lambda>v. if v = JStr [] then JNull else v) (map_of (updateEntries fv channelId s) k)))"
proof -
  have key: "fv_key fv \<noteq> [] \<and> trim (fv_key fv) \<noteq> [] \<longleftrightarrow> trim (fv_key fv) \<noteq> []" by auto
  have "map_of (clearedFields fv) (js ''key'') = None"
    using cleared_distinct(2) by (simp add: map_of_eq_None_iff)
  then show ?thesis
    unfolding transformFormDataToUpdatePayload_def assms sum.case Let_def key
    by (auto simp: map_of_store_texts [OF cleared_distinct(1)] map_of_emptyToNull map_of_obj_set update_names_distinct
        split: option.split)
qed

theorem update_payload_exact_witness:
  "\<exists>s p. buildSettingsJSON sample_form = Inr s \<and> transformFormDataToUpdatePayload sample_form 7 = Inr p
    \<and> map_of p (js ''base_url'') = Some (JStr (js ''https://api.example.com'')) \<and> map_of p (js ''key'') = None
    \<and> map_of p (js ''tag'') = Some (JStr []) \<and> map_of p (js ''other'') = Some JNull"
proof -
  obtain s where s: "buildSettingsJSON sample_form = Inr s" using build_settings [OF sample_form_facts(1)] by blast
  have "map_of (clearedFields sample_form) (js ''base_url'') = Some (js ''https://api.example.com'')"
    "map_of (clearedFields sample_form) (js ''tag'') = Some []" "map_of (clearedFields sample_form) (js ''key'') = None"
    "map_of (clearedFields sample_form) (js ''other'') = None" "trim (fv_key sample_form) = []" "js ''other'' \<noteq> js ''key''"
    by (code_simp, code_simp, code_simp, code_simp, code_simp, code_simp)
  moreover have "map_of (updateEntries sample_form 7 s) (js ''other'') = Some (JStr [])"
    by (simp add: updateEntries_def js_inject sample_form_def CHANNEL_FORM_DEFAULT_VALUES_def text_of_def)
  ultimately show ?thesis using s update_payload_exact [OF s, of 7] by fastforce
qed

text \<open>
  The payload that creates a channel has no empty text, and its base URL is the form's without white
  space around it and without slashes at the end.
\<close>

theorem create_payload_clean:
  assumes "transformFormDataToCreatePayload fv = Inr p"
  shows "list_all (\<lambda>(k, v). v \<noteq> JStr []) (cp_channel p)
    \<and> (\<exists>u n. map_of (cp_channel p) (js ''base_url'') = Some (if u = [] then JNull else JStr u)
         \<and> trim (text_of (fv_base_url fv)) = u @ replicate n 47 \<and> (u = [] \<or> last u \<noteq> 47))"
proof
  obtain s where p: "cp_channel p = emptyToNull (createEntries fv s)"
    using assms by (auto simp: transformFormDataToCreatePayload_def Let_def split: sum.splits)
  show "list_all (\<lambda>(k, v). v \<noteq> JStr []) (cp_channel p)"
    unfolding p emptyToNull_def by (simp add: list_all_iff case_prod_unfold)
  have "map_of (cp_channel p) (js ''base_url'')
      = Some (if normalizeBaseUrl (fv_base_url fv) = [] then JNull else JStr (normalizeBaseUrl (fv_base_url fv)))"
    unfolding p map_of_emptyToNull by (simp add: createEntries_def js_inject text_or_null_def text_of_def)
  then show "\<exists>u n. map_of (cp_channel p) (js ''base_url'') = Some (if u = [] then JNull else JStr u)
         \<and> trim (text_of (fv_base_url fv)) = u @ replicate n 47 \<and> (u = [] \<or> last u \<noteq> 47)"
    using base_url_normal [of "fv_base_url fv"] by blast
qed

theorem create_payload_clean_witness:
  "\<exists>p. transformFormDataToCreatePayload sample_form = Inr p \<and> list_all (\<lambda>(k, v). v \<noteq> JStr []) (cp_channel p)
    \<and> map_of (cp_channel p) (js ''base_url'') = Some (JStr (js ''https://api.example.com''))"
proof -
  obtain p s where p: "transformFormDataToCreatePayload sample_form = Inr p" "cp_channel p = emptyToNull (createEntries sample_form s)"
    using build_settings [OF sample_form_facts(1)] by (auto simp: transformFormDataToCreatePayload_def Let_def)
  have u: "normalizeBaseUrl (fv_base_url sample_form) = js ''https://api.example.com''" by code_simp
  then have "map_of (cp_channel p) (js ''base_url'') = Some (JStr (js ''https://api.example.com''))"
    unfolding p(2) map_of_emptyToNull by (simp add: createEntries_def js_inject text_or_null_def text_of_def)
  with p(1) create_payload_clean [OF p(1)] show ?thesis by blast
qed

section \<open>A form without issues\<close>

lemma no_issue [simp]: "addRequiredIssue c path m is = [] \<longleftrightarrow> \<not> c \<and> is = []"
  by (simp add: addRequiredIssue_def)



section \<open>Lists\<close>

lemma groups_read_back:
  assumes "gs \<noteq> []" and "list_all (\<lambda>g. g \<noteq> [] \<and> trim g = g \<and> 44 \<notin> set g) gs"
  shows "parseGroups (formatGroups gs) = gs"
proof -
  have "split_char 44 (join [44] gs) = gs" using assms by (intro split_join) (auto simp: list_all_iff)
  moreover have "join [44] gs \<noteq> []" using assms by (cases "([44 :: nat], gs)" rule: join.cases) auto
  ultimately show ?thesis
    using assms(2) by (simp add: parseGroups_def formatGroups_def list_all_iff map_idI filter_id_conv)
qed

end
