(* ===== verification/ChannelList.thy ===== *)
theory ChannelList
  imports ChannelForm JsSort
begin

text \<open>
  The list of channels, \<open>features/channels/lib/channel-utils.ts\<close>: keys, models and groups, what needs
  attention, and the rows that collect the channels of a tag.

  The object of a tag row is shared by the map and the result list and updated in place, so the result is the list
  of the map's values. A tag row has the tag as its identifier, key and name and constants in the
  fields that are not listed in \<open>TagRow\<close>. \<open>null\<close> and \<open>undefined\<close> priorities are both \<open>None\<close>.
\<close>

section \<open>Keys\<close>

definition ellipsis :: jsstr where
  "ellipsis = js ''...''"

definition last_units :: "nat \<Rightarrow> jsstr \<Rightarrow> jsstr" where
  "last_units n s = drop (length s - n) s"

definition formatChannelKey :: "jsstr \<Rightarrow> bool \<Rightarrow> jsstr" where
  "formatChannelKey key isMultiKey =
     (if key = [] then []
      else if isMultiKey
      then nat_str (length (filter (\<lambda>k. trim k \<noteq> []) (split_char 10 key))) @ js '' keys''
      else if length key \<le> 16 then take 4 key @ ellipsis @ last_units 4 key
      else take 8 key @ ellipsis @ last_units 8 key)"

definition formatKeyPreview :: "jsstr \<Rightarrow> nat \<Rightarrow> jsstr" where
  "formatKeyPreview key maxLength =
     (if key = [] then [] else if length key \<le> maxLength then key else take maxLength key @ ellipsis)"

definition countKeys :: "jsstr \<Rightarrow> nat" where
  "countKeys key = (if key = [] then 0 else length (filter (\<lambda>k. trim k \<noteq> []) (split_char 10 key)))"

record DedupResult =
  dd_deduplicatedText :: jsstr
  dd_beforeCount :: int
  dd_afterCount :: int
  dd_removedCount :: int

fun dedupLines :: "jsstr list \<Rightarrow> jsstr list \<Rightarrow> jsstr list" where
  "dedupLines [] keys = keys"
| "dedupLines (line # lines) keys =
     (let trimmedLine = trim line
      in dedupLines lines (if trimmedLine \<noteq> [] \<and> trimmedLine \<notin> set keys then keys @ [trimmedLine] else keys))"

definition deduplicateKeys :: "jsstr \<Rightarrow> DedupResult" where
  "deduplicateKeys keysText =
     (if keysText = [] \<or> trim keysText = []
      then \<lparr>dd_deduplicatedText = [], dd_beforeCount = 0, dd_afterCount = 0, dd_removedCount = 0\<rparr>
      else let keyLines = split_char 10 keysText; keys = dedupLines keyLines [];
               before = int (length keyLines); after = int (length keys)
           in \<lparr>dd_deduplicatedText = join [10] keys, dd_beforeCount = before, dd_afterCount = after,
               dd_removedCount = before - after\<rparr>)"

section \<open>Models, groups and settings\<close>

definition parseModelsList :: "jsstr \<Rightarrow> jsstr list" where
  "parseModelsList models = (if models = [] then [] else filter (\<lambda>m. length m > 0) (map trim (split_char 44 models)))"

text \<open>Two texts \<open>default\<close> are the same value, so the order in which the comparator puts them does not matter.\<close>

definition groupOrder :: "(jsstr \<Rightarrow> jsstr \<Rightarrow> rat) \<Rightarrow> jsstr \<Rightarrow> jsstr \<Rightarrow> rat" where
  "groupOrder localeCompare a b =
     (if a = js ''default'' then -1 else if b = js ''default'' then 1 else localeCompare a b)"

definition parseGroupsList :: "(jsstr \<Rightarrow> jsstr \<Rightarrow> rat) \<Rightarrow> jsstr \<Rightarrow> jsstr list" where
  "parseGroupsList localeCompare groups =
     (if groups = [] then []
      else js_sort (groupOrder localeCompare) (filter (\<lambda>g. length g > 0) (map trim (split_char 44 groups))))"

definition formatModelsString :: "jsstr list \<Rightarrow> jsstr" where
  "formatModelsString models = join [44] models"

definition formatGroupsString :: "jsstr list \<Rightarrow> jsstr" where
  "formatGroupsString groups = join [44] groups"

definition parseChannelSettings :: "jsstr option \<Rightarrow> json" where
  "parseChannelSettings settingStr =
     (if text_of settingStr = [] then JObj []
      else case json_parse (text_of settingStr) of Some j \<Rightarrow> j | None \<Rightarrow> JObj [])"

definition parseChannelOtherSettings :: "jsstr option \<Rightarrow> json" where
  "parseChannelOtherSettings settingsStr =
     (if text_of settingsStr = [] \<or> text_of settingsStr = js ''{}'' then JObj []
      else case json_parse (text_of settingsStr) of Some j \<Rightarrow> j | None \<Rightarrow> JObj [])"

definition validateChannelSettings :: "jsstr \<Rightarrow> bool" where
  "validateChannelSettings settings = (if settings = [] \<or> trim settings = [] then True else json_parse settings \<noteq> None)"

definition validateChannelName :: "jsstr \<Rightarrow> bool" where
  "validateChannelName name \<longleftrightarrow> length (trim name) > 0"

definition validateApiKey :: "jsstr \<Rightarrow> bool" where
  "validateApiKey key \<longleftrightarrow> length (trim key) > 0"

definition validateModels :: "jsstr \<Rightarrow> bool" where
  "validateModels models \<longleftrightarrow> length (parseModelsList models) > 0"

definition validateGroups :: "(jsstr \<Rightarrow> jsstr \<Rightarrow> rat) \<Rightarrow> jsstr \<Rightarrow> bool" where
  "validateGroups localeCompare groups \<longleftrightarrow> length (parseGroupsList localeCompare groups) > 0"

section \<open>State of a channel\<close>

definition isChannelEnabled :: "Channel \<Rightarrow> bool" where
  "isChannelEnabled channel \<longleftrightarrow> ch_status channel = 1"

definition isMultiKeyChannel :: "Channel \<Rightarrow> bool" where
  "isMultiKeyChannel channel \<longleftrightarrow> ci_is_multi_key (ch_channel_info channel)"

datatype BalanceVariant = BalanceNeutral | BalanceDanger | BalanceWarning | BalanceSuccess

definition getBalanceVariant :: "rat \<Rightarrow> BalanceVariant" where
  "getBalanceVariant balance =
     (if balance = 0 then BalanceNeutral else if balance < 1 then BalanceDanger
      else if balance < 10 then BalanceWarning else BalanceSuccess)"

definition getPriorityDisplay :: "rat option \<Rightarrow> jsstr" where
  "getPriorityDisplay priority = (case priority of None \<Rightarrow> js ''0'' | Some p \<Rightarrow> num_str p)"

definition getWeightDisplay :: "rat option \<Rightarrow> jsstr" where
  "getWeightDisplay weight = (case weight of None \<Rightarrow> js ''0'' | Some w \<Rightarrow> num_str w)"

definition allKeysDisabled :: "Channel \<Rightarrow> bool" where
  "allKeysDisabled channel =
     (let info = ch_channel_info channel
      in ci_is_multi_key info
         \<and> (case ci_multi_key_status_list info of
              None \<Rightarrow> False | Some l \<Rightarrow> ci_multi_key_size info \<le> of_nat (length l)))"

definition channelNeedsAttention :: "Channel \<Rightarrow> bool" where
  "channelNeedsAttention channel =
     (if ch_status channel = 3 then True
      else if ch_balance channel > 0 \<and> ch_balance channel < 1 then True
      else if allKeysDisabled channel then True else False)"

definition getAttentionReason :: "Channel \<Rightarrow> jsstr option" where
  "getAttentionReason channel =
     (if ch_status channel = 3 then Some (js ''Auto-disabled'')
      else if ch_balance channel > 0 \<and> ch_balance channel < 1 then Some (js ''Low balance'')
      else if allKeysDisabled channel then Some (js ''All keys disabled'') else None)"

section \<open>Rows of tags\<close>

record TagRow =
  tr_first :: Channel
  tr_tag :: jsstr
  tr_status :: "rat option"
  tr_group :: jsstr
  tr_used_quota :: rat
  tr_response_time :: rat
  tr_priority :: "rat option"
  tr_weight :: "rat option"
  tr_children :: "Channel list"

definition newTagRow :: "Channel \<Rightarrow> jsstr \<Rightarrow> TagRow" where
  "newTagRow channel tag =
     \<lparr>tr_first = channel, tr_tag = tag, tr_status = None, tr_group = [], tr_used_quota = 0, tr_response_time = 0,
      tr_priority = Some (-1), tr_weight = Some (-1), tr_children = []\<rparr>"

definition sameOrNull :: "rat option \<Rightarrow> rat option \<Rightarrow> rat option" where
  "sameOrNull current v = (if current = Some (-1) then v else if current \<noteq> v then None else current)"

definition mergeGroups :: "jsstr \<Rightarrow> jsstr \<Rightarrow> jsstr" where
  "mergeGroups current added =
     (if current = [] then added
      else let existingGroups = filter (\<lambda>g. g \<noteq> []) (split_char 44 current);
               newGroups = filter (\<lambda>g. g \<noteq> []) (split_char 44 added)
           in foldl (\<lambda>acc g. if g \<notin> set existingGroups then acc @ 44 # g else acc) current newGroups)"

definition addToRow :: "TagRow \<Rightarrow> Channel \<Rightarrow> TagRow" where
  "addToRow row channel =
     (let children = tr_children row @ [channel]; childCount = of_nat (length children)
      in row\<lparr>tr_children := children,
             tr_used_quota := tr_used_quota row + ch_used_quota channel,
             tr_response_time := (tr_response_time row * (childCount - 1) + ch_response_time channel) / childCount,
             tr_priority := sameOrNull (tr_priority row) (ch_priority channel),
             tr_weight := sameOrNull (tr_weight row) (ch_weight channel),
             tr_group := mergeGroups (tr_group row) (ch_group channel),
             tr_status := (if ch_status channel = 1 then Some 1
                           else if tr_status row = None then Some (ch_status channel) else tr_status row)\<rparr>)"

definition tagStep :: "(jsstr \<times> TagRow) list \<Rightarrow> Channel \<Rightarrow> (jsstr \<times> TagRow) list" where
  "tagStep tagMap channel =
     (let tag = text_of (ch_tag channel);
          row = (case map_of tagMap tag of Some r \<Rightarrow> r | None \<Rightarrow> newTagRow channel tag)
      in al_put tag (addToRow row channel) tagMap)"

definition aggregateChannelsByTag :: "Channel list \<Rightarrow> TagRow list" where
  "aggregateChannelsByTag channels = map snd (foldl tagStep [] channels)"

end
