(* ===== verification/ChannelListRules.thy ===== *)
theory ChannelListRules
  imports ChannelList JsObject
begin

text \<open>
  Correctness of the channel list: the rows of tags collect exactly the channels of their tag, deduplicating
  keys loses none, and the reason for attention agrees with the flag.
\<close>

section \<open>Rows of tags\<close>

abbreviation tag_of :: "Channel \<Rightarrow> jsstr" where
  "tag_of c \<equiv> text_of (ch_tag c)"

definition row_of :: "Channel list \<Rightarrow> jsstr \<Rightarrow> TagRow" where
  "row_of cs t = foldl addToRow (newTagRow (hd cs) t) cs"

lemma row_of_snoc: "cs \<noteq> [] \<Longrightarrow> row_of (cs @ [c]) t = addToRow (row_of cs t) c"
  by (simp add: row_of_def)

lemma row_of_one: "row_of [c] t = addToRow (newTagRow c t) c"
  by (simp add: row_of_def)

lemma tagStep_lookup:
  "map_of (foldl tagStep [] chs) t =
     (let cs = filter (\<lambda>c. tag_of c = t) chs in if cs = [] then None else Some (row_of cs t))"
proof (induction chs arbitrary: t rule: rev_induct)
  case (snoc c chs)
  define m where "m = foldl tagStep [] chs"
  have step: "foldl tagStep [] (chs @ [c]) = tagStep m c" by (simp add: m_def)
  show ?case
    unfolding step using snoc [folded m_def] by (simp add: tagStep_def Let_def map_of_al_put row_of_snoc row_of_one)
qed simp

lemma dedup_acc_snoc:
  "dedup_acc seen (xs @ [x]) = dedup_acc seen xs @ (if x \<in> set seen \<union> set xs then [] else [x])"
  by (induction seen xs rule: dedup_acc.induct) auto

lemma tagStep_keys: "map fst (foldl tagStep [] chs) = dedup (map (\<lambda>c. tag_of c) chs)"
proof (induction chs rule: rev_induct)
  case (snoc c chs)
  define m where "m = foldl tagStep [] chs"
  then have keys: "map fst m = dedup (map (\<lambda>c. tag_of c) chs)" using snoc by simp
  then have "fst ` set m = tag_of ` set chs" by (metis set_dedup set_map)
  moreover have step: "foldl tagStep [] (chs @ [c]) = tagStep m c" by (simp add: m_def)
  ultimately show ?case
    unfolding step using keys by (simp add: tagStep_def Let_def fst_al_put dedup_def dedup_acc_snoc)
qed simp

lemma aggregate_eq:
  "aggregateChannelsByTag chs = map (\<lambda>t. row_of (filter (\<lambda>c. tag_of c = t) chs) t) (dedup (map (\<lambda>c. tag_of c) chs))"
proof -
  let ?m = "foldl tagStep [] chs"
  have "distinct (map fst ?m)" by (simp add: tagStep_keys)
  then have "map snd ?m = map (\<lambda>k. the (map_of ?m k)) (map fst ?m)" by (auto simp: map_of_is_SomeI intro!: map_cong)
  moreover have "the (map_of ?m t) = row_of (filter (\<lambda>c. tag_of c = t) chs) t" if "t \<in> set (map fst ?m)" for t
    using that unfolding tagStep_keys tagStep_lookup by (auto simp: Let_def filter_empty_conv)
  ultimately show ?thesis unfolding aggregateChannelsByTag_def by (simp add: tagStep_keys)
qed

section \<open>One row\<close>

definition groups_of :: "jsstr \<Rightarrow> jsstr set" where
  "groups_of s = set (filter (\<lambda>g. g \<noteq> []) (split_char 44 s))"

lemma split_snoc: "44 \<notin> set g \<Longrightarrow> split_char 44 (s @ 44 # g) = split_char 44 s @ [g]"
proof (induction s)
  case (Cons c s)
  then show ?case by (cases "split_char 44 s") auto
qed (simp add: split_char_free)

lemma groups_merge: "groups_of (mergeGroups a b) = groups_of a \<union> groups_of b"
proof (cases "a = []")
  case False
  let ?old = "filter (\<lambda>g. g \<noteq> []) (split_char 44 a)"
  have "groups_of (foldl (\<lambda>acc g. if g \<notin> set ?old then acc @ 44 # g else acc) s gs)
      = groups_of s \<union> (set gs - set ?old)" if "\<forall>g \<in> set gs. 44 \<notin> set g \<and> g \<noteq> []" for s gs
    using that by (induction gs arbitrary: s) (auto simp: groups_of_def split_snoc)
  from this [of "filter (\<lambda>g. g \<noteq> []) (split_char 44 b)" a] False show ?thesis
    by (auto simp: mergeGroups_def Let_def groups_of_def dest: split_char_no_sep)
qed (simp add: mergeGroups_def groups_of_def)

lemma row_fields:
  assumes "cs \<noteq> []"
  shows "tr_tag (row_of cs t) = t \<and> tr_children (row_of cs t) = cs
    \<and> tr_used_quota (row_of cs t) = sum_list (map ch_used_quota cs)
    \<and> tr_response_time (row_of cs t) = sum_list (map ch_response_time cs) / of_nat (length cs)
    \<and> tr_status (row_of cs t) = Some (if list_ex isChannelEnabled cs then 1 else ch_status (hd cs))
    \<and> groups_of (tr_group (row_of cs t)) = (\<Union>c \<in> set cs. groups_of (ch_group c))"
  using assms
proof (induction cs rule: rev_nonempty_induct)
  case (single c)
  then show ?case
    by (simp add: row_of_one addToRow_def newTagRow_def Let_def isChannelEnabled_def groups_merge) (simp add: groups_of_def)
next
  case (snoc c cs)
  then have "(of_nat (length cs) :: rat) \<noteq> 0" by simp
  with snoc show ?case
    by (auto simp: row_of_snoc addToRow_def Let_def isChannelEnabled_def groups_merge field_simps list_ex_iff)
qed

text \<open>Where no channel has the priority that marks an empty row.\<close>

lemma same_or_null:
  assumes "cs \<noteq> []" and "Some (-1) \<notin> set (map f cs)"
  shows "foldl sameOrNull (Some (-1)) (map f cs) = (if list_all (\<lambda>c. f c = f (hd cs)) cs then f (hd cs) else None)"
  using assms
proof (induction cs rule: rev_nonempty_induct)
  case (snoc c cs)
  then have "f (hd cs) \<noteq> Some (-1)" by (cases cs) auto
  with snoc show ?case by (auto simp: sameOrNull_def)
qed (simp add: sameOrNull_def)

lemma row_priority:
  "cs \<noteq> [] \<Longrightarrow> tr_priority (row_of cs t) = foldl sameOrNull (Some (-1)) (map ch_priority cs)
     \<and> tr_weight (row_of cs t) = foldl sameOrNull (Some (-1)) (map ch_weight cs)"
  by (induction cs rule: rev_nonempty_induct)
    (simp_all add: row_of_one row_of_snoc addToRow_def newTagRow_def Let_def)

text \<open>What the row of a tag must be, from the channels of that tag.\<close>

definition row_exact :: "Channel list \<Rightarrow> TagRow \<Rightarrow> bool" where
  "row_exact channels row =
     (let cs = filter (\<lambda>c. tag_of c = tr_tag row) channels
      in cs \<noteq> [] \<and> tr_children row = cs
         \<and> tr_used_quota row = sum_list (map ch_used_quota cs)
         \<and> tr_response_time row = sum_list (map ch_response_time cs) / of_nat (length cs)
         \<and> tr_status row = Some (if list_ex isChannelEnabled cs then 1 else ch_status (hd cs))
         \<and> groups_of (tr_group row) = (\<Union>c \<in> set cs. groups_of (ch_group c))
         \<and> (Some (-1) \<notin> ch_priority ` set cs \<longrightarrow>
              tr_priority row = (if list_all (\<lambda>c. ch_priority c = ch_priority (hd cs)) cs then ch_priority (hd cs) else None))
         \<and> (Some (-1) \<notin> ch_weight ` set cs \<longrightarrow>
              tr_weight row = (if list_all (\<lambda>c. ch_weight c = ch_weight (hd cs)) cs then ch_weight (hd cs) else None)))"

text \<open>
  C22. Grouping channels by tag is exact: one row for each tag, in the order in which the tags first appear; its
  children are the channels of the tag, its quota their sum, its response time their average, its
  groups the union of theirs; it is enabled when one of them is; and its priority and weight are the common
  ones, unless -1 is among them.
\<close>

theorem tag_rows_exact:
  "map tr_tag (aggregateChannelsByTag channels) = dedup (map (\<lambda>c. tag_of c) channels)
   \<and> list_all (row_exact channels) (aggregateChannelsByTag channels)"
proof -
  let ?cs = "\<lambda>t. filter (\<lambda>c. tag_of c = t) channels"
  have ne: "?cs t \<noteq> []" if "t \<in> set (dedup (map (\<lambda>c. tag_of c) channels))" for t
    using that by (auto simp: filter_empty_conv)
  have exact: "row_exact channels (row_of (?cs t) t)" if "?cs t \<noteq> []" for t
    using row_fields [OF that, of t] row_priority [OF that, of t]
      same_or_null [OF that, of ch_priority] same_or_null [OF that, of ch_weight] that
    unfolding row_exact_def Let_def set_map by simp
  have "map tr_tag (aggregateChannelsByTag channels) = dedup (map (\<lambda>c. tag_of c) channels)"
    unfolding aggregate_eq map_map by (rule map_idI) (use row_fields ne in auto)
  moreover have "list_all (row_exact channels) (aggregateChannelsByTag channels)"
    unfolding aggregate_eq list_all_iff using ne exact by auto
  ultimately show ?thesis ..
qed

text \<open>With the priority -1 the row takes the priority of the next channel instead of showing that they differ.\<close>

lemma marker_priority: "sameOrNull (sameOrNull (Some (-1)) (Some (-1))) (Some 3) = Some 3"
  by code_simp

section \<open>Keys\<close>

lemma dedup_acc_seen: "set seen = set seen' \<Longrightarrow> dedup_acc seen xs = dedup_acc seen' xs"
proof (induction xs arbitrary: seen seen')
  case (Cons x xs)
  from Cons.IH [of "x # seen" "x # seen'"] Cons.IH [of seen seen'] Cons.prems show ?case by simp
qed simp

lemma dedupLines_eq: "dedupLines lines keys = keys @ dedup_acc keys (filter (\<lambda>k. k \<noteq> []) (map trim lines))"
proof (induction lines keys rule: dedupLines.induct)
  case (2 line lines keys)
  then show ?case
    using dedup_acc_seen [of "keys @ [trim line]" "trim line # keys"] by (simp add: Let_def)
qed simp

lemma join_units: "w \<in> set ws \<Longrightarrow> set w \<subseteq> set (join sep ws)"
  by (induction sep ws rule: join.induct) auto

lemma dedup_keys:
  assumes "trim raw \<noteq> []"
  shows "dd_deduplicatedText (deduplicateKeys raw) = join [10] (dedup (filter (\<lambda>k. k \<noteq> []) (map trim (split_char 10 raw))))"
  using assms by (cases "raw = []") (simp_all add: deduplicateKeys_def Let_def dedupLines_eq dedup_def)

lemma not_blank_line: "trim raw \<noteq> [] \<Longrightarrow> \<exists>k \<in> set (split_char 10 raw). trim k \<noteq> []"
proof (induction raw)
  case (Cons c cs)
  show ?case
  proof (cases "is_ws c")
    case True
    then have "trim cs \<noteq> []" using Cons.prems by (auto simp: trim_eq_Nil_iff)
    then obtain k where "k \<in> set (split_char 10 cs)" "trim k \<noteq> []" using Cons.IH by blast
    then show ?thesis by (cases "split_char 10 cs") (auto simp: trim_eq_Nil_iff)
  next
    case False
    then have "c \<noteq> 10" by (auto simp: is_ws_def)
    with False show ?thesis by (cases "split_char 10 cs") (auto simp: trim_eq_Nil_iff)
  qed
qed simp

text \<open>
  Removing duplicate keys loses none: the lines of the result are exactly the different keys of the text, trimmed and
  in the order of their first appearance; the counts add up; and a second run removes nothing.
\<close>

theorem dedup_keys_exact:
  assumes "trim raw \<noteq> []"
  shows "let r = deduplicateKeys raw; ks = split_char 10 (dd_deduplicatedText r) in
    ks = dedup (filter (\<lambda>k. k \<noteq> []) (map trim (split_char 10 raw)))
    \<and> dd_afterCount r = int (length ks) \<and> dd_beforeCount r = int (length (split_char 10 raw))
    \<and> dd_removedCount r = dd_beforeCount r - dd_afterCount r \<and> dd_removedCount r \<ge> 0
    \<and> dd_deduplicatedText (deduplicateKeys (dd_deduplicatedText r)) = dd_deduplicatedText r"
proof -
  let ?ks = "dedup (filter (\<lambda>k. k \<noteq> []) (map trim (split_char 10 raw)))"
  have ne: "?ks \<noteq> []" using not_blank_line [OF assms] by (auto simp: filter_empty_conv)
  have nl: "\<forall>k \<in> set ?ks. 10 \<notin> set k"
    using split_char_no_sep [of _ 10 raw] set_trim by (fastforce simp: image_iff)
  have sp: "split_char 10 (join [10] ?ks) = ?ks" by (rule split_join [OF ne nl])
  have clean: "filter (\<lambda>k. k \<noteq> []) (map trim ?ks) = ?ks"
  proof -
    have "map trim ?ks = ?ks" by (rule map_idI) auto
    then show ?thesis by (simp add: filter_id_conv)
  qed
  have len: "length ?ks \<le> length (split_char 10 raw)"
    by (metis (no_types, lifting) card_length distinct_card distinct_dedup le_trans length_filter_le length_map set_dedup)
  have t: "dd_deduplicatedText (deduplicateKeys raw) = join [10] ?ks" by (rule dedup_keys [OF assms])
  obtain k where k: "k \<in> set ?ks" using ne by (metis list.set_intros(1) neq_Nil_conv)
  then have "trim k \<noteq> []" by auto
  then have "trim (join [10] ?ks) \<noteq> []"
    using join_units [OF k, of "[10]"] unfolding trim_eq_Nil_iff by blast
  then have "dd_deduplicatedText (deduplicateKeys (join [10] ?ks)) = join [10] ?ks"
    by (simp add: dedup_keys sp clean dedup_id)
  moreover have "deduplicateKeys raw = \<lparr>dd_deduplicatedText = join [10] ?ks, dd_beforeCount = int (length (split_char 10 raw)),
      dd_afterCount = int (length ?ks), dd_removedCount = int (length (split_char 10 raw)) - int (length ?ks)\<rparr>"
    using assms by (cases "raw = []") (simp_all add: deduplicateKeys_def Let_def dedupLines_eq dedup_def)
  ultimately show ?thesis using sp len by (simp add: Let_def)
qed

theorem dedup_keys_exact_witness:
  "let raw = js ''sk-a'' @ 10 # js '' sk-b '' @ 10 # js ''sk-a''; r = deduplicateKeys raw; ks = split_char 10 (dd_deduplicatedText r) in
   trim raw \<noteq> [] \<and> ks = [js ''sk-a'', js ''sk-b''] \<and> ks = dedup (filter (\<lambda>k. k \<noteq> []) (map trim (split_char 10 raw)))
    \<and> dd_afterCount r = int (length ks) \<and> dd_beforeCount r = int (length (split_char 10 raw))
    \<and> dd_removedCount r = dd_beforeCount r - dd_afterCount r \<and> dd_removedCount r \<ge> 0
    \<and> dd_deduplicatedText (deduplicateKeys (dd_deduplicatedText r)) = dd_deduplicatedText r"
proof -
  let ?raw = "js ''sk-a'' @ 10 # js '' sk-b '' @ 10 # js ''sk-a''"
  have t: "trim ?raw \<noteq> []" by code_simp
  moreover have "split_char 10 (dd_deduplicatedText (deduplicateKeys ?raw)) = [js ''sk-a'', js ''sk-b'']" by code_simp
  ultimately show ?thesis using dedup_keys_exact [OF t] unfolding Let_def by blast
qed

text \<open>The mask of a long key shows at most sixteen of its units; a key of eight units is shown whole.\<close>

lemma long_key_masked:
  "length key > 16 \<Longrightarrow> formatChannelKey key False = take 8 key @ ellipsis @ last_units 8 key \<and> length (take 8 key @ last_units 8 key) = 16"
  by (auto simp: formatChannelKey_def last_units_def)

lemma short_key_shown: "length key = 8 \<Longrightarrow> formatChannelKey key False = take 4 key @ ellipsis @ drop 4 key"
  by (auto simp: formatChannelKey_def last_units_def)

lemma attention_reason: "channelNeedsAttention c \<longleftrightarrow> getAttentionReason c \<noteq> None"
  by (simp add: channelNeedsAttention_def getAttentionReason_def)

end
