(* ===== verification/Currency.thy ===== *)
theory Currency
  imports JsNumber JsRegex "HOL-Library.Word"
begin

unbundle bit_operations_syntax

text \<open>
  Amounts of money and quota: \<open>stores/system-config-store.ts\<close> with the settings of the site,
  \<open>hooks/use-system-config.ts\<close> that fills it from the server, \<open>lib/currency.ts\<close> that shows amounts
  and \<open>lib/format.ts\<close> that converts, counts and colours.

  \<open>Intl.NumberFormat\<close> and \<open>Intl.RelativeTimeFormat\<close>, whose output depends on the locale data of the browser,
  and the package \<open>dayjs\<close> are arguments; \<open>toFixed\<close>, \<open>Math.round\<close> and the 32-bit operators are defined
  here. Amounts are exact rationals below $10^{21}$, where \<open>toFixed\<close> prints digits, or one of the values that are not finite.
\<close>

section \<open>Numbers\<close>

text \<open>The flag of an infinite amount is its sign.\<close>

datatype js_amount = Amount rat | NoAmount | Infinite bool

text \<open>\<open>n * f / d\<close>\<close>

definition num_scale :: "rat \<Rightarrow> rat \<Rightarrow> js_amount \<Rightarrow> js_amount" where
  "num_scale f d n =
     (case n of
        NoAmount \<Rightarrow> NoAmount
      | Amount r \<Rightarrow> if d \<noteq> 0 then Amount (r * f / d) else if r * f = 0 then NoAmount else Infinite (r * f < 0)
      | Infinite neg \<Rightarrow> if f = 0 then NoAmount else Infinite ((neg \<noteq> (f < 0)) \<noteq> (d < 0)))"

definition math_round :: "rat \<Rightarrow> int" where
  "math_round x = \<lfloor>x + 1 / 2\<rfloor>"

text \<open>\<open>x.toFixed(d)\<close>: the digits of the nearest multiple of \<open>10\<^sup>-\<^sup>d\<close>, the larger one of two.\<close>

definition fixed_digits :: "nat \<Rightarrow> nat \<Rightarrow> jsstr" where
  "fixed_digits n d =
     (let m = nat_str n; padded = replicate (Suc d - length m) 48 @ m
      in if d = 0 then m else take (length padded - d) padded @ 46 # drop (length padded - d) padded)"

definition to_fixed :: "rat \<Rightarrow> nat \<Rightarrow> jsstr" where
  "to_fixed x d =
     (if x < 0 then 45 # fixed_digits (nat (math_round (- x * 10 ^ d))) d
      else fixed_digits (nat (math_round (x * 10 ^ d))) d)"

definition amount_fixed :: "js_amount \<Rightarrow> nat \<Rightarrow> jsstr" where
  "amount_fixed a d =
     (case a of Amount x \<Rightarrow> to_fixed x d | NoAmount \<Rightarrow> js ''NaN''
      | Infinite neg \<Rightarrow> if neg then js ''-Infinity'' else js ''Infinity'')"

text \<open>\<open>Math.abs(a) >= k\<close>\<close>

definition abs_at_least :: "rat \<Rightarrow> js_amount \<Rightarrow> bool" where
  "abs_at_least k a = (case a of Amount x \<Rightarrow> k \<le> \<bar>x\<bar> | NoAmount \<Rightarrow> False | Infinite _ \<Rightarrow> True)"

section \<open>The settings of the site\<close>

record CurrencyConfig =
  cc_displayInCurrency :: bool
  cc_quotaDisplayType :: jsstr
  cc_quotaPerUnit :: rat
  cc_usdExchangeRate :: rat
  cc_customCurrencySymbol :: jsstr
  cc_customCurrencyExchangeRate :: rat

definition DEFAULT_CURRENCY_CONFIG :: CurrencyConfig where
  "DEFAULT_CURRENCY_CONFIG =
     \<lparr>cc_displayInCurrency = True, cc_quotaDisplayType = js ''USD'', cc_quotaPerUnit = 500000,
      cc_usdExchangeRate = 1, cc_customCurrencySymbol = [164], cc_customCurrencyExchangeRate = 1\<rparr>"

record SystemConfig =
  sc_systemName :: jsstr
  sc_logo :: jsstr
  sc_footerHtml :: "jsstr option"
  sc_demoSiteEnabled :: "bool option"
  sc_displayTokenStatEnabled :: "bool option"
  sc_currency :: CurrencyConfig

definition DEFAULT_SYSTEM_NAME :: jsstr where "DEFAULT_SYSTEM_NAME = js ''Xinghai API''"
definition DEFAULT_LOGO :: jsstr where "DEFAULT_LOGO = js ''/logo.png''"

record SystemConfigState =
  ss_config :: SystemConfig
  ss_loading :: bool
  ss_loadedLogoUrl :: jsstr

definition initialSystemConfig :: SystemConfigState where
  "initialSystemConfig =
     \<lparr>ss_config = \<lparr>sc_systemName = DEFAULT_SYSTEM_NAME, sc_logo = DEFAULT_LOGO, sc_footerHtml = None,
        sc_demoSiteEnabled = None, sc_displayTokenStatEnabled = None, sc_currency = DEFAULT_CURRENCY_CONFIG\<rparr>,
      ss_loading = True, ss_loadedLogoUrl = DEFAULT_LOGO\<rparr>"

text \<open>
  \<open>setConfig\<close> is called with nothing (\<open>None\<close>) or with every property, because these are the results of \<open>mapStatusDataToConfig\<close>.
\<close>

definition setConfig :: "SystemConfig option \<Rightarrow> SystemConfigState \<Rightarrow> SystemConfigState" where
  "setConfig newConfig st = (case newConfig of None \<Rightarrow> st | Some c \<Rightarrow> st\<lparr>ss_config := c\<rparr>)"

definition setLoadedLogoUrl :: "jsstr \<Rightarrow> SystemConfigState \<Rightarrow> SystemConfigState" where
  "setLoadedLogoUrl url st = st\<lparr>ss_loadedLogoUrl := url\<rparr>"

definition setLoading :: "bool \<Rightarrow> SystemConfigState \<Rightarrow> SystemConfigState" where
  "setLoading loading st = st\<lparr>ss_loading := loading\<rparr>"

record StatusData =
  sd_system_name :: "jsstr option"
  sd_logo :: "jsstr option"
  sd_footer_html :: "jsstr option"
  sd_demo_site_enabled :: "bool option"
  sd_display_token_stat_enabled :: "bool option"
  sd_display_in_currency :: "bool option"
  sd_quota_display_type :: "jsstr option"
  sd_quota_per_unit :: "json option"
  sd_usd_exchange_rate :: "json option"
  sd_custom_currency_symbol :: "jsstr option"
  sd_custom_currency_exchange_rate :: "json option"

definition toNumber :: "json option \<Rightarrow> rat \<Rightarrow> rat" where
  "toNumber v fallback =
     (case v of
        Some (JNum r) \<Rightarrow> r
      | Some (JStr s) \<Rightarrow> (case text_number s of Num r \<Rightarrow> r | NaN \<Rightarrow> fallback)
      | _ \<Rightarrow> fallback)"

definition or_default :: "'a option \<Rightarrow> 'a \<Rightarrow> 'a" where
  "or_default v d = (case v of Some x \<Rightarrow> x | None \<Rightarrow> d)"

definition mapStatusDataToConfig :: "StatusData option \<Rightarrow> SystemConfig option" where
  "mapStatusDataToConfig data =
     (case data of
        None \<Rightarrow> None
      | Some d \<Rightarrow>
          let D = DEFAULT_CURRENCY_CONFIG;
              currency =
                \<lparr>cc_displayInCurrency = or_default (sd_display_in_currency d) (cc_displayInCurrency D),
                 cc_quotaDisplayType = or_default (sd_quota_display_type d) (cc_quotaDisplayType D),
                 cc_quotaPerUnit = toNumber (sd_quota_per_unit d) (cc_quotaPerUnit D),
                 cc_usdExchangeRate = toNumber (sd_usd_exchange_rate d) (cc_usdExchangeRate D),
                 cc_customCurrencySymbol =
                   str_or (map_option trim (sd_custom_currency_symbol d)) (cc_customCurrencySymbol D),
                 cc_customCurrencyExchangeRate =
                   toNumber (sd_custom_currency_exchange_rate d) (cc_customCurrencyExchangeRate D)\<rparr>
          in Some \<lparr>sc_systemName = str_or (sd_system_name d) DEFAULT_SYSTEM_NAME,
                   sc_logo = str_or (sd_logo d) DEFAULT_LOGO, sc_footerHtml = sd_footer_html d,
                   sc_demoSiteEnabled = sd_demo_site_enabled d,
                   sc_displayTokenStatEnabled = sd_display_token_stat_enabled d, sc_currency = currency\<rparr>)"

text \<open>
  \<open>loadConfig\<close>: the reply is \<open>None\<close> when the request fails, its body has the flag \<open>success\<close> and the data.
\<close>

definition loadSystemConfig :: "(bool \<times> StatusData option) option \<Rightarrow> SystemConfigState \<Rightarrow> SystemConfigState" where
  "loadSystemConfig reply st =
     (let st1 = setLoading True st;
          st2 = (case reply of
                   Some (True, data) \<Rightarrow> setConfig (mapStatusDataToConfig data) st1
                 | _ \<Rightarrow> st1)
      in setLoading False st2)"

definition logoLoaded :: "SystemConfigState \<Rightarrow> bool" where
  "logoLoaded st \<longleftrightarrow> sc_logo (ss_config st) = ss_loadedLogoUrl st \<and> ss_loadedLogoUrl st \<noteq> []"

section \<open>How amounts are shown\<close>

record IntlOptions =
  io_locale :: "jsstr option"
  io_style :: "jsstr option"
  io_currency :: "jsstr option"
  io_currencyDisplay :: "jsstr option"
  io_notation :: "jsstr option"
  io_minimumFractionDigits :: "nat option"
  io_maximumFractionDigits :: nat

text \<open>What the functions read from outside: the settings and the number format of the browser.\<close>

record CurrencyEnv =
  ce_state :: SystemConfigState
  ce_intl :: "IntlOptions \<Rightarrow> js_amount \<Rightarrow> jsstr"

record CurrencyFormatOptions =
  fo_digitsLarge :: "nat option"
  fo_digitsSmall :: "nat option"
  fo_abbreviate :: "bool option"
  fo_minimumNonZero :: "rat option"
  fo_compact :: "bool option"
  fo_showSymbol :: "bool option"
  fo_locale :: "jsstr option"

record ResolvedCurrencyFormatOptions =
  ro_digitsLarge :: nat
  ro_digitsSmall :: nat
  ro_abbreviate :: bool
  ro_minimumNonZero :: rat
  ro_compact :: bool
  ro_showSymbol :: bool
  ro_locale :: "jsstr option"

datatype DisplayMeta = MetaCurrency jsstr jsstr rat | MetaCustom jsstr rat | MetaTokens rat

definition DEFAULT_FORMAT_OPTIONS :: ResolvedCurrencyFormatOptions where
  "DEFAULT_FORMAT_OPTIONS =
     \<lparr>ro_digitsLarge = 2, ro_digitsSmall = 4, ro_abbreviate = True, ro_minimumNonZero = 0, ro_compact = False,
      ro_showSymbol = True, ro_locale = None\<rparr>"

definition DISPLAY_TYPE_VALUES :: "jsstr list" where
  "DISPLAY_TYPE_VALUES = [js ''USD'', js ''CNY'', js ''TOKENS'', js ''CUSTOM'']"

definition isCurrencyDisplayType :: "json \<Rightarrow> bool" where
  "isCurrencyDisplayType v = (case v of JStr s \<Rightarrow> s \<in> set DISPLAY_TYPE_VALUES | _ \<Rightarrow> False)"

definition parseCurrencyDisplayType :: "json \<Rightarrow> jsstr \<Rightarrow> jsstr" where
  "parseCurrencyDisplayType v fallback =
     (case v of JStr s \<Rightarrow> if isCurrencyDisplayType v then s else fallback | _ \<Rightarrow> fallback)"

definition positive_or :: "rat \<Rightarrow> rat \<Rightarrow> rat" where
  "positive_or v d = (if v > 0 then v else d)"

definition getConfig :: "SystemConfigState \<Rightarrow> CurrencyConfig" where
  "getConfig st =
     (let currency = sc_currency (ss_config st); D = DEFAULT_CURRENCY_CONFIG
      in currency\<lparr>cc_quotaPerUnit := positive_or (cc_quotaPerUnit currency) (cc_quotaPerUnit D),
           cc_usdExchangeRate := positive_or (cc_usdExchangeRate currency) (cc_usdExchangeRate D),
           cc_customCurrencyExchangeRate :=
             positive_or (cc_customCurrencyExchangeRate currency) (cc_customCurrencyExchangeRate D),
           cc_customCurrencySymbol :=
             str_or (Some (trim (cc_customCurrencySymbol currency))) (cc_customCurrencySymbol D)\<rparr>)"

definition getDisplayMeta :: "CurrencyConfig \<Rightarrow> DisplayMeta" where
  "getDisplayMeta config =
     (if cc_quotaDisplayType config = js ''CNY'' then MetaCurrency [165] (js ''CNY'') (cc_usdExchangeRate config)
      else if cc_quotaDisplayType config = js ''CUSTOM''
           then MetaCustom (cc_customCurrencySymbol config) (cc_customCurrencyExchangeRate config)
      else if cc_quotaDisplayType config = js ''TOKENS'' then MetaTokens (cc_quotaPerUnit config)
      else MetaCurrency (js ''$'') (js ''USD'') 1)"

definition is_tokens :: "DisplayMeta \<Rightarrow> bool" where
  "is_tokens meta = (case meta of MetaTokens _ \<Rightarrow> True | _ \<Rightarrow> False)"

definition getBillingDisplayMeta :: "CurrencyConfig \<Rightarrow> DisplayMeta" where
  "getBillingDisplayMeta config =
     (let meta = getDisplayMeta config
      in if is_tokens meta then MetaCurrency (js ''$'') (js ''USD'') 1 else meta)"

definition mergeOptions :: "CurrencyFormatOptions option \<Rightarrow> ResolvedCurrencyFormatOptions" where
  "mergeOptions options =
     (let D = DEFAULT_FORMAT_OPTIONS
      in case options of
           None \<Rightarrow> D
         | Some p \<Rightarrow>
             \<lparr>ro_digitsLarge = or_default (fo_digitsLarge p) (ro_digitsLarge D),
              ro_digitsSmall = or_default (fo_digitsSmall p) (ro_digitsSmall D),
              ro_abbreviate = or_default (fo_abbreviate p) (ro_abbreviate D),
              ro_minimumNonZero = or_default (fo_minimumNonZero p) (ro_minimumNonZero D),
              ro_compact = or_default (fo_compact p) (ro_compact D),
              ro_showSymbol = or_default (fo_showSymbol p) (ro_showSymbol D),
              ro_locale = (case fo_locale p of Some l \<Rightarrow> Some l | None \<Rightarrow> ro_locale D)\<rparr>)"

text \<open>\<open>/(\\.[0-9]*?)0+$/\<close> and \<open>/\\.$/\<close>\<close>

definition TRAILING_ZEROS_RE :: regex where
  "TRAILING_ZEROS_RE = cat [Grp 1 (Sq (Lit [46]) (Lazy (Cls is_digit))), Plus (Lit [48]), Eol]"

definition FINAL_DOT_RE :: regex where
  "FINAL_DOT_RE = cat [Lit [46], Eol]"

definition removeTrailingZeros :: "jsstr \<Rightarrow> jsstr" where
  "removeTrailingZeros str =
     (if 46 \<notin> set str then str
      else re_replace_first FINAL_DOT_RE 0 (re_replace_first TRAILING_ZEROS_RE 1 str))"

definition formatNumberWithSuffix :: "js_amount \<Rightarrow> nat \<Rightarrow> nat \<Rightarrow> bool \<Rightarrow> jsstr" where
  "formatNumberWithSuffix v digitsLarge digitsSmall abbreviate =
     (if abbreviate \<and> abs_at_least 1000 v
      then removeTrailingZeros (amount_fixed (num_scale 1 1000 v) 1) @ js ''k''
      else let digits = (if abs_at_least 1 v then digitsLarge else digitsSmall)
           in removeTrailingZeros (amount_fixed v digits))"

definition adjustForMinimum :: "js_amount \<Rightarrow> nat \<Rightarrow> rat \<Rightarrow> js_amount" where
  "adjustForMinimum v digits minimumNonZero =
     (case v of
        Amount x \<Rightarrow>
          if x = 0 then v
          else let threshold = (if minimumNonZero > 0 then minimumNonZero else 1 / 10 ^ digits)
               in if \<bar>x\<bar> < threshold then Amount (if x > 0 then threshold else - threshold) else v
      | _ \<Rightarrow> v)"

definition decimal_format :: "ResolvedCurrencyFormatOptions \<Rightarrow> nat \<Rightarrow> IntlOptions" where
  "decimal_format options digits =
     \<lparr>io_locale = ro_locale options, io_style = None, io_currency = None, io_currencyDisplay = None,
      io_notation = Some (if ro_compact options then js ''compact'' else js ''standard''),
      io_minimumFractionDigits = Some 0,
      io_maximumFractionDigits = (if ro_compact options then 1 else digits)\<rparr>"

definition compact_format :: "jsstr option \<Rightarrow> IntlOptions" where
  "compact_format locale' =
     \<lparr>io_locale = locale', io_style = None, io_currency = None, io_currencyDisplay = None,
      io_notation = Some (js ''compact''), io_minimumFractionDigits = None, io_maximumFractionDigits = 1\<rparr>"

definition formatCurrencyValue ::
  "CurrencyEnv \<Rightarrow> js_amount \<Rightarrow> ResolvedCurrencyFormatOptions \<Rightarrow> DisplayMeta \<Rightarrow> jsstr" where
  "formatCurrencyValue env v options meta =
     (let digits = (if abs_at_least 1 v then ro_digitsLarge options else ro_digitsSmall options);
          adjustedValue = adjustForMinimum v digits (ro_minimumNonZero options)
      in case meta of
           MetaTokens _ \<Rightarrow>
             (if ro_compact options then ce_intl env (compact_format (ro_locale options)) v
              else formatNumberWithSuffix v (ro_digitsLarge options) (ro_digitsSmall options) (ro_abbreviate options))
         | MetaCurrency symbol currencyCode _ \<Rightarrow>
             (if \<not> ro_showSymbol options then ce_intl env (decimal_format options digits) adjustedValue
              else ce_intl env ((decimal_format options digits)\<lparr>io_style := Some (js ''currency''),
                     io_currency := Some currencyCode, io_currencyDisplay := Some (js ''narrowSymbol'')\<rparr>) adjustedValue)
         | MetaCustom symbol _ \<Rightarrow>
             (let decimal' = ce_intl env (decimal_format options digits) adjustedValue
              in if ro_showSymbol options then symbol @ js '' '' @ decimal' else decimal'))"

definition getCurrencyDisplay :: "CurrencyEnv \<Rightarrow> CurrencyConfig \<times> DisplayMeta" where
  "getCurrencyDisplay env = (let config = getConfig (ce_state env) in (config, getDisplayMeta config))"

text \<open>\<open>exchangeRate\<close>, which only amounts of money have.\<close>

definition meta_rate :: "DisplayMeta \<Rightarrow> rat" where
  "meta_rate meta = (case meta of MetaCurrency _ _ r \<Rightarrow> r | MetaCustom _ r \<Rightarrow> r | MetaTokens _ \<Rightarrow> 1)"

definition formatCurrencyFromUSD :: "CurrencyEnv \<Rightarrow> js_amount option \<Rightarrow> CurrencyFormatOptions option \<Rightarrow> jsstr" where
  "formatCurrencyFromUSD env amountUSD options =
     (case amountUSD of
        None \<Rightarrow> js ''-''
      | Some NoAmount \<Rightarrow> js ''-''
      | Some a \<Rightarrow>
          let (config, meta) = getCurrencyDisplay env; merged = mergeOptions options
          in if is_tokens meta then
               let tokens = num_scale (cc_quotaPerUnit config) 1 a
               in if ro_compact merged then ce_intl env (compact_format (ro_locale merged)) tokens
                  else formatNumberWithSuffix tokens 0 (ro_digitsSmall merged) (ro_abbreviate merged)
             else formatCurrencyValue env (num_scale (meta_rate meta) 1 a) merged meta)"

definition formatBillingCurrencyFromUSD ::
  "CurrencyEnv \<Rightarrow> js_amount option \<Rightarrow> CurrencyFormatOptions option \<Rightarrow> jsstr" where
  "formatBillingCurrencyFromUSD env amountUSD options =
     (case amountUSD of
        None \<Rightarrow> js ''-''
      | Some NoAmount \<Rightarrow> js ''-''
      | Some a \<Rightarrow>
          let meta = getBillingDisplayMeta (fst (getCurrencyDisplay env)); merged = mergeOptions options;
              v = (if is_tokens meta then a else num_scale (meta_rate meta) 1 a)
          in formatCurrencyValue env v merged meta)"

definition formatQuotaWithCurrency :: "CurrencyEnv \<Rightarrow> js_amount option \<Rightarrow> CurrencyFormatOptions option \<Rightarrow> jsstr" where
  "formatQuotaWithCurrency env quota options =
     (case quota of
        None \<Rightarrow> js ''-''
      | Some NoAmount \<Rightarrow> js ''-''
      | Some q \<Rightarrow>
          formatCurrencyFromUSD env (Some (num_scale 1 (cc_quotaPerUnit (fst (getCurrencyDisplay env))) q)) options)"

definition getCurrencyLabel :: "CurrencyEnv \<Rightarrow> jsstr" where
  "getCurrencyLabel env =
     (let (config, meta) = getCurrencyDisplay env
      in if is_tokens meta then js ''Tokens''
         else if cc_quotaDisplayType config = js ''CNY'' then js ''CNY''
         else if cc_quotaDisplayType config = js ''CUSTOM''
              then (case meta of MetaCustom symbol _ \<Rightarrow> symbol | _ \<Rightarrow> js ''Custom'')
         else js ''USD'')"

definition isCurrencyDisplayEnabled :: "CurrencyEnv \<Rightarrow> bool" where
  "isCurrencyDisplayEnabled env \<longleftrightarrow> \<not> is_tokens (snd (getCurrencyDisplay env))"

definition formatLocalCurrencyAmount ::
  "CurrencyEnv \<Rightarrow> js_amount option \<Rightarrow> CurrencyFormatOptions option \<Rightarrow> jsstr" where
  "formatLocalCurrencyAmount env amount options =
     (case amount of
        None \<Rightarrow> js ''-''
      | Some NoAmount \<Rightarrow> js ''-''
      | Some a \<Rightarrow>
          formatCurrencyValue env a (mergeOptions options) (getBillingDisplayMeta (fst (getCurrencyDisplay env))))"
section \<open>Quota, counts and colours\<close>

definition format_options :: "nat \<Rightarrow> nat \<Rightarrow> bool \<Rightarrow> CurrencyFormatOptions option" where
  "format_options digitsLarge digitsSmall abbreviate =
     Some \<lparr>fo_digitsLarge = Some digitsLarge, fo_digitsSmall = Some digitsSmall, fo_abbreviate = Some abbreviate,
           fo_minimumNonZero = None, fo_compact = None, fo_showSymbol = None, fo_locale = None\<rparr>"

definition formatNumber :: "CurrencyEnv \<Rightarrow> js_amount option \<Rightarrow> jsstr option \<Rightarrow> jsstr" where
  "formatNumber env v locales =
     (case v of
        None \<Rightarrow> js ''-''
      | Some NoAmount \<Rightarrow> js ''-''
      | Some a \<Rightarrow> ce_intl env \<lparr>io_locale = locales, io_style = None, io_currency = None, io_currencyDisplay = None,
                   io_notation = None, io_minimumFractionDigits = None, io_maximumFractionDigits = 2\<rparr> a)"

definition formatCompactNumber :: "CurrencyEnv \<Rightarrow> js_amount option \<Rightarrow> jsstr option \<Rightarrow> jsstr" where
  "formatCompactNumber env v locales =
     (case v of
        None \<Rightarrow> js ''-''
      | Some NoAmount \<Rightarrow> js ''-''
      | Some a \<Rightarrow> ce_intl env (compact_format locales) a)"

definition formatPercent :: "CurrencyEnv \<Rightarrow> js_amount option \<Rightarrow> jsstr" where
  "formatPercent env v =
     (case v of
        None \<Rightarrow> js ''-''
      | Some NoAmount \<Rightarrow> js ''-''
      | Some a \<Rightarrow> ce_intl env \<lparr>io_locale = None, io_style = Some (js ''percent''), io_currency = None,
                   io_currencyDisplay = None, io_notation = None, io_minimumFractionDigits = None,
                   io_maximumFractionDigits = 2\<rparr> (num_scale 1 100 a))"

definition formatCurrencyUSD :: "CurrencyEnv \<Rightarrow> js_amount option \<Rightarrow> jsstr" where
  "formatCurrencyUSD env v = formatCurrencyFromUSD env v None"

definition formatQuota :: "CurrencyEnv \<Rightarrow> js_amount \<Rightarrow> jsstr" where
  "formatQuota env quota = formatQuotaWithCurrency env (Some quota) (format_options 2 4 True)"

definition formatLogQuota :: "CurrencyEnv \<Rightarrow> js_amount \<Rightarrow> jsstr" where
  "formatLogQuota env quota = formatQuotaWithCurrency env (Some quota) (format_options 4 6 False)"

definition parseQuotaFromDollars :: "CurrencyEnv \<Rightarrow> js_amount \<Rightarrow> int" where
  "parseQuotaFromDollars env amount =
     (case amount of
        Amount a \<Rightarrow>
          (let (config, meta) = getCurrencyDisplay env
           in if is_tokens meta then math_round a
              else let exchangeRate = meta_rate meta;
                       usdAmount = (if exchangeRate > 0 then a / exchangeRate else a)
                   in math_round (usdAmount * cc_quotaPerUnit config))
      | _ \<Rightarrow> 0)"

definition quotaUnitsToDollars :: "CurrencyEnv \<Rightarrow> rat \<Rightarrow> rat" where
  "quotaUnitsToDollars env units =
     (let (config, meta) = getCurrencyDisplay env
      in if is_tokens meta then units else units / cc_quotaPerUnit config * meta_rate meta)"

definition formatTokens :: "rat \<Rightarrow> jsstr" where
  "formatTokens tokens =
     (if tokens = 0 then js ''-''
      else if tokens < 1000 then num_str tokens
      else if tokens < 1000000 then to_fixed (tokens / 1000) 1 @ js ''K''
      else to_fixed (tokens / 1000000) 2 @ js ''M'')"

definition formatUseTime :: "rat \<Rightarrow> jsstr" where
  "formatUseTime seconds =
     (if seconds < 60 then to_fixed seconds 1 @ js ''s''
      else let minutes = \<lfloor>seconds / 60\<rfloor>; remainingSeconds = seconds - 60 * of_int \<lfloor>seconds / 60\<rfloor>
           in int_str minutes @ js ''m '' @ to_fixed remainingSeconds 0 @ js ''s'')"

text \<open>The unit of a time stamp.\<close>

datatype TimeUnit = Seconds | Milliseconds

definition no_time :: "rat option \<Rightarrow> bool" where
  "no_time timestamp \<longleftrightarrow> timestamp = None \<or> timestamp = Some 0 \<or> timestamp = Some (-1)"

definition to_ms :: "rat option \<Rightarrow> TimeUnit \<Rightarrow> rat" where
  "to_ms timestamp u = (case u of Seconds \<Rightarrow> the timestamp * 1000 | Milliseconds \<Rightarrow> the timestamp)"

definition formatTimestampToDate :: "(rat \<Rightarrow> jsstr \<Rightarrow> jsstr) \<Rightarrow> rat option \<Rightarrow> TimeUnit \<Rightarrow> jsstr" where
  "formatTimestampToDate dayjs timestamp u =
     (if no_time timestamp then js ''-'' else dayjs (to_ms timestamp u) (js ''YYYY-MM-DD HH:mm:ss''))"

definition formatTimestamp :: "(rat \<Rightarrow> jsstr \<Rightarrow> jsstr) \<Rightarrow> rat \<Rightarrow> jsstr" where
  "formatTimestamp dayjs timestamp =
     (if timestamp = -1 then js ''Never'' else formatTimestampToDate dayjs (Some timestamp) Seconds)"

definition formatTimestampForInput :: "(rat \<Rightarrow> jsstr \<Rightarrow> jsstr) \<Rightarrow> rat \<Rightarrow> jsstr" where
  "formatTimestampForInput dayjs timestamp =
     (if timestamp = -1 then [] else dayjs (timestamp * 1000) (js ''YYYY-MM-DDTHH:mm''))"

definition formatTimestampRelative :: "(int \<Rightarrow> jsstr \<Rightarrow> jsstr) \<Rightarrow> rat \<Rightarrow> rat option \<Rightarrow> TimeUnit \<Rightarrow> jsstr" where
  "formatTimestampRelative relative now timestamp u =
     (if no_time timestamp then js ''-''
      else let diffSeconds = math_round ((to_ms timestamp u - now) / 1000); absSeconds = \<bar>diffSeconds\<bar>;
               rounded = (\<lambda>k. math_round (of_int diffSeconds / k))
           in if absSeconds < 60 then relative diffSeconds (js ''second'')
              else if absSeconds < 3600 then relative (rounded 60) (js ''minute'')
              else if absSeconds < 86400 then relative (rounded 3600) (js ''hour'')
              else if absSeconds < 2592000 then relative (rounded 86400) (js ''day'')
              else if absSeconds < 31536000 then relative (rounded 2592000) (js ''month'')
              else relative (rounded 31536000) (js ''year''))"

text \<open>
  \<open>hash << 5\<close> and \<open>hash & hash\<close> work on 32-bit integers. The sum in between is a double, which holds it exactly and
  which \<open>&\<close> reduces again, so that the whole step is arithmetic on words. \<open>%\<close> keeps the sign of its left side.
\<close>

definition color_hash :: "jsstr \<Rightarrow> 32 word" where
  "color_hash str =
     foldl (\<lambda>hash c. let h = of_nat c + (push_bit 5 hash - hash) in h AND h) 0 str"

definition js_rem :: "int \<Rightarrow> int \<Rightarrow> int" where
  "js_rem a b = sgn a * (\<bar>a\<bar> mod \<bar>b\<bar>)"

definition stringToColor :: "jsstr \<Rightarrow> jsstr" where
  "stringToColor str =
     (if str = [] then js ''gray''
      else let hash = color_hash str;
               hue = \<bar>js_rem (sint hash) 360\<bar>;
               saturation = 65 + js_rem \<bar>sint hash\<bar> 10;
               lightness = 55 + js_rem \<bar>sint (signed_drop_bit 8 hash)\<bar> 10
           in js ''hsl('' @ int_str hue @ js '', '' @ int_str saturation @ js ''%, '' @ int_str lightness @ js ''%)'')"


end
