(* ===== verification/CurrencyRules.thy ===== *)
theory CurrencyRules
  imports Currency
begin

text \<open>
  What amounts and quota mean on the screen: conversions between quota and the displayed currency are
  inverse, numbers are shown as their nearest decimal without superfluous zeros, and colours stay in their range.
\<close>

section \<open>Settings\<close>

lemma math_round_int [simp]: "math_round (of_int u) = u"
  by (simp add: math_round_def floor_unique)

lemma config_positive:
  "0 < cc_quotaPerUnit (getConfig st)" "0 < cc_usdExchangeRate (getConfig st)"
  "0 < cc_customCurrencyExchangeRate (getConfig st)"
  by (simp_all add: getConfig_def Let_def positive_or_def DEFAULT_CURRENCY_CONFIG_def)

lemma rate_positive: "0 < meta_rate (getDisplayMeta (getConfig st))"
  by (simp add: getDisplayMeta_def meta_rate_def config_positive)

lemma quota_roundtrip:
  "parseQuotaFromDollars env (Amount (quotaUnitsToDollars env (of_int units))) = units"
proof -
  let ?c = "getConfig (ce_state env)"
  have "0 < cc_quotaPerUnit ?c" "0 < meta_rate (getDisplayMeta ?c)"
    using config_positive(1) rate_positive by blast+
  then show ?thesis by (simp add: parseQuotaFromDollars_def quotaUnitsToDollars_def getCurrencyDisplay_def Let_def)
qed

section \<open>Decimals\<close>

definition strip_zeros :: "jsstr \<Rightarrow> jsstr" where
  "strip_zeros ds = rev (dropWhile (\<lambda>c. c = 48) (rev ds))"

lemma strip_zeros_split:
  "ds = strip_zeros ds @ replicate (length ds - length (strip_zeros ds)) 48" "strip_zeros ds = [] \<or> last (strip_zeros ds) \<noteq> 48"
proof -
  let ?z = "takeWhile (\<lambda>c. c = 48) (rev ds)"
  have "rev ds = ?z @ rev (strip_zeros ds)" by (simp add: strip_zeros_def)
  then have "ds = strip_zeros ds @ rev ?z" by (metis rev_append rev_rev_ident)
  moreover have "rev ?z = replicate (length ?z) 48"
    by (metis (mono_tags, lifting) replicate_length_same rev_replicate set_takeWhileD)
  ultimately show "ds = strip_zeros ds @ replicate (length ds - length (strip_zeros ds)) 48"
    by (metis add_diff_cancel_left' length_append length_rev)
  show "strip_zeros ds = [] \<or> last (strip_zeros ds) \<noteq> 48"
    unfolding strip_zeros_def using hd_dropWhile [of "\<lambda>c. c = 48" "rev ds"] by (auto simp: last_rev)
qed

lemma frac_val_append: "frac_val (xs @ ys) = frac_val xs + frac_val ys / 10 ^ length xs"
  by (induction xs) (simp_all add: frac_val_def field_simps)

lemma frac_val_strip [simp]: "frac_val (strip_zeros ds) = frac_val ds"
proof -
  have "frac_val (replicate k 48) = 0" for k by (induction k) (simp_all add: frac_val_def)
  then show ?thesis using strip_zeros_split(1) [of ds] frac_val_append
    by (metis add.right_neutral div_0)
qed

lemma digits_val_append: "digits_val (xs @ ys) = digits_val xs * 10 ^ length ys + digits_val ys"
proof (induction ys rule: rev_induct)
  case (snoc c ys)
  then show ?case using digits_val_snoc [of "xs @ ys" c] by simp
qed (simp add: digits_val_def)

lemma frac_digits: "frac_val ds = of_nat (digits_val ds) / 10 ^ length ds"
proof (induction ds rule: rev_induct)
  case (snoc c ds)
  have "frac_val (ds @ [c]) = frac_val ds + of_nat (c - 48) / 10 / 10 ^ length ds"
    using frac_val_append [of ds "[c]"] by (simp add: frac_val_def)
  with snoc show ?case by (simp add: field_simps)
qed (simp add: frac_val_def digits_val_def)

lemma unsigned_decimal:
  assumes "is_number as" "list_all is_digit fs"
  shows "unsigned_number (as @ (if fs = [] then [] else 46 # fs)) = Num (of_nat (digits_val as) + frac_val fs)"
proof -
  have d: "list_all is_digit as" "as \<noteq> []" using assms by (simp_all add: is_number_def)
  have e: "parse_exp [] = Some (1, [])" by (simp add: parse_exp_def)
  have f: "takeWhile is_digit fs = fs" "dropWhile is_digit fs = []" using takeWhile_digits [OF assms(2), of "[]"] by auto
  show ?thesis
  proof (cases "fs = []")
    case True
    have "takeWhile is_digit as = as" "dropWhile is_digit as = []" using takeWhile_digits [OF d(1), of "[]"] by auto
    with True show ?thesis using d(2) e by (simp del: takeWhile_eq_all_conv dropWhile_eq_Nil_conv add: unsigned_number_def Let_def frac_val_def)
  next
    case False
    have "takeWhile is_digit (as @ 46 # fs) = as" "dropWhile is_digit (as @ 46 # fs) = 46 # fs"
      using takeWhile_digits [OF d(1), of "46 # fs"] by (simp_all add: is_digit_def)
    with False show ?thesis using d e f
      by (simp del: takeWhile_eq_all_conv dropWhile_eq_Nil_conv add: unsigned_number_def Let_def)
  qed
qed

lemma fixed_digits_parts:
  obtains as fs where "fixed_digits n d = as @ (if d = 0 then [] else 46 # fs)" "is_number as" "list_all is_digit fs"
    "length fs = d" "of_nat (digits_val as) + frac_val fs = of_nat n / (10 :: rat) ^ d"
proof -
  define p where "p = replicate (Suc d - length (nat_str n)) 48 @ nat_str n"
  let ?a = "take (length p - d) p" and ?f = "drop (length p - d) p"
  have len: "d < length p" using nat_str_digits [of n] by (cases "nat_str n") (simp_all add: p_def)
  have dig: "list_all is_digit p" using nat_str_digits [of n] by (auto simp: p_def list_all_iff is_digit_def)
  have "digits_val (replicate k 48) = 0" for k by (induction k) (simp_all add: digits_val_def)
  then have "digits_val p = n" unfolding p_def digits_val_append by simp
  then have val: "digits_val ?a * 10 ^ d + digits_val ?f = n"
    using digits_val_append [of ?a ?f] len by simp
  have split: "list_all is_digit ?a" "list_all is_digit ?f" "length ?f = d"
    using dig len by (auto simp: list_all_iff dest: in_set_takeD in_set_dropD)
  have "of_nat (digits_val ?a) + frac_val ?f = of_nat (digits_val ?a * 10 ^ d + digits_val ?f) / (10 :: rat) ^ d"
    by (simp only: frac_digits split(3)) (simp add: field_simps)
  also have "\<dots> = of_nat n / 10 ^ d" by (simp only: val)
  finally have sum: "of_nat (digits_val ?a) + frac_val ?f = of_nat n / (10 :: rat) ^ d" .
  have "fixed_digits n d = ?a @ (if d = 0 then [] else 46 # ?f)"
    using nat_str_digits [of n] by (cases "nat_str n") (simp_all add: fixed_digits_def Let_def p_def)
  moreover have "is_number ?a" using split len by (auto simp: is_number_def)
  ultimately show thesis using that split sum by blast
qed

section \<open>Superfluous zeros\<close>

lemma zeros_at_end:
  "run [Plus (Lit [48]), Eol] (pv, s, cap) = (if s \<noteq> [] \<and> list_all (\<lambda>c. c = 48) s then [(Some 48, [], cap)] else [])"
proof -
  have lit: "rmatch (Lit [48]) = rmatch (Cls (\<lambda>c. c = 48))"
    by (rule ext) (auto simp: lit_at_def adv_def split: list.splits prod.splits)
  have last_zero: "last (takeWhile (\<lambda>c. c = 48) t) = (48 :: nat)" if "takeWhile (\<lambda>c. c = 48) t \<noteq> []" for t
    using last_in_set [OF that] by (auto dest: set_takeWhileD)
  have star: "rmatch (Star (Lit [48])) = rmatch (Star (Cls (\<lambda>c. c = 48)))"
    by (rule ext) (simp only: rmatch.simps(6) lit)
  have "run [Plus (Lit [48]), Eol] (pv, s, cap) = run [Plus (Cls (\<lambda>c. c = 48)), Eol] (pv, s, cap)"
    by (simp only: run_def cat_simps Plus_def rmatch.simps(4) lit star)
  also have "\<dots> = (if takeWhile (\<lambda>c. c = 48) s = [] then []
      else run [Eol] (adv pv (takeWhile (\<lambda>c. c = 48) s), dropWhile (\<lambda>c. c = 48) s, cap))"
    by (rule run_Plus) (rule blocked_Eol)
  also have "\<dots> = (if s \<noteq> [] \<and> list_all (\<lambda>c. c = 48) s then [(Some 48, [], cap)] else [])"
    using last_zero by (cases s) (auto simp: run_Eol run_Nil adv_def list_all_iff)
  finally show ?thesis .
qed

lemma lazy_digits:
  "list_all is_digit ds \<Longrightarrow> lazy_iter (rmatch (Cls is_digit)) (length ds) (pv, ds, cap)
     = map (\<lambda>i. (adv pv (take i ds), drop i ds, cap)) [0..<Suc (length ds)]"
proof (induction ds arbitrary: pv)
  case (Cons c ds)
  have "[0..<Suc (length (c # ds))] = 0 # map Suc [0..<Suc (length ds)]" by (simp add: map_Suc_upt upt_conv_Cons del: upt_Suc)
  with Cons show ?case by (simp add: adv_def comp_def del: upt_Suc)
qed (simp add: adv_def)

lemma zeros_from_end:
  "drop i ds \<noteq> [] \<and> list_all (\<lambda>c. c = 48) (drop i ds) \<longleftrightarrow> length (strip_zeros ds) \<le> i \<and> i < length ds"
proof (cases "length (strip_zeros ds) \<le> i")
  case True
  have "drop i ds = drop (i - length (strip_zeros ds)) (replicate (length ds - length (strip_zeros ds)) 48)"
    using strip_zeros_split(1) [of ds] True by (metis append_Nil drop_all drop_append)
  then show ?thesis using True by (auto simp: list_all_iff)
next
  case False
  then have "strip_zeros ds \<noteq> []" by auto
  then have "last (strip_zeros ds) \<noteq> 48" using strip_zeros_split(2) by blast
  moreover have "last (strip_zeros ds) = last (drop i (strip_zeros ds))" "drop i (strip_zeros ds) \<noteq> []" using False by simp_all
  then have "last (strip_zeros ds) \<in> set (drop i (strip_zeros ds))" by (metis last_in_set)
  then have "last (strip_zeros ds) \<in> set (drop i ds)"
    using strip_zeros_split(1) [of ds] by (metis UnCI drop_append set_append)
  ultimately show ?thesis using False by (auto simp: list_all_iff)
qed

lemma concat_if: "concat (map (\<lambda>i. if P i then [f i] else []) xs) = map f (filter P xs)"
  by (induction xs) auto

lemma filter_upt: "filter (\<lambda>i. m \<le> i \<and> i < n) [0..<Suc n] = [m..<n]"
proof (cases "m \<le> n")
  case True
  then have "[0..<Suc n] = [0..<m] @ [m..<n] @ [n]" by (metis upt_Suc upt_add_eq_append append_assoc le_add_diff_inverse zero_le)
  then show ?thesis by simp
qed auto

lemma trailing_zeros_at:
  assumes "list_all is_digit ds"
  shows "run [Grp 1 (Sq (Lit [46]) (Lazy (Cls is_digit))), Plus (Lit [48]), Eol] (pv, 46 # ds, Map.empty)
    = map (\<lambda>i. (Some 48, [], [1 \<mapsto> 46 # take i ds])) [length (strip_zeros ds)..<length ds]"
proof -
  let ?z = "\<lambda>i. drop i ds \<noteq> [] \<and> list_all (\<lambda>c. c = 48) (drop i ds)"
  let ?m = "length (strip_zeros ds)"
  have "run [Grp 1 (Sq (Lit [46]) (Lazy (Cls is_digit))), Plus (Lit [48]), Eol] (pv, 46 # ds, Map.empty)
    = concat (map (\<lambda>i. if ?z i then [(Some 48, [], [1 \<mapsto> 46 # take i ds])] else []) [0..<Suc (length ds)])"
    unfolding run_Cons [of "Grp 1 _"] rmatch.simps(2,4,7,8)
    by (simp add: lit_at_def lazy_digits [OF assms] zeros_at_end comp_def del: upt_Suc)
      (rule arg_cong [where f = concat], rule map_cong [OF refl], simp add: Suc_diff_le)
  also have "\<dots> = map (\<lambda>i. (Some 48, [], [1 \<mapsto> 46 # take i ds])) (filter ?z [0..<Suc (length ds)])"
    by (rule concat_if)
  also have "filter ?z [0..<Suc (length ds)] = [?m..<length ds]"
    unfolding zeros_from_end by (rule filter_upt)
  finally show ?thesis .
qed

lemma search_skip:
  assumes "\<And>pv c s. c \<noteq> 46 \<Longrightarrow> rmatch r (pv, c # s, Map.empty) = []" "46 \<notin> set p"
  shows "\<exists>pv'. re_search r pv (p @ s) = re_search r pv' s"
  using assms(2)
proof (induction p arbitrary: pv)
  case (Cons c p)
  with assms(1) show ?case by (auto simp: re_search.simps [of r pv "c # p @ s"])
qed auto

lemma starts_with_dot:
  "c \<noteq> 46 \<Longrightarrow> rmatch TRAILING_ZEROS_RE (pv, c # s, Map.empty) = []" "rmatch TRAILING_ZEROS_RE (pv, [], Map.empty) = []"
  "c \<noteq> 46 \<Longrightarrow> rmatch FINAL_DOT_RE (pv, c # s, Map.empty) = []" "rmatch FINAL_DOT_RE (pv, [], Map.empty) = []"
  by (simp_all add: TRAILING_ZEROS_RE_def FINAL_DOT_RE_def cat_simps lit_at_def)

lemma digits_no_dot: "list_all is_digit ds \<Longrightarrow> 46 \<notin> set ds"
  by (auto simp: list_all_iff is_digit_def)

lemma no_dot_no_match:
  assumes "46 \<notin> set s"
  shows "re_search TRAILING_ZEROS_RE pv s = None" "re_search FINAL_DOT_RE pv s = None"
  using search_skip [OF starts_with_dot(1) assms, of pv "[]"] search_skip [OF starts_with_dot(3) assms, of pv "[]"]
  by (auto simp: re_search.simps [of _ _ "[]"] starts_with_dot(2,4))

lemma trailing_zeros_removed:
  assumes "46 \<notin> set p" "list_all is_digit fs"
  shows "re_replace_first TRAILING_ZEROS_RE 1 (p @ 46 # fs) = p @ 46 # strip_zeros fs"
proof -
  obtain pv where skip: "re_search TRAILING_ZEROS_RE None (p @ 46 # fs) = re_search TRAILING_ZEROS_RE pv (46 # fs)"
    using search_skip [OF starts_with_dot(1) assms(1)] by blast
  note at = trailing_zeros_at [OF assms(2), of pv, folded run_def, unfolded run_def, folded TRAILING_ZEROS_RE_def]
  note split = strip_zeros_split(1) [of fs]
  show ?thesis
  proof (cases "length (strip_zeros fs) < length fs")
    case True
    have "take (length (strip_zeros fs)) fs = strip_zeros fs" using split by (metis append_eq_conv_conj)
    with True show ?thesis
      by (simp add: re_replace_first_def skip re_search.simps [of _ _ "46 # fs"] at upt_conv_Cons)
  next
    case False
    then have "strip_zeros fs = fs" using split by (metis append_Nil2 diff_is_0_eq' leI replicate_0)
    with False show ?thesis using no_dot_no_match(1) [OF digits_no_dot [OF assms(2)]]
      by (simp add: re_replace_first_def skip re_search.simps [of _ _ "46 # fs"] at)
  qed
qed

lemma final_dot_removed:
  assumes "46 \<notin> set p" "list_all is_digit fs"
  shows "re_replace_first FINAL_DOT_RE 0 (p @ 46 # fs) = p @ (if fs = [] then [] else 46 # fs)"
proof -
  obtain pv where skip: "re_search FINAL_DOT_RE None (p @ 46 # fs) = re_search FINAL_DOT_RE pv (46 # fs)"
    using search_skip [OF starts_with_dot(3) assms(1)] by blast
  have "rmatch FINAL_DOT_RE (pv, 46 # fs, Map.empty) = (if fs = [] then [(Some 46, [], Map.empty)] else [])"
    by (simp add: FINAL_DOT_RE_def cat_simps lit_at_def adv_def)
  then show ?thesis using no_dot_no_match(2) [OF digits_no_dot [OF assms(2)]]
    by (simp add: re_replace_first_def skip re_search.simps [of _ _ "46 # fs"])
qed

lemma strip_zeros_digits: "list_all is_digit ds \<Longrightarrow> list_all is_digit (strip_zeros ds)"
  by (auto simp: strip_zeros_def list_all_iff dest: set_dropWhileD)

lemma removed_zeros:
  assumes "46 \<notin> set p" "list_all is_digit fs"
  shows "removeTrailingZeros (p @ 46 # fs) = p @ (if strip_zeros fs = [] then [] else 46 # strip_zeros fs)"
  using trailing_zeros_removed [OF assms] final_dot_removed [OF assms(1) strip_zeros_digits [OF assms(2)]]
  by (simp add: removeTrailingZeros_def)
lemma strip_zeros_end: "strip_zeros fs \<noteq> [] \<Longrightarrow> list_all is_digit fs \<Longrightarrow> last (strip_zeros fs) \<notin> {46, 48}"
  using strip_zeros_split(2) [of fs] digits_no_dot [OF strip_zeros_digits, of fs] by (metis insertE last_in_set singletonD)

lemma fixed_shown:
  obtains t where "removeTrailingZeros (fixed_digits n d) = t" "removeTrailingZeros (45 # fixed_digits n d) = 45 # t"
    "unsigned_number t = Num (of_nat n / 10 ^ d)" "t \<noteq> []" "hd t \<noteq> 45" "hd t \<noteq> 43" "\<not> (46 \<in> set t \<and> last t \<in> {46, 48})"
proof -
  obtain as fs where p: "fixed_digits n d = as @ (if d = 0 then [] else 46 # fs)" "is_number as" "list_all is_digit fs"
    "length fs = d" "of_nat (digits_val as) + frac_val fs = of_nat n / (10 :: rat) ^ d"
    using fixed_digits_parts .
  have a: "list_all is_digit as" "as \<noteq> []" "46 \<notin> set as" using p(2) digits_no_dot by (auto simp: is_number_def)
  let ?s = "strip_zeros fs" let ?t = "as @ (if ?s = [] then [] else 46 # ?s)"
  have s: "list_all is_digit ?s" using p(3) by (rule strip_zeros_digits)
  have "fs = []" if "d = 0" using p(4) that by simp
  then have r: "removeTrailingZeros (fixed_digits n d) = ?t" "removeTrailingZeros (45 # fixed_digits n d) = 45 # ?t"
    using removed_zeros [OF _ p(3), of as] removed_zeros [OF _ p(3), of "45 # as"] a(3) p(1)
    by (cases "d = 0"; simp add: removeTrailingZeros_def strip_zeros_def)+
  moreover have "unsigned_number ?t = Num (of_nat n / 10 ^ d)"
    using unsigned_decimal [OF p(2) s] p(5) by simp
  moreover have "hd ?t \<noteq> 45" "hd ?t \<noteq> 43" using a(1,2) by (cases as; auto simp: is_digit_def)+
  moreover have "\<not> (46 \<in> set ?t \<and> last ?t \<in> {46, 48})"
    using a(3) strip_zeros_end [OF _ p(3)] by (cases "?s = []") auto
  ultimately show thesis using that [of ?t] a(2) by simp
qed

lemma math_round_near: "\<bar>of_int (math_round x) - x\<bar> \<le> 1 / 2"
  unfolding math_round_def using floor_correct [of "x + 1 / 2"] by linarith

lemma to_fixed_shown:
  obtains y where "js_number (removeTrailingZeros (to_fixed x d)) = Num y" "\<bar>x - y\<bar> \<le> 1 / (2 * 10 ^ d)"
    "\<not> (46 \<in> set (removeTrailingZeros (to_fixed x d)) \<and> last (removeTrailingZeros (to_fixed x d)) \<in> {46, 48})"
proof -
  define n where "n = nat (math_round (\<bar>x\<bar> * 10 ^ d))"
  have "0 \<le> math_round (\<bar>x\<bar> * 10 ^ d)" by (simp add: math_round_def)
  then have "\<bar>of_nat n - \<bar>x\<bar> * 10 ^ d\<bar> \<le> 1 / 2" using math_round_near [of "\<bar>x\<bar> * 10 ^ d"] by (simp add: n_def)
  then have "\<bar>of_nat n - \<bar>x\<bar> * 10 ^ d\<bar> / 10 ^ d \<le> 1 / 2 / 10 ^ d" by (rule divide_right_mono) simp
  moreover have "\<bar>x\<bar> - of_nat n / 10 ^ d = - ((of_nat n - \<bar>x\<bar> * 10 ^ d) / 10 ^ d)" by (simp add: diff_divide_distrib)
  ultimately have near: "\<bar>\<bar>x\<bar> - of_nat n / 10 ^ d\<bar> \<le> 1 / (2 * 10 ^ d)" by (simp add: abs_divide)
  obtain t where t: "removeTrailingZeros (fixed_digits n d) = t" "removeTrailingZeros (45 # fixed_digits n d) = 45 # t"
    "unsigned_number t = Num (of_nat n / 10 ^ d)" "t \<noteq> []" "hd t \<noteq> 45" "hd t \<noteq> 43" "\<not> (46 \<in> set t \<and> last t \<in> {46, 48})"
    using fixed_shown .
  show thesis
  proof (cases "x < 0")
    case True
    then have "removeTrailingZeros (to_fixed x d) = 45 # t" using t(2) by (simp add: to_fixed_def n_def)
    with t True near show thesis using that [of "- (of_nat n / 10 ^ d)"] by (simp add: js_number_def)
  next
    case False
    then have "removeTrailingZeros (to_fixed x d) = t" using t(1) by (simp add: to_fixed_def n_def)
    moreover have "js_number t = Num (of_nat n / 10 ^ d)" using t(3-6) by (cases t) (auto simp: js_number_def)
    ultimately show thesis using that t(7) False near by simp
  qed
qed

text \<open>
  Counts are shown as their nearest decimal. The text is a number within half a unit of the last digit asked for, in thousands
  when it is abbreviated, and has neither a superfluous zero nor a final point.
\<close>

theorem shown_number_exact:
  "\<exists>t y. formatNumberWithSuffix (Amount x) digitsLarge digitsSmall abbreviate
       = t @ (if abbreviate \<and> 1000 \<le> \<bar>x\<bar> then js ''k'' else [])
     \<and> js_number t = Num y
     \<and> (if abbreviate \<and> 1000 \<le> \<bar>x\<bar> then \<bar>x - 1000 * y\<bar> \<le> 50
        else \<bar>x - y\<bar> \<le> 1 / (2 * 10 ^ (if 1 \<le> \<bar>x\<bar> then digitsLarge else digitsSmall)))
     \<and> \<not> (46 \<in> set t \<and> last t \<in> {46, 48})"
proof (cases "abbreviate \<and> 1000 \<le> \<bar>x\<bar>")
  case True
  obtain y where "js_number (removeTrailingZeros (to_fixed (x / 1000) 1)) = Num y" "\<bar>x / 1000 - y\<bar> \<le> 1 / (2 * 10 ^ 1)"
    "\<not> (46 \<in> set (removeTrailingZeros (to_fixed (x / 1000) 1)) \<and> last (removeTrailingZeros (to_fixed (x / 1000) 1)) \<in> {46, 48})"
    using to_fixed_shown .
  moreover from this(2) have "\<bar>x - 1000 * y\<bar> \<le> 50" unfolding power_one_right by linarith
  ultimately show ?thesis using True
    by (intro exI [of _ "removeTrailingZeros (to_fixed (x / 1000) 1)"] exI [of _ y])
      (simp add: formatNumberWithSuffix_def abs_at_least_def num_scale_def amount_fixed_def)
next
  case False
  let ?d = "if 1 \<le> \<bar>x\<bar> then digitsLarge else digitsSmall"
  obtain y where "js_number (removeTrailingZeros (to_fixed x ?d)) = Num y" "\<bar>x - y\<bar> \<le> 1 / (2 * 10 ^ ?d)"
    "\<not> (46 \<in> set (removeTrailingZeros (to_fixed x ?d)) \<and> last (removeTrailingZeros (to_fixed x ?d)) \<in> {46, 48})"
    using to_fixed_shown .
  moreover have "formatNumberWithSuffix (Amount x) digitsLarge digitsSmall abbreviate = removeTrailingZeros (to_fixed x ?d)"
    using False by (auto simp: formatNumberWithSuffix_def abs_at_least_def amount_fixed_def Let_def)
  ultimately show ?thesis using False by (intro exI [of _ "removeTrailingZeros (to_fixed x ?d)"] exI [of _ y]) simp
qed

section \<open>Quota\<close>


text \<open>
  The settings that count are those of the server. After a successful load the amounts are computed with the numbers that the server
  sent, given as numbers or texts, and with the defaults where these are missing or not positive; a failed load changes nothing but the flag.
\<close>

theorem loaded_settings:
  "(case reply of
      Some (True, Some d) \<Rightarrow>
        cc_quotaPerUnit (getConfig (loadSystemConfig reply st)) = positive_or (toNumber (sd_quota_per_unit d) 0) 500000
        \<and> cc_usdExchangeRate (getConfig (loadSystemConfig reply st)) = positive_or (toNumber (sd_usd_exchange_rate d) 0) 1
        \<and> cc_customCurrencyExchangeRate (getConfig (loadSystemConfig reply st))
            = positive_or (toNumber (sd_custom_currency_exchange_rate d) 0) 1
        \<and> cc_quotaDisplayType (getConfig (loadSystemConfig reply st)) = or_default (sd_quota_display_type d) (js ''USD'')
        \<and> cc_customCurrencySymbol (getConfig (loadSystemConfig reply st))
            = str_or (map_option trim (sd_custom_currency_symbol d)) [164]
        \<and> sc_systemName (ss_config (loadSystemConfig reply st)) = str_or (sd_system_name d) DEFAULT_SYSTEM_NAME
    | _ \<Rightarrow> getConfig (loadSystemConfig reply st) = getConfig st \<and> ss_config (loadSystemConfig reply st) = ss_config st)
   \<and> \<not> ss_loading (loadSystemConfig reply st) \<and> ss_loadedLogoUrl (loadSystemConfig reply st) = ss_loadedLogoUrl st"
proof (cases "\<exists>d. reply = Some (True, Some d)")
  case True
  then obtain d where r: "reply = Some (True, Some d)" by blast
  have number: "positive_or (toNumber v e) e = positive_or (toNumber v 0) e" if "0 < e" for v e
    using that by (cases v rule: option.exhaust; simp add: toNumber_def positive_or_def split: json.split jsnum.split)
  have symbol: "str_or (Some (trim (str_or (map_option trim s) [164]))) [164] = str_or (map_option trim s) [164]" for s
    by (cases s) (simp_all add: str_or_def trim_id is_ws_def)
  show ?thesis
    unfolding r
    by (simp add: loadSystemConfig_def setLoading_def setConfig_def mapStatusDataToConfig_def getConfig_def
        DEFAULT_CURRENCY_CONFIG_def Let_def number symbol)
next
  case False
  then show ?thesis
    by (auto simp: loadSystemConfig_def setLoading_def setConfig_def mapStatusDataToConfig_def getConfig_def Let_def
        split: option.split bool.split)
qed

section \<open>Colours\<close>

text \<open>The hash of a text in closed form: the polynomial with base 31, reduced to 32 bits.\<close>

definition poly_hash :: "jsstr \<Rightarrow> nat" where
  "poly_hash str = foldl (\<lambda>h c. 31 * h + c) 0 str"

lemma color_hash_poly: "color_hash str = of_nat (poly_hash str)"
proof (induction str rule: rev_induct)
  case (snoc c str)
  have "push_bit 5 h = 32 * h" for h :: "32 word" by (simp add: push_bit_eq_mult)
  with snoc show ?case by (simp add: color_hash_def poly_hash_def Let_def algebra_simps)
qed (simp add: color_hash_def poly_hash_def)

lemma int_str_nonneg: "0 \<le> i \<Longrightarrow> int_str i = nat_str (nat i)"
  by (simp add: int_str_def)

text \<open>
  A colour depends only on the polynomial hash of the text, and its parts stay in their ranges for every text, also when
  the hash is the least 32-bit integer.
\<close>

theorem color_in_range:
  "\<exists>hue saturation lightness. stringToColor str = (if str = [] then js ''gray'' else
       js ''hsl('' @ nat_str hue @ js '', '' @ nat_str saturation @ js ''%, '' @ nat_str lightness @ js ''%)'')
     \<and> hue < 360 \<and> 65 \<le> saturation \<and> saturation < 75 \<and> 55 \<le> lightness \<and> lightness < 65
     \<and> color_hash str = of_nat (poly_hash str) \<and> int hue = \<bar>sint (color_hash str)\<bar> mod 360"
proof -
  let ?h = "sint (color_hash str)" and ?l = "\<bar>sint (signed_drop_bit 8 (color_hash str))\<bar>"
  have rem: "\<bar>js_rem a 360\<bar> = \<bar>a\<bar> mod 360" "js_rem \<bar>a\<bar> 10 = \<bar>a\<bar> mod 10" for a
    by (simp_all add: js_rem_def abs_mult sgn_if)
  have mod: "int_str (\<bar>a\<bar> mod m) = nat_str (nat (\<bar>a\<bar> mod m))" if "0 < m" for a m :: int
    using that by (intro int_str_nonneg pos_mod_sign)
  have add: "int_str (k + \<bar>a\<bar> mod 10) = nat_str (nat (k + \<bar>a\<bar> mod 10))" if "0 \<le> k" for a k :: int
    using that by (intro int_str_nonneg) simp
  have low: "65 \<le> nat (65 + \<bar>a\<bar> mod 10)" "55 \<le> nat (55 + \<bar>a\<bar> mod 10)" for a :: int
    using pos_mod_sign [of 10 "\<bar>a\<bar>"] by linarith+
  show ?thesis
    by (rule exI [of _ "nat (\<bar>?h\<bar> mod 360)"], rule exI [of _ "nat (65 + \<bar>?h\<bar> mod 10)"], rule exI [of _ "nat (55 + ?l mod 10)"])
      (simp add: stringToColor_def Let_def rem mod add low color_hash_poly nat_less_iff)
qed

section \<open>Modes of display\<close>

text \<open>Billing amounts are shown as in a site that displays dollars when it displays tokens, and as everywhere else otherwise.\<close>

definition without_tokens :: "CurrencyEnv \<Rightarrow> CurrencyEnv" where
  "without_tokens env =
     (if isCurrencyDisplayEnabled env then env
      else env\<lparr>ce_state := (ce_state env)\<lparr>ss_config := (ss_config (ce_state env))\<lparr>sc_currency :=
             (sc_currency (ss_config (ce_state env)))\<lparr>cc_quotaDisplayType := js ''USD''\<rparr>\<rparr>\<rparr>\<rparr>)"

lemma billing_without_tokens:
  "formatBillingCurrencyFromUSD env a options = formatCurrencyFromUSD (without_tokens env) a options"
proof (cases "isCurrencyDisplayEnabled env")
  case True
  then show ?thesis
    by (auto simp: formatBillingCurrencyFromUSD_def formatCurrencyFromUSD_def without_tokens_def isCurrencyDisplayEnabled_def
        getCurrencyDisplay_def getBillingDisplayMeta_def Let_def split: option.split js_amount.split)
next
  case False
  have same: "formatCurrencyValue (env\<lparr>ce_state := st\<rparr>) v opts meta = formatCurrencyValue env v opts meta" for st v opts meta
    by (cases meta) (simp_all add: formatCurrencyValue_def Let_def)
  have "getDisplayMeta (getConfig (ce_state (without_tokens env))) = MetaCurrency (js ''$'') (js ''USD'') 1"
    using False by (simp add: without_tokens_def getConfig_def getDisplayMeta_def Let_def js_inject)
  moreover have "is_tokens (getDisplayMeta (getConfig (ce_state env)))"
    using False by (simp add: isCurrencyDisplayEnabled_def getCurrencyDisplay_def Let_def)
  ultimately show ?thesis using False
    by (simp add: formatBillingCurrencyFromUSD_def formatCurrencyFromUSD_def getCurrencyDisplay_def
        getBillingDisplayMeta_def is_tokens_def Let_def split: option.split js_amount.split)
      (simp add: without_tokens_def same)
qed

text \<open>
  In a site that displays tokens a quota is shown in its own unit: the division and the multiplication by the quota of a dollar cancel.
\<close>

lemma tokens_shown_as_quota:
  assumes "\<not> isCurrencyDisplayEnabled env"
  shows "formatLogQuota env (Amount q) = formatNumberWithSuffix (Amount q) 0 6 False"
proof -
  have "is_tokens (getDisplayMeta (getConfig (ce_state env)))"
    using assms by (simp add: isCurrencyDisplayEnabled_def getCurrencyDisplay_def Let_def)
  moreover have "cc_quotaPerUnit (getConfig (ce_state env)) \<noteq> 0" using config_positive(1) [of "ce_state env"] by simp
  ultimately show ?thesis
    by (simp add: formatLogQuota_def format_options_def formatQuotaWithCurrency_def formatCurrencyFromUSD_def
        getCurrencyDisplay_def Let_def num_scale_def mergeOptions_def or_default_def DEFAULT_FORMAT_OPTIONS_def)
qed

text \<open>A positive or negative amount is never passed to the number format as one that its digits cannot show.\<close>

lemma adjusted_visible:
  assumes "x \<noteq> 0"
  obtains y where "adjustForMinimum (Amount x) digits 0 = Amount y" "1 / 10 ^ digits \<le> \<bar>y\<bar>" "sgn y = sgn x"
    "1 / 10 ^ digits \<le> \<bar>x\<bar> \<longrightarrow> y = x"
  using assms by (cases "\<bar>x\<bar> < 1 / 10 ^ digits") (auto simp: adjustForMinimum_def Let_def sgn_if)

section \<open>Documented examples\<close>

text \<open>
  The comment of \<open>formatCurrencyFromUSD\<close> promises \<open>5,000,000\<close> for ten dollars in a site that displays tokens and \<open>\<euro>9\<close>
  for a custom currency; the code abbreviates the first and separates the symbol of the second.
\<close>

definition example_site :: "jsstr \<Rightarrow> CurrencyEnv" where
  "example_site display =
     \<lparr>ce_state = initialSystemConfig\<lparr>ss_config := (ss_config initialSystemConfig)\<lparr>sc_currency :=
        DEFAULT_CURRENCY_CONFIG\<lparr>cc_quotaDisplayType := display, cc_customCurrencySymbol := [8364],
          cc_customCurrencyExchangeRate := 9 / 10\<rparr>\<rparr>\<rparr>,
      ce_intl = (\<lambda>opts a. case a of Amount x \<Rightarrow> num_str x | _ \<Rightarrow> [])\<rparr>"

lemma documented_tokens: "formatCurrencyFromUSD (example_site (js ''TOKENS'')) (Some (Amount 10)) None = js ''5000k''"
  by code_simp

lemma documented_custom: "formatCurrencyFromUSD (example_site (js ''CUSTOM'')) (Some (Amount 10)) None = 8364 # js '' 9''"
  by code_simp

text \<open>Seconds and thousands are rounded after the unit has been chosen.\<close>

lemma sixty_seconds: "formatUseTime (1197 / 10) = js ''1m 60s''"
  by code_simp

lemma thousand_thousands: "formatTokens 999999 = js ''1000.0K''"
  by code_simp


end
