(* ===== verification/PriceList.thy ===== *)
theory PriceList
  imports TierExpr JsSort Currency
begin

text \<open>
  The public price list: \<open>features/pricing/lib/filters.ts\<close>, \<open>model-helpers.ts\<close>, \<open>price.ts\<close> and
  \<open>dynamic-price.ts\<close>. Models are filtered and sorted, the group whose price is shown is chosen, and
  prices are computed from ratios or read from a billing expression.

  Money is shown by \<open>lib/currency.ts\<close> in an environment \<open>env\<close>; \<open>localeCompare\<close> is an argument. A price may be infinite,
  since the rates divide it.
\<close>

section \<open>Data\<close>

record PricingModel =
  pm_model_name :: jsstr
  pm_description :: "jsstr option"
  pm_vendor_name :: "jsstr option"
  pm_quota_type :: rat
  pm_model_ratio :: rat
  pm_completion_ratio :: rat
  pm_model_price :: "rat option"
  pm_cache_ratio :: "rat option"
  pm_create_cache_ratio :: "rat option"
  pm_image_ratio :: "rat option"
  pm_audio_ratio :: "rat option"
  pm_audio_completion_ratio :: "rat option"
  pm_enable_groups :: "jsstr list"
  pm_tags :: "jsstr option"
  pm_supported_endpoint_types :: "jsstr list option"
  pm_group_ratio :: "(jsstr \<times> rat) list option"
  pm_billing_mode :: "jsstr option"
  pm_billing_expr :: "jsstr option"

datatype TokenUnit = UnitM | UnitK
datatype PriceType = PriceInput | PriceOutput | PriceCache | PriceCreateCache | PriceImage | PriceAudioInput | PriceAudioOutput

primrec TOKEN_UNIT_DIVISORS :: "TokenUnit \<Rightarrow> rat" where
  "TOKEN_UNIT_DIVISORS UnitM = 1"
| "TOKEN_UNIT_DIVISORS UnitK = 1000"

definition FILTER_ALL :: jsstr where "FILTER_ALL = js ''all''"
definition SORT_NAME :: jsstr where "SORT_NAME = js ''name''"
definition SORT_PRICE_LOW :: jsstr where "SORT_PRICE_LOW = js ''price-low''"
definition SORT_PRICE_HIGH :: jsstr where "SORT_PRICE_HIGH = js ''price-high''"
definition QUOTA_ALL :: jsstr where "QUOTA_ALL = js ''all''"
definition QUOTA_TOKEN :: jsstr where "QUOTA_TOKEN = js ''token''"
definition QUOTA_VALUE_TOKEN :: rat where "QUOTA_VALUE_TOKEN = 0"
definition QUOTA_VALUE_REQUEST :: rat where "QUOTA_VALUE_REQUEST = 1"
definition ENDPOINT_ALL :: jsstr where "ENDPOINT_ALL = js ''all''"
definition EXCLUDED_GROUPS :: "jsstr list" where "EXCLUDED_GROUPS = [[], js ''auto'']"

section \<open>Filters\<close>

definition mentions :: "jsstr \<Rightarrow> jsstr option \<Rightarrow> bool" where
  "mentions lowerQuery t = (case t of Some s \<Rightarrow> has_sub lowerQuery (to_lower s) | None \<Rightarrow> False)"

definition filterBySearch :: "PricingModel list \<Rightarrow> jsstr \<Rightarrow> PricingModel list" where
  "filterBySearch models query =
     (if query = [] then models
      else let lowerQuery = to_lower query
           in filter (\<lambda>m. mentions lowerQuery (Some (pm_model_name m)) \<or> mentions lowerQuery (pm_description m)
                \<or> mentions lowerQuery (pm_tags m) \<or> mentions lowerQuery (pm_vendor_name m)) models)"

definition filterByVendor :: "PricingModel list \<Rightarrow> jsstr \<Rightarrow> PricingModel list" where
  "filterByVendor models vendor =
     (if vendor = FILTER_ALL then models else filter (\<lambda>m. pm_vendor_name m = Some vendor) models)"

definition filterByGroup :: "PricingModel list \<Rightarrow> jsstr \<Rightarrow> PricingModel list" where
  "filterByGroup models group' =
     (if group' = FILTER_ALL then models else filter (\<lambda>m. group' \<in> set (pm_enable_groups m)) models)"

definition filterByQuotaType :: "PricingModel list \<Rightarrow> jsstr \<Rightarrow> PricingModel list" where
  "filterByQuotaType models quotaType =
     (if quotaType = QUOTA_ALL then models
      else let targetType = (if quotaType = QUOTA_TOKEN then QUOTA_VALUE_TOKEN else QUOTA_VALUE_REQUEST)
           in filter (\<lambda>m. pm_quota_type m = targetType) models)"

definition filterByEndpointType :: "PricingModel list \<Rightarrow> jsstr \<Rightarrow> PricingModel list" where
  "filterByEndpointType models endpointType =
     (if endpointType = ENDPOINT_ALL then models
      else filter (\<lambda>m. case pm_supported_endpoint_types m of Some ts \<Rightarrow> endpointType \<in> set ts | None \<Rightarrow> False) models)"

text \<open>\<open>/[,;|\\s]+/\<close>\<close>

definition TAG_SEPARATOR :: regex where
  "TAG_SEPARATOR = Plus (Cls (\<lambda>c. c = 44 \<or> c = 59 \<or> c = 124 \<or> is_ws c))"

definition parseTags :: "jsstr option \<Rightarrow> jsstr list" where
  "parseTags tagsString =
     (case tagsString of
        None \<Rightarrow> []
      | Some s \<Rightarrow> if s = [] then [] else filter (\<lambda>t. t \<noteq> []) (map trim (re_split TAG_SEPARATOR None s)))"

definition filterByTag :: "PricingModel list \<Rightarrow> jsstr \<Rightarrow> PricingModel list" where
  "filterByTag models tag =
     (if tag = FILTER_ALL then models
      else filter (\<lambda>m. to_lower tag \<in> set (map to_lower (parseTags (pm_tags m)))) models)"

definition extractAllTags :: "(jsstr \<Rightarrow> jsstr \<Rightarrow> rat) \<Rightarrow> PricingModel list \<Rightarrow> jsstr list" where
  "extractAllTags localeCompare models =
     js_sort localeCompare (dedup (concat (map (\<lambda>m. map to_lower (parseTags (pm_tags m))) models)))"

definition getModelPrice :: "PricingModel \<Rightarrow> rat" where
  "getModelPrice model =
     (if pm_quota_type model = 0 then pm_model_ratio model
      else case pm_model_price model of Some p \<Rightarrow> p | None \<Rightarrow> 0)"

definition sortModels :: "(jsstr \<Rightarrow> jsstr \<Rightarrow> rat) \<Rightarrow> PricingModel list \<Rightarrow> jsstr \<Rightarrow> PricingModel list" where
  "sortModels localeCompare models sortBy =
     (if sortBy = SORT_NAME then js_sort (\<lambda>a b. localeCompare (pm_model_name a) (pm_model_name b)) models
      else if sortBy = SORT_PRICE_LOW then js_sort (\<lambda>a b. getModelPrice a - getModelPrice b) models
      else if sortBy = SORT_PRICE_HIGH then js_sort (\<lambda>a b. getModelPrice b - getModelPrice a) models
      else models)"

record PriceFilters =
  pf_search :: jsstr
  pf_vendor :: jsstr
  pf_group :: jsstr
  pf_quotaType :: jsstr
  pf_endpointType :: jsstr
  pf_tag :: jsstr
  pf_sortBy :: jsstr

definition filterAndSortModels :: "(jsstr \<Rightarrow> jsstr \<Rightarrow> rat) \<Rightarrow> PricingModel list \<Rightarrow> PriceFilters \<Rightarrow> PricingModel list" where
  "filterAndSortModels localeCompare models filters =
     (let r1 = filterBySearch models (pf_search filters);
          r2 = filterByVendor r1 (pf_vendor filters);
          r3 = filterByGroup r2 (pf_group filters);
          r4 = filterByQuotaType r3 (pf_quotaType filters);
          r5 = filterByEndpointType r4 (pf_endpointType filters);
          r6 = filterByTag r5 (pf_tag filters)
      in sortModels localeCompare r6 (pf_sortBy filters))"

section \<open>Groups\<close>

definition getAvailableGroups :: "PricingModel \<Rightarrow> (jsstr \<times> 'g) list \<Rightarrow> jsstr list" where
  "getAvailableGroups model usableGroup =
     filter (\<lambda>g. g \<in> set (pm_enable_groups model)) (filter (\<lambda>g. g \<notin> set EXCLUDED_GROUPS) (map fst usableGroup))"

definition getConfiguredGroupRatio :: "(jsstr \<times> rat) list \<Rightarrow> jsstr \<Rightarrow> rat" where
  "getConfiguredGroupRatio groupRatio group' = (case map_of groupRatio group' of Some r \<Rightarrow> r | None \<Rightarrow> 1)"

definition group_ratios :: "PricingModel \<Rightarrow> (jsstr \<times> rat) list" where
  "group_ratios model = (case pm_group_ratio model of Some r \<Rightarrow> r | None \<Rightarrow> [])"

fun cheapestGroup :: "(jsstr \<times> rat) list \<Rightarrow> jsstr list \<Rightarrow> jsstr \<Rightarrow> rat \<Rightarrow> jsstr" where
  "cheapestGroup groupRatio [] displayGroup minRatio = displayGroup"
| "cheapestGroup groupRatio (g # gs) displayGroup minRatio =
     (let ratio = getConfiguredGroupRatio groupRatio g
      in if ratio < minRatio then cheapestGroup groupRatio gs g ratio
         else cheapestGroup groupRatio gs displayGroup minRatio)"

definition getDisplayGroup :: "PricingModel \<Rightarrow> jsstr option \<Rightarrow> jsstr option" where
  "getDisplayGroup model selectedGroup =
     (let groups = pm_enable_groups model; groupRatio = group_ratios model;
          chosen = (case selectedGroup of
            Some g \<Rightarrow> if g \<noteq> [] \<and> g \<noteq> FILTER_ALL \<and> g \<in> set groups then Some g else None | None \<Rightarrow> None)
      in case chosen of
           Some g \<Rightarrow> Some g
         | None \<Rightarrow> (case groups of
             [] \<Rightarrow> None
           | g # gs \<Rightarrow> Some (cheapestGroup groupRatio gs g (getConfiguredGroupRatio groupRatio g))))"

text \<open>An empty name of a group is falsy.\<close>

definition getDisplayGroupRatio :: "PricingModel \<Rightarrow> jsstr option \<Rightarrow> rat" where
  "getDisplayGroupRatio model selectedGroup =
     (case getDisplayGroup model selectedGroup of
        Some g \<Rightarrow> if g \<noteq> [] then getConfiguredGroupRatio (group_ratios model) g else 1
      | None \<Rightarrow> 1)"

definition isTokenBasedModel :: "PricingModel \<Rightarrow> bool" where
  "isTokenBasedModel model \<longleftrightarrow> pm_quota_type model = QUOTA_VALUE_TOKEN"

section \<open>Prices from ratios\<close>

definition times_ratios :: "rat \<Rightarrow> rat option list \<Rightarrow> js_amount" where
  "times_ratios base rs = (if list_all (\<lambda>r. r \<noteq> None) rs then Amount (foldl (\<lambda>p r. p * the r) base rs) else NoAmount)"

definition calculateTokenPrice :: "PricingModel \<Rightarrow> PriceType \<Rightarrow> rat \<Rightarrow> js_amount" where
  "calculateTokenPrice model type ratio =
     (let base = pm_model_ratio model * 2 * ratio
      in case type of
           PriceInput \<Rightarrow> Amount base
         | PriceOutput \<Rightarrow> Amount (base * pm_completion_ratio model)
         | PriceCache \<Rightarrow> times_ratios base [pm_cache_ratio model]
         | PriceCreateCache \<Rightarrow> times_ratios base [pm_create_cache_ratio model]
         | PriceImage \<Rightarrow> times_ratios base [pm_image_ratio model]
         | PriceAudioInput \<Rightarrow> times_ratios base [pm_audio_ratio model]
         | PriceAudioOutput \<Rightarrow> times_ratios base [pm_audio_ratio model, pm_audio_completion_ratio model])"

definition applyRechargeRate :: "js_amount \<Rightarrow> bool \<Rightarrow> rat \<Rightarrow> rat \<Rightarrow> js_amount" where
  "applyRechargeRate price showWithRecharge priceRate usdExchangeRate =
     (if \<not> showWithRecharge then price else num_scale priceRate usdExchangeRate price)"

definition formatPrice ::
  "CurrencyEnv \<Rightarrow> PricingModel \<Rightarrow> PriceType \<Rightarrow> TokenUnit \<Rightarrow> bool \<Rightarrow> rat \<Rightarrow> rat \<Rightarrow> jsstr option \<Rightarrow> jsstr" where
  "formatPrice env model type tokenUnit showWithRecharge priceRate usdExchangeRate selectedGroup =
     (if pm_quota_type model = QUOTA_VALUE_REQUEST then js ''-''
      else let priceInUSD = calculateTokenPrice model type (getDisplayGroupRatio model selectedGroup)
           in formatCurrencyFromUSD env (Some (num_scale 1 (TOKEN_UNIT_DIVISORS tokenUnit)
                (applyRechargeRate priceInUSD showWithRecharge priceRate usdExchangeRate))) (format_options 4 6 False))"

definition formatGroupPrice ::
  "CurrencyEnv \<Rightarrow> PricingModel \<Rightarrow> jsstr \<Rightarrow> PriceType \<Rightarrow> TokenUnit \<Rightarrow> bool \<Rightarrow> rat \<Rightarrow> rat \<Rightarrow> (jsstr \<times> rat) list \<Rightarrow> jsstr" where
  "formatGroupPrice env model group' type tokenUnit showWithRecharge priceRate usdExchangeRate groupRatio =
     (if pm_quota_type model = QUOTA_VALUE_REQUEST then js ''-''
      else let priceInUSD = calculateTokenPrice model type (getConfiguredGroupRatio groupRatio group')
           in formatCurrencyFromUSD env (Some (num_scale 1 (TOKEN_UNIT_DIVISORS tokenUnit)
                (applyRechargeRate priceInUSD showWithRecharge priceRate usdExchangeRate))) (format_options 4 6 False))"

definition fixed_price :: "PricingModel \<Rightarrow> rat \<Rightarrow> js_amount" where
  "fixed_price model ratio = Amount ((case pm_model_price model of Some p \<Rightarrow> p | None \<Rightarrow> 0) * ratio)"

definition formatFixedPrice ::
  "CurrencyEnv \<Rightarrow> PricingModel \<Rightarrow> jsstr \<Rightarrow> bool \<Rightarrow> rat \<Rightarrow> rat \<Rightarrow> (jsstr \<times> rat) list \<Rightarrow> jsstr" where
  "formatFixedPrice env model group' showWithRecharge priceRate usdExchangeRate groupRatio =
     (if pm_quota_type model \<noteq> QUOTA_VALUE_REQUEST then js ''-''
      else formatCurrencyFromUSD env (Some (applyRechargeRate (fixed_price model (getConfiguredGroupRatio groupRatio group'))
                  showWithRecharge priceRate usdExchangeRate))
             (format_options 4 4 False))"

definition formatRequestPrice ::
  "CurrencyEnv \<Rightarrow> PricingModel \<Rightarrow> bool \<Rightarrow> rat \<Rightarrow> rat \<Rightarrow> jsstr option \<Rightarrow> jsstr" where
  "formatRequestPrice env model showWithRecharge priceRate usdExchangeRate selectedGroup =
     (if pm_quota_type model \<noteq> QUOTA_VALUE_REQUEST then js ''-''
      else formatCurrencyFromUSD env (Some (applyRechargeRate (fixed_price model (getDisplayGroupRatio model selectedGroup))
                  showWithRecharge priceRate usdExchangeRate))
             (format_options 4 4 False))"

section \<open>Prices from billing expressions\<close>

record DynamicPriceOptions =
  do_tokenUnit :: TokenUnit
  do_showRechargePrice :: "bool option"
  do_priceRate :: "rat option"
  do_usdExchangeRate :: "rat option"
  do_groupRatioMultiplier :: "rat option"

record DynamicPriceEntry =
  de_key :: jsstr
  de_field :: jsstr
  de_label :: jsstr
  de_shortLabel :: jsstr
  de_value :: rat
  de_formatted :: jsstr
  de_variable :: BillingVar

record DynamicPricingSummary =
  ds_tiers :: "ParsedTier list"
  ds_tier :: "ParsedTier option"
  ds_tierCount :: nat
  ds_hasRequestRules :: bool
  ds_isSpecialExpression :: bool
  ds_rawExpression :: jsstr
  ds_entries :: "DynamicPriceEntry list"
  ds_primaryEntries :: "DynamicPriceEntry list"
  ds_secondaryEntries :: "DynamicPriceEntry list"

definition PRIMARY_DYNAMIC_FIELDS :: "jsstr list" where
  "PRIMARY_DYNAMIC_FIELDS = [js ''inputPrice'', js ''outputPrice'']"

definition billing_text :: "PricingModel \<Rightarrow> jsstr" where
  "billing_text model = (case pm_billing_expr model of Some e \<Rightarrow> e | None \<Rightarrow> [])"

definition isDynamicPricingModel :: "PricingModel \<Rightarrow> bool" where
  "isDynamicPricingModel model \<longleftrightarrow> pm_billing_mode model = Some (js ''tiered_expr'') \<and> billing_text model \<noteq> []"

definition getDynamicDisplayGroupRatio :: "PricingModel \<Rightarrow> jsstr option \<Rightarrow> rat" where
  "getDynamicDisplayGroupRatio model selectedGroup = getDisplayGroupRatio model selectedGroup"

definition formatDynamicUnitPrice :: "CurrencyEnv \<Rightarrow> rat \<Rightarrow> DynamicPriceOptions \<Rightarrow> jsstr" where
  "formatDynamicUnitPrice env valuePerMillionTokens options =
     (let priceUSD = num_scale (or_default (do_groupRatioMultiplier options) 1) (TOKEN_UNIT_DIVISORS (do_tokenUnit options))
                       (Amount valuePerMillionTokens)
      in formatBillingCurrencyFromUSD env (Some (applyRechargeRate priceUSD (or_default (do_showRechargePrice options) False)
                (or_default (do_priceRate options) 1) (or_default (do_usdExchangeRate options) 1)))
           (format_options 4 6 False))"

definition getDynamicPricingTiers :: "PricingModel \<Rightarrow> js_error + ParsedTier list" where
  "getDynamicPricingTiers model =
     (if \<not> isDynamicPricingModel model then Inr []
      else case splitBillingExprAndRequestRules (billing_text model) of
             Inl e \<Rightarrow> Inl e
           | Inr parts \<Rightarrow> Inr (parseTiersFromExpr (billingExpr parts)))"

definition hasDynamicRequestRules :: "PricingModel \<Rightarrow> js_error + bool" where
  "hasDynamicRequestRules model =
     (if \<not> isDynamicPricingModel model then Inr False
      else case splitBillingExprAndRequestRules (billing_text model) of
             Inl e \<Rightarrow> Inl e
           | Inr parts \<Rightarrow>
               (case tryParseRequestRuleExpr (requestRuleExpr parts) of
                  Inl e \<Rightarrow> Inl e
                | Inr groups \<Rightarrow> Inr (case groups of Some gs \<Rightarrow> gs \<noteq> [] | None \<Rightarrow> False)))"

definition tier_price :: "ParsedTier \<Rightarrow> jsstr \<Rightarrow> jsnum" where
  "tier_price tier field = (case map_of (tier_prices tier) field of Some r \<Rightarrow> Num r | None \<Rightarrow> NaN)"

definition priceEntry :: "CurrencyEnv \<Rightarrow> DynamicPriceOptions \<Rightarrow> ParsedTier \<Rightarrow> BillingVar \<Rightarrow> DynamicPriceEntry list" where
  "priceEntry env options tier var =
     (case bv_field var of
        None \<Rightarrow> []
      | Some field \<Rightarrow>
          (case tier_price tier field of
             NaN \<Rightarrow> []
           | Num v \<Rightarrow> if v \<le> 0 then []
               else [\<lparr>de_key = bv_key var, de_field = field, de_label = bv_label var, de_shortLabel = bv_shortLabel var,
                      de_value = v, de_formatted = formatDynamicUnitPrice env v options, de_variable = var\<rparr>]))"

definition is_primary :: "DynamicPriceEntry \<Rightarrow> bool" where
  "is_primary e \<longleftrightarrow> de_field e \<in> set PRIMARY_DYNAMIC_FIELDS"

definition entryOrder :: "DynamicPriceEntry \<Rightarrow> DynamicPriceEntry \<Rightarrow> rat" where
  "entryOrder a b = (if is_primary a \<noteq> is_primary b then (if is_primary a then -1 else 1) else 0)"

definition getDynamicPriceEntries ::
  "CurrencyEnv \<Rightarrow> ParsedTier option \<Rightarrow> DynamicPriceOptions \<Rightarrow> DynamicPriceEntry list" where
  "getDynamicPriceEntries env tier options =
     (case tier of
        None \<Rightarrow> []
      | Some t \<Rightarrow> js_sort entryOrder (concat (map (priceEntry env options t) BILLING_PRICING_VARS)))"

definition getDynamicPricingSummary ::
  "CurrencyEnv \<Rightarrow> PricingModel \<Rightarrow> DynamicPriceOptions \<Rightarrow> js_error + DynamicPricingSummary option" where
  "getDynamicPricingSummary env model options =
     (if \<not> isDynamicPricingModel model then Inr None
      else case getDynamicPricingTiers model of
             Inl e \<Rightarrow> Inl e
           | Inr tiers \<Rightarrow>
               (case hasDynamicRequestRules model of
                  Inl e \<Rightarrow> Inl e
                | Inr rules \<Rightarrow>
                    let tier = (case tiers of t # _ \<Rightarrow> Some t | [] \<Rightarrow> None);
                        entries = getDynamicPriceEntries env tier options
                    in Inr (Some \<lparr>ds_tiers = tiers, ds_tier = tier, ds_tierCount = length tiers,
                         ds_hasRequestRules = rules,
                         ds_isSpecialExpression = (trim (billing_text model) \<noteq> [] \<and> tiers = []),
                         ds_rawExpression = billing_text model, ds_entries = entries,
                         ds_primaryEntries = filter is_primary entries,
                         ds_secondaryEntries = filter (\<lambda>e. \<not> is_primary e) entries\<rparr>)))"

end
