(* ===== verification/PriceListRules.thy ===== *)
theory PriceListRules
  imports PriceList BillingRules TierDisplay CurrencyRules
begin

text \<open>
  Correctness of the price list: what filtering and sorting leave, that the group shown is the cheapest, and
  that the list shows the tiers and announces the rules that the editors of prices and rules have written.
\<close>

section \<open>Filters\<close>

text \<open>The conditions of the filters, each on its own.\<close>

definition matches_search :: "jsstr \<Rightarrow> PricingModel \<Rightarrow> bool" where
  "matches_search q m \<longleftrightarrow> q = [] \<or> mentions (to_lower q) (Some (pm_model_name m)) \<or> mentions (to_lower q) (pm_description m)
     \<or> mentions (to_lower q) (pm_tags m) \<or> mentions (to_lower q) (pm_vendor_name m)"

definition matches_filters :: "PriceFilters \<Rightarrow> PricingModel \<Rightarrow> bool" where
  "matches_filters f m \<longleftrightarrow> matches_search (pf_search f) m
     \<and> (pf_vendor f = FILTER_ALL \<or> pm_vendor_name m = Some (pf_vendor f))
     \<and> (pf_group f = FILTER_ALL \<or> pf_group f \<in> set (pm_enable_groups m))
     \<and> (pf_quotaType f = QUOTA_ALL
         \<or> pm_quota_type m = (if pf_quotaType f = QUOTA_TOKEN then QUOTA_VALUE_TOKEN else QUOTA_VALUE_REQUEST))
     \<and> (pf_endpointType f = ENDPOINT_ALL
         \<or> (case pm_supported_endpoint_types m of Some ts \<Rightarrow> pf_endpointType f \<in> set ts | None \<Rightarrow> False))
     \<and> (pf_tag f = FILTER_ALL \<or> to_lower (pf_tag f) \<in> set (map to_lower (parseTags (pm_tags m))))"

lemma filters_eq:
  "filterAndSortModels lc models f = sortModels lc (filter (matches_filters f) models) (pf_sortBy f)"
proof -
  have search: "filterBySearch ms q = filter (matches_search q) ms" for ms q
    unfolding filterBySearch_def Let_def by (auto simp: matches_search_def intro!: filter_cong)
  have vendor: "filterByVendor ms v = filter (\<lambda>m. v = FILTER_ALL \<or> pm_vendor_name m = Some v) ms" for ms v
    by (simp add: filterByVendor_def)
  have grp: "filterByGroup ms g = filter (\<lambda>m. g = FILTER_ALL \<or> g \<in> set (pm_enable_groups m)) ms" for ms g
    by (simp add: filterByGroup_def)
  have quota: "filterByQuotaType ms q = filter (\<lambda>m. q = QUOTA_ALL
      \<or> pm_quota_type m = (if q = QUOTA_TOKEN then QUOTA_VALUE_TOKEN else QUOTA_VALUE_REQUEST)) ms" for ms q
    by (simp add: filterByQuotaType_def Let_def)
  have endpoint: "filterByEndpointType ms e = filter (\<lambda>m. e = ENDPOINT_ALL
      \<or> (case pm_supported_endpoint_types m of Some ts \<Rightarrow> e \<in> set ts | None \<Rightarrow> False)) ms" for ms e
    by (simp add: filterByEndpointType_def)
  have tag: "filterByTag ms t = filter (\<lambda>m. t = FILTER_ALL
      \<or> to_lower t \<in> set (map to_lower (parseTags (pm_tags m)))) ms" for ms t
    by (simp add: filterByTag_def)
  show ?thesis
    unfolding filterAndSortModels_def Let_def search vendor grp quota endpoint tag filter_filter
    by (rule arg_cong [where f = "\<lambda>ms. sortModels lc ms (pf_sortBy f)"], rule filter_cong) (auto simp: matches_filters_def)
qed

lemma comparison_num: "comparison (\<lambda>x y. f x - f y :: rat)"
  by unfold_locales auto

text \<open>
  C31. The price list shows the models that pass every filter, each as often as it is in the catalogue, whatever the
  order in which the filters are applied; and it is sorted by the chosen key.
\<close>

theorem price_list_exact:
  assumes "comparison localeCompare"
  shows "mset (filterAndSortModels localeCompare models f) = mset (filter (matches_filters f) models)
    \<and> (pf_sortBy f = SORT_NAME \<longrightarrow> sorted_wrt (\<lambda>a b. localeCompare (pm_model_name a) (pm_model_name b) \<le> 0)
         (filterAndSortModels localeCompare models f))
    \<and> (pf_sortBy f = SORT_PRICE_LOW \<longrightarrow> sorted_wrt (\<lambda>a b. getModelPrice a \<le> getModelPrice b)
         (filterAndSortModels localeCompare models f))
    \<and> (pf_sortBy f = SORT_PRICE_HIGH \<longrightarrow> sorted_wrt (\<lambda>a b. getModelPrice a \<ge> getModelPrice b)
         (filterAndSortModels localeCompare models f))"
proof -
  have names: "SORT_PRICE_LOW \<noteq> SORT_NAME" "SORT_PRICE_HIGH \<noteq> SORT_NAME" "SORT_PRICE_HIGH \<noteq> SORT_PRICE_LOW"
    by (simp_all add: SORT_NAME_def SORT_PRICE_LOW_def SORT_PRICE_HIGH_def js_inject)
  note by_name = comparison.sorted_js_sort [OF comparison_on [OF assms, of pm_model_name]]
    and low = comparison.sorted_js_sort [OF comparison_num [of getModelPrice]]
    and high = comparison.sorted_js_sort [OF comparison_num [of "\<lambda>m. - getModelPrice m"]]
  show ?thesis
    unfolding filters_eq sortModels_def using names low high by (auto simp: algebra_simps intro: by_name)
qed

section \<open>Groups\<close>

lemma cheapest_group:
  assumes "r = getConfiguredGroupRatio R g"
  shows "cheapestGroup R gs g r \<in> set (g # gs)
    \<and> list_all (\<lambda>h. getConfiguredGroupRatio R (cheapestGroup R gs g r) \<le> getConfiguredGroupRatio R h) (g # gs)"
  using assms
proof (induction gs arbitrary: g r)
  case (Cons h hs)
  show ?case
  proof (cases "getConfiguredGroupRatio R h < r")
    case True
    with Cons.IH [of "getConfiguredGroupRatio R h" h] Cons.prems show ?thesis by (auto simp: list_all_iff)
  next
    case False
    with Cons.IH [OF Cons.prems] Cons.prems show ?thesis by (fastforce simp: list_all_iff)
  qed
qed simp

text \<open>
  Without a chosen group the list shows the cheapest price of a model: the group it shows is one of the
  model's, and none of them has a smaller ratio.
\<close>

theorem display_group_cheapest:
  assumes "pm_enable_groups model \<noteq> []" and "selectedGroup = None \<or> selectedGroup = Some FILTER_ALL"
  shows "\<exists>g. getDisplayGroup model selectedGroup = Some g \<and> g \<in> set (pm_enable_groups model)
    \<and> list_all (\<lambda>h. getConfiguredGroupRatio (group_ratios model) g \<le> getConfiguredGroupRatio (group_ratios model) h)
        (pm_enable_groups model)"
proof -
  obtain g gs where g: "pm_enable_groups model = g # gs" using assms(1) by (cases "pm_enable_groups model") auto
  from cheapest_group [OF refl, where R = "group_ratios model" and g = g and gs = gs] assms(2) show ?thesis
    by (auto simp: getDisplayGroup_def Let_def g)
qed

section \<open>Expressions of the price editor inside combined expressions\<close>

definition listed_config :: "VisualConfig \<Rightarrow> bool" where
  "listed_config ts \<longleftrightarrow> config_ok ts \<and> vt_conditions (last ts) = [] \<and> list_all (\<lambda>t. list_all no_paren (vt_label t)) ts"

lemma generate_parts:
  assumes "listed_config ts"
  shows "generateExprFromVisualConfig (Some ts) = join (js '' : '') (map tier_part ts)"
proof -
  have ok: "\<forall>t \<in> set ts. tier_ok t" "ts \<noteq> []" "vt_conditions (last ts) = []"
    using assms by (auto simp: listed_config_def config_ok_def list_all_iff)
  show ?thesis
  proof (cases "length ts \<ge> 2")
    case True
    with ok show ?thesis by (intro generate_many)
  next
    case False
    with ok(2) obtain t where "ts = [t]" by (cases ts; cases "tl ts") auto
    with ok generate_one [of t] show ?thesis by simp
  qed
qed

lemma num_no_paren: "list_all no_paren (num_str r)" "42 \<notin> set (num_str r)"
  using num_str_units(1) [of r] by (auto simp: list_all_iff num_unit_def is_digit_def no_paren_def)

lemma cond_no_paren: "list_all no_paren (cond_text c) \<and> 42 \<notin> set (cond_text c)"
  using num_no_paren [of "bound_of c"]
  by (cases "in_var c"; cases "in_op c") (auto simp: cond_text_def js_def no_paren_def)

lemma conds_no_paren: "list_all no_paren (conds_text cs) \<and> 42 \<notin> set (conds_text cs)"
proof -
  have "list_all no_paren (join (js '' && '') ws) \<and> 42 \<notin> set (join (js '' && '') ws)"
    if "\<forall>w \<in> set ws. list_all no_paren w \<and> 42 \<notin> set w" for ws
    using that by (induction "js '' && ''" ws rule: join.induct) (auto simp: js_def no_paren_def)
  then show ?thesis using cond_no_paren by (simp add: conds_text_def)
qed

lemma body_parens: "list_all no_paren (tier_body t)"
proof -
  have "list_all no_paren (terms_text ks f)" if "set ks \<subseteq> set extra_keys" for ks f
    using that num_no_paren(1)
    by (induction ks) (auto simp: terms_text_def term_text_def js_def extra_keys_eval no_paren_def)
  then show ?thesis
    using num_no_paren(1) by (simp add: tier_body_def body_text_def) (simp add: js_def no_paren_def)
qed

lemma tier_part_flat:
  assumes "list_all no_paren (vt_label t)" and "x = 40 \<or> x = 42"
  shows "flat x 0 (tier_part t)"
proof -
  have inner: "flat x 1 (vt_label t @ js ''\", '' @ tier_body t @ js '')'')"
    using assms body_parens [of t] by (simp add: flat_pass) (auto simp: js_def flat_pass no_paren_def)
  have "flat x 0 (js ''tier(\"'' @ vt_label t @ js ''\", '' @ tier_body t @ js '')'')"
    using inner assms(2) by (auto simp: js_def)
  then have "flat x 0 (js '' ? '' @ js ''tier(\"'' @ vt_label t @ js ''\", '' @ tier_body t @ js '')'')"
    "flat x 0 (js ''tier(\"'' @ vt_label t @ js ''\", '' @ tier_body t @ js '')'')"
    using assms(2) by (auto simp: js_def)
  moreover have "flat x 0 (conds_text (vt_conditions t) @ v) = flat x 0 v" for v
    using conds_no_paren [of "vt_conditions t"] assms(2) by (intro flat_pass) (auto simp: list_all_iff no_paren_def)
  ultimately show ?thesis by (simp add: tier_part_def part_text_def)
qed

lemma join_flat:
  assumes "\<forall>e \<in> set es. flat x 0 e" and "x = 40 \<or> x = 42"
  shows "flat x 0 (join (js '' : '') es)"
  using assms(1)
proof (induction es)
  case (Cons e es)
  have "flat x 0 (js '' : '' @ v) = flat x 0 v" for v using assms(2) by (auto simp: js_def)
  with Cons show ?case using flat_append [of 0 x e] by (cases es) (auto simp: join_Cons)
qed simp

lemma listed_flat:
  assumes "listed_config ts" and "x = 40 \<or> x = 42"
  shows "flat x 0 (generateExprFromVisualConfig (Some ts))"
  unfolding generate_parts [OF assms(1)]
  using assms tier_part_flat by (intro join_flat) (auto simp: listed_config_def list_all_iff)

lemma tier_part_ends: "\<exists>c v. tier_part t = c # v @ [41] \<and> c \<noteq> 40 \<and> \<not> is_ws c"
proof (cases "vt_conditions t")
  case Nil
  then show ?thesis by (auto simp: tier_part_def part_text_def js_def is_ws_def)
next
  case (Cons c cs)
  have "\<exists>h u. conds_text (c # cs) = h # u \<and> h \<noteq> 40 \<and> \<not> is_ws h"
    by (cases "in_var c"; cases cs) (auto simp: conds_text_def cond_text_def js_def is_ws_def)
  with Cons show ?thesis by (auto simp: tier_part_def part_text_def js_def)
qed

lemma listed_ends:
  assumes "ts \<noteq> []"
  shows "\<exists>c v. join (js '' : '') (map tier_part ts) = c # v @ [41] \<and> c \<noteq> 40 \<and> \<not> is_ws c"
  using assms
proof (induction ts)
  case (Cons t ts)
  obtain c v where c: "tier_part t = c # v @ [41]" "c \<noteq> 40" "\<not> is_ws c" using tier_part_ends by blast
  show ?case
  proof (cases "ts = []")
    case False
    then obtain d w where "join (js '' : '') (map tier_part ts) = d # w @ [41]" using Cons.IH by blast
    with c False show ?thesis
      by (intro exI [of _ c] exI [of _ "v @ [41] @ js '' : '' @ d # w"]) (simp add: join_Cons)
  qed (use c in auto)
qed simp

lemma listed_facts:
  assumes "listed_config ts"
  shows "generateExprFromVisualConfig (Some ts) \<noteq> []" "trimmed (generateExprFromVisualConfig (Some ts))"
    "\<not> ends_with (js '' : 1'') (generateExprFromVisualConfig (Some ts))"
    "unwrapOuterParens (generateExprFromVisualConfig (Some ts)) = generateExprFromVisualConfig (Some ts)"
proof -
  let ?e = "generateExprFromVisualConfig (Some ts)"
  have "ts \<noteq> []" using assms by (simp add: listed_config_def config_ok_def)
  then obtain c v where e: "?e = c # v @ [41]" "c \<noteq> 40" "\<not> is_ws c"
    using listed_ends generate_parts [OF assms] by metis
  then show "?e \<noteq> []" and t: "trimmed ?e" by (simp_all add: trimmed_def is_ws_def)
  show "\<not> ends_with (js '' : 1'') ?e" using e by (auto simp: ends_with_def js_def)
  have "\<not> hasFullOuterParens ?e" using e by (simp add: hasFullOuterParens_def)
  then show "unwrapOuterParens ?e = ?e"
    using trim_trimmed [OF t] by (simp add: unwrapOuterParens_def unwrapLoop.simps [of ?e])
qed

lemma split_listed:
  assumes ts: "listed_config ts" and gs: "\<forall>g \<in> set gs. recoverable_group g"
  shows "splitBillingExprAndRequestRules (combineBillingExpr (generateExprFromVisualConfig (Some ts)) (buildRequestRuleExpr gs))
    = Inr \<lparr>billingExpr = generateExprFromVisualConfig (Some ts), requestRuleExpr = buildRequestRuleExpr gs\<rparr>"
proof (cases "gs = []")
  case True
  let ?e = "generateExprFromVisualConfig (Some ts)"
  note f = listed_facts [OF ts]
  have r: "buildRequestRuleExpr [] = []" by (simp add: buildRequestRuleExpr_def)
  have "part_ok 42 ?e" using f(1,2) listed_flat [OF ts] by (simp add: part_ok_def)
  then have "splitTopLevelMultiply ?e = [?e]" using splitMultiply_join [of "[?e]"] by simp
  moreover have "combineBillingExpr ?e [] = ?e" using f(1,2) by (simp add: combineBillingExpr_def Let_def trim_trimmed)
  ultimately show ?thesis
    unfolding True r using f(1,2) by (simp add: splitBillingExprAndRequestRules_def Let_def trim_trimmed)
next
  case False
  have "balanced (generateExprFromVisualConfig (Some ts))" using listed_flat [OF ts] by (simp add: balanced_def)
  with False gs listed_facts [OF ts] show ?thesis using split_combined_parts [of "generateExprFromVisualConfig (Some ts)" gs] by simp
qed

section \<open>The entries of a tier\<close>

definition listed_prices :: "VisualTier \<Rightarrow> (jsstr \<times> rat) list" where
  "listed_prices t = filter (\<lambda>(k, v). 0 < v) (map (\<lambda>var. (bv_key var, price_of t (bv_key var))) BILLING_PRICING_VARS)"

lemma pricing_vars:
  "distinct (map (\<lambda>v. the (bv_field v)) BILLING_PRICING_VARS)" "list_all (\<lambda>v. bv_field v \<noteq> None) BILLING_PRICING_VARS"
  "list_all (\<lambda>v. the (bv_field v) \<in> set PRIMARY_DYNAMIC_FIELDS) (take 2 BILLING_PRICING_VARS)"
  "list_all (\<lambda>v. the (bv_field v) \<notin> set PRIMARY_DYNAMIC_FIELDS) (drop 2 BILLING_PRICING_VARS)"
  by (code_simp, code_simp, code_simp, code_simp)

lemma displayed_price:
  assumes "var \<in> set BILLING_PRICING_VARS"
  shows "tier_price (displayed t) (the (bv_field var)) = Num (price_of t (bv_key var))"
proof -
  have p: "tier_prices (displayed t) = map (\<lambda>v. (the (bv_field v), price_of t (bv_key v))) BILLING_PRICING_VARS"
    by (simp add: displayed_def BILLING_VAR_KEY_TO_FIELD_def)
  have "map_of (tier_prices (displayed t)) (the (bv_field var)) = Some (price_of t (bv_key var))"
    unfolding p using assms pricing_vars(1) by (intro map_of_is_SomeI) (auto simp: comp_def)
  then show ?thesis by (simp add: tier_price_def)
qed

lemma entry_of_var:
  assumes "var \<in> set BILLING_PRICING_VARS"
  shows "map (\<lambda>e. (de_key e, de_value e)) (priceEntry env opts (displayed t) var)
      = filter (\<lambda>(k, v). 0 < v) [(bv_key var, price_of t (bv_key var))]"
    and "list_all (\<lambda>e. de_field e = the (bv_field var)) (priceEntry env opts (displayed t) var)"
proof -
  obtain f where f: "bv_field var = Some f" using assms pricing_vars(2) by (auto simp: list_all_iff)
  then have "tier_price (displayed t) f = Num (price_of t (bv_key var))" using displayed_price [OF assms] by simp
  then show "map (\<lambda>e. (de_key e, de_value e)) (priceEntry env opts (displayed t) var)
      = filter (\<lambda>(k, v). 0 < v) [(bv_key var, price_of t (bv_key var))]"
    and "list_all (\<lambda>e. de_field e = the (bv_field var)) (priceEntry env opts (displayed t) var)"
    by (simp_all add: priceEntry_def f)
qed

lemma primary_first_sorted:
  assumes "list_all is_primary as" and "list_all (\<lambda>e. \<not> is_primary e) bs"
  shows "js_sort entryOrder (as @ bs) = as @ bs"
proof -
  have "sorted_wrt P xs" if "\<forall>x \<in> set xs. \<forall>y \<in> set xs. P x y" for P and xs :: "DynamicPriceEntry list"
    using that by (induction xs) auto
  from this [of as "\<lambda>x y. entryOrder x y \<le> 0"] this [of bs "\<lambda>x y. entryOrder x y \<le> 0"] assms
  show ?thesis by (intro js_sort_sorted) (auto simp: sorted_wrt_append list_all_iff entryOrder_def)
qed

lemma entries_of_tier:
  "map (\<lambda>e. (de_key e, de_value e)) (getDynamicPriceEntries env (Some (displayed t)) opts) = listed_prices t"
proof -
  let ?es = "\<lambda>vs. concat (map (priceEntry env opts (displayed t)) vs)"
  have split: "?es BILLING_PRICING_VARS = ?es (take 2 BILLING_PRICING_VARS) @ ?es (drop 2 BILLING_PRICING_VARS)"
    by (metis append_take_drop_id concat_append map_append)
  have field: "\<exists>v \<in> set vs. de_field e = the (bv_field v)" if "e \<in> set (?es vs)" "set vs \<subseteq> set BILLING_PRICING_VARS" for e vs
    using that entry_of_var(2) by (fastforce simp: list_all_iff)
  have "list_all is_primary (?es (take 2 BILLING_PRICING_VARS))"
    using field [of _ "take 2 BILLING_PRICING_VARS"] pricing_vars(3) set_take_subset
    unfolding list_all_iff is_primary_def by metis
  moreover have "list_all (\<lambda>e. \<not> is_primary e) (?es (drop 2 BILLING_PRICING_VARS))"
    using field [of _ "drop 2 BILLING_PRICING_VARS"] pricing_vars(4) set_drop_subset
    unfolding list_all_iff is_primary_def by metis
  ultimately have "getDynamicPriceEntries env (Some (displayed t)) opts = ?es BILLING_PRICING_VARS"
    unfolding getDynamicPriceEntries_def option.case split by (rule primary_first_sorted)
  moreover have "map (\<lambda>e. (de_key e, de_value e)) (?es vs)
      = filter (\<lambda>(k, v). 0 < v) (map (\<lambda>var. (bv_key var, price_of t (bv_key var))) vs)"
    if "set vs \<subseteq> set BILLING_PRICING_VARS" for vs
    using that by (induction vs) (simp_all add: entry_of_var(1))
  ultimately show ?thesis unfolding listed_prices_def by simp
qed

lemma entries_formatted:
  "list_all (\<lambda>e. de_formatted e = formatDynamicUnitPrice env (de_value e) opts) (getDynamicPriceEntries env tier opts)"
  by (auto simp: list_all_iff getDynamicPriceEntries_def priceEntry_def split: option.splits jsnum.splits if_splits)

lemma entry_texts:
  "map de_formatted (getDynamicPriceEntries env (Some (displayed t)) opts)
     = map (\<lambda>(k, v). formatDynamicUnitPrice env v opts) (listed_prices t)"
proof -
  have "map de_formatted es = map (\<lambda>(k, v). formatDynamicUnitPrice env v opts) (map (\<lambda>e. (de_key e, de_value e)) es)"
    if "list_all (\<lambda>e. de_formatted e = formatDynamicUnitPrice env (de_value e) opts) es" for es
    using that by (induction es) auto
  from this [OF entries_formatted, of "Some (displayed t)"] show ?thesis unfolding entries_of_tier .
qed


lemma sample_listed: "listed_config sample_tiers"
  using sample_ok unfolding listed_config_def by (simp, code_simp)

definition sample_model :: PricingModel where
  "sample_model = \<lparr>pm_model_name = js ''gpt-4o'', pm_description = None, pm_vendor_name = Some (js ''OpenAI''), pm_quota_type = 0,
     pm_model_ratio = 1, pm_completion_ratio = 4, pm_model_price = None, pm_cache_ratio = None, pm_create_cache_ratio = None,
     pm_image_ratio = None, pm_audio_ratio = None, pm_audio_completion_ratio = None,
     pm_enable_groups = [js ''default'', js ''vip''], pm_tags = None, pm_supported_endpoint_types = None,
     pm_group_ratio = Some [(js ''default'', 1), (js ''vip'', 1 / 2)], pm_billing_mode = Some (js ''tiered_expr''),
     pm_billing_expr = Some (combineBillingExpr (generateExprFromVisualConfig (Some sample_tiers)) (buildRequestRuleExpr [night_rule]))\<rparr>"


text \<open>
  Recharge prices follow their documentation. In a site that shows yuan, the price of a model with the recharge rate applied is
  the amount of yuan that a user pays: the exchange rate of the site cancels, and the amount is printed as one that is already local.
\<close>

theorem recharge_price_shown:
  assumes "cc_quotaDisplayType (getConfig (ce_state env)) = js ''CNY''"
    and "do_showRechargePrice opts = Some True" and "do_priceRate opts = Some rate" and "do_groupRatioMultiplier opts = Some ratio"
    and "do_usdExchangeRate opts = Some (cc_usdExchangeRate (getConfig (ce_state env)))"
  shows "formatDynamicUnitPrice env v opts
    = formatLocalCurrencyAmount env (Some (Amount (v * ratio * rate / TOKEN_UNIT_DIVISORS (do_tokenUnit opts)))) (format_options 4 6 False)"
proof -
  let ?r = "cc_usdExchangeRate (getConfig (ce_state env))"
  have r: "?r \<noteq> 0" using config_positive(2) [of "ce_state env"] by simp
  have d: "TOKEN_UNIT_DIVISORS u \<noteq> 0" for u by (cases u) simp_all
  have m: "getBillingDisplayMeta (getConfig (ce_state env)) = MetaCurrency [165] (js ''CNY'') ?r"
    using assms(1) by (simp add: getBillingDisplayMeta_def getDisplayMeta_def is_tokens_def Let_def)
  show ?thesis
    using r d by (simp add: formatDynamicUnitPrice_def assms or_default_def applyRechargeRate_def num_scale_def Let_def
        formatBillingCurrencyFromUSD_def formatLocalCurrencyAmount_def getCurrencyDisplay_def m meta_rate_def is_tokens_def)
qed

theorem recharge_price_shown_witness:
  "formatDynamicUnitPrice (example_site (js ''CNY'')) 3
      \<lparr>do_tokenUnit = UnitM, do_showRechargePrice = Some True, do_priceRate = Some 4, do_usdExchangeRate = Some 1,
       do_groupRatioMultiplier = Some (1 / 2)\<rparr>
    = formatLocalCurrencyAmount (example_site (js ''CNY'')) (Some (Amount 6)) (format_options 4 6 False)"
proof -
  have "getConfig (ce_state (example_site (js ''CNY''))) =
      DEFAULT_CURRENCY_CONFIG\<lparr>cc_quotaDisplayType := js ''CNY'', cc_customCurrencySymbol := [8364], cc_customCurrencyExchangeRate := 9 / 10\<rparr>"
    by code_simp
  then show ?thesis
    using recharge_price_shown [of "example_site (js ''CNY'')"
        "\<lparr>do_tokenUnit = UnitM, do_showRechargePrice = Some True, do_priceRate = Some 4, do_usdExchangeRate = Some 1,
         do_groupRatioMultiplier = Some (1 / 2)\<rparr>" 4 "1 / 2" 3]
    by (simp add: DEFAULT_CURRENCY_CONFIG_def)
qed

theorem price_list_exact_witness:
  "let f = \<lparr>pf_search = js ''GPT'', pf_vendor = FILTER_ALL, pf_group = js ''vip'', pf_quotaType = QUOTA_ALL,
        pf_endpointType = ENDPOINT_ALL, pf_tag = FILTER_ALL, pf_sortBy = SORT_PRICE_LOW\<rparr>;
      ms = [sample_model\<lparr>pm_model_ratio := 3\<rparr>, sample_model, sample_model\<lparr>pm_enable_groups := []\<rparr>] in
   mset (filterAndSortModels unit_compare ms f) = mset (filter (matches_filters f) ms)
   \<and> sorted_wrt (\<lambda>a b. getModelPrice a \<le> getModelPrice b) (filterAndSortModels unit_compare ms f)
   \<and> map getModelPrice (filterAndSortModels unit_compare ms f) = [1, 3]"
proof -
  let ?f = "\<lparr>pf_search = js ''GPT'', pf_vendor = FILTER_ALL, pf_group = js ''vip'', pf_quotaType = QUOTA_ALL,
        pf_endpointType = ENDPOINT_ALL, pf_tag = FILTER_ALL, pf_sortBy = SORT_PRICE_LOW\<rparr>"
  let ?ms = "[sample_model\<lparr>pm_model_ratio := 3\<rparr>, sample_model, sample_model\<lparr>pm_enable_groups := []\<rparr>]"
  have "map getModelPrice (filterAndSortModels unit_compare ?ms ?f) = [1, 3]"
    unfolding sample_model_def by code_simp
  moreover have "pf_sortBy ?f = SORT_PRICE_LOW" by simp
  ultimately show ?thesis
    unfolding Let_def using price_list_exact [OF units.comparison_axioms, of ?ms ?f] by blast
qed

theorem display_group_cheapest_witness:
  "\<exists>g. getDisplayGroup sample_model None = Some g \<and> g \<in> set (pm_enable_groups sample_model)
    \<and> list_all (\<lambda>h. getConfiguredGroupRatio (group_ratios sample_model) g \<le> getConfiguredGroupRatio (group_ratios sample_model) h)
        (pm_enable_groups sample_model)"
  using display_group_cheapest [of sample_model None] by (simp add: sample_model_def)

end
