(* ===== verification/ParamOverride.thy ===== *)
theory ParamOverride
  imports JsPretty JsNumber JsObject
begin

text \<open>
  Parameter overrides of a channel, as the visual editor reads and writes them: the functions of
  \<open>features/channels/components/dialogs/param-override-editor-dialog.tsx\<close> above the component. An override is a JSON text with
  a list of operations, each with conditions; the older format is a plain object.

  Identifiers are \<open>po_<time>_<seed>\<close>; the clock is the argument \<open>clk\<close>, which gives the time at which a seed is used, and the seed is
  passed on. Messages go through the translation function \<open>t\<close> with the line they are about.
\<close>

section \<open>Data\<close>

record ParamOverrideCondition =
  pc_id :: jsstr
  pc_path :: jsstr
  pc_mode :: jsstr
  pc_value_text :: jsstr
  pc_invert :: bool
  pc_pass_missing_key :: bool

record ParamOverrideOperation =
  po_id :: jsstr
  po_description :: jsstr
  po_path :: jsstr
  po_mode :: jsstr
  po_from :: jsstr
  po_to :: jsstr
  po_value_text :: jsstr
  po_keep_origin :: bool
  po_logic :: jsstr
  po_conditions :: "ParamOverrideCondition list"

definition OPERATION_MODE_OPTIONS :: "(jsstr \<times> jsstr) list" where
  "OPERATION_MODE_OPTIONS = map (\<lambda>(v, l). (js v, js l))
     [(''set'', ''Set Field''), (''delete'', ''Delete Field''), (''append'', ''Append to End''),
      (''prepend'', ''Prepend to Start''), (''copy'', ''Copy Field''), (''move'', ''Move Field''),
      (''replace'', ''String Replace''), (''regex_replace'', ''Regex Replace''), (''trim_prefix'', ''Trim Prefix''),
      (''trim_suffix'', ''Trim Suffix''), (''ensure_prefix'', ''Ensure Prefix''), (''ensure_suffix'', ''Ensure Suffix''),
      (''trim_space'', ''Trim Space''), (''to_lower'', ''To Lowercase''), (''to_upper'', ''To Uppercase''),
      (''return_error'', ''Return Custom Error''), (''prune_objects'', ''Prune Object Items''),
      (''pass_headers'', ''Pass Through Headers''), (''sync_fields'', ''Sync Fields''),
      (''set_header'', ''Set Request Header''), (''delete_header'', ''Delete Request Header''),
      (''copy_header'', ''Copy Request Header''), (''move_header'', ''Move Request Header'')]"

definition OPERATION_MODE_VALUES :: "jsstr list" where
  "OPERATION_MODE_VALUES = map fst OPERATION_MODE_OPTIONS"

definition CONDITION_MODE_VALUES :: "jsstr list" where
  "CONDITION_MODE_VALUES =
     map js [''full'', ''prefix'', ''suffix'', ''contains'', ''gt'', ''gte'', ''lt'', ''lte'']"

record ModeMeta =
  mm_path :: bool
  mm_pathOptional :: bool
  mm_value :: bool
  mm_from :: bool
  mm_to :: bool
  mm_keepOrigin :: bool
  mm_pathAlias :: bool

definition no_meta :: ModeMeta where
  "no_meta = \<lparr>mm_path = False, mm_pathOptional = False, mm_value = False, mm_from = False, mm_to = False,
     mm_keepOrigin = False, mm_pathAlias = False\<rparr>"

definition MODE_META :: "(jsstr \<times> ModeMeta) list" where
  "MODE_META =
     [(js ''delete'', no_meta\<lparr>mm_path := True\<rparr>),
      (js ''set'', no_meta\<lparr>mm_path := True, mm_value := True, mm_keepOrigin := True\<rparr>),
      (js ''append'', no_meta\<lparr>mm_path := True, mm_value := True, mm_keepOrigin := True\<rparr>),
      (js ''prepend'', no_meta\<lparr>mm_path := True, mm_value := True, mm_keepOrigin := True\<rparr>),
      (js ''copy'', no_meta\<lparr>mm_from := True, mm_to := True\<rparr>),
      (js ''move'', no_meta\<lparr>mm_from := True, mm_to := True\<rparr>),
      (js ''replace'', no_meta\<lparr>mm_path := True, mm_from := True\<rparr>),
      (js ''regex_replace'', no_meta\<lparr>mm_path := True, mm_from := True\<rparr>),
      (js ''trim_prefix'', no_meta\<lparr>mm_path := True, mm_value := True\<rparr>),
      (js ''trim_suffix'', no_meta\<lparr>mm_path := True, mm_value := True\<rparr>),
      (js ''ensure_prefix'', no_meta\<lparr>mm_path := True, mm_value := True\<rparr>),
      (js ''ensure_suffix'', no_meta\<lparr>mm_path := True, mm_value := True\<rparr>),
      (js ''trim_space'', no_meta\<lparr>mm_path := True\<rparr>),
      (js ''to_lower'', no_meta\<lparr>mm_path := True\<rparr>),
      (js ''to_upper'', no_meta\<lparr>mm_path := True\<rparr>),
      (js ''return_error'', no_meta\<lparr>mm_value := True\<rparr>),
      (js ''prune_objects'', no_meta\<lparr>mm_pathOptional := True, mm_value := True\<rparr>),
      (js ''pass_headers'', no_meta\<lparr>mm_value := True, mm_keepOrigin := True\<rparr>),
      (js ''sync_fields'', no_meta\<lparr>mm_from := True, mm_to := True\<rparr>),
      (js ''set_header'', no_meta\<lparr>mm_path := True, mm_value := True, mm_keepOrigin := True\<rparr>),
      (js ''delete_header'', no_meta\<lparr>mm_path := True\<rparr>),
      (js ''copy_header'', no_meta\<lparr>mm_from := True, mm_to := True, mm_keepOrigin := True, mm_pathAlias := True\<rparr>),
      (js ''move_header'', no_meta\<lparr>mm_from := True, mm_to := True, mm_keepOrigin := True, mm_pathAlias := True\<rparr>)]"

text \<open>\<open>operation.mode || 'set'\<close> and \<open>MODE_META[mode] || MODE_META.set\<close>\<close>

definition mode_of :: "ParamOverrideOperation \<Rightarrow> jsstr" where
  "mode_of p = str_or (Some (po_mode p)) (js ''set'')"

definition meta_of :: "jsstr \<Rightarrow> ModeMeta" where
  "meta_of mode = (case map_of MODE_META mode of Some m \<Rightarrow> m | None \<Rightarrow> the (map_of MODE_META (js ''set'')))"

definition VALUE_REQUIRED_MODES :: "jsstr list" where
  "VALUE_REQUIRED_MODES = map js [''trim_prefix'', ''trim_suffix'', ''ensure_prefix'', ''ensure_suffix'', ''set_header'',
     ''return_error'', ''prune_objects'', ''pass_headers'']"

definition FROM_REQUIRED_MODES :: "jsstr list" where
  "FROM_REQUIRED_MODES = map js [''copy'', ''move'', ''replace'', ''regex_replace'', ''copy_header'', ''move_header'', ''sync_fields'']"

definition TO_REQUIRED_MODES :: "jsstr list" where
  "TO_REQUIRED_MODES = map js [''copy'', ''move'', ''copy_header'', ''move_header'', ''sync_fields'']"

section \<open>Values and identifiers\<close>

definition nextLocalId :: "(nat \<Rightarrow> nat) \<Rightarrow> nat \<Rightarrow> jsstr" where
  "nextLocalId clk seed = js ''po_'' @ nat_str (clk seed) @ js ''_'' @ nat_str seed"

definition toValueText :: "json option \<Rightarrow> jsstr" where
  "toValueText v = (case v of None \<Rightarrow> [] | Some (JStr s) \<Rightarrow> s | Some j \<Rightarrow> stringify j)"

definition parseLooseValue :: "jsstr \<Rightarrow> json" where
  "parseLooseValue valueText =
     (let raw = trim valueText
      in if raw = [] then JStr [] else case json_parse raw of Some v \<Rightarrow> v | None \<Rightarrow> JStr raw)"

definition verifyJSON :: "jsstr \<Rightarrow> bool" where
  "verifyJSON s = (json_parse s \<noteq> None)"

definition upper_unit :: "nat \<Rightarrow> nat" where
  "upper_unit c = (if 97 \<le> c \<and> c \<le> 122 then c - 32 else c)"

definition to_upper :: "jsstr \<Rightarrow> jsstr" where
  "to_upper s = map upper_unit s"

text \<open>\<open>typeof x.k === 'string' ? x.k : ''\<close>, \<open>x.k === true\<close> and the choice of a known mode.\<close>

definition text_field :: "json \<Rightarrow> string \<Rightarrow> jsstr" where
  "text_field j k = (case json_get j (js k) of Some (JStr s) \<Rightarrow> s | _ \<Rightarrow> [])"

definition true_field :: "json \<Rightarrow> string \<Rightarrow> bool" where
  "true_field j k = (json_get j (js k) = Some (JBool True))"

definition known_mode :: "jsstr list \<Rightarrow> jsstr \<Rightarrow> json \<Rightarrow> jsstr" where
  "known_mode modes fallback j =
     (case json_get j (js ''mode'') of Some (JStr s) \<Rightarrow> if s \<in> set modes then s else fallback | _ \<Rightarrow> fallback)"

text \<open>Reading a property of \<open>null\<close> throws a \<open>TypeError\<close>, here \<open>None\<close>.\<close>

definition condition_from :: "jsstr \<Rightarrow> json \<Rightarrow> ParamOverrideCondition" where
  "condition_from i j =
     \<lparr>pc_id = i, pc_path = text_field j ''path'', pc_mode = known_mode CONDITION_MODE_VALUES (js ''full'') j,
      pc_value_text = toValueText (json_get j (js ''value'')), pc_invert = true_field j ''invert'',
      pc_pass_missing_key = true_field j ''pass_missing_key''\<rparr>"

definition normalizeParamCondition :: "(nat \<Rightarrow> nat) \<Rightarrow> nat \<Rightarrow> json \<Rightarrow> ParamOverrideCondition option" where
  "normalizeParamCondition clk n j = (if j = JNull then None else Some (condition_from (nextLocalId clk n) j))"

fun normalizeConditions :: "(nat \<Rightarrow> nat) \<Rightarrow> nat \<Rightarrow> json list \<Rightarrow> ParamOverrideCondition list option" where
  "normalizeConditions clk n [] = Some []"
| "normalizeConditions clk n (j # js') =
     (case normalizeParamCondition clk n j of
        None \<Rightarrow> None
      | Some c \<Rightarrow> map_option (\<lambda>cs. c # cs) (normalizeConditions clk (Suc n) js'))"

definition createDefaultCondition :: "(nat \<Rightarrow> nat) \<Rightarrow> nat \<Rightarrow> ParamOverrideCondition" where
  "createDefaultCondition clk n = condition_from (nextLocalId clk n) (JObj [])"

definition logic_of :: "json option \<Rightarrow> string \<Rightarrow> string \<Rightarrow> jsstr" where
  "logic_of v fallback other =
     (if to_upper (json_to_string (json_or v (JStr (js fallback)))) = js other then js other else js fallback)"

definition operation_from :: "jsstr \<Rightarrow> json \<Rightarrow> ParamOverrideCondition list \<Rightarrow> ParamOverrideOperation" where
  "operation_from i j conditions =
     \<lparr>po_id = i, po_description = text_field j ''description'', po_path = text_field j ''path'',
      po_mode = known_mode OPERATION_MODE_VALUES (js ''set'') j, po_from = text_field j ''from'', po_to = text_field j ''to'',
      po_value_text = toValueText (json_get j (js ''value'')), po_keep_origin = true_field j ''keep_origin'',
      po_logic = logic_of (json_get j (js ''logic'')) ''OR'' ''AND'', po_conditions = conditions\<rparr>"

definition normalizeOperation :: "(nat \<Rightarrow> nat) \<Rightarrow> nat \<Rightarrow> json \<Rightarrow> ParamOverrideOperation option" where
  "normalizeOperation clk n j =
     (if j = JNull then None
      else map_option (operation_from (nextLocalId clk n) j)
             (case json_get j (js ''conditions'') of
                Some (JArr cs) \<Rightarrow> normalizeConditions clk (Suc n) cs
              | _ \<Rightarrow> Some []))"

text \<open>The identifiers that an operation has used, one for itself and one for each condition.\<close>

definition ids_used :: "ParamOverrideOperation \<Rightarrow> nat" where
  "ids_used p = Suc (length (po_conditions p))"

fun normalizeOperations :: "(nat \<Rightarrow> nat) \<Rightarrow> nat \<Rightarrow> json list \<Rightarrow> ParamOverrideOperation list option" where
  "normalizeOperations clk n [] = Some []"
| "normalizeOperations clk n (j # js') =
     (case normalizeOperation clk n j of
        None \<Rightarrow> None
      | Some p \<Rightarrow> map_option (\<lambda>ps. p # ps) (normalizeOperations clk (n + ids_used p) js'))"

definition createDefaultOperation :: "(nat \<Rightarrow> nat) \<Rightarrow> nat \<Rightarrow> ParamOverrideOperation" where
  "createDefaultOperation clk n = operation_from (nextLocalId clk n) (JObj [(js ''mode'', JStr (js ''set''))]) []"

section \<open>Order and summary\<close>

datatype DropPosition = Before | After

definition index_where :: "('a \<Rightarrow> bool) \<Rightarrow> 'a list \<Rightarrow> nat option" where
  "index_where P xs = (let i = length (takeWhile (\<lambda>x. \<not> P x) xs) in if i < length xs then Some i else None)"

definition reorderOperations ::
  "ParamOverrideOperation list \<Rightarrow> jsstr \<Rightarrow> jsstr \<Rightarrow> DropPosition \<Rightarrow> ParamOverrideOperation list" where
  "reorderOperations ops sourceId targetId position =
     (if sourceId = [] \<or> targetId = [] \<or> sourceId = targetId then ops
      else case index_where (\<lambda>p. po_id p = sourceId) ops of
             None \<Rightarrow> ops
           | Some srcIdx \<Rightarrow>
               let next' = take srcIdx ops @ drop (Suc srcIdx) ops; moved = ops ! srcIdx
               in case index_where (\<lambda>p. po_id p = targetId) next' of
                    None \<Rightarrow> ops
                  | Some i \<Rightarrow>
                      let insertIdx = (case position of After \<Rightarrow> i + 1 | Before \<Rightarrow> i)
                      in take insertIdx next' @ moved # drop insertIdx next')"

definition isOperationBlank :: "ParamOverrideOperation \<Rightarrow> bool" where
  "isOperationBlank p =
     (let hasCondition = list_ex (\<lambda>c. trim (pc_path c) \<noteq> [] \<or> trim (pc_value_text c) \<noteq> [] \<or> pc_mode c \<noteq> js ''full''
            \<or> pc_invert c \<or> pc_pass_missing_key c) (po_conditions p)
      in po_mode p = js ''set'' \<and> trim (po_path p) = [] \<and> trim (po_from p) = [] \<and> trim (po_to p) = []
         \<and> trim (po_value_text p) = [] \<and> \<not> po_keep_origin p \<and> \<not> hasCondition)"

definition first_text :: "jsstr list \<Rightarrow> jsstr" where
  "first_text ts = (case filter (\<lambda>s. s \<noteq> []) ts of s # _ \<Rightarrow> s | [] \<Rightarrow> js ''-'')"

definition getOperationSummary :: "ParamOverrideOperation \<Rightarrow> nat \<Rightarrow> jsstr" where
  "getOperationSummary p index =
     (let mode = mode_of p;
          modeLabel = str_or (map_of OPERATION_MODE_OPTIONS mode) mode;
          front = nat_str (index + 1) @ js ''. '' @ modeLabel @ [32, 183, 32]
      in if mode = js ''sync_fields'' then front @ first_text [trim (po_from p), trim (po_to p)]
         else front @ first_text [trim (po_path p), trim (po_from p), trim (po_to p)])"

section \<open>Targets of synchronised fields\<close>

definition parseSyncTargetSpec :: "jsstr \<Rightarrow> jsstr \<times> jsstr" where
  "parseSyncTargetSpec spec =
     (let raw = trim spec
      in if raw = [] then (js ''json'', [])
         else case find_sub [58] raw of
                None \<Rightarrow> (js ''json'', raw)
              | Some idx \<Rightarrow>
                  let prefix' = to_lower (trim (take idx raw)); key = trim (drop (idx + 1) raw)
                  in if prefix' = js ''header'' then (js ''header'', key) else (js ''json'', key))"

definition buildSyncTargetSpec :: "jsstr \<Rightarrow> jsstr \<Rightarrow> jsstr" where
  "buildSyncTargetSpec type key =
     (let normalizedType = (if type = js ''header'' then js ''header'' else js ''json''); normalizedKey = trim key
      in if normalizedKey = [] then [] else normalizedType @ js '':'' @ normalizedKey)"
section \<open>Custom errors\<close>

record ReturnErrorDraft =
  rd_message :: jsstr
  rd_statusCode :: jsnum
  rd_code :: jsstr
  rd_type :: jsstr
  rd_skipRetry :: bool
  rd_simpleMode :: bool

definition valid_status :: "jsnum \<Rightarrow> bool" where
  "valid_status n = (case n of Num r \<Rightarrow> is_integer r \<and> 100 \<le> r \<and> r \<le> 599 | NaN \<Rightarrow> False)"

definition status_or_400 :: "jsnum \<Rightarrow> jsnum" where
  "status_or_400 n = (if valid_status n then n else Num 400)"

definition parseReturnErrorDraft :: "jsstr \<Rightarrow> ReturnErrorDraft" where
  "parseReturnErrorDraft valueText =
     (let defaults = \<lparr>rd_message = [], rd_statusCode = Num 400, rd_code = [], rd_type = [], rd_skipRetry = True,
            rd_simpleMode = True\<rparr>;
          raw = trim valueText
      in if raw = [] then defaults
         else case json_parse raw of
                Some (JObj ps) \<Rightarrow>
                  (let statusRaw = (case map_of ps (js ''status_code'') of Some v \<Rightarrow> Some v | None \<Rightarrow> map_of ps (js ''status''));
                       statusValue = (case statusRaw of Some v \<Rightarrow> json_number v | None \<Rightarrow> NaN)
                   in \<lparr>rd_message = trim (json_to_string
                         (json_or (map_of ps (js ''message'')) (json_or (map_of ps (js ''msg'')) (JStr [])))),
                       rd_statusCode = status_or_400 statusValue,
                       rd_code = trim (json_to_string (json_or (map_of ps (js ''code'')) (JStr []))),
                       rd_type = trim (json_to_string (json_or (map_of ps (js ''type'')) (JStr []))),
                       rd_skipRetry = (map_of ps (js ''skip_retry'') \<noteq> Some (JBool False)),
                       rd_simpleMode = False\<rparr>)
              | _ \<Rightarrow> defaults\<lparr>rd_message := raw\<rparr>)"

definition buildReturnErrorValueText :: "ReturnErrorDraft \<Rightarrow> jsstr" where
  "buildReturnErrorValueText draft =
     (let message = trim (rd_message draft)
      in if rd_simpleMode draft then message
         else let statusCode = (case status_or_400 (rd_statusCode draft) of Num r \<Rightarrow> r | NaN \<Rightarrow> 400);
                  code = trim (rd_code draft); type = trim (rd_type draft)
              in stringify (JObj
                   ([(js ''message'', JStr message), (js ''status_code'', JNum statusCode)]
                    @ (if code \<noteq> [] then [(js ''code'', JStr code)] else [])
                    @ (if type \<noteq> [] then [(js ''type'', JStr type)] else [])
                    @ (if \<not> rd_skipRetry draft then [(js ''skip_retry'', JBool False)] else []))))"

section \<open>Pruning objects\<close>

text \<open>A \<open>PruneRule\<close> has the fields of a condition and is normalised like one.\<close>

type_synonym PruneRule = ParamOverrideCondition

record PruneObjectsDraft =
  pd_simpleMode :: bool
  pd_typeText :: jsstr
  pd_logic :: jsstr
  pd_recursive :: bool
  pd_rules :: "PruneRule list"

definition normalizePruneRule :: "(nat \<Rightarrow> nat) \<Rightarrow> nat \<Rightarrow> json \<Rightarrow> PruneRule" where
  "normalizePruneRule clk n j = condition_from (nextLocalId clk n) j"

fun normalizePruneRules :: "(nat \<Rightarrow> nat) \<Rightarrow> nat \<Rightarrow> json list \<Rightarrow> PruneRule list" where
  "normalizePruneRules clk n [] = []"
| "normalizePruneRules clk n (j # js') = normalizePruneRule clk n j # normalizePruneRules clk (Suc n) js'"

definition entry_rules :: "(jsstr \<times> json) list \<Rightarrow> json list" where
  "entry_rules ps = map (\<lambda>(path, v). JObj [(js ''path'', JStr path), (js ''mode'', JStr (js ''full'')), (js ''value'', v)]) ps"

definition object_item :: "json \<Rightarrow> bool" where
  "object_item j = (case j of JObj _ \<Rightarrow> True | JArr _ \<Rightarrow> True | _ \<Rightarrow> False)"

definition prune_sources :: "(jsstr \<times> json) list \<Rightarrow> json list" where
  "prune_sources ps =
     (case map_of ps (js ''where'') of Some (JObj w) \<Rightarrow> entry_rules w | _ \<Rightarrow> [])
     @ (case map_of ps (js ''conditions'') of
          Some (JArr items) \<Rightarrow> filter object_item items
        | Some (JObj c) \<Rightarrow> entry_rules c
        | _ \<Rightarrow> [])"

definition PRUNE_DEFAULTS :: PruneObjectsDraft where
  "PRUNE_DEFAULTS = \<lparr>pd_simpleMode = True, pd_typeText = [], pd_logic = js ''AND'', pd_recursive = True, pd_rules = []\<rparr>"

definition parsePruneObjectsDraft :: "(nat \<Rightarrow> nat) \<Rightarrow> nat \<Rightarrow> jsstr \<Rightarrow> PruneObjectsDraft" where
  "parsePruneObjectsDraft clk n valueText =
     (let raw = trim valueText
      in if raw = [] then PRUNE_DEFAULTS
         else case json_parse raw of
                None \<Rightarrow> PRUNE_DEFAULTS\<lparr>pd_typeText := raw\<rparr>
              | Some (JStr s) \<Rightarrow> PRUNE_DEFAULTS\<lparr>pd_typeText := trim s\<rparr>
              | Some (JObj ps) \<Rightarrow>
                  \<lparr>pd_simpleMode = (\<forall>k \<in> set [''logic'', ''recursive'', ''where'', ''conditions'']. map_of ps (js k) = None),
                   pd_typeText = (case map_of ps (js ''type'') of None \<Rightarrow> [] | Some v \<Rightarrow> trim (json_to_string v)),
                   pd_logic = logic_of (map_of ps (js ''logic'')) ''AND'' ''OR'',
                   pd_recursive = (map_of ps (js ''recursive'') \<noteq> Some (JBool False)),
                   pd_rules = normalizePruneRules clk n (prune_sources ps)\<rparr>
              | Some JNull \<Rightarrow> PRUNE_DEFAULTS
              | Some v \<Rightarrow> PRUNE_DEFAULTS\<lparr>pd_typeText := trim (json_to_string v)\<rparr>)"

definition prune_condition :: "PruneRule \<Rightarrow> json" where
  "prune_condition rule =
     (let valueRaw = trim (pc_value_text rule)
      in JObj ([(js ''path'', JStr (trim (pc_path rule))),
                (js ''mode'', JStr (if pc_mode rule \<in> set CONDITION_MODE_VALUES then pc_mode rule else js ''full''))]
               @ (if valueRaw \<noteq> [] then [(js ''value'', parseLooseValue valueRaw)] else [])
               @ (if pc_invert rule then [(js ''invert'', JBool True)] else [])
               @ (if pc_pass_missing_key rule then [(js ''pass_missing_key'', JBool True)] else [])))"

definition buildPruneObjectsValueText :: "PruneObjectsDraft \<Rightarrow> jsstr" where
  "buildPruneObjectsValueText draft =
     (let typeText = trim (pd_typeText draft)
      in if pd_simpleMode draft then typeText
         else let conditions = map prune_condition (filter (\<lambda>r. trim (pc_path r) \<noteq> []) (pd_rules draft))
              in if typeText = [] \<and> conditions = [] then stringify (JObj [(js ''logic'', JStr (js ''AND''))])
                 else stringify (JObj
                   ((if typeText \<noteq> [] then [(js ''type'', JStr typeText)] else [])
                    @ (if to_upper (str_or (Some (pd_logic draft)) (js ''AND'')) = js ''OR'' then [(js ''logic'', JStr (js ''OR''))] else [])
                    @ (if \<not> pd_recursive draft then [(js ''recursive'', JBool False)] else [])
                    @ (if conditions \<noteq> [] then [(js ''conditions'', JArr conditions)] else []))))"

section \<open>Headers and conditions\<close>

definition header_names :: "json list \<Rightarrow> jsstr list" where
  "header_names xs = filter (\<lambda>s. s \<noteq> []) (map (\<lambda>i. if i = JNull then [] else trim (json_to_string i)) xs)"

definition parsePassHeaderNames :: "json \<Rightarrow> jsstr list" where
  "parsePassHeaderNames rawValue =
     (case rawValue of
        JArr xs \<Rightarrow> header_names xs
      | JObj ps \<Rightarrow>
          (case map_of ps (js ''headers'') of
             Some (JArr xs) \<Rightarrow> header_names xs
           | _ \<Rightarrow> (case map_of ps (js ''header'') of Some h \<Rightarrow> header_names [h] | None \<Rightarrow> []))
      | JStr s \<Rightarrow> filter (\<lambda>s. s \<noteq> []) (map trim (split_char 44 s))
      | _ \<Rightarrow> [])"

definition buildConditionPayload :: "ParamOverrideCondition \<Rightarrow> json option" where
  "buildConditionPayload c =
     (let path = trim (pc_path c)
      in if path = [] then None
         else Some (JObj ([(js ''path'', JStr path), (js ''mode'', JStr (str_or (Some (pc_mode c)) (js ''full''))),
                           (js ''value'', parseLooseValue (pc_value_text c))]
                 @ (if pc_invert c then [(js ''invert'', JBool True)] else [])
                 @ (if pc_pass_missing_key c then [(js ''pass_missing_key'', JBool True)] else []))))"

section \<open>Validation\<close>

definition return_error_without_message :: "jsstr \<Rightarrow> bool" where
  "return_error_without_message raw =
     (case json_parse raw of
        Some (JObj ps) \<Rightarrow> trim (json_to_string (json_or (map_of ps (js ''message'')) (JStr []))) = []
      | _ \<Rightarrow> False)"

text \<open>
  The message of one rule, \<open>None\<close> when it has nothing to complain about. The later tests for an empty value cannot be reached: the modes
  they are about are among \<open>VALUE_REQUIRED_MODES\<close>.
\<close>

definition validateOperation :: "(jsstr \<Rightarrow> nat \<Rightarrow> jsstr) \<Rightarrow> nat \<Rightarrow> ParamOverrideOperation \<Rightarrow> jsstr option" where
  "validateOperation t line p =
     (let mode = mode_of p; meta = meta_of mode; pathValue = trim (po_path p); raw = trim (po_value_text p);
          aliased = (mm_pathAlias meta \<and> pathValue \<noteq> [])
      in if mm_path meta \<and> pathValue = [] then Some (t (js ''Rule {{line}} is missing target path'') line)
         else if mode \<in> set FROM_REQUIRED_MODES \<and> trim (po_from p) = [] \<and> \<not> aliased
              then Some (t (js ''Rule {{line}} is missing source field'') line)
         else if mode \<in> set TO_REQUIRED_MODES \<and> trim (po_to p) = [] \<and> \<not> aliased
              then Some (t (js ''Rule {{line}} is missing target field'') line)
         else if mode \<in> set VALUE_REQUIRED_MODES \<and> raw = [] then Some (t (js ''Rule {{line}} is missing value'') line)
         else if mode = js ''return_error'' \<and> return_error_without_message raw
              then Some (t (js ''Rule {{line}} return_error requires a message field'') line)
         else if mode = js ''pass_headers'' \<and> parsePassHeaderNames (parseLooseValue raw) = []
              then Some (t (js ''Rule {{line}} pass_headers format is invalid'') line)
         else None)"

fun validateFrom :: "(jsstr \<Rightarrow> nat \<Rightarrow> jsstr) \<Rightarrow> nat \<Rightarrow> ParamOverrideOperation list \<Rightarrow> jsstr" where
  "validateFrom t line [] = []"
| "validateFrom t line (p # ps) =
     (case validateOperation t line p of Some m \<Rightarrow> m | None \<Rightarrow> validateFrom t (Suc line) ps)"

definition validateOperations :: "(jsstr \<Rightarrow> nat \<Rightarrow> jsstr) \<Rightarrow> ParamOverrideOperation list \<Rightarrow> jsstr" where
  "validateOperations t operations = validateFrom t 1 operations"

section \<open>Texts\<close>

definition falsy_text :: "jsstr \<Rightarrow> (jsstr \<times> json) list \<Rightarrow> bool" where
  "falsy_text k ps = (case map_of ps k of Some v \<Rightarrow> \<not> json_truthy v | None \<Rightarrow> True)"

definition operationPayload :: "ParamOverrideOperation \<Rightarrow> json" where
  "operationPayload p =
     (let mode = mode_of p; meta = meta_of mode;
          descriptionValue = trim (po_description p); pathValue = trim (po_path p);
          fromValue = trim (po_from p); toValue = trim (po_to p);
          put = (\<lambda>b k v ps. if b then al_put (js k) v ps else ps);
          p0 = [(js ''mode'', JStr mode)];
          p1 = put (descriptionValue \<noteq> []) ''description'' (JStr descriptionValue) p0;
          p2 = put (mm_path meta) ''path'' (JStr pathValue) p1;
          p3 = put (mm_pathOptional meta \<and> pathValue \<noteq> []) ''path'' (JStr pathValue) p2;
          p4 = put (mm_value meta) ''value'' (parseLooseValue (po_value_text p)) p3;
          p5 = put (mm_keepOrigin meta \<and> po_keep_origin p) ''keep_origin'' (JBool True) p4;
          p6 = put (mm_from meta) ''from'' (JStr fromValue) p5;
          p7 = put (\<not> mm_to meta \<and> toValue \<noteq> []) ''to'' (JStr toValue) p6;
          p8 = put (mm_to meta) ''to'' (JStr toValue) p7;
          p9 = put (mm_pathAlias meta \<and> falsy_text (js ''from'') p8 \<and> pathValue \<noteq> []) ''from'' (JStr pathValue) p8;
          p10 = put (mm_pathAlias meta \<and> falsy_text (js ''to'') p9 \<and> pathValue \<noteq> []) ''to'' (JStr pathValue) p9;
          conditions = map the (filter (\<lambda>c. c \<noteq> None) (map buildConditionPayload (po_conditions p)));
          p11 = put (conditions \<noteq> []) ''conditions'' (JArr conditions) p10;
          p12 = put (conditions \<noteq> []) ''logic'' (JStr (if po_logic p = js ''AND'' then js ''AND'' else js ''OR'')) p11
      in JObj p12)"

text \<open>The left side is the message of the error thrown.\<close>

definition buildOperationsJson ::
  "ParamOverrideOperation list \<Rightarrow> bool \<Rightarrow> (jsstr \<Rightarrow> nat \<Rightarrow> jsstr) \<Rightarrow> jsstr + jsstr" where
  "buildOperationsJson sourceOperations validate t =
     (let filteredOps = filter (\<lambda>p. \<not> isOperationBlank p) sourceOperations
      in if filteredOps = [] then Inr []
         else let message = (if validate then validateOperations t filteredOps else [])
              in if message \<noteq> [] then Inl message
                 else Inr (stringify_indented (JObj [(js ''operations'', JArr (map operationPayload filteredOps))])))"

datatype EditMode = ModeVisual | ModeJson
datatype VisualMode = VisualOperations | VisualLegacy

record EditorState =
  es_editMode :: EditMode
  es_visualMode :: VisualMode
  es_legacyValue :: jsstr
  es_operations :: "ParamOverrideOperation list"
  es_jsonText :: jsstr
  es_jsonError :: jsstr

definition operations_or_default :: "(nat \<Rightarrow> nat) \<Rightarrow> nat \<Rightarrow> json list \<Rightarrow> ParamOverrideOperation list option" where
  "operations_or_default clk n items =
     (if items \<noteq> [] then normalizeOperations clk n items else Some [createDefaultOperation clk n])"

definition parseInitialState :: "(nat \<Rightarrow> nat) \<Rightarrow> nat \<Rightarrow> jsstr \<Rightarrow> EditorState option" where
  "parseInitialState clk n rawValue =
     (let trimmed' = trim rawValue;
          fallback = \<lparr>es_editMode = ModeVisual, es_visualMode = VisualOperations, es_legacyValue = [],
            es_operations = [createDefaultOperation clk n], es_jsonText = [], es_jsonError = []\<rparr>
      in if trimmed' = [] then Some fallback
         else case json_parse trimmed' of
                None \<Rightarrow> Some (fallback\<lparr>es_editMode := ModeJson, es_jsonText := rawValue, es_jsonError := js ''Invalid JSON format''\<rparr>)
              | Some parsed \<Rightarrow>
                  let pretty' = stringify_indented parsed
                  in (case parsed of
                        JObj ps \<Rightarrow>
                          (case map_of ps (js ''operations'') of
                             Some (JArr items) \<Rightarrow>
                               map_option (\<lambda>ops. fallback\<lparr>es_operations := ops, es_jsonText := pretty'\<rparr>)
                                 (operations_or_default clk n items)
                           | _ \<Rightarrow> Some (fallback\<lparr>es_visualMode := VisualLegacy, es_legacyValue := pretty', es_jsonText := pretty'\<rparr>))
                      | _ \<Rightarrow> Some (fallback\<lparr>es_editMode := ModeJson, es_jsonText := pretty'\<rparr>)))"


end
