(* ===== verification/ParamEditor.thy ===== *)
theory ParamEditor
  imports ParamOverride JsSort
begin

text \<open>
  The component \<open>ParamOverrideEditorDialog\<close> of
  \<open>features/channels/components/dialogs/param-override-editor-dialog.tsx\<close>: its state, its callbacks and the templates.
  \<open>editor_step\<close> is one action of the user followed by the effect that keeps the selection valid.

  A functional update may run before or after the statement behind it; \<open>duplicateOperation\<close> depends on that, so that
  \<open>eager\<close> is an argument there. Patches never contain an identifier or conditions.
\<close>

section \<open>Templates\<close>

definition LEGACY_TEMPLATE :: "(jsstr \<times> json) list" where
  "LEGACY_TEMPLATE = [(js ''temperature'', JNum 0), (js ''max_tokens'', JNum 1000)]"

definition jo :: "(string \<times> json) list \<Rightarrow> json" where
  "jo ps = JObj (map (\<lambda>(k, v). (js k, v)) ps)"

definition jt :: "string \<Rightarrow> json" where
  "jt s = JStr (js s)"

definition OPERATION_TEMPLATE :: "json list" where
  "OPERATION_TEMPLATE =
     [jo [(''description'', jt ''Set default temperature for openai/* models.''), (''path'', jt ''temperature''),
          (''mode'', jt ''set''), (''value'', JNum (7 / 10)),
          (''conditions'', JArr [jo [(''path'', jt ''model''), (''mode'', jt ''prefix''), (''value'', jt ''openai/'')]]),
          (''logic'', jt ''AND'')]]"

definition HEADER_PASSTHROUGH_TEMPLATE :: "json list" where
  "HEADER_PASSTHROUGH_TEMPLATE =
     [jo [(''description'', jt ''Pass through X-Request-Id header to upstream.''), (''mode'', jt ''pass_headers''),
          (''value'', JArr [jt ''X-Request-Id'']), (''keep_origin'', JBool True)]]"

definition GEMINI_IMAGE_4K_TEMPLATE :: "json list" where
  "GEMINI_IMAGE_4K_TEMPLATE =
     [jo [(''description'', jt ''Set imageSize to 4K when model contains gemini/image and ends with 4k.''), (''mode'', jt ''set''),
          (''path'', jt ''generationConfig.imageConfig.imageSize''), (''value'', jt ''4K''),
          (''conditions'', JArr
             [jo [(''path'', jt ''original_model''), (''mode'', jt ''contains''), (''value'', jt ''gemini'')],
              jo [(''path'', jt ''original_model''), (''mode'', jt ''contains''), (''value'', jt ''image'')],
              jo [(''path'', jt ''original_model''), (''mode'', jt ''suffix''), (''value'', jt ''4k'')]]),
          (''logic'', jt ''AND'')]]"

definition CODEX_CLI_HEADER_PASSTHROUGH_HEADERS :: "string list" where
  "CODEX_CLI_HEADER_PASSTHROUGH_HEADERS =
     [''Originator'', ''Session_id'', ''Thread_id'', ''Session-Id'', ''Thread-Id'', ''X-Client-Request-Id'', ''User-Agent'',
      ''X-Codex-Beta-Features'', ''X-Codex-Turn-State'', ''X-Codex-Turn-Metadata'', ''X-Codex-Window-Id'',
      ''X-Codex-Parent-Thread-Id'', ''X-OpenAI-Subagent'', ''X-OpenAI-Memgen-Request'',
      ''X-ResponsesAPI-Include-Timing-Metrics'', ''X-OpenAI-Internal-Codex-Responses-Lite'']"

definition CLAUDE_CLI_HEADER_PASSTHROUGH_HEADERS :: "string list" where
  "CLAUDE_CLI_HEADER_PASSTHROUGH_HEADERS =
     [''X-Stainless-Arch'', ''X-Stainless-Lang'', ''X-Stainless-Os'', ''X-Stainless-Package-Version'',
      ''X-Stainless-Retry-Count'', ''X-Stainless-Runtime'', ''X-Stainless-Runtime-Version'', ''X-Stainless-Timeout'',
      ''User-Agent'', ''X-App'', ''Anthropic-Beta'', ''Anthropic-Dangerous-Direct-Browser-Access'', ''Anthropic-Version'']"

definition buildPassHeadersTemplate :: "string list \<Rightarrow> json list" where
  "buildPassHeadersTemplate headers =
     [jo [(''mode'', jt ''pass_headers''), (''value'', JArr (map jt headers)), (''keep_origin'', JBool True)]]"

definition AWS_BEDROCK_ANTHROPIC_COMPAT_TEMPLATE :: "json list" where
  "AWS_BEDROCK_ANTHROPIC_COMPAT_TEMPLATE =
     [jo [(''description'', jt ''Normalize anthropic-beta header tokens for Bedrock compatibility.''),
          (''mode'', jt ''set_header''), (''path'', jt ''anthropic-beta''),
          (''value'', jo
            [(''advanced-tool-use-2025-11-20'', jt ''tool-search-tool-2025-10-19''), (''bash_20241022'', JNull), (''bash_20250124'', JNull),
             (''code-execution-2025-08-25'', JNull), (''compact-2026-01-12'', jt ''compact-2026-01-12''),
             (''computer-use-2025-01-24'', jt ''computer-use-2025-01-24''), (''computer-use-2025-11-24'', jt ''computer-use-2025-11-24''),
             (''context-1m-2025-08-07'', jt ''context-1m-2025-08-07''),
             (''context-management-2025-06-27'', jt ''context-management-2025-06-27''), (''effort-2025-11-24'', JNull),
             (''fast-mode-2026-02-01'', JNull), (''files-api-2025-04-14'', JNull),
             (''fine-grained-tool-streaming-2025-05-14'', JNull),
             (''interleaved-thinking-2025-05-14'', jt ''interleaved-thinking-2025-05-14''), (''mcp-client-2025-11-20'', JNull),
             (''mcp-client-2025-04-04'', JNull), (''mcp-servers-2025-12-04'', JNull), (''output-128k-2025-02-19'', JNull),
             (''structured-output-2024-03-01'', JNull), (''prompt-caching-scope-2026-01-05'', JNull), (''skills-2025-10-02'', JNull),
             (''structured-outputs-2025-11-13'', JNull), (''text_editor_20241022'', JNull), (''text_editor_20250124'', JNull),
             (''token-efficient-tools-2025-02-19'', JNull), (''tool-search-tool-2025-10-19'', jt ''tool-search-tool-2025-10-19''),
             (''web-fetch-2025-09-10'', JNull), (''web-search-2025-03-05'', JNull), (''oauth-2025-04-20'', JNull)])],
      jo [(''description'', jt ''Remove all tools[*].custom.input_examples before upstream relay.''), (''mode'', jt ''delete''),
          (''path'', jt ''tools.*.custom.input_examples'')]]"

text \<open>A template holds the legacy object or the list \<open>payload.operations\<close>.\<close>

datatype TemplatePreset = LegacyTemplate "(jsstr \<times> json) list" | OperationsTemplate "json list"

definition TEMPLATE_PRESET_CONFIG :: "(jsstr \<times> TemplatePreset) list" where
  "TEMPLATE_PRESET_CONFIG =
     [(js ''operations_default'', OperationsTemplate OPERATION_TEMPLATE),
      (js ''legacy_default'', LegacyTemplate LEGACY_TEMPLATE),
      (js ''pass_headers_auth'', OperationsTemplate HEADER_PASSTHROUGH_TEMPLATE),
      (js ''gemini_image_4k'', OperationsTemplate GEMINI_IMAGE_4K_TEMPLATE),
      (js ''claude_cli_headers_passthrough'', OperationsTemplate (buildPassHeadersTemplate CLAUDE_CLI_HEADER_PASSTHROUGH_HEADERS)),
      (js ''codex_cli_headers_passthrough'', OperationsTemplate (buildPassHeadersTemplate CODEX_CLI_HEADER_PASSTHROUGH_HEADERS)),
      (js ''aws_bedrock_anthropic_beta_override'', OperationsTemplate AWS_BEDROCK_ANTHROPIC_COMPAT_TEMPLATE)]"

section \<open>State\<close>

record Editor =
  ed_editMode :: EditMode
  ed_visualMode :: VisualMode
  ed_legacyValue :: jsstr
  ed_operations :: "ParamOverrideOperation list"
  ed_jsonText :: jsstr
  ed_jsonError :: jsstr
  ed_operationSearch :: jsstr
  ed_selectedOperationId :: jsstr
  ed_expandedConditions :: "(jsstr \<times> bool) list"
  ed_draggedOperationId :: jsstr
  ed_dragOverOperationId :: jsstr
  ed_dragOverPosition :: DropPosition
  ed_templatePresetKey :: jsstr
  ed_localIdSeed :: nat

definition initialEditor :: "(nat \<Rightarrow> nat) \<Rightarrow> Editor" where
  "initialEditor clk =
     \<lparr>ed_editMode = ModeVisual, ed_visualMode = VisualOperations, ed_legacyValue = [],
      ed_operations = [createDefaultOperation clk 0], ed_jsonText = [], ed_jsonError = [], ed_operationSearch = [],
      ed_selectedOperationId = [], ed_expandedConditions = [], ed_draggedOperationId = [], ed_dragOverOperationId = [],
      ed_dragOverPosition = Before, ed_templatePresetKey = js ''operations_default'', ed_localIdSeed = 1\<rparr>"

definition first_id :: "ParamOverrideOperation list \<Rightarrow> jsstr" where
  "first_id ops = (case ops of p # _ \<Rightarrow> po_id p | [] \<Rightarrow> [])"

text \<open>The seed after a list of operations has been normalised.\<close>

definition seed_after :: "nat \<Rightarrow> ParamOverrideOperation list \<Rightarrow> nat" where
  "seed_after n ops = n + sum_list (map ids_used ops)"

definition openDialog :: "(nat \<Rightarrow> nat) \<Rightarrow> jsstr \<Rightarrow> Editor \<Rightarrow> Editor option" where
  "openDialog clk v st =
     map_option (\<lambda>s. st\<lparr>ed_editMode := es_editMode s, ed_visualMode := es_visualMode s, ed_legacyValue := es_legacyValue s,
       ed_operations := es_operations s, ed_jsonText := es_jsonText s, ed_jsonError := es_jsonError s, ed_operationSearch := [],
       ed_selectedOperationId := first_id (es_operations s), ed_expandedConditions := [], ed_draggedOperationId := [],
       ed_dragOverOperationId := [], ed_dragOverPosition := Before,
       ed_templatePresetKey := (if es_visualMode s = VisualLegacy then js ''legacy_default'' else js ''operations_default''),
       ed_localIdSeed := seed_after (ed_localIdSeed st) (es_operations s)\<rparr>)
       (parseInitialState clk (ed_localIdSeed st) v)"

definition keepSelectedOperation :: "Editor \<Rightarrow> Editor" where
  "keepSelectedOperation st =
     (if ed_operations st = [] then st\<lparr>ed_selectedOperationId := []\<rparr>
      else if \<not> list_ex (\<lambda>p. po_id p = ed_selectedOperationId st) (ed_operations st)
           then st\<lparr>ed_selectedOperationId := first_id (ed_operations st)\<rparr>
      else st)"

definition operationCount :: "Editor \<Rightarrow> nat" where
  "operationCount st = length (filter (\<lambda>p. \<not> isOperationBlank p) (ed_operations st))"

definition filteredOperations :: "Editor \<Rightarrow> ParamOverrideOperation list" where
  "filteredOperations st =
     (let keyword = to_lower (trim (ed_operationSearch st))
      in if keyword = [] then ed_operations st
         else filter (\<lambda>p. has_sub keyword (to_lower (join [32] (filter (\<lambda>s. s \<noteq> [])
                [po_description p, po_mode p, po_path p, po_from p, po_to p, po_value_text p])))) (ed_operations st))"

definition selectedOperation :: "Editor \<Rightarrow> ParamOverrideOperation option" where
  "selectedOperation st = List.find (\<lambda>p. po_id p = ed_selectedOperationId st) (ed_operations st)"

definition topOperationModes :: "Editor \<Rightarrow> (jsstr \<times> nat) list" where
  "topOperationModes st =
     (let counts = foldl (\<lambda>cs p. let mode = mode_of p in
            al_put mode ((case map_of cs mode of Some n \<Rightarrow> n | None \<Rightarrow> 0) + 1) cs) [] (ed_operations st)
      in take 4 (js_sort (\<lambda>a b. of_nat (snd b) - of_nat (snd a)) counts))"

section \<open>Operations and conditions\<close>

record OperationPatch =
  up_description :: "jsstr option"
  up_path :: "jsstr option"
  up_mode :: "jsstr option"
  up_from :: "jsstr option"
  up_to :: "jsstr option"
  up_value_text :: "jsstr option"
  up_keep_origin :: "bool option"
  up_logic :: "jsstr option"

definition patched :: "'a \<Rightarrow> 'a option \<Rightarrow> 'a" where
  "patched old p = (case p of Some v \<Rightarrow> v | None \<Rightarrow> old)"

definition patchOperation :: "OperationPatch \<Rightarrow> ParamOverrideOperation \<Rightarrow> ParamOverrideOperation" where
  "patchOperation u p = p\<lparr>po_description := patched (po_description p) (up_description u), po_path := patched (po_path p) (up_path u),
     po_mode := patched (po_mode p) (up_mode u), po_from := patched (po_from p) (up_from u), po_to := patched (po_to p) (up_to u),
     po_value_text := patched (po_value_text p) (up_value_text u), po_keep_origin := patched (po_keep_origin p) (up_keep_origin u),
     po_logic := patched (po_logic p) (up_logic u)\<rparr>"

definition on_operation ::
  "jsstr \<Rightarrow> (ParamOverrideOperation \<Rightarrow> ParamOverrideOperation) \<Rightarrow> Editor \<Rightarrow> Editor" where
  "on_operation operationId f st =
     st\<lparr>ed_operations := map (\<lambda>p. if po_id p = operationId then f p else p) (ed_operations st)\<rparr>"

definition updateOperation :: "jsstr \<Rightarrow> OperationPatch \<Rightarrow> Editor \<Rightarrow> Editor" where
  "updateOperation operationId u st = on_operation operationId (patchOperation u) st"

definition addOperation :: "(nat \<Rightarrow> nat) \<Rightarrow> Editor \<Rightarrow> Editor" where
  "addOperation clk st =
     (let created = createDefaultOperation clk (ed_localIdSeed st)
      in st\<lparr>ed_operations := ed_operations st @ [created], ed_selectedOperationId := po_id created,
            ed_localIdSeed := Suc (ed_localIdSeed st)\<rparr>)"

definition conditionSource :: "ParamOverrideCondition \<Rightarrow> json" where
  "conditionSource c = jo [(''path'', JStr (pc_path c)), (''mode'', JStr (pc_mode c)), (''value'', parseLooseValue (pc_value_text c)),
     (''invert'', JBool (pc_invert c)), (''pass_missing_key'', JBool (pc_pass_missing_key c))]"

definition operationSource :: "ParamOverrideOperation \<Rightarrow> json" where
  "operationSource p = jo [(''description'', JStr (po_description p)), (''path'', JStr (po_path p)), (''mode'', JStr (po_mode p)),
     (''value'', parseLooseValue (po_value_text p)), (''keep_origin'', JBool (po_keep_origin p)), (''from'', JStr (po_from p)),
     (''to'', JStr (po_to p)), (''logic'', JStr (po_logic p)), (''conditions'', JArr (map conditionSource (po_conditions p)))]"

definition duplicateOperation :: "(nat \<Rightarrow> nat) \<Rightarrow> bool \<Rightarrow> jsstr \<Rightarrow> Editor \<Rightarrow> Editor" where
  "duplicateOperation clk eager operationId st =
     (case index_where (\<lambda>p. po_id p = operationId) (ed_operations st) of
        None \<Rightarrow> st
      | Some idx \<Rightarrow>
          (case normalizeOperation clk (ed_localIdSeed st) (operationSource (ed_operations st ! idx)) of
             None \<Rightarrow> st
           | Some cloned \<Rightarrow>
               st\<lparr>ed_operations := take (idx + 1) (ed_operations st) @ cloned # drop (idx + 1) (ed_operations st),
                  ed_selectedOperationId := (if eager then po_id cloned else ed_selectedOperationId st),
                  ed_localIdSeed := ed_localIdSeed st + ids_used cloned\<rparr>))"

definition removeOperation :: "(nat \<Rightarrow> nat) \<Rightarrow> jsstr \<Rightarrow> Editor \<Rightarrow> Editor" where
  "removeOperation clk operationId st =
     (if length (ed_operations st) \<le> 1
      then st\<lparr>ed_operations := [createDefaultOperation clk (ed_localIdSeed st)], ed_localIdSeed := Suc (ed_localIdSeed st)\<rparr>
      else st\<lparr>ed_operations := filter (\<lambda>p. po_id p \<noteq> operationId) (ed_operations st)\<rparr>)"

definition addCondition :: "(nat \<Rightarrow> nat) \<Rightarrow> jsstr \<Rightarrow> Editor \<Rightarrow> Editor" where
  "addCondition clk operationId st =
     (let created = createDefaultCondition clk (ed_localIdSeed st)
      in (on_operation operationId (\<lambda>p. p\<lparr>po_conditions := po_conditions p @ [created]\<rparr>) st)
           \<lparr>ed_expandedConditions := al_put (pc_id created) True (ed_expandedConditions st),
            ed_localIdSeed := Suc (ed_localIdSeed st)\<rparr>)"

record ConditionPatch =
  uc_path :: "jsstr option"
  uc_mode :: "jsstr option"
  uc_value_text :: "jsstr option"
  uc_invert :: "bool option"
  uc_pass_missing_key :: "bool option"

definition patchCondition :: "ConditionPatch \<Rightarrow> ParamOverrideCondition \<Rightarrow> ParamOverrideCondition" where
  "patchCondition u c = c\<lparr>pc_path := patched (pc_path c) (uc_path u), pc_mode := patched (pc_mode c) (uc_mode u),
     pc_value_text := patched (pc_value_text c) (uc_value_text u), pc_invert := patched (pc_invert c) (uc_invert u),
     pc_pass_missing_key := patched (pc_pass_missing_key c) (uc_pass_missing_key u)\<rparr>"

definition updateCondition :: "jsstr \<Rightarrow> jsstr \<Rightarrow> ConditionPatch \<Rightarrow> Editor \<Rightarrow> Editor" where
  "updateCondition operationId conditionId u st =
     on_operation operationId (\<lambda>p. p\<lparr>po_conditions :=
       map (\<lambda>c. if pc_id c = conditionId then patchCondition u c else c) (po_conditions p)\<rparr>) st"

definition removeCondition :: "jsstr \<Rightarrow> jsstr \<Rightarrow> Editor \<Rightarrow> Editor" where
  "removeCondition operationId conditionId st =
     on_operation operationId (\<lambda>p. p\<lparr>po_conditions := filter (\<lambda>c. pc_id c \<noteq> conditionId) (po_conditions p)\<rparr>) st"

section \<open>Drafts of values\<close>

text \<open>The patch of a draft is given as the draft it produces.\<close>

definition updateReturnErrorDraft :: "jsstr \<Rightarrow> (ReturnErrorDraft \<Rightarrow> ReturnErrorDraft) \<Rightarrow> Editor \<Rightarrow> Editor" where
  "updateReturnErrorDraft operationId draftPatch st =
     on_operation operationId (\<lambda>p. p\<lparr>po_value_text :=
       buildReturnErrorValueText (draftPatch (parseReturnErrorDraft (po_value_text p)))\<rparr>) st"

text \<open>
  Reading a draft gives every rule of it a new identifier, also for the memoised draft that is shown. The number of identifiers a
  draft uses is the number of its rules.
\<close>

definition draft_of :: "(nat \<Rightarrow> nat) \<Rightarrow> nat \<Rightarrow> jsstr \<Rightarrow> ParamOverrideOperation list \<Rightarrow> PruneObjectsDraft" where
  "draft_of clk n operationId ops =
     (case List.find (\<lambda>p. po_id p = operationId) ops of
        Some p \<Rightarrow> parsePruneObjectsDraft clk n (po_value_text p) | None \<Rightarrow> PRUNE_DEFAULTS)"

definition updatePruneObjectsDraft ::
  "(nat \<Rightarrow> nat) \<Rightarrow> jsstr \<Rightarrow> (PruneObjectsDraft \<Rightarrow> PruneObjectsDraft) \<Rightarrow> Editor \<Rightarrow> Editor" where
  "updatePruneObjectsDraft clk operationId updater st =
     (on_operation operationId (\<lambda>p. p\<lparr>po_value_text :=
        buildPruneObjectsValueText (updater (parsePruneObjectsDraft clk (ed_localIdSeed st) (po_value_text p)))\<rparr>) st)
       \<lparr>ed_localIdSeed := ed_localIdSeed st + length (pd_rules (draft_of clk (ed_localIdSeed st) operationId (ed_operations st)))\<rparr>"

definition addPruneRule :: "(nat \<Rightarrow> nat) \<Rightarrow> jsstr \<Rightarrow> Editor \<Rightarrow> Editor" where
  "addPruneRule clk operationId st =
     (let st' = updatePruneObjectsDraft clk operationId
        (\<lambda>draft. draft\<lparr>pd_simpleMode := False,
           pd_rules := pd_rules draft @ [normalizePruneRule clk (ed_localIdSeed st + length (pd_rules draft)) (JObj [])]\<rparr>) st
      in st'\<lparr>ed_localIdSeed := Suc (ed_localIdSeed st')\<rparr>)"

definition updatePruneRule :: "(nat \<Rightarrow> nat) \<Rightarrow> jsstr \<Rightarrow> jsstr \<Rightarrow> ConditionPatch \<Rightarrow> Editor \<Rightarrow> Editor" where
  "updatePruneRule clk operationId ruleId u st =
     updatePruneObjectsDraft clk operationId
       (\<lambda>draft. draft\<lparr>pd_rules := map (\<lambda>r. if pc_id r = ruleId then patchCondition u r else r) (pd_rules draft)\<rparr>) st"

definition removePruneRule :: "(nat \<Rightarrow> nat) \<Rightarrow> jsstr \<Rightarrow> jsstr \<Rightarrow> Editor \<Rightarrow> Editor" where
  "removePruneRule clk operationId ruleId st =
     updatePruneObjectsDraft clk operationId (\<lambda>draft. draft\<lparr>pd_rules := filter (\<lambda>r. pc_id r \<noteq> ruleId) (pd_rules draft)\<rparr>) st"

text \<open>The draft that is shown for the selected operation; it advances the seed as well.\<close>

definition showPruneDraft :: "(nat \<Rightarrow> nat) \<Rightarrow> Editor \<Rightarrow> PruneObjectsDraft option \<times> Editor" where
  "showPruneDraft clk st =
     (case selectedOperation st of
        Some p \<Rightarrow>
          if po_mode p = js ''prune_objects'' then
            (let draft = parsePruneObjectsDraft clk (ed_localIdSeed st) (po_value_text p)
             in (Some draft, st\<lparr>ed_localIdSeed := ed_localIdSeed st + length (pd_rules draft)\<rparr>))
          else (None, st)
      | None \<Rightarrow> (None, st))"
section \<open>Drag and drop\<close>

definition resetDragState :: "Editor \<Rightarrow> Editor" where
  "resetDragState st = st\<lparr>ed_draggedOperationId := [], ed_dragOverOperationId := [], ed_dragOverPosition := Before\<rparr>"

definition handleDragStart :: "jsstr \<Rightarrow> Editor \<Rightarrow> Editor" where
  "handleDragStart operationId st = st\<lparr>ed_draggedOperationId := operationId, ed_selectedOperationId := operationId\<rparr>"

text \<open>\<open>position\<close> is the half of the element under the pointer.\<close>

definition handleDragOver :: "jsstr \<Rightarrow> DropPosition \<Rightarrow> Editor \<Rightarrow> Editor" where
  "handleDragOver operationId position st =
     (if ed_draggedOperationId st = [] \<or> ed_draggedOperationId st = operationId then st
      else st\<lparr>ed_dragOverOperationId := operationId, ed_dragOverPosition := position\<rparr>)"

definition handleDrop :: "jsstr \<Rightarrow> jsstr \<Rightarrow> Editor \<Rightarrow> Editor" where
  "handleDrop transferred operationId st =
     (let sourceId = str_or (Some (ed_draggedOperationId st)) transferred;
          position = (if ed_dragOverOperationId st = operationId then ed_dragOverPosition st else Before)
      in resetDragState
           (if sourceId \<noteq> [] \<and> operationId \<noteq> [] \<and> sourceId \<noteq> operationId
            then st\<lparr>ed_operations := reorderOperations (ed_operations st) sourceId operationId position,
                    ed_selectedOperationId := sourceId\<rparr>
            else st))"

section \<open>Modes, templates and saving\<close>

text \<open>Messages without a line.\<close>

definition msg :: "(jsstr \<Rightarrow> nat \<Rightarrow> jsstr) \<Rightarrow> string \<Rightarrow> jsstr" where
  "msg t key = t (js key) 0"

definition buildVisualJson :: "(jsstr \<Rightarrow> nat \<Rightarrow> jsstr) \<Rightarrow> Editor \<Rightarrow> jsstr + jsstr" where
  "buildVisualJson t st =
     (case ed_visualMode st of
        VisualLegacy \<Rightarrow>
          (let trimmed' = trim (ed_legacyValue st)
           in if trimmed' = [] then Inr []
              else case json_parse trimmed' of
                     None \<Rightarrow> Inl (msg t ''Parameter override must be valid JSON format'')
                   | Some (JObj ps) \<Rightarrow> Inr (stringify_indented (JObj ps))
                   | Some _ \<Rightarrow> Inl (msg t ''Legacy format must be a JSON object''))
      | VisualOperations \<Rightarrow> buildOperationsJson (ed_operations st) True t)"

definition switchToJsonMode :: "(jsstr \<Rightarrow> nat \<Rightarrow> jsstr) \<Rightarrow> Editor \<Rightarrow> Editor" where
  "switchToJsonMode t st =
     (if ed_editMode st = ModeJson then st
      else (case buildVisualJson t st of
              Inr result \<Rightarrow> st\<lparr>ed_jsonText := result, ed_jsonError := []\<rparr>
            | Inl message \<Rightarrow>
                st\<lparr>ed_jsonText := (case ed_visualMode st of
                     VisualLegacy \<Rightarrow> ed_legacyValue st
                   | VisualOperations \<Rightarrow> (case buildOperationsJson (ed_operations st) False t of Inr s \<Rightarrow> s | Inl s \<Rightarrow> s)),
                   ed_jsonError := str_or (Some message) (msg t ''Parameter configuration error'')\<rparr>)
           \<lparr>ed_editMode := ModeJson\<rparr>)"

definition toOperations :: "ParamOverrideOperation list \<Rightarrow> Editor \<Rightarrow> Editor" where
  "toOperations ops st = st\<lparr>ed_visualMode := VisualOperations, ed_operations := ops, ed_selectedOperationId := first_id ops,
     ed_jsonError := [], ed_editMode := ModeVisual\<rparr>"

definition switchToVisualMode :: "(nat \<Rightarrow> nat) \<Rightarrow> Editor \<Rightarrow> Editor" where
  "switchToVisualMode clk st =
     (if ed_editMode st = ModeVisual then st
      else let trimmed' = trim (ed_jsonText st); n = ed_localIdSeed st; fallback = createDefaultOperation clk n
           in if trimmed' = [] then (toOperations [fallback] st)\<lparr>ed_legacyValue := [], ed_localIdSeed := Suc n\<rparr>
              else case json_parse trimmed' of
                     Some (JObj ps) \<Rightarrow>
                       (case map_of ps (js ''operations'') of
                          Some (JArr items) \<Rightarrow>
                            (case operations_or_default clk n items of
                               None \<Rightarrow> st
                             | Some ops \<Rightarrow> (toOperations ops st)\<lparr>ed_legacyValue := [],
                                 ed_templatePresetKey := js ''operations_default'', ed_localIdSeed := seed_after n ops\<rparr>)
                        | _ \<Rightarrow> (toOperations [fallback] st)\<lparr>ed_visualMode := VisualLegacy,
                                 ed_legacyValue := stringify_indented (JObj ps), ed_templatePresetKey := js ''legacy_default'',
                                 ed_localIdSeed := Suc n\<rparr>)
                   | _ \<Rightarrow> st)"

datatype FillMode = Fill | Append

definition template_of :: "jsstr \<Rightarrow> TemplatePreset" where
  "template_of key = (case map_of TEMPLATE_PRESET_CONFIG key of Some p \<Rightarrow> p | None \<Rightarrow> OperationsTemplate OPERATION_TEMPLATE)"

definition fillLegacy :: "(nat \<Rightarrow> nat) \<Rightarrow> jsstr \<Rightarrow> Editor \<Rightarrow> Editor" where
  "fillLegacy clk s st = st\<lparr>ed_visualMode := VisualLegacy, ed_legacyValue := s,
     ed_operations := [createDefaultOperation clk (ed_localIdSeed st)], ed_jsonText := s, ed_jsonError := [],
     ed_editMode := ModeVisual, ed_localIdSeed := Suc (ed_localIdSeed st)\<rparr>"

definition fillTemplate :: "(nat \<Rightarrow> nat) \<Rightarrow> FillMode \<Rightarrow> Editor \<Rightarrow> Editor" where
  "fillTemplate clk mode st =
     (let n = ed_localIdSeed st
      in case template_of (ed_templatePresetKey st) of
           LegacyTemplate payload \<Rightarrow>
             (if mode = Append \<and> ed_visualMode st = VisualLegacy then
                let trimmed' = trim (ed_legacyValue st)
                in case (if trimmed' = [] then Some (JObj []) else json_parse trimmed') of
                     None \<Rightarrow> st
                   | Some parsedCurrent \<Rightarrow>
                       fillLegacy clk (stringify_indented (JObj (obj_merge payload (spread parsedCurrent)))) st
              else fillLegacy clk (stringify_indented (JObj payload)) st)
         | OperationsTemplate operationsPayload \<Rightarrow>
             (case normalizeOperations clk n operationsPayload of
                None \<Rightarrow> st
              | Some filled \<Rightarrow>
                  (case mode of
                     Append \<Rightarrow>
                       (let existing = (if ed_visualMode st = VisualOperations
                              then filter (\<lambda>p. \<not> isOperationBlank p) (ed_operations st) else []);
                            nextOps = existing @ filled
                        in (toOperations (if nextOps \<noteq> [] then nextOps else filled) st)
                             \<lparr>ed_legacyValue := [], ed_jsonText := [], ed_localIdSeed := seed_after n filled\<rparr>)
                   | Fill \<Rightarrow>
                       (let finalOps = (if filled \<noteq> [] then filled else [createDefaultOperation clk n])
                        in (toOperations finalOps st)
                             \<lparr>ed_jsonText := stringify_indented (JObj [(js ''operations'', JArr operationsPayload)]),
                              ed_localIdSeed := seed_after n finalOps\<rparr>))))"

definition resetEditorState :: "(nat \<Rightarrow> nat) \<Rightarrow> Editor \<Rightarrow> Editor" where
  "resetEditorState clk st =
     (toOperations [createDefaultOperation clk (ed_localIdSeed st)] st)
       \<lparr>ed_legacyValue := [], ed_jsonText := [], ed_templatePresetKey := js ''operations_default'',
        ed_localIdSeed := Suc (ed_localIdSeed st)\<rparr>"

definition handleJsonChange :: "(jsstr \<Rightarrow> nat \<Rightarrow> jsstr) \<Rightarrow> jsstr \<Rightarrow> Editor \<Rightarrow> Editor" where
  "handleJsonChange t nextValue st =
     (let trimmed' = trim nextValue
      in st\<lparr>ed_jsonText := nextValue,
            ed_jsonError := (if trimmed' = [] \<or> verifyJSON trimmed' then [] else msg t ''JSON format error'')\<rparr>)"

definition formatJson :: "Editor \<Rightarrow> Editor" where
  "formatJson st =
     (let trimmed' = trim (ed_jsonText st)
      in if trimmed' = [] then st
         else case json_parse trimmed' of
                None \<Rightarrow> st
              | Some v \<Rightarrow> st\<lparr>ed_jsonText := stringify_indented v, ed_jsonError := []\<rparr>)"

definition visualValidationError :: "(jsstr \<Rightarrow> nat \<Rightarrow> jsstr) \<Rightarrow> Editor \<Rightarrow> jsstr" where
  "visualValidationError t st =
     (if ed_editMode st \<noteq> ModeVisual then []
      else case buildVisualJson t st of
             Inr _ \<Rightarrow> [] | Inl message \<Rightarrow> str_or (Some message) (msg t ''Parameter configuration error''))"

text \<open>What is passed to \<open>onSave\<close>, or the message that is shown instead.\<close>

definition handleSave :: "(jsstr \<Rightarrow> nat \<Rightarrow> jsstr) \<Rightarrow> Editor \<Rightarrow> jsstr + jsstr" where
  "handleSave t st =
     (case ed_editMode st of
        ModeJson \<Rightarrow>
          (let trimmed' = trim (ed_jsonText st)
           in if trimmed' = [] then Inr []
              else case json_parse trimmed' of
                     None \<Rightarrow> Inl (msg t ''Parameter override must be valid JSON format'')
                   | Some v \<Rightarrow> Inr (stringify_indented v))
      | ModeVisual \<Rightarrow> buildVisualJson t st)"

definition setAllConditions :: "bool \<Rightarrow> Editor \<Rightarrow> Editor" where
  "setAllConditions b st =
     (case selectedOperation st of
        None \<Rightarrow> st
      | Some p \<Rightarrow> st\<lparr>ed_expandedConditions :=
          foldl (\<lambda>m c. al_put (pc_id c) b m) (ed_expandedConditions st) (po_conditions p)\<rparr>)"

section \<open>Steps\<close>

text \<open>
  An action of the user. Rendering evaluates the initial value of the list of operations again and reads the drafts that are shown, so that
  the seed may grow between any two actions.
\<close>

inductive editor_action :: "(nat \<Rightarrow> nat) \<Rightarrow> (jsstr \<Rightarrow> nat \<Rightarrow> jsstr) \<Rightarrow> Editor \<Rightarrow> Editor \<Rightarrow> bool"
  for clk :: "nat \<Rightarrow> nat" and t :: "jsstr \<Rightarrow> nat \<Rightarrow> jsstr" where
  Render: "ed_localIdSeed st \<le> n \<Longrightarrow> editor_action clk t st (st\<lparr>ed_localIdSeed := n\<rparr>)"
| Open: "openDialog clk v st = Some st' \<Longrightarrow> editor_action clk t st st'"
| Select: "editor_action clk t st (st\<lparr>ed_selectedOperationId := i\<rparr>)"
| Search: "editor_action clk t st (st\<lparr>ed_operationSearch := s\<rparr>)"
| Legacy: "editor_action clk t st (st\<lparr>ed_legacyValue := s\<rparr>)"
| Preset: "editor_action clk t st (st\<lparr>ed_templatePresetKey := s\<rparr>)"
| Update: "editor_action clk t st (updateOperation i u st)"
| Add: "editor_action clk t st (addOperation clk st)"
| Duplicate: "editor_action clk t st (duplicateOperation clk eager i st)"
| Remove: "editor_action clk t st (removeOperation clk i st)"
| AddCondition: "editor_action clk t st (addCondition clk i st)"
| UpdateCondition: "editor_action clk t st (updateCondition i c uc st)"
| RemoveCondition: "editor_action clk t st (removeCondition i c st)"
| ReturnError: "editor_action clk t st (updateReturnErrorDraft i f st)"
| PruneObjects: "editor_action clk t st (updatePruneObjectsDraft clk i g st)"
| AddPruneRule: "editor_action clk t st (addPruneRule clk i st)"
| DragStart: "editor_action clk t st (handleDragStart i st)"
| DragOver: "editor_action clk t st (handleDragOver i pos st)"
| Drop: "editor_action clk t st (handleDrop s i st)"
| ToJson: "editor_action clk t st (switchToJsonMode t st)"
| ToVisual: "editor_action clk t st (switchToVisualMode clk st)"
| Template: "editor_action clk t st (fillTemplate clk m st)"
| Reset: "editor_action clk t st (resetEditorState clk st)"
| JsonChange: "editor_action clk t st (handleJsonChange t s st)"
| FormatJson: "editor_action clk t st (formatJson st)"
| Conditions: "editor_action clk t st (setAllConditions b st)"

inductive editor_step :: "(nat \<Rightarrow> nat) \<Rightarrow> (jsstr \<Rightarrow> nat \<Rightarrow> jsstr) \<Rightarrow> Editor \<Rightarrow> Editor \<Rightarrow> bool"
  for clk :: "nat \<Rightarrow> nat" and t :: "jsstr \<Rightarrow> nat \<Rightarrow> jsstr" where
  "editor_action clk t st st' \<Longrightarrow> editor_step clk t st (keepSelectedOperation st')"


end
