(* ===== verification/ParamRules.thy ===== *)
theory ParamRules
  imports ParamEditor
begin

text \<open>
  The editor of parameter overrides is faithful to what it edits: a saved text is read back as the operations it was made of, the editor always
  has an operation and a valid selection, and identifiers stay unique. The theory also shows where the editing of values fails.
\<close>

section \<open>Loose values\<close>

text \<open>
  A value text that survives being saved and shown again: not a quoted text, unless its contents are shown as they are and are still
  not taken for another value.
\<close>

definition stable_value :: "jsstr \<Rightarrow> bool" where
  "stable_value v \<longleftrightarrow> wf_json (parseLooseValue v) \<and>
     (case json_parse (trim v) of Some (JStr s) \<Rightarrow> s \<noteq> [] \<and> parseLooseValue s = JStr s | _ \<Rightarrow> True)"

lemma loose_shown:
  assumes "stable_value v"
  shows "parseLooseValue (toValueText (Some (parseLooseValue v))) = parseLooseValue v"
    and "trim (toValueText (Some (parseLooseValue v))) = [] \<longleftrightarrow> trim v = []"
proof -
  let ?p = "parseLooseValue v" and ?s = "toValueText (Some (parseLooseValue v))"
  have "parseLooseValue ?s = ?p \<and> (trim ?s = [] \<longleftrightarrow> trim v = [])"
  proof (cases "json_parse (trim v)")
    case None
    then show ?thesis by (simp add: parseLooseValue_def Let_def toValueText_def)
  next
    case (Some j)
    have "json_parse [] = None" by code_simp
    with Some have ne: "trim v \<noteq> []" by auto
    then have p: "?p = j" using Some by (simp add: parseLooseValue_def Let_def)
    show ?thesis
    proof (cases "\<exists>s. j = JStr s")
      case True
      then obtain s where "j = JStr s" "s \<noteq> []" "parseLooseValue s = JStr s" using assms Some by (auto simp: stable_value_def)
      then show ?thesis using p ne by (auto simp: toValueText_def parseLooseValue_def Let_def split: if_splits)
    next
      case False
      then have "?s = stringify j" using p by (cases j) (simp_all add: toValueText_def)
      moreover have "json_parse (stringify j) = Some j" using json_roundtrip assms p by (simp add: stable_value_def)
      ultimately show ?thesis using p ne trim_trimmed [OF trimmed_stringify, of j] stringify_nonempty [of j]
        by (simp add: parseLooseValue_def [of "stringify j"] Let_def)
    qed
  qed
  then show "parseLooseValue ?s = ?p" and "trim ?s = [] \<longleftrightarrow> trim v = []" by blast+
qed

section \<open>Conditions\<close>

definition good_condition :: "ParamOverrideCondition \<Rightarrow> bool" where
  "good_condition c \<longleftrightarrow> pc_mode c \<in> set CONDITION_MODE_VALUES \<and> stable_value (pc_value_text c)"

lemma condition_modes_not_Nil: "[] \<notin> set CONDITION_MODE_VALUES" "[] \<notin> set OPERATION_MODE_VALUES"
  by (code_simp, code_simp)

lemma condition_reopened:
  assumes "good_condition c" "buildConditionPayload c = Some j"
  shows "buildConditionPayload (condition_from i j) = Some j" "wf_json j" "j \<noteq> JNull"
proof -
  have m: "pc_mode c \<in> set CONDITION_MODE_VALUES" "pc_mode c \<noteq> []" and v: "stable_value (pc_value_text c)"
    using assms(1) condition_modes_not_Nil by (auto simp: good_condition_def)
  have p: "trim (pc_path c) \<noteq> []" using assms(2) by (auto simp: buildConditionPayload_def Let_def)
  have j: "j = JObj ([(js ''path'', JStr (trim (pc_path c))), (js ''mode'', JStr (pc_mode c)), (js ''value'', parseLooseValue (pc_value_text c))]
      @ (if pc_invert c then [(js ''invert'', JBool True)] else [])
      @ (if pc_pass_missing_key c then [(js ''pass_missing_key'', JBool True)] else []))"
    using assms(2) p m(2) by (simp add: buildConditionPayload_def Let_def str_or_def)
  then show "j \<noteq> JNull" by simp
  have w: "wf_json (parseLooseValue (pc_value_text c))" using v by (simp add: stable_value_def)
  show "wf_json j"
    unfolding j wf_object canonical_def using w
    by (auto simp: js_inject key_before_def array_index_def is_number_def is_digit_def js_def split: if_splits)
  have "json_get j (js ''path'') = Some (JStr (trim (pc_path c)))" "json_get j (js ''mode'') = Some (JStr (pc_mode c))"
    "json_get j (js ''value'') = Some (parseLooseValue (pc_value_text c))"
    "json_get j (js ''invert'') = (if pc_invert c then Some (JBool True) else None)"
    "json_get j (js ''pass_missing_key'') = (if pc_pass_missing_key c then Some (JBool True) else None)"
    unfolding j by (simp_all add: json_get_def js_inject)
  then show "buildConditionPayload (condition_from i j) = Some j"
    using m p loose_shown [OF v]
    by (simp add: j buildConditionPayload_def condition_from_def Let_def str_or_def text_field_def true_field_def known_mode_def)
qed
section \<open>Operations\<close>

definition opt_entry :: "bool \<Rightarrow> string \<Rightarrow> json \<Rightarrow> (jsstr \<times> json) list" where
  "opt_entry b k v = (if b then [(js k, v)] else [])"

lemma keys_opt_entry: "k' \<in> fst ` set (opt_entry b k v) \<longleftrightarrow> b \<and> k' = js k"
  by (auto simp: opt_entry_def)

lemma map_of_opt_entry: "map_of (opt_entry b k v) k' = (if b \<and> k' = js k then Some v else None)"
  by (simp add: opt_entry_def)

lemma put_entry: "js k \<notin> fst ` set ps \<Longrightarrow> (if b then al_put (js k) v ps else ps) = ps @ opt_entry b k v"
  by (simp add: opt_entry_def al_put_new)

lemma put_again: "js k \<notin> fst ` set xs \<Longrightarrow> al_put (js k) v (xs @ (js k, w) # ys) = xs @ (js k, v) # ys"
  by (induction xs) auto

definition condition_payloads :: "ParamOverrideOperation \<Rightarrow> json list" where
  "condition_payloads p = map the (filter (\<lambda>c. c \<noteq> None) (map buildConditionPayload (po_conditions p)))"

lemma meta_shape:
  "\<not> (mm_path (meta_of m) \<and> mm_pathOptional (meta_of m))"
  "mm_pathAlias (meta_of m) \<Longrightarrow> mm_from (meta_of m) \<and> mm_to (meta_of m) \<and> \<not> mm_path (meta_of m) \<and> \<not> mm_pathOptional (meta_of m)"
proof -
  have all: "list_all (\<lambda>m. \<not> (mm_path m \<and> mm_pathOptional m) \<and> (mm_pathAlias m \<longrightarrow> mm_from m \<and> mm_to m \<and> \<not> mm_path m \<and> \<not> mm_pathOptional m))
      (map snd MODE_META)" by code_simp
  have "map_of MODE_META (js ''set'') \<noteq> None" by code_simp
  then obtain s where s: "map_of MODE_META (js ''set'') = Some s" by blast
  have "meta_of m \<in> set (map snd MODE_META)"
    using s map_of_SomeD [of MODE_META m] map_of_SomeD [OF s] by (force simp: meta_of_def split: option.split)
  with all show "\<not> (mm_path (meta_of m) \<and> mm_pathOptional (meta_of m))"
    "mm_pathAlias (meta_of m) \<Longrightarrow> mm_from (meta_of m) \<and> mm_to (meta_of m) \<and> \<not> mm_path (meta_of m) \<and> \<not> mm_pathOptional (meta_of m)"
    by (auto simp: list_all_iff)
qed

text \<open>The payload of an operation, one entry after the other.\<close>

definition payload_entries :: "ParamOverrideOperation \<Rightarrow> (jsstr \<times> json) list" where
  "payload_entries p =
     (let meta = meta_of (mode_of p); path = trim (po_path p); from' = trim (po_from p); to' = trim (po_to p);
          alias = (mm_pathAlias meta \<and> path \<noteq> [])
      in opt_entry True ''mode'' (JStr (mode_of p))
         @ opt_entry (trim (po_description p) \<noteq> []) ''description'' (JStr (trim (po_description p)))
         @ opt_entry (mm_path meta \<or> mm_pathOptional meta \<and> path \<noteq> []) ''path'' (JStr path)
         @ opt_entry (mm_value meta) ''value'' (parseLooseValue (po_value_text p))
         @ opt_entry (mm_keepOrigin meta \<and> po_keep_origin p) ''keep_origin'' (JBool True)
         @ opt_entry (mm_from meta) ''from'' (JStr (if alias \<and> from' = [] then path else from'))
         @ opt_entry (mm_to meta \<or> to' \<noteq> []) ''to'' (JStr (if alias \<and> to' = [] then path else to'))
         @ opt_entry (condition_payloads p \<noteq> []) ''conditions'' (JArr (condition_payloads p))
         @ opt_entry (condition_payloads p \<noteq> []) ''logic'' (JStr (if po_logic p = js ''AND'' then js ''AND'' else js ''OR'')))"

lemma operation_payload: "operationPayload p = JObj (payload_entries p)"
proof -
  let ?m = "meta_of (mode_of p)" and ?path = "trim (po_path p)" and ?f = "trim (po_from p)" and ?t = "trim (po_to p)"
  let ?put = "\<lambda>b k v ps. if b then al_put (js k) v ps else ps"
  define p5 where "p5 = opt_entry True ''mode'' (JStr (mode_of p))
      @ opt_entry (trim (po_description p) \<noteq> []) ''description'' (JStr (trim (po_description p)))
      @ opt_entry (mm_path ?m \<or> mm_pathOptional ?m \<and> ?path \<noteq> []) ''path'' (JStr ?path)
      @ opt_entry (mm_value ?m) ''value'' (parseLooseValue (po_value_text p))
      @ opt_entry (mm_keepOrigin ?m \<and> po_keep_origin p) ''keep_origin'' (JBool True)"
  define p10 where "p10 = p5 @ opt_entry (mm_from ?m) ''from'' (JStr (if (mm_pathAlias ?m \<and> ?path \<noteq> []) \<and> ?f = [] then ?path else ?f))
      @ opt_entry (mm_to ?m \<or> ?t \<noteq> []) ''to'' (JStr (if (mm_pathAlias ?m \<and> ?path \<noteq> []) \<and> ?t = [] then ?path else ?t))"
  have k5: "k \<in> fst ` set p5 \<Longrightarrow> k \<in> js ` {''mode'', ''description'', ''path'', ''value'', ''keep_origin''}" for k
    by (auto simp: p5_def keys_opt_entry image_Un)
  have k10: "k \<in> fst ` set p10 \<Longrightarrow> k \<in> js ` {''mode'', ''description'', ''path'', ''value'', ''keep_origin'', ''from'', ''to''}" for k
    using k5 by (auto simp: p10_def keys_opt_entry image_Un)
  have s5: "?put (mm_keepOrigin ?m \<and> po_keep_origin p) ''keep_origin'' (JBool True)
      (?put (mm_value ?m) ''value'' (parseLooseValue (po_value_text p))
      (?put (mm_pathOptional ?m \<and> ?path \<noteq> []) ''path'' (JStr ?path)
      (?put (mm_path ?m) ''path'' (JStr ?path)
      (?put (trim (po_description p) \<noteq> []) ''description'' (JStr (trim (po_description p))) [(js ''mode'', JStr (mode_of p))])))) = p5"
    using meta_shape(1) [of "mode_of p"] by (auto simp: p5_def opt_entry_def js_inject)
  define p8 where "p8 = p5 @ opt_entry (mm_from ?m) ''from'' (JStr ?f) @ opt_entry (mm_to ?m \<or> ?t \<noteq> []) ''to'' (JStr ?t)"
  have n5: "js ''from'' \<notin> fst ` set p5" "js ''to'' \<notin> fst ` set p5" using k5 [of "js ''from''"] k5 [of "js ''to''"] by (auto simp: js_inject)
  have s8: "?put (mm_to ?m) ''to'' (JStr ?t) (?put (\<not> mm_to ?m \<and> ?t \<noteq> []) ''to'' (JStr ?t)
      (?put (mm_from ?m) ''from'' (JStr ?f) p5)) = p8"
    unfolding p8_def using n5 by (auto simp: opt_entry_def al_put_new image_Un js_inject)
  have s10: "(let p9 = ?put (mm_pathAlias ?m \<and> falsy_text (js ''from'') p8 \<and> ?path \<noteq> []) ''from'' (JStr ?path) p8
      in ?put (mm_pathAlias ?m \<and> falsy_text (js ''to'') p9 \<and> ?path \<noteq> []) ''to'' (JStr ?path) p9) = p10"
  proof (cases "mm_pathAlias ?m")
    case True
    then have m: "mm_from ?m" "mm_to ?m" using meta_shape(2) by blast+
    have f: "map_of p5 (js ''from'') = None" "map_of p5 (js ''to'') = None" using n5 by (auto simp: map_of_eq_None_iff)
    have put_from: "al_put (js ''from'') v (p5 @ (js ''from'', w) # ys) = p5 @ (js ''from'', v) # ys" for v w ys
      using n5 by (intro put_again) simp
    have put_to: "al_put (js ''to'') v (p5 @ (js ''from'', a) # (js ''to'', w) # ys) = p5 @ (js ''from'', a) # (js ''to'', v) # ys" for a v w ys
      using n5 put_again [of "''to''" "p5 @ [(js ''from'', a)]" v w ys] by (simp add: js_inject)
    have falsy: "falsy_text (js ''from'') (p5 @ (js ''from'', JStr x) # ys) \<longleftrightarrow> x = []"
      "falsy_text (js ''to'') (p5 @ (js ''from'', a) # (js ''to'', JStr x) # ys) \<longleftrightarrow> x = []" for a x ys
      using f by (simp_all add: falsy_text_def js_inject map_add_def)
    have "p8 = p5 @ [(js ''from'', JStr ?f), (js ''to'', JStr ?t)]" using m by (simp add: p8_def opt_entry_def)
    moreover have "p10 = p5 @ [(js ''from'', JStr (if ?path \<noteq> [] \<and> ?f = [] then ?path else ?f)),
        (js ''to'', JStr (if ?path \<noteq> [] \<and> ?t = [] then ?path else ?t))]" using m True by (simp add: p10_def opt_entry_def)
    ultimately show ?thesis
      using True by (cases "?path = []"; cases "?f = []"; cases "?t = []") (simp_all add: Let_def falsy put_from put_to)
  qed (simp add: p8_def p10_def opt_entry_def)
  have n10: "js ''conditions'' \<notin> fst ` set p10" "js ''logic'' \<notin> fst ` set p10" using k10 [of "js ''conditions''"] k10 [of "js ''logic''"] by (auto simp: js_inject)
  have s12: "?put b ''logic'' l (?put b ''conditions'' c p10) = p10 @ opt_entry b ''conditions'' c @ opt_entry b ''logic'' l" for b c l
    using n10 by (simp add: opt_entry_def al_put_new js_inject)
  show ?thesis
    unfolding operationPayload_def Let_def s5 [unfolded] s8 s10 [unfolded Let_def] condition_payloads_def [symmetric] s12
    by (simp add: payload_entries_def p10_def p5_def Let_def)
qed

definition good_operation :: "ParamOverrideOperation \<Rightarrow> bool" where
  "good_operation p \<longleftrightarrow> po_mode p \<in> set OPERATION_MODE_VALUES \<and> stable_value (po_value_text p)
     \<and> (\<forall>c \<in> set (po_conditions p). good_condition c)"

lemmas payload_lookup = payload_entries_def Let_def map_of_append map_of_opt_entry map_add_def js_inject json_get_def operation_payload

lemma payload_get:
  "json_get (operationPayload p) (js ''mode'') = Some (JStr (mode_of p))"
  "json_get (operationPayload p) (js ''description'') =
     (if trim (po_description p) \<noteq> [] then Some (JStr (trim (po_description p))) else None)"
  "json_get (operationPayload p) (js ''path'') =
     (if mm_path (meta_of (mode_of p)) \<or> mm_pathOptional (meta_of (mode_of p)) \<and> trim (po_path p) \<noteq> []
      then Some (JStr (trim (po_path p))) else None)"
  "json_get (operationPayload p) (js ''value'') =
     (if mm_value (meta_of (mode_of p)) then Some (parseLooseValue (po_value_text p)) else None)"
  "json_get (operationPayload p) (js ''keep_origin'') =
     (if mm_keepOrigin (meta_of (mode_of p)) \<and> po_keep_origin p then Some (JBool True) else None)"
  "json_get (operationPayload p) (js ''from'') =
     (if mm_from (meta_of (mode_of p))
      then Some (JStr (if (mm_pathAlias (meta_of (mode_of p)) \<and> trim (po_path p) \<noteq> []) \<and> trim (po_from p) = []
                       then trim (po_path p) else trim (po_from p))) else None)"
  "json_get (operationPayload p) (js ''to'') =
     (if mm_to (meta_of (mode_of p)) \<or> trim (po_to p) \<noteq> []
      then Some (JStr (if (mm_pathAlias (meta_of (mode_of p)) \<and> trim (po_path p) \<noteq> []) \<and> trim (po_to p) = []
                       then trim (po_path p) else trim (po_to p))) else None)"
  "json_get (operationPayload p) (js ''conditions'') =
     (if condition_payloads p \<noteq> [] then Some (JArr (condition_payloads p)) else None)"
  "json_get (operationPayload p) (js ''logic'') =
     (if condition_payloads p \<noteq> [] then Some (JStr (if po_logic p = js ''AND'' then js ''AND'' else js ''OR'')) else None)"
  by (simp_all add: payload_lookup)

lemma logic_read: "logic_of (Some (JStr (if b then js ''AND'' else js ''OR''))) ''OR'' ''AND'' = (if b then js ''AND'' else js ''OR'')"
proof (cases b)
  case True
  have "logic_of (Some (JStr (js ''AND''))) ''OR'' ''AND'' = js ''AND''" by code_simp
  with True show ?thesis by simp
next
  case False
  have "logic_of (Some (JStr (js ''OR''))) ''OR'' ''AND'' = js ''OR''" by code_simp
  with False show ?thesis by simp
qed

lemma reopened_entries:
  assumes "good_operation p" and cs: "condition_payloads (operation_from i (operationPayload p) cs) = condition_payloads p"
  shows "payload_entries (operation_from i (operationPayload p) cs) = payload_entries p"
proof -
  let ?q = "operation_from i (operationPayload p) cs" and ?m = "meta_of (mode_of p)"
  have mode: "mode_of p = po_mode p" "po_mode p \<in> set OPERATION_MODE_VALUES" "po_mode p \<noteq> []"
    using assms(1) condition_modes_not_Nil by (auto simp: good_operation_def mode_of_def str_or_def)
  have "po_mode ?q = po_mode p" using mode by (simp add: operation_from_def known_mode_def payload_get)
  then have qm: "mode_of ?q = mode_of p" by (simp add: mode_of_def)
  have al: "mm_pathAlias ?m \<Longrightarrow> mm_from ?m \<and> mm_to ?m \<and> \<not> mm_path ?m \<and> \<not> mm_pathOptional ?m" by (rule meta_shape(2))
  have desc: "trim (po_description ?q) = trim (po_description p)"
    and path: "trim (po_path ?q) = (if mm_path ?m \<or> mm_pathOptional ?m then trim (po_path p) else [])"
    and val: "mm_value ?m \<Longrightarrow> po_value_text ?q = toValueText (Some (parseLooseValue (po_value_text p)))"
    and keep: "po_keep_origin ?q \<longleftrightarrow> mm_keepOrigin ?m \<and> po_keep_origin p"
    and from': "mm_from ?m \<Longrightarrow> trim (po_from ?q) =
      (if (mm_pathAlias ?m \<and> trim (po_path p) \<noteq> []) \<and> trim (po_from p) = [] then trim (po_path p) else trim (po_from p))"
    and to': "trim (po_to ?q) = (if mm_pathAlias ?m \<and> trim (po_path p) \<noteq> [] \<and> trim (po_to p) = [] then trim (po_path p) else trim (po_to p))"
    and logic: "condition_payloads p \<noteq> [] \<Longrightarrow> po_logic ?q = js ''AND'' \<longleftrightarrow> po_logic p = js ''AND''"
    using al
    by (auto simp: operation_from_def text_field_def true_field_def payload_get logic_read js_inject)
  have "mm_value ?m \<Longrightarrow> parseLooseValue (po_value_text ?q) = parseLooseValue (po_value_text p)"
    using val loose_shown(1) assms(1) by (simp add: good_operation_def)
  then show ?thesis
    unfolding payload_entries_def Let_def qm cs desc path keep
    using al from' to' logic by (cases "mm_pathAlias ?m"; auto simp: opt_entry_def)
qed

lemma payload_not_null: "operationPayload p \<noteq> JNull"
  by (simp add: operation_payload)

lemma condition_payloads_good:
  assumes "good_operation p" "j \<in> set (condition_payloads p)"
  obtains c where "good_condition c" "buildConditionPayload c = Some j"
  using assms by (auto simp: condition_payloads_def good_operation_def)

text \<open>Names that are not array indices keep the order in which they are written.\<close>

definition plain_keys :: "(jsstr \<times> json) list \<Rightarrow> bool" where
  "plain_keys ps \<longleftrightarrow> distinct (map fst ps) \<and> list_all (\<lambda>p. array_index (fst p) = None) ps"

lemma key_not_index: "\<not> is_digit (of_char c) \<Longrightarrow> array_index (js (c # cs)) = None"
  by (simp add: array_index_def is_number_def js_def)

lemma plain_canonical: "plain_keys ps \<Longrightarrow> canonical ps"
  by (induction ps) (auto simp: plain_keys_def canonical_def key_before_def list_all_iff)

lemma plain_entry: "plain_keys ps \<Longrightarrow> js k \<notin> fst ` set ps \<Longrightarrow> array_index (js k) = None \<Longrightarrow> plain_keys (opt_entry b k v @ ps)"
  by (auto simp: plain_keys_def opt_entry_def)

lemma plain_last: "array_index (js k) = None \<Longrightarrow> plain_keys (opt_entry b k v)"
  by (simp add: plain_keys_def opt_entry_def)

lemma wf_payload:
  assumes "good_operation p"
  shows "wf_json (operationPayload p)"
proof -
  have "wf_json (parseLooseValue (po_value_text p))" using assms by (simp add: good_operation_def stable_value_def)
  moreover have "wf_json (JArr (condition_payloads p))"
    using condition_payloads_good [OF assms] condition_reopened(2) by (metis wf_json.simps(2))
  moreover have "canonical (payload_entries p)"
    unfolding payload_entries_def Let_def
    by (intro plain_canonical plain_entry plain_last) (simp_all add: keys_opt_entry image_Un js_inject key_not_index is_digit_def)
  ultimately show ?thesis
    unfolding operation_payload wf_object
    by (auto simp: payload_entries_def Let_def map_of_append map_of_opt_entry map_add_def split: option.splits if_splits)
qed

lemma normalize_conditions:
  "list_all (\<lambda>j. j \<noteq> JNull) js' \<Longrightarrow>
     normalizeConditions clk n js' = Some (map (\<lambda>(i, j). condition_from (nextLocalId clk i) j) (zip [n..<n + length js'] js'))"
proof (induction js' arbitrary: n)
  case (Cons j js')
  then show ?case by (simp add: normalizeParamCondition_def upt_conv_Cons del: upt_Suc)
qed simp

lemma payloads_of_conditions:
  "list_all (\<lambda>j. \<forall>i. buildConditionPayload (condition_from i j) = Some j) js' \<Longrightarrow>
     map the (filter (\<lambda>c. c \<noteq> None) (map buildConditionPayload
       (map (\<lambda>(i, j). condition_from (nextLocalId clk i) j) (zip [n..<n + length js'] js')))) = js'"
proof (induction js' arbitrary: n)
  case (Cons j js')
  from Cons.IH [of "Suc n"] Cons.prems show ?case by (simp add: upt_conv_Cons del: upt_Suc)
qed simp

lemma operation_reopened:
  assumes "good_operation p"
  obtains q where "normalizeOperation clk n (operationPayload p) = Some q" "operationPayload q = operationPayload p"
    "po_mode q = po_mode p" "good_operation p \<Longrightarrow> ids_used q = Suc (length (condition_payloads p))"
    "q = operation_from (nextLocalId clk n) (operationPayload p) (po_conditions q)"
proof -
  let ?cs = "condition_payloads p"
  let ?c = "map (\<lambda>(i, j). condition_from (nextLocalId clk i) j) (zip [Suc n..<Suc n + length ?cs] ?cs)"
  let ?q = "operation_from (nextLocalId clk n) (operationPayload p) ?c"
  have "j \<noteq> JNull \<and> (\<forall>i. buildConditionPayload (condition_from i j) = Some j)" if j: "j \<in> set ?cs" for j
  proof -
    obtain c where "good_condition c" "buildConditionPayload c = Some j" using condition_payloads_good [OF assms j] .
    then show ?thesis using condition_reopened(1,3) by blast
  qed
  then have good: "list_all (\<lambda>j. j \<noteq> JNull) ?cs" "list_all (\<lambda>j. \<forall>i. buildConditionPayload (condition_from i j) = Some j) ?cs"
    by (simp_all add: list_all_iff)
  have pc: "po_conditions ?q = ?c" by (simp add: operation_from_def)
  have "condition_payloads ?q = ?cs"
    unfolding condition_payloads_def [of ?q] pc by (rule payloads_of_conditions [OF good(2)])
  then have "payload_entries ?q = payload_entries p" using reopened_entries [OF assms] by blast
  moreover have "normalizeOperation clk n (operationPayload p) = Some ?q"
    using normalize_conditions [OF good(1), of clk "Suc n"]
    by (cases "?cs = []") (simp_all add: normalizeOperation_def payload_not_null payload_get del: upt_Suc)
  moreover have "po_mode ?q = po_mode p"
    using assms condition_modes_not_Nil by (auto simp: operation_from_def known_mode_def payload_get good_operation_def mode_of_def str_or_def)
  ultimately show thesis using that [of ?q] by (simp add: operation_payload ids_used_def operation_from_def del: upt_Suc)
qed

section \<open>Saving and opening again\<close>

text \<open>An operation has what its mode needs.\<close>

definition complete_operation :: "ParamOverrideOperation \<Rightarrow> bool" where
  "complete_operation p \<longleftrightarrow>
     (let mode = mode_of p; meta = meta_of mode; path = trim (po_path p); raw = trim (po_value_text p);
          aliased = (mm_pathAlias meta \<and> path \<noteq> [])
      in (mm_path meta \<longrightarrow> path \<noteq> [])
         \<and> (mode \<in> set FROM_REQUIRED_MODES \<longrightarrow> trim (po_from p) \<noteq> [] \<or> aliased)
         \<and> (mode \<in> set TO_REQUIRED_MODES \<longrightarrow> trim (po_to p) \<noteq> [] \<or> aliased)
         \<and> (mode \<in> set VALUE_REQUIRED_MODES \<longrightarrow> raw \<noteq> [])
         \<and> (mode = js ''return_error'' \<longrightarrow> \<not> return_error_without_message raw)
         \<and> (mode = js ''pass_headers'' \<longrightarrow> parsePassHeaderNames (parseLooseValue raw) \<noteq> []))"

lemma validate_complete: "validateOperation t line p = None \<longleftrightarrow> complete_operation p"
  by (simp add: validateOperation_def complete_operation_def Let_def split: if_split)

lemma validate_from:
  assumes "\<forall>k l. t k l \<noteq> []"
  shows "validateFrom t line ps = [] \<longleftrightarrow> list_all complete_operation ps"
proof (induction ps arbitrary: line)
  case (Cons p ps)
  have "validateOperation t line p = Some m \<Longrightarrow> m \<noteq> []" for m
    using assms by (auto simp: validateOperation_def Let_def split: if_splits)
  with Cons validate_complete [of t line p] show ?case by (auto split: option.split)
qed simp

lemma return_error_raw:
  assumes "trim v \<noteq> []"
  shows "return_error_without_message (trim v) =
     (case parseLooseValue v of
        JObj ps \<Rightarrow> trim (json_to_string (json_or (map_of ps (js ''message'')) (JStr []))) = [] | _ \<Rightarrow> False)"
  using assms by (simp add: return_error_without_message_def parseLooseValue_def Let_def split: option.split json.split)

lemma loose_trim: "parseLooseValue (trim v) = parseLooseValue v"
  by (simp add: parseLooseValue_def)

lemma value_modes: "mode \<in> set VALUE_REQUIRED_MODES \<Longrightarrow> mm_value (meta_of mode)"
  "mode \<in> set FROM_REQUIRED_MODES \<Longrightarrow> mm_from (meta_of mode)" "mode \<in> set TO_REQUIRED_MODES \<Longrightarrow> mm_to (meta_of mode)"
  "js ''return_error'' \<in> set VALUE_REQUIRED_MODES" "js ''pass_headers'' \<in> set VALUE_REQUIRED_MODES"
proof -
  have "list_all (\<lambda>m. mm_value (meta_of m)) VALUE_REQUIRED_MODES" "list_all (\<lambda>m. mm_from (meta_of m)) FROM_REQUIRED_MODES"
    "list_all (\<lambda>m. mm_to (meta_of m)) TO_REQUIRED_MODES" by (code_simp, code_simp, code_simp)
  then show "mode \<in> set VALUE_REQUIRED_MODES \<Longrightarrow> mm_value (meta_of mode)"
    "mode \<in> set FROM_REQUIRED_MODES \<Longrightarrow> mm_from (meta_of mode)" "mode \<in> set TO_REQUIRED_MODES \<Longrightarrow> mm_to (meta_of mode)"
    by (auto simp: list_all_iff)
  show "js ''return_error'' \<in> set VALUE_REQUIRED_MODES" "js ''pass_headers'' \<in> set VALUE_REQUIRED_MODES"
    by (simp_all add: VALUE_REQUIRED_MODES_def)
qed

lemma reopened_complete:
  assumes "good_operation p" "complete_operation p" "mode_of q = mode_of p"
    and q: "q = operation_from i (operationPayload p) cs"
  shows "complete_operation q"
proof -
  let ?m = "meta_of (mode_of p)"
  have al: "mm_pathAlias ?m \<Longrightarrow> mm_from ?m \<and> mm_to ?m \<and> \<not> mm_path ?m \<and> \<not> mm_pathOptional ?m" by (rule meta_shape(2))
  have path: "mm_path ?m \<Longrightarrow> trim (po_path q) = trim (po_path p)"
    and from': "mm_from ?m \<Longrightarrow> trim (po_from p) \<noteq> [] \<or> mm_pathAlias ?m \<and> trim (po_path p) \<noteq> [] \<Longrightarrow> trim (po_from q) \<noteq> []"
    and to': "mm_to ?m \<Longrightarrow> trim (po_to p) \<noteq> [] \<or> mm_pathAlias ?m \<and> trim (po_path p) \<noteq> [] \<Longrightarrow> trim (po_to q) \<noteq> []"
    and val: "mm_value ?m \<Longrightarrow> po_value_text q = toValueText (Some (parseLooseValue (po_value_text p)))"
    unfolding q by (auto simp: operation_from_def text_field_def payload_get)
  have stable: "stable_value (po_value_text p)" using assms(1) by (simp add: good_operation_def)
  have v: "parseLooseValue (po_value_text q) = parseLooseValue (po_value_text p)"
    "trim (po_value_text q) = [] \<longleftrightarrow> trim (po_value_text p) = []" if "mode_of p \<in> set VALUE_REQUIRED_MODES"
    using val [OF value_modes(1) [OF that]] loose_shown [OF stable] by simp_all
  note c = assms(2) [unfolded complete_operation_def Let_def]
  have err: "\<not> return_error_without_message (trim (po_value_text q))" if m: "mode_of p = js ''return_error''"
  proof -
    have "mode_of p \<in> set VALUE_REQUIRED_MODES" using m value_modes(4) by simp
    moreover from this have "trim (po_value_text p) \<noteq> []" using c by blast
    moreover have "\<not> return_error_without_message (trim (po_value_text p))" using c m by blast
    ultimately show ?thesis using v return_error_raw by simp
  qed
  have headers: "parsePassHeaderNames (parseLooseValue (po_value_text q)) \<noteq> []" if m: "mode_of p = js ''pass_headers''"
  proof -
    have "mode_of p \<in> set VALUE_REQUIRED_MODES" using m value_modes(5) by simp
    moreover have "parsePassHeaderNames (parseLooseValue (po_value_text p)) \<noteq> []" using c m loose_trim by simp
    ultimately show ?thesis using v(1) by simp
  qed
  show ?thesis
    unfolding complete_operation_def Let_def assms(3) loose_trim
  proof (intro conjI impI)
    show "trim (po_path q) \<noteq> []" if "mm_path ?m" using that c path by simp
    show "trim (po_from q) \<noteq> [] \<or> mm_pathAlias ?m \<and> trim (po_path q) \<noteq> []" if "mode_of p \<in> set FROM_REQUIRED_MODES"
      using that c from' value_modes(2) by blast
    show "trim (po_to q) \<noteq> [] \<or> mm_pathAlias ?m \<and> trim (po_path q) \<noteq> []" if "mode_of p \<in> set TO_REQUIRED_MODES"
      using that c to' value_modes(3) by blast
    show "trim (po_value_text q) \<noteq> []" if "mode_of p \<in> set VALUE_REQUIRED_MODES" using that c v(2) by blast
  qed (use err headers in blast)+
qed

lemma complete_not_blank: "complete_operation p \<Longrightarrow> \<not> isOperationBlank p"
proof -
  have "mm_path (meta_of (js ''set''))" by code_simp
  moreover assume "complete_operation p"
  ultimately show ?thesis by (auto simp: complete_operation_def isOperationBlank_def Let_def mode_of_def str_or_def)
qed

lemma operations_reopened:
  assumes "list_all good_operation ps" "list_all complete_operation ps"
  shows "\<exists>qs. normalizeOperations clk n (map operationPayload ps) = Some qs
    \<and> map operationPayload qs = map operationPayload ps \<and> list_all complete_operation qs"
  using assms
proof (induction ps arbitrary: n)
  case (Cons p ps)
  obtain q where q: "normalizeOperation clk n (operationPayload p) = Some q" "operationPayload q = operationPayload p"
    "po_mode q = po_mode p" "q = operation_from (nextLocalId clk n) (operationPayload p) (po_conditions q)"
    using operation_reopened Cons.prems(1) by (metis list.pred_inject(2))
  have "complete_operation q" using reopened_complete [OF _ _ _ q(4)] Cons.prems q(3) by (simp add: mode_of_def)
  with Cons.IH [of "n + ids_used q"] Cons.prems q(1,2) show ?case by auto
qed simp

lemma saved_operations:
  assumes "buildOperationsJson ops True t = Inr saved" "saved \<noteq> []" "\<forall>k l. t k l \<noteq> []"
  shows "saved = stringify_indented (JObj [(js ''operations'', JArr (map operationPayload (filter (\<lambda>p. \<not> isOperationBlank p) ops)))])"
    and "list_all complete_operation (filter (\<lambda>p. \<not> isOperationBlank p) ops)" "filter (\<lambda>p. \<not> isOperationBlank p) ops \<noteq> []"
  using assms validate_from [OF assms(3), of 1]
  by (auto simp: buildOperationsJson_def validateOperations_def Let_def split: if_splits)

text \<open>
  C17. Saved operations are read back. When the editor has saved its operations, opening the text again shows operations with
  exactly the saved contents, in order and without the blank ones, and saving those gives the same text. The hypothesis on values excludes the quoted
  texts that \<open>reopened_value_changes\<close> is about.
\<close>

theorem saved_operations_reopened:
  assumes "\<forall>p \<in> set ops. good_operation p" and "\<forall>k l. t k l \<noteq> []"
    and "buildOperationsJson ops True t = Inr saved" and "saved \<noteq> []"
  shows "\<exists>s. parseInitialState clk n saved = Some s \<and> es_editMode s = ModeVisual \<and> es_visualMode s = VisualOperations
    \<and> map operationPayload (es_operations s) = map operationPayload (filter (\<lambda>p. \<not> isOperationBlank p) ops)
    \<and> buildOperationsJson (es_operations s) True t = Inr saved"
proof -
  let ?ps = "filter (\<lambda>p. \<not> isOperationBlank p) ops"
  let ?j = "JObj [(js ''operations'', JArr (map operationPayload ?ps))]"
  note f = saved_operations [OF assms(3,4,2)]
  have good: "list_all good_operation ?ps" using assms(1) by (auto simp: list_all_iff)
  obtain qs where qs: "normalizeOperations clk n (map operationPayload ?ps) = Some qs" "map operationPayload qs = map operationPayload ?ps"
    "list_all complete_operation qs" using operations_reopened [OF good f(2)] by blast
  have "array_index (js ''operations'') = None" by code_simp
  then have "wf_json ?j" using good wf_payload by (auto simp: list_all_iff obj_of_def obj_set_def)
  then have "json_parse saved = Some ?j" unfolding f(1) by (rule indented_roundtrip)
  moreover have "trim saved = saved" unfolding f(1) by (rule trim_trimmed [OF trimmed_indented(1)])
  moreover have "filter (\<lambda>p. \<not> isOperationBlank p) qs = qs" "qs \<noteq> []"
    using qs(2,3) f(3) complete_not_blank by (auto simp: list_all_iff filter_id_conv)
  moreover have "validateOperations t qs = []" unfolding validateOperations_def using validate_from [OF assms(2)] qs(3) by blast
  ultimately show ?thesis
    using assms(4) qs(1,2) f(1,3)
    by (simp add: parseInitialState_def operations_or_default_def Let_def buildOperationsJson_def)
qed

definition sample_operation :: ParamOverrideOperation where
  "sample_operation = \<lparr>po_id = js ''a'', po_description = js '' note '', po_path = js ''temperature'', po_mode = js ''set'', po_from = [], po_to = [],
     po_value_text = js ''[0.7, 1]'', po_keep_origin = True, po_logic = js ''AND'',
     po_conditions = [\<lparr>pc_id = js ''b'', pc_path = js ''model'', pc_mode = js ''prefix'', pc_value_text = js ''openai/'',
       pc_invert = False, pc_pass_missing_key = True\<rparr>]\<rparr>"

theorem saved_operations_reopened_witness:
  "\<exists>saved s. buildOperationsJson [sample_operation] True (\<lambda>k l. js ''message'') = Inr saved \<and> parseInitialState (\<lambda>n. 0) 0 saved = Some s
    \<and> map operationPayload (es_operations s) = [operationPayload sample_operation]
    \<and> buildOperationsJson (es_operations s) True (\<lambda>k l. js ''message'') = Inr saved"
proof -
  have "parseLooseValue (js ''[0.7, 1]'') = JArr [JNum (7 / 10), JNum 1]" "parseLooseValue (js ''openai/'') = JStr (js ''openai/'')"
    "json_parse (trim (js ''[0.7, 1]'')) = Some (JArr [JNum (7 / 10), JNum 1])" "json_parse (trim (js ''openai/'')) = None"
    by (code_simp, code_simp, code_simp, code_simp)
  moreover have "js ''set'' \<in> set OPERATION_MODE_VALUES" "js ''prefix'' \<in> set CONDITION_MODE_VALUES" by (code_simp, code_simp)
  moreover have "decimal (7 / 10)" "decimal 1" by (simp_all add: decimal_def max_frac_def)
  ultimately have g: "\<forall>p \<in> set [sample_operation]. good_operation p"
    by (simp add: sample_operation_def good_operation_def good_condition_def stable_value_def)
  have t: "\<forall>k l. (\<lambda>k l. js ''message'') k l \<noteq> []" by simp
  have b: "filter (\<lambda>p. \<not> isOperationBlank p) [sample_operation] = [sample_operation]" by code_simp
  let ?saved = "stringify_indented (JObj [(js ''operations'', JArr [operationPayload sample_operation])])"
  have "validateOperations (\<lambda>k l. js ''message'') [sample_operation] = []" by code_simp
  then have s: "buildOperationsJson [sample_operation] True (\<lambda>k l. js ''message'') = Inr ?saved"
    using b by (simp add: buildOperationsJson_def Let_def)
  have ne: "?saved \<noteq> []" by (rule trimmed_indented(2))
  show ?thesis
    using saved_operations_reopened [OF g t s ne, of "\<lambda>n. 0" 0] s unfolding b by auto
qed

text \<open>A quoted text loses its quotes when it is shown again, and a number written as a text becomes a number.\<close>

lemma reopened_value_changes:
  "parseLooseValue (js ''\"123\"'') = JStr (js ''123'')"
  "parseLooseValue (toValueText (Some (parseLooseValue (js ''\"123\"'')))) = JNum 123"
  by (code_simp, code_simp)


end
