(* ===== verification/ParamInvariant.thy ===== *)
theory ParamInvariant
  imports ParamRules "HOL-Library.Multiset"
begin

text \<open>
  The state of the override editor under every sequence of actions: there is always an operation, one is selected, and no
  two operations or conditions share an identifier, on which every update relies.
\<close>

section \<open>Identifiers\<close>

lemma nextLocalId_inject: "nextLocalId clk m = nextLocalId clk n \<Longrightarrow> m = n"
proof -
  have "takeWhile (\<lambda>c. c \<noteq> 95) (rev (nextLocalId clk k)) = rev (nat_str k)" for k
    using nat_str_no_ws [of 95 k] by (auto simp: nextLocalId_def js_def takeWhile_append is_digit_def)
  moreover assume "nextLocalId clk m = nextLocalId clk n"
  ultimately have "rev (nat_str m) = rev (nat_str n)" by metis
  then show ?thesis by simp
qed

definition op_ids :: "ParamOverrideOperation \<Rightarrow> jsstr list" where
  "op_ids p = po_id p # map pc_id (po_conditions p)"

definition all_ids :: "ParamOverrideOperation list \<Rightarrow> jsstr list" where
  "all_ids ops = concat (map op_ids ops)"

lemma all_ids_simps [simp]: "all_ids [] = []" "all_ids (p # ps) = op_ids p @ all_ids ps" "all_ids (ps @ qs) = all_ids ps @ all_ids qs"
  by (simp_all add: all_ids_def)

lemma po_ids_sub: "set (map po_id ops) \<subseteq> set (all_ids ops)"
  by (auto simp: all_ids_def op_ids_def)

lemma distinct_po_ids: "distinct (all_ids ops) \<Longrightarrow> distinct (map po_id ops)"
proof (induction ops)
  case (Cons p ops)
  then show ?case using po_ids_sub [of ops] by (auto simp: op_ids_def)
qed simp

text \<open>Identifiers that are distinct and were made with a seed below \<open>n\<close>.\<close>

definition ids_ok :: "(nat \<Rightarrow> nat) \<Rightarrow> nat \<Rightarrow> jsstr list \<Rightarrow> bool" where
  "ids_ok clk n xs \<longleftrightarrow> distinct xs \<and> set xs \<subseteq> nextLocalId clk ` {..<n}"

lemma ids_ok_mset: "mset xs = mset ys \<Longrightarrow> ids_ok clk n xs \<longleftrightarrow> ids_ok clk n ys"
  unfolding ids_ok_def by (metis mset_eq_imp_distinct_iff mset_eq_setD)

lemma ids_ok_mono: "ids_ok clk n xs \<Longrightarrow> n \<le> m \<Longrightarrow> ids_ok clk m xs"
  by (force simp: ids_ok_def)

lemma ids_ok_sub:
  assumes "ids_ok clk n xs" "mset ys \<subseteq># mset xs"
  shows "ids_ok clk n ys"
proof -
  from assms(2) obtain zs where "mset xs = mset (ys @ zs)" by (metis ex_mset mset_append mset_subset_eq_exists_conv)
  then have "ids_ok clk n (ys @ zs)" using assms(1) ids_ok_mset by blast
  then show ?thesis by (simp add: ids_ok_def)
qed

lemma ids_ok_new:
  assumes "ids_ok clk n xs" "n \<le> m"
  shows "ids_ok clk m (xs @ map (nextLocalId clk) [n..<m])"
proof -
  have "distinct (map (nextLocalId clk) [n..<m])" using nextLocalId_inject by (auto simp: distinct_map intro: inj_onI)
  moreover have "set xs \<inter> set (map (nextLocalId clk) [n..<m]) = {}"
    using assms(1) nextLocalId_inject by (fastforce simp: ids_ok_def)
  ultimately show ?thesis using assms by (auto simp: ids_ok_def)
qed

lemma ids_ok_fresh: "ids_ok clk (n + k) (map (nextLocalId clk) [n..<n + k])"
  using ids_ok_new [of clk n "[]" "n + k"] by (simp add: ids_ok_def)

section \<open>New operations\<close>

lemma conditions_ids: "normalizeConditions clk n js' = Some cs \<Longrightarrow> map pc_id cs = map (nextLocalId clk) [n..<n + length cs]"
proof (induction js' arbitrary: n cs)
  case (Cons j js')
  then obtain c ds where "cs = c # ds" "normalizeParamCondition clk n j = Some c" "normalizeConditions clk (Suc n) js' = Some ds"
    by (auto split: option.splits)
  with Cons.IH show ?case
    by (auto simp: normalizeParamCondition_def condition_from_def upt_conv_Cons simp del: upt_Suc split: if_splits)
qed simp

lemma operation_ids: "normalizeOperation clk n j = Some p \<Longrightarrow> op_ids p = map (nextLocalId clk) [n..<n + ids_used p]"
proof -
  assume "normalizeOperation clk n j = Some p"
  then obtain cs js' where "p = operation_from (nextLocalId clk n) j cs" "normalizeConditions clk (Suc n) js' = Some cs"
    unfolding normalizeOperation_def by (auto split: if_splits option.splits json.splits) (metis normalizeConditions.simps(1))+
  with conditions_ids [of clk "Suc n" js' cs] show ?thesis
    by (simp add: op_ids_def operation_from_def ids_used_def upt_conv_Cons del: upt_Suc)
qed

lemma seed_after_simps [simp]: "seed_after n [] = n" "seed_after n (p # ps) = seed_after (n + ids_used p) ps"
  by (simp_all add: seed_after_def)

lemma seed_after_le: "n \<le> seed_after n ops"
  by (simp add: seed_after_def)

lemma operations_ids:
  "normalizeOperations clk n js' = Some ops \<Longrightarrow> all_ids ops = map (nextLocalId clk) [n..<seed_after n ops] \<and> (ops = [] \<longleftrightarrow> js' = [])"
proof (induction js' arbitrary: n ops)
  case (Cons j js')
  then obtain p ps where p: "ops = p # ps" "normalizeOperation clk n j = Some p" "normalizeOperations clk (n + ids_used p) js' = Some ps"
    by (auto split: option.splits)
  have "[n..<seed_after n ops] = [n..<n + ids_used p] @ [n + ids_used p..<seed_after n ops]"
    using upt_add_eq_append [of n "n + ids_used p" "seed_after n ops - (n + ids_used p)"] seed_after_le [of "n + ids_used p" ps] p(1) by simp
  with Cons.IH [OF p(3)] operation_ids [OF p(2)] p(1) show ?case by simp
qed simp

lemma default_ids [simp]: "all_ids [createDefaultOperation clk n] = [nextLocalId clk n]" "seed_after n [createDefaultOperation clk n] = Suc n"
  by (simp_all add: op_ids_def createDefaultOperation_def operation_from_def seed_after_def ids_used_def)

lemma or_default_ids:
  assumes "operations_or_default clk n js' = Some ops"
  shows "all_ids ops = map (nextLocalId clk) [n..<seed_after n ops]" "ops \<noteq> []"
  using assms operations_ids [of clk n js' ops] default_ids [where clk = clk and n = n]
  by (auto simp: operations_or_default_def split: if_splits simp del: all_ids_simps)

section \<open>Changed operations\<close>

lemma all_ids_same: "(\<And>p. op_ids (f p) = op_ids p) \<Longrightarrow> all_ids (map f ops) = all_ids ops"
  by (induction ops) simp_all

lemma all_ids_fewer: "(\<And>p. mset (op_ids (f p)) \<subseteq># mset (op_ids p)) \<Longrightarrow> mset (all_ids (map f ops)) \<subseteq># mset (all_ids ops)"
  by (induction ops) (auto intro: subset_mset.add_mono)

lemma all_ids_filter: "mset (all_ids (filter P ops)) \<subseteq># mset (all_ids ops)"
  by (induction ops) (auto intro: subset_mset.add_mono subset_mset.add_increasing)

lemma all_ids_permuted: "mset ops = mset ops' \<Longrightarrow> mset (all_ids ops) = mset (all_ids ops')"
proof -
  have "mset (all_ids xs) = (\<Sum>p \<in># mset xs. mset (op_ids p))" for xs by (induction xs) simp_all
  then show "mset ops = mset ops' \<Longrightarrow> ?thesis" by simp
qed

lemma all_ids_condition:
  "distinct (map po_id ops) \<Longrightarrow>
     mset (all_ids (map (\<lambda>p. if po_id p = i then p\<lparr>po_conditions := po_conditions p @ [c]\<rparr> else p) ops))
     = mset (all_ids ops) + (if i \<in> po_id ` set ops then {#pc_id c#} else {#})"
proof (induction ops)
  case (Cons p ops)
  have "map (\<lambda>p. if po_id p = i then p\<lparr>po_conditions := po_conditions p @ [c]\<rparr> else p) ops = ops" if "i \<notin> po_id ` set ops"
    using that by (intro map_idI) auto
  with Cons show ?case by (auto simp: op_ids_def)
qed simp

lemma index_where_Some: "index_where P xs = Some i \<Longrightarrow> i < length xs \<and> P (xs ! i)"
proof -
  assume "index_where P xs = Some i"
  then have "i = length (takeWhile (\<lambda>x. \<not> P x) xs)" "i < length xs" by (auto simp: index_where_def Let_def split: if_splits)
  then show ?thesis using nth_length_takeWhile [of "\<lambda>x. \<not> P x" xs] by simp
qed

lemma mset_reorder: "mset (reorderOperations ops s i pos) = mset ops"
proof (cases "index_where (\<lambda>p. po_id p = s) ops")
  case (Some k)
  then have "k < length ops" using index_where_Some by blast
  then have "mset (take k ops @ ops ! k # drop (Suc k) ops) = mset ops" by (simp add: id_take_nth_drop [symmetric])
  define nx where "nx = take k ops @ drop (Suc k) ops"
  then have m: "add_mset (ops ! k) (mset nx) = mset ops" using \<open>mset (take k ops @ ops ! k # drop (Suc k) ops) = mset ops\<close> by simp
  have ins: "mset (take j nx) + mset (drop j nx) = mset nx" for j by (metis append_take_drop_id mset_append)
  have "reorderOperations ops s i pos = (if s = [] \<or> i = [] \<or> s = i then ops else
      case index_where (\<lambda>p. po_id p = i) nx of
        None \<Rightarrow> ops
      | Some j \<Rightarrow> (let q = (case pos of After \<Rightarrow> j + 1 | Before \<Rightarrow> j) in take q nx @ ops ! k # drop q nx))"
    by (simp only: reorderOperations_def Some option.case Let_def nx_def)
  then show ?thesis using m ins by (simp add: Let_def split: option.split)
qed (simp add: reorderOperations_def)

lemma reorder_Nil: "reorderOperations ops s i pos = [] \<longleftrightarrow> ops = []"
  using mset_reorder [of ops s i pos] by (metis mset_zero_iff)

section \<open>The invariant\<close>

definition editor_ids :: "(nat \<Rightarrow> nat) \<Rightarrow> Editor \<Rightarrow> bool" where
  "editor_ids clk st \<longleftrightarrow> ed_operations st \<noteq> [] \<and> ids_ok clk (ed_localIdSeed st) (all_ids (ed_operations st))"

lemma editor_ids_same:
  "editor_ids clk st \<Longrightarrow> ed_operations st' \<noteq> [] \<Longrightarrow> mset (all_ids (ed_operations st')) \<subseteq># mset (all_ids (ed_operations st)) \<Longrightarrow>
     ed_localIdSeed st \<le> ed_localIdSeed st' \<Longrightarrow> editor_ids clk st'"
  unfolding editor_ids_def using ids_ok_sub ids_ok_mono by blast

lemma editor_ids_fresh:
  "ed_operations st' \<noteq> [] \<Longrightarrow> all_ids (ed_operations st') = map (nextLocalId clk) [n..<ed_localIdSeed st'] \<Longrightarrow> n \<le> ed_localIdSeed st' \<Longrightarrow>
     editor_ids clk st'"
  unfolding editor_ids_def using ids_ok_fresh [of clk n "ed_localIdSeed st' - n"] by simp

lemma editor_ids_more:
  assumes "editor_ids clk st" "ed_operations st' \<noteq> []" "ed_localIdSeed st \<le> ed_localIdSeed st'"
    and "mset (all_ids (ed_operations st')) \<subseteq># mset (all_ids (ed_operations st) @ map (nextLocalId clk) [ed_localIdSeed st..<ed_localIdSeed st'])"
  shows "editor_ids clk st'"
  using assms ids_ok_new [of clk "ed_localIdSeed st" "all_ids (ed_operations st)" "ed_localIdSeed st'"] ids_ok_sub
  unfolding editor_ids_def by blast

lemma on_operation_ids:
  assumes "editor_ids clk st" "\<And>p. mset (op_ids (f p)) \<subseteq># mset (op_ids p)"
  shows "editor_ids clk (on_operation i f st)"
  using assms by (intro editor_ids_same [OF assms(1)]) (auto simp: on_operation_def editor_ids_def intro!: all_ids_fewer)

lemma open_ids: "openDialog clk v st = Some st' \<Longrightarrow> editor_ids clk st'"
proof -
  assume "openDialog clk v st = Some st'"
  then obtain s where s: "parseInitialState clk (ed_localIdSeed st) v = Some s"
    "ed_operations st' = es_operations s" "ed_localIdSeed st' = seed_after (ed_localIdSeed st) (es_operations s)"
    by (auto simp: openDialog_def)
  have "all_ids (es_operations s) = map (nextLocalId clk) [ed_localIdSeed st..<seed_after (ed_localIdSeed st) (es_operations s)] \<and> es_operations s \<noteq> []"
    using s(1) or_default_ids default_ids [where clk = clk and n = "ed_localIdSeed st"]
    by (auto simp: parseInitialState_def Let_def split: if_splits option.splits json.splits simp del: all_ids_simps)
  then show ?thesis using s seed_after_le by (intro editor_ids_fresh) auto
qed

lemma duplicate_ids:
  assumes "editor_ids clk st"
  shows "editor_ids clk (duplicateOperation clk eager i st)"
proof (cases "index_where (\<lambda>p. po_id p = i) (ed_operations st)")
  case (Some k)
  let ?n = "ed_localIdSeed st" and ?ops = "ed_operations st"
  show ?thesis
  proof (cases "normalizeOperation clk ?n (operationSource (?ops ! k))")
    case (Some q)
    let ?st = "duplicateOperation clk eager i st"
    have st: "ed_operations ?st = take (k + 1) ?ops @ q # drop (k + 1) ?ops" "ed_localIdSeed ?st = ?n + ids_used q"
      using Some \<open>index_where _ _ = Some k\<close> by (simp_all add: duplicateOperation_def)
    have "mset (all_ids (take (k + 1) ?ops @ q # drop (k + 1) ?ops)) = mset (all_ids ?ops @ op_ids q)"
      using arg_cong [OF append_take_drop_id [of "k + 1" ?ops], of "\<lambda>xs. mset (all_ids xs)"] by (simp del: append_take_drop_id)
    then show ?thesis
      using operation_ids [OF Some] by (intro editor_ids_more [OF assms]) (simp_all add: st del: all_ids_simps)
  qed (use Some assms in \<open>simp add: duplicateOperation_def\<close>)
qed (use assms in \<open>simp add: duplicateOperation_def\<close>)

lemma remove_ids:
  assumes "editor_ids clk st"
  shows "editor_ids clk (removeOperation clk i st)"
proof (cases "length (ed_operations st) \<le> 1")
  case True
  then show ?thesis
    by (intro editor_ids_fresh [of _ clk "ed_localIdSeed st"]) (simp_all add: removeOperation_def default_ids del: all_ids_simps)
next
  case False
  then obtain p q ops where ops: "ed_operations st = p # q # ops" by (cases "ed_operations st"; cases "tl (ed_operations st)") auto
  have "distinct (map po_id (ed_operations st))" using assms distinct_po_ids by (auto simp: editor_ids_def ids_ok_def)
  then have "po_id p \<noteq> po_id q" using ops by simp
  then have "filter (\<lambda>p. po_id p \<noteq> i) (ed_operations st) \<noteq> []" unfolding ops by auto
  moreover have "ed_operations (removeOperation clk i st) = filter (\<lambda>p. po_id p \<noteq> i) (ed_operations st)"
    "ed_localIdSeed (removeOperation clk i st) = ed_localIdSeed st" using False by (simp_all add: removeOperation_def)
  ultimately show ?thesis using all_ids_filter by (intro editor_ids_same [OF assms]) simp_all
qed

lemma add_condition_ids:
  assumes "editor_ids clk st"
  shows "editor_ids clk (addCondition clk i st)"
proof -
  let ?c = "createDefaultCondition clk (ed_localIdSeed st)"
  have d: "distinct (map po_id (ed_operations st))" using assms distinct_po_ids by (auto simp: editor_ids_def ids_ok_def)
  have "pc_id ?c = nextLocalId clk (ed_localIdSeed st)" by (simp add: createDefaultCondition_def condition_from_def)
  then have "mset (all_ids (ed_operations (addCondition clk i st)))
      \<subseteq># mset (all_ids (ed_operations st) @ map (nextLocalId clk) [ed_localIdSeed st..<Suc (ed_localIdSeed st)])"
    using all_ids_condition [OF d, of i ?c] by (simp add: addCondition_def on_operation_def Let_def)
  moreover have "ed_localIdSeed (addCondition clk i st) = Suc (ed_localIdSeed st)" "ed_operations (addCondition clk i st) \<noteq> []"
    using assms by (simp_all add: addCondition_def on_operation_def Let_def editor_ids_def)
  ultimately show ?thesis by (intro editor_ids_more [OF assms]) simp_all
qed

lemma to_visual_ids:
  assumes "editor_ids clk st"
  shows "editor_ids clk (switchToVisualMode clk st)"
proof -
  let ?n = "ed_localIdSeed st"
  have one: "editor_ids clk st'" if "ed_operations st' = [createDefaultOperation clk ?n]" "ed_localIdSeed st' = Suc ?n" for st'
    using that by (intro editor_ids_fresh [of _ clk ?n]) (simp_all add: default_ids del: all_ids_simps)
  have many: "editor_ids clk st'" if "operations_or_default clk ?n items = Some ops" "ed_operations st' = ops"
    "ed_localIdSeed st' = seed_after ?n ops" for st' items ops
    using that or_default_ids [OF that(1)] seed_after_le by (intro editor_ids_fresh [of _ clk ?n]) auto
  show ?thesis
    unfolding switchToVisualMode_def Let_def
    by (auto simp: toOperations_def assms split: option.split json.split intro: one many)
qed

lemma templates_not_empty: "template_of key = OperationsTemplate ps \<Longrightarrow> ps \<noteq> []"
proof -
  have "list_all (\<lambda>(k, p). p \<noteq> OperationsTemplate []) TEMPLATE_PRESET_CONFIG" "OPERATION_TEMPLATE \<noteq> []" by (code_simp, code_simp)
  then show "template_of key = OperationsTemplate ps \<Longrightarrow> ?thesis"
    by (fastforce simp: template_of_def list_all_iff dest: map_of_SomeD split: option.splits)
qed

lemma fill_ids:
  assumes "editor_ids clk st"
  shows "editor_ids clk (fillTemplate clk mode st)"
proof (cases "template_of (ed_templatePresetKey st)")
  case (LegacyTemplate payload)
  have "editor_ids clk (fillLegacy clk s st)" for s
    by (intro editor_ids_fresh [of _ clk "ed_localIdSeed st"]) (simp_all add: fillLegacy_def default_ids del: all_ids_simps)
  with LegacyTemplate assms show ?thesis by (auto simp: fillTemplate_def Let_def split: option.split)
next
  case (OperationsTemplate ps)
  let ?n = "ed_localIdSeed st"
  show ?thesis
  proof (cases "normalizeOperations clk ?n ps")
    case (Some filled)
    have f: "all_ids filled = map (nextLocalId clk) [?n..<seed_after ?n filled]" "filled \<noteq> []"
      using operations_ids [OF Some] templates_not_empty [OF OperationsTemplate] by auto
    have "mset (all_ids (filter (\<lambda>p. \<not> isOperationBlank p) (ed_operations st) @ filled)) \<subseteq># mset (all_ids (ed_operations st) @ all_ids filled)"
      using all_ids_filter by (auto intro: subset_mset.add_mono)
    moreover have "mset (all_ids filled) \<subseteq># mset (all_ids (ed_operations st) @ all_ids filled)" by simp
    ultimately show ?thesis
      using f seed_after_le [of ?n filled] OperationsTemplate Some
      by (intro editor_ids_more [OF assms]; cases mode) (auto simp: fillTemplate_def toOperations_def Let_def)
  qed (use assms OperationsTemplate in \<open>simp add: fillTemplate_def\<close>)
qed

lemma draft_ids: "editor_ids clk st \<Longrightarrow> editor_ids clk (updatePruneObjectsDraft clk i g st)"
  "editor_ids clk st \<Longrightarrow> editor_ids clk (addPruneRule clk i st)"
proof -
  show *: "editor_ids clk (updatePruneObjectsDraft clk i g st)" if "editor_ids clk st" for g st
  proof -
    let ?f = "\<lambda>p. p\<lparr>po_value_text := buildPruneObjectsValueText (g (parsePruneObjectsDraft clk (ed_localIdSeed st) (po_value_text p)))\<rparr>"
    have "editor_ids clk (on_operation i ?f st)" by (intro on_operation_ids [OF that]) (simp add: op_ids_def)
    then show ?thesis unfolding updatePruneObjectsDraft_def
      by (rule editor_ids_same) (use that in \<open>simp_all add: on_operation_def editor_ids_def\<close>)
  qed
  show "editor_ids clk (addPruneRule clk i st)" if "editor_ids clk st"
    unfolding addPruneRule_def Let_def by (rule editor_ids_same [OF *[OF that]]) (use *[OF that] in \<open>auto simp: editor_ids_def\<close>)
qed

lemma patched_ids [simp]: "op_ids (patchOperation u p) = op_ids p" "pc_id (patchCondition uc c) = pc_id c"
  by (simp_all add: op_ids_def patchOperation_def patchCondition_def)

lemma action_ids:
  assumes "editor_action clk t st st'" "editor_ids clk st"
  shows "editor_ids clk st'"
  using assms
proof cases
  case (Render n)
  then show ?thesis using assms(2) by (intro editor_ids_same [OF assms(2)]) (simp_all add: editor_ids_def)
next
  case (Open v)
  then show ?thesis using open_ids by blast
next
  case (Update i u)
  then show ?thesis unfolding Update updateOperation_def by (intro on_operation_ids [OF assms(2)]) simp
next
  case Add
  then show ?thesis
    by (intro editor_ids_more [OF assms(2)]) (simp_all add: addOperation_def Let_def op_ids_def createDefaultOperation_def operation_from_def)
next
  case (UpdateCondition i c uc)
  have "map pc_id (map (\<lambda>d. if pc_id d = c then patchCondition uc d else d) ds) = map pc_id ds" for ds by simp
  then have "op_ids (p\<lparr>po_conditions := map (\<lambda>d. if pc_id d = c then patchCondition uc d else d) (po_conditions p)\<rparr>) = op_ids p" for p
    unfolding op_ids_def by simp
  then show ?thesis unfolding UpdateCondition updateCondition_def by (intro on_operation_ids [OF assms(2)]) simp
next
  case (RemoveCondition i c)
  have "mset (map pc_id (filter P ds)) \<subseteq># mset (map pc_id ds)" for P ds
    by (metis image_mset_subseteq_mono mset_filter mset_map multiset_filter_subset)
  then show ?thesis unfolding RemoveCondition removeCondition_def
    by (intro on_operation_ids [OF assms(2)]) (simp add: op_ids_def)
next
  case (ReturnError i f)
  show ?thesis unfolding ReturnError updateReturnErrorDraft_def
    by (intro on_operation_ids [OF assms(2)]) (simp add: op_ids_def)
next
  case (Drop s i)
  have "mset (all_ids (ed_operations (handleDrop s i st))) = mset (all_ids (ed_operations st))"
    using all_ids_permuted [OF mset_reorder] by (simp add: handleDrop_def Let_def resetDragState_def)
  moreover have "ed_operations (handleDrop s i st) \<noteq> []"
    using assms(2) reorder_Nil [of "ed_operations st"] by (simp add: handleDrop_def Let_def resetDragState_def editor_ids_def)
  ultimately show ?thesis unfolding Drop
    by (intro editor_ids_same [OF assms(2)]) (simp_all add: handleDrop_def Let_def resetDragState_def)
next
  case Reset
  then show ?thesis
    by (intro editor_ids_fresh [of _ clk "ed_localIdSeed st"]) (simp_all add: resetEditorState_def toOperations_def default_ids del: all_ids_simps)
qed (use assms(2) duplicate_ids remove_ids add_condition_ids to_visual_ids fill_ids draft_ids in
    \<open>simp_all add: editor_ids_def handleDragStart_def handleDragOver_def switchToJsonMode_def handleJsonChange_def formatJson_def
       setAllConditions_def Let_def split: option.split sum.split\<close>)

definition editor_ok :: "(nat \<Rightarrow> nat) \<Rightarrow> Editor \<Rightarrow> bool" where
  "editor_ok clk st \<longleftrightarrow> editor_ids clk st \<and> selectedOperation st \<noteq> None"

lemma keep_selected: "editor_ids clk st \<Longrightarrow> editor_ok clk (keepSelectedOperation st)"
  unfolding editor_ok_def editor_ids_def keepSelectedOperation_def selectedOperation_def first_id_def
  by (cases "ed_operations st") (auto simp: find_None_iff list_ex_iff)

interpretation editor_sys: invariant_system "editor_step clk t" "editor_ok clk" for clk t
proof
  show "editor_ok clk st'" if "editor_step clk t st st'" "editor_ok clk st" for st st'
    using that(1)
  proof cases
    case (1 st1)
    have "editor_ids clk st1" using action_ids [OF 1(2)] that(2) by (simp add: editor_ok_def)
    then show ?thesis unfolding 1(1) by (rule keep_selected)
  qed
qed

lemma initial_editor_ok: "editor_ok clk (keepSelectedOperation (initialEditor clk))"
  by (intro keep_selected editor_ids_fresh [of _ clk 0]) (simp_all add: initialEditor_def default_ids del: all_ids_simps)

text \<open>
  C18. The editor is never without a rule. After every sequence of actions there is at least one operation, exactly one of them is
  selected, and neither two operations nor two conditions share an identifier, so that an update changes one of them only.
\<close>

theorem editor_invariant:
  assumes "(editor_step clk t)\<^sup>*\<^sup>* (keepSelectedOperation (initialEditor clk)) st"
  shows "ed_operations st \<noteq> [] \<and> distinct (all_ids (ed_operations st))
    \<and> (\<exists>!p. p \<in> set (ed_operations st) \<and> po_id p = ed_selectedOperationId st)"
proof -
  have ok: "editor_ok clk st" using editor_sys.inv_steps [OF assms initial_editor_ok] .
  then have d: "distinct (map po_id (ed_operations st))" using distinct_po_ids by (auto simp: editor_ok_def editor_ids_def ids_ok_def)
  obtain p where "p \<in> set (ed_operations st)" "po_id p = ed_selectedOperationId st"
    using ok by (auto simp: editor_ok_def selectedOperation_def find_None_iff)
  then have "\<exists>!p. p \<in> set (ed_operations st) \<and> po_id p = ed_selectedOperationId st"
    using d by (auto simp: distinct_map inj_on_def)
  with ok show ?thesis by (auto simp: editor_ok_def editor_ids_def ids_ok_def)
qed

theorem editor_invariant_witness:
  "let clk = (\<lambda>n. 7); st = keepSelectedOperation (addOperation clk (keepSelectedOperation (initialEditor clk)))
   in ed_operations st \<noteq> [] \<and> distinct (all_ids (ed_operations st))
    \<and> (\<exists>!p. p \<in> set (ed_operations st) \<and> po_id p = ed_selectedOperationId st)"
  unfolding Let_def
  by (rule editor_invariant [where t = "\<lambda>k l. k"], rule r_into_rtranclp, rule editor_step.intros, rule editor_action.Add)

end
