(* ===== verification/ParamDrafts.thy ===== *)
theory ParamDrafts
  imports ParamInvariant
begin

text \<open>
  The drafts behind the values of single modes: custom errors and synchronised fields are read back as written, and why rules for
  pruning objects cannot be edited: each reading of a draft renames its rules.
\<close>

section \<open>Pruning objects\<close>

lemma prune_rule_ids: "map pc_id (normalizePruneRules clk n js') = map (nextLocalId clk) [n..<n + length (normalizePruneRules clk n js')]"
proof (induction js' arbitrary: n)
  case (Cons j js')
  then show ?case by (simp add: normalizePruneRule_def condition_from_def upt_conv_Cons del: upt_Suc)
qed simp

lemma draft_rule_ids:
  "map pc_id (pd_rules (parsePruneObjectsDraft clk n v)) = map (nextLocalId clk) [n..<n + length (pd_rules (parsePruneObjectsDraft clk n v))]"
  using prune_rule_ids by (simp add: parsePruneObjectsDraft_def Let_def PRUNE_DEFAULTS_def split: option.split json.split)

lemma draft_rule_new: "r \<in> set (pd_rules (parsePruneObjectsDraft clk n v)) \<Longrightarrow> m < n \<Longrightarrow> pc_id r \<noteq> nextLocalId clk m"
proof -
  assume "r \<in> set (pd_rules (parsePruneObjectsDraft clk n v))" "m < n"
  then have "pc_id r \<in> nextLocalId clk ` {n..}" using arg_cong [OF draft_rule_ids [of clk n v], of set] by force
  then show ?thesis using nextLocalId_inject \<open>m < n\<close> by fastforce
qed

lemma shown_rule_old:
  assumes "showPruneDraft clk st = (Some draft, st')" "r \<in> set (pd_rules draft)"
  shows "\<exists>m < ed_localIdSeed st'. pc_id r = nextLocalId clk m"
proof -
  obtain v where d: "draft = parsePruneObjectsDraft clk (ed_localIdSeed st) v"
    "ed_localIdSeed st' = ed_localIdSeed st + length (pd_rules draft)"
    using assms(1) by (auto simp: showPruneDraft_def Let_def split: option.splits if_splits)
  have "pc_id r \<in> set (map pc_id (pd_rules draft))" using assms(2) by simp
  then show ?thesis unfolding d(1) draft_rule_ids using d by auto
qed

text \<open>
  C40. Rules for pruning cannot be edited or removed. The rules that are shown carry identifiers of one reading of the value; editing reads the value
  again, which renames them, so that no rule is found: both handlers only write the value back as it was read.
\<close>

theorem prune_rules_out_of_reach:
  assumes "showPruneDraft clk st = (Some draft, st')" and "r \<in> set (pd_rules draft)"
  shows "removePruneRule clk i (pc_id r) st' = updatePruneObjectsDraft clk i (\<lambda>d. d) st'
    \<and> updatePruneRule clk i (pc_id r) u st' = updatePruneObjectsDraft clk i (\<lambda>d. d) st'"
proof -
  obtain m where m: "m < ed_localIdSeed st'" "pc_id r = nextLocalId clk m" using shown_rule_old [OF assms] by blast
  have new: "q \<in> set (pd_rules (parsePruneObjectsDraft clk (ed_localIdSeed st') v)) \<Longrightarrow> pc_id q \<noteq> pc_id r" for q v
    using draft_rule_new m by simp
  have "filter (\<lambda>q. pc_id q \<noteq> pc_id r) (pd_rules (parsePruneObjectsDraft clk (ed_localIdSeed st') v))
      = pd_rules (parsePruneObjectsDraft clk (ed_localIdSeed st') v)"
    "map (\<lambda>q. if pc_id q = pc_id r then patchCondition u q else q) (pd_rules (parsePruneObjectsDraft clk (ed_localIdSeed st') v))
      = pd_rules (parsePruneObjectsDraft clk (ed_localIdSeed st') v)" for v
    using new by (auto simp: filter_id_conv intro!: map_idI)
  then show ?thesis by (simp add: removePruneRule_def updatePruneRule_def updatePruneObjectsDraft_def on_operation_def)
qed

text \<open>A new rule has no path and is dropped when the draft is written, which happens at once.\<close>

lemma new_prune_rule_lost:
  "ed_operations (addPruneRule clk i st) = ed_operations (updatePruneObjectsDraft clk i (\<lambda>d. d\<lparr>pd_simpleMode := False\<rparr>) st)"
proof -
  have "trim (pc_path (normalizePruneRule clk n (JObj []))) = []" for n
    by (simp add: normalizePruneRule_def condition_from_def text_field_def json_get_def)
  then show ?thesis by (simp add: addPruneRule_def updatePruneObjectsDraft_def on_operation_def buildPruneObjectsValueText_def Let_def)
qed

definition pruning_editor :: Editor where
  "pruning_editor = (initialEditor (\<lambda>n. 0))\<lparr>ed_operations := [(createDefaultOperation (\<lambda>n. 0) 0)\<lparr>po_mode := js ''prune_objects'',
     po_value_text := js ''{\"conditions\":[{\"path\":\"type\",\"mode\":\"full\",\"value\":\"x\"}]}''\<rparr>],
     ed_selectedOperationId := js ''po_0_0''\<rparr>"

theorem prune_rules_out_of_reach_witness:
  "\<exists>draft st'. showPruneDraft (\<lambda>n. 0) pruning_editor = (Some draft, st') \<and> length (pd_rules draft) = 1
    \<and> removePruneRule (\<lambda>n. 0) (js ''po_0_0'') (pc_id (hd (pd_rules draft))) st' = updatePruneObjectsDraft (\<lambda>n. 0) (js ''po_0_0'') (\<lambda>d. d) st'"
proof -
  let ?d = "the (fst (showPruneDraft (\<lambda>n. 0) pruning_editor))" and ?s = "snd (showPruneDraft (\<lambda>n. 0) pruning_editor)"
  have "fst (showPruneDraft (\<lambda>n. 0) pruning_editor) \<noteq> None" "length (pd_rules ?d) = 1" by (code_simp, code_simp)
  then have s: "showPruneDraft (\<lambda>n. 0) pruning_editor = (Some ?d, ?s)" "hd (pd_rules ?d) \<in> set (pd_rules ?d)"
    by (auto simp: prod_eq_iff) (metis hd_in_set length_greater_0_conv zero_less_Suc)
  show ?thesis using prune_rules_out_of_reach [OF s, of "js ''po_0_0''"] s(1) \<open>length (pd_rules ?d) = 1\<close> by blast
qed

section \<open>Custom errors and synchronised fields\<close>

lemma custom_error_roundtrip:
  assumes "trimmed (rd_message d)" "trimmed (rd_code d)" "trimmed (rd_type d)" "valid_status (rd_statusCode d)" "\<not> rd_simpleMode d"
  shows "parseReturnErrorDraft (buildReturnErrorValueText d) = d"
proof -
  obtain r where r: "rd_statusCode d = Num r" "is_integer r" "100 \<le> r" "r \<le> 599"
    using assms(4) by (auto simp: valid_status_def split: jsnum.splits)
  let ?ps = "opt_entry True ''message'' (JStr (rd_message d)) @ opt_entry True ''status_code'' (JNum r)
      @ opt_entry (rd_code d \<noteq> []) ''code'' (JStr (rd_code d)) @ opt_entry (rd_type d \<noteq> []) ''type'' (JStr (rd_type d))
      @ opt_entry (\<not> rd_skipRetry d) ''skip_retry'' (JBool False)"
  have t: "buildReturnErrorValueText d = stringify (JObj ?ps)"
    using assms r by (simp add: buildReturnErrorValueText_def Let_def trim_trimmed status_or_400_def opt_entry_def)
  have "canonical ?ps"
    by (intro plain_canonical plain_entry plain_last) (simp_all add: keys_opt_entry image_Un js_inject key_not_index is_digit_def)
  moreover have "decimal r" using r(2) by (metis Ints_mult Ints_of_int Ints_numeral Ints_power decimal_def is_integer_def)
  ultimately have "wf_json (JObj ?ps)"
    unfolding wf_object by (auto simp: map_of_opt_entry map_add_def split: option.splits if_splits)
  then have p: "json_parse (stringify (JObj ?ps)) = Some (JObj ?ps)" by (rule json_roundtrip)
  have get: "map_of ?ps (js ''message'') = Some (JStr (rd_message d))" "map_of ?ps (js ''msg'') = None"
    "map_of ?ps (js ''status_code'') = Some (JNum r)" "map_of ?ps (js ''code'') = (if rd_code d \<noteq> [] then Some (JStr (rd_code d)) else None)"
    "map_of ?ps (js ''type'') = (if rd_type d \<noteq> [] then Some (JStr (rd_type d)) else None)"
    "map_of ?ps (js ''skip_retry'') = (if rd_skipRetry d then None else Some (JBool False))"
    by (simp_all add: map_of_opt_entry map_add_def js_inject)
  show ?thesis
    unfolding t parseReturnErrorDraft_def Let_def trim_trimmed [OF trimmed_stringify] p get option.case json.case
    using assms r stringify_nonempty [of "JObj ?ps"]
    by (intro ReturnErrorDraft.equality) (simp_all add: json_or_def trim_trimmed status_or_400_def)
qed

lemma sync_target_roundtrip:
  assumes "trim key \<noteq> []"
  shows "parseSyncTargetSpec (buildSyncTargetSpec type key) = (if type = js ''header'' then js ''header'' else js ''json'', trim key)"
proof -
  let ?t = "if type = js ''header'' then js ''header'' else js ''json''"
  have b: "buildSyncTargetSpec type key = ?t @ 58 # trim key" using assms by (simp add: buildSyncTargetSpec_def Let_def js_def)
  have "trimmed (?t @ 58 # trim key)" using assms trimmed_trim [of key] by (auto simp: trimmed_def js_def is_ws_def)
  moreover have "find_sub [58] (?t @ 58 # s) = Some (length ?t)" for s by (simp add: js_def)
  moreover have "to_lower (trim (js ''header'')) = js ''header''" "to_lower (trim (js ''json'')) = js ''json''" by (code_simp, code_simp)
  ultimately show ?thesis unfolding b parseSyncTargetSpec_def Let_def by (simp add: trim_trimmed js_inject)
qed

section \<open>Templates\<close>

text \<open>Every template of operations passes the checks of the editor.\<close>

lemma templates_valid:
  "list_all (\<lambda>(k, p). case p of LegacyTemplate _ \<Rightarrow> True | OperationsTemplate ps \<Rightarrow>
     (case normalizeOperations (\<lambda>n. 0) 0 ps of None \<Rightarrow> False | Some ops \<Rightarrow> validateOperations (\<lambda>k l. k) ops = []))
     TEMPLATE_PRESET_CONFIG"
  by code_simp

end
