(* ===== verification/ModelPricing.thy ===== *)
theory ModelPricing
  imports BillingRules CurrencyRules JsPretty JsObject JsSort
begin

text \<open>
  The editor of model prices. \<open>features/system-settings/models/pricing-format.ts\<close> prints numbers,
  \<open>model-pricing-core.ts\<close> and the hook part of \<open>model-pricing-sheet.tsx\<close> are the panel in which one model is edited,
  \<open>model-pricing-snapshots.ts\<close> reads the stored maps, and the hook part of \<open>model-ratio-visual-editor.tsx\<close> with \<open>model-ratio-form.tsx\<close> and
  \<open>ratio-settings-card.tsx\<close> changes and saves them.

  The server keeps ten texts, each a JSON object from model names to numbers or texts. A record over fixed keys is a function
  on a datatype of these keys. The counter that remounts the expression editor is left out. Arithmetic is exact; the tolerance with which the code hides the drift of
  doubles is kept. Numbers are printed without exponents. The resolver of the form (\<open>zod\<close>) is the argument
  \<open>trigger\<close>, \<open>localeCompare\<close> the argument \<open>cmp\<close>.
\<close>

section \<open>Numbers\<close>

text \<open>\<open>Number.parseFloat\<close>: the longest prefix that is a numeral.\<close>

definition unsigned_float :: "jsstr \<Rightarrow> jsnum" where
  "unsigned_float t =
     (let ds = takeWhile is_digit t; rest = dropWhile is_digit t;
          point = starts_with [46] rest;
          fs = (if point then takeWhile is_digit (tl rest) else []);
          rest' = (if point then dropWhile is_digit (tl rest) else rest)
      in if ds = [] \<and> fs = [] then NaN
         else let e = (case parse_exp rest' of Some (e, _) \<Rightarrow> e | None \<Rightarrow> 1)
              in Num ((of_nat (digits_val ds) + frac_val fs) * e))"

definition parse_float :: "jsstr \<Rightarrow> jsnum" where
  "parse_float s =
     (let t = trim_start s
      in if starts_with [45] t then (case unsigned_float (tl t) of Num r \<Rightarrow> Num (- r) | NaN \<Rightarrow> NaN)
         else if starts_with [43] t then unsigned_float (tl t)
         else unsigned_float t)"

definition hasValue :: "jsstr option \<Rightarrow> bool" where
  "hasValue v \<longleftrightarrow> v \<noteq> Some [] \<and> v \<noteq> None"

definition toNumberOrNull :: "jsstr option \<Rightarrow> rat option" where
  "toNumberOrNull v =
     (if \<not> hasValue v then None else case text_number (the v) of Num r \<Rightarrow> Some r | NaN \<Rightarrow> None)"

definition DISPLAY_DECIMALS :: nat where "DISPLAY_DECIMALS = 12"
definition SNAP_DECIMALS :: nat where "SNAP_DECIMALS = 8"
definition SNAP_EPSILON :: rat where "SNAP_EPSILON = 1 / 10 ^ 12"

definition roundToDecimals :: "rat \<Rightarrow> nat \<Rightarrow> rat" where
  "roundToDecimals x decimals = of_int (math_round (x * 10 ^ decimals)) / 10 ^ decimals"

text \<open>\<open>Number.EPSILON\<close> is \<open>2\<^sup>-\<^sup>5\<^sup>2\<close>.\<close>

definition snap_tolerance :: "rat \<Rightarrow> rat" where
  "snap_tolerance x = max SNAP_EPSILON (\<bar>x\<bar> * (1 / 2 ^ 52) * 8)"

definition snapFloatDrift :: "rat \<Rightarrow> rat" where
  "snapFloatDrift x =
     (case find (\<lambda>decimals. \<bar>x - roundToDecimals x decimals\<bar> \<le> snap_tolerance x) [0..<Suc SNAP_DECIMALS] of
        Some decimals \<Rightarrow> roundToDecimals x decimals
      | None \<Rightarrow> x)"

text \<open>\<open>formatPricingNumber\<close> is called with numbers only.\<close>

definition formatPricingNumber :: "rat \<Rightarrow> jsstr" where
  "formatPricingNumber num =
     num_str (num_or0 (parse_float (to_fixed (snapFloatDrift num) DISPLAY_DECIMALS)))"

section \<open>The panel: data\<close>

datatype PricingMode = PerToken | PerRequest | TieredExpr

primrec mode_name :: "PricingMode \<Rightarrow> jsstr" where
  "mode_name PerToken = js ''per-token''"
| "mode_name PerRequest = js ''per-request''"
| "mode_name TieredExpr = js ''tiered_expr''"

text \<open>The fields \<open>price\<close>, \<open>ratio\<close>, \<open>cacheRatio\<close> and so on.\<close>

datatype PriceField = PfPrice | PfRatio | PfCache | PfCreateCache | PfCompletion | PfImage | PfAudio | PfAudioCompletion

datatype LaneKey = LaneCompletion | LaneCache | LaneCreateCache | LaneImage | LaneAudioInput | LaneAudioOutput

record ModelPricingFormValues =
  fv_name :: jsstr
  fv_values :: "PriceField \<Rightarrow> jsstr"

record ModelRatioData =
  rd_name :: jsstr
  rd_values :: "PriceField \<Rightarrow> jsstr option"
  rd_billingMode :: "PricingMode option"
  rd_billingExpr :: "jsstr option"
  rd_requestRuleExpr :: "jsstr option"

record PreviewRow =
  pr_key :: jsstr
  pr_label :: jsstr
  pr_value :: jsstr
  pr_multiline :: bool

definition numericDraftRegex :: regex where
  "numericDraftRegex = cat [Bol,
     Opt (Grp 1 (Alt (cat [Plus (Cls is_digit), Opt (Grp 2 (cat [Lit [46], Star (Cls is_digit)]))])
                     (cat [Lit [46], Star (Cls is_digit)]))), Eol]"

definition EMPTY_LANE_PRICES :: "LaneKey \<Rightarrow> jsstr" where
  "EMPTY_LANE_PRICES lane = []"

definition EMPTY_LANE_ENABLED :: "LaneKey \<Rightarrow> bool" where
  "EMPTY_LANE_ENABLED lane = False"

primrec ratioFieldByLane :: "LaneKey \<Rightarrow> PriceField" where
  "ratioFieldByLane LaneCompletion = PfCompletion"
| "ratioFieldByLane LaneCache = PfCache"
| "ratioFieldByLane LaneCreateCache = PfCreateCache"
| "ratioFieldByLane LaneImage = PfImage"
| "ratioFieldByLane LaneAudioInput = PfAudio"
| "ratioFieldByLane LaneAudioOutput = PfAudioCompletion"

record LaneConfig =
  lc_key :: LaneKey
  lc_titleKey :: jsstr
  lc_descriptionKey :: jsstr
  lc_placeholder :: jsstr

definition laneConfig :: "LaneKey \<Rightarrow> string \<Rightarrow> string \<Rightarrow> string \<Rightarrow> LaneConfig" where
  "laneConfig key title description placeholder =
     \<lparr>lc_key = key, lc_titleKey = js title, lc_descriptionKey = js description, lc_placeholder = js placeholder\<rparr>"

definition laneConfigs :: "LaneConfig list" where
  "laneConfigs =
     [laneConfig LaneCompletion ''Completion price'' ''Output token price for generated tokens.'' ''15'',
      laneConfig LaneCache ''Cache read price'' ''Token price for cache reads.'' ''0.3'',
      laneConfig LaneCreateCache ''Cache write price'' ''Token price for creating cache entries.'' ''3.75'',
      laneConfig LaneImage ''Image input price'' ''Token price for image input.'' ''2.5'',
      laneConfig LaneAudioInput ''Audio input price'' ''Token price for audio input.'' ''3.81'',
      laneConfig LaneAudioOutput ''Audio output price'' ''Token price for audio output.'' ''15.11'']"

definition lane_keys :: "LaneKey list" where
  "lane_keys = map lc_key laneConfigs"

section \<open>The panel: prices from ratios\<close>

definition ratioToBasePrice :: "jsstr option \<Rightarrow> jsstr" where
  "ratioToBasePrice ratio = (case toNumberOrNull ratio of None \<Rightarrow> [] | Some num \<Rightarrow> formatPricingNumber (num * 2))"

text \<open>The argument \<open>fallback\<close> is never given, so it is the empty text.\<close>

definition deriveLanePrice :: "jsstr option \<Rightarrow> jsstr \<Rightarrow> jsstr" where
  "deriveLanePrice ratio denominator =
     (case (toNumberOrNull ratio, toNumberOrNull (Some denominator)) of
        (Some r, Some d) \<Rightarrow> formatPricingNumber (r * d)
      | _ \<Rightarrow> [])"

record LaneState =
  ls_promptPrice :: jsstr
  ls_prices :: "LaneKey \<Rightarrow> jsstr"
  ls_enabled :: "LaneKey \<Rightarrow> bool"

definition createInitialLaneState :: "ModelRatioData option \<Rightarrow> LaneState" where
  "createInitialLaneState data =
     (case data of
        None \<Rightarrow> \<lparr>ls_promptPrice = [], ls_prices = EMPTY_LANE_PRICES, ls_enabled = EMPTY_LANE_ENABLED\<rparr>
      | Some d \<Rightarrow>
          let promptPrice = ratioToBasePrice (rd_values d PfRatio);
              audioInputPrice = deriveLanePrice (rd_values d PfAudio) promptPrice
          in \<lparr>ls_promptPrice = promptPrice,
              ls_prices = (\<lambda>lane.
                if lane = LaneAudioInput then audioInputPrice
                else if lane = LaneAudioOutput then deriveLanePrice (rd_values d PfAudioCompletion) audioInputPrice
                else deriveLanePrice (rd_values d (ratioFieldByLane lane)) promptPrice),
              ls_enabled = (\<lambda>lane. hasValue (rd_values d (ratioFieldByLane lane)))\<rparr>)"

section \<open>The panel: state and handlers\<close>

record PricingPanel =
  pp_mode :: PricingMode
  pp_promptPrice :: jsstr
  pp_lanePrices :: "LaneKey \<Rightarrow> jsstr"
  pp_laneEnabled :: "LaneKey \<Rightarrow> bool"
  pp_billingExpr :: jsstr
  pp_requestRuleExpr :: jsstr
  pp_form :: ModelPricingFormValues

text \<open>The effect that fills the panel when \<open>editData\<close> changes.\<close>

definition openPanel :: "ModelRatioData option \<Rightarrow> PricingPanel" where
  "openPanel editData =
     (let lanes = createInitialLaneState editData
      in \<lparr>pp_mode = (case editData of
             None \<Rightarrow> PerToken
           | Some d \<Rightarrow> if rd_billingMode d = Some TieredExpr then TieredExpr
                       else if hasValue (rd_values d PfPrice) then PerRequest else PerToken),
          pp_promptPrice = ls_promptPrice lanes, pp_lanePrices = ls_prices lanes, pp_laneEnabled = ls_enabled lanes,
          pp_billingExpr = (case editData of None \<Rightarrow> [] | Some d \<Rightarrow> str_or (rd_billingExpr d) []),
          pp_requestRuleExpr = (case editData of None \<Rightarrow> [] | Some d \<Rightarrow> str_or (rd_requestRuleExpr d) []),
          pp_form = (case editData of
             None \<Rightarrow> \<lparr>fv_name = [], fv_values = (\<lambda>f. [])\<rparr>
           | Some d \<Rightarrow> \<lparr>fv_name = rd_name d, fv_values = (\<lambda>f. str_or (rd_values d f) [])\<rparr>)\<rparr>)"

definition setFormValue :: "PriceField \<Rightarrow> jsstr \<Rightarrow> PricingPanel \<Rightarrow> PricingPanel" where
  "setFormValue field v p = p\<lparr>pp_form := (pp_form p)\<lparr>fv_values := (fv_values (pp_form p))(field := v)\<rparr>\<rparr>"

definition deriveLaneRatio :: "LaneKey \<Rightarrow> jsstr \<Rightarrow> jsstr \<Rightarrow> (LaneKey \<Rightarrow> jsstr) \<Rightarrow> jsstr" where
  "deriveLaneRatio lane price nextPromptPrice nextLanePrices =
     (case toNumberOrNull (Some price) of
        None \<Rightarrow> []
      | Some priceNumber \<Rightarrow>
          (case toNumberOrNull (Some (if lane = LaneAudioOutput then nextLanePrices LaneAudioInput else nextPromptPrice)) of
             None \<Rightarrow> []
           | Some d \<Rightarrow> if d = 0 then [] else formatPricingNumber (priceNumber / d)))"

definition syncLaneRatios :: "jsstr \<Rightarrow> (LaneKey \<Rightarrow> jsstr) \<Rightarrow> (LaneKey \<Rightarrow> bool) \<Rightarrow> PricingPanel \<Rightarrow> PricingPanel" where
  "syncLaneRatios nextPromptPrice nextLanePrices nextLaneEnabled p =
     fold (\<lambda>key. setFormValue (ratioFieldByLane key)
              (if nextLaneEnabled key then deriveLaneRatio key (nextLanePrices key) nextPromptPrice nextLanePrices else []))
       lane_keys
       (setFormValue PfRatio
          (case toNumberOrNull (Some nextPromptPrice) of Some n \<Rightarrow> formatPricingNumber (n / 2) | None \<Rightarrow> []) p)"

definition handlePromptPriceChange :: "jsstr \<Rightarrow> PricingPanel \<Rightarrow> PricingPanel" where
  "handlePromptPriceChange v p =
     (if \<not> re_test numericDraftRegex v then p
      else syncLaneRatios v (pp_lanePrices p) (pp_laneEnabled p) (p\<lparr>pp_promptPrice := v\<rparr>))"

definition handleLanePriceChange :: "LaneKey \<Rightarrow> jsstr \<Rightarrow> PricingPanel \<Rightarrow> PricingPanel" where
  "handleLanePriceChange lane v p =
     (if \<not> re_test numericDraftRegex v then p
      else let next = (pp_lanePrices p)(lane := v);
               p1 = p\<lparr>pp_lanePrices := next\<rparr>;
               p2 = (if pp_laneEnabled p lane
                     then setFormValue (ratioFieldByLane lane) (deriveLaneRatio lane v (pp_promptPrice p) next) p1
                     else p1)
           in if lane = LaneAudioInput \<and> pp_laneEnabled p LaneAudioOutput
              then setFormValue PfAudioCompletion
                     (deriveLaneRatio LaneAudioOutput (next LaneAudioOutput) (pp_promptPrice p) next) p2
              else p2)"

definition handleLaneToggle :: "LaneKey \<Rightarrow> bool \<Rightarrow> PricingPanel \<Rightarrow> PricingPanel" where
  "handleLaneToggle lane checked p =
     (let audio = (\<not> checked \<and> lane = LaneAudioInput);
          nextEnabled = (let e = (pp_laneEnabled p)(lane := checked) in if audio then e(LaneAudioOutput := False) else e);
          nextPrices = (if checked then pp_lanePrices p
                        else let q = (pp_lanePrices p)(lane := []) in if audio then q(LaneAudioOutput := []) else q);
          p1 = (if checked then p else setFormValue (ratioFieldByLane lane) [] p);
          p2 = (if audio then setFormValue PfAudioCompletion [] p1 else p1);
          p3 = p2\<lparr>pp_laneEnabled := nextEnabled, pp_lanePrices := nextPrices\<rparr>
      in if checked
         then setFormValue (ratioFieldByLane lane) (deriveLaneRatio lane (nextPrices lane) (pp_promptPrice p) nextPrices) p3
         else p3)"

definition BASE_TIER :: jsstr where
  "BASE_TIER = js ''tier(\"base\", p * 0 + c * 0)''"

definition handleModeChange :: "PricingMode \<Rightarrow> PricingPanel \<Rightarrow> PricingPanel" where
  "handleModeChange nextMode p =
     (let p1 = p\<lparr>pp_mode := nextMode\<rparr>
      in if nextMode = TieredExpr \<and> pp_billingExpr p = [] then p1\<lparr>pp_billingExpr := BASE_TIER\<rparr> else p1)"

text \<open>The inputs of the view: the name of a new model, and the fixed price.\<close>

definition handleNameInput :: "jsstr \<Rightarrow> PricingPanel \<Rightarrow> PricingPanel" where
  "handleNameInput v p = p\<lparr>pp_form := (pp_form p)\<lparr>fv_name := v\<rparr>\<rparr>"

definition handlePriceInput :: "jsstr \<Rightarrow> PricingPanel \<Rightarrow> PricingPanel" where
  "handlePriceInput v p = (if re_test numericDraftRegex v then setFormValue PfPrice v p else p)"
section \<open>The panel: preview, checks and result\<close>

definition price_or_empty :: "(jsstr \<Rightarrow> jsstr) \<Rightarrow> bool \<Rightarrow> jsstr \<Rightarrow> jsstr" where
  "price_or_empty t enabled price = (if enabled \<and> price \<noteq> [] then js ''$'' @ price else t (js ''Empty''))"

definition buildPreviewRows ::
  "ModelPricingFormValues \<Rightarrow> PricingMode \<Rightarrow> jsstr \<Rightarrow> jsstr \<Rightarrow> jsstr \<Rightarrow> (LaneKey \<Rightarrow> jsstr) \<Rightarrow> (LaneKey \<Rightarrow> bool)
     \<Rightarrow> (jsstr \<Rightarrow> jsstr) \<Rightarrow> PreviewRow list" where
  "buildPreviewRows form mode expr rules promptPrice lanePrices laneEnabled t =
     (let row = (\<lambda>key label v. \<lparr>pr_key = js key, pr_label = label, pr_value = v, pr_multiline = False\<rparr>);
          lane = (\<lambda>key label l. row key (t (js label)) (price_or_empty t (laneEnabled l) (lanePrices l)))
      in case mode of
           TieredExpr \<Rightarrow>
             (let effectiveExpr = combineBillingExpr expr rules
              in [row ''mode'' (js ''BillingMode'') (js ''tiered_expr''),
                  \<lparr>pr_key = js ''expr'', pr_label = t (js ''Expression''),
                   pr_value = (if effectiveExpr = [] then t (js ''Empty'') else effectiveExpr), pr_multiline = True\<rparr>])
         | PerRequest \<Rightarrow>
             [row ''price'' (js ''ModelPrice'')
                (if fv_values form PfPrice = [] then t (js ''Empty'') else fv_values form PfPrice)]
         | PerToken \<Rightarrow>
             [row ''inputPrice'' (t (js ''Input price'')) (price_or_empty t True promptPrice),
              lane ''completion'' ''Completion price'' LaneCompletion,
              lane ''cache'' ''Cache read price'' LaneCache,
              lane ''createCache'' ''Cache write price'' LaneCreateCache,
              lane ''image'' ''Image input price'' LaneImage,
              lane ''audio'' ''Audio input price'' LaneAudioInput,
              lane ''audioCompletion'' ''Audio output price'' LaneAudioOutput])"

definition needs_input_price :: "PricingPanel \<Rightarrow> bool" where
  "needs_input_price p \<longleftrightarrow> pp_mode p = PerToken \<and> toNumberOrNull (Some (pp_promptPrice p)) = None
     \<and> list_ex (\<lambda>key. pp_laneEnabled p key \<and> hasValue (Some (pp_lanePrices p key))) lane_keys"

definition needs_audio_price :: "PricingPanel \<Rightarrow> bool" where
  "needs_audio_price p \<longleftrightarrow> pp_mode p = PerToken \<and> pp_laneEnabled p LaneAudioOutput
     \<and> \<not> hasValue (Some (pp_lanePrices p LaneAudioInput))"

definition MSG_CONFLICT :: jsstr where
  "MSG_CONFLICT = js ''This model has both fixed-price and token-price settings. Saving the current mode will rewrite the conflicting fields.''"
definition MSG_INPUT :: jsstr where
  "MSG_INPUT = js ''Input price is required before saving dependent prices.''"
definition MSG_AUDIO :: jsstr where
  "MSG_AUDIO = js ''Audio output price requires an audio input price.''"

definition ratio_fields :: "PriceField list" where
  "ratio_fields = [PfRatio, PfCompletion, PfCache, PfCreateCache, PfImage, PfAudio, PfAudioCompletion]"

definition panelWarnings :: "(jsstr \<Rightarrow> jsstr) \<Rightarrow> ModelRatioData option \<Rightarrow> PricingPanel \<Rightarrow> jsstr list" where
  "panelWarnings t editData p =
     (case editData of
        Some d \<Rightarrow> (if hasValue (rd_values d PfPrice) \<and> list_ex (\<lambda>f. hasValue (rd_values d f)) ratio_fields
                   then [t MSG_CONFLICT] else [])
      | None \<Rightarrow> [])
     @ (if needs_input_price p then [t MSG_INPUT] else [])
     @ (if needs_audio_price p then [t MSG_AUDIO] else [])"

text \<open>The check before saving: the field that is marked and its message, or nothing when the check passes.\<close>

definition validatePricingValues :: "(jsstr \<Rightarrow> jsstr) \<Rightarrow> PricingPanel \<Rightarrow> (PriceField \<times> jsstr) option" where
  "validatePricingValues t p =
     (if needs_input_price p then Some (PfRatio, t MSG_INPUT)
      else if needs_audio_price p then Some (PfAudio, t MSG_AUDIO)
      else None)"

definition buildSubmitData :: "PricingPanel \<Rightarrow> ModelRatioData" where
  "buildSubmitData p =
     \<lparr>rd_name = trim (fv_name (pp_form p)), rd_values = (\<lambda>f. Some (fv_values (pp_form p) f)), rd_billingMode = Some (pp_mode p),
      rd_billingExpr = (if pp_mode p = TieredExpr then Some (pp_billingExpr p) else None),
      rd_requestRuleExpr = (if pp_mode p = TieredExpr then Some (pp_requestRuleExpr p) else None)\<rparr>"

definition commitDraft :: "(jsstr \<Rightarrow> jsstr) \<Rightarrow> (ModelPricingFormValues \<Rightarrow> bool) \<Rightarrow> PricingPanel \<Rightarrow> ModelRatioData option" where
  "commitDraft t trigger p =
     (if \<not> trigger (pp_form p) \<or> validatePricingValues t p \<noteq> None then None else Some (buildSubmitData p))"

section \<open>Snapshots of the stored maps\<close>

text \<open>\<open>safeJsonParse\<close> with the fallback \<open>{}\<close>.\<close>

definition safeJsonParse :: "jsstr \<Rightarrow> json" where
  "safeJsonParse s =
     (if trim s = [] then JObj [] else case json_parse (trim s) of Some v \<Rightarrow> v | None \<Rightarrow> JObj [])"

text \<open>
  The maps are declared to be records. \<open>Object.keys(null)\<close> throws; the other values that are not objects are against the declared type,
  and the model refuses them in the same way.
\<close>

definition record_of :: "json \<Rightarrow> js_error + (jsstr \<times> json) list" where
  "record_of v = (case v of JObj ps \<Rightarrow> Inr ps | _ \<Rightarrow> Inl TypeError)"

record PriceTexts =
  pt_values :: "PriceField \<Rightarrow> jsstr"
  pt_billingMode :: jsstr
  pt_billingExpr :: jsstr

record PriceMaps =
  pm_values :: "PriceField \<Rightarrow> (jsstr \<times> json) list"
  pm_modes :: "(jsstr \<times> json) list"
  pm_exprs :: "(jsstr \<times> json) list"

definition all_fields :: "PriceField list" where
  "all_fields = [PfPrice, PfRatio, PfCache, PfCreateCache, PfCompletion, PfImage, PfAudio, PfAudioCompletion]"

definition is_record :: "jsstr \<Rightarrow> bool" where
  "is_record s \<longleftrightarrow> (case record_of (safeJsonParse s) of Inr _ \<Rightarrow> True | Inl _ \<Rightarrow> False)"

definition entries :: "jsstr \<Rightarrow> (jsstr \<times> json) list" where
  "entries s = (case record_of (safeJsonParse s) of Inr ps \<Rightarrow> ps | Inl _ \<Rightarrow> [])"

definition all_records :: "PriceTexts \<Rightarrow> bool" where
  "all_records ts \<longleftrightarrow> list_all (\<lambda>f. is_record (pt_values ts f)) all_fields \<and> is_record (pt_billingMode ts) \<and> is_record (pt_billingExpr ts)"

definition parseMaps :: "PriceTexts \<Rightarrow> js_error + PriceMaps" where
  "parseMaps ts =
     (if all_records ts
      then Inr \<lparr>pm_values = (\<lambda>f. entries (pt_values ts f)), pm_modes = entries (pt_billingMode ts), pm_exprs = entries (pt_billingExpr ts)\<rparr>
      else Inl TypeError)"

record ModelPricingSnapshot =
  sn_name :: jsstr
  sn_values :: "PriceField \<Rightarrow> jsstr option"
  sn_billingMode :: "jsstr option"
  sn_billingExpr :: "jsstr option"
  sn_requestRuleExpr :: "jsstr option"
  sn_hasConflict :: bool

definition hasPricingValue :: "jsstr option \<Rightarrow> bool" where
  "hasPricingValue v \<longleftrightarrow> v \<noteq> None \<and> v \<noteq> Some []"

definition isBasePricingUnset :: "ModelPricingSnapshot option \<Rightarrow> bool" where
  "isBasePricingUnset snapshot =
     (case snapshot of
        None \<Rightarrow> True
      | Some s \<Rightarrow> sn_billingMode s \<noteq> Some (js ''tiered_expr'') \<and> \<not> hasPricingValue (sn_values s PfPrice)
                  \<and> \<not> hasPricingValue (sn_values s PfRatio))"

text \<open>\<open>ratioToPrice\<close>; the number it converts is the \<open>toNumberOrNull\<close> of its own file, which agrees with the one above on texts.\<close>

definition ratioToPrice :: "jsstr option \<Rightarrow> jsstr option \<Rightarrow> jsstr" where
  "ratioToPrice ratio denominator =
     (case (toNumberOrNull ratio, if hasPricingValue denominator then toNumberOrNull denominator else Some 2) of
        (Some r, Some d) \<Rightarrow> formatPricingNumber (r * d)
      | _ \<Rightarrow> [])"

definition getModeLabel :: "jsstr option \<Rightarrow> jsstr" where
  "getModeLabel mode = (if mode = Some (js ''per-request'') then js ''Per-request''
     else if mode = Some (js ''tiered_expr'') then js ''Expression'' else js ''Per-token'')"

definition getModeVariant :: "jsstr option \<Rightarrow> jsstr" where
  "getModeVariant mode = (if mode = Some (js ''per-request'') then js ''warning''
     else if mode = Some (js ''tiered_expr'') then js ''info'' else js ''success'')"

definition middot :: jsstr where
  "middot = [32, 183, 32]"

definition getExpressionSummary :: "(jsstr \<Rightarrow> jsstr) \<Rightarrow> ModelPricingSnapshot \<Rightarrow> jsstr" where
  "getExpressionSummary t row =
     (let tierCount = (case sn_billingExpr row of None \<Rightarrow> 0 | Some e \<Rightarrow> length (re_all (Lit (js ''tier('')) None e))
      in if tierCount > 0 then t (js ''Tiered pricing'') @ middot @ nat_str tierCount @ js '' '' @ t (js ''tiers'')
         else t (js ''Expression pricing''))"

definition getPriceSummary :: "(jsstr \<Rightarrow> jsstr) \<Rightarrow> ModelPricingSnapshot \<Rightarrow> jsstr" where
  "getPriceSummary t row =
     (if sn_billingMode row = Some (js ''tiered_expr'') then getExpressionSummary t row
      else if sn_billingMode row = Some (js ''per-request'')
      then (if hasPricingValue (sn_values row PfPrice) then js ''$'' @ the (sn_values row PfPrice) @ js '' / '' @ t (js ''request'')
            else t (js ''Unset price''))
      else let inputPrice = ratioToPrice (sn_values row PfRatio) None
           in if inputPrice = [] then t (js ''Unset price'')
              else let extraCount = length (filter (\<lambda>f. hasPricingValue (sn_values row f))
                         [PfCompletion, PfCache, PfCreateCache, PfImage, PfAudio, PfAudioCompletion])
                   in t (js ''Input'') @ js '' $'' @ inputPrice
                      @ (if extraCount > 0 then middot @ nat_str extraCount @ js '' '' @ t (js ''extras'') else []))"

definition getPriceDetail :: "(jsstr \<Rightarrow> jsstr) \<Rightarrow> ModelPricingSnapshot \<Rightarrow> jsstr" where
  "getPriceDetail t row =
     (if sn_billingMode row = Some (js ''tiered_expr'')
      then (if hasPricingValue (sn_requestRuleExpr row) then t (js ''Includes request rules'') else t (js ''Expression based''))
      else if sn_billingMode row = Some (js ''per-request'') then t (js ''Fixed request price'')
      else let inputPrice = ratioToPrice (sn_values row PfRatio) None
           in if inputPrice = [] then t (js ''No base input price'')
              else let details = take 2 (concat (map (\<lambda>(f, label).
                         if hasPricingValue (sn_values row f)
                         then [t (js label) @ js '' $'' @ ratioToPrice (sn_values row f) (Some inputPrice)] else [])
                         [(PfCompletion, ''Output''), (PfCache, ''Cache''), (PfCreateCache, ''Cache write'')]))
                   in if details \<noteq> [] then join middot details else t (js ''Base input price only''))"

text \<open>\<open>map[name]?.toString() || ''\<close>\<close>

definition shown_entry :: "(jsstr \<times> json) list \<Rightarrow> jsstr \<Rightarrow> jsstr" where
  "shown_entry m name = (case map_of m name of None \<Rightarrow> [] | Some JNull \<Rightarrow> [] | Some v \<Rightarrow> json_to_string v)"

text \<open>The names of all models: \<open>new Set([...Object.keys(priceMap), ...])\<close>.\<close>

definition modelNames :: "PriceMaps \<Rightarrow> jsstr list" where
  "modelNames m = dedup (concat (map (\<lambda>f. map fst (pm_values m f)) all_fields) @ map fst (pm_modes m) @ map fst (pm_exprs m))"

text \<open>\<open>splitBillingExprAndRequestRules\<close> calls a method of texts.\<close>

definition split_entry :: "json option \<Rightarrow> js_error + SplitResult" where
  "split_entry v =
     (case v of
        None \<Rightarrow> splitBillingExprAndRequestRules []
      | Some (JStr s) \<Rightarrow> splitBillingExprAndRequestRules s
      | Some j \<Rightarrow> if json_truthy j then Inl TypeError else splitBillingExprAndRequestRules [])"

definition buildSnapshot :: "PriceMaps \<Rightarrow> jsstr \<Rightarrow> js_error + ModelPricingSnapshot" where
  "buildSnapshot m name =
     (let vals = (\<lambda>f. shown_entry (pm_values m f) name)
      in if map_of (pm_modes m) name = Some (JStr (js ''tiered_expr''))
         then case split_entry (map_of (pm_exprs m) name) of
                Inl e \<Rightarrow> Inl e
              | Inr r \<Rightarrow> Inr \<lparr>sn_name = name, sn_values = Some \<circ> vals, sn_billingMode = Some (js ''tiered_expr''),
                  sn_billingExpr = Some (billingExpr r), sn_requestRuleExpr = Some (requestRuleExpr r), sn_hasConflict = False\<rparr>
         else Inr \<lparr>sn_name = name, sn_values = Some \<circ> vals,
                sn_billingMode = Some (if vals PfPrice \<noteq> [] then js ''per-request'' else js ''per-token''),
                sn_billingExpr = None, sn_requestRuleExpr = None,
                sn_hasConflict = (vals PfPrice \<noteq> [] \<and> list_ex (\<lambda>f. vals f \<noteq> []) ratio_fields)\<rparr>)"

fun collect_results :: "('e + 'a) list \<Rightarrow> 'e + 'a list" where
  "collect_results [] = Inr []"
| "collect_results (Inl e # rs) = Inl e"
| "collect_results (Inr x # rs) = (case collect_results rs of Inl e \<Rightarrow> Inl e | Inr xs \<Rightarrow> Inr (x # xs))"

definition buildModelSnapshots :: "PriceTexts \<Rightarrow> js_error + ModelPricingSnapshot list" where
  "buildModelSnapshots ts =
     (case parseMaps ts of
        Inl e \<Rightarrow> Inl e
      | Inr m \<Rightarrow> collect_results (map (buildSnapshot m) (modelNames m)))"

definition getSnapshotSignature :: "ModelPricingSnapshot option \<Rightarrow> jsstr" where
  "getSnapshotSignature snapshot =
     (case snapshot of
        None \<Rightarrow> []
      | Some s \<Rightarrow>
          let val = (\<lambda>f. JStr (str_or (sn_values s f) []))
          in stringify (JObj
               [(js ''price'', val PfPrice), (js ''ratio'', val PfRatio), (js ''cacheRatio'', val PfCache),
                (js ''createCacheRatio'', val PfCreateCache), (js ''completionRatio'', val PfCompletion), (js ''imageRatio'', val PfImage),
                (js ''audioRatio'', val PfAudio), (js ''audioCompletionRatio'', val PfAudioCompletion),
                (js ''billingMode'', JStr (str_or (sn_billingMode s) (js ''per-token''))),
                (js ''billingExpr'', JStr (str_or (sn_billingExpr s) [])), (js ''requestRuleExpr'', JStr (str_or (sn_requestRuleExpr s) []))]))"

section \<open>Changing the stored maps\<close>

text \<open>The ten statements \<open>delete map[name]\<close>.\<close>

definition deleteModel :: "jsstr \<Rightarrow> PriceMaps \<Rightarrow> PriceMaps" where
  "deleteModel name m =
     \<lparr>pm_values = (\<lambda>f. al_delete name (pm_values m f)), pm_modes = al_delete name (pm_modes m), pm_exprs = al_delete name (pm_exprs m)\<rparr>"

definition printMaps :: "PriceMaps \<Rightarrow> PriceTexts" where
  "printMaps m =
     \<lparr>pt_values = (\<lambda>f. stringify_indented (JObj (pm_values m f))), pt_billingMode = stringify_indented (JObj (pm_modes m)),
      pt_billingExpr = stringify_indented (JObj (pm_exprs m))\<rparr>"

definition setIfPresent :: "jsstr \<Rightarrow> jsstr option \<Rightarrow> (jsstr \<times> json) list \<Rightarrow> (jsstr \<times> json) list" where
  "setIfPresent name v target =
     (if v = None \<or> v = Some [] then target
      else case parse_float (the v) of Num r \<Rightarrow> obj_set name (JNum r) target | NaN \<Rightarrow> target)"

text \<open>One round of \<open>targetNames.forEach\<close>.\<close>

definition persistModel :: "ModelRatioData \<Rightarrow> jsstr \<Rightarrow> PriceMaps \<Rightarrow> PriceMaps" where
  "persistModel data name m0 =
     (let m = deleteModel name m0; set = (\<lambda>f. setIfPresent name (rd_values data f) (pm_values m f))
      in if rd_billingMode data = Some TieredExpr
         then let combined = combineBillingExpr (str_or (rd_billingExpr data) []) (str_or (rd_requestRuleExpr data) [])
              in \<lparr>pm_values = set,
                  pm_modes = (if combined \<noteq> [] then obj_set name (JStr (js ''tiered_expr'')) (pm_modes m) else pm_modes m),
                  pm_exprs = (if combined \<noteq> [] then obj_set name (JStr combined) (pm_exprs m) else pm_exprs m)\<rparr>
         else if hasValue (rd_values data PfPrice)
         then m\<lparr>pm_values := (pm_values m)(PfPrice := set PfPrice)\<rparr>
         else m\<lparr>pm_values := (\<lambda>f. if f = PfPrice then pm_values m PfPrice else set f)\<rparr>)"

definition persistPricingData :: "ModelRatioData \<Rightarrow> jsstr list \<Rightarrow> PriceTexts \<Rightarrow> js_error + PriceTexts" where
  "persistPricingData data targetNames ts =
     (case parseMaps ts of
        Inl e \<Rightarrow> Inl e
      | Inr m \<Rightarrow> Inr (printMaps (fold (persistModel data) targetNames m)))"

definition deletePricing :: "jsstr \<Rightarrow> PriceTexts \<Rightarrow> js_error + PriceTexts" where
  "deletePricing name ts = (case parseMaps ts of Inl e \<Rightarrow> Inl e | Inr m \<Rightarrow> Inr (printMaps (deleteModel name m)))"

section \<open>The table of models\<close>

datatype FilterMode = FilterAll | FilterUnset

record ModelRow =
  mr_displayed :: ModelPricingSnapshot
  mr_saved :: "ModelPricingSnapshot option"
  mr_draft :: "ModelPricingSnapshot option"
  mr_isDraftChanged :: bool
  mr_isDraftDeleted :: bool
  mr_isDraftNew :: bool

definition by_name :: "ModelPricingSnapshot list \<Rightarrow> jsstr \<Rightarrow> ModelPricingSnapshot option" where
  "by_name rows name = map_of (rev (map (\<lambda>r. (sn_name r, r)) rows)) name"

definition empty_snapshot :: "jsstr \<Rightarrow> ModelPricingSnapshot" where
  "empty_snapshot name = \<lparr>sn_name = name, sn_values = (\<lambda>_. None), sn_billingMode = Some (js ''per-token''), sn_billingExpr = None,
     sn_requestRuleExpr = None, sn_hasConflict = False\<rparr>"

definition modelRow :: "ModelPricingSnapshot list \<Rightarrow> ModelPricingSnapshot list \<Rightarrow> jsstr \<Rightarrow> ModelRow" where
  "modelRow savedRows draftRows name =
     (let saved = by_name savedRows name; draft = by_name draftRows name
      in \<lparr>mr_displayed = (case saved of Some s \<Rightarrow> s | None \<Rightarrow> (case draft of Some d \<Rightarrow> d | None \<Rightarrow> empty_snapshot name)),
          mr_saved = saved, mr_draft = draft,
          mr_isDraftChanged = (getSnapshotSignature saved \<noteq> getSnapshotSignature draft),
          mr_isDraftDeleted = (\<not> Option.is_none saved \<and> Option.is_none draft),
          mr_isDraftNew = (Option.is_none saved \<and> \<not> Option.is_none draft)\<rparr>)"

definition modelRows ::
  "(jsstr \<Rightarrow> jsstr \<Rightarrow> rat) \<Rightarrow> FilterMode \<Rightarrow> jsstr list option \<Rightarrow> ModelPricingSnapshot list \<Rightarrow> ModelPricingSnapshot list \<Rightarrow> ModelRow list" where
  "modelRows cmp filterMode candidates savedRows draftRows =
     (let names = (case filterMode of
                     FilterUnset \<Rightarrow> dedup (case candidates of Some c \<Rightarrow> c | None \<Rightarrow> [])
                   | FilterAll \<Rightarrow> dedup (map sn_name savedRows @ map sn_name draftRows));
          rows = filter (\<lambda>r. filterMode \<noteq> FilterUnset \<or> isBasePricingUnset (mr_saved r))
                   (filter (\<lambda>r. \<not> mr_isDraftDeleted r) (map (modelRow savedRows draftRows) names))
      in js_sort (\<lambda>a b. cmp (sn_name (mr_displayed a)) (sn_name (mr_displayed b))) rows)"

definition editorModels ::
  "(jsstr \<Rightarrow> jsstr \<Rightarrow> rat) \<Rightarrow> FilterMode \<Rightarrow> jsstr list option \<Rightarrow> PriceTexts \<Rightarrow> PriceTexts \<Rightarrow> js_error + ModelRow list" where
  "editorModels cmp filterMode candidates saved draft =
     (case buildModelSnapshots saved of
        Inl e \<Rightarrow> Inl e
      | Inr savedRows \<Rightarrow> (case buildModelSnapshots draft of
          Inl e \<Rightarrow> Inl e
        | Inr draftRows \<Rightarrow> Inr (modelRows cmp filterMode candidates savedRows draftRows)))"

definition counted_mode :: "ModelRow \<Rightarrow> jsstr" where
  "counted_mode r =
     (let m = sn_billingMode (mr_displayed r)
      in if m = Some (js ''per-request'') \<or> m = Some (js ''tiered_expr'') then the m else js ''per-token'')"

definition modeCounts :: "ModelRow list \<Rightarrow> jsstr \<Rightarrow> nat" where
  "modeCounts rows mode = length (filter (\<lambda>r. counted_mode r = mode) rows)"

section \<open>The editor\<close>

text \<open>
  The panel exists while the editor is open. The layout of small screens shows it in a sheet, whose flag is kept.
\<close>

record RatioEditor =
  ed_saved :: PriceTexts
  ed_draft :: PriceTexts
  ed_editData :: "ModelRatioData option"
  ed_panel :: "PricingPanel option"
  ed_sheetOpen :: bool
  ed_filter :: jsstr

definition closeEditor :: "RatioEditor \<Rightarrow> RatioEditor" where
  "closeEditor s = s\<lparr>ed_editData := None, ed_panel := None, ed_sheetOpen := False\<rparr>"

definition editable_data :: "ModelRow \<Rightarrow> ModelRatioData" where
  "editable_data model =
     (let e = (case mr_draft model of Some d \<Rightarrow> d | None \<Rightarrow> (case mr_saved model of Some s \<Rightarrow> s | None \<Rightarrow> mr_displayed model))
      in \<lparr>rd_name = sn_name e, rd_values = sn_values e,
          rd_billingMode = Some (if sn_billingMode e = Some (js ''tiered_expr'') then TieredExpr
             else if hasPricingValue (sn_values e PfPrice) then PerRequest else PerToken),
          rd_billingExpr = sn_billingExpr e, rd_requestRuleExpr = sn_requestRuleExpr e\<rparr>)"

definition handleEdit :: "bool \<Rightarrow> ModelRow \<Rightarrow> RatioEditor \<Rightarrow> RatioEditor" where
  "handleEdit isMobile model s =
     (let d = editable_data model
      in s\<lparr>ed_editData := Some d, ed_panel := Some (openPanel (Some d)), ed_sheetOpen := (isMobile \<or> ed_sheetOpen s)\<rparr>)"

text \<open>The panel of a new model that is already open keeps its contents: \<open>editData\<close> does not change.\<close>

definition handleAdd :: "bool \<Rightarrow> RatioEditor \<Rightarrow> RatioEditor" where
  "handleAdd isMobile s =
     s\<lparr>ed_editData := None,
       ed_panel := (case ed_panel s of Some p \<Rightarrow> Some (if Option.is_none (ed_editData s) then p else openPanel None) | None \<Rightarrow> Some (openPanel None)),
       ed_sheetOpen := (isMobile \<or> ed_sheetOpen s)\<rparr>"

definition handleGlobalFilterChange :: "(jsstr \<Rightarrow> jsstr) \<Rightarrow> RatioEditor \<Rightarrow> RatioEditor" where
  "handleGlobalFilterChange updater s =
     (let next = updater (ed_filter s)
      in if next \<noteq> ed_filter s then (closeEditor s)\<lparr>ed_filter := next\<rparr> else s)"

definition handleDelete :: "jsstr \<Rightarrow> RatioEditor \<Rightarrow> js_error + RatioEditor" where
  "handleDelete name s =
     (case deletePricing name (ed_draft s) of
        Inl e \<Rightarrow> Inl e
      | Inr ts \<Rightarrow> let s1 = s\<lparr>ed_draft := ts\<rparr>
                  in Inr (if map_option rd_name (ed_editData s) = Some name then closeEditor s1 else s1))"

datatype CopyResult = NoSource | NotCommitted | NoTargets | Copied nat

definition showCommitted :: "ModelRatioData \<Rightarrow> RatioEditor \<Rightarrow> RatioEditor" where
  "showCommitted d s = s\<lparr>ed_editData := Some d, ed_panel := Some (openPanel (Some d))\<rparr>"

definition handleBatchCopy ::
  "(jsstr \<Rightarrow> jsstr) \<Rightarrow> (ModelPricingFormValues \<Rightarrow> bool) \<Rightarrow> jsstr list \<Rightarrow> RatioEditor \<Rightarrow> js_error + (CopyResult \<times> RatioEditor)" where
  "handleBatchCopy t trigger targetNames s =
     (case ed_editData s of
        None \<Rightarrow> Inr (NoSource, s)
      | Some editData \<Rightarrow>
          (case (case ed_panel s of
                   None \<Rightarrow> Some (editData, s)
                 | Some p \<Rightarrow> map_option (\<lambda>d. (d, showCommitted d s)) (commitDraft t trigger p)) of
             None \<Rightarrow> Inr (NotCommitted, s)
           | Some (sourceData, s1) \<Rightarrow>
               if targetNames = [] then Inr (NoTargets, s1)
               else case persistPricingData sourceData (dedup (rd_name sourceData # targetNames)) (ed_draft s1) of
                      Inl e \<Rightarrow> Inl e
                    | Inr ts \<Rightarrow> Inr (Copied (length targetNames), s1\<lparr>ed_draft := ts\<rparr>)))"

definition commitOpenEditor ::
  "(jsstr \<Rightarrow> jsstr) \<Rightarrow> (ModelPricingFormValues \<Rightarrow> bool) \<Rightarrow> RatioEditor \<Rightarrow> js_error + (bool \<times> RatioEditor)" where
  "commitOpenEditor t trigger s =
     (case ed_panel s of
        None \<Rightarrow> Inr (True, s)
      | Some p \<Rightarrow> (case commitDraft t trigger p of
          None \<Rightarrow> Inr (False, s)
        | Some d \<Rightarrow> (case persistPricingData d [rd_name d] (ed_draft s) of
            Inl e \<Rightarrow> Inl e
          | Inr ts \<Rightarrow> Inr (True, (showCommitted d s)\<lparr>ed_draft := ts\<rparr>))))"

section \<open>Saving\<close>

definition formatJsonForTextarea :: "jsstr \<Rightarrow> jsstr" where
  "formatJsonForTextarea v =
     (if v = [] \<or> trim v = [] then [] else case json_parse v of Some j \<Rightarrow> stringify_indented j | None \<Rightarrow> v)"

definition normalizeJsonString :: "jsstr \<Rightarrow> jsstr" where
  "normalizeJsonString v =
     (let trimmed = trim v
      in if trimmed = [] then [] else case json_parse trimmed of Some j \<Rightarrow> stringify j | None \<Rightarrow> trimmed)"

text \<open>\<open>validateJsonString\<close> without a predicate: whether the text is accepted.\<close>

definition validJsonString :: "jsstr \<Rightarrow> bool" where
  "validJsonString v \<longleftrightarrow> trim v = [] \<or> json_parse (trim v) \<noteq> None"

record ModelFormValues =
  mf_texts :: PriceTexts
  mf_exposeRatio :: bool

definition createModelSchema :: "ModelFormValues \<Rightarrow> bool" where
  "createModelSchema v \<longleftrightarrow> list_all (\<lambda>f. validJsonString (pt_values (mf_texts v) f)) all_fields
     \<and> validJsonString (pt_billingMode (mf_texts v)) \<and> validJsonString (pt_billingExpr (mf_texts v))"

datatype option_value = OptionText jsstr | OptionFlag bool

primrec field_option :: "PriceField \<Rightarrow> jsstr" where
  "field_option PfPrice = js ''ModelPrice''"
| "field_option PfRatio = js ''ModelRatio''"
| "field_option PfCache = js ''CacheRatio''"
| "field_option PfCreateCache = js ''CreateCacheRatio''"
| "field_option PfCompletion = js ''CompletionRatio''"
| "field_option PfImage = js ''ImageRatio''"
| "field_option PfAudio = js ''AudioRatio''"
| "field_option PfAudioCompletion = js ''AudioCompletionRatio''"

definition normalizedValues :: "ModelFormValues \<Rightarrow> ModelFormValues" where
  "normalizedValues v =
     \<lparr>mf_texts = \<lparr>pt_values = (\<lambda>f. normalizeJsonString (pt_values (mf_texts v) f)),
        pt_billingMode = normalizeJsonString (pt_billingMode (mf_texts v)),
        pt_billingExpr = normalizeJsonString (pt_billingExpr (mf_texts v))\<rparr>,
      mf_exposeRatio = mf_exposeRatio v\<rparr>"

text \<open>The entries of the normalised values, under the names that the server knows.\<close>

definition form_options :: "ModelFormValues \<Rightarrow> (jsstr \<times> option_value) list" where
  "form_options v =
     map (\<lambda>f. (field_option f, OptionText (pt_values (mf_texts v) f))) all_fields
     @ [(js ''ExposeRatioEnabled'', OptionFlag (mf_exposeRatio v)),
        (js ''billing_setting.billing_mode'', OptionText (pt_billingMode (mf_texts v))),
        (js ''billing_setting.billing_expr'', OptionText (pt_billingExpr (mf_texts v)))]"

definition option_updates :: "ModelFormValues \<Rightarrow> ModelFormValues \<Rightarrow> (jsstr \<times> option_value) list" where
  "option_updates current normalized =
     map fst (filter (\<lambda>(new, old). snd new \<noteq> snd old) (zip (form_options normalized) (form_options current)))"

text \<open>
  \<open>saveModelRatios\<close>: the requests that are sent, one after the other up to the first that fails, and the values that count as
  saved. \<open>accepts\<close> says which requests succeed.
\<close>

fun sendUpdates :: "(jsstr \<times> option_value \<Rightarrow> bool) \<Rightarrow> (jsstr \<times> option_value) list \<Rightarrow> (jsstr \<times> option_value) list \<times> bool" where
  "sendUpdates accepts [] = ([], True)"
| "sendUpdates accepts (u # us) =
     (if accepts u then let (sent, ok) = sendUpdates accepts us in (u # sent, ok) else ([u], False))"

definition saveModelRatios ::
  "(jsstr \<times> option_value \<Rightarrow> bool) \<Rightarrow> ModelFormValues \<Rightarrow> ModelFormValues \<Rightarrow> (jsstr \<times> option_value) list \<times> ModelFormValues" where
  "saveModelRatios accepts current v =
     (let normalized = normalizedValues v; updates = option_updates current normalized
      in if updates = [] then ([], current)
         else let (sent, ok) = sendUpdates accepts updates in (sent, if ok then normalized else current))"

text \<open>
  \<open>handleSave\<close> of the form: in the visual mode the open panel is committed first, then the texts are checked and saved. The result has the
  requests that were sent.
\<close>

definition handleModelSave ::
  "(jsstr \<Rightarrow> jsstr) \<Rightarrow> (ModelPricingFormValues \<Rightarrow> bool) \<Rightarrow> (jsstr \<times> option_value \<Rightarrow> bool) \<Rightarrow> bool \<Rightarrow> bool \<Rightarrow> ModelFormValues \<Rightarrow> RatioEditor
     \<Rightarrow> js_error + ((jsstr \<times> option_value) list \<times> ModelFormValues \<times> RatioEditor)" where
  "handleModelSave t trigger accepts visual exposeRatio current s =
     (case (if visual then commitOpenEditor t trigger s else Inr (True, s)) of
        Inl e \<Rightarrow> Inl e
      | Inr (committed, s1) \<Rightarrow>
          let v = \<lparr>mf_texts = ed_draft s1, mf_exposeRatio = exposeRatio\<rparr>
          in if \<not> committed \<or> \<not> createModelSchema v then Inr ([], current, s1)
             else let (sent, now) = saveModelRatios accepts current v in Inr (sent, now, s1\<lparr>ed_saved := mf_texts now\<rparr>))"


end
