(* ===== verification/ModelPricingRules.thy ===== *)
theory ModelPricingRules
  imports ModelPricing
begin

text \<open>
  What the editor of model prices guarantees: saving changes exactly the models it is meant to change and is read back, rows are
  marked as changed when their prices differ, the ratios of the form follow the prices that are shown, and numbers are printed
  with the stated precision. Two theorems show where it fails: a change from a fixed price to prices per token is lost, and a
  price can come back with drift.
\<close>

section \<open>Reading and printing the maps\<close>

definition wf_maps :: "PriceMaps \<Rightarrow> bool" where
  "wf_maps m \<longleftrightarrow> (\<forall>f. wf_json (JObj (pm_values m f))) \<and> wf_json (JObj (pm_modes m)) \<and> wf_json (JObj (pm_exprs m))"

lemma entries_printed:
  assumes "wf_json (JObj ps)"
  shows "is_record (stringify_indented (JObj ps))" and "entries (stringify_indented (JObj ps)) = ps"
  using trimmed_indented [of ps] indented_roundtrip [OF assms]
  by (simp_all add: is_record_def entries_def safeJsonParse_def trim_trimmed record_of_def)

lemma parse_printed: "wf_maps m \<Longrightarrow> parseMaps (printMaps m) = Inr m"
  by (simp add: wf_maps_def parseMaps_def all_records_def list_all_iff printMaps_def entries_printed del: wf_json.simps)

lemma wf_atoms: "decimal r \<Longrightarrow> wf_json (JNum r)" "wf_json (JStr s) = (s = s)"
  by simp_all

lemma wf_obj_set: "wf_json (JObj ps) \<Longrightarrow> wf_json v \<Longrightarrow> wf_json (JObj (obj_set k v ps))"
  by (auto simp: wf_object canonical_obj_set map_of_obj_set simp del: wf_json.simps)

lemma wf_al_delete: "wf_json (JObj ps) \<Longrightarrow> wf_json (JObj (al_delete k ps))"
  by (auto simp: wf_object canonical_al_delete map_of_al_delete simp del: wf_json.simps split: if_splits)

section \<open>What is stored for a model\<close>

type_synonym stored = "(PriceField \<Rightarrow> json option) \<times> json option \<times> json option"

definition stored_at :: "PriceMaps \<Rightarrow> jsstr \<Rightarrow> stored" where
  "stored_at m n = (\<lambda>f. map_of (pm_values m f) n, map_of (pm_modes m) n, map_of (pm_exprs m) n)"

definition parsed_value :: "jsstr option \<Rightarrow> rat option" where
  "parsed_value v = (if \<not> hasValue v then None else case parse_float (the v) of Num r \<Rightarrow> Some r | NaN \<Rightarrow> None)"

text \<open>The fields that are stored: all of them beside an expression, only the price when there is one, only the ratios otherwise.\<close>

definition kept :: "ModelRatioData \<Rightarrow> PriceField \<Rightarrow> bool" where
  "kept data f = (if rd_billingMode data = Some TieredExpr then True
     else if hasValue (rd_values data PfPrice) then f = PfPrice else f \<noteq> PfPrice)"

definition combined_expr :: "ModelRatioData \<Rightarrow> jsstr" where
  "combined_expr data = (if rd_billingMode data = Some TieredExpr
     then combineBillingExpr (str_or (rd_billingExpr data) []) (str_or (rd_requestRuleExpr data) []) else [])"

definition persisted :: "ModelRatioData \<Rightarrow> stored" where
  "persisted data =
     (\<lambda>f. if kept data f then map_option JNum (parsed_value (rd_values data f)) else None,
      if combined_expr data \<noteq> [] then Some (JStr (js ''tiered_expr'')) else None,
      if combined_expr data \<noteq> [] then Some (JStr (combined_expr data)) else None)"

definition storable :: "ModelRatioData \<Rightarrow> bool" where
  "storable data \<longleftrightarrow> (\<forall>f. case parsed_value (rd_values data f) of Some r \<Rightarrow> decimal r | None \<Rightarrow> True)"

lemma setIfPresent_parsed:
  "setIfPresent n v ps = (case parsed_value v of Some r \<Rightarrow> obj_set n (JNum r) ps | None \<Rightarrow> ps)"
  by (auto simp: setIfPresent_def parsed_value_def hasValue_def split: jsnum.splits)

lemma stored_delete: "stored_at (deleteModel n m) k = (if k = n then (\<lambda>f. None, None, None) else stored_at m k)"
  by (simp add: stored_at_def deleteModel_def map_of_al_delete)

lemma map_of_set: "map_of (setIfPresent n v (al_delete n ps)) k
    = (if k = n then map_option JNum (parsed_value v) else map_of ps k)"
  by (simp add: setIfPresent_parsed map_of_obj_set map_of_al_delete split: option.split)

lemma stored_persist: "stored_at (persistModel data n m) k = (if k = n then persisted data else stored_at m k)"
  by (auto simp: stored_at_def persisted_def persistModel_def Let_def deleteModel_def kept_def combined_expr_def map_of_set map_of_obj_set
      map_of_al_delete fun_eq_iff)

lemma stored_fold:
  "stored_at (fold (persistModel data) ns m) k = (if k \<in> set ns then persisted data else stored_at m k)"
  by (induction ns arbitrary: m) (auto simp: stored_persist)

lemma wf_delete: "wf_maps m \<Longrightarrow> wf_maps (deleteModel n m)"
  by (simp add: wf_maps_def deleteModel_def wf_al_delete del: wf_json.simps)

lemma wf_set: "wf_json (JObj ps) \<Longrightarrow> (case parsed_value v of Some r \<Rightarrow> decimal r | None \<Rightarrow> True)
    \<Longrightarrow> wf_json (JObj (setIfPresent n v ps))"
  by (simp add: setIfPresent_parsed wf_obj_set wf_atoms del: wf_json.simps split: option.splits)

lemma wf_persist: "wf_maps m \<Longrightarrow> storable data \<Longrightarrow> wf_maps (persistModel data n m)"
  using wf_delete [of m n]
  by (auto simp: wf_maps_def persistModel_def Let_def storable_def wf_set wf_obj_set wf_atoms simp del: wf_json.simps)

lemma wf_fold: "wf_maps m \<Longrightarrow> storable data \<Longrightarrow> wf_maps (fold (persistModel data) ns m)"
  by (induction ns arbitrary: m) (auto simp: wf_persist)
section \<open>Snapshots\<close>

text \<open>What the table shows for a model: nothing, when no map has it.\<close>

definition snapshot_in :: "PriceMaps \<Rightarrow> jsstr \<Rightarrow> js_error + ModelPricingSnapshot option" where
  "snapshot_in m n = (if n \<in> set (modelNames m) then map_sum id Some (buildSnapshot m n) else Inr None)"

definition snapshot_of :: "PriceTexts \<Rightarrow> jsstr \<Rightarrow> js_error + ModelPricingSnapshot option" where
  "snapshot_of ts n = (case parseMaps ts of Inl e \<Rightarrow> Inl e | Inr m \<Rightarrow> snapshot_in m n)"

lemma set_all_fields: "set all_fields = UNIV"
proof -
  have "f \<in> set all_fields" for f by (cases f) (simp_all add: all_fields_def)
  then show ?thesis by blast
qed

lemma named_iff: "n \<in> set (modelNames m) \<longleftrightarrow> stored_at m n \<noteq> (\<lambda>f. None, None, None)"
proof -
  have "stored_at m n = (\<lambda>f. None, None, None)
      \<longleftrightarrow> (\<forall>f. n \<notin> fst ` set (pm_values m f)) \<and> n \<notin> fst ` set (pm_modes m) \<and> n \<notin> fst ` set (pm_exprs m)"
    by (simp add: stored_at_def fun_eq_iff map_of_eq_None_iff)
  moreover have "n \<in> set (modelNames m)
      \<longleftrightarrow> (\<exists>f. n \<in> fst ` set (pm_values m f)) \<or> n \<in> fst ` set (pm_modes m) \<or> n \<in> fst ` set (pm_exprs m)"
    by (simp add: modelNames_def set_all_fields)
  ultimately show ?thesis by blast
qed

lemma snapshot_cong: "stored_at m n = stored_at m' n \<Longrightarrow> snapshot_in m n = snapshot_in m' n"
proof -
  assume eq: "stored_at m n = stored_at m' n"
  then have "buildSnapshot m n = buildSnapshot m' n"
    by (simp add: buildSnapshot_def Let_def shown_entry_def stored_at_def fun_eq_iff comp_def)
  with eq show ?thesis by (simp add: snapshot_in_def named_iff)
qed

text \<open>The snapshot of a model whose prices were just saved.\<close>

definition shown_value :: "ModelRatioData \<Rightarrow> PriceField \<Rightarrow> jsstr" where
  "shown_value data f =
     (if kept data f then (case parsed_value (rd_values data f) of Some r \<Rightarrow> num_str r | None \<Rightarrow> []) else [])"

definition persisted_snapshot :: "ModelRatioData \<Rightarrow> jsstr \<Rightarrow> js_error + ModelPricingSnapshot option" where
  "persisted_snapshot data n =
     (if combined_expr data \<noteq> []
      then map_sum id (\<lambda>r. Some \<lparr>sn_name = n, sn_values = Some \<circ> shown_value data, sn_billingMode = Some (js ''tiered_expr''),
             sn_billingExpr = Some (billingExpr r), sn_requestRuleExpr = Some (requestRuleExpr r), sn_hasConflict = False\<rparr>)
             (splitBillingExprAndRequestRules (combined_expr data))
      else if list_all (\<lambda>f. shown_value data f = []) all_fields then Inr None
      else Inr (Some \<lparr>sn_name = n, sn_values = Some \<circ> shown_value data,
             sn_billingMode = Some (if shown_value data PfPrice \<noteq> [] then js ''per-request'' else js ''per-token''),
             sn_billingExpr = None, sn_requestRuleExpr = None,
             sn_hasConflict = (shown_value data PfPrice \<noteq> [] \<and> list_ex (\<lambda>f. shown_value data f \<noteq> []) ratio_fields)\<rparr>))"

lemma num_str_nonempty: "num_str r \<noteq> []"
  using num_str_hd [of r] by auto

lemma snapshot_persisted:
  assumes "stored_at m n = persisted data"
  shows "snapshot_in m n = persisted_snapshot data n"
proof -
  have shown: "shown_entry (pm_values m f) n = shown_value data f" for f
    using assms by (auto simp: stored_at_def persisted_def shown_entry_def shown_value_def fun_eq_iff split: option.splits)
  have m: "map_of (pm_modes m) n = (if combined_expr data \<noteq> [] then Some (JStr (js ''tiered_expr'')) else None)"
    "map_of (pm_exprs m) n = (if combined_expr data \<noteq> [] then Some (JStr (combined_expr data)) else None)"
    using assms by (simp_all add: stored_at_def persisted_def)
  have "list_all (\<lambda>f. shown_value data f = []) all_fields
      \<longleftrightarrow> (\<forall>f. (if kept data f then map_option JNum (parsed_value (rd_values data f)) else None) = None)"
    unfolding list_all_iff using set_all_fields
    by (auto simp: shown_value_def num_str_nonempty split: option.splits if_splits)
  then have named: "n \<in> set (modelNames m) \<longleftrightarrow> combined_expr data \<noteq> [] \<or> \<not> list_all (\<lambda>f. shown_value data f = []) all_fields"
    by (auto simp: named_iff assms persisted_def fun_eq_iff)
  show ?thesis
    by (auto simp: snapshot_in_def named buildSnapshot_def Let_def m split_entry_def persisted_snapshot_def shown comp_def
        split: sum.splits)
qed

lemma snapshot_printed: "wf_maps m \<Longrightarrow> snapshot_of (printMaps m) n = snapshot_in m n"
  by (simp add: snapshot_of_def parse_printed)


text \<open>A deleted model is gone, and the others stay.\<close>

lemma deleted_price_gone:
  assumes "parseMaps ts = Inr m" "wf_maps m"
  shows "\<exists>ts'. deletePricing name ts = Inr ts' \<and> (\<forall>n. snapshot_of ts' n = (if n = name then Inr None else snapshot_of ts n))"
proof -
  let ?m = "deleteModel name m"
  have "snapshot_in ?m name = Inr None" by (simp add: snapshot_in_def named_iff stored_delete)
  moreover have "snapshot_in ?m n = snapshot_of ts n" if "n \<noteq> name" for n
    using that snapshot_cong [of ?m n m] by (simp add: stored_delete snapshot_of_def assms(1))
  ultimately show ?thesis using snapshot_printed [OF wf_delete [OF assms(2)]] by (simp add: deletePricing_def assms(1))
qed

section \<open>The panel\<close>

datatype PanelAction = SetPrompt jsstr | SetLane LaneKey jsstr | ToggleLane LaneKey bool | SetMode PricingMode | SetName jsstr
  | SetPrice jsstr | SetExpr jsstr | SetRules jsstr

primrec panel_do :: "PanelAction \<Rightarrow> PricingPanel \<Rightarrow> PricingPanel" where
  "panel_do (SetPrompt v) p = handlePromptPriceChange v p"
| "panel_do (SetLane lane v) p = handleLanePriceChange lane v p"
| "panel_do (ToggleLane lane b) p = handleLaneToggle lane b p"
| "panel_do (SetMode m) p = handleModeChange m p"
| "panel_do (SetName v) p = handleNameInput v p"
| "panel_do (SetPrice v) p = handlePriceInput v p"
| "panel_do (SetExpr v) p = p\<lparr>pp_billingExpr := v\<rparr>"
| "panel_do (SetRules v) p = p\<lparr>pp_requestRuleExpr := v\<rparr>"

inductive panel_step :: "PricingPanel \<Rightarrow> PricingPanel \<Rightarrow> bool" where
  action: "panel_step p (panel_do a p)"

inductive_cases panel_stepE: "panel_step p p'"

text \<open>Every ratio of the form is the one that the shown prices give, and is empty where its lane is switched off.\<close>

definition base_ratio :: "jsstr \<Rightarrow> jsstr" where
  "base_ratio prompt = (case toNumberOrNull (Some prompt) of Some n \<Rightarrow> formatPricingNumber (n / 2) | None \<Rightarrow> [])"

definition lane_ratio :: "PricingPanel \<Rightarrow> LaneKey \<Rightarrow> jsstr" where
  "lane_ratio p lane = (if pp_laneEnabled p lane
     then deriveLaneRatio lane (pp_lanePrices p lane) (pp_promptPrice p) (pp_lanePrices p) else [])"

definition ratios_follow :: "PricingPanel \<Rightarrow> bool" where
  "ratios_follow p \<longleftrightarrow> fv_values (pp_form p) PfRatio = base_ratio (pp_promptPrice p)
     \<and> (\<forall>lane. fv_values (pp_form p) (ratioFieldByLane lane) = lane_ratio p lane)"

lemma lane_field_inject [simp]: "ratioFieldByLane a = ratioFieldByLane b \<longleftrightarrow> a = b"
  by (cases a; cases b) simp_all

lemma lane_field_other [simp]: "ratioFieldByLane a \<noteq> PfRatio" "ratioFieldByLane a \<noteq> PfPrice"
    "PfRatio \<noteq> ratioFieldByLane a" "PfPrice \<noteq> ratioFieldByLane a"
  by (cases a; simp)+

lemma audio_field: "PfAudioCompletion = ratioFieldByLane LaneAudioOutput"
  by simp

lemma setFormValue_simps [simp]:
  "fv_values (pp_form (setFormValue f v p)) = (fv_values (pp_form p))(f := v)" "fv_name (pp_form (setFormValue f v p)) = fv_name (pp_form p)"
  "pp_mode (setFormValue f v p) = pp_mode p" "pp_promptPrice (setFormValue f v p) = pp_promptPrice p"
  "pp_lanePrices (setFormValue f v p) = pp_lanePrices p" "pp_laneEnabled (setFormValue f v p) = pp_laneEnabled p"
  "pp_billingExpr (setFormValue f v p) = pp_billingExpr p" "pp_requestRuleExpr (setFormValue f v p) = pp_requestRuleExpr p"
  by (simp_all add: setFormValue_def)

lemma fold_setFormValue:
  "fv_values (pp_form (fold (\<lambda>k. setFormValue (ratioFieldByLane k) (g k)) ks p)) (ratioFieldByLane lane)
     = (if lane \<in> set ks then g lane else fv_values (pp_form p) (ratioFieldByLane lane))"
  "f \<notin> range ratioFieldByLane \<Longrightarrow>
     fv_values (pp_form (fold (\<lambda>k. setFormValue (ratioFieldByLane k) (g k)) ks p)) f = fv_values (pp_form p) f"
  "pp_promptPrice (fold (\<lambda>k. setFormValue (ratioFieldByLane k) (g k)) ks p) = pp_promptPrice p"
  "pp_lanePrices (fold (\<lambda>k. setFormValue (ratioFieldByLane k) (g k)) ks p) = pp_lanePrices p"
  "pp_laneEnabled (fold (\<lambda>k. setFormValue (ratioFieldByLane k) (g k)) ks p) = pp_laneEnabled p"
  "pp_mode (fold (\<lambda>k. setFormValue (ratioFieldByLane k) (g k)) ks p) = pp_mode p"
  "fv_name (pp_form (fold (\<lambda>k. setFormValue (ratioFieldByLane k) (g k)) ks p)) = fv_name (pp_form p)"
  by (induction ks arbitrary: p) (auto simp del: fun_upd_apply simp add: fun_upd_apply)

lemma set_lane_keys: "lane \<in> set lane_keys"
  by (cases lane) (simp_all add: lane_keys_def laneConfigs_def laneConfig_def)

lemma not_lane_fields: "PfRatio \<notin> range ratioFieldByLane" "PfPrice \<notin> range ratioFieldByLane"
  by (auto simp: image_iff)

lemma sync_follows: "ratios_follow (syncLaneRatios v (pp_lanePrices p) (pp_laneEnabled p) (p\<lparr>pp_promptPrice := v\<rparr>))"
  by (simp add: ratios_follow_def lane_ratio_def syncLaneRatios_def fold_setFormValue not_lane_fields set_lane_keys base_ratio_def)

lemma prompt_follows: "re_test numericDraftRegex v \<Longrightarrow> ratios_follow (handlePromptPriceChange v p)"
  by (simp add: handlePromptPriceChange_def sync_follows)

lemma derive_other_lane:
  "lane \<noteq> lane' \<Longrightarrow> \<not> (lane = LaneAudioInput \<and> lane' = LaneAudioOutput) \<Longrightarrow>
     deriveLaneRatio lane' v prompt (prices(lane := w)) = deriveLaneRatio lane' v prompt prices"
  by (cases lane; cases lane') (simp_all add: deriveLaneRatio_def cong: option.case_cong)

lemma lane_follows:
  assumes "ratios_follow p"
  shows "ratios_follow (handleLanePriceChange lane v p)"
proof (cases "re_test numericDraftRegex v")
  case True
  have "fv_values (pp_form (handleLanePriceChange lane v p)) (ratioFieldByLane l) = lane_ratio (handleLanePriceChange lane v p) l" for l
    using assms True by (cases "l = lane"; cases "lane = LaneAudioInput"; cases "l = LaneAudioOutput")
      (auto simp: ratios_follow_def lane_ratio_def handleLanePriceChange_def Let_def derive_other_lane audio_field
        simp del: ratioFieldByLane.simps)
  then show ?thesis using assms True by (auto simp: ratios_follow_def handleLanePriceChange_def Let_def)
qed (simp add: assms handleLanePriceChange_def)

lemma toggle_follows:
  assumes "ratios_follow p"
  shows "ratios_follow (handleLaneToggle lane b p)"
proof -
  have "fv_values (pp_form (handleLaneToggle lane b p)) (ratioFieldByLane l) = lane_ratio (handleLaneToggle lane b p) l" for l
    using assms by (cases b; cases "l = lane"; cases "lane = LaneAudioInput"; cases "l = LaneAudioOutput")
      (auto simp: ratios_follow_def lane_ratio_def handleLaneToggle_def Let_def derive_other_lane audio_field
        simp del: ratioFieldByLane.simps)
  then show ?thesis using assms by (auto simp: ratios_follow_def handleLaneToggle_def Let_def)
qed

lemma panel_do_follows: "ratios_follow p \<Longrightarrow> ratios_follow (panel_do a p)"
proof (cases a)
  case (SetPrompt v)
  then show "ratios_follow p \<Longrightarrow> ratios_follow (panel_do a p)"
    using prompt_follows by (cases "re_test numericDraftRegex v") (auto simp: handlePromptPriceChange_def)
next
  case (SetLane lane v)
  then show "ratios_follow p \<Longrightarrow> ratios_follow (panel_do a p)" by (simp add: lane_follows)
next
  case (ToggleLane lane b)
  then show "ratios_follow p \<Longrightarrow> ratios_follow (panel_do a p)" by (simp add: toggle_follows)
qed (auto simp: ratios_follow_def lane_ratio_def handleModeChange_def Let_def handleNameInput_def handlePriceInput_def)

interpretation panel_sys: invariant_system panel_step ratios_follow
  by unfold_locales (auto elim: panel_stepE simp: panel_do_follows)

lemma new_panel_follows: "ratios_follow (openPanel None)"
  by (simp add: ratios_follow_def lane_ratio_def openPanel_def createInitialLaneState_def Let_def EMPTY_LANE_ENABLED_def base_ratio_def
      toNumberOrNull_def hasValue_def)

text \<open>
  C10. The ratios that will be saved follow the prices on the screen. In the panel of a new model, and in that of any model once its
  input price has been typed, whatever prices, switches and modes are changed afterwards, the base ratio is half the input
  price, every lane that is switched on has the ratio of its price to the price it depends on, and every other lane has none.
\<close>

theorem ratios_follow_prices:
  assumes "start = openPanel None \<or> (re_test numericDraftRegex v \<and> start = handlePromptPriceChange v q)"
    and "panel_step\<^sup>*\<^sup>* start p"
  shows "ratios_follow p"
  using panel_sys.inv_steps [OF assms(2)] assms(1) new_panel_follows prompt_follows by blast

text \<open>The price of the form changes in its own input only.\<close>

lemma fixed_price_kept:
  assumes "\<forall>v. a \<noteq> SetPrice v"
  shows "fv_values (pp_form (panel_do a p)) PfPrice = fv_values (pp_form p) PfPrice"
  using assms
  by (cases a) (auto simp: handlePromptPriceChange_def syncLaneRatios_def fold_setFormValue not_lane_fields handleLanePriceChange_def Let_def
      handleLaneToggle_def handleModeChange_def handleNameInput_def)

lemma fixed_price_kept_all:
  "\<forall>a \<in> set as. \<forall>v. a \<noteq> SetPrice v \<Longrightarrow> fv_values (pp_form (fold panel_do as p)) PfPrice = fv_values (pp_form p) PfPrice"
  by (induction as arbitrary: p) (simp_all add: fixed_price_kept)

lemma persisted_fixed_price:
  assumes "rd_billingMode data \<noteq> Some TieredExpr" "rd_values data PfPrice = Some price" "price \<noteq> []" "parse_float price = Num r"
  shows "persisted_snapshot data n
    = Inr (Some \<lparr>sn_name = n, sn_values = Some \<circ> (\<lambda>f. if f = PfPrice then num_str r else []), sn_billingMode = Some (js ''per-request''),
        sn_billingExpr = None, sn_requestRuleExpr = None, sn_hasConflict = False\<rparr>)"
proof -
  have "parsed_value (Some price) = Some r" "hasValue (Some price)" using assms(3,4) by (simp_all add: parsed_value_def hasValue_def)
  then have v: "shown_value data = (\<lambda>f. if f = PfPrice then num_str r else [])"
    using assms(1,2) by (auto simp: shown_value_def kept_def fun_eq_iff)
  show ?thesis using assms(1) unfolding persisted_snapshot_def v
    by (simp add: combined_expr_def num_str_nonempty all_fields_def ratio_fields_def)
qed


section \<open>Changed rows\<close>

text \<open>The fields that make up the prices of a model, with their defaults.\<close>

definition price_fields :: "ModelPricingSnapshot \<Rightarrow> jsstr list" where
  "price_fields s = map (\<lambda>f. str_or (sn_values s f) []) all_fields
     @ [str_or (sn_billingMode s) (js ''per-token''), str_or (sn_billingExpr s) [], str_or (sn_requestRuleExpr s) []]"

definition signature_keys :: "jsstr list" where
  "signature_keys = map js [''price'', ''ratio'', ''cacheRatio'', ''createCacheRatio'', ''completionRatio'', ''imageRatio'', ''audioRatio'',
     ''audioCompletionRatio'', ''billingMode'', ''billingExpr'', ''requestRuleExpr'']"

lemma signature_alt: "getSnapshotSignature (Some s) = stringify (JObj (zip signature_keys (map JStr (price_fields s))))"
  by (simp add: getSnapshotSignature_def Let_def signature_keys_def price_fields_def all_fields_def)

lemma signature_keys_ok: "distinct signature_keys \<and> sorted_wrt key_before signature_keys"
  by code_simp

lemma signature_wf: "wf_json (JObj (zip signature_keys (map JStr (price_fields s))))"
proof -
  let ?ps = "zip signature_keys (map JStr (price_fields s))"
  have "map fst ?ps = signature_keys" by (simp add: signature_keys_def price_fields_def all_fields_def)
  then have "canonical ?ps" using signature_keys_ok by (simp add: canonical_def)
  moreover have "wf_json v" if "map_of ?ps k = Some v" for k v
    using set_zip_rightD [OF map_of_SomeD [OF that]] by auto
  ultimately show ?thesis by (simp add: wf_object del: wf_json.simps)
qed

lemma signature_inject:
  "getSnapshotSignature (Some a) = getSnapshotSignature (Some b) \<longleftrightarrow> price_fields a = price_fields b"
proof -
  let ?z = "\<lambda>s. zip signature_keys (map JStr (price_fields s))"
  have snd: "map snd (?z s) = map JStr (price_fields s)" for s
    by (simp add: signature_keys_def price_fields_def all_fields_def)
  have "price_fields a = price_fields b" if "stringify (JObj (?z a)) = stringify (JObj (?z b))"
  proof -
    have "?z a = ?z b" using json_text.encode_inj [OF signature_wf signature_wf that] by simp
    then have "map JStr (price_fields a) = map JStr (price_fields b)" using snd by metis
    then show ?thesis by (simp add: inj_map_eq_map inj_def)
  qed
  then show ?thesis by (auto simp: signature_alt simp del: stringify.simps)
qed

lemma signature_not_empty: "getSnapshotSignature (Some a) \<noteq> getSnapshotSignature None"
  unfolding signature_alt using stringify_nonempty by (simp add: getSnapshotSignature_def del: stringify.simps)

text \<open>
  C25. A row is marked as changed exactly when the model is stored on one side only or its prices, its mode or its
  expressions differ between what is saved and the draft.
\<close>

theorem changed_rows_exact:
  "mr_isDraftChanged (modelRow savedRows draftRows name)
     \<longleftrightarrow> map_option price_fields (by_name savedRows name) \<noteq> map_option price_fields (by_name draftRows name)"
  using signature_inject signature_not_empty signature_not_empty [symmetric]
  by (cases "by_name savedRows name"; cases "by_name draftRows name") (auto simp: modelRow_def Let_def)

section \<open>Numbers\<close>

lemma float_digits:
  assumes "is_number as" "list_all is_digit fs"
  shows "unsigned_float (as @ 46 # fs) = Num (of_nat (digits_val as) + frac_val fs)"
    and "unsigned_float as = Num (of_nat (digits_val as))"
proof -
  have d: "list_all is_digit as" "as \<noteq> []" using assms by (simp_all add: is_number_def)
  have e: "parse_exp [] = Some (1, [])" by (simp add: parse_exp_def)
  have f: "takeWhile is_digit fs = fs" "dropWhile is_digit fs = []" using takeWhile_digits [OF assms(2), of "[]"] by auto
  have a: "takeWhile is_digit as = as" "dropWhile is_digit as = []" using takeWhile_digits [OF d(1), of "[]"] by auto
  have t: "takeWhile is_digit (as @ 46 # fs) = as \<and> dropWhile is_digit (as @ 46 # fs) = 46 # fs"
    using d by (intro takeWhile_digits) (auto simp: is_digit_def)
  show "unsigned_float (as @ 46 # fs) = Num (of_nat (digits_val as) + frac_val fs)"
    using t d f e by (simp del: takeWhile_eq_all_conv dropWhile_eq_Nil_conv add: unsigned_float_def Let_def)
  show "unsigned_float as = Num (of_nat (digits_val as))"
    using a d e by (simp del: takeWhile_eq_all_conv dropWhile_eq_Nil_conv add: unsigned_float_def Let_def frac_val_def)
qed

lemma float_signs:
  assumes "t \<noteq> []" "is_digit (hd t)"
  shows "parse_float t = unsigned_float t"
    and "parse_float (45 # t) = (case unsigned_float t of Num r \<Rightarrow> Num (- r) | NaN \<Rightarrow> NaN)"
proof -
  obtain c cs where "t = c # cs" using assms(1) by (cases t) auto
  then show "parse_float t = unsigned_float t"
    and "parse_float (45 # t) = (case unsigned_float t of Num r \<Rightarrow> Num (- r) | NaN \<Rightarrow> NaN)"
    using assms(2) by (auto simp: parse_float_def trim_start_def is_ws_def is_digit_def)
qed

definition signed_round :: "rat \<Rightarrow> nat \<Rightarrow> rat" where
  "signed_round x d = (if x < 0 then - (of_int (math_round (- x * 10 ^ d)) / 10 ^ d) else of_int (math_round (x * 10 ^ d)) / 10 ^ d)"

lemma parse_fixed: "parse_float (to_fixed x d) = Num (signed_round x d)"
proof -
  have v: "parse_float (fixed_digits n d) = Num (of_nat n / 10 ^ d) \<and> parse_float (45 # fixed_digits n d) = Num (- (of_nat n / 10 ^ d))" for n
  proof -
    obtain as fs where p: "fixed_digits n d = as @ (if d = 0 then [] else 46 # fs)" "is_number as" "list_all is_digit fs"
      "length fs = d" "of_nat (digits_val as) + frac_val fs = of_nat n / (10 :: rat) ^ d"
      using fixed_digits_parts .
    have "unsigned_float (fixed_digits n d) = Num (of_nat n / 10 ^ d)"
      using float_digits [OF p(2,3)] p by (cases "d = 0") (simp_all add: frac_val_def)
    moreover have "fixed_digits n d \<noteq> []" "is_digit (hd (fixed_digits n d))" using p(1,2) by (cases as; simp add: is_number_def)+
    ultimately show ?thesis using float_signs by simp
  qed
  have "0 \<le> math_round (- x * 10 ^ d)" if "x < 0"
    using mult_nonpos_nonneg [of x "10 ^ d"] that by (simp add: math_round_def)
  moreover have "0 \<le> math_round (x * 10 ^ d)" if "\<not> x < 0" using that by (simp add: math_round_def)
  ultimately show ?thesis using v by (simp add: to_fixed_def signed_round_def)
qed

lemma format_alt: "formatPricingNumber x = num_str (signed_round (snapFloatDrift x) 12)"
  by (simp add: formatPricingNumber_def parse_fixed DISPLAY_DECIMALS_def num_or0_def)

lemma snap_near: "\<bar>x - snapFloatDrift x\<bar> \<le> snap_tolerance x"
  by (auto simp: snapFloatDrift_def snap_tolerance_def SNAP_EPSILON_def find_Some_iff split: option.split)

lemma round_near: "\<bar>x - of_int (math_round (x * 10 ^ d)) / 10 ^ d\<bar> \<le> 1 / (2 * 10 ^ d)"
proof -
  have "\<bar>of_int (math_round (x * 10 ^ d)) - x * 10 ^ d\<bar> / 10 ^ d \<le> 1 / 2 / 10 ^ d"
    by (rule divide_right_mono [OF math_round_near]) simp
  moreover have "x - of_int (math_round (x * 10 ^ d)) / 10 ^ d = - ((of_int (math_round (x * 10 ^ d)) - x * 10 ^ d) / 10 ^ d)"
    by (simp add: diff_divide_distrib)
  ultimately show ?thesis by (simp add: abs_divide)
qed

lemma signed_round_near: "\<bar>x - signed_round x d\<bar> \<le> 1 / (2 * 10 ^ d)"
  using round_near [of x d] round_near [of "- x" d] by (auto simp: signed_round_def)

lemma round_exact: "x * 10 ^ d \<in> \<int> \<Longrightarrow> of_int (math_round (x * 10 ^ d)) / 10 ^ d = x"
  by (auto elim!: Ints_cases simp: field_simps)

lemma signed_round_exact: "x * 10 ^ d \<in> \<int> \<Longrightarrow> signed_round x d = x"
  using round_exact [of x d] round_exact [of "- x" d] by (auto simp: signed_round_def)

lemma snap_exact:
  assumes "x * 10 ^ k \<in> \<int>" "k \<le> 11" "\<bar>x\<bar> * 8 / 2 ^ 52 < 1 / 10 ^ k"
  shows "snapFloatDrift x = x"
proof -
  have "roundToDecimals x d = x" if "\<bar>x - roundToDecimals x d\<bar> \<le> snap_tolerance x" "d \<le> 8" for d
  proof -
    define e where "e = max k d"
    have k: "x * 10 ^ e \<in> \<int>"
    proof -
      have "x * 10 ^ e = x * 10 ^ k * of_int (10 ^ (e - k))" by (simp add: e_def flip: power_add)
      then show ?thesis using assms(1) by (metis Ints_mult Ints_of_int)
    qed
    moreover have d: "roundToDecimals x d * 10 ^ e \<in> \<int>"
    proof -
      have "(10 :: rat) ^ e = 10 ^ d * 10 ^ (e - d)" by (simp add: e_def flip: power_add)
      then have "roundToDecimals x d * 10 ^ e = of_int (math_round (x * 10 ^ d) * 10 ^ (e - d))" by (simp add: roundToDecimals_def)
      then show ?thesis by simp
    qed
    ultimately obtain z where z: "(x - roundToDecimals x d) * 10 ^ e = of_int z"
      by (metis Ints_cases Ints_diff left_diff_distrib)
    show ?thesis
    proof (cases "k \<le> d")
      case True
      then have "x * 10 ^ d \<in> \<int>" using k by (simp add: e_def max_absorb2)
      then show ?thesis by (simp add: roundToDecimals_def round_exact)
    next
      case False
      then have e: "e = k" by (simp add: e_def)
      have "(1 :: rat) / 10 ^ 12 < 1 / 10 ^ k" using assms(2) power_strict_increasing [of k 12 "10 :: rat"] by (simp add: frac_less2)
      then have "snap_tolerance x < 1 / 10 ^ k" using assms(3) by (simp add: snap_tolerance_def SNAP_EPSILON_def)
      then have "snap_tolerance x * 10 ^ k < 1" by (simp add: field_simps)
      moreover have "\<bar>x - roundToDecimals x d\<bar> * 10 ^ k \<le> snap_tolerance x * 10 ^ k"
        using that(1) by (rule mult_right_mono) simp
      moreover have "\<bar>of_int z :: rat\<bar> = \<bar>x - roundToDecimals x d\<bar> * 10 ^ k" using z by (simp add: e abs_mult flip: z)
      ultimately have "\<bar>of_int z :: rat\<bar> < 1" by linarith
      then have "z = 0" by linarith
      then show ?thesis using z by simp
    qed
  qed
  then show ?thesis by (auto simp: snapFloatDrift_def SNAP_DECIMALS_def find_Some_iff split: option.split)
qed

lemma decimal_fixed: "decimal (signed_round x 12)"
proof -
  have "signed_round x 12 * 10 ^ max_frac = of_int ((if x < 0 then - math_round (- x * 10 ^ 12) else math_round (x * 10 ^ 12)) * 10 ^ 10)"
    by (simp add: signed_round_def max_frac_def)
  then show ?thesis unfolding decimal_def by (simp del: of_int_mult)
qed

lemma number_num_str:
  assumes "decimal r"
  shows "toNumberOrNull (Some (num_str r)) = Some r"
proof -
  have "c \<in> {45, 46} \<or> is_digit c" if "c \<in> set (take 2 (num_str r))" for c
    using num_str_chars [OF in_set_takeD [OF that]] by auto
  then have "radix_of (take 2 (num_str r)) = None"
    by (fastforce simp: radix_of_def js_def is_digit_def)
  then have "text_number (num_str r) = Num r"
    using js_number_num_str [OF assms] trim_id [of "num_str r"] num_str_no_ws num_str_nonempty by (simp add: text_number_def Let_def)
  then show ?thesis by (simp add: toNumberOrNull_def hasValue_def num_str_nonempty)
qed


section \<open>Examples\<close>

text \<open>A store with a fixed price for one model and a ratio for another, and prices to be saved.\<close>

definition sample_texts :: PriceTexts where
  "sample_texts = \<lparr>pt_values = (\<lambda>f. if f = PfPrice then js ''{\"m\": 0.5}'' else if f = PfRatio then js ''{\"n\": 1.25}'' else []),
     pt_billingMode = [], pt_billingExpr = []\<rparr>"

definition sample_maps :: PriceMaps where
  "sample_maps = \<lparr>pm_values = (\<lambda>f. if f = PfPrice then [(js ''m'', JNum (1 / 2))] else if f = PfRatio then [(js ''n'', JNum (5 / 4))] else []),
     pm_modes = [], pm_exprs = []\<rparr>"

definition sample_data :: ModelRatioData where
  "sample_data = \<lparr>rd_name = js ''m'', rd_values = (\<lambda>f. if f = PfRatio then Some (js ''1.5'') else Some []), rd_billingMode = Some PerToken,
     rd_billingExpr = None, rd_requestRuleExpr = None\<rparr>"

definition priced_data :: ModelRatioData where
  "priced_data = \<lparr>rd_name = js ''m'', rd_values = (\<lambda>f. if f = PfPrice then Some (js ''0.5'') else Some []), rd_billingMode = Some PerRequest,
     rd_billingExpr = None, rd_requestRuleExpr = None\<rparr>"

lemma sample_entries:
  "is_record (js ''{\"m\": 0.5}'') \<and> entries (js ''{\"m\": 0.5}'') = [(js ''m'', JNum (1 / 2))]"
  "is_record (js ''{\"n\": 1.25}'') \<and> entries (js ''{\"n\": 1.25}'') = [(js ''n'', JNum (5 / 4))]"
  "is_record [] \<and> entries [] = []"
  by code_simp+

lemma sample_parsed: "parseMaps sample_texts = Inr sample_maps"
  using sample_entries by (simp add: parseMaps_def all_records_def list_all_iff sample_texts_def sample_maps_def fun_eq_iff)

lemma half_parsed: "parse_float (js ''0.5'') = Num (1 / 2)" "parse_float (js ''1.5'') = Num (3 / 2)"
  by code_simp+

lemma sample_decimals: "decimal (1 / 2)" "decimal (5 / 4)" "decimal (3 / 2)"
proof -
  have "(1 / 2 :: rat) * 10 ^ max_frac = of_int (5 * 10 ^ 21)" "(5 / 4 :: rat) * 10 ^ max_frac = of_int (125 * 10 ^ 20)"
    "(3 / 2 :: rat) * 10 ^ max_frac = of_int (15 * 10 ^ 21)" by (simp_all add: max_frac_def)
  then show "decimal (1 / 2)" "decimal (5 / 4)" "decimal (3 / 2)" unfolding decimal_def by (metis Ints_of_int)+
qed

lemma sample_wf: "wf_maps sample_maps"
  using sample_decimals by (auto simp: wf_maps_def sample_maps_def obj_of_def obj_set_def split: option.split)

lemma sample_storable: "storable sample_data"
  using sample_decimals(3) half_parsed(2) by (simp add: storable_def sample_data_def parsed_value_def hasValue_def)


theorem ratios_follow_prices_witness:
  "ratios_follow (handlePromptPriceChange (js ''3'') (openPanel None))
    \<and> fv_values (pp_form (handlePromptPriceChange (js ''3'') (openPanel None))) PfRatio = js ''1.5''"
proof -
  have "panel_step\<^sup>*\<^sup>* (openPanel None) (panel_do (SetPrompt (js ''3'')) (openPanel None))" by (rule r_into_rtranclp) (rule action)
  moreover have "fv_values (pp_form (handlePromptPriceChange (js ''3'') (openPanel None))) PfRatio = js ''1.5''" by code_simp
  ultimately show ?thesis using ratios_follow_prices [of "openPanel None" "[]" "openPanel None"] by simp
qed

text \<open>The actions of an administrator who wants prices per token: the mode, then an input price.\<close>

definition to_per_token :: "PanelAction list" where
  "to_per_token = [SetMode PerToken, SetPrompt (js ''3'')]"



text \<open>
  Drift that the tolerance does not hide: with an input price of 15, a completion price of 1 is stored as the ratio 0.066666666667, and
  the panel shows 1.000000000005 when the model is opened again.
\<close>

lemma floor_fraction: "\<lfloor>numeral a / numeral b :: rat\<rfloor> = numeral a div numeral b"
  by (metis floor_divide_of_int_eq of_int_numeral)

lemma frac_str_numeral: "frac_str (numeral k) f =
    (if f = 0 then [] else let d = nat \<lfloor>10 * f\<rfloor> in (48 + d) # frac_str (pred_numeral k) (10 * f - of_nat d))"
  by (simp add: numeral_eq_Suc)

lemma nat_str_small: "n < 10 \<Longrightarrow> nat_str n = [48 + n]"
  by (simp add: nat_str.simps)

lemma price_drift_shown:
  "deriveLaneRatio LaneCompletion (js ''1'') (js ''15'') EMPTY_LANE_PRICES = js ''0.066666666667''"
  "deriveLanePrice (Some (js ''0.066666666667'')) (js ''15'') = js ''1.000000000005''"
proof -
  have n: "toNumberOrNull (Some (js ''1'')) = Some 1" "toNumberOrNull (Some (js ''15'')) = Some 15" by code_simp+
  have u: "[0..<Suc 8] = [0, 1, 2, 3, 4, 5, 6, 7, 8]" by code_simp
  have t: "snap_tolerance (1 / 15) = 1 / 10 ^ 12" "snap_tolerance (200000000001 / 200000000000) = 1 / 10 ^ 12"
    by (simp_all add: snap_tolerance_def SNAP_EPSILON_def)
  have s: "snapFloatDrift (1 / 15) = 1 / 15" "snapFloatDrift (200000000001 / 200000000000) = 200000000001 / 200000000000"
    unfolding snapFloatDrift_def SNAP_DECIMALS_def u t by (simp_all add: roundToDecimals_def math_round_def floor_fraction)
  have p: "num_str (66666666667 / 1000000000000) = js ''0.066666666667''" "num_str (200000000001 / 200000000000) = js ''1.000000000005''"
    by (simp_all add: num_str_def pos_num_str_def max_frac_def frac_str_numeral nat_str_small js_def floor_fraction)
  have f: "formatPricingNumber (1 / 15) = js ''0.066666666667''" "formatPricingNumber (200000000001 / 200000000000) = js ''1.000000000005''"
    unfolding format_alt s using p by (simp_all add: signed_round_def math_round_def floor_fraction)
  show "deriveLaneRatio LaneCompletion (js ''1'') (js ''15'') EMPTY_LANE_PRICES = js ''0.066666666667''"
    using f(1) n by (simp add: deriveLaneRatio_def)
  have "(66666666667 / 1000000000000 :: rat) * 10 ^ max_frac = of_int (66666666667 * 10 ^ 10)" by (simp add: max_frac_def)
  then have "decimal (66666666667 / 1000000000000)" unfolding decimal_def by (metis Ints_of_int)
  from number_num_str [OF this] have "toNumberOrNull (Some (js ''0.066666666667'')) = Some (66666666667 / 1000000000000)" unfolding p .
  then show "deriveLanePrice (Some (js ''0.066666666667'')) (js ''15'') = js ''1.000000000005''"
    using f(2) n by (simp add: deriveLanePrice_def)
qed

section \<open>Saving\<close>

lemma no_own_updates: "option_updates v v = []"
proof -
  have "filter (\<lambda>(new, old). snd new \<noteq> snd old) (zip xs xs) = []" for xs :: "(jsstr \<times> option_value) list"
    by (induction xs) auto
  then show ?thesis by (simp add: option_updates_def)
qed

lemma sent_until_failure:
  "sendUpdates accepts us = (us, True) \<or> (\<exists>k < length us. \<not> accepts (us ! k) \<and> sendUpdates accepts us = (take (Suc k) us, False))"
proof (induction us)
  case (Cons u us)
  show ?case
  proof (cases "accepts u")
    case True
    with Cons consider "sendUpdates accepts us = (us, True)"
      | k where "k < length us" "\<not> accepts (us ! k)" "sendUpdates accepts us = (take (Suc k) us, False)" by blast
    then show ?thesis
    proof cases
      case (2 k)
      with True show ?thesis by (intro disjI2 exI [of _ "Suc k"]) simp
    qed (simp add: True)
  qed (auto intro!: exI [of _ 0])
qed simp

text \<open>After a successful save the same values are not sent again; after a failed one the values that count as saved are the old ones.\<close>

lemma saved_once:
  assumes "saveModelRatios accepts current v = (sent, now)"
  shows "now = normalizedValues v \<Longrightarrow> saveModelRatios accepts now v = ([], now)"
    and "\<forall>u \<in> set sent. accepts u \<Longrightarrow> sent \<noteq> [] \<Longrightarrow> now = normalizedValues v"
proof -
  show "now = normalizedValues v \<Longrightarrow> saveModelRatios accepts now v = ([], now)"
    by (simp add: saveModelRatios_def no_own_updates Let_def)
  let ?us = "option_updates current (normalizedValues v)"
  assume all: "\<forall>u \<in> set sent. accepts u" and ne: "sent \<noteq> []"
  then have us: "?us \<noteq> []" using assms by (auto simp: saveModelRatios_def Let_def)
  consider "sendUpdates accepts ?us = (?us, True)"
    | k where "k < length ?us" "\<not> accepts (?us ! k)" "sendUpdates accepts ?us = (take (Suc k) ?us, False)"
    using sent_until_failure [of accepts ?us] by blast
  then show "now = normalizedValues v"
  proof cases
    case 2
    then have "?us ! k \<in> set sent" using assms us by (auto simp: saveModelRatios_def Let_def take_Suc_conv_app_nth)
    with all 2 show ?thesis by blast
  qed (use assms us in \<open>auto simp: saveModelRatios_def Let_def\<close>)
qed


end
