(* ===== verification/Spec2Isabelle.thy ===== *)
theory Spec2Isabelle
  imports StatusCodeRules StatusCodeGuard ModelMapping AuthStore AdminPermissions SidebarConfig NavModules
    PgChat PgSessions BillingRules TierDisplay RatioRules FlowProps ChannelFormRules ChannelListRules CurrencyRules PriceListRules ParamDrafts
    ModelPricingRules
begin

text \<open>
  \<^bold>\<open>The program.\<close> The repository is an API gateway: a Go server that forwards requests for language
  models to upstream channels and bills them, and a console, a TypeScript single-page application
  under \<open>src/web/default/src\<close>, with which administrators configure channels and prices and users
  try models. This development is about the console: the functions and hooks that decide
  something. The views (\<open>.tsx\<close>) call them, the server only stores the texts they produce, and it acts on
  these texts, so what the console prints and reads back is what is charged and routed. File names
  below are relative to \<open>src/web/default/src\<close>.

  \<^bold>\<open>Library.\<close> \<open>JsPrelude\<close> models what the code uses of JavaScript: texts as lists of
  UTF-16 code units (\<open>jsstr\<close>) with \<open>trim\<close>, \<open>split\<close>, \<open>slice\<close>, \<open>indexOf\<close> and the rest, decimal numerals, insertion-ordered
  dictionaries (\<open>al_put\<close>, \<open>al_delete\<close>) and duplicate-free lists. \<open>JsJson\<close> is \<open>JSON.parse\<close> and
  \<open>JSON.stringify\<close> with the property order of objects, \<open>JsPretty\<close> the indented form; \<open>JsRegex\<close> the regular expressions, as a backtracking
  matcher over a syntax tree; \<open>JsSort\<close> the stable sort with a comparator; \<open>JsNumber\<close> the conversion \<open>Number(x)\<close>;
  \<open>JsObject\<close> objects in canonical property order.

  \<^bold>\<open>Conventions.\<close> A value that may be undefined or null is an option; what a call may throw is the left
  side of a sum (\<open>js_error\<close>) or \<open>None\<close> where a \<open>try\<close> turns it into one; a \<open>Map\<close> or an object used as a dictionary is an
  association list in property order; mutated objects are replaced. JSON numbers and prices are exact rationals: the code never
  depends on the rounding of doubles except where it is a parameter. Case conversion is that of ASCII.
  Property names that every object inherits (\<open>constructor\<close>) are outside the model. Every definition that
  stands for code is executable, and the witnesses evaluate them.

  \<^bold>\<open>Parameters.\<close> Code that is not in the repository is an argument: the clock, \<open>nanoid\<close>, the translation
  function \<open>t\<close>, the package \<open>zod\<close> (\<open>zparse\<close>, with the locale \<open>zod\<close>), the SSE object and the
  HTTP client (their events are the steps of \<open>chat_step\<close>), \<open>new URL\<close> (\<open>url\<close>),
  \<open>localeCompare\<close>, \<open>toFixed\<close>, the number format and the colour scheme of the chart library
  (\<open>FlowEnv\<close>), \<open>Intl.NumberFormat\<close> (\<open>CurrencyEnv\<close>) and the package \<open>dayjs\<close>. Writing to \<open>localStorage\<close> is taken to succeed.

  \<^bold>\<open>Components.\<close>
  \<^item> \<open>StatusCodeRules\<close> (\<open>lib/http-status-code-rules.ts\<close>): the rule language for status codes.
    Parsing accepts exactly the well-formed rules and denotes their set of codes; the normal form is
    canonical, sorted, merged and within 100 to 599.
  \<^item> \<open>StatusCodeGuard\<close> (\<open>features/channels/lib/status-code-risk-guard.ts\<close>) and \<open>ModelMapping\<close>
    (\<open>features/channels/lib/model-mapping-validation.ts\<close>): the checks before a channel is saved; no new risky redirect passes unseen, and a mapping is
    accepted just when all its targets are models.
  \<^item> \<open>AdvancedCustom\<close>, \<open>AdvancedRules\<close> (\<open>features/channels/lib/advanced-custom.ts\<close>): the routes of custom channels. Validation is exact and
    blames the first bad route, accepted routes are unambiguous, templates and defaults are accepted, and a saved configuration is read back.
  \<^item> \<open>ChannelForm\<close>, \<open>ChannelFormRules\<close> (\<open>features/channels/lib/channel-form.ts\<close>): what the channel dialog checks and saves. The
    settings text has exactly the documented properties and keeps foreign ones, reopening a channel shows what was saved, and a form without
    issues has the fields its type needs. \<open>ChannelList\<close>, \<open>ChannelListRules\<close> (\<open>channel-utils.ts\<close>): the rows of
    the channel table; tag rows are the sums of their channels, and duplicate keys are dropped.
  \<^item> \<open>ParamOverride\<close>, \<open>ParamEditor\<close> (\<open>features/channels/components/dialogs/param-override-editor-dialog.tsx\<close>): the editor of
    parameter overrides, its texts and its state with the step relation \<open>editor_step\<close>. \<open>ParamRules\<close>: what is saved is read back as the same
    operations. \<open>ParamInvariant\<close>: there is always an operation and a selected one, and identifiers are unique. \<open>ParamDrafts\<close>: custom errors
    and synchronised fields round trip, and rules for pruning cannot be edited.
  \<^item> \<open>AuthStore\<close> (\<open>stores/auth-store.ts\<close>), \<open>AdminPermissions\<close> (\<open>lib/admin-permissions.ts\<close>, \<open>lib/roles.ts\<close>), \<open>SidebarConfig\<close>
    (\<open>hooks/use-sidebar-config.ts\<close>) and \<open>NavModules\<close> (\<open>lib/nav-modules.ts\<close>): who is signed in and what is shown. The user's layer only narrows what the
    administrator allows; a setting of any shape gives complete access records.
  \<^item> The playground. \<open>PgMessage\<close>, \<open>PgThink\<close>, \<open>PgStreaming\<close>, \<open>PgPayload\<close>: messages, the split of a reply into
    reasoning and visible text (against a grammar of tags), the effect of stream chunks, and what is sent and
    received. \<open>PgChat\<close>: the hooks \<open>use-chat-handler\<close>, \<open>use-stream-request\<close>,
    \<open>use-playground-conversation\<close>, \<open>use-message-action-guard\<close> as one record with a step relation
    \<open>chat_step\<close> of user actions, timers, stream events and responses; in every reachable state a pending reply belongs to a running request
    or to buffered chunks that will complete it. \<open>PgSchema\<close>, \<open>PgStorage\<close>: the storage schemas and what is kept in the
    browser. \<open>PgSessions\<close>: the conversations and the page state (\<open>sess_step\<close>), whose active
    session always exists.
  \<^item> Billing. \<open>BillingExpr\<close>, \<open>BillingRules\<close> (\<open>features/pricing/lib/billing-expr.ts\<close>): request rules, printed and
    read back. \<open>TierExpr\<close>, \<open>TierRules\<close>, \<open>TierDisplay\<close> (also \<open>tier-expr.ts\<close>): tiered prices; the visual
    editor reads back what it prints, and the price display shows the same prices. \<open>RatioSync\<close>, \<open>RatioRules\<close>
    (\<open>features/system-settings/models/upstream-ratio-sync-helpers.ts\<close>): the choices made when prices
    are synchronised (\<open>sync_step\<close>) never mix a fixed price with ratios.
  \<^item> \<open>PriceList\<close>, \<open>PriceListRules\<close> (\<open>features/pricing/lib/filters.ts\<close>, \<open>model-helpers.ts\<close>, \<open>price.ts\<close>,
    \<open>dynamic-price.ts\<close>): the public list. The filters are independent tests followed by a stable sort, the group shown is a cheapest one, and a model
    whose expression was written by the two editors is listed with exactly the tiers and prices entered there.
  \<^item> \<open>ModelPricing\<close>, \<open>ModelPricingRules\<close> (\<open>features/system-settings/models\<close>: \<open>pricing-format.ts\<close>, \<open>model-pricing-core.ts\<close>,
    \<open>model-pricing-snapshots.ts\<close>, and the hooks of \<open>model-pricing-sheet.tsx\<close>, \<open>model-ratio-visual-editor.tsx\<close>, \<open>model-ratio-form.tsx\<close> and
    \<open>ratio-settings-card.tsx\<close>): the editor of model prices. Saving changes exactly its target models and is read back, rows are marked as changed
    just when their prices differ, the ratios of the panel (\<open>panel_step\<close>) follow the prices shown, and numbers keep their precision; a change from a
    fixed price to prices per token is lost.
  \<^item> \<open>Currency\<close>, \<open>CurrencyRules\<close> (\<open>stores/system-config-store.ts\<close>, \<open>hooks/use-system-config.ts\<close>, \<open>lib/currency.ts\<close>,
    \<open>lib/format.ts\<close>): the settings of the site and the amounts it shows. Quota converted for a form and back is unchanged, numbers are shown as
    their nearest decimal without superfluous zeros, billing amounts never appear as tokens, and the 32-bit hash behind the colours is the
    polynomial it stands for.
  \<^item> \<open>FlowGraph\<close>, \<open>FlowRules\<close>, \<open>FlowProps\<close> (\<open>features/dashboard/lib/flow.ts\<close>): usage as a graph. Columns carry the
    whole usage, inner nodes balance, limits keep the largest nodes, masking changes labels only.

  \<^bold>\<open>Interfaces.\<close> The locales are \<open>dictionary\<close> (interpreted on association lists and on objects),
  \<open>codec\<close> (on the two printers and the parser of JSON), \<open>invariant_system\<close> (a step relation and what
  its steps keep: \<open>chat_sys\<close>, \<open>sess_sys\<close>, \<open>sync_sys\<close>, \<open>editor_sys\<close>, \<open>panel_sys\<close>), \<open>zod\<close> (on a reference parser for the schemas of the source), \<open>comparison\<close>
  (on the order of code units) and \<open>tally\<close> (on the nodes, links and ranks of the flow).

  \<^bold>\<open>Fuel and bounds.\<close> \<open>JSON.parse\<close> has fuel \<open>2 * length + 2\<close>, which \<open>parse_fuel_enough\<close> shows to be
  enough; a star of a regular expression is unrolled at most as often as the text has units left, and an
  iteration that consumes nothing ends it. Numerals print at most 22 fraction digits, more than a
  double needs. All other recursion is structural or has a termination proof.

  \<^bold>\<open>Not modelled.\<close> The Go server, the Electron shell and the older console in \<open>web/classic\<close> (other
  languages); React views and their form wiring, except for the dialog and the price editor named above; \<open>lib/api.ts\<close> (I/O); translations and the generated
  route tree; image and speech generation (browser files and audio); the chart
  specifications of the overview, among them the static part of \<open>buildFlowSankeySpec\<close>; \<open>evalExprLocally\<close>, which compiles its argument
  as JavaScript; the requests behind the buttons of the channel table
  (\<open>channel-actions.ts\<close>, I/O); demonstration statistics and display tables.
\<close>

end
